(* ===== verification/Prelude.thy ===== *)
theory Prelude
  imports Main "HOL-Library.AList" "HOL-Library.Char_ord" "HOL-Library.List_Lexorder"
begin

text \<open>
  What every component shares: Go's maps as association lists with distinct keys, sorting by a
  key, the first repeated element, and the collections the proofs draw on. A Go map has no
  iteration order of its own, so a loop over a map is a walk over the association list: the
  list stands for whichever order the runtime picked, and the results that the code sorts do
  not depend on it (\<open>gm_keys_eq\<close>, \<open>sort_key_distinct_eq\<close>).
\<close>

section \<open>Proof collections\<close>

named_theorems gomap "lookups and keys of Go maps"

section \<open>Go maps\<close>

type_synonym ('k, 'v) gomap = "('k \<times> 'v) list"

definition gm_ok :: "('k, 'v) gomap \<Rightarrow> bool" where
  "gm_ok m \<longleftrightarrow> distinct (map fst m)"

definition gm_get :: "('k, 'v) gomap \<Rightarrow> 'k \<Rightarrow> 'v option" where
  "gm_get m k = map_of m k"

definition gm_put :: "'k \<Rightarrow> 'v \<Rightarrow> ('k, 'v) gomap \<Rightarrow> ('k, 'v) gomap" where
  "gm_put k v m = AList.update k v m"

definition gm_del :: "'k \<Rightarrow> ('k, 'v) gomap \<Rightarrow> ('k, 'v) gomap" where
  "gm_del k m = AList.delete k m"

definition gm_has :: "('k, 'v) gomap \<Rightarrow> 'k \<Rightarrow> bool" where
  "gm_has m k \<longleftrightarrow> gm_get m k \<noteq> None"

text \<open>A read of a missing key yields the zero value, given as \<open>d\<close>.\<close>

definition gm_getd :: "'v \<Rightarrow> ('k, 'v) gomap \<Rightarrow> 'k \<Rightarrow> 'v" where
  "gm_getd d m k = (case gm_get m k of None \<Rightarrow> d | Some v \<Rightarrow> v)"

definition gm_keys :: "('k::linorder, 'v) gomap \<Rightarrow> 'k list" where
  "gm_keys m = sort (map fst m)"

text \<open>A map read as a set, the way \<open>map[string]bool\<close> is used.\<close>

definition gm_on :: "('k, bool) gomap \<Rightarrow> 'k \<Rightarrow> bool" where
  "gm_on m k = gm_getd False m k"

definition gm_inc :: "'k \<Rightarrow> ('k, int) gomap \<Rightarrow> ('k, int) gomap" where
  "gm_inc k m = gm_put k (gm_getd 0 m k + 1) m"

lemma gm_get_Nil [simp, gomap]: "gm_get [] k = None"
  by (simp add: gm_get_def)

lemma gm_get_Cons [gomap]: "gm_get ((a, b) # m) k = (if k = a then Some b else gm_get m k)"
  by (simp add: gm_get_def)

lemma gm_get_put [simp, gomap]: "gm_get (gm_put k v m) k' = (if k' = k then Some v else gm_get m k')"
  by (simp add: gm_get_def gm_put_def update_conv')

lemma gm_get_del [simp, gomap]: "gm_get (gm_del k m) k' = (if k' = k then None else gm_get m k')"
  by (simp add: gm_get_def gm_del_def delete_conv')

lemma gm_has_Nil [simp, gomap]: "gm_has [] k = False"
  by (simp add: gm_has_def)

lemma gm_has_put [simp, gomap]: "gm_has (gm_put k v m) k' \<longleftrightarrow> k' = k \<or> gm_has m k'"
  by (simp add: gm_has_def)

lemma gm_has_del [simp, gomap]: "gm_has (gm_del k m) k' \<longleftrightarrow> k' \<noteq> k \<and> gm_has m k'"
  by (simp add: gm_has_def)

lemma gm_getd_Nil [simp, gomap]: "gm_getd d [] k = d"
  by (simp add: gm_getd_def)

lemma gm_getd_put [simp, gomap]: "gm_getd d (gm_put k v m) k' = (if k' = k then v else gm_getd d m k')"
  by (simp add: gm_getd_def)

lemma gm_getd_del [simp, gomap]: "gm_getd d (gm_del k m) k' = (if k' = k then d else gm_getd d m k')"
  by (simp add: gm_getd_def)

lemma gm_on_Nil [simp, gomap]: "gm_on [] k = False"
  by (simp add: gm_on_def)

lemma gm_on_put [simp, gomap]: "gm_on (gm_put k v m) k' = (if k' = k then v else gm_on m k')"
  by (simp add: gm_on_def)

lemma gm_getd_inc [simp, gomap]: "gm_getd 0 (gm_inc k m) k' = (if k' = k then gm_getd 0 m k + 1 else gm_getd 0 m k')"
  by (simp add: gm_inc_def)

lemma fst_set_put [simp, gomap]: "fst ` set (gm_put k v m) = insert k (fst ` set m)"
  by (simp add: gm_put_def dom_update)

lemma fst_set_del [simp, gomap]: "fst ` set (gm_del k m) = fst ` set m - {k}"
  by (auto simp: gm_del_def AList.delete_eq)

lemma gm_has_iff [gomap]: "gm_has m k \<longleftrightarrow> k \<in> fst ` set m"
proof -
  have "map_of m k \<noteq> None \<longleftrightarrow> k \<in> fst ` set m"
    by (metis map_of_eq_None_iff)
  then show ?thesis by (simp add: gm_has_def gm_get_def)
qed

lemma gm_ok_Nil [simp]: "gm_ok []"
  by (simp add: gm_ok_def)

lemma gm_ok_put [simp, intro]: "gm_ok m \<Longrightarrow> gm_ok (gm_put k v m)"
  by (simp add: gm_ok_def gm_put_def distinct_update)

lemma gm_ok_del [simp, intro]: "gm_ok m \<Longrightarrow> gm_ok (gm_del k m)"
  by (simp add: gm_ok_def gm_del_def distinct_delete)

lemma gm_ok_inc [simp, intro]: "gm_ok m \<Longrightarrow> gm_ok (gm_inc k m)"
  by (simp add: gm_inc_def)

lemma gm_get_in: "gm_get m k = Some v \<Longrightarrow> (k, v) \<in> set m"
  by (simp add: gm_get_def map_of_SomeD)

lemma gm_in_get: "gm_ok m \<Longrightarrow> (k, v) \<in> set m \<Longrightarrow> gm_get m k = Some v"
  by (simp add: gm_ok_def gm_get_def)

lemma gm_ok_Cons: "gm_ok ((k, v) # m) \<longleftrightarrow> k \<notin> fst ` set m \<and> gm_ok m"
  by (simp add: gm_ok_def)

text \<open>A new key goes to the end, so a map built from distinct keys is the list of its insertions.\<close>

lemma gm_put_new: "\<not> gm_has m k \<Longrightarrow> gm_put k v m = m @ [(k, v)]"
proof (induction m)
  case Nil
  then show ?case by (simp add: gm_put_def)
next
  case (Cons p m)
  obtain a b where p: "p = (a, b)" by fastforce
  with Cons.prems have "k \<noteq> a" "\<not> gm_has m k" by (auto simp: gm_has_iff)
  with Cons.IH show ?case by (simp add: p gm_put_def)
qed

section \<open>Sorting\<close>

lemma set_gm_keys [simp, gomap]: "set (gm_keys m) = fst ` set m"
  by (simp add: gm_keys_def)

lemma sorted_gm_keys [simp]: "sorted (gm_keys m)"
  by (simp add: gm_keys_def)

lemma distinct_gm_keys [simp]: "gm_ok m \<Longrightarrow> distinct (gm_keys m)"
  by (simp add: gm_keys_def gm_ok_def)

text \<open>
  A sorted list without repetitions is determined by its elements, so what the code sorts does
  not depend on the order in which a map was walked.
\<close>

lemma gm_keys_eq:
  assumes "gm_ok m" "gm_ok m'" "fst ` set m = fst ` set m'"
  shows "gm_keys m = gm_keys m'"
  using assms by (metis distinct_gm_keys set_gm_keys sorted_distinct_set_unique sorted_gm_keys)

text \<open>
  \<open>sort.Slice\<close> and \<open>sort.SliceStable\<close> by a string field. The first is not stable, but where
  the code uses it the keys are distinct, so both give the list \<open>sort_key\<close> gives.
\<close>

lemma sort_key_Nil_iff [simp]: "sort_key f xs = [] \<longleftrightarrow> xs = []"
  by (metis length_0_conv length_sort)

lemma sort_key_distinct_eq:
  assumes "set xs = set ys" "distinct (map f xs)" "distinct (map f ys)"
  shows "sort_key f xs = sort_key f ys"
proof (rule map_sorted_distinct_set_unique [where f = f])
  show "inj_on f (set (sort_key f xs) \<union> set (sort_key f ys))"
    using assms by (simp add: distinct_map)
  show "sorted (map f (sort_key f xs))" "sorted (map f (sort_key f ys))"
    by simp_all
  show "distinct (map f (sort_key f xs))" "distinct (map f (sort_key f ys))"
    using assms by (auto simp: distinct_map)
  show "set (sort_key f xs) = set (sort_key f ys)"
    using assms by simp
qed

lemma find_SomeD: "find P xs = Some x \<Longrightarrow> x \<in> set xs \<and> P x"
  by (induction xs) (auto split: if_splits)

lemma find_None_I: "(\<And>x. x \<in> set xs \<Longrightarrow> \<not> P x) \<Longrightarrow> find P xs = None"
  by (induction xs) auto

lemma find_None_D: "find P xs = None \<Longrightarrow> x \<in> set xs \<Longrightarrow> \<not> P x"
  by (induction xs) (auto split: if_splits)

text \<open>Keeping the first of two equal elements is what the code's \<open>seen\<close> maps do.\<close>

fun nub_first :: "'a list \<Rightarrow> 'a list \<Rightarrow> 'a list" where
  "nub_first seen [] = []"
| "nub_first seen (x # xs) = (if x \<in> set seen then nub_first seen xs else x # nub_first (x # seen) xs)"

lemma set_nub_first: "set (nub_first seen xs) = set xs - set seen"
  by (induction seen xs rule: nub_first.induct) auto

lemma distinct_nub_first: "distinct (nub_first seen xs)"
  by (induction seen xs rule: nub_first.induct) (auto simp: set_nub_first)

section \<open>Results\<close>

text \<open>
  Go's \<open>(T, error)\<close> is \<open>'e + 'a\<close>: \<open>Inl e\<close> for a non-nil error, \<open>Inr x\<close> for a value.
\<close>

lemma distinct_sort_map: "distinct (map f (sort_key k xs)) = distinct (map f xs)"
  by (metis distinct_map distinct_sort set_sort)

end
