(* ===== verification/Gostring.thy ===== *)
theory Gostring
  imports Prelude
begin

text \<open>
  Go strings: sequences of bytes (a HOL \<open>char\<close> is one byte) that the standard library reads as
  UTF-8. Decoding, trimming, cutting and splitting are written out as the \<open>strings\<close>,
  \<open>unicode\<close> and \<open>unicode/utf8\<close> packages define them, invalid bytes included, because the
  program trims and counts characters of operator and device input.
\<close>

section \<open>Runes\<close>

definition byte :: "char \<Rightarrow> nat" where
  "byte c = of_char c"

definition cont_in :: "nat \<Rightarrow> nat \<Rightarrow> char \<Rightarrow> bool" where
  "cont_in lo hi c \<longleftrightarrow> lo \<le> byte c \<and> byte c \<le> hi"

definition rune_error :: nat where
  "rune_error = 65533"

text \<open>The range of the second byte that makes the encoding shortest and no surrogate.\<close>

definition second_range :: "nat \<Rightarrow> nat \<times> nat" where
  "second_range b = (if b = 224 then (160, 191) else if b = 237 then (128, 159)
     else if b = 240 then (144, 191) else if b = 244 then (128, 143) else (128, 191))"

text \<open>\<open>utf8.DecodeRuneInString\<close>: the rune and its width; an invalid byte is U+FFFD of width 1.\<close>

definition decode_rune :: "string \<Rightarrow> nat \<times> nat" where
  "decode_rune s = (case s of [] \<Rightarrow> (rune_error, 0) | c0 # r0 \<Rightarrow>
     let b0 = byte c0; (lo, hi) = second_range b0 in
     if b0 < 128 then (b0, 1)
     else if b0 < 194 \<or> 244 < b0 then (rune_error, 1)
     else (case r0 of [] \<Rightarrow> (rune_error, 1) | c1 # r1 \<Rightarrow>
       if \<not> cont_in lo hi c1 then (rune_error, 1)
       else if b0 < 224 then ((b0 - 192) * 64 + (byte c1 - 128), 2)
       else (case r1 of [] \<Rightarrow> (rune_error, 1) | c2 # r2 \<Rightarrow>
         if \<not> cont_in 128 191 c2 then (rune_error, 1)
         else if b0 < 240 then ((b0 - 224) * 4096 + (byte c1 - 128) * 64 + (byte c2 - 128), 3)
         else (case r2 of [] \<Rightarrow> (rune_error, 1) | c3 # r3 \<Rightarrow>
           if \<not> cont_in 128 191 c3 then (rune_error, 1)
           else ((b0 - 240) * 262144 + (byte c1 - 128) * 4096 + (byte c2 - 128) * 64 + (byte c3 - 128), 4)))))"

lemma decode_rune_ascii: "byte c < 128 \<Longrightarrow> decode_rune (c # s) = (byte c, 1)"
  by (simp add: decode_rune_def Let_def split: prod.splits)

lemma decode_rune_width: "s \<noteq> [] \<Longrightarrow> 0 < snd (decode_rune s)"
  by (auto simp: decode_rune_def Let_def split: list.splits prod.splits if_splits)

function runes :: "string \<Rightarrow> nat list" where
  "runes s = (if s = [] then [] else fst (decode_rune s) # runes (drop (snd (decode_rune s)) s))"
  by pat_completeness auto
termination
  by (relation "measure length") (auto simp: decode_rune_width)

declare runes.simps [simp del]

lemma runes_Nil [simp]: "runes [] = []"
  by (simp add: runes.simps)

text \<open>\<open>unicode.IsSpace\<close> and \<open>unicode.IsControl\<close>.\<close>

definition is_space :: "nat \<Rightarrow> bool" where
  "is_space r \<longleftrightarrow> r \<in> {9, 10, 11, 12, 13, 32, 133, 160, 5760, 8232, 8233, 8239, 8287, 12288}
     \<or> 8192 \<le> r \<and> r \<le> 8202"

definition is_control :: "nat \<Rightarrow> bool" where
  "is_control r \<longleftrightarrow> r < 32 \<or> 127 \<le> r \<and> r < 160"

text \<open>An ASCII byte starts a rune, and so does the first byte of a longer encoding.\<close>

definition rune_start :: "char \<Rightarrow> bool" where
  "rune_start c \<longleftrightarrow> \<not> (128 \<le> byte c \<and> byte c < 192)"

text \<open>
  \<open>utf8.DecodeLastRuneInString\<close>: look back at most four bytes for one that starts a rune, and
  take that rune if it ends where the string ends.
\<close>

definition last_at :: "string \<Rightarrow> nat \<Rightarrow> (nat \<times> nat) option" where
  "last_at s k = (if k \<le> length s \<and> rune_start (s ! (length s - k))
     then Some (let (r, n) = decode_rune (drop (length s - k) s) in if n = k then (r, n) else (rune_error, 1))
     else None)"

definition decode_last_rune :: "string \<Rightarrow> nat \<times> nat" where
  "decode_last_rune s = (if s = [] then (rune_error, 0)
     else if byte (last s) < 128 then (byte (last s), 1)
     else (case last_at s 1 of Some _ \<Rightarrow> (rune_error, 1) | None \<Rightarrow>
       (case last_at s 2 of Some x \<Rightarrow> x | None \<Rightarrow>
       (case last_at s 3 of Some x \<Rightarrow> x | None \<Rightarrow>
       (case last_at s 4 of Some x \<Rightarrow> x | None \<Rightarrow> (rune_error, 1))))))"

lemma decode_last_rune_width: "s \<noteq> [] \<Longrightarrow> 0 < snd (decode_last_rune s)"
  by (auto simp: decode_last_rune_def last_at_def Let_def split: if_splits prod.splits option.splits)

section \<open>Trimming\<close>

function trim_left :: "string \<Rightarrow> string" where
  "trim_left s = (if s = [] then [] else if is_space (fst (decode_rune s))
     then trim_left (drop (snd (decode_rune s)) s) else s)"
  by pat_completeness auto
termination
  by (relation "measure length") (auto simp: decode_rune_width)

function trim_right :: "string \<Rightarrow> string" where
  "trim_right s = (if s = [] then [] else if is_space (fst (decode_last_rune s))
     then trim_right (take (length s - snd (decode_last_rune s)) s) else s)"
  by pat_completeness auto
termination
  by (relation "measure length") (auto simp: decode_last_rune_width)

declare trim_left.simps [simp del] trim_right.simps [simp del]

definition trim_space :: "string \<Rightarrow> string" where
  "trim_space s = trim_right (trim_left s)"

lemma trim_left_Nil [simp]: "trim_left [] = []"
  by (simp add: trim_left.simps)

lemma trim_right_Nil [simp]: "trim_right [] = []"
  by (simp add: trim_right.simps)

lemma trim_space_Nil [simp]: "trim_space [] = []"
  by (simp add: trim_space_def)

lemma trim_space_ascii:
  assumes "s \<noteq> []" "byte (hd s) < 128" "\<not> is_space (byte (hd s))" "byte (last s) < 128" "\<not> is_space (byte (last s))"
  shows "trim_space s = s"
proof -
  have "fst (decode_rune s) = byte (hd s)" using assms(1,2) by (cases s) (simp_all add: decode_rune_ascii)
  moreover have "fst (decode_last_rune s) = byte (last s)" using assms by (simp add: decode_last_rune_def)
  ultimately show ?thesis using assms by (simp add: trim_space_def trim_left.simps [of s] trim_right.simps [of s])
qed

lemma trim_left_first: "trim_left s \<noteq> [] \<Longrightarrow> \<not> is_space (fst (decode_rune (trim_left s)))"
proof (induction s rule: trim_left.induct)
  case (1 s)
  then show ?case
    by (cases "s = [] \<or> \<not> is_space (fst (decode_rune s))") (auto simp: trim_left.simps [of s] split: if_splits)
qed

lemma trim_right_last: "trim_right s \<noteq> [] \<Longrightarrow> \<not> is_space (fst (decode_last_rune (trim_right s)))"
proof (induction s rule: trim_right.induct)
  case (1 s)
  then show ?case
    by (cases "s = [] \<or> \<not> is_space (fst (decode_last_rune s))") (auto simp: trim_right.simps [of s] split: if_splits)
qed

lemma trim_right_idem: "trim_right (trim_right s) = trim_right s"
  using trim_right_last [of s] by (cases "trim_right s = []") (auto simp: trim_right.simps [of "trim_right s"])

text \<open>Trimming twice trims nothing more: a rune that decodes is decoded the same way before any other bytes.\<close>

lemma decode_rune_append:
  assumes "fst (decode_rune p) \<noteq> rune_error"
  shows "decode_rune (p @ t) = decode_rune p"
proof (cases p)
  case Nil
  then show ?thesis using assms by (simp add: decode_rune_def)
next
  case (Cons c0 r0)
  obtain lo hi where "second_range (byte c0) = (lo, hi)" by fastforce
  then show ?thesis using assms Cons by (auto simp: decode_rune_def Let_def split: list.splits if_splits)
qed

lemma trim_right_prefix: "\<exists>t. s = trim_right s @ t"
proof (induction s rule: trim_right.induct)
  case (1 s)
  show ?case
  proof (cases "s = [] \<or> \<not> is_space (fst (decode_last_rune s))")
    case True
    then show ?thesis by (auto simp: trim_right.simps [of s])
  next
    case False
    let ?p = "take (length s - snd (decode_last_rune s)) s"
    obtain t where "?p = trim_right ?p @ t" using 1 False by blast
    then have "s = trim_right ?p @ t @ drop (length s - snd (decode_last_rune s)) s" by (metis append_assoc append_take_drop_id)
    then show ?thesis using False by (auto simp: trim_right.simps [of s])
  qed
qed

lemma trim_space_idem [simp]: "trim_space (trim_space s) = trim_space s"
proof (cases "trim_space s = []")
  case False
  let ?u = "trim_left s" and ?p = "trim_space s"
  obtain t where t: "?u = ?p @ t" using trim_right_prefix [of ?u] by (auto simp: trim_space_def)
  then have "?u \<noteq> []" using False by auto
  then have "\<not> is_space (fst (decode_rune (?p @ t)))" using trim_left_first [of s] t by simp
  moreover have "\<not> is_space rune_error" by (simp add: is_space_def rune_error_def)
  ultimately have "\<not> is_space (fst (decode_rune ?p))" using decode_rune_append [of ?p t] by metis
  then have "trim_left ?p = ?p" using False by (simp add: trim_left.simps [of ?p])
  then show ?thesis by (simp add: trim_space_def trim_right_idem)
qed simp

text \<open>\<open>strings.Fields\<close>: the parts between runs of white space.\<close>

function take_word :: "string \<Rightarrow> string \<times> string" where
  "take_word s = (if s = [] \<or> is_space (fst (decode_rune s)) then ([], s)
     else (let n = snd (decode_rune s) in case take_word (drop n s) of (w, r) \<Rightarrow> (take n s @ w, r)))"
  by pat_completeness auto
termination
  by (relation "measure length") (auto simp: decode_rune_width)

declare take_word.simps [simp del]

lemma take_word_append: "take_word s = (w, r) \<Longrightarrow> s = w @ r"
proof (induction s arbitrary: w r rule: take_word.induct)
  case (1 s)
  show ?case
  proof (cases "s = [] \<or> is_space (fst (decode_rune s))")
    case True
    then show ?thesis using "1.prems" by (auto simp: take_word.simps [of s])
  next
    case False
    obtain w' r' where t: "take_word (drop (snd (decode_rune s)) s) = (w', r')" by (metis surj_pair)
    then have "drop (snd (decode_rune s)) s = w' @ r'" using "1.IH" [OF False refl] by simp
    then show ?thesis using "1.prems" False t by (simp add: take_word.simps [of s] Let_def) (metis append_take_drop_id append_assoc)
  qed
qed

lemma take_word_shorter: "s \<noteq> [] \<Longrightarrow> \<not> is_space (fst (decode_rune s)) \<Longrightarrow> length (snd (take_word s)) < length s"
proof -
  assume a: "s \<noteq> []" "\<not> is_space (fst (decode_rune s))"
  obtain w r where t: "take_word s = (w, r)" by (metis surj_pair)
  have "w \<noteq> []" using t a decode_rune_width [OF a(1)] by (auto simp: take_word.simps [of s] Let_def split: prod.splits)
  then show ?thesis using take_word_append [OF t] t by simp
qed

lemma trim_left_length: "length (trim_left s) \<le> length s"
proof (induction s rule: trim_left.induct)
  case (1 s)
  then show ?case by (cases "s = [] \<or> \<not> is_space (fst (decode_rune s))") (auto simp: trim_left.simps [of s])
qed

lemma go_fields_shorter: "trim_left s \<noteq> [] \<Longrightarrow> (w, r) = take_word (trim_left s) \<Longrightarrow> length r < length s"
  using take_word_shorter [of "trim_left s"] trim_left_first [of s] trim_left_length [of s] by (cases "take_word (trim_left s)") auto

function go_fields :: "string \<Rightarrow> string list" where
  "go_fields s = (if trim_left s = [] then [] else case take_word (trim_left s) of (w, r) \<Rightarrow> w # go_fields r)"
  by pat_completeness auto
termination
  by (relation "measure length") (simp_all add: go_fields_shorter)

declare go_fields.simps [simp del]

text \<open>On words and blanks in ASCII.\<close>

definition word_char :: "char \<Rightarrow> bool" where
  "word_char c \<longleftrightarrow> byte c < 128 \<and> \<not> is_space (byte c)"

lemma take_word_ascii:
  assumes "list_all word_char a" "s = [] \<or> byte (hd s) < 128 \<and> is_space (byte (hd s))"
  shows "take_word (a @ s) = (a, s)"
  using assms(1)
proof (induction a)
  case Nil
  have "s \<noteq> [] \<Longrightarrow> is_space (fst (decode_rune s))" using assms(2) by (cases s) (simp_all add: decode_rune_ascii)
  then show ?case by (cases "s = []") (simp_all add: take_word.simps [of s] take_word.simps [of "[]"])
next
  case (Cons c a)
  then show ?case by (simp add: take_word.simps [of "c # a @ s"] decode_rune_ascii word_char_def)
qed

lemma trim_left_ascii: "word_char c \<Longrightarrow> trim_left (c # s) = c # s"
  by (simp add: trim_left.simps [of "c # s"] decode_rune_ascii word_char_def)

lemma trim_left_blanks: "trim_left (replicate n (CHR '' '') @ s) = trim_left s"
proof (induction n)
  case (Suc n)
  have "byte (CHR '' '') = 32" by (simp add: byte_def)
  then show ?case using Suc by (simp add: trim_left.simps [of "CHR '' '' # replicate n (CHR '' '') @ s"] decode_rune_ascii is_space_def)
qed simp

lemma go_fields_word:
  assumes "a \<noteq> []" "list_all word_char a" "s = [] \<or> byte (hd s) < 128 \<and> is_space (byte (hd s))"
  shows "go_fields (replicate n (CHR '' '') @ a @ s) = a # go_fields s"
proof -
  obtain c b where "a = c # b" using assms(1) by (metis list.exhaust)
  then have "trim_left (a @ s) = a @ s" using trim_left_ascii [of c "b @ s"] assms(2) by simp
  then show ?thesis using take_word_ascii [OF assms(2,3)] assms(1)
    by (simp add: go_fields.simps [of "replicate n (CHR '' '') @ a @ s"] trim_left_blanks)
qed

lemma go_fields_Nil [simp]: "go_fields [] = []"
  by (simp add: go_fields.simps trim_left.simps)

section \<open>Cutting and joining\<close>

text \<open>\<open>strings.Cut\<close> at the first occurrence of one byte.\<close>

fun cut_at :: "char \<Rightarrow> string \<Rightarrow> (string \<times> string) option" where
  "cut_at c [] = None"
| "cut_at c (x # xs) = (if x = c then Some ([], xs)
     else (case cut_at c xs of None \<Rightarrow> None | Some (a, b) \<Rightarrow> Some (x # a, b)))"

lemma cut_at_Some: "cut_at c s = Some (a, b) \<Longrightarrow> s = a @ c # b \<and> c \<notin> set a"
  by (induction s arbitrary: a) (auto split: if_splits option.splits)

lemma cut_at_append: "c \<notin> set a \<Longrightarrow> cut_at c (a @ c # b) = Some (a, b)"
  by (induction a) auto

text \<open>\<open>strings.Split\<close> at one byte.\<close>

fun split_at :: "char \<Rightarrow> string \<Rightarrow> string list" where
  "split_at c [] = [[]]"
| "split_at c (x # xs) = (if x = c then [] # split_at c xs
     else (case split_at c xs of [] \<Rightarrow> [[x]] | y # ys \<Rightarrow> (x # y) # ys))"

lemma split_at_none: "c \<notin> set a \<Longrightarrow> split_at c a = [a]"
  by (induction a) auto

lemma split_at_first: "c \<notin> set a \<Longrightarrow> split_at c (a @ c # b) = a # split_at c b"
  by (induction a) auto

lemma cut_at_none: "cut_at c a = None \<longleftrightarrow> c \<notin> set a"
  by (induction a) (auto split: option.splits)

lemma split_at_members: "x \<in> set s \<Longrightarrow> x = c \<or> (\<exists>i \<in> set (split_at c s). x \<in> set i)"
  by (induction s) (auto split: list.splits)

text \<open>\<open>strings.HasPrefix\<close> with \<open>strings.CutPrefix\<close>.\<close>

fun cut_prefix :: "string \<Rightarrow> string \<Rightarrow> string option" where
  "cut_prefix [] s = Some s"
| "cut_prefix (p # ps) [] = None"
| "cut_prefix (p # ps) (x # xs) = (if p = x then cut_prefix ps xs else None)"

lemma cut_prefix_iff: "cut_prefix p s = Some r \<longleftrightarrow> s = p @ r"
  by (induction p s rule: cut_prefix.induct) auto

fun join :: "string \<Rightarrow> string list \<Rightarrow> string" where
  "join sep [] = []"
| "join sep [x] = x"
| "join sep (x # y # ys) = x @ sep @ join sep (y # ys)"

definition is_lower :: "char \<Rightarrow> bool" where
  "is_lower c \<longleftrightarrow> 97 \<le> byte c \<and> byte c \<le> 122"

definition is_digit :: "char \<Rightarrow> bool" where
  "is_digit c \<longleftrightarrow> 48 \<le> byte c \<and> byte c \<le> 57"

text \<open>\<open>strings.ToUpper\<close> of a single ASCII byte.\<close>

definition upper_byte :: "char \<Rightarrow> char" where
  "upper_byte c = (if is_lower c then char_of (byte c - 32) else c)"

text \<open>Line breaks: \<open>strings.TrimSuffix\<close> of a carriage return.\<close>

abbreviation nl :: char where
  "nl \<equiv> CHR 0x0A"

definition drop_cr :: "string \<Rightarrow> string" where
  "drop_cr s = (if s \<noteq> [] \<and> last s = CHR 0x0D then butlast s else s)"

text \<open>\<open>bufio.Scanner\<close>: the lines up to the first that does not fit its buffer, and whether there is one.\<close>

definition scan_upto :: "nat \<Rightarrow> string \<Rightarrow> string list \<times> bool" where
  "scan_upto limit s = (let ps = split_at nl s; ls = (if last ps = [] then butlast ps else ps) in
     (map drop_cr (takeWhile (\<lambda>l. length l < limit) ls), list_ex (\<lambda>l. limit \<le> length l) ls))"

text \<open>\<open>strings.CutSuffix\<close> and \<open>strings.TrimPrefix\<close>.\<close>

definition cut_suffix :: "string \<Rightarrow> string \<Rightarrow> string option" where
  "cut_suffix p s = map_option rev (cut_prefix (rev p) (rev s))"

lemma cut_suffix_iff: "cut_suffix p s = Some r \<longleftrightarrow> s = r @ p"
  by (auto simp: cut_suffix_def cut_prefix_iff rev_swap)

definition trim_prefix :: "string \<Rightarrow> string \<Rightarrow> string" where
  "trim_prefix p s = (case cut_prefix p s of None \<Rightarrow> s | Some r \<Rightarrow> r)"

text \<open>\<open>strings.ToLower\<close> of ASCII text.\<close>

definition lower_byte :: "char \<Rightarrow> char" where
  "lower_byte c = (if 65 \<le> byte c \<and> byte c \<le> 90 then char_of (byte c + 32) else c)"

end
