(* ===== verification/Gotime.thy ===== *)
theory Gotime
  imports Prelude
begin

text \<open>
  The calendar of Go's \<open>time\<close> package, for the two layouts the code writes: an instant is its
  nanoseconds since 1970 in UTC, a date is computed from its day in the proleptic Gregorian calendar.
\<close>

definition nano :: int where
  "nano = 1000000000"

text \<open>Year, month and day of a day counted from 1970-01-01, by 400-year eras that begin on 1 March.\<close>

definition civil :: "int \<Rightarrow> int \<times> int \<times> int" where
  "civil days = (
     let z = days + 719468; era = z div 146097; doe = z mod 146097;
         yoe = (doe - doe div 1460 + doe div 36524 - doe div 146096) div 365;
         doy = doe - (365 * yoe + yoe div 4 - yoe div 100);
         mp = (5 * doy + 2) div 153;
         dd = doy - (153 * mp + 2) div 5 + 1;
         mm = (if mp < 10 then mp + 3 else mp - 9)
     in (yoe + era * 400 + (if mm \<le> 2 then 1 else 0), mm, dd))"

definition digit :: "nat \<Rightarrow> char" where
  "digit n = char_of (48 + n mod 10)"

fun nat_digits :: "nat \<Rightarrow> nat \<Rightarrow> string" where
  "nat_digits 0 n = []"
| "nat_digits (Suc w) n = nat_digits w (n div 10) @ [digit n]"

fun width :: "nat \<Rightarrow> nat" where
  "width n = (if n < 10 then 1 else Suc (width (n div 10)))"

declare width.simps [simp del]

text \<open>\<open>strconv.Itoa\<close>, and the zero-padded form the layouts use.\<close>

definition pad :: "nat \<Rightarrow> int \<Rightarrow> string" where
  "pad w i = (if i < 0 then ''-'' else []) @ (let n = nat \<bar>i\<bar> in nat_digits (max w (width n)) n)"

definition itoa :: "int \<Rightarrow> string" where
  "itoa i = pad 1 i"

definition format_date :: "int \<Rightarrow> string" where
  "format_date t = (case civil (t div (86400 * nano)) of (y, m, d) \<Rightarrow> pad 4 y @ ''-'' @ pad 2 m @ ''-'' @ pad 2 d)"

definition format_rfc3339 :: "int \<Rightarrow> string" where
  "format_rfc3339 t = (let s = (t div nano) mod 86400 in
     format_date t @ ''T'' @ pad 2 (s div 3600) @ '':'' @ pad 2 (s div 60 mod 60) @ '':'' @ pad 2 (s mod 60) @ ''Z'')"

lemma civil_examples: "civil 0 = (1970, 1, 1) \<and> civil 19782 = (2024, 2, 29) \<and> civil (- 719162) = (1, 1, 1)"
  by code_simp

end
