(* ===== verification/Gonum.thy ===== *)
theory Gonum
  imports Gostring Gotime
begin

text \<open>
  \<open>strconv.Atoi\<close> and \<open>strconv.Itoa\<close>, which the retry delays and the release versions use: decimal
  integers within 64 bits, and the round trip between them.
\<close>

definition digit_value :: "char \<Rightarrow> nat" where
  "digit_value c = byte c - 48"

definition digits_value :: "string \<Rightarrow> nat" where
  "digits_value s = foldl (\<lambda>n c. n * 10 + digit_value c) 0 s"

definition int_range :: "int \<Rightarrow> bool" where
  "int_range i \<longleftrightarrow> - (2 ^ 63) \<le> i \<and> i < 2 ^ 63"

definition after_sign :: "string \<Rightarrow> string" where
  "after_sign s = (case s of c # cs \<Rightarrow> if c = CHR ''-'' \<or> c = CHR ''+'' then cs else s | [] \<Rightarrow> [])"

definition atoi :: "string \<Rightarrow> int option" where
  "atoi s = (let ds = after_sign s; n = int (digits_value ds); i = (if take 1 s = ''-'' then - n else n) in
     if ds \<noteq> [] \<and> list_all is_digit ds \<and> int_range i then Some i else None)"

lemma digits_value_snoc [simp]: "digits_value (s @ [c]) = digits_value s * 10 + digit_value c"
  by (simp add: digits_value_def)

lemma byte_digit [simp]: "byte (digit n) = 48 + n mod 10"
proof -
  have "48 + n mod 10 < 256" using mod_less_divisor [of 10 n] by linarith
  then show ?thesis by (simp add: digit_def byte_def)
qed

lemma is_digit_digit [simp]: "is_digit (digit n)"
proof -
  have "n mod 10 \<le> 9" using mod_less_divisor [of 10 n] by linarith
  then show ?thesis by (simp add: is_digit_def)
qed

lemma digit_value_digit [simp]: "digit_value (digit n) = n mod 10"
  by (simp add: digit_value_def)

lemma nat_digits_all [simp]: "list_all is_digit (nat_digits w n)"
  by (induction w n rule: nat_digits.induct) auto

lemma length_nat_digits [simp]: "length (nat_digits w n) = w"
  by (induction w n rule: nat_digits.induct) auto

lemma nat_digits_value: "n < 10 ^ w \<Longrightarrow> digits_value (nat_digits w n) = n"
proof (induction w n rule: nat_digits.induct)
  case (1 n)
  then show ?case by (simp add: digits_value_def)
next
  case (2 w n)
  then have "n div 10 < 10 ^ w" by (simp add: less_mult_imp_div_less mult.commute)
  with 2 show ?case by simp
qed

lemma width_pos: "0 < width n"
  by (subst width.simps) simp

lemma width_enough: "n < 10 ^ width n"
proof (induction n rule: width.induct)
  case (1 n)
  show ?case
  proof (cases "n < 10")
    case True
    then show ?thesis by (simp add: width.simps [of n])
  next
    case False
    then have "n div 10 < 10 ^ width (n div 10)" using 1 by simp
    then have "n < 10 * 10 ^ width (n div 10)" by (metis div_less_iff_less_mult mult.commute zero_less_numeral)
    then show ?thesis using False by (simp add: width.simps [of n])
  qed
qed

lemma atoi_itoa: "int_range i \<Longrightarrow> atoi (itoa i) = Some i"
proof -
  assume r: "int_range i"
  let ?n = "nat \<bar>i\<bar>" and ?ds = "nat_digits (width (nat \<bar>i\<bar>)) (nat \<bar>i\<bar>)"
  have itoa: "itoa i = (if i < 0 then ''-'' else []) @ ?ds"
    using width_pos [of ?n] by (simp add: itoa_def pad_def Let_def max_def)
  have ds: "?ds \<noteq> []" "list_all is_digit ?ds" "digits_value ?ds = ?n"
    using width_pos [of ?n] by (simp_all add: nat_digits_value width_enough flip: length_greater_0_conv)
  obtain c cs where c: "?ds = c # cs" "is_digit c" using ds by (cases ?ds) auto
  then have "c \<noteq> CHR ''-'' \<and> c \<noteq> CHR ''+''" by (auto simp: is_digit_def byte_def)
  then have "after_sign (itoa i) = ?ds \<and> (take 1 (itoa i) = ''-'' \<longleftrightarrow> i < 0)" using c(1) by (simp add: itoa after_sign_def)
  then show ?thesis using ds(1,2) r by (simp add: atoi_def Let_def nat_digits_value [OF width_enough])
qed

end
