(* ===== verification/Gofloat.thy ===== *)
theory Gofloat
  imports Complex_Main "HOL-Library.Log_Nat"
begin

text \<open>
  Go's \<open>float64\<close>: IEEE 754 binary64 with round-half-to-even after every operation, as rationals
  with the two infinities and NaN. The two zeros are one value here; the program never divides
  by a negative zero (its divisors are counters, durations and totals, all tested for being
  positive or converted from integers). Rounding is computed: the exponent of the last place
  comes from the binary logarithm of the exact result, so every operation evaluates.
\<close>

datatype f64 = NaN | PInf | NInf | Fin rat

section \<open>Rounding\<close>

lemma floor_rat_numeral [simp]: "\<lfloor>numeral a / numeral b :: rat\<rfloor> = numeral a div numeral b"
  using floor_divide_of_int_eq [of "numeral a" "numeral b", where 'a = rat] by simp

lemma floor_rat_one [simp]: "\<lfloor>1 / numeral b :: rat\<rfloor> = 1 div numeral b"
  using floor_divide_of_int_eq [of 1 "numeral b", where 'a = rat] by simp

definition rhe :: "rat \<Rightarrow> int" where
  "rhe q = (let f = \<lfloor>q\<rfloor>; d = q - of_int f in
     if d < 1/2 then f else if 1/2 < d then f + 1 else if even f then f else f + 1)"

lemma rhe_bounds: "\<lfloor>q\<rfloor> \<le> rhe q \<and> rhe q \<le> \<lfloor>q\<rfloor> + 1"
  by (simp add: rhe_def Let_def)

lemma rhe_of_int [simp]: "rhe (of_int k) = k"
  by (simp add: rhe_def)

lemma rhe_mono:
  assumes "q \<le> r"
  shows "rhe q \<le> rhe r"
proof (cases "\<lfloor>q\<rfloor> = \<lfloor>r\<rfloor>")
  case True
  with assms show ?thesis by (auto simp: rhe_def Let_def)
next
  case False
  have "\<lfloor>q\<rfloor> \<le> \<lfloor>r\<rfloor>" using assms by (rule floor_mono)
  with False have "\<lfloor>q\<rfloor> + 1 \<le> \<lfloor>r\<rfloor>" by linarith
  with rhe_bounds [of q] rhe_bounds [of r] show ?thesis by linarith
qed

lemma rhe_le_int: "q \<le> of_int k \<Longrightarrow> rhe q \<le> k"
  using rhe_mono [of q "of_int k"] by simp

lemma rhe_ge_int: "of_int k \<le> q \<Longrightarrow> k \<le> rhe q"
  using rhe_mono [of "of_int k" q] by simp

definition flog2 :: "rat \<Rightarrow> int" where
  "flog2 x = (let (n, d) = quotient_of x; k = bitlen n - bitlen d in
     if 2 powi k \<le> x then k else k - 1)"

lemma powi_split: "(2::rat) powi (bitlen n) = 2 ^ nat (bitlen n)"
  by (simp add: power_int_def bitlen_nonneg)

lemma bitlen_powi:
  assumes "0 < n"
  shows "(2::rat) powi (bitlen n - 1) \<le> of_int n" "of_int n < (2::rat) powi (bitlen n)"
proof -
  have b: "2 ^ nat (bitlen n - 1) \<le> n" "n < 2 ^ nat (bitlen n)"
    using bitlen_bounds [OF assms] by auto
  have "bitlen n \<noteq> 0" using assms by (simp add: bitlen_eq_zero_iff)
  with bitlen_nonneg [of n] have pos: "0 \<le> bitlen n - 1" by linarith
  have "of_int (2 ^ nat (bitlen n - 1)) \<le> (of_int n :: rat)" using b(1) of_int_le_iff by blast
  then show "(2::rat) powi (bitlen n - 1) \<le> of_int n"
    using pos by (simp add: power_int_def)
  have "of_int n < (of_int (2 ^ nat (bitlen n)) :: rat)" using b(2) of_int_less_iff by blast
  then show "of_int n < (2::rat) powi (bitlen n)"
    by (simp add: power_int_def bitlen_nonneg)
qed

lemma flog2_bounds:
  assumes "0 < x"
  shows "2 powi (flog2 x) \<le> x" "x < 2 powi (flog2 x + 1)"
proof -
  obtain n d where nd: "quotient_of x = (n, d)" by fastforce
  have d: "0 < d" using nd by (rule quotient_of_denom_pos)
  have x: "x = of_int n / of_int d" using nd by (rule quotient_of_div)
  have n: "0 < n" using assms x d by (simp add: zero_less_divide_iff)
  define k where "k = bitlen n - bitlen d"
  have "x < 2 powi (bitlen n) / 2 powi (bitlen d - 1)"
    unfolding x using bitlen_powi [OF n] bitlen_powi [OF d] d
    by (intro frac_less) (auto simp: n less_imp_le)
  also have "\<dots> = 2 powi (k + 1)" by (simp add: power_int_diff [symmetric] k_def algebra_simps flip: power_int_diff)
  finally have up: "x < 2 powi (k + 1)" .
  have "2 powi (k - 1) = 2 powi (bitlen n - 1) / (2::rat) powi (bitlen d)"
    by (simp add: k_def algebra_simps flip: power_int_diff)
  also have "\<dots> \<le> x"
    unfolding x using bitlen_powi [OF n] bitlen_powi [OF d] d n
    by (intro frac_le) auto
  finally have lo: "2 powi (k - 1) \<le> x" .
  have f: "flog2 x = (if 2 powi k \<le> x then k else k - 1)"
    by (simp add: flog2_def nd k_def)
  show "2 powi (flog2 x) \<le> x" "x < 2 powi (flog2 x + 1)"
    using up lo by (auto simp: f)
qed

lemma powi2_less_iff: "(2::rat) powi a < 2 powi b \<longleftrightarrow> a < b"
proof -
  have "a < b \<Longrightarrow> (2::rat) powi a < 2 powi b" for a b :: int
    by (rule power_int_strict_increasing) simp_all
  moreover from this have "b < a \<Longrightarrow> (2::rat) powi b < 2 powi a" .
  ultimately show ?thesis by (metis less_irrefl less_trans linorder_neqE)
qed

lemma powi2_le_iff: "(2::rat) powi a \<le> 2 powi b \<longleftrightarrow> a \<le> b"
  by (meson linorder_not_le powi2_less_iff)

lemma flog2_mono:
  assumes "0 < x" "x \<le> y"
  shows "flog2 x \<le> flog2 y"
proof -
  have "2 powi (flog2 x) < (2::rat) powi (flog2 y + 1)"
    using flog2_bounds(1) [OF assms(1)] flog2_bounds(2) [of y] assms by linarith
  then show ?thesis by (simp add: powi2_less_iff)
qed

definition ulp_exp :: "rat \<Rightarrow> int" where
  "ulp_exp x = max (flog2 x - 52) (- 1074)"

definition rnd_pos :: "rat \<Rightarrow> rat" where
  "rnd_pos x = (let e = ulp_exp x in of_int (rhe (x / 2 powi e)) * 2 powi e)"

definition rnd :: "rat \<Rightarrow> f64" where
  "rnd x = (if x = 0 then Fin 0
     else if 0 < x then (let y = rnd_pos x in if 2 ^ 1024 \<le> y then PInf else Fin y)
     else (let y = rnd_pos (- x) in if 2 ^ 1024 \<le> y then NInf else Fin (- y)))"

lemma rnd_pos_le:
  assumes "x \<le> 2 powi m" "ulp_exp x \<le> m"
  shows "rnd_pos x \<le> 2 powi m"
proof -
  define e where "e = ulp_exp x"
  have "x / 2 powi e \<le> 2 powi m / 2 powi e" using assms(1) by (intro divide_right_mono) auto
  also have "\<dots> = 2 powi (m - e)" by (simp add: power_int_diff)
  also have "\<dots> = of_int (2 ^ nat (m - e))" using assms(2) by (simp add: power_int_def e_def)
  finally have "rhe (x / 2 powi e) \<le> 2 ^ nat (m - e)" by (rule rhe_le_int)
  then have "(of_int (rhe (x / 2 powi e)) :: rat) \<le> of_int (2 ^ nat (m - e))" by (simp only: of_int_le_iff)
  also have "\<dots> = 2 powi (m - e)" using assms(2) by (simp add: power_int_def e_def)
  finally have "of_int (rhe (x / 2 powi e)) * 2 powi e \<le> 2 powi (m - e) * (2::rat) powi e"
    by (intro mult_right_mono) auto
  also have "\<dots> = 2 powi m" by (simp flip: power_int_add)
  finally show ?thesis by (simp add: rnd_pos_def e_def Let_def)
qed

lemma rnd_pos_ge:
  assumes "2 powi m \<le> x" "ulp_exp x \<le> m"
  shows "2 powi m \<le> rnd_pos x"
proof -
  define e where "e = ulp_exp x"
  have "of_int (2 ^ nat (m - e)) = (2::rat) powi (m - e)" using assms(2) by (simp add: power_int_def e_def)
  also have "\<dots> = 2 powi m / 2 powi e" by (simp add: power_int_diff)
  also have "\<dots> \<le> x / 2 powi e" using assms(1) by (intro divide_right_mono) auto
  finally have "2 ^ nat (m - e) \<le> rhe (x / 2 powi e)" by (rule rhe_ge_int)
  then have "(of_int (2 ^ nat (m - e)) :: rat) \<le> of_int (rhe (x / 2 powi e))" by (simp only: of_int_le_iff)
  then have "2 powi (m - e) \<le> (of_int (rhe (x / 2 powi e)) :: rat)"
    using assms(2) by (simp add: power_int_def e_def)
  then have "2 powi (m - e) * (2::rat) powi e \<le> of_int (rhe (x / 2 powi e)) * 2 powi e"
    by (intro mult_right_mono) auto
  moreover have "2 powi (m - e) * (2::rat) powi e = 2 powi m" by (simp flip: power_int_add)
  ultimately have "(2::rat) powi m \<le> of_int (rhe (x / 2 powi e)) * 2 powi e" by simp
  then show ?thesis by (simp add: rnd_pos_def e_def Let_def)
qed

lemma rnd_pos_mono:
  assumes "0 < x" "x \<le> y"
  shows "rnd_pos x \<le> rnd_pos y"
proof (cases "ulp_exp x = ulp_exp y")
  case True
  have "x / 2 powi (ulp_exp y) \<le> y / 2 powi (ulp_exp y)" using assms by (intro divide_right_mono) auto
  then have "rhe (x / 2 powi (ulp_exp y)) \<le> rhe (y / 2 powi (ulp_exp y))" by (rule rhe_mono)
  then show ?thesis unfolding rnd_pos_def Let_def True by (intro mult_right_mono) auto
next
  case False
  define m where "m = flog2 y"
  have le: "flog2 x \<le> m" using flog2_mono [OF assms] by (simp add: m_def)
  with False have lt: "flog2 x < m" and ey: "ulp_exp y = m - 52" and ex: "ulp_exp x < m - 52"
    by (auto simp: ulp_exp_def m_def)
  have "x < 2 powi (flog2 x + 1)" using assms by (intro flog2_bounds)
  also have "\<dots> \<le> 2 powi m" using lt by (simp add: powi2_le_iff)
  finally have "rnd_pos x \<le> 2 powi m" using ex by (intro rnd_pos_le) auto
  also have "2 powi m \<le> rnd_pos y"
    using ey assms flog2_bounds(1) [of y] by (intro rnd_pos_ge) (auto simp: m_def)
  finally show ?thesis .
qed

lemma rnd_pos_nonneg: "0 < x \<Longrightarrow> 0 \<le> rnd_pos x"
proof -
  assume "0 < x"
  then have "0 \<le> rhe (x / 2 powi ulp_exp x)"
    using rhe_ge_int [of 0 "x / 2 powi ulp_exp x"] by simp
  then show ?thesis by (simp add: rnd_pos_def Let_def)
qed

text \<open>Integers of up to 53 bits are represented exactly.\<close>

lemma rnd_pos_int:
  assumes "0 < k" "k \<le> 2 ^ 53"
  shows "rnd_pos (of_int k) = of_int k"
proof (cases "k = 2 ^ 53")
  case True
  have x: "(of_int k :: rat) = 2 powi 53" by (simp add: True power_int_def)
  have pos: "(0::rat) < 2 powi 53" by simp
  have f: "flog2 (2 powi 53) = 53"
    using flog2_bounds [OF pos] unfolding powi2_le_iff powi2_less_iff by linarith
  then have "ulp_exp (2 powi 53) \<le> 53" by (simp add: ulp_exp_def)
  then have "rnd_pos (2 powi 53) = 2 powi 53"
    using rnd_pos_le [of "2 powi 53" 53] rnd_pos_ge [of 53 "2 powi 53"] by (intro antisym) auto
  then show ?thesis by (simp only: x)
next
  case False
  with assms have lt: "k < 2 ^ 53" by simp
  have pos: "(0::rat) < of_int k" using assms by simp
  have "(2::rat) powi (flog2 (of_int k)) \<le> of_int k" using pos by (intro flog2_bounds)
  also have "\<dots> < of_int (2 ^ 53)" using lt of_int_less_iff by blast
  also have "\<dots> = 2 powi 53" by (simp add: power_int_def)
  finally have "flog2 (of_int k) < 53" by (simp only: powi2_less_iff)
  then have e: "ulp_exp (of_int k) \<le> 0" by (simp add: ulp_exp_def)
  define e where "e = ulp_exp (of_int k)"
  have "(of_int k :: rat) / 2 powi e = of_int k * 2 powi (- e)" by (simp add: power_int_minus divide_inverse)
  also have "\<dots> = of_int (k * 2 ^ nat (- e))" using e by (simp add: power_int_def e_def)
  finally have "rhe (of_int k / 2 powi e) = k * 2 ^ nat (- e)" by (simp only: rhe_of_int)
  then have "rnd_pos (of_int k) = of_int (k * 2 ^ nat (- e)) * 2 powi e"
    by (simp add: rnd_pos_def e_def Let_def)
  also have "\<dots> = of_int k * 2 powi (- e) * 2 powi e" using e by (simp add: power_int_def e_def)
  also have "\<dots> = of_int k * 2 powi (- e + e)" by (simp only: mult.assoc power_int_add [symmetric] zero_neq_numeral [symmetric] not_False_eq_True simp_thms)
  finally show ?thesis by simp
qed

text \<open>
  Evaluation by the simplifier: the binary exponent is given, the two comparisons and the
  rounding are arithmetic on numerals.
\<close>

lemma flog2_eqI:
  assumes "2 powi k \<le> x" "x < 2 powi (k + 1)"
  shows "flog2 x = k"
proof -
  have x: "0 < x" using assms(1) by (rule less_le_trans [rotated]) simp
  have "(2::rat) powi k < 2 powi (flog2 x + 1)"
    using assms(1) flog2_bounds(2) [OF x] by (rule le_less_trans)
  moreover have "(2::rat) powi (flog2 x) < 2 powi (k + 1)"
    using flog2_bounds(1) [OF x] assms(2) by (rule le_less_trans)
  ultimately show ?thesis unfolding powi2_less_iff by linarith
qed

lemma rnd_val:
  assumes "2 powi k \<le> x" "x < 2 powi (k + 1)" "- 1022 \<le> k"
    and "rhe (x / 2 powi (k - 52)) = n" "of_int n * 2 powi (k - 52) = y" "y < 2 ^ 1024"
  shows "rnd x = Fin y"
proof -
  have x: "0 < x" using assms(1) by (rule less_le_trans [rotated]) simp
  have "ulp_exp x = k - 52" using flog2_eqI [OF assms(1,2)] assms(3) by (simp add: ulp_exp_def)
  then have "rnd_pos x = y" using assms by (simp add: rnd_pos_def Let_def)
  with x assms(6) show ?thesis by (simp add: rnd_def Let_def)
qed

lemma rnd_pos_exact:
  assumes "x = of_int n * 2 powi e" "ulp_exp x \<le> e"
  shows "rnd_pos x = x"
proof -
  define u where "u = ulp_exp x"
  have "x / 2 powi u = of_int n * 2 powi (e - u)" by (simp add: assms(1) power_int_diff)
  also have "\<dots> = of_int (n * 2 ^ nat (e - u))" using assms(2) by (simp add: power_int_def u_def)
  finally have r: "x / 2 powi u = of_int (n * 2 ^ nat (e - u))" .
  then have "rnd_pos x = of_int (n * 2 ^ nat (e - u)) * 2 powi u"
    unfolding rnd_pos_def Let_def u_def [symmetric] by (simp only: rhe_of_int)
  also have "\<dots> = x / 2 powi u * 2 powi u" by (simp only: r)
  finally show ?thesis by simp
qed

lemma rnd_dyadic:
  assumes "0 < k" "k < 2 ^ 53" "j \<le> 1000"
  shows "rnd (of_int k / 2 ^ j) = Fin (of_int k / 2 ^ j)"
proof -
  define x :: rat where "x = of_int k / 2 ^ j"
  have xe: "x = of_int k * 2 powi (- int j)"
    by (simp add: x_def power_int_minus divide_inverse)
  have x0: "0 < x" using assms by (simp add: x_def)
  have "(of_int k :: rat) < of_int (2 ^ 53)" using assms(2) of_int_less_iff by blast
  then have k53: "(of_int k :: rat) < 2 powi 53" by (simp add: power_int_def)
  have "2 powi (flog2 x) \<le> x" using x0 by (rule flog2_bounds)
  also have "\<dots> < 2 powi 53 * 2 powi (- int j)" unfolding xe using k53 by (intro mult_strict_right_mono) auto
  also have "\<dots> = 2 powi (53 + - int j)" by (subst power_int_add) auto
  finally have "flog2 x < 53 - int j" by (simp add: powi2_less_iff)
  then have "ulp_exp x \<le> - int j" using assms(3) by (auto simp: ulp_exp_def)
  then have r: "rnd_pos x = x" using xe by (rule rnd_pos_exact [rotated])
  have "x \<le> of_int k" using assms by (simp add: x_def divide_le_eq mult_le_cancel_left1)
  also have "\<dots> < 2 ^ 53" using k53 by (simp add: power_int_def)
  also have "(2::rat) ^ 53 \<le> 2 ^ 1024" by (rule power_increasing) auto
  finally show ?thesis using x0 r by (simp add: rnd_def Let_def flip: x_def)
qed

lemma rnd_nonneg_int: "0 \<le> k \<Longrightarrow> k \<le> 2 ^ 53 \<Longrightarrow> rnd (of_int k) = Fin (of_int k)"
proof -
  assume a: "0 \<le> k" "k \<le> 2 ^ 53"
  have b: "\<not> (2::rat) ^ 1024 \<le> of_int k"
  proof
    assume "(2::rat) ^ 1024 \<le> of_int k"
    then have "(of_int (2 ^ 1024) :: rat) \<le> of_int k" by simp
    then have "(2::int) ^ 1024 \<le> k" by (simp only: of_int_le_iff)
    moreover have "(2::int) ^ 53 < 2 ^ 1024" by (rule power_strict_increasing) auto
    ultimately show False using a by linarith
  qed
  show ?thesis
  proof (cases "k = 0")
    case True
    then show ?thesis by (simp add: rnd_def)
  next
    case False
    with a have "rnd_pos (of_int k) = of_int k" by (intro rnd_pos_int) auto
    with a b False show ?thesis by (auto simp: rnd_def)
  qed
qed

section \<open>Order\<close>

fun fle :: "f64 \<Rightarrow> f64 \<Rightarrow> bool" where
  "fle NaN b = False"
| "fle a NaN = False"
| "fle NInf b = True"
| "fle a PInf = True"
| "fle (Fin a) (Fin b) = (a \<le> b)"
| "fle a b = False"

definition flt :: "f64 \<Rightarrow> f64 \<Rightarrow> bool" where
  "flt a b \<longleftrightarrow> a \<noteq> NaN \<and> b \<noteq> NaN \<and> \<not> fle b a"

definition is_fin :: "f64 \<Rightarrow> bool" where
  "is_fin v = (case v of Fin _ \<Rightarrow> True | _ \<Rightarrow> False)"

lemma flt_Fin [simp]: "flt (Fin a) (Fin b) \<longleftrightarrow> a < b"
  by (auto simp: flt_def)

lemma is_fin_Fin [simp]: "is_fin (Fin x)"
  by (simp add: is_fin_def)

lemma rnd_not_NaN [simp]: "rnd x \<noteq> NaN"
  by (auto simp: rnd_def Let_def)

lemma fle_rnd_mono:
  assumes "x \<le> y"
  shows "fle (rnd x) (rnd y)"
proof -
  consider "0 < x" | "y < 0" | "x \<le> 0" "0 \<le> y" using assms by linarith
  then show ?thesis
  proof cases
    case 1
    with assms have "rnd_pos x \<le> rnd_pos y" by (intro rnd_pos_mono)
    with 1 assms show ?thesis by (auto simp: rnd_def Let_def)
  next
    case 2
    with assms have "rnd_pos (- y) \<le> rnd_pos (- x)" by (intro rnd_pos_mono) auto
    with 2 assms show ?thesis by (auto simp: rnd_def Let_def)
  next
    case 3
    have a: "x < 0 \<Longrightarrow> 0 \<le> rnd_pos (- x)" and b: "0 < y \<Longrightarrow> 0 \<le> rnd_pos y"
      by (auto intro: rnd_pos_nonneg)
    from 3 show ?thesis
      using a b by (cases "x = 0"; cases "y = 0") (auto simp: rnd_def Let_def)
  qed
qed

text \<open>A result between two small integers stays between them after rounding.\<close>

lemma rnd_between:
  assumes "of_int a \<le> x" "x \<le> of_int b" "0 \<le> a" "b \<le> 2 ^ 53"
  shows "\<exists>r. rnd x = Fin r \<and> of_int a \<le> r \<and> r \<le> of_int b"
proof -
  have ab: "a \<le> b" using assms of_int_le_iff order_trans by blast
  have "fle (rnd (of_int a)) (rnd x)" "fle (rnd x) (rnd (of_int b))"
    using assms by (auto intro: fle_rnd_mono)
  then have "fle (Fin (of_int a)) (rnd x)" "fle (rnd x) (Fin (of_int b))"
    using assms ab by (simp_all add: rnd_nonneg_int)
  then show ?thesis by (cases "rnd x") auto
qed

section \<open>Arithmetic\<close>

fun fneg :: "f64 \<Rightarrow> f64" where
  "fneg NaN = NaN"
| "fneg PInf = NInf"
| "fneg NInf = PInf"
| "fneg (Fin a) = Fin (- a)"

fun fadd :: "f64 \<Rightarrow> f64 \<Rightarrow> f64" where
  "fadd (Fin a) (Fin b) = rnd (a + b)"
| "fadd NaN b = NaN"
| "fadd a NaN = NaN"
| "fadd PInf NInf = NaN"
| "fadd NInf PInf = NaN"
| "fadd PInf b = PInf"
| "fadd NInf b = NInf"
| "fadd a PInf = PInf"
| "fadd a NInf = NInf"

definition fsub :: "f64 \<Rightarrow> f64 \<Rightarrow> f64" where
  "fsub a b = fadd a (fneg b)"

definition inf_sgn :: "rat \<Rightarrow> f64" where
  "inf_sgn s = (if s = 0 then NaN else if 0 < s then PInf else NInf)"

fun fsgn :: "f64 \<Rightarrow> rat" where
  "fsgn NaN = 0"
| "fsgn PInf = 1"
| "fsgn NInf = - 1"
| "fsgn (Fin a) = sgn a"

definition fmul :: "f64 \<Rightarrow> f64 \<Rightarrow> f64" where
  "fmul a b = (if a = NaN \<or> b = NaN then NaN else
     (case (a, b) of (Fin x, Fin y) \<Rightarrow> rnd (x * y) | _ \<Rightarrow> inf_sgn (fsgn a * fsgn b)))"

definition fdiv :: "f64 \<Rightarrow> f64 \<Rightarrow> f64" where
  "fdiv a b = (if a = NaN \<or> b = NaN then NaN else
     (case b of
        Fin y \<Rightarrow> (if y = 0 then inf_sgn (fsgn a)
                  else (case a of Fin x \<Rightarrow> rnd (x / y) | _ \<Rightarrow> inf_sgn (fsgn a * sgn y)))
      | _ \<Rightarrow> (case a of Fin x \<Rightarrow> Fin 0 | _ \<Rightarrow> NaN)))"

text \<open>The \<open>min\<close> and \<open>max\<close> built-ins: NaN if an operand is.\<close>

definition fmin :: "f64 \<Rightarrow> f64 \<Rightarrow> f64" where
  "fmin a b = (if a = NaN \<or> b = NaN then NaN else if fle a b then a else b)"

definition fmax :: "f64 \<Rightarrow> f64 \<Rightarrow> f64" where
  "fmax a b = (if a = NaN \<or> b = NaN then NaN else if fle a b then b else a)"

definition f_of_int :: "int \<Rightarrow> f64" where
  "f_of_int k = rnd (of_int k)"

text \<open>\<open>math.Round\<close>: to the nearest integer, half away from zero; always exact.\<close>

definition round_away :: "rat \<Rightarrow> int" where
  "round_away x = (if 0 \<le> x then \<lfloor>x + 1/2\<rfloor> else - \<lfloor>- x + 1/2\<rfloor>)"

definition math_round :: "f64 \<Rightarrow> f64" where
  "math_round v = (case v of Fin x \<Rightarrow> Fin (of_int (round_away x)) | _ \<Rightarrow> v)"

definition round2 :: "f64 \<Rightarrow> f64" where
  "round2 v = fdiv (math_round (fmul v (Fin 100))) (Fin 100)"

text \<open>
  The shape of every percentage the program publishes: clamped to 0 to 100 and rounded to two
  decimals, it is the float nearest to a whole number of hundredths.
\<close>

definition is_pct :: "f64 \<Rightarrow> bool" where
  "is_pct v \<longleftrightarrow> (\<exists>k::int. 0 \<le> k \<and> k \<le> 10000 \<and> v = rnd (of_int k / 100))"

lemma clamp_pct:
  "v \<noteq> NaN \<Longrightarrow> \<exists>r. fmin (fmax v (Fin 0)) (Fin 100) = Fin r \<and> 0 \<le> r \<and> r \<le> 100"
  by (cases v) (auto simp: fmin_def fmax_def)

lemma round2_pct:
  assumes "0 \<le> r" "r \<le> 100"
  shows "is_pct (round2 (Fin r))"
proof -
  have "of_int 0 \<le> r * 100" "r * 100 \<le> of_int 10000" using assms by auto
  then obtain s where s: "rnd (r * 100) = Fin s" "0 \<le> s" "s \<le> 10000"
    using rnd_between [of 0 "r * 100" 10000] by auto
  define k where "k = round_away s"
  have "0 \<le> k" using s by (simp add: k_def round_away_def)
  moreover have "k \<le> 10000"
  proof -
    have "\<lfloor>s + 1/2\<rfloor> \<le> \<lfloor>10000 + 1/2 :: rat\<rfloor>" using s by (intro floor_mono) simp
    then show ?thesis using s by (simp add: k_def round_away_def)
  qed
  moreover have "round2 (Fin r) = rnd (of_int k / 100)"
    by (simp add: round2_def fmul_def s math_round_def fdiv_def k_def)
  ultimately show ?thesis unfolding is_pct_def by blast
qed

lemma is_pct_range: "is_pct v \<Longrightarrow> \<exists>r. v = Fin r \<and> 0 \<le> r \<and> r \<le> 100"
proof -
  assume "is_pct v"
  then obtain k :: int where k: "0 \<le> k" "k \<le> 10000" "v = rnd (of_int k / 100)"
    by (auto simp: is_pct_def)
  have "of_int 0 \<le> (of_int k / 100 :: rat)" "of_int k / 100 \<le> (of_int 100 :: rat)" using k by auto
  then show ?thesis using rnd_between [of 0 "of_int k / 100" 100] k by auto
qed

section \<open>Bounded values\<close>

text \<open>A result up to a power of two stays up to it, and is finite.\<close>

lemma rnd_upto:
  assumes "0 \<le> x" "x \<le> 2 ^ k" "k \<le> 1000"
  shows "\<exists>r. rnd x = Fin r \<and> 0 \<le> r \<and> r \<le> 2 ^ k"
proof (cases "x = 0")
  case True
  then show ?thesis by (simp add: rnd_def)
next
  case False
  then have pos: "0 < x" using assms(1) by simp
  have pw: "(2::rat) ^ k = 2 powi int k" by (simp add: power_int_def)
  have "2 powi flog2 x \<le> (2::rat) powi int k" using order_trans [OF flog2_bounds(1) [OF pos] assms(2)] by (simp only: pw)
  then have "flog2 x \<le> int k" by (simp only: powi2_le_iff)
  then have "ulp_exp x \<le> int k" by (simp add: ulp_exp_def)
  then have le: "rnd_pos x \<le> 2 ^ k" using rnd_pos_le [of x "int k"] assms(2) by (simp only: pw)
  have "(2::rat) ^ k < 2 ^ 1024" using assms(3) by (intro power_strict_increasing) simp_all
  then have "rnd x = Fin (rnd_pos x)" using pos le by (simp add: rnd_def Let_def)
  then show ?thesis using le rnd_pos_nonneg [OF pos] by simp
qed

definition upto_pow :: "nat \<Rightarrow> f64 \<Rightarrow> bool" where
  "upto_pow k v \<longleftrightarrow> (case v of Fin r \<Rightarrow> 0 \<le> r \<and> r \<le> 2 ^ k | _ \<Rightarrow> False)"

lemma upto_powE: "upto_pow k v \<Longrightarrow> (\<And>r. v = Fin r \<Longrightarrow> 0 \<le> r \<Longrightarrow> r \<le> 2 ^ k \<Longrightarrow> P) \<Longrightarrow> P"
  by (auto simp: upto_pow_def split: f64.splits)

lemma upto_pow_rnd: "0 \<le> x \<Longrightarrow> x \<le> 2 ^ k \<Longrightarrow> k \<le> 1000 \<Longrightarrow> upto_pow k (rnd x)"
  using rnd_upto [of x k] by (auto simp: upto_pow_def)

lemma upto_pow_fin: "upto_pow k v \<Longrightarrow> is_fin v"
  by (auto elim: upto_powE)

lemma rnd_ge_one: "1 \<le> x \<Longrightarrow> rnd x = Fin r \<Longrightarrow> 1 \<le> r"
proof -
  assume a: "1 \<le> x" "rnd x = Fin r"
  have "rnd 1 = Fin 1" using rnd_nonneg_int [of 1] by simp
  moreover have "fle (rnd 1) (rnd x)" using a(1) by (rule fle_rnd_mono)
  ultimately show "1 \<le> r" using a(2) by simp
qed

lemma rnd_zero [simp]: "rnd 0 = Fin 0"
  by (simp add: rnd_def)

text \<open>The percentage of a part of a positive whole, clamped and rounded.\<close>

definition pct_of :: "f64 \<Rightarrow> f64 \<Rightarrow> f64" where
  "pct_of part whole = round2 (fmin (fmax (fmul (fdiv part whole) (Fin 100)) (Fin 0)) (Fin 100))"

lemma pct_of_pct:
  assumes "part \<noteq> NaN" "whole = Fin y" "y \<noteq> 0"
  shows "is_pct (pct_of part whole)"
proof -
  have "fdiv part whole \<noteq> NaN" using assms by (cases part) (auto simp: fdiv_def inf_sgn_def sgn_if)
  then have "fmul (fdiv part whole) (Fin 100) \<noteq> NaN" by (cases "fdiv part whole") (simp_all add: fmul_def inf_sgn_def)
  from clamp_pct [OF this] obtain r where "fmin (fmax (fmul (fdiv part whole) (Fin 100)) (Fin 0)) (Fin 100) = Fin r" "0 \<le> r" "r \<le> 100" by blast
  then show ?thesis by (simp add: pct_of_def round2_pct)
qed

lemma round2_upto:
  assumes "upto_pow k v" "k \<le> 900"
  shows "is_fin (round2 v)"
proof -
  obtain x where x: "v = Fin x" "0 \<le> x" "x \<le> 2 ^ k" using assms(1) by (rule upto_powE)
  have "x * 100 \<le> 2 ^ k * 2 ^ 7" using x by (intro mult_mono) simp_all
  then have "upto_pow (k + 7) (rnd (x * 100))" using x assms(2) by (intro upto_pow_rnd) (simp_all add: power_add)
  then obtain y where y: "rnd (x * 100) = Fin y" "0 \<le> y" "y \<le> 2 ^ (k + 7)" by (rule upto_powE)
  define n where "n = \<lfloor>y + 1/2\<rfloor>"
  have n0: "0 \<le> n" using y(2) by (simp add: n_def)
  have "(1::rat) \<le> 2 ^ (k + 7)" by (rule one_le_power) simp
  then have "y + 1/2 \<le> 2 ^ (k + 7) + 2 ^ (k + 7)" using y(3) by linarith
  moreover have "(2::rat) ^ (k + 8) = 2 ^ (k + 7) + 2 ^ (k + 7)" by (simp add: power_add)
  ultimately have "y + 1/2 \<le> 2 ^ (k + 8)" by simp
  then have n8: "of_int n \<le> (2::rat) ^ (k + 8)" unfolding n_def by (rule order_trans [OF of_int_floor_le])
  have "(of_int n :: rat) / 100 \<le> of_int n" using n0 by simp
  then have "of_int n / 100 \<le> (2::rat) ^ (k + 8)" using n8 by (rule order_trans)
  then have "upto_pow (k + 8) (rnd (of_int n / 100))" using n0 assms(2) by (intro upto_pow_rnd) simp_all
  moreover have "round2 v = rnd (of_int n / 100)"
    using x(1) y(1,2) by (simp add: round2_def fmul_def math_round_def fdiv_def round_away_def n_def)
  ultimately show ?thesis by (simp add: upto_pow_fin)
qed

end
