(* ===== verification/Goduration.thy ===== *)
theory Goduration
  imports Gonum Gofloat
begin

text \<open>
  Go's \<open>time.ParseDuration\<close>, which reads every interval and timeout of the configuration: a sign, then
  numbers with an optional fraction and a unit, added up in unsigned 64-bit arithmetic. The fraction goes
  through \<open>float64\<close>, as it does in Go.
\<close>

datatype duration_error = InvalidDuration string | MissingUnit string | UnknownUnit string string

definition unit_of :: "string \<Rightarrow> nat option" where
  "unit_of u = (
     if u = ''ns'' then Some 1
     else if u = ''us'' \<or> u = map char_of [194::nat, 181] @ ''s'' \<or> u = map char_of [206::nat, 188] @ ''s'' then Some 1000
     else if u = ''ms'' then Some 1000000
     else if u = ''s'' then Some 1000000000
     else if u = ''m'' then Some 60000000000
     else if u = ''h'' then Some 3600000000000
     else None)"

text \<open>\<open>leadingInt\<close>: the digits in front and what follows, None when they pass \<open>2^63\<close>.\<close>

fun leading_int :: "nat \<Rightarrow> string \<Rightarrow> (nat \<times> string) option" where
  "leading_int x [] = Some (x, [])"
| "leading_int x (c # cs) = (
     if \<not> is_digit c then Some (x, c # cs)
     else if 2 ^ 63 div 10 < x then None
     else (let y = x * 10 + digit_value c in if 2 ^ 63 < y then None else leading_int y cs))"

text \<open>\<open>leadingFraction\<close>: digits that would pass \<open>2^63\<close> are read and ignored.\<close>

fun leading_fraction :: "bool \<Rightarrow> nat \<Rightarrow> f64 \<Rightarrow> string \<Rightarrow> nat \<times> f64 \<times> string" where
  "leading_fraction over x scale [] = (x, scale, [])"
| "leading_fraction over x scale (c # cs) = (
     if \<not> is_digit c then (x, scale, c # cs)
     else if over \<or> (2 ^ 63 - 1) div 10 < x then leading_fraction True x scale cs
     else (let y = x * 10 + digit_value c in
       if 2 ^ 63 < y then leading_fraction True x scale cs else leading_fraction False y (fmul scale (Fin 10)) cs))"

definition trunc_nat :: "f64 \<Rightarrow> nat" where
  "trunc_nat v = (case v of Fin r \<Rightarrow> nat \<lfloor>r\<rfloor> | _ \<Rightarrow> 0)"

definition is_num :: "char \<Rightarrow> bool" where
  "is_num c \<longleftrightarrow> c = CHR ''.'' \<or> is_digit c"

text \<open>One number with its unit: its nanoseconds and what follows.\<close>

definition parse_number :: "string \<Rightarrow> (nat \<times> nat \<times> f64 \<times> string) option" where
  "parse_number s = (if s = [] \<or> \<not> is_num (hd s) then None
     else (case leading_int 0 s of
         None \<Rightarrow> None
       | Some (v, r) \<Rightarrow> (
           let pre = length r \<noteq> length s; dot = take 1 r = ''.'';
               (f, scale, r2) = (if dot then leading_fraction False 0 (Fin 1) (tl r) else (0, Fin 1, r));
               post = (dot \<and> length r2 \<noteq> length (tl r))
           in if \<not> pre \<and> \<not> post then None else Some (v, f, scale, r2))))"

definition parse_part :: "string \<Rightarrow> string \<Rightarrow> duration_error + nat \<times> string" where
  "parse_part orig s = (case parse_number s of
       None \<Rightarrow> Inl (InvalidDuration orig)
     | Some (v, f, scale, r) \<Rightarrow> (
         let u = takeWhile (\<lambda>c. \<not> is_num c) r; rest = dropWhile (\<lambda>c. \<not> is_num c) r in
         if u = [] then Inl (MissingUnit orig)
         else (case unit_of u of
             None \<Rightarrow> Inl (UnknownUnit u orig)
           | Some unit \<Rightarrow>
               if 2 ^ 63 div unit < v then Inl (InvalidDuration orig)
               else (let w = v * unit + (if 0 < f then trunc_nat (fmul (f_of_int (int f)) (fdiv (f_of_int (int unit)) scale)) else 0) in
                 if 0 < f \<and> 2 ^ 63 < w then Inl (InvalidDuration orig) else Inr (w, rest)))))"

lemma leading_int_shorter: "leading_int x s = Some (v, r) \<Longrightarrow> length r \<le> length s"
  by (induction x s rule: leading_int.induct) (auto simp: Let_def split: if_splits)

lemma leading_fraction_shorter: "leading_fraction over x scale s = (f, sc, r) \<Longrightarrow> length r \<le> length s"
  by (induction over x scale s rule: leading_fraction.induct) (fastforce simp: Let_def split: if_splits)+

lemma parse_number_shorter: "parse_number s = Some (v, f, scale, r) \<Longrightarrow> length r \<le> length s"
proof -
  assume p: "parse_number s = Some (v, f, scale, r)"
  then obtain v1 r1 where l: "leading_int 0 s = Some (v1, r1)" by (auto simp: parse_number_def split: if_splits option.splits)
  note le = leading_int_shorter [OF l]
  show ?thesis
  proof (cases "take 1 r1 = ''.''")
    case True
    obtain f2 sc2 r2 where fr: "leading_fraction False 0 (Fin 1) (tl r1) = (f2, sc2, r2)" by (metis prod_cases3)
    have "r = r2" using p l True fr by (auto simp: parse_number_def Let_def split: if_splits)
    then show ?thesis using leading_fraction_shorter [OF fr] le by simp
  next
    case False
    then have "r = r1" using p l by (auto simp: parse_number_def Let_def split: if_splits)
    then show ?thesis using le by simp
  qed
qed

lemma parse_part_shorter: "parse_part orig s = Inr (w, rest) \<Longrightarrow> length rest < length s"
proof -
  assume p: "parse_part orig s = Inr (w, rest)"
  then obtain v f scale r where n: "parse_number s = Some (v, f, scale, r)" by (auto simp: parse_part_def split: option.splits)
  have u: "takeWhile (\<lambda>c. \<not> is_num c) r \<noteq> []" "rest = dropWhile (\<lambda>c. \<not> is_num c) r"
    using p n by (auto simp: parse_part_def Let_def split: option.splits if_splits)
  have "length (takeWhile (\<lambda>c. \<not> is_num c) r) + length rest = length r" unfolding u(2) by (metis length_append takeWhile_dropWhile_id)
  moreover have "0 < length (takeWhile (\<lambda>c. \<not> is_num c) r)" using u(1) by simp
  ultimately have "length rest < length r" by linarith
  then show ?thesis using parse_number_shorter [OF n] by linarith
qed

function parse_parts :: "string \<Rightarrow> nat \<Rightarrow> string \<Rightarrow> duration_error + nat" where
  "parse_parts orig d s = (if s = [] then Inr d
     else (case parse_part orig s of
         Inl e \<Rightarrow> Inl e
       | Inr (w, rest) \<Rightarrow> (let d1 = (d + w) mod 2 ^ 64 in
           if 2 ^ 63 < d1 then Inl (InvalidDuration orig) else parse_parts orig d1 rest)))"
  by pat_completeness auto
termination
  by (relation "measure (\<lambda>(orig, d, s). length s)") (auto simp: parse_part_shorter)

declare parse_parts.simps [simp del]

definition parse_duration :: "string \<Rightarrow> duration_error + int" where
  "parse_duration s = (let neg = (take 1 s = ''-''); r = after_sign s in
     if r = ''0'' then Inr 0
     else if r = [] then Inl (InvalidDuration s)
     else (case parse_parts s 0 r of
         Inl e \<Rightarrow> Inl e
       | Inr d \<Rightarrow> if neg then Inr (- int d) else if 2 ^ 63 - 1 < d then Inl (InvalidDuration s) else Inr (int d)))"

lemma parse_parts_bound: "d \<le> 2 ^ 63 \<Longrightarrow> parse_parts orig d s = Inr e \<Longrightarrow> e \<le> 2 ^ 63"
proof (induction orig d s rule: parse_parts.induct)
  case (1 orig d s)
  show ?case
  proof (cases "s = []")
    case True
    then show ?thesis using "1.prems" by (simp add: parse_parts.simps [of orig d "[]"])
  next
    case False
    then obtain w rest where w: "parse_part orig s = Inr (w, rest)" "\<not> 2 ^ 63 < (d + w) mod 2 ^ 64"
        "parse_parts orig ((d + w) mod 2 ^ 64) rest = Inr e"
      using "1.prems"(2) by (simp add: parse_parts.simps [of orig d s] Let_def split: sum.splits prod.splits if_splits)
    show ?thesis by (rule "1.IH" [OF False w(1) refl refl w(2) _ w(3)]) (use w(2) in simp)
  qed
qed

lemma parse_duration_range: "parse_duration s = Inr d \<Longrightarrow> int_range d"
proof -
  assume p: "parse_duration s = Inr d"
  have bound: "parse_parts s 0 r = Inr e \<Longrightarrow> e \<le> 2 ^ 63" for r e using parse_parts_bound [of 0 s r e] by simp
  show ?thesis using p bound
    by (auto simp: parse_duration_def int_range_def Let_def split: if_splits sum.splits)
qed

end
