(* ===== verification/Gosha.thy ===== *)
theory Gosha
  imports Gostring "HOL-Library.Word"
begin

text \<open>
  Go's \<open>crypto/sha256\<close>, \<open>crypto/hmac\<close> and \<open>encoding/hex\<close>, which the host identity is derived with: the
  compression function over 32-bit words that wrap, the padding, the keyed hash and its hexadecimal form.
\<close>

unbundle bit_operations_syntax

type_synonym w32 = "32 word"

text \<open>
  The constants are the first 32 bits of the fractional parts of the cube roots of the first 64 primes and
  of the square roots of the first eight; the roots are taken bit by bit over the integers.
\<close>

fun nth_root :: "nat \<Rightarrow> nat \<Rightarrow> nat \<Rightarrow> nat \<Rightarrow> nat" where
  "nth_root e n 0 r = r"
| "nth_root e n (Suc b) r = nth_root e n b (if (r + 2 ^ b) ^ e \<le> n then r + 2 ^ b else r)"

definition small_primes :: "nat list" where
  "small_primes = filter (\<lambda>p. list_all (\<lambda>d. p mod d \<noteq> 0) [2..<p]) [2..<312]"

definition root_word :: "nat \<Rightarrow> nat \<Rightarrow> w32" where
  "root_word e p = word_of_nat (nth_root e (p * 2 ^ (32 * e)) 40 0)"

definition sha_k :: "w32 list" where
  "sha_k = map (root_word 3) small_primes"

definition sha_init :: "w32 list" where
  "sha_init = map (root_word 2) [2, 3, 5, 7, 11, 13, 17, 19]"

definition rotr :: "nat \<Rightarrow> w32 \<Rightarrow> w32" where
  "rotr n x = (drop_bit n x) OR (push_bit (32 - n) x)"

definition be32 :: "nat list \<Rightarrow> w32" where
  "be32 bs = foldl (\<lambda>w b. push_bit 8 w OR word_of_nat b) 0 bs"

definition bytes_of :: "w32 \<Rightarrow> nat list" where
  "bytes_of w = map (\<lambda>k. unat (drop_bit k w AND 255)) [24, 16, 8, 0]"

text \<open>The padding to whole blocks: a one bit, zeros, and the length in bits as eight bytes.\<close>

definition sha_pad :: "nat list \<Rightarrow> nat list" where
  "sha_pad m = (let n = length m in
     m @ [128] @ replicate ((55 + 64 - n mod 64) mod 64) 0 @ map (\<lambda>k. (8 * n) div 256 ^ k mod 256) [7, 6, 5, 4, 3, 2, 1, 0])"

fun chunks_of :: "nat \<Rightarrow> nat \<Rightarrow> 'a list \<Rightarrow> 'a list list" where
  "chunks_of 0 n xs = []"
| "chunks_of (Suc k) n xs = take n xs # chunks_of k n (drop n xs)"

text \<open>The message schedule, newest word first.\<close>

fun schedule :: "nat \<Rightarrow> w32 list \<Rightarrow> w32 list" where
  "schedule 0 ws = ws"
| "schedule (Suc k) ws = (
     let s0 = rotr 7 (ws ! 14) XOR rotr 18 (ws ! 14) XOR drop_bit 3 (ws ! 14);
         s1 = rotr 17 (ws ! 1) XOR rotr 19 (ws ! 1) XOR drop_bit 10 (ws ! 1)
     in schedule k ((ws ! 15 + s0 + ws ! 6 + s1) # ws))"

datatype sha_state = Sha w32 w32 w32 w32 w32 w32 w32 w32

fun sha_round :: "sha_state \<Rightarrow> w32 \<times> w32 \<Rightarrow> sha_state" where
  "sha_round (Sha a b c d e f g h) (k, w) = (
     let s1 = rotr 6 e XOR rotr 11 e XOR rotr 25 e; ch = (e AND f) XOR (NOT e AND g);
         t1 = h + s1 + ch + k + w;
         s0 = rotr 2 a XOR rotr 13 a XOR rotr 22 a; maj = (a AND b) XOR (a AND c) XOR (b AND c)
     in Sha (t1 + (s0 + maj)) a b c (d + t1) e f g)"

fun sha_list :: "sha_state \<Rightarrow> w32 list" where
  "sha_list (Sha a b c d e f g h) = [a, b, c, d, e, f, g, h]"

definition sha_of :: "w32 list \<Rightarrow> sha_state" where
  "sha_of l = Sha (l ! 0) (l ! 1) (l ! 2) (l ! 3) (l ! 4) (l ! 5) (l ! 6) (l ! 7)"

definition sha_block :: "w32 list \<Rightarrow> nat list \<Rightarrow> w32 list" where
  "sha_block st block = (
     let ws = rev (schedule 48 (rev (map be32 (chunks_of 16 4 block))))
     in map2 (+) st (sha_list (foldl sha_round (sha_of st) (zip sha_k ws))))"

definition sha256 :: "nat list \<Rightarrow> nat list" where
  "sha256 m = (let p = sha_pad m in
     concat (map bytes_of (foldl sha_block sha_init (chunks_of (length p div 64) 64 p))))"

definition hmac_sha256 :: "nat list \<Rightarrow> nat list \<Rightarrow> nat list" where
  "hmac_sha256 key msg = (
     let k0 = (if 64 < length key then sha256 key else key);
         k = map word_of_nat (k0 @ replicate (64 - length k0) 0) :: 8 word list;
         pad = (\<lambda>p. map (\<lambda>b. unat (b XOR p)) k)
     in sha256 (pad 92 @ sha256 (pad 54 @ msg)))"

definition hex_digit :: "nat \<Rightarrow> char" where
  "hex_digit n = (if n < 10 then char_of (48 + n) else char_of (87 + n))"

definition hex_encode :: "nat list \<Rightarrow> string" where
  "hex_encode bs = concat (map (\<lambda>b. [hex_digit (b div 16), hex_digit (b mod 16)]) bs)"

lemma length_sha_list [simp]: "length (sha_list s) = 8"
  by (cases s) simp

lemma length_sha_block [simp]: "length st = 8 \<Longrightarrow> length (sha_block st b) = 8"
  by (simp add: sha_block_def Let_def)

lemma length_sha_fold: "length st = 8 \<Longrightarrow> length (foldl sha_block st bs) = 8"
  by (induction bs arbitrary: st) simp_all

lemma length_bytes_of [simp]: "length (bytes_of w) = 4"
  by (simp add: bytes_of_def)

lemma bytes_of_bound: "b \<in> set (bytes_of w) \<Longrightarrow> b < 256"
proof -
  have "unat (x AND 255) < 256" for x :: w32
  proof -
    have "x AND 255 = take_bit 8 x" by (simp add: take_bit_eq_mask mask_eq_exp_minus_1)
    moreover have "take_bit 8 (unat x) < 256" using take_bit_nat_less_exp [of 8 "unat x"] by simp
    ultimately show ?thesis by (simp add: unsigned_take_bit_eq)
  qed
  then show "b \<in> set (bytes_of w) \<Longrightarrow> b < 256" by (auto simp: bytes_of_def)
qed

lemma length_sha256: "length (sha256 m) = 32"
proof -
  have "length (foldl sha_block sha_init bs) = 8" for bs by (rule length_sha_fold) (simp add: sha_init_def)
  moreover have "length (concat (map bytes_of ws)) = 4 * length ws" for ws by (induction ws) simp_all
  ultimately show ?thesis by (simp add: sha256_def Let_def)
qed

lemma sha256_bytes: "b \<in> set (sha256 m) \<Longrightarrow> b < 256"
  by (auto simp: sha256_def Let_def bytes_of_bound)

text \<open>What the hexadecimal form is made of: two of sixteen characters per byte.\<close>

definition is_hex :: "char \<Rightarrow> bool" where
  "is_hex c \<longleftrightarrow> is_digit c \<or> 97 \<le> byte c \<and> byte c \<le> 102"

lemma hex_digit_hex: "n < 16 \<Longrightarrow> is_hex (hex_digit n)"
  by (auto simp: is_hex_def hex_digit_def is_digit_def byte_def)

lemma length_hex_encode: "length (hex_encode bs) = 2 * length bs"
  by (induction bs) (simp_all add: hex_encode_def)

lemma hex_encode_hex: "(\<And>b. b \<in> set bs \<Longrightarrow> b < 256) \<Longrightarrow> list_all is_hex (hex_encode bs)"
proof (induction bs)
  case Nil
  then show ?case by (simp add: hex_encode_def)
next
  case (Cons b bs)
  then have "b < 256" "list_all is_hex (hex_encode bs)" by simp_all
  moreover have "b div 16 < 16" "b mod 16 < 16" using \<open>b < 256\<close> by presburger+
  ultimately show ?case by (simp add: hex_encode_def hex_digit_hex)
qed

end
