(* ===== verification/Identity.thy ===== *)
theory Identity
  imports Gostring
begin

text \<open>
  \<open>internal/identity\<close>: the rules of an external key and the resolution of the entities omnistat owns
  (resolve.go, keyed.go). The platform is the interface \<open>API\<close> of api.go, not code of this repository:
  it is a record of functions over a state \<open>'w\<close> of its own, a parameter of every definition. The
  wrapper \<open>call\<close> keeps the list of the calls made, so that the lemmas can speak of what was written.
\<close>

section \<open>Keys\<close>

definition max_key_len :: nat where
  "max_key_len = 128"

datatype key_error = EmptyKeyError | UntrimmedKey | KeyTooLong | ControlInKey

definition valid_key :: "string \<Rightarrow> key_error option" where
  "valid_key key = (
     if key = [] then Some EmptyKeyError
     else if trim_space key \<noteq> key then Some UntrimmedKey
     else if max_key_len < length (runes key) then Some KeyTooLong
     else if list_ex is_control (runes key) then Some ControlInKey
     else None)"

section \<open>The platform's interface\<close>

datatype api_error = KeyTaken string | OtherApiError string

type_synonym attr_values = "(string, string) gomap"

record entity_summary =
  es_id :: string
  es_created :: int
  es_key :: string

record 'w api =
  api_find :: "string \<Rightarrow> string \<Rightarrow> string \<Rightarrow> 'w \<Rightarrow> (api_error + entity_summary list) \<times> 'w"
  api_by_key :: "string \<Rightarrow> string \<Rightarrow> 'w \<Rightarrow> (api_error + string option) \<times> 'w"
  api_upsert :: "string \<Rightarrow> string \<Rightarrow> attr_values \<Rightarrow> 'w \<Rightarrow> (api_error + string \<times> bool) \<times> 'w"
  api_set_key :: "string \<Rightarrow> string \<Rightarrow> 'w \<Rightarrow> (api_error + unit) \<times> 'w"

datatype api_call =
    CallFind string string string
  | CallByKey string string
  | CallUpsert string string attr_values
  | CallSetKey string string

type_synonym 'w traced = "'w \<times> api_call list"

definition call :: "api_call \<Rightarrow> ('w \<Rightarrow> 'r \<times> 'w) \<Rightarrow> 'w traced \<Rightarrow> 'r \<times> 'w traced" where
  "call c f st = (case f (fst st) of (r, w) \<Rightarrow> (r, (w, snd st @ [c])))"

definition by_key :: "'w api \<Rightarrow> string \<Rightarrow> string \<Rightarrow> 'w traced \<Rightarrow> (api_error + string option) \<times> 'w traced" where
  "by_key api tpl key = call (CallByKey tpl key) (api_by_key api tpl key)"

definition find_entities :: "'w api \<Rightarrow> string \<Rightarrow> string \<Rightarrow> string \<Rightarrow> 'w traced \<Rightarrow> (api_error + entity_summary list) \<times> 'w traced" where
  "find_entities api tid slug v = call (CallFind tid slug v) (api_find api tid slug v)"

definition upsert_by_key :: "'w api \<Rightarrow> string \<Rightarrow> string \<Rightarrow> attr_values \<Rightarrow> 'w traced \<Rightarrow> (api_error + string \<times> bool) \<times> 'w traced" where
  "upsert_by_key api tpl key attrs = call (CallUpsert tpl key attrs) (api_upsert api tpl key attrs)"

definition set_entity_key :: "'w api \<Rightarrow> string \<Rightarrow> string \<Rightarrow> 'w traced \<Rightarrow> (api_error + unit) \<times> 'w traced" where
  "set_entity_key api eid key = call (CallSetKey eid key) (api_set_key api eid key)"

section \<open>Upsert\<close>

definition upsert_attempts :: nat where
  "upsert_attempts = 3"

text \<open>\<open>upsert\<close>: the bounded retries of a conflict, then a lookup.\<close>

fun upsert_loop :: "nat \<Rightarrow> 'w api \<Rightarrow> string \<Rightarrow> string \<Rightarrow> attr_values \<Rightarrow> string \<Rightarrow> 'w traced \<Rightarrow> (api_error + string \<times> bool) \<times> 'w traced" where
  "upsert_loop 0 api tpl key attrs prev st = (case by_key api tpl key st of
       (Inl e, st') \<Rightarrow> (Inl e, st')
     | (Inr None, st') \<Rightarrow> (Inl (KeyTaken prev), st')
     | (Inr (Some eid), st') \<Rightarrow> (Inr (eid, False), st'))"
| "upsert_loop (Suc n) api tpl key attrs prev st = (case upsert_by_key api tpl key attrs st of
       (Inr r, st') \<Rightarrow> (Inr r, st')
     | (Inl (KeyTaken m), st') \<Rightarrow> upsert_loop n api tpl key attrs m st'
     | (Inl (OtherApiError m), st') \<Rightarrow> (Inl (OtherApiError m), st'))"

definition upsert :: "'w api \<Rightarrow> string \<Rightarrow> string \<Rightarrow> attr_values \<Rightarrow> 'w traced \<Rightarrow> (api_error + string \<times> bool) \<times> 'w traced" where
  "upsert api tpl key attrs st = upsert_loop upsert_attempts api tpl key attrs [] st"

section \<open>The host entity\<close>

datatype outcome = Found | Adopted | AdoptedOtherKey | Created | WouldAdopt | WouldCreate

record id_target =
  it_slug :: string
  it_id :: string
  it_attr :: string

record host_entity =
  h_entity :: string
  h_identity :: string
  h_outcome :: outcome
  h_created :: bool
  h_would_create :: bool
  h_duplicates :: "string list"
  h_other_key :: string

datatype identity_error =
    InvalidIdentity key_error
  | TargetUnresolved
  | LookupFailed api_error
  | SearchFailed api_error
  | AdoptFailed string api_error
  | CreateFailed api_error

definition host_with :: "string \<Rightarrow> string \<Rightarrow> outcome \<Rightarrow> host_entity" where
  "host_with key eid out = \<lparr>h_entity = eid, h_identity = key, h_outcome = out, h_created = False, h_would_create = False,
     h_duplicates = [], h_other_key = []\<rparr>"

definition adopt_host :: "'w api \<Rightarrow> id_target \<Rightarrow> string \<Rightarrow> bool \<Rightarrow> entity_summary list \<Rightarrow> 'w traced \<Rightarrow> (identity_error + host_entity) \<times> 'w traced" where
  "adopt_host api t key dry legacy st = (
     let pick = hd legacy;
         dups = (if 1 < length legacy then map es_id legacy else []);
         h = (\<lambda>out. (host_with key (es_id pick) out)\<lparr>h_duplicates := dups\<rparr>)
     in if es_key pick = key then (Inr (h Found), st)
        else if es_key pick \<noteq> [] then (Inr ((h AdoptedOtherKey)\<lparr>h_other_key := es_key pick\<rparr>), st)
        else if dry then (Inr (h WouldAdopt), st)
        else (case set_entity_key api (es_id pick) key st of
            (Inr _, st') \<Rightarrow> (Inr (h Adopted), st')
          | (Inl (KeyTaken m), st') \<Rightarrow> (case by_key api (it_slug t) key st' of
                (Inl e, st'') \<Rightarrow> (Inl (LookupFailed e), st'')
              | (Inr None, st'') \<Rightarrow> (Inl (AdoptFailed (es_id pick) (KeyTaken m)), st'')
              | (Inr (Some eid), st'') \<Rightarrow> (Inr (host_with key eid Found), st''))
          | (Inl e, st') \<Rightarrow> (Inl (AdoptFailed (es_id pick) e), st')))"

definition create_host :: "'w api \<Rightarrow> id_target \<Rightarrow> string \<Rightarrow> bool \<Rightarrow> 'w traced \<Rightarrow> (identity_error + host_entity) \<times> 'w traced" where
  "create_host api t key dry st = (
     if dry then (Inr ((host_with key [] WouldCreate)\<lparr>h_would_create := True\<rparr>), st)
     else (case upsert api (it_slug t) key [(it_attr t, key)] st of
         (Inl e, st') \<Rightarrow> (Inl (CreateFailed e), st')
       | (Inr (eid, created), st') \<Rightarrow>
           (Inr ((host_with key eid (if created then Created else Found))\<lparr>h_created := created\<rparr>), st')))"

definition resolve_host_entity :: "'w api \<Rightarrow> id_target \<Rightarrow> string \<Rightarrow> bool \<Rightarrow> 'w traced \<Rightarrow> (identity_error + host_entity) \<times> 'w traced" where
  "resolve_host_entity api t key dry st = (case valid_key key of
       Some e \<Rightarrow> (Inl (InvalidIdentity e), st)
     | None \<Rightarrow>
         if it_id t = [] \<or> it_slug t = [] \<or> it_attr t = [] then (Inl TargetUnresolved, st)
         else (case by_key api (it_slug t) key st of
             (Inl e, st1) \<Rightarrow> (Inl (LookupFailed e), st1)
           | (Inr (Some eid), st1) \<Rightarrow> (Inr (host_with key eid Found), st1)
           | (Inr None, st1) \<Rightarrow> (case find_entities api (it_id t) (it_attr t) key st1 of
                 (Inl e, st2) \<Rightarrow> (Inl (SearchFailed e), st2)
               | (Inr legacy, st2) \<Rightarrow>
                   if legacy \<noteq> [] then adopt_host api t key dry (sort_key es_created legacy) st2
                   else create_host api t key dry st2)))"

section \<open>Module-owned entities\<close>

record keyed =
  kd_host_id :: string
  kd_host_link :: "(string, string) gomap"
  kd_dry :: bool
  kd_ids :: "(string, string) gomap"

definition cache_key :: "string \<Rightarrow> string \<Rightarrow> string" where
  "cache_key tpl key = tpl @ [char_of (0::nat)] @ key"

datatype keyed_error = KeyedLookup string string api_error | KeyedCreate string string api_error

definition link_attrs :: "keyed \<Rightarrow> string \<Rightarrow> attr_values" where
  "link_attrs k tpl = (let link = gm_getd [] (kd_host_link k) tpl in
     if link \<noteq> [] \<and> kd_host_id k \<noteq> [] then [(link, kd_host_id k)] else [])"

definition keyed_resolve :: "'w api \<Rightarrow> string \<Rightarrow> string \<Rightarrow> keyed \<Rightarrow> 'w traced \<Rightarrow> (keyed_error + string \<times> outcome) \<times> keyed \<times> 'w traced" where
  "keyed_resolve api tpl key k st = (
     let remember = (\<lambda>eid. k\<lparr>kd_ids := gm_put (cache_key tpl key) eid (kd_ids k)\<rparr>) in
     case gm_get (kd_ids k) (cache_key tpl key) of
       Some eid \<Rightarrow> (Inr (eid, Found), k, st)
     | None \<Rightarrow> (case by_key api tpl key st of
           (Inl e, st1) \<Rightarrow> (Inl (KeyedLookup tpl key e), k, st1)
         | (Inr (Some eid), st1) \<Rightarrow> (Inr (eid, Found), remember eid, st1)
         | (Inr None, st1) \<Rightarrow>
             if kd_dry k then (Inr ([], WouldCreate), k, st1)
             else (case upsert api tpl key (link_attrs k tpl) st1 of
                 (Inl e, st2) \<Rightarrow> (Inl (KeyedCreate tpl key e), k, st2)
               | (Inr (eid, created), st2) \<Rightarrow> (Inr (eid, if created then Created else Found), remember eid, st2))))"

definition forget :: "string \<Rightarrow> string \<Rightarrow> keyed \<Rightarrow> keyed" where
  "forget tpl key k = k\<lparr>kd_ids := gm_del (cache_key tpl key) (kd_ids k)\<rparr>"

section \<open>What is written\<close>

fun is_write :: "api_call \<Rightarrow> bool" where
  "is_write (CallUpsert _ _ _) = True"
| "is_write (CallSetKey _ _) = True"
| "is_write _ = False"

lemma call_trace: "call c f st = (r, st') \<Longrightarrow> snd st' = snd st @ [c] \<and> f (fst st) = (r, fst st')"
  by (auto simp: call_def split: prod.splits)

lemmas api_calls = by_key_def find_entities_def upsert_by_key_def set_entity_key_def

text \<open>The calls an upsert makes: at most three upserts of the one key, then at most one lookup.\<close>

lemma upsert_loop_trace:
  "upsert_loop n api tpl key attrs prev st = (r, st') \<Longrightarrow>
    \<exists>m \<le> n. snd st' = snd st @ replicate m (CallUpsert tpl key attrs)
      \<or> snd st' = snd st @ replicate m (CallUpsert tpl key attrs) @ [CallByKey tpl key]"
proof (induction n arbitrary: prev st)
  case 0
  then show ?case by (auto simp: api_calls dest!: call_trace split: prod.splits sum.splits option.splits)
next
  case (Suc n)
  obtain r1 st1 where up: "upsert_by_key api tpl key attrs st = (r1, st1)" by (metis surj_pair)
  then have tr: "snd st1 = snd st @ [CallUpsert tpl key attrs]" by (auto simp: api_calls dest: call_trace)
  show ?case
  proof (cases "\<exists>m. r1 = Inl (KeyTaken m)")
    case True
    then obtain m where "upsert_loop n api tpl key attrs m st1 = (r, st')" using Suc.prems up by auto
    from Suc.IH [OF this] obtain j where "j \<le> n"
      "snd st' = snd st1 @ replicate j (CallUpsert tpl key attrs) \<or> snd st' = snd st1 @ replicate j (CallUpsert tpl key attrs) @ [CallByKey tpl key]"
      by blast
    then show ?thesis using tr by (intro exI [of _ "Suc j"]) auto
  next
    case False
    then have "st' = st1" using Suc.prems up by (auto split: sum.splits api_error.splits)
    then show ?thesis using tr by (intro exI [of _ 1]) auto
  qed
qed

lemma upsert_trace:
  "upsert api tpl key attrs st = (r, st') \<Longrightarrow>
    \<exists>m \<le> 3. \<exists>ls. snd st' = snd st @ replicate m (CallUpsert tpl key attrs) @ ls \<and> set ls \<subseteq> {CallByKey tpl key}"
proof -
  assume "upsert api tpl key attrs st = (r, st')"
  then obtain m where m: "m \<le> upsert_attempts"
    "snd st' = snd st @ replicate m (CallUpsert tpl key attrs)
      \<or> snd st' = snd st @ replicate m (CallUpsert tpl key attrs) @ [CallByKey tpl key]"
    unfolding upsert_def using upsert_loop_trace by blast
  then show ?thesis
    by (intro exI [of _ m] conjI exI [of _ "if snd st' = snd st @ replicate m (CallUpsert tpl key attrs) then [] else [CallByKey tpl key]"])
      (auto simp: upsert_attempts_def)
qed

lemma adopt_trace:
  assumes "adopt_host api t key dry legacy st = (r, st')"
  shows "\<exists>cs. snd st' = snd st @ cs \<and> (\<forall>c \<in> set cs. is_write c \<longrightarrow> c = CallSetKey (es_id (hd legacy)) key \<and> es_key (hd legacy) = [] \<and> \<not> dry)
    \<and> length (filter is_write cs) \<le> 1"
proof -
  obtain r1 st1 where sk: "set_entity_key api (es_id (hd legacy)) key st = (r1, st1)" by (metis surj_pair)
  obtain r2 st2 where bk: "by_key api (it_slug t) key st1 = (r2, st2)" by (metis surj_pair)
  have tr: "snd st1 = snd st @ [CallSetKey (es_id (hd legacy)) key]" "snd st2 = snd st1 @ [CallByKey (it_slug t) key]"
    using sk bk by (auto simp: api_calls dest: call_trace)
  show ?thesis using assms sk bk tr
    by (auto simp: adopt_host_def Let_def split: if_splits sum.splits api_error.splits option.splits)
qed

text \<open>The calls of a host resolution: lookups, then either one adoption or the upserts of a fresh host.\<close>

lemma resolve_host_trace:
  assumes "resolve_host_entity api t key dry st = (r, st')"
  shows "\<exists>cs. snd st' = snd st @ cs \<and> length (filter is_write cs) \<le> 3 \<and> (dry \<longrightarrow> filter is_write cs = [])
    \<and> (\<forall>c \<in> set cs. is_write c \<longrightarrow> c = CallUpsert (it_slug t) key [(it_attr t, key)] \<or> (\<exists>eid. c = CallSetKey eid key))"
proof (cases "valid_key key = None \<and> it_id t \<noteq> [] \<and> it_slug t \<noteq> [] \<and> it_attr t \<noteq> []")
  case False
  then have "st' = st" using assms by (auto simp: resolve_host_entity_def split: option.splits if_splits)
  then show ?thesis by simp
next
  case True
  obtain r1 st1 where bk: "by_key api (it_slug t) key st = (r1, st1)" by (metis surj_pair)
  obtain r2 st2 where fe: "find_entities api (it_id t) (it_attr t) key st1 = (r2, st2)" by (metis surj_pair)
  have tr: "snd st1 = snd st @ [CallByKey (it_slug t) key]" "snd st2 = snd st1 @ [CallFind (it_id t) (it_attr t) key]"
    using bk fe by (auto simp: api_calls dest: call_trace)
  consider "st' = st1" | "st' = st2"
    | legacy where "adopt_host api t key dry legacy st2 = (r, st')"
    | "create_host api t key dry st2 = (r, st')"
    using assms True bk fe by (auto simp: resolve_host_entity_def split: sum.splits option.splits if_splits)
  then show ?thesis
  proof cases
    case 1
    then show ?thesis using tr by simp
  next
    case 2
    then show ?thesis using tr by simp
  next
    case 3
    then obtain cs where cs: "snd st' = snd st2 @ cs"
        "\<forall>c \<in> set cs. is_write c \<longrightarrow> c = CallSetKey (es_id (hd legacy)) key \<and> es_key (hd legacy) = [] \<and> \<not> dry"
        "length (filter is_write cs) \<le> 1"
      using adopt_trace by blast
    then have "dry \<longrightarrow> filter is_write cs = []" by (auto simp: filter_empty_conv)
    with cs show ?thesis using tr by (intro exI [of _ "[CallByKey (it_slug t) key, CallFind (it_id t) (it_attr t) key] @ cs"]) auto
  next
    case 4
    show ?thesis
    proof (cases dry)
      case True
      then show ?thesis using 4 tr by (auto simp: create_host_def)
    next
      case False
      obtain r3 st3 where up: "upsert api (it_slug t) key [(it_attr t, key)] st2 = (r3, st3)" by (metis surj_pair)
      then have "st3 = st'" using 4 False by (auto simp: create_host_def split: sum.splits prod.splits)
      with upsert_trace [OF up] obtain m ls where m: "m \<le> 3"
        "snd st' = snd st2 @ replicate m (CallUpsert (it_slug t) key [(it_attr t, key)]) @ ls" "set ls \<subseteq> {CallByKey (it_slug t) key}"
        by blast
      have "filter is_write ls = []" using m(3) by (auto simp: filter_empty_conv)
      then show ?thesis using m tr False
        by (intro exI [of _ "[CallByKey (it_slug t) key, CallFind (it_id t) (it_attr t) key]
              @ replicate m (CallUpsert (it_slug t) key [(it_attr t, key)]) @ ls"]) auto
    qed
  qed
qed

lemma adopt_only_keyless:
  assumes "resolve_host_entity api t key dry st = (r, st')" "CallSetKey eid key \<in> set (drop (length (snd st)) (snd st'))"
  shows "\<exists>w w' legacy. api_find api (it_id t) (it_attr t) key w = (Inr legacy, w')
    \<and> (\<exists>e \<in> set legacy. es_id e = eid \<and> es_key e = [])
    \<and> (\<forall>attrs. CallUpsert (it_slug t) key attrs \<notin> set (drop (length (snd st)) (snd st')))"
proof -
  obtain r1 st1 where bk: "by_key api (it_slug t) key st = (r1, st1)" by (metis surj_pair)
  obtain r2 st2 where fe: "find_entities api (it_id t) (it_attr t) key st1 = (r2, st2)" by (metis surj_pair)
  have tr: "snd st1 = snd st @ [CallByKey (it_slug t) key]" "snd st2 = snd st1 @ [CallFind (it_id t) (it_attr t) key]"
    using bk fe by (auto simp: api_calls dest: call_trace)
  consider "st' = st" | "st' = st1" | "st' = st2"
    | legacy where "r2 = Inr legacy" "legacy \<noteq> []" "adopt_host api t key dry (sort_key es_created legacy) st2 = (r, st')"
    | "create_host api t key dry st2 = (r, st')"
    using assms(1) bk fe by (auto simp: resolve_host_entity_def split: sum.splits option.splits if_splits)
  then show ?thesis
  proof cases
    case 4
    let ?es = "sort_key es_created legacy"
    from adopt_trace [OF 4(3)] obtain cs where cs: "snd st' = snd st2 @ cs"
        "\<forall>c \<in> set cs. is_write c \<longrightarrow> c = CallSetKey (es_id (hd ?es)) key \<and> es_key (hd ?es) = [] \<and> \<not> dry"
      by blast
    have calls: "drop (length (snd st)) (snd st') = [CallByKey (it_slug t) key, CallFind (it_id t) (it_attr t) key] @ cs"
      using cs(1) tr by simp
    then have "eid = es_id (hd ?es) \<and> es_key (hd ?es) = []" using assms(2) cs(2) by auto
    moreover have "hd ?es \<in> set legacy" using 4(2) hd_in_set [of ?es] by simp
    moreover have "api_find api (it_id t) (it_attr t) key (fst st1) = (Inr legacy, fst st2)"
      using fe 4(1) by (auto simp: api_calls dest: call_trace)
    moreover have "\<forall>attrs. CallUpsert (it_slug t) key attrs \<notin> set cs" using cs(2) by (metis api_call.distinct(11) is_write.simps(1))
    ultimately show ?thesis unfolding calls by fastforce
  next
    case 5
    then have "\<exists>cs. snd st' = snd st2 @ cs \<and> CallSetKey eid key \<notin> set cs"
    proof (cases dry)
      case False
      obtain r3 st3 where up: "upsert api (it_slug t) key [(it_attr t, key)] st2 = (r3, st3)" by (metis surj_pair)
      then have "st3 = st'" using 5 False by (auto simp: create_host_def split: sum.splits prod.splits)
      with upsert_trace [OF up] show ?thesis by fastforce
    qed (auto simp: create_host_def)
    then show ?thesis using assms(2) tr by auto
  qed (use assms(2) tr in auto)
qed

text \<open>
  C6: resolving the host writes as little as it says. A dry run writes nothing; a real one makes at
  most three writes, all of them either upserts of the host's own key with just the identity attribute,
  or the key's assignment to an adopted record, never both kinds; and a key is only ever given to a
  record that the search listed with none.
\<close>

theorem resolve_host_writes:
  assumes "resolve_host_entity api t key dry st = (r, st')"
  shows "\<exists>cs. snd st' = snd st @ cs
    \<and> (dry \<longrightarrow> \<not> list_ex is_write cs) \<and> length (filter is_write cs) \<le> 3
    \<and> (\<forall>c \<in> set cs. is_write c \<longrightarrow> c = CallUpsert (it_slug t) key [(it_attr t, key)] \<or> (\<exists>eid. c = CallSetKey eid key))
    \<and> (\<forall>eid. CallSetKey eid key \<in> set cs \<longrightarrow>
        (\<forall>attrs. CallUpsert (it_slug t) key attrs \<notin> set cs)
        \<and> (\<exists>w w' legacy. api_find api (it_id t) (it_attr t) key w = (Inr legacy, w') \<and> (\<exists>e \<in> set legacy. es_id e = eid \<and> es_key e = [])))"
proof -
  from resolve_host_trace [OF assms] obtain cs where cs: "snd st' = snd st @ cs" "length (filter is_write cs) \<le> 3"
      "dry \<longrightarrow> filter is_write cs = []"
      "\<forall>c \<in> set cs. is_write c \<longrightarrow> c = CallUpsert (it_slug t) key [(it_attr t, key)] \<or> (\<exists>eid. c = CallSetKey eid key)"
    by blast
  have drop: "drop (length (snd st)) (snd st') = cs" using cs(1) by simp
  have "dry \<longrightarrow> \<not> list_ex is_write cs" using cs(3) by (auto simp: filter_empty_conv list_ex_iff)
  then show ?thesis using cs adopt_only_keyless [OF assms, unfolded drop] by blast
qed

section \<open>What a resolution means on the platform\<close>

text \<open>
  The documented behaviour of the platform's interface (api.go), over a view \<open>held\<close> of who holds which
  key: a lookup answers with the holder; an upsert that succeeds returns the holder; a key given to a
  record that the search listed is held by it; and the search reports the keys its records hold.
\<close>

definition platform_lawful :: "('w \<Rightarrow> string \<Rightarrow> string \<Rightarrow> string option) \<Rightarrow> id_target \<Rightarrow> 'w api \<Rightarrow> bool" where
  "platform_lawful held t api \<longleftrightarrow>
     (\<forall>tpl key w x w'. api_by_key api tpl key w = (Inr x, w') \<longrightarrow> held w' tpl key = x)
     \<and> (\<forall>tpl key attrs w eid c w'. api_upsert api tpl key attrs w = (Inr (eid, c), w') \<longrightarrow> held w' tpl key = Some eid)
     \<and> (\<forall>v w es w1 e. api_find api (it_id t) (it_attr t) v w = (Inr es, w1) \<longrightarrow> e \<in> set es \<longrightarrow>
          (es_key e \<noteq> [] \<longrightarrow> held w1 (it_slug t) (es_key e) = Some (es_id e))
          \<and> (\<forall>key u w2. api_set_key api (es_id e) key w1 = (Inr u, w2) \<longrightarrow> held w2 (it_slug t) key = Some (es_id e)))"

lemma upsert_loop_held:
  assumes "platform_lawful held t api"
  shows "upsert_loop n api tpl key attrs prev st = (Inr (eid, c), st') \<Longrightarrow> held (fst st') tpl key = Some eid"
proof (induction n arbitrary: prev st)
  case 0
  then show ?case using assms
    by (auto simp: platform_lawful_def api_calls dest!: call_trace split: prod.splits sum.splits option.splits)
next
  case (Suc n)
  obtain r1 st1 where up: "upsert_by_key api tpl key attrs st = (r1, st1)" by (metis surj_pair)
  then have "api_upsert api tpl key attrs (fst st) = (r1, fst st1)" by (auto simp: api_calls dest: call_trace)
  then show ?case using Suc assms up by (auto simp: platform_lawful_def split: sum.splits api_error.splits)
qed

text \<open>
  C31: on a lawful platform the resolved host entity is the one that holds the host's key: outcome found,
  adopted or created means that the entity holds it when the resolution returns, and adopted-other-key
  names the other key that the entity holds.
\<close>

theorem resolve_host_holds:
  assumes "platform_lawful held t api" "resolve_host_entity api t key dry st = (Inr h, st')"
  shows "(h_outcome h \<in> {Found, Adopted, Created} \<longrightarrow> held (fst st') (it_slug t) key = Some (h_entity h))
    \<and> (h_outcome h = AdoptedOtherKey \<longrightarrow> h_other_key h \<noteq> key \<and> held (fst st') (it_slug t) (h_other_key h) = Some (h_entity h))
    \<and> h_identity h = key \<and> valid_key key = None"
proof -
  obtain r1 st1 where bk: "by_key api (it_slug t) key st = (r1, st1)" by (metis surj_pair)
  obtain r2 st2 where fe: "find_entities api (it_id t) (it_attr t) key st1 = (r2, st2)" by (metis surj_pair)
  have raw: "api_by_key api (it_slug t) key (fst st) = (r1, fst st1)" "api_find api (it_id t) (it_attr t) key (fst st1) = (r2, fst st2)"
    using bk fe by (auto simp: api_calls dest: call_trace)
  have valid: "valid_key key = None" "it_id t \<noteq> []" "it_slug t \<noteq> []" "it_attr t \<noteq> []"
    using assms(2) by (auto simp: resolve_host_entity_def split: option.splits if_splits)
  show ?thesis
  proof (cases "\<exists>eid. r1 = Inr (Some eid)")
    case True
    then show ?thesis using assms raw valid bk
      by (auto simp: resolve_host_entity_def platform_lawful_def host_with_def split: option.splits if_splits sum.splits)
  next
    case False
    then obtain legacy where leg: "r1 = Inr None" "r2 = Inr legacy"
      using assms(2) valid bk fe by (auto simp: resolve_host_entity_def split: sum.splits option.splits)
    show ?thesis
    proof (cases "legacy = []")
      case True
      then have cr: "create_host api t key dry st2 = (Inr h, st')"
        using assms(2) valid bk fe leg by (auto simp: resolve_host_entity_def)
      show ?thesis
      proof (cases dry)
        case True
        then show ?thesis using cr valid by (auto simp: create_host_def host_with_def)
      next
        case False
        then obtain eid c where up: "upsert api (it_slug t) key [(it_attr t, key)] st2 = (Inr (eid, c), st')"
          and h: "h = (host_with key eid (if c then Created else Found))\<lparr>h_created := c\<rparr>"
          using cr by (auto simp: create_host_def split: sum.splits prod.splits)
        have "held (fst st') (it_slug t) key = Some eid" using upsert_loop_held [OF assms(1) up [unfolded upsert_def]] .
        then show ?thesis using h valid by (auto simp: host_with_def)
      qed
    next
      case False
      let ?es = "sort_key es_created legacy"
      have ad: "adopt_host api t key dry ?es st2 = (Inr h, st')"
        using assms(2) valid bk fe leg False by (auto simp: resolve_host_entity_def)
      have mem: "hd ?es \<in> set legacy" using False hd_in_set [of ?es] by simp
      obtain r3 st3 where sk: "set_entity_key api (es_id (hd ?es)) key st2 = (r3, st3)" by (metis surj_pair)
      obtain r4 st4 where bk2: "by_key api (it_slug t) key st3 = (r4, st4)" by (metis surj_pair)
      have raw2: "api_set_key api (es_id (hd ?es)) key (fst st2) = (r3, fst st3)" "api_by_key api (it_slug t) key (fst st3) = (r4, fst st4)"
        using sk bk2 by (auto simp: api_calls dest: call_trace)
      have law: "es_key (hd ?es) \<noteq> [] \<longrightarrow> held (fst st2) (it_slug t) (es_key (hd ?es)) = Some (es_id (hd ?es))"
          "r3 = Inr u \<Longrightarrow> held (fst st3) (it_slug t) key = Some (es_id (hd ?es))"
          "r4 = Inr x \<Longrightarrow> held (fst st4) (it_slug t) key = x" for u x
        using assms(1) raw(2) raw2 leg mem unfolding platform_lawful_def by metis+
      have "key \<noteq> []" using valid(1) by (auto simp: valid_key_def)
      then show ?thesis using ad sk bk2 law valid
        by (auto simp: adopt_host_def host_with_def Let_def split: if_splits sum.splits api_error.splits option.splits)
    qed
  qed
qed

section \<open>Remembered entities\<close>

lemma cache_key_inj:
  assumes "char_of (0::nat) \<notin> set tpl" "char_of (0::nat) \<notin> set tpl'" "cache_key tpl key = cache_key tpl' key'"
  shows "tpl = tpl' \<and> key = key'"
  using assms
proof (induction tpl arbitrary: tpl')
  case Nil
  then show ?case by (cases tpl') (auto simp: cache_key_def)
next
  case (Cons c tpl)
  then show ?case by (cases tpl') (auto simp: cache_key_def)
qed

text \<open>
  A resolved module-owned entity is remembered: until it is forgotten, resolving it again returns
  the same id without a call, whatever the platform does; forgetting it makes the next resolution look
  it up again and leaves every other entity remembered. A dry run remembers nothing it did not find
  and writes nothing.
\<close>

lemma keyed_remembers:
  assumes "keyed_resolve api tpl key k st = (Inr (eid, out), k', st')" "char_of (0::nat) \<notin> set tpl"
  shows "(out \<noteq> WouldCreate \<longrightarrow> (\<forall>st2. keyed_resolve api tpl key k' st2 = (Inr (eid, Found), k', st2)))
    \<and> gm_get (kd_ids (forget tpl key k')) (cache_key tpl key) = None
    \<and> (\<forall>tpl2 key2. char_of (0::nat) \<notin> set tpl2 \<longrightarrow> (tpl2, key2) \<noteq> (tpl, key) \<longrightarrow>
        gm_get (kd_ids (forget tpl key k')) (cache_key tpl2 key2) = gm_get (kd_ids k) (cache_key tpl2 key2))
    \<and> (kd_dry k \<longrightarrow> (\<forall>c \<in> set (drop (length (snd st)) (snd st')). \<not> is_write c) \<and> (out = WouldCreate \<longrightarrow> k' = k))"
proof -
  obtain r1 st1 where bk: "by_key api tpl key st = (r1, st1)" by (metis surj_pair)
  have tr: "snd st1 = snd st @ [CallByKey tpl key]" using bk by (auto simp: api_calls dest: call_trace)
  obtain r2 st2 where up: "upsert api tpl key (link_attrs k tpl) st1 = (r2, st2)" by (metis surj_pair)
  have keys: "kd_ids k' = (if out = WouldCreate then kd_ids k else if gm_has (kd_ids k) (cache_key tpl key) then kd_ids k
      else gm_put (cache_key tpl key) eid (kd_ids k))"
    and cached: "out \<noteq> WouldCreate \<Longrightarrow> gm_get (kd_ids k') (cache_key tpl key) = Some eid"
    and dry: "kd_dry k \<longrightarrow> (\<forall>c \<in> set (drop (length (snd st)) (snd st')). \<not> is_write c) \<and> (out = WouldCreate \<longrightarrow> k' = k)"
    using assms(1) bk up tr
    by (auto simp: keyed_resolve_def gm_has_def Let_def split: sum.splits option.splits if_splits prod.splits)
  have other: "cache_key tpl2 key2 \<noteq> cache_key tpl key" if "char_of (0::nat) \<notin> set tpl2" "(tpl2, key2) \<noteq> (tpl, key)" for tpl2 key2
    using cache_key_inj [OF that(1) assms(2)] that(2) by blast
  have "keyed_resolve api tpl key k' st2 = (Inr (eid, Found), k', st2)" if "out \<noteq> WouldCreate" for st2
    using cached [OF that] by (simp add: keyed_resolve_def Let_def)
  moreover have "gm_get (kd_ids (forget tpl key k')) (cache_key tpl2 key2) = gm_get (kd_ids k) (cache_key tpl2 key2)"
    if "char_of (0::nat) \<notin> set tpl2" "(tpl2, key2) \<noteq> (tpl, key)" for tpl2 key2
    using other [OF that] keys by (auto simp: forget_def)
  ultimately show ?thesis using dry by (simp add: forget_def)
qed

section \<open>An example platform\<close>

text \<open>A platform with one record of an earlier version, keyless, and a map of keys to records.\<close>

definition example_platform :: "(string \<times> string, string) gomap api" where
  "example_platform = \<lparr>
     api_find = (\<lambda>tid slug v w. (Inr [\<lparr>es_id = ''old'', es_created = 1, es_key = []\<rparr>], w)),
     api_by_key = (\<lambda>tpl key w. (Inr (gm_get w (tpl, key)), w)),
     api_upsert = (\<lambda>tpl key attrs w. case gm_get w (tpl, key) of Some eid \<Rightarrow> (Inr (eid, False), w)
        | None \<Rightarrow> (Inr (''new'', True), gm_put (tpl, key) ''new'' w)),
     api_set_key = (\<lambda>eid key w. (Inr (), gm_put (''host'', key) eid w))\<rparr>"

definition example_target :: id_target where
  "example_target = \<lparr>it_slug = ''host'', it_id = ''t1'', it_attr = ''machine_id''\<rparr>"

lemma example_lawful: "platform_lawful (\<lambda>w tpl key. gm_get w (tpl, key)) example_target example_platform"
  by (auto simp: platform_lawful_def example_platform_def example_target_def split: option.splits)

lemma example_key_valid: "valid_key ''m1'' = None"
proof -
  have "trim_space ''m1'' = ''m1''" by (rule trim_space_ascii) (simp_all add: byte_def is_space_def)
  moreover have "runes ''m1'' = [109, 49]" by (simp add: runes.simps [of "_ # _"] decode_rune_ascii byte_def)
  ultimately show ?thesis by (simp add: valid_key_def max_key_len_def is_control_def)
qed

lemma example_adopts:
  "resolve_host_entity example_platform example_target ''m1'' False ([], []) =
    (Inr (host_with ''m1'' ''old'' Adopted), ([((''host'', ''m1''), ''old'')],
      [CallByKey ''host'' ''m1'', CallFind ''t1'' ''machine_id'' ''m1'', CallSetKey ''old'' ''m1'']))"
  by (simp add: resolve_host_entity_def example_key_valid)
    (simp add: adopt_host_def api_calls call_def example_platform_def example_target_def host_with_def gm_put_def Let_def)

theorem resolve_host_writes_witness:
  "length (filter is_write [CallByKey ''host'' ''m1'', CallFind ''t1'' ''machine_id'' ''m1'', CallSetKey ''old'' ''m1'']) \<le> 3"
  using resolve_host_writes [OF example_adopts] by auto

theorem resolve_host_holds_witness: "gm_get [((''host'', ''m1''), ''old'')] (''host'', ''m1'') = Some ''old''"
  using resolve_host_holds [OF example_lawful example_adopts] by (simp add: host_with_def example_target_def)

definition example_keyed :: keyed where
  "example_keyed = \<lparr>kd_host_id = ''h'', kd_host_link = [(''ups'', ''ups_host'')], kd_dry = False, kd_ids = []\<rparr>"

lemma example_keyed_resolves:
  "keyed_resolve example_platform ''ups'' ''u1'' example_keyed ([], []) =
    (Inr (''new'', Created), example_keyed\<lparr>kd_ids := [(cache_key ''ups'' ''u1'', ''new'')]\<rparr>,
     [((''ups'', ''u1''), ''new'')], [CallByKey ''ups'' ''u1'', CallUpsert ''ups'' ''u1'' [(''ups_host'', ''h'')]])"
  by (simp add: keyed_resolve_def example_keyed_def upsert_def upsert_attempts_def numeral_3_eq_3 api_calls call_def
      example_platform_def link_attrs_def gm_put_def gm_getd_def gm_get_def Let_def)

lemma keyed_remembers_witness:
  "keyed_resolve example_platform ''ups'' ''u1'' (example_keyed\<lparr>kd_ids := [(cache_key ''ups'' ''u1'', ''new'')]\<rparr>) ([], [])
    = (Inr (''new'', Found), example_keyed\<lparr>kd_ids := [(cache_key ''ups'' ''u1'', ''new'')]\<rparr>, ([], []))"
proof -
  have "char_of (0::nat) \<notin> set ''ups''" by code_simp
  from keyed_remembers [OF example_keyed_resolves this] show ?thesis by blast
qed

end
