(* ===== verification/Manifest.thy ===== *)
theory Manifest
  imports Gostring
begin

text \<open>
  \<open>internal/manifest\<close>, the data and the validation (manifest.go, validate.go): what a module
  declares about the schema it needs, and the check that every manifest of a build passes before
  anything else happens. \<open>validate\<close> collects every problem, as the code does; it reports none
  exactly on the manifests that satisfy \<open>wf_manifests\<close>, the declarative reading of the rules.
\<close>

section \<open>Manifests\<close>

datatype kind = KindText | KindNumber | KindBoolean | KindDate | KindDatetime | KindList
  | KindMetric | KindReference | KindOther string

definition kind_valid :: "kind \<Rightarrow> bool" where
  "kind_valid k = (case k of KindOther _ \<Rightarrow> False | _ \<Rightarrow> True)"

text \<open>A kind is a Go string; these are the constants.\<close>

definition kind_string :: "kind \<Rightarrow> string" where
  "kind_string k = (case k of KindText \<Rightarrow> ''text'' | KindNumber \<Rightarrow> ''number'' | KindBoolean \<Rightarrow> ''boolean''
     | KindDate \<Rightarrow> ''date'' | KindDatetime \<Rightarrow> ''datetime'' | KindList \<Rightarrow> ''list'' | KindMetric \<Rightarrow> ''metric''
     | KindReference \<Rightarrow> ''reference'' | KindOther s \<Rightarrow> s)"

record mtemplate =
  t_slug :: string
  t_name :: string
  t_desc :: string
  t_entity :: bool

record mattribute =
  a_key :: string
  a_name :: string
  a_slug :: string
  a_kind :: kind
  a_desc :: string
  a_options :: "string list"
  a_template :: string
  a_target :: string
  a_label :: int
  a_platforms :: "string list"

record manifest =
  m_module :: string
  m_templates :: "mtemplate list"
  m_attributes :: "mattribute list"

definition host_template :: string where
  "host_template = ''host''"

definition host_template_name :: string where
  "host_template_name = ''Host''"

definition known_platforms :: "string list" where
  "known_platforms = [''darwin'', ''linux'', ''windows'']"

definition valid_platform :: "string \<Rightarrow> bool" where
  "valid_platform s \<longleftrightarrow> s \<in> set known_platforms"

text \<open>Where an attribute can be collected; no declaration means everywhere.\<close>

definition collectable :: "string list \<Rightarrow> string \<Rightarrow> bool" where
  "collectable platforms goos \<longleftrightarrow> platforms = [] \<or> goos \<in> set platforms"

text \<open>The regular expressions \<open>^[a-z][a-z0-9_]*$\<close> and \<open>^[a-z][a-z0-9-]*$\<close>.\<close>

definition valid_slug :: "string \<Rightarrow> bool" where
  "valid_slug s = (case s of [] \<Rightarrow> False
     | c # cs \<Rightarrow> is_lower c \<and> list_all (\<lambda>d. is_lower d \<or> is_digit d \<or> d = CHR ''_'') cs)"

definition valid_module_name :: "string \<Rightarrow> bool" where
  "valid_module_name s = (case s of [] \<Rightarrow> False
     | c # cs \<Rightarrow> is_lower c \<and> list_all (\<lambda>d. is_lower d \<or> is_digit d \<or> d = CHR ''-'') cs)"

lemma valid_slug_Nil [simp]: "\<not> valid_slug []"
  by (simp add: valid_slug_def)

text \<open>
  \<open>strings.ToUpper\<close> on the first byte of a word: a byte that is no ASCII character is invalid
  UTF-8 on its own and becomes U+FFFD.
\<close>

definition upper_first :: "string \<Rightarrow> string" where
  "upper_first p = (case p of [] \<Rightarrow> []
     | c # cs \<Rightarrow> (if byte c < 128 then [upper_byte c] else map char_of [239::nat, 191, 189]) @ cs)"

definition title_from_slug :: "string \<Rightarrow> string" where
  "title_from_slug slug = join '' '' (map upper_first (split_at (CHR ''_'') slug))"

section \<open>Validation\<close>

datatype mproblem =
    EmptyModuleName
  | BadModuleName string
  | DuplicateModule string
  | BadTemplateSlug string string
  | EmptyTemplateName string string
  | HostEntityTemplate string
  | EmptyKey string string
  | DuplicateKey string string
  | EmptyAttrName string string
  | BadAttrSlug string string string
  | SlugTwoOwners string string string
  | SlugTwice string string
  | BadKind string string kind
  | ListNeedsOptions string string
  | OptionsForbidden string string
  | EmptyOption string string
  | DuplicateOption string string string
  | BadAttrTemplate string string string
  | ReferenceTarget string string string
  | ReferencePlace string string
  | TargetForbidden string string
  | NegativeLabel string string
  | BadPlatform string string string
  | HostLinkCount string string int

definition when_p :: "bool \<Rightarrow> mproblem \<Rightarrow> mproblem list" where
  "when_p b p = (if b then [p] else [])"

lemma when_p_Nil [simp]: "when_p b p = [] \<longleftrightarrow> \<not> b"
  by (simp add: when_p_def)

text \<open>The maps the loop carries: slug owners over all modules, keys and host links per module.\<close>

record vstate =
  v_problems :: "mproblem list"
  v_owner :: "(string, string) gomap"
  v_keys :: "string list"
  v_links :: "(string, int) gomap"

fun option_problems :: "string \<Rightarrow> string \<Rightarrow> string list \<Rightarrow> string list \<Rightarrow> mproblem list" where
  "option_problems m k seen [] = []"
| "option_problems m k seen (x # xs) =
     (if trim_space x = [] then EmptyOption m k # option_problems m k seen xs
      else when_p (x \<in> set seen) (DuplicateOption m k x) @ option_problems m k (x # seen) xs)"

definition slug_step :: "string \<Rightarrow> mattribute \<Rightarrow> (string, string) gomap \<Rightarrow> mproblem list \<times> (string, string) gomap" where
  "slug_step m a own =
     (if \<not> valid_slug (a_slug a) then ([BadAttrSlug m (a_key a) (a_slug a)], own)
      else (case gm_get own (a_slug a) of
          Some prev \<Rightarrow> (if prev \<noteq> m then ([SlugTwoOwners (a_slug a) prev m], own) else ([SlugTwice m (a_slug a)], own))
        | None \<Rightarrow> ([], gm_put (a_slug a) m own)))"

definition link_step :: "string \<Rightarrow> string list \<Rightarrow> mattribute \<Rightarrow> (string, int) gomap \<Rightarrow> mproblem list \<times> (string, int) gomap" where
  "link_step m ents a links =
     (if a_kind a = KindReference \<and> a_target a \<noteq> host_template then ([ReferenceTarget m (a_key a) (a_target a)], links)
      else if a_kind a = KindReference \<and> a_template a \<notin> set ents then ([ReferencePlace m (a_key a)], links)
      else if a_kind a = KindReference then ([], gm_inc (a_template a) links)
      else if a_target a \<noteq> [] then ([TargetForbidden m (a_key a)], links)
      else ([], links))"

definition attr_local_problems :: "string \<Rightarrow> mattribute \<Rightarrow> mproblem list" where
  "attr_local_problems m a =
     when_p (\<not> kind_valid (a_kind a)) (BadKind m (a_key a) (a_kind a))
     @ (if a_kind a = KindList \<and> a_options a = [] then [ListNeedsOptions m (a_key a)]
        else if a_kind a \<noteq> KindList \<and> a_options a \<noteq> [] then [OptionsForbidden m (a_key a)] else [])
     @ option_problems m (a_key a) [] (a_options a)
     @ when_p (a_template a \<noteq> [] \<and> \<not> valid_slug (a_template a)) (BadAttrTemplate m (a_key a) (a_template a))"

definition attr_tail_problems :: "string \<Rightarrow> mattribute \<Rightarrow> mproblem list" where
  "attr_tail_problems m a =
     when_p (a_label a < 0) (NegativeLabel m (a_key a))
     @ concat (map (\<lambda>p. when_p (\<not> valid_platform p) (BadPlatform m (a_key a) p)) (a_platforms a))"

definition check_attr :: "string \<Rightarrow> string list \<Rightarrow> vstate \<Rightarrow> mattribute \<Rightarrow> vstate" where
  "check_attr m ents st a = (
     let p_key = (if a_key a = [] then [EmptyKey m (a_slug a)]
                  else when_p (a_key a \<in> set (v_keys st)) (DuplicateKey m (a_key a)));
         p_name = when_p (trim_space (a_name a) = []) (EmptyAttrName m (a_key a));
         (p_slug, own) = slug_step m a (v_owner st);
         (p_link, links) = link_step m ents a (v_links st)
     in st\<lparr>v_problems := v_problems st @ p_key @ p_name @ p_slug @ attr_local_problems m a @ p_link @ attr_tail_problems m a,
           v_owner := own, v_keys := a_key a # v_keys st, v_links := links\<rparr>)"

definition entity_slugs :: "manifest \<Rightarrow> string list" where
  "entity_slugs m = map t_slug (filter t_entity (m_templates m))"

definition template_problems :: "manifest \<Rightarrow> mproblem list" where
  "template_problems m =
     concat (map (\<lambda>t. when_p (\<not> valid_slug (t_slug t)) (BadTemplateSlug (m_module m) (t_slug t))
       @ when_p (trim_space (t_name t) = []) (EmptyTemplateName (m_module m) (t_slug t))) (m_templates m))
     @ concat (map (\<lambda>s. when_p (s = host_template) (HostEntityTemplate (m_module m))) (entity_slugs m))"

definition link_count_problems :: "manifest \<Rightarrow> (string, int) gomap \<Rightarrow> mproblem list" where
  "link_count_problems m links =
     concat (map (\<lambda>t. when_p (t_entity t \<and> gm_getd 0 links (t_slug t) \<noteq> 1)
       (HostLinkCount (m_module m) (t_slug t) (gm_getd 0 links (t_slug t)))) (m_templates m))"

fun validate_from :: "string list \<Rightarrow> (string, string) gomap \<Rightarrow> manifest list \<Rightarrow> mproblem list" where
  "validate_from seen own [] = []"
| "validate_from seen own (m # ms) = (
     let p_mod = (if m_module m = [] then [EmptyModuleName]
                  else when_p (\<not> valid_module_name (m_module m)) (BadModuleName (m_module m)))
                 @ when_p (m_module m \<in> set seen) (DuplicateModule (m_module m));
         st = foldl (check_attr (m_module m) (entity_slugs m))
                \<lparr>v_problems = [], v_owner = own, v_keys = [], v_links = []\<rparr> (m_attributes m)
     in p_mod @ template_problems m @ v_problems st @ link_count_problems m (v_links st)
        @ validate_from (m_module m # seen) (v_owner st) ms)"

definition validate :: "manifest list \<Rightarrow> mproblem list" where
  "validate ms = validate_from [] [] ms"

section \<open>The rules, declaratively\<close>

definition wf_attr :: "string list \<Rightarrow> mattribute \<Rightarrow> bool" where
  "wf_attr ents a \<longleftrightarrow> a_key a \<noteq> [] \<and> trim_space (a_name a) \<noteq> [] \<and> valid_slug (a_slug a) \<and> kind_valid (a_kind a)
     \<and> (a_kind a = KindList \<longleftrightarrow> a_options a \<noteq> [])
     \<and> distinct (a_options a) \<and> (\<forall>x \<in> set (a_options a). trim_space x \<noteq> [])
     \<and> (a_template a = [] \<or> valid_slug (a_template a))
     \<and> (if a_kind a = KindReference then a_target a = host_template \<and> a_template a \<in> set ents else a_target a = [])
     \<and> 0 \<le> a_label a \<and> (\<forall>p \<in> set (a_platforms a). valid_platform p)"

definition links_on :: "string \<Rightarrow> manifest \<Rightarrow> nat" where
  "links_on s m = length (filter (\<lambda>a. a_kind a = KindReference \<and> a_template a = s) (m_attributes m))"

definition wf_manifest :: "manifest \<Rightarrow> bool" where
  "wf_manifest m \<longleftrightarrow> valid_module_name (m_module m)
     \<and> (\<forall>t \<in> set (m_templates m). valid_slug (t_slug t) \<and> trim_space (t_name t) \<noteq> []
          \<and> (t_entity t \<longrightarrow> t_slug t \<noteq> host_template \<and> links_on (t_slug t) m = 1))
     \<and> distinct (map a_key (m_attributes m))
     \<and> (\<forall>a \<in> set (m_attributes m). wf_attr (entity_slugs m) a)"

definition wf_manifests :: "manifest list \<Rightarrow> bool" where
  "wf_manifests ms \<longleftrightarrow> distinct (map m_module ms) \<and> (\<forall>m \<in> set ms. wf_manifest m)
     \<and> distinct (map a_slug (concat (map m_attributes ms)))"

subsection \<open>Agreement of the two\<close>

lemma option_problems_Nil:
  "option_problems m k seen xs = [] \<longleftrightarrow>
     distinct xs \<and> (\<forall>x \<in> set xs. trim_space x \<noteq> []) \<and> set xs \<inter> set seen = {}"
  by (induction m k seen xs rule: option_problems.induct) auto

lemma attr_local_Nil:
  "attr_local_problems m a = [] \<longleftrightarrow> kind_valid (a_kind a)
     \<and> (a_kind a = KindList \<longleftrightarrow> a_options a \<noteq> [])
     \<and> distinct (a_options a) \<and> (\<forall>x \<in> set (a_options a). trim_space x \<noteq> [])
     \<and> (a_template a = [] \<or> valid_slug (a_template a))"
  by (auto simp: attr_local_problems_def option_problems_Nil split: if_splits)

lemma attr_tail_Nil:
  "attr_tail_problems m a = [] \<longleftrightarrow> 0 \<le> a_label a \<and> (\<forall>p \<in> set (a_platforms a). valid_platform p)"
  by (auto simp: attr_tail_problems_def)

text \<open>An attribute adds no problem exactly when it is well formed and its key and slug are new.\<close>

definition attr_ok :: "string list \<Rightarrow> vstate \<Rightarrow> mattribute \<Rightarrow> bool" where
  "attr_ok ents st a \<longleftrightarrow> wf_attr ents a \<and> a_key a \<notin> set (v_keys st) \<and> \<not> gm_has (v_owner st) (a_slug a)"

lemma check_attr_problems:
  "v_problems (check_attr m ents st a) = [] \<longleftrightarrow> v_problems st = [] \<and> attr_ok ents st a"
  by (auto simp: check_attr_def slug_step_def link_step_def attr_ok_def wf_attr_def attr_local_Nil attr_tail_Nil
      gm_has_def Let_def split: if_splits option.splits)

lemma check_attr_keep:
  assumes "attr_ok ents st a"
  shows "v_owner (check_attr m ents st a) = gm_put (a_slug a) m (v_owner st)"
    and "v_keys (check_attr m ents st a) = a_key a # v_keys st"
    and "v_links (check_attr m ents st a) =
      (if a_kind a = KindReference then gm_inc (a_template a) (v_links st) else v_links st)"
  using assms
  by (auto simp: check_attr_def slug_step_def link_step_def attr_ok_def wf_attr_def gm_has_def Let_def
      split: if_splits option.splits)

lemma check_attrs_problems:
  "v_problems (foldl (check_attr m ents) st as) = [] \<longleftrightarrow> v_problems st = []
     \<and> (\<forall>a \<in> set as. wf_attr ents a) \<and> distinct (map a_key as) \<and> distinct (map a_slug as)
     \<and> (\<forall>a \<in> set as. a_key a \<notin> set (v_keys st) \<and> \<not> gm_has (v_owner st) (a_slug a))"
proof (induction as arbitrary: st)
  case Nil
  then show ?case by simp
next
  case (Cons a as)
  show ?case
  proof (cases "attr_ok ents st a")
    case True
    show ?thesis
      by (simp add: Cons.IH check_attr_problems check_attr_keep [OF True]) (use True in \<open>auto simp: attr_ok_def image_iff; metis\<close>)
  next
    case False
    then show ?thesis by (simp add: Cons.IH check_attr_problems) (auto simp: attr_ok_def)
  qed
qed

lemma check_attrs_keep:
  assumes "v_problems (foldl (check_attr m ents) st as) = []"
  shows "(\<forall>s. gm_has (v_owner (foldl (check_attr m ents) st as)) s \<longleftrightarrow> gm_has (v_owner st) s \<or> s \<in> a_slug ` set as)
    \<and> (\<forall>s. gm_getd 0 (v_links (foldl (check_attr m ents) st as)) s
        = gm_getd 0 (v_links st) s + int (length (filter (\<lambda>a. a_kind a = KindReference \<and> a_template a = s) as)))"
  using assms
proof (induction as arbitrary: st)
  case Nil
  then show ?case by simp
next
  case (Cons a as)
  have pre: "v_problems (foldl (check_attr m ents) (check_attr m ents st a) as) = []"
    using Cons.prems by simp
  then have "v_problems (check_attr m ents st a) = []" by (simp add: check_attrs_problems)
  then have ok: "attr_ok ents st a" by (simp add: check_attr_problems)
  show ?case using Cons.IH [OF pre] by (auto simp: check_attr_keep [OF ok])
qed

lemma template_problems_Nil:
  "template_problems m = [] \<longleftrightarrow> (\<forall>t \<in> set (m_templates m). valid_slug (t_slug t) \<and> trim_space (t_name t) \<noteq> []
     \<and> (t_entity t \<longrightarrow> t_slug t \<noteq> host_template))"
  by (auto simp: template_problems_def entity_slugs_def)

lemma validate_from_Nil:
  "validate_from seen own ms = [] \<longleftrightarrow> (\<forall>m \<in> set ms. wf_manifest m)
     \<and> distinct (map m_module ms) \<and> set (map m_module ms) \<inter> set seen = {}
     \<and> distinct (map a_slug (concat (map m_attributes ms)))
     \<and> (\<forall>a \<in> set (concat (map m_attributes ms)). \<not> gm_has own (a_slug a))"
proof (induction seen own ms rule: validate_from.induct)
  case (1 seen own)
  then show ?case by simp
next
  case (2 seen own m ms)
  define st where "st = foldl (check_attr (m_module m) (entity_slugs m))
    \<lparr>v_problems = [], v_owner = own, v_keys = [], v_links = []\<rparr> (m_attributes m)"
  define heads where "heads \<longleftrightarrow> valid_module_name (m_module m) \<and> m_module m \<notin> set seen \<and> template_problems m = []
    \<and> v_problems st = [] \<and> link_count_problems m (v_links st) = []"
  have split: "validate_from seen own (m # ms) = [] \<longleftrightarrow> heads \<and> validate_from (m_module m # seen) (v_owner st) ms = []"
    by (auto simp: heads_def st_def Let_def valid_module_name_def)
  have IH: "validate_from (m_module m # seen) (v_owner st) ms = [] \<longleftrightarrow> (\<forall>m \<in> set ms. wf_manifest m)
     \<and> distinct (map m_module ms) \<and> set (map m_module ms) \<inter> set (m_module m # seen) = {}
     \<and> distinct (map a_slug (concat (map m_attributes ms)))
     \<and> (\<forall>a \<in> set (concat (map m_attributes ms)). \<not> gm_has (v_owner st) (a_slug a))"
    using 2 [OF refl st_def] by simp
  have problems: "v_problems st = [] \<longleftrightarrow> (\<forall>a \<in> set (m_attributes m). wf_attr (entity_slugs m) a)
     \<and> distinct (map a_key (m_attributes m)) \<and> distinct (map a_slug (m_attributes m))
     \<and> (\<forall>a \<in> set (m_attributes m). \<not> gm_has own (a_slug a))"
    by (simp add: st_def check_attrs_problems)
  have keep: "v_problems st = [] \<Longrightarrow> (\<forall>s. gm_has (v_owner st) s \<longleftrightarrow> gm_has own s \<or> s \<in> a_slug ` set (m_attributes m))
     \<and> (\<forall>s. gm_getd 0 (v_links st) s = int (links_on s m))"
    using check_attrs_keep [of "m_module m" "entity_slugs m" _ "m_attributes m"]
    by (simp add: st_def links_on_def)
  have heads_iff: "heads \<longleftrightarrow> wf_manifest m \<and> m_module m \<notin> set seen \<and> distinct (map a_slug (m_attributes m))
     \<and> (\<forall>a \<in> set (m_attributes m). \<not> gm_has own (a_slug a))"
    using keep unfolding heads_def wf_manifest_def template_problems_Nil problems
    by (auto simp: link_count_problems_def)
  show ?case
  proof (cases heads)
    case True
    then have k: "\<And>s. gm_has (v_owner st) s \<longleftrightarrow> gm_has own s \<or> s \<in> a_slug ` set (m_attributes m)"
      using keep by (auto simp: heads_def)
    define xs where "xs = map a_slug (m_attributes m)"
    define ys where "ys = map a_slug (concat (map m_attributes ms))"
    have rest: "(\<forall>a \<in> set (concat (map m_attributes ms)). \<not> gm_has (v_owner st) (a_slug a))
        \<longleftrightarrow> (\<forall>s \<in> set ys. \<not> gm_has own s) \<and> set xs \<inter> set ys = {}"
    proof -
      have "(\<forall>s \<in> set ys. \<not> gm_has (v_owner st) s) \<longleftrightarrow> (\<forall>s \<in> set ys. \<not> gm_has own s) \<and> set xs \<inter> set ys = {}"
        unfolding k xs_def set_map by blast
      then show ?thesis by (simp add: ys_def)
    qed
    have all: "distinct (map a_slug (concat (map m_attributes (m # ms)))) \<longleftrightarrow> distinct xs \<and> distinct ys \<and> set xs \<inter> set ys = {}"
      by (simp only: xs_def ys_def list.map concat.simps map_append distinct_append)
    have new: "(\<forall>a \<in> set (concat (map m_attributes (m # ms))). \<not> gm_has own (a_slug a))
        \<longleftrightarrow> (\<forall>s \<in> set xs. \<not> gm_has own s) \<and> (\<forall>s \<in> set ys. \<not> gm_has own s)"
      by (auto simp: xs_def ys_def)
    have own: "(\<forall>s \<in> set xs. \<not> gm_has own s)" "distinct xs" "wf_manifest m" "m_module m \<notin> set seen"
      using True heads_iff by (auto simp: xs_def)
    show ?thesis unfolding split IH rest all new using True own by (simp add: ys_def [symmetric]) blast
  next
    case False
    with heads_iff show ?thesis unfolding split by auto
  qed
qed

text \<open>
  C5: validation is sound and complete for the manifest rules. It reports no problem exactly when
  module names are valid and distinct, slugs are unique over all modules, keys are unique within a
  module, options belong to lists only, references sit on an entity template of their own module and
  point at the host, and every entity template carries exactly one host link.
\<close>

theorem validate_complete: "validate ms = [] \<longleftrightarrow> wf_manifests ms"
  by (auto simp: validate_def validate_from_Nil wf_manifests_def)

end
