(* ===== verification/Machineid.thy ===== *)
theory Machineid
  imports Gosha Identity Manifest
begin

text \<open>
  \<open>internal/module/machineid\<close>: the identity of a host, pinned by the operator or derived from what the
  operating system keeps. The root file system, \<open>ioreg\<close> and the registry are a record of readings, a
  parameter of the definitions; \<open>None\<close> is a reading that failed.
\<close>

datatype identity_source = SourceStatic | SourceLinux | SourceDarwin | SourceWindows

record host_identity =
  hi_value :: string
  hi_source :: identity_source

record machineid_module =
  mi_fs :: "string \<Rightarrow> string option"
  mi_ioreg :: "string option"
  mi_guid :: "string option"
  mi_goos :: string

definition machineid_manifest :: manifest where
  "machineid_manifest = \<lparr>m_module = ''machine-id'', m_templates = [],
     m_attributes = [\<lparr>a_key = ''id'', a_name = ''Machine ID'', a_slug = ''machine_id'',
       a_kind = KindText,
       a_desc = ''Stable identity of the host reporting through omnistat (derived from the OS machine id, or set by the operator)'',
       a_options = [], a_template = [], a_target = [], a_label = 1, a_platforms = []\<rparr>]\<rparr>"

datatype machineid_error =
    StaticEmpty
  | StaticTooLong nat
  | NotSupported string
  | LookedAt "string list"

definition max_static_len :: nat where
  "max_static_len = 128"

text \<open>The length is \<open>len\<close>, so it counts bytes.\<close>

definition validate_static :: "string \<Rightarrow> machineid_error option" where
  "validate_static s = (let t = trim_space s in
     if t = [] then Some StaticEmpty
     else if max_static_len < length t then Some (StaticTooLong (length t))
     else None)"

definition derivation_key :: string where
  "derivation_key = ''omnistat/host-identity/v1''"

definition derive :: "string \<Rightarrow> string" where
  "derive raw = hex_encode (hmac_sha256 (map byte derivation_key) (map byte (trim_space raw)))"

text \<open>\<open>strings.Trim\<close> with a set of ASCII bytes.\<close>

definition trim_set :: "char list \<Rightarrow> string \<Rightarrow> string" where
  "trim_set cs s = rev (dropWhile (\<lambda>c. c \<in> set cs) (rev (dropWhile (\<lambda>c. c \<in> set cs) s)))"

definition present :: "string \<Rightarrow> string" where
  "present v = (let t = trim_space v in if trim_set ''0-'' t = [] then [] else t)"

text \<open>\<open>strings.Contains\<close>.\<close>

fun has_sub :: "string \<Rightarrow> string \<Rightarrow> bool" where
  "has_sub sub [] \<longleftrightarrow> sub = []"
| "has_sub sub (c # cs) \<longleftrightarrow> take (length sub) (c # cs) = sub \<or> has_sub sub cs"

definition read_id_file :: "machineid_module \<Rightarrow> string \<Rightarrow> string" where
  "read_id_file m path = (case mi_fs m path of None \<Rightarrow> [] | Some data \<Rightarrow> present data)"

fun uuid_line :: "string list \<Rightarrow> string" where
  "uuid_line [] = []"
| "uuid_line (l # ls) = (if \<not> has_sub ''IOPlatformUUID'' l then uuid_line ls
     else (case cut_at CHR ''='' l of
         None \<Rightarrow> uuid_line ls
       | Some (_, after) \<Rightarrow> present (trim_set [CHR 0x22] (trim_space after))))"

definition platform_uuid :: "machineid_module \<Rightarrow> string" where
  "platform_uuid m = (case mi_ioreg m of None \<Rightarrow> [] | Some out \<Rightarrow> uuid_line (split_at CHR 0x0A out))"

definition machine_guid :: "machineid_module \<Rightarrow> string" where
  "machine_guid m = (case mi_guid m of None \<Rightarrow> [] | Some v \<Rightarrow> present v)"

definition machine_guid_location :: string where
  "machine_guid_location = ''HKLM'' @ [CHR 0x5C] @ ''SOFTWARE'' @ [CHR 0x5C] @ ''Microsoft'' @ [CHR 0x5C] @ ''Cryptography'' @ [CHR 0x5C] @ ''MachineGuid''"

text \<open>The candidate files of Linux in turn, stopping at the first that holds an id.\<close>

fun first_file :: "machineid_module \<Rightarrow> string list \<Rightarrow> string list \<Rightarrow> string \<times> string list" where
  "first_file m looked [] = ([], looked)"
| "first_file m looked (p # ps) = (let v = read_id_file m p; l = looked @ [CHR 0x2F # p] in
     if v \<noteq> [] then (v, l) else first_file m l ps)"

definition find_raw :: "machineid_module \<Rightarrow> (string \<times> identity_source \<times> string list) option" where
  "find_raw m = (
     if mi_goos m = ''linux'' then (case first_file m [] [''etc/machine-id'', ''var/lib/dbus/machine-id''] of
         (raw, looked) \<Rightarrow> Some (raw, SourceLinux, looked))
     else if mi_goos m = ''darwin'' then Some (platform_uuid m, SourceDarwin, [''ioreg IOPlatformUUID''])
     else if mi_goos m = ''windows'' then Some (machine_guid m, SourceWindows, [machine_guid_location])
     else None)"

definition discover :: "machineid_module \<Rightarrow> string \<Rightarrow> machineid_error + host_identity" where
  "discover m static = (
     if trim_space static \<noteq> [] then (case validate_static static of
         Some e \<Rightarrow> Inl e
       | None \<Rightarrow> Inr \<lparr>hi_value = trim_space static, hi_source = SourceStatic\<rparr>)
     else (case find_raw m of
         None \<Rightarrow> Inl (NotSupported (mi_goos m))
       | Some (raw, source, looked) \<Rightarrow>
           if raw = [] then Inl (LookedAt looked) else Inr \<lparr>hi_value = derive raw, hi_source = source\<rparr>))"

section \<open>What a derived identity looks like\<close>

lemma hex_ascii: "is_hex c \<Longrightarrow> byte c < 128 \<and> \<not> is_space (byte c) \<and> \<not> is_control (byte c)"
  by (auto simp: is_hex_def is_digit_def is_space_def is_control_def)

lemma runes_ascii: "list_all (\<lambda>c. byte c < 128) s \<Longrightarrow> runes s = map byte s"
  by (induction s) (simp_all add: runes.simps decode_rune_ascii)

lemma derive_hex: "length (derive raw) = 64 \<and> list_all is_hex (derive raw)"
proof -
  have "list_all is_hex (derive raw)"
    unfolding derive_def hmac_sha256_def Let_def by (rule hex_encode_hex) (rule sha256_bytes)
  then show ?thesis by (simp add: derive_def length_hex_encode hmac_sha256_def Let_def length_sha256)
qed

lemma hex_key_valid: "s \<noteq> [] \<Longrightarrow> length s \<le> 128 \<Longrightarrow> list_all is_hex s \<Longrightarrow> valid_key s = None"
proof -
  assume s: "s \<noteq> []" "length s \<le> 128" "list_all is_hex s"
  then have ascii: "byte c < 128 \<and> \<not> is_space (byte c) \<and> \<not> is_control (byte c)" if "c \<in> set s" for c
    using that hex_ascii by (auto simp: list_all_iff)
  have "trim_space s = s" using s(1) ascii [of "hd s"] ascii [of "last s"] by (intro trim_space_ascii) simp_all
  moreover have "runes s = map byte s" using ascii by (intro runes_ascii) (simp add: list_all_iff)
  ultimately show ?thesis using s ascii by (auto simp: valid_key_def max_key_len_def list_ex_iff)
qed

section \<open>Where the operating system keeps an id\<close>

text \<open>The texts of the platform's own places, in the order they are tried; a place that cannot be read has none.\<close>

definition os_source :: "machineid_module \<Rightarrow> identity_source option" where
  "os_source m = (if mi_goos m = ''linux'' then Some SourceLinux else if mi_goos m = ''darwin'' then Some SourceDarwin
     else if mi_goos m = ''windows'' then Some SourceWindows else None)"

definition uuid_texts :: "string \<Rightarrow> string list" where
  "uuid_texts out = map (\<lambda>l. trim_set [CHR 0x22] (trim_space (snd (the (cut_at CHR ''='' l)))))
     (filter (\<lambda>l. has_sub ''IOPlatformUUID'' l \<and> cut_at CHR ''='' l \<noteq> None) (split_at CHR 0x0A out))"

definition of_option :: "'a option \<Rightarrow> 'a list" where
  "of_option x = (case x of None \<Rightarrow> [] | Some y \<Rightarrow> [y])"

definition id_texts :: "machineid_module \<Rightarrow> string list" where
  "id_texts m = (case os_source m of
       Some SourceLinux \<Rightarrow> of_option (mi_fs m ''etc/machine-id'') @ of_option (mi_fs m ''var/lib/dbus/machine-id'')
     | Some SourceDarwin \<Rightarrow> (case mi_ioreg m of None \<Rightarrow> [] | Some out \<Rightarrow> take 1 (uuid_texts out))
     | Some SourceWindows \<Rightarrow> of_option (mi_guid m)
     | _ \<Rightarrow> [])"

definition id_places :: "machineid_module \<Rightarrow> string list" where
  "id_places m = (case os_source m of
       Some SourceLinux \<Rightarrow> [''/etc/machine-id'', ''/var/lib/dbus/machine-id'']
     | Some SourceDarwin \<Rightarrow> [''ioreg IOPlatformUUID'']
     | _ \<Rightarrow> [machine_guid_location])"

text \<open>Nothing but zeros and hyphens between the white space at its ends.\<close>

definition no_id :: "string \<Rightarrow> bool" where
  "no_id v \<longleftrightarrow> set (trim_space v) \<subseteq> {CHR ''0'', CHR ''-''}"

lemma dropWhile_set_empty: "dropWhile (\<lambda>c. c \<in> A) s = [] \<longleftrightarrow> set s \<subseteq> A"
  by (auto simp: dropWhile_eq_Nil_conv)

lemma trim_set_empty: "trim_set cs s = [] \<longleftrightarrow> set s \<subseteq> set cs"
proof -
  let ?d = "dropWhile (\<lambda>c. c \<in> set cs) s"
  have "trim_set cs s = [] \<longleftrightarrow> set ?d \<subseteq> set cs" by (simp add: trim_set_def dropWhile_eq_Nil_conv subset_eq)
  also have "\<dots> \<longleftrightarrow> ?d = []"
  proof
    assume sub: "set ?d \<subseteq> set cs"
    show "?d = []"
    proof (rule ccontr)
      assume ne: "?d \<noteq> []"
      with sub show False using hd_dropWhile [OF ne] by (meson hd_in_set subsetD)
    qed
  qed (simp only: list.set(1) empty_subsetI)
  finally show ?thesis by (simp only: dropWhile_set_empty)
qed

lemma present_text: "present v = (if no_id v then [] else trim_space v)"
  by (simp add: present_def no_id_def trim_set_empty)

lemma text_there: "\<not> no_id v \<Longrightarrow> trim_space v \<noteq> []"
  by (auto simp: no_id_def)

lemma uuid_line_texts: "uuid_line ls = (case map (\<lambda>l. trim_set [CHR 0x22] (trim_space (snd (the (cut_at CHR ''='' l)))))
     (filter (\<lambda>l. has_sub ''IOPlatformUUID'' l \<and> cut_at CHR ''='' l \<noteq> None) ls) of [] \<Rightarrow> [] | v # _ \<Rightarrow> present v)"
  by (induction ls) (auto split: option.splits)

text \<open>The raw id found is the trimmed text of the first place that holds one; without one every place was tried.\<close>

definition raw_text :: "machineid_module \<Rightarrow> string" where
  "raw_text m = (case find (\<lambda>v. \<not> no_id v) (id_texts m) of None \<Rightarrow> [] | Some v \<Rightarrow> trim_space v)"

lemma first_files: "mi_goos m = ''linux'' \<Longrightarrow> first_file m [] [''etc/machine-id'', ''var/lib/dbus/machine-id''] = (raw, looked)
  \<Longrightarrow> raw = raw_text m \<and> (raw = [] \<longrightarrow> looked = id_places m)"
  by (auto simp: raw_text_def id_texts_def id_places_def os_source_def of_option_def read_id_file_def present_text text_there Let_def
      split: option.splits if_splits)

lemma platform_text: "mi_goos m = ''darwin'' \<Longrightarrow> platform_uuid m = raw_text m"
  by (auto simp: raw_text_def id_texts_def os_source_def platform_uuid_def uuid_line_texts uuid_texts_def present_text split: option.splits list.splits)

lemma guid_text: "mi_goos m = ''windows'' \<Longrightarrow> machine_guid m = raw_text m"
  by (auto simp: raw_text_def id_texts_def os_source_def of_option_def machine_guid_def present_text split: option.splits)

lemma find_raw_text:
  assumes "find_raw m = Some (raw, src, looked)"
  shows "os_source m = Some src \<and> raw = raw_text m \<and> (raw = [] \<longrightarrow> looked = id_places m)"
proof -
  consider "mi_goos m = ''linux''" | "mi_goos m = ''darwin''" | "mi_goos m = ''windows''"
    using assms by (auto simp: find_raw_def split: if_splits)
  then show ?thesis
  proof cases
    case 1
    then show ?thesis using assms first_files [OF 1] by (auto simp: find_raw_def os_source_def simp del: first_file.simps split: prod.splits)
  next
    case 2
    then show ?thesis using assms platform_text [OF 2] by (auto simp: find_raw_def os_source_def id_places_def)
  next
    case 3
    then show ?thesis using assms guid_text [OF 3] by (auto simp: find_raw_def os_source_def id_places_def)
  qed
qed

lemma find_raw_none: "find_raw m = None \<longleftrightarrow> os_source m = None"
  by (auto simp: find_raw_def os_source_def simp del: first_file.simps split: prod.splits)

lemma raw_text_empty: "raw_text m = [] \<longleftrightarrow> find (\<lambda>v. \<not> no_id v) (id_texts m) = None"
proof (cases "find (\<lambda>v. \<not> no_id v) (id_texts m)")
  case (Some v)
  then have "\<not> no_id v" by (auto simp: find_Some_iff)
  then show ?thesis using Some text_there by (simp add: raw_text_def)
qed (simp add: raw_text_def)

lemma derive_trim: "derive (trim_space v) = derive v"
  by (simp add: derive_def)

text \<open>
  C36: an identity is what the operator pinned, trimmed, when that is not blank: at most 128 bytes, or an error
  naming its length. Otherwise it is the keyed hash of the first text that is neither blank nor made of
  zeros and hyphens only, white space at its ends not counted, among those the platform keeps: the two
  files of Linux in their order, the value of the first line of \<open>ioreg\<close> with the UUID, the registry's GUID.
  Without one the error names every place looked at, and on another system that it is not supported. The
  hash has 64 lowercase hexadecimal characters, which the resolution of the host accepts as an external
  key.\<close>

theorem discover_usable:
  "discover m static = (
     if trim_space static \<noteq> []
     then (if length (trim_space static) \<le> 128 then Inr \<lparr>hi_value = trim_space static, hi_source = SourceStatic\<rparr>
           else Inl (StaticTooLong (length (trim_space static))))
     else (case os_source m of
         None \<Rightarrow> Inl (NotSupported (mi_goos m))
       | Some src \<Rightarrow> (case find (\<lambda>v. \<not> no_id v) (id_texts m) of
             None \<Rightarrow> Inl (LookedAt (id_places m))
           | Some v \<Rightarrow> Inr \<lparr>hi_value = derive v, hi_source = src\<rparr>)))
   \<and> length (derive raw) = 64 \<and> list_all is_hex (derive raw) \<and> valid_key (derive raw) = None"
proof -
  have key: "valid_key (derive raw) = None" using derive_hex [of raw] by (intro hex_key_valid) auto
  show ?thesis
  proof (cases "trim_space static = []")
    case False
    then show ?thesis using key derive_hex [of raw] by (simp add: discover_def validate_static_def max_static_len_def Let_def)
  next
    case True
    show ?thesis
    proof (cases "find_raw m")
      case None
      then show ?thesis using True key derive_hex [of raw] find_raw_none [of m] by (simp add: discover_def)
    next
      case (Some r)
      then obtain raw' src looked where r: "find_raw m = Some (raw', src, looked)" by (metis prod_cases3)
      show ?thesis using True key derive_hex [of raw] find_raw_text [OF r] raw_text_empty [of m] r
        by (auto simp: discover_def raw_text_def derive_trim split: option.splits)
    qed
  qed
qed

end
