(* ===== verification/Resolve.thy ===== *)
theory Resolve
  imports Manifest
begin

text \<open>
  \<open>internal/manifest/resolve.go\<close>: the operator's overrides applied to the validated manifests.
  \<open>resolve\<close> is \<open>Resolve\<close>: it walks the overrides, settles the entity templates, declares the
  templates, places every attribute, picks the label a host link shows, and returns the desired
  schema sorted by slug, or every problem it met. The maps of the Go function are the fields of
  the states its loops carry.
\<close>

section \<open>Overrides and the desired schema\<close>

record attr_override =
  ao_slug :: string
  ao_template :: string
  ao_name :: string
  ao_desc :: string

record mod_override =
  mo_template :: string
  mo_attributes :: "(string, attr_override) gomap"

record overrides =
  ov_host :: string
  ov_modules :: "(string, mod_override) gomap"

record desired_template =
  dt_slug :: string
  dt_name :: string
  dt_desc :: string
  dt_entity :: bool
  dt_module :: string
  dt_key :: string

record desired_attr =
  da_slug :: string
  da_name :: string
  da_desc :: string
  da_kind :: kind
  da_options :: "string list"
  da_templates :: "string list"
  da_module :: string
  da_key :: string
  da_platforms :: "string list"
  da_entity :: string
  da_target :: string
  da_display :: string

record desired =
  d_host :: string
  d_templates :: "desired_template list"
  d_attributes :: "desired_attr list"

datatype rproblem =
    BadHostSlug string
  | UnknownModule string
  | BadModuleTemplate string string
  | NoSuchAttribute string string
  | BadOverrideSlug string string string
  | BadOverrideTemplate string string string
  | EntityRenameMany string
  | EntityIsHost string string string
  | EntityShared string string string
  | EntityAttrMoved string string string string
  | OnForeignEntity string string string string
  | SlugMappedTwice string string string
  | NoHostLabel string string

definition no_attr_override :: attr_override where
  "no_attr_override = \<lparr>ao_slug = [], ao_template = [], ao_name = [], ao_desc = []\<rparr>"

definition no_mod_override :: mod_override where
  "no_mod_override = \<lparr>mo_template = [], mo_attributes = []\<rparr>"

definition override_of :: "overrides \<Rightarrow> string \<Rightarrow> mod_override" where
  "override_of ov m = gm_getd no_mod_override (ov_modules ov) m"

definition attr_override_of :: "mod_override \<Rightarrow> string \<Rightarrow> attr_override" where
  "attr_override_of mo k = gm_getd no_attr_override (mo_attributes mo) k"

definition when_r :: "bool \<Rightarrow> rproblem \<Rightarrow> rproblem list" where
  "when_r b p = (if b then [p] else [])"

lemma when_r_Nil [simp]: "when_r b p = [] \<longleftrightarrow> \<not> b"
  by (simp add: when_r_def)

section \<open>Lookups in the desired schema\<close>

definition template_by_slug :: "desired \<Rightarrow> string \<Rightarrow> desired_template option" where
  "template_by_slug d s = find (\<lambda>t. dt_slug t = s) (d_templates d)"

definition entity_template :: "desired \<Rightarrow> string \<Rightarrow> string \<Rightarrow> desired_template option" where
  "entity_template d m k = find (\<lambda>t. dt_entity t \<and> dt_module t = m \<and> dt_key t = k) (d_templates d)"

text \<open>
  \<open>a.Templates[0]\<close>: every attribute of a resolved schema has exactly one template, so the read
  is in range; an attribute without one is never a match here.
\<close>

definition host_link :: "desired \<Rightarrow> string \<Rightarrow> desired_attr option" where
  "host_link d s = find (\<lambda>a. da_kind a = KindReference \<and> (case da_templates a of [] \<Rightarrow> False | t # _ \<Rightarrow> t = s)) (d_attributes d)"

definition find_attr :: "desired \<Rightarrow> string \<Rightarrow> string \<Rightarrow> desired_attr option" where
  "find_attr d m k = find (\<lambda>a. da_module a = m \<and> da_key a = k) (d_attributes d)"

section \<open>The overrides\<close>

definition resolve_host :: "overrides \<Rightarrow> rproblem list \<times> string" where
  "resolve_host ov = (if ov_host ov = [] then ([], host_template)
     else if \<not> valid_slug (ov_host ov) then ([BadHostSlug (ov_host ov)], host_template)
     else ([], ov_host ov))"

definition by_module :: "manifest list \<Rightarrow> (string, manifest) gomap" where
  "by_module ms = foldl (\<lambda>acc m. gm_put (m_module m) m acc) [] ms"

fun attr_override_problems :: "string \<Rightarrow> string list \<Rightarrow> (string, attr_override) gomap \<Rightarrow> rproblem list" where
  "attr_override_problems name keys [] = []"
| "attr_override_problems name keys ((key, ao) # rest) =
     (if key \<notin> set keys then [NoSuchAttribute name key]
      else when_r (ao_slug ao \<noteq> [] \<and> \<not> valid_slug (ao_slug ao)) (BadOverrideSlug name key (ao_slug ao))
        @ when_r (ao_template ao \<noteq> [] \<and> \<not> valid_slug (ao_template ao)) (BadOverrideTemplate name key (ao_template ao)))
     @ attr_override_problems name keys rest"

fun override_problems :: "(string, manifest) gomap \<Rightarrow> (string, mod_override) gomap \<Rightarrow> rproblem list" where
  "override_problems bm [] = []"
| "override_problems bm ((name, mo) # rest) =
     (case gm_get bm name of
        None \<Rightarrow> [UnknownModule name]
      | Some m \<Rightarrow> when_r (mo_template mo \<noteq> [] \<and> \<not> valid_slug (mo_template mo)) (BadModuleTemplate name (mo_template mo))
          @ attr_override_problems name (map a_key (m_attributes m)) (mo_attributes mo))
     @ override_problems bm rest"

section \<open>Entity templates\<close>

text \<open>\<open>entitySlug\<close>, \<open>entityOwner\<close> and the problems so far.\<close>

record estate =
  e_slugs :: "(string, (string, string) gomap) gomap"
  e_owner :: "(string, string) gomap"
  e_problems :: "rproblem list"

definition ent_slug :: "estate \<Rightarrow> string \<Rightarrow> string \<Rightarrow> string option" where
  "ent_slug es m t = gm_get (gm_getd [] (e_slugs es) m) t"

definition renamed :: "string \<Rightarrow> string \<Rightarrow> string" where
  "renamed rename e = (if rename \<noteq> [] then rename else e)"

definition entity_step :: "string \<Rightarrow> string \<Rightarrow> string \<Rightarrow> estate \<Rightarrow> string \<Rightarrow> estate" where
  "entity_step host m rename es e = (
     let slug = renamed rename e;
         p_host = when_r (slug = host) (EntityIsHost m e host);
         p_dup = (case gm_get (e_owner es) slug of Some prev \<Rightarrow> when_r (prev \<noteq> m) (EntityShared slug prev m) | None \<Rightarrow> [])
     in es\<lparr>e_slugs := gm_put m (gm_put e slug (gm_getd [] (e_slugs es) m)) (e_slugs es),
           e_owner := gm_put slug m (e_owner es),
           e_problems := e_problems es @ p_host @ p_dup\<rparr>)"

text \<open>The override renames the entity template when every attribute of the module sits on it.\<close>

definition all_on_one :: "manifest \<Rightarrow> bool" where
  "all_on_one m \<longleftrightarrow> (case entity_slugs m of [e] \<Rightarrow> list_all (\<lambda>a. a_template a = e) (m_attributes m) | _ \<Rightarrow> False)"

definition entity_module :: "overrides \<Rightarrow> string \<Rightarrow> estate \<Rightarrow> manifest \<Rightarrow> estate" where
  "entity_module ov host es m = (
     let mo = override_of ov (m_module m); ents = entity_slugs m in
     if ents = [] then es
     else let moves = (mo_template mo \<noteq> [] \<and> valid_slug (mo_template mo));
              rename = (if moves \<and> all_on_one m then mo_template mo else []);
              es1 = es\<lparr>e_slugs := gm_put (m_module m) [] (e_slugs es),
                       e_problems := e_problems es @ when_r (moves \<and> \<not> all_on_one m) (EntityRenameMany (m_module m))\<rparr>
          in foldl (entity_step host (m_module m) rename) es1 ents)"

definition entity_state :: "overrides \<Rightarrow> string \<Rightarrow> manifest list \<Rightarrow> estate" where
  "entity_state ov host ms = foldl (entity_module ov host) \<lparr>e_slugs = [], e_owner = [], e_problems = []\<rparr> ms"

section \<open>Templates\<close>

definition declare_template :: "desired_template \<Rightarrow> (string, desired_template) gomap \<Rightarrow> (string, desired_template) gomap" where
  "declare_template t ts = (if gm_has ts (dt_slug t) then ts else gm_put (dt_slug t) t ts)"

definition plain_template :: "string \<Rightarrow> string \<Rightarrow> string \<Rightarrow> desired_template" where
  "plain_template slug name desc = \<lparr>dt_slug = slug, dt_name = name, dt_desc = desc, dt_entity = False, dt_module = [], dt_key = []\<rparr>"

text \<open>\<open>entitySlug[m.Module][t.Slug]\<close> of an entity template is always set; a missing entry reads as \<open>""\<close>.\<close>

definition desired_of_template :: "estate \<Rightarrow> string \<Rightarrow> mtemplate \<Rightarrow> desired_template" where
  "desired_of_template es m t =
     (if t_entity t
      then \<lparr>dt_slug = (case ent_slug es m (t_slug t) of Some s \<Rightarrow> s | None \<Rightarrow> []), dt_name = t_name t, dt_desc = t_desc t,
             dt_entity = True, dt_module = m, dt_key = t_slug t\<rparr>
      else plain_template (t_slug t) (t_name t) (t_desc t))"

definition declared_templates :: "estate \<Rightarrow> string \<Rightarrow> manifest list \<Rightarrow> (string, desired_template) gomap" where
  "declared_templates es host ms =
     foldl (\<lambda>ts dt. declare_template dt ts)
       (declare_template (plain_template host host_template_name ''A machine reporting through omnistat'') [])
       (concat (map (\<lambda>m. map (desired_of_template es (m_module m)) (m_templates m)) ms))"

section \<open>Attributes\<close>

record rstate =
  r_templates :: "(string, desired_template) gomap"
  r_attrs :: "(string, desired_attr) gomap"
  r_owner :: "(string, string) gomap"
  r_problems :: "rproblem list"

definition attr_id :: "string \<Rightarrow> string \<Rightarrow> string" where
  "attr_id m k = m @ ''/'' @ k"

text \<open>Attribute override, then module override, then the manifest, then the host template.\<close>

definition place_attr :: "string \<Rightarrow> mod_override \<Rightarrow> attr_override \<Rightarrow> mattribute \<Rightarrow> string" where
  "place_attr host mo ao a =
     (if ao_template ao \<noteq> [] \<and> valid_slug (ao_template ao) then ao_template ao
      else if mo_template mo \<noteq> [] \<and> valid_slug (mo_template mo) then mo_template mo
      else if a_template a \<noteq> [] then a_template a
      else host)"

definition desired_of_attr :: "estate \<Rightarrow> string \<Rightarrow> mod_override \<Rightarrow> string \<Rightarrow> mattribute \<Rightarrow> desired_attr" where
  "desired_of_attr es host mo m a = (
     let ao = attr_override_of mo (a_key a); ent = ent_slug es m (a_template a) in
     \<lparr>da_slug = (if ao_slug ao \<noteq> [] \<and> valid_slug (ao_slug ao) then ao_slug ao else a_slug a),
      da_name = (if ao_name ao \<noteq> [] then ao_name ao else a_name a),
      da_desc = (if ao_desc ao \<noteq> [] then ao_desc ao else a_desc a),
      da_kind = a_kind a, da_options = a_options a,
      da_templates = [case ent of Some s \<Rightarrow> s | None \<Rightarrow> place_attr host mo ao a],
      da_module = m, da_key = a_key a, da_platforms = a_platforms a,
      da_entity = (case ent of Some _ \<Rightarrow> a_template a | None \<Rightarrow> []),
      da_target = (if a_kind a = KindReference then host else []),
      da_display = []\<rparr>)"

definition place_problems :: "estate \<Rightarrow> string \<Rightarrow> mod_override \<Rightarrow> string \<Rightarrow> mattribute \<Rightarrow> rproblem list" where
  "place_problems es host mo m a = (
     let ao = attr_override_of mo (a_key a) in
     case ent_slug es m (a_template a) of
       Some ent \<Rightarrow> when_r (ao_template ao \<noteq> [] \<and> ao_template ao \<noteq> ent) (EntityAttrMoved m (a_key a) ent (ao_template ao))
     | None \<Rightarrow> (let tpl = place_attr host mo ao a in
         (case gm_get (e_owner es) tpl of Some own \<Rightarrow> [OnForeignEntity m (a_key a) tpl own] | None \<Rightarrow> [])))"

definition attr_step :: "estate \<Rightarrow> string \<Rightarrow> overrides \<Rightarrow> rstate \<Rightarrow> string \<times> mattribute \<Rightarrow> rstate" where
  "attr_step es host ov st ma = (case ma of (m, a) \<Rightarrow>
     let mo = override_of ov m;
         da = desired_of_attr es host mo m a;
         tpl = hd (da_templates da);
         ts = declare_template (plain_template tpl (title_from_slug tpl) []) (r_templates st);
         ps = r_problems st @ place_problems es host mo m a
     in (case gm_get (r_owner st) (da_slug da) of
           Some prev \<Rightarrow> st\<lparr>r_templates := ts, r_problems := ps @ [SlugMappedTwice (da_slug da) prev (attr_id m (a_key a))]\<rparr>
         | None \<Rightarrow> st\<lparr>r_templates := ts, r_problems := ps,
                     r_owner := gm_put (da_slug da) (attr_id m (a_key a)) (r_owner st),
                     r_attrs := gm_put (da_slug da) da (r_attrs st)\<rparr>))"

definition all_attrs :: "manifest list \<Rightarrow> (string \<times> mattribute) list" where
  "all_attrs ms = concat (map (\<lambda>m. map (Pair (m_module m)) (m_attributes m)) ms)"

section \<open>The label a host link shows\<close>

definition slug_of :: "string \<Rightarrow> string \<Rightarrow> (string, string) gomap \<Rightarrow> string" where
  "slug_of m k owner = (case find (\<lambda>p. snd p = attr_id m k) owner of Some p \<Rightarrow> fst p | None \<Rightarrow> [])"

definition label_step :: "string \<Rightarrow> rstate \<Rightarrow> string \<times> int \<Rightarrow> string \<times> mattribute \<Rightarrow> string \<times> int" where
  "label_step host st best ma = (case (best, ma) of ((display, rank), (m, a)) \<Rightarrow>
     if a_label a \<le> 0 then best
     else (case gm_get (r_attrs st) (slug_of m (a_key a) (r_owner st)) of
         None \<Rightarrow> best
       | Some da \<Rightarrow> if hd (da_templates da) \<noteq> host then best
           else if rank < a_label a \<or> (a_label a = rank \<and> da_slug da < display) then (da_slug da, a_label a)
           else best))"

definition host_label :: "string \<Rightarrow> rstate \<Rightarrow> (string \<times> mattribute) list \<Rightarrow> string" where
  "host_label host st as = fst (foldl (label_step host st) ([], 0) as)"

definition display_problems :: "string \<Rightarrow> (string, desired_attr) gomap \<Rightarrow> rproblem list" where
  "display_problems display attrs =
     concat (map (\<lambda>(s, da). when_r (da_kind da = KindReference \<and> display = []) (NoHostLabel (da_module da) (da_key da))) attrs)"

definition set_display :: "string \<Rightarrow> desired_attr \<Rightarrow> desired_attr" where
  "set_display display da = (if da_kind da = KindReference \<and> display \<noteq> [] then da\<lparr>da_display := display\<rparr> else da)"

section \<open>Resolve\<close>

definition resolve_state :: "manifest list \<Rightarrow> overrides \<Rightarrow> rstate" where
  "resolve_state ms ov = (
     let (p_host, host) = resolve_host ov;
         es = entity_state ov host ms
     in foldl (attr_step es host ov)
          \<lparr>r_templates = declared_templates es host ms, r_attrs = [], r_owner = [],
           r_problems = p_host @ override_problems (by_module ms) (ov_modules ov) @ e_problems es\<rparr>
          (all_attrs ms))"

definition resolve :: "manifest list \<Rightarrow> overrides \<Rightarrow> rproblem list + desired" where
  "resolve ms ov = (
     let host = snd (resolve_host ov);
         st = resolve_state ms ov;
         display = host_label host st (all_attrs ms);
         problems = r_problems st @ display_problems display (r_attrs st)
     in if problems \<noteq> [] then Inl problems
        else Inr \<lparr>d_host = host,
                  d_templates = sort_key dt_slug (map snd (r_templates st)),
                  d_attributes = sort_key da_slug (map (\<lambda>p. set_display display (snd p)) (r_attrs st))\<rparr>)"

section \<open>The attribute loop\<close>

text \<open>The desired attribute of one declared attribute, before the display of a host link is set.\<close>

definition desired_attr_of :: "estate \<Rightarrow> string \<Rightarrow> overrides \<Rightarrow> string \<times> mattribute \<Rightarrow> desired_attr" where
  "desired_attr_of es host ov ma = desired_of_attr es host (override_of ov (fst ma)) (fst ma) (snd ma)"

definition attr_problems :: "estate \<Rightarrow> string \<Rightarrow> overrides \<Rightarrow> string \<times> mattribute \<Rightarrow> rproblem list" where
  "attr_problems es host ov ma = place_problems es host (override_of ov (fst ma)) (fst ma) (snd ma)"

lemma templates_single: "\<exists>s. da_templates (desired_of_attr es host mo m a) = [s]"
  by (simp add: desired_of_attr_def Let_def)

lemma attr_step_problems:
  "r_problems (attr_step es host ov st ma) = [] \<longleftrightarrow> r_problems st = [] \<and> attr_problems es host ov ma = []
     \<and> \<not> gm_has (r_owner st) (da_slug (desired_attr_of es host ov ma))"
  by (auto simp: attr_step_def attr_problems_def desired_attr_of_def gm_has_def Let_def split: prod.splits option.splits)

lemma attr_step_keep:
  assumes "\<not> gm_has (r_owner st) (da_slug (desired_attr_of es host ov ma))"
  shows "r_attrs (attr_step es host ov st ma) = gm_put (da_slug (desired_attr_of es host ov ma)) (desired_attr_of es host ov ma) (r_attrs st)"
    and "r_owner (attr_step es host ov st ma) = gm_put (da_slug (desired_attr_of es host ov ma)) (attr_id (fst ma) (a_key (snd ma))) (r_owner st)"
  using assms by (auto simp: attr_step_def desired_attr_of_def gm_has_def Let_def split: prod.splits option.splits)

text \<open>
  Without a problem every slug is new, so the two maps are the lists of what the loop inserted:
  one attribute per declared attribute, in their order.
\<close>

lemma attrs_keep:
  assumes "r_problems (foldl (attr_step es host ov) st as) = []" "map fst (r_attrs st) = map fst (r_owner st)"
  shows "r_problems st = [] \<and> (\<forall>ma \<in> set as. attr_problems es host ov ma = [])
    \<and> r_attrs (foldl (attr_step es host ov) st as) = r_attrs st @ map (\<lambda>ma. (da_slug (desired_attr_of es host ov ma), desired_attr_of es host ov ma)) as
    \<and> r_owner (foldl (attr_step es host ov) st as) = r_owner st @ map (\<lambda>ma. (da_slug (desired_attr_of es host ov ma), attr_id (fst ma) (a_key (snd ma)))) as
    \<and> distinct (map (\<lambda>ma. da_slug (desired_attr_of es host ov ma)) as)
    \<and> (\<forall>ma \<in> set as. \<not> gm_has (r_owner st) (da_slug (desired_attr_of es host ov ma)))"
  using assms
proof (induction as arbitrary: st)
  case Nil
  then show ?case by simp
next
  case (Cons ma as)
  let ?st = "attr_step es host ov st ma" and ?s = "da_slug (desired_attr_of es host ov ma)"
  have run: "r_problems (foldl (attr_step es host ov) ?st as) = []" using Cons.prems(1) by simp
  have "r_problems ?st = []"
  proof (rule ccontr)
    assume bad: "r_problems ?st \<noteq> []"
    have "r_problems st' \<noteq> [] \<Longrightarrow> r_problems (foldl (attr_step es host ov) st' xs) \<noteq> []" for st' xs
      by (induction xs arbitrary: st') (auto simp: attr_step_problems)
    with bad run show False by blast
  qed
  then have ok: "r_problems st = []" "attr_problems es host ov ma = []" and new: "\<not> gm_has (r_owner st) ?s"
    by (auto simp: attr_step_problems)
  have new': "\<not> gm_has (r_attrs st) ?s"
    using new Cons.prems(2) by (metis gm_has_iff list.set_map)
  have maps: "r_attrs ?st = r_attrs st @ [(?s, desired_attr_of es host ov ma)]"
      "r_owner ?st = r_owner st @ [(?s, attr_id (fst ma) (a_key (snd ma)))]"
    using new new' by (simp_all add: attr_step_keep gm_put_new)
  then have keys: "map fst (r_attrs ?st) = map fst (r_owner ?st)" using Cons.prems(2) by simp
  have has: "gm_has (r_owner ?st) s \<longleftrightarrow> gm_has (r_owner st) s \<or> s = ?s" for s
    using maps by (auto simp: gm_has_iff)
  note IH = Cons.IH [OF run keys]
  have fresh: "da_slug (desired_attr_of es host ov x) \<noteq> ?s \<and> \<not> gm_has (r_owner st) (da_slug (desired_attr_of es host ov x))"
    if "x \<in> set as" for x
    using IH that has by blast
  have "?s \<notin> (\<lambda>x. da_slug (desired_attr_of es host ov x)) ` set as" using fresh by force
  with IH ok new fresh show ?case by (simp add: maps)
qed

section \<open>Templates\<close>

definition slug_keyed :: "(string, desired_template) gomap \<Rightarrow> bool" where
  "slug_keyed ts \<longleftrightarrow> gm_ok ts \<and> (\<forall>p \<in> set ts. fst p = dt_slug (snd p))"

lemma declare_template_eq:
  "declare_template t ts = (if gm_has ts (dt_slug t) then ts else ts @ [(dt_slug t, t)])"
  by (simp add: declare_template_def gm_put_new)

lemma slug_keyed_declare [intro]: "slug_keyed ts \<Longrightarrow> slug_keyed (declare_template t ts)"
  by (auto simp: slug_keyed_def declare_template_eq gm_ok_def gm_has_iff image_iff)

lemma declare_mono: "set ts \<subseteq> set (declare_template t ts)"
  by (auto simp: declare_template_eq)

lemma declare_in: "p \<in> set (declare_template t ts) \<Longrightarrow> p \<in> set ts \<or> p = (dt_slug t, t)"
  by (auto simp: declare_template_eq split: if_splits)

lemma declare_has: "gm_has (declare_template t ts) (dt_slug t)"
  by (auto simp: declare_template_def)

lemma declares:
  assumes "slug_keyed ts"
  shows "slug_keyed (foldl (\<lambda>ts dt. declare_template dt ts) ts dts)
    \<and> set ts \<subseteq> set (foldl (\<lambda>ts dt. declare_template dt ts) ts dts)
    \<and> (\<forall>p \<in> set (foldl (\<lambda>ts dt. declare_template dt ts) ts dts). p \<in> set ts \<or> snd p \<in> set dts)"
  using assms
proof (induction dts arbitrary: ts)
  case Nil
  then show ?case by simp
next
  case (Cons dt dts)
  let ?r = "foldl (\<lambda>ts dt. declare_template dt ts) (declare_template dt ts) dts"
  have IH: "slug_keyed ?r" "set (declare_template dt ts) \<subseteq> set ?r" "\<forall>p \<in> set ?r. p \<in> set (declare_template dt ts) \<or> snd p \<in> set dts"
    using Cons.IH [OF slug_keyed_declare [OF Cons.prems]] by blast+
  have "p \<in> set ts \<or> snd p \<in> set (dt # dts)" if "p \<in> set ?r" for p
    using bspec [OF IH(3) that] declare_in [of p dt ts] by auto
  with IH(1,2) declare_mono [of ts dt] show ?case by (simp only: foldl.simps) blast
qed

lemma attr_step_templates:
  "r_templates (attr_step es host ov st ma) = (let tpl = hd (da_templates (desired_attr_of es host ov ma)) in
     declare_template (plain_template tpl (title_from_slug tpl) []) (r_templates st))"
  by (auto simp: attr_step_def desired_attr_of_def Let_def split: prod.splits option.splits)

lemma attrs_templates:
  "r_templates (foldl (attr_step es host ov) st as) = foldl (\<lambda>ts dt. declare_template dt ts) (r_templates st)
     (map (\<lambda>ma. let tpl = hd (da_templates (desired_attr_of es host ov ma)) in plain_template tpl (title_from_slug tpl) []) as)"
  by (induction as arbitrary: st) (simp_all add: attr_step_templates Let_def)

lemma declares_has:
  "dt \<in> set dts \<or> gm_has ts (dt_slug dt) \<Longrightarrow> gm_has (foldl (\<lambda>ts dt. declare_template dt ts) ts dts) (dt_slug dt)"
proof (induction dts arbitrary: ts)
  case Nil
  then show ?case by simp
next
  case (Cons d dts)
  have "gm_has (declare_template d ts) (dt_slug dt)" if "d = dt \<or> gm_has ts (dt_slug dt)"
    using that declare_has [of d ts] by (auto simp: declare_template_def)
  then show ?case using Cons by auto
qed

end
