(* ===== verification/Registry.thy ===== *)
theory Registry
  imports Manifest
begin

text \<open>
  \<open>internal/module\<close>: the registry of modules (module.go), the omissions a collection gathers
  (omissions.go) and the observations a provider returns (provider.go). A module is its name, its
  manifest, its settings interface if it is \<open>Configurable\<close> and whether it has a provider; what
  \<open>Configure\<close> does with the settings is the module's own code and a parameter of the record.
\<close>

section \<open>Modules and the registry\<close>

type_synonym settings = "(string, string) gomap"

record go_module =
  mod_name :: string
  mod_manifest :: manifest
  mod_settings :: "(string list \<times> (settings \<Rightarrow> string option)) option"

datatype reg_option = DisabledByDefault | Required

record entry =
  en_mod :: go_module
  en_enabled :: bool
  en_required :: bool

record registry =
  rg_entries :: "entry list"
  rg_index :: "(string, nat) gomap"

definition new_registry :: registry where
  "new_registry = \<lparr>rg_entries = [], rg_index = []\<rparr>"

definition apply_option :: "entry \<Rightarrow> reg_option \<Rightarrow> entry" where
  "apply_option e opt = (case opt of DisabledByDefault \<Rightarrow> e\<lparr>en_enabled := False\<rparr> | Required \<Rightarrow> e\<lparr>en_required := True\<rparr>)"

text \<open>\<open>Register\<close>: \<open>None\<close> is the panic on a name registered twice.\<close>

definition register :: "go_module \<Rightarrow> reg_option list \<Rightarrow> registry \<Rightarrow> registry option" where
  "register m opts r = (if gm_has (rg_index r) (mod_name m) then None
     else Some (r\<lparr>rg_index := gm_put (mod_name m) (length (rg_entries r)) (rg_index r),
       rg_entries := rg_entries r @ [foldl apply_option \<lparr>en_mod = m, en_enabled = True, en_required = False\<rparr> opts]\<rparr>))"

definition names :: "registry \<Rightarrow> string list" where
  "names r = sort (map (\<lambda>e. mod_name (en_mod e)) (rg_entries r))"

definition get_module :: "registry \<Rightarrow> string \<Rightarrow> go_module option" where
  "get_module r n = (case gm_get (rg_index r) n of None \<Rightarrow> None | Some i \<Rightarrow> Some (en_mod (rg_entries r ! i)))"

definition manifests :: "go_module list \<Rightarrow> manifest list" where
  "manifests ms = map mod_manifest ms"

definition static_module :: "manifest \<Rightarrow> go_module" where
  "static_module m = \<lparr>mod_name = m_module m, mod_manifest = m, mod_settings = None\<rparr>"

section \<open>Switches\<close>

datatype switch_problem = UnknownSwitch string "string list" | RequiredOff string

fun switch_problems :: "registry \<Rightarrow> (string, bool) gomap \<Rightarrow> switch_problem list" where
  "switch_problems r [] = []"
| "switch_problems r ((name, on) # rest) =
     (case gm_get (rg_index r) name of
        None \<Rightarrow> [UnknownSwitch name (names r)]
      | Some i \<Rightarrow> if \<not> on \<and> en_required (rg_entries r ! i) then [RequiredOff name] else [])
     @ switch_problems r rest"

definition switched_on :: "(string, bool) gomap \<Rightarrow> entry \<Rightarrow> bool" where
  "switched_on sw e = gm_getd (en_enabled e) sw (mod_name (en_mod e))"

definition enabled :: "registry \<Rightarrow> (string, bool) gomap \<Rightarrow> switch_problem list + go_module list" where
  "enabled r sw = (let ps = switch_problems r sw in
     if ps \<noteq> [] then Inl ps else Inr (map en_mod (filter (switched_on sw) (rg_entries r))))"

section \<open>Settings\<close>

datatype settings_problem =
    UnknownModuleSettings string "string list"
  | NoSettings string string
  | UnknownSetting string string "string list"
  | ConfigureFailed string string

text \<open>
  \<open>Configure\<close> returns the problems and the calls it made: each entry is a module and the settings
  its \<open>Configure\<close> was given.
\<close>

definition configure_entry :: "(string, settings) gomap \<Rightarrow> entry \<Rightarrow> settings_problem list \<times> (string \<times> settings) list" where
  "configure_entry settings e = (
     let name = mod_name (en_mod e); given = gm_getd [] settings name in
     case mod_settings (en_mod e) of
       None \<Rightarrow> (map (\<lambda>p. NoSettings name (fst p)) given, [])
     | Some (accepted, conf) \<Rightarrow>
         (let unknown = filter (\<lambda>p. fst p \<notin> set accepted) given in
          if unknown \<noteq> [] then (map (\<lambda>p. UnknownSetting name (fst p) accepted) unknown, [])
          else (case conf given of Some err \<Rightarrow> [ConfigureFailed name err] | None \<Rightarrow> [], [(name, given)])))"

definition configure :: "registry \<Rightarrow> (string, settings) gomap \<Rightarrow> settings_problem list \<times> (string \<times> settings) list" where
  "configure r settings = (
     let p_unknown = map (\<lambda>p. UnknownModuleSettings (fst p) (names r)) (filter (\<lambda>p. \<not> gm_has (rg_index r) (fst p)) settings);
         outs = map (configure_entry settings) (rg_entries r)
     in (p_unknown @ concat (map fst outs), concat (map snd outs)))"

section \<open>Omissions\<close>

record omissions =
  om_keys :: "string list"
  om_reasons :: "string list"

definition no_omissions :: omissions where
  "no_omissions = \<lparr>om_keys = [], om_reasons = []\<rparr>"

definition om_add :: "string \<Rightarrow> string \<Rightarrow> omissions \<Rightarrow> omissions" where
  "om_add key err o1 = o1\<lparr>om_keys := om_keys o1 @ [key], om_reasons := om_reasons o1 @ [key @ '': '' @ err]\<rparr>"

definition om_len :: "omissions \<Rightarrow> nat" where
  "om_len o1 = length (om_keys o1)"

text \<open>The one log record of a collection: the joined keys and reasons, nothing when nothing is missing.\<close>

definition om_log :: "omissions \<Rightarrow> (string \<times> string) option" where
  "om_log o1 = (if om_keys o1 = [] then None else Some (join '','' (om_keys o1), join ''; '' (om_reasons o1)))"

definition om_err :: "omissions \<Rightarrow> string \<Rightarrow> string" where
  "om_err o1 m = (if om_reasons o1 = [] then m @ '': nothing could be read''
     else m @ '': nothing could be read: '' @ join ''; '' (om_reasons o1))"

section \<open>The registry's invariant\<close>

definition entry_name :: "entry \<Rightarrow> string" where
  "entry_name e = mod_name (en_mod e)"

definition registry_ok :: "registry \<Rightarrow> bool" where
  "registry_ok r \<longleftrightarrow> distinct (map entry_name (rg_entries r))
     \<and> (\<forall>n i. gm_get (rg_index r) n = Some i \<longleftrightarrow> i < length (rg_entries r) \<and> entry_name (rg_entries r ! i) = n)"

lemma registry_ok_new: "registry_ok new_registry"
  by (simp add: registry_ok_def new_registry_def)

lemma registry_has: "registry_ok r \<Longrightarrow> gm_has (rg_index r) n \<longleftrightarrow> n \<in> entry_name ` set (rg_entries r)"
proof -
  assume ok: "registry_ok r"
  have "gm_has (rg_index r) n \<longleftrightarrow> (\<exists>i < length (rg_entries r). entry_name (rg_entries r ! i) = n)"
    using ok by (auto simp: registry_ok_def gm_has_def)
  also have "\<dots> \<longleftrightarrow> n \<in> entry_name ` set (rg_entries r)" by (metis (no_types, lifting) image_iff in_set_conv_nth)
  finally show ?thesis .
qed

lemma options_keep_module [simp]: "en_mod (foldl apply_option e opts) = en_mod e"
  by (induction opts arbitrary: e) (auto simp: apply_option_def split: reg_option.splits)

lemma register_fails: "registry_ok r \<Longrightarrow> register m opts r = None \<longleftrightarrow> mod_name m \<in> entry_name ` set (rg_entries r)"
  by (simp add: register_def registry_has)

lemma register_ok:
  assumes "registry_ok r" "register m opts r = Some r'"
  shows "registry_ok r'"
proof -
  define e where "e = foldl apply_option \<lparr>en_mod = m, en_enabled = True, en_required = False\<rparr> opts"
  have new: "\<not> gm_has (rg_index r) (mod_name m)"
    and r': "rg_index r' = gm_put (mod_name m) (length (rg_entries r)) (rg_index r)" "rg_entries r' = rg_entries r @ [e]"
    using assms(2) by (auto simp: register_def e_def split: if_splits)
  have name: "entry_name e = mod_name m" by (simp add: e_def entry_name_def)
  have fresh: "mod_name m \<notin> entry_name ` set (rg_entries r)" using new assms(1) by (simp add: registry_has)
  then have other: "entry_name (rg_entries r ! i) \<noteq> mod_name m" if "i < length (rg_entries r)" for i
    using that by (metis image_eqI nth_mem)
  have "gm_get (rg_index r') n = Some i \<longleftrightarrow> i < length (rg_entries r') \<and> entry_name (rg_entries r' ! i) = n" for n i
    using assms(1) other new by (auto simp: r' name registry_ok_def nth_append gm_has_def less_Suc_eq)
  then show ?thesis using assms(1) fresh by (simp add: registry_ok_def r' name)
qed

lemma switch_problems_Nil:
  "switch_problems r sw = [] \<longleftrightarrow> (\<forall>(n, on) \<in> set sw. \<exists>i. gm_get (rg_index r) n = Some i \<and> (on \<or> \<not> en_required (rg_entries r ! i)))"
  by (induction r sw rule: switch_problems.induct) (auto split: option.splits)

text \<open>
  \<open>Enabled\<close> honours the operator's switches and nothing else. It fails exactly when a switch names
  an unregistered module or turns a required one off; otherwise the result is the registered modules
  in registration order, each kept exactly when its switch, or without one its default, is on.
\<close>

lemma enabled_switches:
  assumes "registry_ok r"
  shows "enabled r sw =
    (if \<exists>(n, on) \<in> set sw. n \<notin> entry_name ` set (rg_entries r)
          \<or> (\<not> on \<and> (\<exists>e \<in> set (rg_entries r). entry_name e = n \<and> en_required e))
     then Inl (switch_problems r sw)
     else Inr (map en_mod (filter (\<lambda>e. gm_getd (en_enabled e) sw (entry_name e)) (rg_entries r))))"
proof -
  have same: "en_required e = en_required (rg_entries r ! i)"
    if "gm_get (rg_index r) n = Some i" "e \<in> set (rg_entries r)" "entry_name e = n" for e i n
    using that assms by (metis in_set_conv_nth option.inject registry_ok_def)
  have idx: "(\<exists>i. gm_get (rg_index r) n = Some i) \<longleftrightarrow> n \<in> entry_name ` set (rg_entries r)" for n
    using registry_has [OF assms, of n] by (auto simp: gm_has_def)
  have at: "rg_entries r ! i \<in> set (rg_entries r) \<and> entry_name (rg_entries r ! i) = n" if "gm_get (rg_index r) n = Some i" for n i
    using that assms by (simp add: registry_ok_def)
  have one: "(\<exists>i. gm_get (rg_index r) n = Some i \<and> (on \<or> \<not> en_required (rg_entries r ! i)))
      \<longleftrightarrow> n \<in> entry_name ` set (rg_entries r) \<and> (on \<or> \<not> (\<exists>e \<in> set (rg_entries r). entry_name e = n \<and> en_required e))" for n on
  proof (cases "gm_get (rg_index r) n")
    case None
    then show ?thesis using idx [of n] by simp
  next
    case (Some i)
    then have "(\<exists>e \<in> set (rg_entries r). entry_name e = n \<and> en_required e) \<longleftrightarrow> en_required (rg_entries r ! i)"
      using same [OF Some] at [OF Some] by blast
    then show ?thesis using Some idx [of n] by simp
  qed
  have "switch_problems r sw \<noteq> [] \<longleftrightarrow> (\<exists>(n, on) \<in> set sw. n \<notin> entry_name ` set (rg_entries r)
      \<or> (\<not> on \<and> (\<exists>e \<in> set (rg_entries r). entry_name e = n \<and> en_required e)))"
    unfolding switch_problems_Nil one by auto
  then show ?thesis by (simp add: enabled_def switched_on_def [abs_def] entry_name_def Let_def)
qed

definition settings_ok :: "(string, settings) gomap \<Rightarrow> entry \<Rightarrow> bool" where
  "settings_ok settings e = (let given = gm_getd [] settings (entry_name e) in
     case mod_settings (en_mod e) of None \<Rightarrow> given = []
     | Some (accepted, conf) \<Rightarrow> fst ` set given \<subseteq> set accepted \<and> conf given = None)"

text \<open>
  \<open>Configure\<close> never hands a module a setting it does not accept, and reports no problem exactly
  when every configured module is registered, settings go only to modules that have settings and
  accept them, and every module's own check of them passed.
\<close>

lemma configure_checked:
  assumes "registry_ok r"
  shows "(fst (configure r settings) = [] \<longleftrightarrow>
      fst ` set settings \<subseteq> entry_name ` set (rg_entries r) \<and> (\<forall>e \<in> set (rg_entries r). settings_ok settings e))
    \<and> (\<forall>(name, given) \<in> set (snd (configure r settings)).
        \<exists>e \<in> set (rg_entries r). \<exists>accepted conf. entry_name e = name \<and> given = gm_getd [] settings name
          \<and> mod_settings (en_mod e) = Some (accepted, conf) \<and> fst ` set given \<subseteq> set accepted)"
proof -
  have entry: "fst (configure_entry settings e) = [] \<longleftrightarrow> settings_ok settings e" for e
    by (auto simp: configure_entry_def settings_ok_def entry_name_def Let_def filter_empty_conv split: option.splits prod.splits)
  have calls: "\<exists>accepted conf. entry_name e = name \<and> given = gm_getd [] settings name
      \<and> mod_settings (en_mod e) = Some (accepted, conf) \<and> fst ` set given \<subseteq> set accepted"
    if "(name, given) \<in> set (snd (configure_entry settings e))" for name given e
    using that by (auto simp: configure_entry_def entry_name_def Let_def filter_empty_conv split: option.splits prod.splits if_splits)
  have "fst (configure r settings) = [] \<longleftrightarrow>
      fst ` set settings \<subseteq> entry_name ` set (rg_entries r) \<and> (\<forall>e \<in> set (rg_entries r). settings_ok settings e)"
    unfolding configure_def Let_def fst_conv append_is_Nil_conv
    by (simp add: filter_empty_conv registry_has [OF assms] entry image_subset_iff)
  moreover have "\<exists>e \<in> set (rg_entries r). \<exists>accepted conf. entry_name e = name \<and> given = gm_getd [] settings name
      \<and> mod_settings (en_mod e) = Some (accepted, conf) \<and> fst ` set given \<subseteq> set accepted"
    if call: "(name, given) \<in> set (snd (configure r settings))" for name given
  proof -
    obtain e where "e \<in> set (rg_entries r)" "(name, given) \<in> set (snd (configure_entry settings e))"
      using call by (auto simp: configure_def Let_def)
    then show ?thesis using calls by blast
  qed
  ultimately show ?thesis by blast
qed

section \<open>An example: a required and a configurable module\<close>

definition example_registry :: registry where
  "example_registry = \<lparr>
     rg_entries = [
       \<lparr>en_mod = \<lparr>mod_name = ''machine-id'', mod_manifest = \<lparr>m_module = ''machine-id'', m_templates = [], m_attributes = []\<rparr>,
          mod_settings = None\<rparr>, en_enabled = True, en_required = True\<rparr>,
       \<lparr>en_mod = \<lparr>mod_name = ''ups'', mod_manifest = \<lparr>m_module = ''ups'', m_templates = [], m_attributes = []\<rparr>,
          mod_settings = Some ([''address''], \<lambda>s. if gm_getd [] s ''address'' = [] then Some ''empty'' else None)\<rparr>,
        en_enabled = False, en_required = False\<rparr>],
     rg_index = [(''machine-id'', 0), (''ups'', 1)]\<rparr>"

lemma example_registry_ok: "registry_ok example_registry"
proof -
  obtain r1 where r1: "register (en_mod (rg_entries example_registry ! 0)) [Required] new_registry = Some r1"
    by (simp add: register_def new_registry_def)
  then have ok1: "registry_ok r1" by (rule register_ok [OF registry_ok_new])
  have "register (en_mod (rg_entries example_registry ! 1)) [DisabledByDefault] r1 = Some example_registry"
    using r1 by (simp add: register_def new_registry_def example_registry_def apply_option_def gm_put_def gm_has_def gm_get_def)
      (auto simp: gm_has_def gm_get_def)
  then show ?thesis by (rule register_ok [OF ok1])
qed

lemma enabled_switches_witness:
  "enabled example_registry [(''ups'', True)] = Inr (map en_mod (rg_entries example_registry))
    \<and> enabled example_registry [(''machine-id'', False)] \<noteq> Inr []"
  unfolding enabled_switches [OF example_registry_ok]
  by (simp add: example_registry_def entry_name_def gm_getd_def gm_get_def)

lemma configure_checked_witness:
  "fst (configure example_registry [(''ups'', [(''address'', ''h'')])]) = []
    \<and> fst (configure example_registry [(''ups'', [(''adress'', ''h'')])]) \<noteq> []"
  by (simp add: conjunct1 [OF configure_checked [OF example_registry_ok]] settings_ok_def)
    (simp add: example_registry_def entry_name_def gm_getd_def gm_get_def)

end
