(* ===== verification/Config.thy ===== *)
theory Config
  imports Goduration Machineid Resolve Registry
begin

text \<open>
  \<open>internal/config\<close>: the settings from the YAML file and the environment. Decoding YAML is the library's
  work: the file arrives here as the \<open>file\<close> record its struct tags describe, or as the error of reading or
  decoding it, and the environment is a function. The split of a module's block into the common keys and
  the module's own settings (\<open>UnmarshalYAML\<close>) is code of the package and is modelled.
\<close>

section \<open>The file\<close>

record attribute_file =
  af_slug :: string
  af_template :: string
  af_name :: string
  af_desc :: string

record module_file =
  mf_enabled :: "bool option"
  mf_interval :: string
  mf_template :: string
  mf_attributes :: "(string, attribute_file) gomap"
  mf_settings :: settings

record config_file =
  cf_project :: string
  cf_base_url :: string
  cf_access_token :: string
  cf_mode :: string
  cf_host_template :: string
  cf_modules :: "(string, module_file) gomap"
  cf_publish_interval :: string
  cf_http_timeout :: string
  cf_http_retries :: "int option"
  cf_log_level :: string
  cf_log_format :: string
  cf_summary_interval :: string
  cf_identity :: string

definition empty_file :: config_file where
  "empty_file = \<lparr>cf_project = [], cf_base_url = [], cf_access_token = [], cf_mode = [], cf_host_template = [], cf_modules = [],
     cf_publish_interval = [], cf_http_timeout = [], cf_http_retries = None, cf_log_level = [], cf_log_format = [],
     cf_summary_interval = [], cf_identity = []\<rparr>"

text \<open>
  A decoded YAML value: \<open>YScalar\<close> is a boolean or a number, whose text \<open>fmt.Sprint\<close> gives, and \<open>YOther\<close> a
  list or a map of the Go type named.
\<close>

datatype yaml = YString string | YScalar string | YNull | YOther string

definition common_module_keys :: "string list" where
  "common_module_keys = [''enabled'', ''interval'', ''template'', ''attributes'']"

datatype module_file_error = NotSingle string string | BadBlock string

fun split_block :: "(string, yaml) gomap \<Rightarrow> (string, yaml) gomap \<Rightarrow> settings \<Rightarrow> module_file_error + (string, yaml) gomap \<times> settings" where
  "split_block [] common own = Inr (common, own)"
| "split_block ((k, v) # raw) common own = (
     if k \<in> set common_module_keys then split_block raw (gm_put k v common) own
     else (case v of
         YString x \<Rightarrow> split_block raw common (gm_put k x own)
       | YScalar x \<Rightarrow> split_block raw common (gm_put k x own)
       | YNull \<Rightarrow> split_block raw common (gm_put k [] own)
       | YOther t \<Rightarrow> Inl (NotSingle k t)))"

text \<open>\<open>strict\<close> is the library's strict decoding of the common keys into the plain struct.\<close>

definition unmarshal_module :: "((string, yaml) gomap \<Rightarrow> string + module_file) \<Rightarrow> (string, yaml) gomap \<Rightarrow> module_file_error + module_file" where
  "unmarshal_module strict raw = (case split_block raw [] [] of
       Inl e \<Rightarrow> Inl e
     | Inr (common, own) \<Rightarrow>
         if common = [] then Inr \<lparr>mf_enabled = None, mf_interval = [], mf_template = [], mf_attributes = [], mf_settings = own\<rparr>
         else (case strict common of Inl e \<Rightarrow> Inl (BadBlock e) | Inr p \<Rightarrow> Inr (p\<lparr>mf_settings := own\<rparr>)))"

section \<open>The settings\<close>

datatype mode = ModeApply | ModeVerify | ModeOff

definition mode_of :: "string \<Rightarrow> mode option" where
  "mode_of s = (if s = ''apply'' then Some ModeApply else if s = ''verify'' then Some ModeVerify
     else if s = ''off'' then Some ModeOff else None)"

definition env_token :: string where
  "env_token = ''OMNISMITH_ACCESS_TOKEN''"

definition env_project_id :: string where
  "env_project_id = ''OMNISMITH_PROJECT_ID''"

definition env_base_url :: string where
  "env_base_url = ''OMNISMITH_BASE_URL''"

definition env_identity :: string where
  "env_identity = ''OMNISTAT_IDENTITY''"

definition default_path :: string where
  "default_path = ''omnistat.yaml''"

definition default_publish_interval :: int where
  "default_publish_interval = 60 * nano"

definition default_summary_interval :: int where
  "default_summary_interval = 900 * nano"

definition min_summary_interval :: int where
  "min_summary_interval = 60 * nano"

definition max_summary_interval :: int where
  "max_summary_interval = 86400 * nano"

definition min_publish_interval :: int where
  "min_publish_interval = nano"

definition max_publish_interval :: int where
  "max_publish_interval = 3600 * nano"

definition min_module_interval :: int where
  "min_module_interval = nano"

definition max_module_interval :: int where
  "max_module_interval = 86400 * nano"

record config_settings =
  cs_path :: string
  cs_token :: string
  cs_project :: string
  cs_base_url :: string
  cs_mode :: mode
  cs_overrides :: overrides
  cs_modules :: "(string, bool) gomap"
  cs_intervals :: "(string, int) gomap"
  cs_publish_interval :: int
  cs_timeout :: int
  cs_retries :: int
  cs_level :: string
  cs_format :: string
  cs_summary_interval :: int
  cs_identity :: string
  cs_module_settings :: "(string, settings) gomap"

definition default_settings :: config_settings where
  "default_settings = \<lparr>cs_path = [], cs_token = [], cs_project = [], cs_base_url = ''https://api.omnismith.io/v1'', cs_mode = ModeApply,
     cs_overrides = \<lparr>ov_host = [], ov_modules = []\<rparr>, cs_modules = [], cs_intervals = [], cs_publish_interval = default_publish_interval,
     cs_timeout = 15 * nano, cs_retries = 3, cs_level = ''info'', cs_format = ''text'', cs_summary_interval = default_summary_interval,
     cs_identity = [], cs_module_settings = []\<rparr>"

datatype interval_error = BadDuration duration_error | OutsideInterval int int int

datatype config_problem =
    TokenInFile
  | BadBaseURL string
  | BadMode string
  | BadHostTemplate string
  | BadModuleInterval string interval_error
  | BadPublishInterval interval_error
  | BadTimeout string duration_error
  | TimeoutNotPositive int
  | NegativeRetries int
  | BadLevel string
  | BadSummaryInterval interval_error
  | BadFormat string
  | BadIdentity machineid_error
  | BlankIdentity

datatype config_error = Unreadable string | Undecodable string string | ConfigProblems "config_problem list"

datatype api_missing = TokenMissing | ProjectMissing

definition require_api :: "config_settings \<Rightarrow> api_missing list" where
  "require_api s = (if trim_space (cs_token s) = [] then [TokenMissing] else [])
     @ (if trim_space (cs_project s) = [] then [ProjectMissing] else [])"

definition parse_interval :: "string \<Rightarrow> int \<Rightarrow> int \<Rightarrow> interval_error + int" where
  "parse_interval v lo hi = (case parse_duration v of
       Inl e \<Rightarrow> Inl (BadDuration e)
     | Inr d \<Rightarrow> if d < lo \<or> hi < d then Inl (OutsideInterval d lo hi) else Inr d)"

section \<open>Loading\<close>

text \<open>Each step reads its keys, and returns the settings with the problems it adds.\<close>

type_synonym loading = "config_settings \<times> config_problem list"

definition problem :: "config_problem \<Rightarrow> loading \<Rightarrow> loading" where
  "problem p l = (fst l, snd l @ [p])"

definition or_env :: "(string \<Rightarrow> string) \<Rightarrow> string \<Rightarrow> string \<Rightarrow> string" where
  "or_env getenv name v = (if getenv name \<noteq> [] then getenv name else v)"

definition load_api :: "config_file \<Rightarrow> (string \<Rightarrow> string) \<Rightarrow> loading \<Rightarrow> loading" where
  "load_api f getenv l = (
     let l1 = (if cf_access_token f \<noteq> [] then problem TokenInFile l else l);
         url = or_env getenv env_base_url (if cf_base_url f \<noteq> [] then cf_base_url f else cs_base_url (fst l));
         s = (fst l1)\<lparr>cs_token := getenv env_token, cs_project := or_env getenv env_project_id (cf_project f), cs_base_url := url\<rparr>
     in if cut_prefix ''http://'' url = None \<and> cut_prefix ''https://'' url = None then problem (BadBaseURL url) (s, snd l1) else (s, snd l1))"

definition load_schema :: "config_file \<Rightarrow> loading \<Rightarrow> loading" where
  "load_schema f l = (
     let l1 = (if cf_mode f = [] then l else (case mode_of (cf_mode f) of
                 Some m \<Rightarrow> ((fst l)\<lparr>cs_mode := m\<rparr>, snd l)
               | None \<Rightarrow> problem (BadMode (cf_mode f)) l));
         host = cf_host_template f
     in if host = [] then l1
        else (let l2 = (if valid_slug host then l1 else problem (BadHostTemplate host) l1);
                  s = fst l2 in (s\<lparr>cs_overrides := (cs_overrides s)\<lparr>ov_host := host\<rparr>\<rparr>, snd l2)))"

definition load_module_interval :: "string \<Rightarrow> module_file \<Rightarrow> loading \<Rightarrow> loading" where
  "load_module_interval name m l = (if mf_interval m = [] then l
     else (case parse_interval (mf_interval m) min_module_interval max_module_interval of
         Inl e \<Rightarrow> problem (BadModuleInterval name e) l
       | Inr d \<Rightarrow> ((fst l)\<lparr>cs_intervals := gm_put name d (cs_intervals (fst l))\<rparr>, snd l)))"

definition attribute_of :: "attribute_file \<Rightarrow> attr_override" where
  "attribute_of a = \<lparr>ao_slug = af_slug a, ao_template = af_template a, ao_name = af_name a, ao_desc = af_desc a\<rparr>"

text \<open>Only a block that remaps schema becomes an override.\<close>

definition load_override :: "string \<Rightarrow> module_file \<Rightarrow> loading \<Rightarrow> loading" where
  "load_override name m l = (if mf_template m = [] \<and> mf_attributes m = [] then l
     else (let s = fst l; mo = \<lparr>mo_template = mf_template m, mo_attributes = map (\<lambda>(k, a). (k, attribute_of a)) (mf_attributes m)\<rparr>
           in (s\<lparr>cs_overrides := (cs_overrides s)\<lparr>ov_modules := gm_put name mo (ov_modules (cs_overrides s))\<rparr>\<rparr>, snd l)))"

definition load_module :: "loading \<Rightarrow> string \<times> module_file \<Rightarrow> loading" where
  "load_module l nm = (case nm of (name, m) \<Rightarrow>
     let s = fst l;
         s1 = (if mf_settings m = [] then s else s\<lparr>cs_module_settings := gm_put name (mf_settings m) (cs_module_settings s)\<rparr>);
         s2 = (case mf_enabled m of None \<Rightarrow> s1 | Some on \<Rightarrow> s1\<lparr>cs_modules := gm_put name on (cs_modules s1)\<rparr>)
     in load_override name m (load_module_interval name m (s2, snd l)))"

definition load_modules :: "config_file \<Rightarrow> loading \<Rightarrow> loading" where
  "load_modules f l = foldl load_module l (cf_modules f)"

definition load_publish :: "config_file \<Rightarrow> loading \<Rightarrow> loading" where
  "load_publish f l = (if cf_publish_interval f = [] then l
     else (case parse_interval (cf_publish_interval f) min_publish_interval max_publish_interval of
         Inl e \<Rightarrow> problem (BadPublishInterval e) l
       | Inr d \<Rightarrow> ((fst l)\<lparr>cs_publish_interval := d\<rparr>, snd l)))"

definition load_timeout :: "config_file \<Rightarrow> loading \<Rightarrow> loading" where
  "load_timeout f l = (if cf_http_timeout f = [] then l
     else (case parse_duration (cf_http_timeout f) of
         Inl e \<Rightarrow> problem (BadTimeout (cf_http_timeout f) e) l
       | Inr d \<Rightarrow> if d \<le> 0 then problem (TimeoutNotPositive d) l else ((fst l)\<lparr>cs_timeout := d\<rparr>, snd l)))"

definition load_retries :: "config_file \<Rightarrow> loading \<Rightarrow> loading" where
  "load_retries f l = (case cf_http_retries f of
       None \<Rightarrow> l
     | Some n \<Rightarrow> if n < 0 then problem (NegativeRetries n) l else ((fst l)\<lparr>cs_retries := n\<rparr>, snd l))"

definition levels :: "string list" where
  "levels = [''debug'', ''info'', ''warn'', ''error'']"

definition load_level :: "config_file \<Rightarrow> loading \<Rightarrow> loading" where
  "load_level f l = (if cf_log_level f = [] then l
     else if cf_log_level f \<in> set levels then ((fst l)\<lparr>cs_level := cf_log_level f\<rparr>, snd l)
     else problem (BadLevel (cf_log_level f)) l)"

definition load_summary :: "config_file \<Rightarrow> loading \<Rightarrow> loading" where
  "load_summary f l = (let v = cf_summary_interval f in
     if v = [] then l
     else if parse_duration v = Inr 0 then ((fst l)\<lparr>cs_summary_interval := 0\<rparr>, snd l)
     else (case parse_interval v min_summary_interval max_summary_interval of
         Inl e \<Rightarrow> problem (BadSummaryInterval e) l
       | Inr d \<Rightarrow> ((fst l)\<lparr>cs_summary_interval := d\<rparr>, snd l)))"

definition load_format :: "config_file \<Rightarrow> loading \<Rightarrow> loading" where
  "load_format f l = (if cf_log_format f = [] then l
     else if cf_log_format f = ''text'' \<or> cf_log_format f = ''json'' then ((fst l)\<lparr>cs_format := cf_log_format f\<rparr>, snd l)
     else problem (BadFormat (cf_log_format f)) l)"

definition load_identity :: "config_file \<Rightarrow> (string \<Rightarrow> string) \<Rightarrow> loading \<Rightarrow> loading" where
  "load_identity f getenv l = (
     let v = trim_space (getenv env_identity);
         i = (if v \<noteq> [] then v else trim_space (cf_identity f));
         l1 = ((fst l)\<lparr>cs_identity := i\<rparr>, snd l)
     in if i \<noteq> [] then (case validate_static i of Some e \<Rightarrow> problem (BadIdentity e) l1 | None \<Rightarrow> l1)
        else if cf_identity f \<noteq> [] \<or> getenv env_identity \<noteq> [] then problem BlankIdentity l1
        else l1)"

definition load_file :: "config_file \<Rightarrow> (string \<Rightarrow> string) \<Rightarrow> loading \<Rightarrow> loading" where
  "load_file f getenv l = load_identity f getenv (load_format f (load_summary f (load_level f (load_retries f (load_timeout f
     (load_publish f (load_modules f (load_schema f (load_api f getenv l)))))))))"

text \<open>\<open>stat\<close> tells whether a path exists; \<open>rd\<close> is reading a file and decoding it strictly.\<close>

definition load_with_default :: "(string \<Rightarrow> bool) \<Rightarrow> (string \<Rightarrow> config_error + config_file) \<Rightarrow> string \<Rightarrow> string \<Rightarrow> (string \<Rightarrow> string)
    \<Rightarrow> config_error + config_settings" where
  "load_with_default stat rd path def getenv = (
     let p = (if path = [] \<and> def \<noteq> [] \<and> stat def then def else path) in
     case (if p = [] then Inr empty_file else rd p) of
       Inl e \<Rightarrow> Inl e
     | Inr f \<Rightarrow> (case load_file f getenv (default_settings\<lparr>cs_path := p\<rparr>, []) of
           (s, ps) \<Rightarrow> if ps \<noteq> [] then Inl (ConfigProblems ps) else Inr s))"

definition load :: "(string \<Rightarrow> bool) \<Rightarrow> (string \<Rightarrow> config_error + config_file) \<Rightarrow> string \<Rightarrow> (string \<Rightarrow> string) \<Rightarrow> config_error + config_settings" where
  "load stat rd path getenv = load_with_default stat rd path default_path getenv"

section \<open>What is accepted\<close>

definition within_bounds :: "config_settings \<Rightarrow> bool" where
  "within_bounds s \<longleftrightarrow>
     (cut_prefix ''http://'' (cs_base_url s) \<noteq> None \<or> cut_prefix ''https://'' (cs_base_url s) \<noteq> None)
     \<and> (ov_host (cs_overrides s) = [] \<or> valid_slug (ov_host (cs_overrides s)))
     \<and> (\<forall>m d. gm_get (cs_intervals s) m = Some d \<longrightarrow> nano \<le> d \<and> d \<le> 86400 * nano)
     \<and> nano \<le> cs_publish_interval s \<and> cs_publish_interval s \<le> 3600 * nano
     \<and> 0 < cs_timeout s \<and> 0 \<le> cs_retries s
     \<and> (cs_summary_interval s = 0 \<or> 60 * nano \<le> cs_summary_interval s \<and> cs_summary_interval s \<le> 86400 * nano)
     \<and> cs_level s \<in> {''debug'', ''info'', ''warn'', ''error''} \<and> cs_format s \<in> {''text'', ''json''}
     \<and> (cs_identity s = [] \<or> validate_static (cs_identity s) = None)"

definition fine :: "loading \<Rightarrow> bool" where
  "fine l \<longleftrightarrow> (snd l = [] \<longrightarrow> within_bounds (fst l))"

definition credentials :: "config_settings \<Rightarrow> string \<times> string \<times> string" where
  "credentials s = (cs_token s, cs_project s, cs_base_url s)"

definition step_ok :: "(loading \<Rightarrow> loading) \<Rightarrow> bool" where
  "step_ok f \<longleftrightarrow> (\<forall>l. (fine l \<longrightarrow> fine (f l)) \<and> credentials (fst (f l)) = credentials (fst l)
     \<and> (snd (f l) = [] \<longrightarrow> snd l = []))"

lemma step_okD: "step_ok f \<Longrightarrow> fine l \<Longrightarrow> fine (f l)" "step_ok f \<Longrightarrow> credentials (fst (f l)) = credentials (fst l)"
  "step_ok f \<Longrightarrow> snd (f l) = [] \<Longrightarrow> snd l = []"
  unfolding step_ok_def by blast+

lemma step_ok_comp: "step_ok f \<Longrightarrow> step_ok g \<Longrightarrow> step_ok (\<lambda>l. f (g l))"
  unfolding step_ok_def by metis

lemma parse_interval_within: "parse_interval v lo hi = Inr d \<Longrightarrow> lo \<le> d \<and> d \<le> hi"
  by (auto simp: parse_interval_def split: sum.splits if_splits)

lemmas load_limits = min_module_interval_def max_module_interval_def min_publish_interval_def max_publish_interval_def
  min_summary_interval_def max_summary_interval_def

lemma load_schema_ok: "step_ok (load_schema f)"
  by (auto simp: step_ok_def load_schema_def fine_def within_bounds_def credentials_def problem_def Let_def split: option.splits)

lemma load_module_ok: "step_ok (\<lambda>l. load_module l nm)"
proof -
  obtain name m where nm: "nm = (name, m)" by fastforce
  have a: "step_ok (load_override name m)"
    by (auto simp: step_ok_def load_override_def fine_def within_bounds_def credentials_def Let_def)
  have b: "step_ok (load_module_interval name m)"
    by (auto simp: step_ok_def load_module_interval_def fine_def within_bounds_def credentials_def problem_def load_limits
        split: sum.splits if_splits dest: parse_interval_within)
  have c: "step_ok (\<lambda>l. let s = fst l;
         s1 = (if mf_settings m = [] then s else s\<lparr>cs_module_settings := gm_put name (mf_settings m) (cs_module_settings s)\<rparr>);
         s2 = (case mf_enabled m of None \<Rightarrow> s1 | Some on \<Rightarrow> s1\<lparr>cs_modules := gm_put name on (cs_modules s1)\<rparr>) in (s2, snd l))"
    by (auto simp: step_ok_def fine_def within_bounds_def credentials_def Let_def split: option.splits)
  show ?thesis using step_ok_comp [OF a step_ok_comp [OF b c]] by (simp add: nm load_module_def Let_def)
qed

lemma load_modules_ok: "step_ok (load_modules f)"
proof -
  have "step_ok (\<lambda>l. foldl load_module l ms)" for ms
  proof (induction ms)
    case (Cons m ms)
    then show ?case using step_ok_comp [OF Cons load_module_ok [of m]] by simp
  qed (simp add: step_ok_def)
  then show ?thesis by (simp add: load_modules_def [abs_def])
qed

lemma load_publish_ok: "step_ok (load_publish f)"
  by (auto simp: step_ok_def load_publish_def fine_def within_bounds_def credentials_def problem_def load_limits
      split: sum.splits if_splits dest: parse_interval_within)

lemma load_timeout_ok: "step_ok (load_timeout f)"
  by (auto simp: step_ok_def load_timeout_def fine_def within_bounds_def credentials_def problem_def split: sum.splits if_splits)

lemma load_retries_ok: "step_ok (load_retries f)"
  by (auto simp: step_ok_def load_retries_def fine_def within_bounds_def credentials_def problem_def split: option.splits if_splits)

lemma load_level_ok: "step_ok (load_level f)"
  by (auto simp: step_ok_def load_level_def fine_def within_bounds_def credentials_def problem_def levels_def split: if_splits)

lemma load_summary_ok: "step_ok (load_summary f)"
  by (auto simp: step_ok_def load_summary_def fine_def within_bounds_def credentials_def problem_def load_limits Let_def
      split: sum.splits if_splits dest: parse_interval_within)

lemma load_format_ok: "step_ok (load_format f)"
  by (auto simp: step_ok_def load_format_def fine_def within_bounds_def credentials_def problem_def split: if_splits)

lemma load_identity_ok: "step_ok (load_identity f getenv)"
  by (auto simp: step_ok_def load_identity_def fine_def within_bounds_def credentials_def problem_def Let_def split: option.splits if_splits)

lemma load_api_fine: "fine l \<Longrightarrow> fine (load_api f getenv l)"
  by (auto simp: load_api_def fine_def within_bounds_def problem_def Let_def)

lemma load_api_credentials:
  "credentials (fst (load_api f getenv l)) = (getenv env_token, or_env getenv env_project_id (cf_project f),
     or_env getenv env_base_url (if cf_base_url f \<noteq> [] then cf_base_url f else cs_base_url (fst l)))"
  "snd (load_api f getenv l) = [] \<Longrightarrow> cf_access_token f = []"
  by (auto simp: load_api_def credentials_def problem_def Let_def split: if_splits)

lemma load_after_api: "step_ok (\<lambda>l. load_identity f getenv (load_format f (load_summary f (load_level f (load_retries f (load_timeout f
     (load_publish f (load_modules f (load_schema f l)))))))))"
proof -
  note c = step_ok_comp
  show ?thesis
    by (rule c [OF load_identity_ok c [OF load_format_ok c [OF load_summary_ok c [OF load_level_ok c [OF load_retries_ok
        c [OF load_timeout_ok c [OF load_publish_ok c [OF load_modules_ok load_schema_ok]]]]]]]])
qed

lemma load_identity_value: "cs_identity (fst (load_identity f getenv l))
    = (if trim_space (getenv env_identity) \<noteq> [] then trim_space (getenv env_identity) else trim_space (cf_identity f))"
  by (auto simp: load_identity_def problem_def Let_def split: option.splits)

lemma default_within: "within_bounds (default_settings\<lparr>cs_path := p\<rparr>)"
  by (simp add: within_bounds_def default_settings_def default_publish_interval_def default_summary_interval_def nano_def)

section \<open>What is wrong with a file\<close>

text \<open>The problems of each key on its own, whatever the other keys hold.\<close>

definition resolved_url :: "config_file \<Rightarrow> (string \<Rightarrow> string) \<Rightarrow> string" where
  "resolved_url f getenv = (if getenv env_base_url \<noteq> [] then getenv env_base_url
     else if cf_base_url f \<noteq> [] then cf_base_url f else ''https://api.omnismith.io/v1'')"

definition interval_problems :: "(interval_error \<Rightarrow> config_problem) \<Rightarrow> string \<Rightarrow> int \<Rightarrow> int \<Rightarrow> config_problem list" where
  "interval_problems wrong v lo hi = (if v = [] then [] else (case parse_duration v of
       Inl e \<Rightarrow> [wrong (BadDuration e)]
     | Inr d \<Rightarrow> if lo \<le> d \<and> d \<le> hi then [] else [wrong (OutsideInterval d lo hi)]))"

definition timeout_problems :: "string \<Rightarrow> config_problem list" where
  "timeout_problems v = (if v = [] then [] else (case parse_duration v of
       Inl e \<Rightarrow> [BadTimeout v e]
     | Inr d \<Rightarrow> if 0 < d then [] else [TimeoutNotPositive d]))"

definition identity_problems :: "string \<Rightarrow> string \<Rightarrow> config_problem list" where
  "identity_problems v pinned = (let i = (if trim_space v \<noteq> [] then trim_space v else trim_space pinned) in
     if i = [] then (if v = [] \<and> pinned = [] then [] else [BlankIdentity])
     else if length i \<le> 128 then [] else [BadIdentity (StaticTooLong (length i))])"

definition file_problems :: "config_file \<Rightarrow> (string \<Rightarrow> string) \<Rightarrow> config_problem list" where
  "file_problems f getenv =
     (if cf_access_token f \<noteq> [] then [TokenInFile] else [])
     @ (if cut_prefix ''http://'' (resolved_url f getenv) = None \<and> cut_prefix ''https://'' (resolved_url f getenv) = None
        then [BadBaseURL (resolved_url f getenv)] else [])
     @ (if cf_mode f \<in> {[], ''apply'', ''verify'', ''off''} then [] else [BadMode (cf_mode f)])
     @ (if cf_host_template f = [] \<or> valid_slug (cf_host_template f) then [] else [BadHostTemplate (cf_host_template f)])
     @ concat (map (\<lambda>(n, m). interval_problems (BadModuleInterval n) (mf_interval m) nano (86400 * nano)) (cf_modules f))
     @ interval_problems BadPublishInterval (cf_publish_interval f) nano (3600 * nano)
     @ timeout_problems (cf_http_timeout f)
     @ (case cf_http_retries f of None \<Rightarrow> [] | Some n \<Rightarrow> if 0 \<le> n then [] else [NegativeRetries n])
     @ (if cf_log_level f \<in> {[], ''debug'', ''info'', ''warn'', ''error''} then [] else [BadLevel (cf_log_level f)])
     @ (if parse_duration (cf_summary_interval f) = Inr 0 then []
        else interval_problems BadSummaryInterval (cf_summary_interval f) (60 * nano) (86400 * nano))
     @ (if cf_log_format f \<in> {[], ''text'', ''json''} then [] else [BadFormat (cf_log_format f)])
     @ identity_problems (getenv env_identity) (cf_identity f)"

text \<open>Every step adds the problems of its keys to those already there.\<close>

lemma load_api_adds: "cs_base_url (fst l) = ''https://api.omnismith.io/v1'' \<Longrightarrow> snd (load_api f getenv l) = snd l
    @ (if cf_access_token f \<noteq> [] then [TokenInFile] else [])
    @ (if cut_prefix ''http://'' (resolved_url f getenv) = None \<and> cut_prefix ''https://'' (resolved_url f getenv) = None
       then [BadBaseURL (resolved_url f getenv)] else [])"
  by (simp add: load_api_def problem_def resolved_url_def or_env_def Let_def)

lemma load_schema_adds: "snd (load_schema f l) = snd l
    @ (if cf_mode f \<in> {[], ''apply'', ''verify'', ''off''} then [] else [BadMode (cf_mode f)])
    @ (if cf_host_template f = [] \<or> valid_slug (cf_host_template f) then [] else [BadHostTemplate (cf_host_template f)])"
  by (simp add: load_schema_def problem_def mode_of_def Let_def)

lemma parse_interval_adds: "(case parse_interval v lo hi of Inl e \<Rightarrow> [wrong e] | Inr d \<Rightarrow> []) = (case parse_duration v of
       Inl e \<Rightarrow> [wrong (BadDuration e)]
     | Inr d \<Rightarrow> if lo \<le> d \<and> d \<le> hi then [] else [wrong (OutsideInterval d lo hi)])"
  by (auto simp: parse_interval_def split: sum.splits)

lemma load_module_adds: "snd (load_module l (n, m)) = snd l @ interval_problems (BadModuleInterval n) (mf_interval m) nano (86400 * nano)"
  by (auto simp: load_module_def load_override_def load_module_interval_def problem_def interval_problems_def parse_interval_def load_limits Let_def
      split: sum.splits)

lemma load_modules_adds: "snd (load_modules f l) = snd l
    @ concat (map (\<lambda>(n, m). interval_problems (BadModuleInterval n) (mf_interval m) nano (86400 * nano)) (cf_modules f))"
proof -
  have "snd (foldl load_module l ms) = snd l
    @ concat (map (\<lambda>(n, m). interval_problems (BadModuleInterval n) (mf_interval m) nano (86400 * nano)) ms)" for ms
    by (induction ms arbitrary: l) (auto simp: load_module_adds)
  then show ?thesis by (simp add: load_modules_def)
qed

lemma load_publish_adds: "snd (load_publish f l) = snd l @ interval_problems BadPublishInterval (cf_publish_interval f) nano (3600 * nano)"
  by (auto simp: load_publish_def problem_def interval_problems_def parse_interval_def load_limits split: sum.splits)

lemma load_timeout_adds: "snd (load_timeout f l) = snd l @ timeout_problems (cf_http_timeout f)"
  by (auto simp: load_timeout_def problem_def timeout_problems_def split: sum.splits)

lemma load_retries_adds: "snd (load_retries f l) = snd l
    @ (case cf_http_retries f of None \<Rightarrow> [] | Some n \<Rightarrow> if 0 \<le> n then [] else [NegativeRetries n])"
  by (auto simp: load_retries_def problem_def split: option.splits)

lemma load_level_adds: "snd (load_level f l) = snd l
    @ (if cf_log_level f \<in> {[], ''debug'', ''info'', ''warn'', ''error''} then [] else [BadLevel (cf_log_level f)])"
  by (simp add: load_level_def problem_def levels_def)

lemma load_summary_adds: "snd (load_summary f l) = snd l
    @ (if parse_duration (cf_summary_interval f) = Inr 0 then []
       else interval_problems BadSummaryInterval (cf_summary_interval f) (60 * nano) (86400 * nano))"
  by (auto simp: load_summary_def problem_def interval_problems_def parse_interval_def load_limits Let_def split: sum.splits)

lemma load_format_adds: "snd (load_format f l) = snd l
    @ (if cf_log_format f \<in> {[], ''text'', ''json''} then [] else [BadFormat (cf_log_format f)])"
  by (simp add: load_format_def problem_def)

lemma load_identity_adds: "snd (load_identity f getenv l) = snd l @ identity_problems (getenv env_identity) (cf_identity f)"
  by (auto simp: load_identity_def problem_def identity_problems_def validate_static_def max_static_len_def Let_def)

lemmas loading_adds = load_api_adds load_schema_adds load_modules_adds load_publish_adds load_timeout_adds load_retries_adds
  load_level_adds load_summary_adds load_format_adds load_identity_adds

lemma load_file_problems: "snd (load_file f getenv (default_settings\<lparr>cs_path := p\<rparr>, [])) = file_problems f getenv"
  by (simp only: load_file_def file_problems_def loading_adds) (simp add: load_api_adds default_settings_def)

text \<open>
  C37: the configuration is read from the path given, or from the default one when none is given and it exists,
  or from no file at all; a file that cannot be read or decoded is the error. Otherwise, when anything is
  wrong, the error is every problem of the file and the environment, each key's whatever the others hold: a
  token in the file, a base URL without its scheme, an unknown mode, level or format, a host template that is
  no slug, an interval or timeout that does not parse or is out of its bounds, negative retries, a blank or
  overlong identity. When nothing is, the settings are within these bounds, the token is the environment's,
  and the environment wins over the file for the project, the base URL and the identity. The slugs of the
  modules' templates and attributes are not looked at here, and retries have no upper bound.\<close>

theorem config_bounds:
  "(case (if path = [] then (if def \<noteq> [] \<and> stat def then rd def else Inr empty_file) else rd path) of
       Inl e \<Rightarrow> load_with_default stat rd path def getenv = Inl e
     | Inr f \<Rightarrow>
         if file_problems f getenv \<noteq> []
         then load_with_default stat rd path def getenv = Inl (ConfigProblems (file_problems f getenv))
         else \<exists>s. load_with_default stat rd path def getenv = Inr s \<and> within_bounds s
           \<and> cs_token s = getenv env_token
           \<and> cs_project s = (if getenv env_project_id \<noteq> [] then getenv env_project_id else cf_project f)
           \<and> cs_base_url s = resolved_url f getenv
           \<and> cs_identity s = (if trim_space (getenv env_identity) \<noteq> [] then trim_space (getenv env_identity) else trim_space (cf_identity f)))"
proof -
  let ?p = "if path = [] \<and> def \<noteq> [] \<and> stat def then def else path"
  let ?l0 = "(default_settings\<lparr>cs_path := ?p\<rparr>, [])"
  have rd: "(if path = [] then (if def \<noteq> [] \<and> stat def then rd def else Inr empty_file) else rd path)
      = (if ?p = [] then Inr empty_file else rd ?p)" by simp
  have loaded: "load_with_default stat rd path def getenv = (case (if ?p = [] then Inr empty_file else rd ?p) of
       Inl e \<Rightarrow> Inl e
     | Inr f \<Rightarrow> if file_problems f getenv \<noteq> [] then Inl (ConfigProblems (file_problems f getenv))
         else Inr (fst (load_file f getenv ?l0)))"
    unfolding load_with_default_def Let_def load_file_problems [symmetric, of _ _ ?p]
    by (simp split: sum.splits prod.splits)
  have good: "within_bounds s \<and> cs_token s = getenv env_token
      \<and> cs_project s = (if getenv env_project_id \<noteq> [] then getenv env_project_id else cf_project f)
      \<and> cs_base_url s = resolved_url f getenv
      \<and> cs_identity s = (if trim_space (getenv env_identity) \<noteq> [] then trim_space (getenv env_identity) else trim_space (cf_identity f))"
    if s: "s = fst (load_file f getenv ?l0)" and none: "file_problems f getenv = []" for f s
  proof -
    note step = load_after_api [of f getenv]
    have "fine (load_file f getenv ?l0)"
      unfolding load_file_def by (rule step_okD(1) [OF step load_api_fine]) (simp add: fine_def default_within)
    then have "within_bounds s" using s none load_file_problems [of f getenv ?p] by (simp add: fine_def)
    moreover have "credentials s = credentials (fst (load_api f getenv ?l0))"
      using step_okD(2) [OF step, of "load_api f getenv ?l0"] s by (simp add: load_file_def)
    then have "credentials s = (getenv env_token, or_env getenv env_project_id (cf_project f), resolved_url f getenv)"
      using load_api_credentials(1) [of f getenv ?l0] by (simp add: or_env_def resolved_url_def default_settings_def)
    moreover have "cs_identity s = (if trim_space (getenv env_identity) \<noteq> [] then trim_space (getenv env_identity) else trim_space (cf_identity f))"
      unfolding s load_file_def by (rule load_identity_value)
    ultimately show ?thesis by (simp add: credentials_def or_env_def)
  qed
  show ?thesis
  proof (cases "if ?p = [] then Inr empty_file else rd ?p")
    case (Inl e)
    then show ?thesis unfolding rd loaded Inl by simp
  next
    case (Inr f)
    show ?thesis
    proof (cases "file_problems f getenv = []")
      case True
      then show ?thesis unfolding rd loaded Inr using good [OF refl True] by simp
    next
      case False
      then show ?thesis unfolding rd loaded Inr by simp
    qed
  qed
qed

end
