(* ===== verification/Resolved.thy ===== *)
theory Resolved
  imports Resolve "HOL-Library.Multiset"
begin

text \<open>
  What \<open>Resolve\<close> promises of the schema it returns (internal/manifest/resolve.go): one attribute per
  declared attribute with its kind, options and platforms untouched and its slug and template
  placed by the documented precedence; distinct sorted slugs; every template declared; entity
  templates kept apart from the host and from other modules; and host links that show the
  host's label.
\<close>

section \<open>Entity templates\<close>

lemma entity_step_eqs:
  "e_problems (entity_step host m rn es e) = [] \<longleftrightarrow> e_problems es = [] \<and> renamed rn e \<noteq> host
     \<and> (\<forall>p. gm_get (e_owner es) (renamed rn e) = Some p \<longrightarrow> p = m)"
  "ent_slug (entity_step host m rn es e) m' t =
     (if m' = m \<and> t = e then Some (renamed rn e) else ent_slug es m' t)"
  "gm_get (e_owner (entity_step host m rn es e)) s =
     (if s = renamed rn e then Some m else gm_get (e_owner es) s)"
  by (auto simp: entity_step_def ent_slug_def Let_def split: option.splits)

text \<open>The loop over one module's entity templates, when it meets no problem.\<close>

lemma entity_steps:
  assumes "e_problems (foldl (entity_step host m rn) es ents) = []"
  shows "e_problems es = []
    \<and> (\<forall>e \<in> set ents. renamed rn e \<noteq> host
         \<and> (\<forall>p. gm_get (e_owner es) (renamed rn e) = Some p \<longrightarrow> p = m))
    \<and> (\<forall>m' t. ent_slug (foldl (entity_step host m rn) es ents) m' t =
         (if m' = m \<and> t \<in> set ents then Some (renamed rn t) else ent_slug es m' t))
    \<and> (\<forall>s. gm_get (e_owner (foldl (entity_step host m rn) es ents)) s =
         (if s \<in> renamed rn ` set ents then Some m else gm_get (e_owner es) s))"
  using assms
proof (induction ents arbitrary: es)
  case Nil
  then show ?case by simp
next
  case (Cons e ents)
  let ?es = "entity_step host m rn es e" 
  let ?r = "foldl (entity_step host m rn) ?es ents"
  have run: "e_problems ?r = []" using Cons.prems by simp
  note IH = conjunct1 [OF Cons.IH [OF run]] conjunct1 [OF conjunct2 [OF Cons.IH [OF run]]]
    conjunct1 [OF conjunct2 [OF conjunct2 [OF Cons.IH [OF run]]]] conjunct2 [OF conjunct2 [OF conjunct2 [OF Cons.IH [OF run]]]]
  have fin: "foldl (entity_step host m rn) es (e # ents) = ?r" by simp
  have first: "e_problems es = [] \<and> renamed rn e \<noteq> host \<and> (\<forall>p. gm_get (e_owner es) (renamed rn e) = Some p \<longrightarrow> p = m)"
    using IH(1) by (simp add: entity_step_eqs(1))
  have rest: "renamed rn x \<noteq> host \<and> (\<forall>p. gm_get (e_owner es) (renamed rn x) = Some p \<longrightarrow> p = m)" if "x \<in> set ents" for x
    using bspec [OF IH(2) that] first by (cases "renamed rn x = renamed rn e") (simp_all add: entity_step_eqs(3))
  have slugs: "ent_slug ?r m' t = (if m' = m \<and> t \<in> set (e # ents) then Some (renamed rn t) else ent_slug es m' t)" for m' t
    using IH(3) by (auto simp: entity_step_eqs(2))
  have own: "gm_get (e_owner ?r) s = (if s \<in> renamed rn ` set (e # ents) then Some m else gm_get (e_owner es) s)" for s
    using IH(4) by (auto simp: entity_step_eqs(3))
  have heads: "\<forall>x \<in> set (e # ents). renamed rn x \<noteq> host \<and> (\<forall>p. gm_get (e_owner es) (renamed rn x) = Some p \<longrightarrow> p = m)"
    using first rest by simp
  show ?case unfolding fin using conjunct1 [OF first] heads slugs own by (intro conjI allI) assumption+
qed

definition entity_inv :: "string \<Rightarrow> estate \<Rightarrow> bool" where
  "entity_inv host es \<longleftrightarrow>
     (\<forall>m t s. ent_slug es m t = Some s \<longrightarrow> s \<noteq> host \<and> gm_get (e_owner es) s = Some m)
     \<and> (\<forall>m t t' s. ent_slug es m t = Some s \<longrightarrow> ent_slug es m t' = Some s \<longrightarrow> t = t')"

lemma entity_module_inv:
  assumes inv: "entity_inv host es" and ok: "e_problems (entity_module ov host es m) = []"
  shows "entity_inv host (entity_module ov host es m) \<and> e_problems es = []
    \<and> (\<forall>t \<in> set (entity_slugs m). ent_slug (entity_module ov host es m) (m_module m) t \<noteq> None)
    \<and> (\<forall>m' t. m' \<noteq> m_module m \<longrightarrow> ent_slug (entity_module ov host es m) m' t = ent_slug es m' t)"
proof (cases "entity_slugs m = []")
  case True
  with assms show ?thesis by (simp add: entity_module_def Let_def)
next
  case False
  let ?mo = "override_of ov (m_module m)"
  define mv where "mv = (mo_template ?mo \<noteq> [] \<and> valid_slug (mo_template ?mo))"
  define rn where "rn = (if mv \<and> all_on_one m then mo_template ?mo else [])"
  define es1 where "es1 = es\<lparr>e_slugs := gm_put (m_module m) [] (e_slugs es),
    e_problems := e_problems es @ when_r (mv \<and> \<not> all_on_one m) (EntityRenameMany (m_module m))\<rparr>"
  have eq: "entity_module ov host es m = foldl (entity_step host (m_module m) rn) es1 (entity_slugs m)"
    using False by (simp add: entity_module_def Let_def mv_def rn_def es1_def)
  have steps: "e_problems es1 = []"
      "\<And>e. e \<in> set (entity_slugs m) \<Longrightarrow> renamed rn e \<noteq> host \<and> (\<forall>p. gm_get (e_owner es1) (renamed rn e) = Some p \<longrightarrow> p = m_module m)"
      "\<And>m' t. ent_slug (entity_module ov host es m) m' t = (if m' = m_module m \<and> t \<in> set (entity_slugs m) then Some (renamed rn t) else ent_slug es1 m' t)"
      "\<And>s. gm_get (e_owner (entity_module ov host es m)) s = (if s \<in> renamed rn ` set (entity_slugs m) then Some (m_module m) else gm_get (e_owner es1) s)"
    using entity_steps [OF ok [unfolded eq]] unfolding eq by blast+
  have es1: "ent_slug es1 m' t = (if m' = m_module m then None else ent_slug es m' t)" "e_owner es1 = e_owner es" for m' t
    by (auto simp: es1_def ent_slug_def gm_getd_def split: option.splits)
  have single: "\<exists>e. entity_slugs m = [e]" if "rn \<noteq> []"
    using that by (auto simp: rn_def all_on_one_def split: if_splits list.splits)
  have "s \<noteq> host \<and> gm_get (e_owner (entity_module ov host es m)) s = Some m'"
    if "ent_slug (entity_module ov host es m) m' t = Some s" for m' t s
  proof (cases "m' = m_module m")
    case True
    then show ?thesis using that steps(2) [of t] by (auto simp: steps(3,4) es1 split: if_splits)
  next
    case False
    then have "ent_slug es m' t = Some s" using that by (simp add: steps(3) es1)
    then have old: "s \<noteq> host" "gm_get (e_owner es) s = Some m'" using inv by (auto simp: entity_inv_def)
    have "s \<notin> renamed rn ` set (entity_slugs m)"
      using steps(2) old(2) False es1(2) by fastforce
    then show ?thesis using old by (simp add: steps(4) es1(2))
  qed
  moreover have "t = t'" if "ent_slug (entity_module ov host es m) m' t = Some s" "ent_slug (entity_module ov host es m) m' t' = Some s" for m' t t' s
  proof (cases "m' = m_module m")
    case True
    then show ?thesis using that single by (cases "rn = []") (auto simp: steps(3) es1 renamed_def split: if_splits)
  next
    case False
    then show ?thesis using that inv by (simp add: steps(3) es1 entity_inv_def)
  qed
  ultimately have "entity_inv host (entity_module ov host es m)" unfolding entity_inv_def by blast
  moreover have "e_problems es = []" using steps(1) by (simp add: es1_def)
  ultimately show ?thesis by (simp add: steps(3) es1)
qed

lemma entity_modules:
  assumes "entity_inv host es" "e_problems (foldl (entity_module ov host) es ms) = []" "distinct (map m_module ms)"
  shows "entity_inv host (foldl (entity_module ov host) es ms) \<and> e_problems es = []
    \<and> (\<forall>m \<in> set ms. \<forall>t \<in> set (entity_slugs m). ent_slug (foldl (entity_module ov host) es ms) (m_module m) t \<noteq> None)
    \<and> (\<forall>m' t. m' \<notin> m_module ` set ms \<longrightarrow> ent_slug (foldl (entity_module ov host) es ms) m' t = ent_slug es m' t)"
  using assms
proof (induction ms arbitrary: es)
  case Nil
  then show ?case by simp
next
  case (Cons m ms)
  let ?es = "entity_module ov host es m"
  have "e_problems (foldl (entity_module ov host) es' ms) \<noteq> []" if "e_problems es' \<noteq> []" for es'
    using that
  proof (induction ms arbitrary: es')
    case (Cons x xs)
    have grow: "e_problems (foldl (entity_step host k rn) e es) \<noteq> []" if "e_problems e \<noteq> []" for k rn e es
      using that entity_steps by blast
    have "e_problems (entity_module ov host es' x) \<noteq> []"
      using Cons.prems by (auto simp: entity_module_def Let_def intro!: grow)
    then show ?case using Cons.IH by simp
  qed simp
  then have ok: "e_problems ?es = []" using Cons.prems(2) by fastforce
  note step = entity_module_inv [OF Cons.prems(1) ok]
  have run: "e_problems (foldl (entity_module ov host) ?es ms) = []" using Cons.prems(2) by simp
  note IH = Cons.IH [OF conjunct1 [OF step] run]
  have new: "m_module m \<notin> m_module ` set ms" using Cons.prems(3) by auto
  show ?case using IH step new Cons.prems(3) by simp
qed

lemma mset_map_sort: "mset (map f (sort_key k xs)) = mset (map f xs)"
  by simp

section \<open>The shape of a resolved schema\<close>

abbreviation host_of :: "overrides \<Rightarrow> string" where
  "host_of ov \<equiv> snd (resolve_host ov)"

abbreviation ents_of :: "manifest list \<Rightarrow> overrides \<Rightarrow> estate" where
  "ents_of ms ov \<equiv> entity_state ov (host_of ov) ms"

abbreviation attr_of :: "manifest list \<Rightarrow> overrides \<Rightarrow> string \<times> mattribute \<Rightarrow> desired_attr" where
  "attr_of ms ov \<equiv> desired_attr_of (ents_of ms ov) (host_of ov) ov"

definition display_of :: "manifest list \<Rightarrow> overrides \<Rightarrow> string" where
  "display_of ms ov = host_label (host_of ov) (resolve_state ms ov) (all_attrs ms)"

lemma set_display_simps [simp]:
  "da_slug (set_display s da) = da_slug da" "da_templates (set_display s da) = da_templates da"
  "da_kind (set_display s da) = da_kind da" "da_module (set_display s da) = da_module da"
  "da_key (set_display s da) = da_key da" "da_entity (set_display s da) = da_entity da"
  "da_options (set_display s da) = da_options da" "da_platforms (set_display s da) = da_platforms da"
  "da_target (set_display s da) = da_target da"
  "da_name (set_display s da) = da_name da" "da_desc (set_display s da) = da_desc da"
  by (simp_all add: set_display_def)

lemma resolve_state_eq:
  "resolve_state ms ov = foldl (attr_step (ents_of ms ov) (host_of ov) ov)
     \<lparr>r_templates = declared_templates (ents_of ms ov) (host_of ov) ms, r_attrs = [], r_owner = [],
      r_problems = fst (resolve_host ov) @ override_problems (by_module ms) (ov_modules ov) @ e_problems (ents_of ms ov)\<rparr>
     (all_attrs ms)"
  by (simp add: resolve_state_def case_prod_beta Let_def)

lemma resolve_shape:
  assumes "resolve ms ov = Inr d"
  shows "d_host d = host_of ov" "e_problems (ents_of ms ov) = []"
    and "ma \<in> set (all_attrs ms) \<Longrightarrow> attr_problems (ents_of ms ov) (host_of ov) ov ma = []"
    and "distinct (map (\<lambda>ma. da_slug (attr_of ms ov ma)) (all_attrs ms))"
    and "r_attrs (resolve_state ms ov) = map (\<lambda>ma. (da_slug (attr_of ms ov ma), attr_of ms ov ma)) (all_attrs ms)"
    and "r_owner (resolve_state ms ov) = map (\<lambda>ma. (da_slug (attr_of ms ov ma), attr_id (fst ma) (a_key (snd ma)))) (all_attrs ms)"
    and "d_attributes d = sort_key da_slug (map (\<lambda>ma. set_display (display_of ms ov) (attr_of ms ov ma)) (all_attrs ms))"
    and "d_templates d = sort_key dt_slug (map snd (r_templates (resolve_state ms ov)))"
    and "ma \<in> set (all_attrs ms) \<Longrightarrow> da_kind (attr_of ms ov ma) = KindReference \<Longrightarrow> display_of ms ov \<noteq> []"
proof -
  let ?st = "resolve_state ms ov"
  have probs: "r_problems ?st = []" "display_problems (display_of ms ov) (r_attrs ?st) = []"
    and d: "d = \<lparr>d_host = host_of ov, d_templates = sort_key dt_slug (map snd (r_templates ?st)),
      d_attributes = sort_key da_slug (map (\<lambda>p. set_display (display_of ms ov) (snd p)) (r_attrs ?st))\<rparr>"
    using assms by (simp_all add: resolve_def Let_def display_of_def split: if_splits)
  note keep = attrs_keep [OF probs(1) [unfolded resolve_state_eq], simplified, folded resolve_state_eq]
  show "d_host d = host_of ov" "d_templates d = sort_key dt_slug (map snd (r_templates ?st))" by (simp_all add: d)
  show "e_problems (ents_of ms ov) = []" "distinct (map (\<lambda>ma. da_slug (attr_of ms ov ma)) (all_attrs ms))"
    using keep by simp_all
  show attrs: "r_attrs ?st = map (\<lambda>ma. (da_slug (attr_of ms ov ma), attr_of ms ov ma)) (all_attrs ms)"
    and "r_owner ?st = map (\<lambda>ma. (da_slug (attr_of ms ov ma), attr_id (fst ma) (a_key (snd ma)))) (all_attrs ms)"
    using keep by blast+
  show "d_attributes d = sort_key da_slug (map (\<lambda>ma. set_display (display_of ms ov) (attr_of ms ov ma)) (all_attrs ms))"
    by (simp add: d attrs comp_def)
  show "attr_problems (ents_of ms ov) (host_of ov) ov ma = []" if "ma \<in> set (all_attrs ms)"
    using keep that by blast
  show "display_of ms ov \<noteq> []" if "ma \<in> set (all_attrs ms)" "da_kind (attr_of ms ov ma) = KindReference"
    using probs(2) that by (auto simp: display_problems_def attrs)
qed

lemma resolve_templates:
  shows "slug_keyed (r_templates (resolve_state ms ov))"
    and "(host_of ov, plain_template (host_of ov) host_template_name ''A machine reporting through omnistat'')
           \<in> set (r_templates (resolve_state ms ov))"
    and "ma \<in> set (all_attrs ms) \<Longrightarrow> gm_has (r_templates (resolve_state ms ov)) (hd (da_templates (attr_of ms ov ma)))"
    and "p \<in> set (r_templates (resolve_state ms ov)) \<Longrightarrow> dt_entity (snd p) \<Longrightarrow>
           \<exists>m \<in> set ms. \<exists>t \<in> set (m_templates m). t_entity t \<and> snd p = desired_of_template (ents_of ms ov) (m_module m) t"
proof -
  let ?h = "plain_template (host_of ov) host_template_name ''A machine reporting through omnistat''"
  let ?dts = "concat (map (\<lambda>m. map (desired_of_template (ents_of ms ov) (m_module m)) (m_templates m)) ms)
    @ map (\<lambda>ma. let tpl = hd (da_templates (attr_of ms ov ma)) in plain_template tpl (title_from_slug tpl) []) (all_attrs ms)"
  have ts: "r_templates (resolve_state ms ov) = foldl (\<lambda>ts dt. declare_template dt ts) [(host_of ov, ?h)] ?dts"
    by (simp add: resolve_state_eq attrs_templates declared_templates_def declare_template_eq plain_template_def Let_def)
  have k: "slug_keyed [(host_of ov, ?h)]" by (simp add: slug_keyed_def gm_ok_def plain_template_def)
  note all = declares [OF k, of ?dts]
  show "slug_keyed (r_templates (resolve_state ms ov))" "(host_of ov, ?h) \<in> set (r_templates (resolve_state ms ov))"
    using all by (auto simp: ts)
  show "gm_has (r_templates (resolve_state ms ov)) (hd (da_templates (attr_of ms ov ma)))" if "ma \<in> set (all_attrs ms)"
  proof -
    let ?t = "hd (da_templates (attr_of ms ov ma))"
    have "plain_template ?t (title_from_slug ?t) [] \<in> set ?dts" using that by (auto simp: Let_def)
    then have "gm_has (r_templates (resolve_state ms ov)) (dt_slug (plain_template ?t (title_from_slug ?t) []))"
      unfolding ts by (rule declares_has [OF disjI1])
    then show ?thesis by (simp add: plain_template_def)
  qed
  show "\<exists>m \<in> set ms. \<exists>t \<in> set (m_templates m). t_entity t \<and> snd p = desired_of_template (ents_of ms ov) (m_module m) t"
    if "p \<in> set (r_templates (resolve_state ms ov))" "dt_entity (snd p)"
  proof -
    have "snd p \<in> set ?dts" using all that by (auto simp: ts plain_template_def)
    then show ?thesis using that(2) by (auto simp: plain_template_def Let_def desired_of_template_def split: if_splits)
  qed
qed

section \<open>Attributes\<close>

text \<open>
  A schema resolved from the manifests has exactly one attribute for each declared one, and
  overrides cannot change what it collects: its module, key, kind, options and platforms are the
  declared ones.
\<close>

lemma resolve_keeps_declarations:
  assumes "resolve ms ov = Inr d"
  shows "mset (map (\<lambda>da. (da_module da, da_key da, da_kind da, da_options da, da_platforms da)) (d_attributes d))
    = mset (map (\<lambda>(m, a). (m, a_key a, a_kind a, a_options a, a_platforms a)) (all_attrs ms))"
proof -
  have "da_module (attr_of ms ov ma) = fst ma \<and> da_key (attr_of ms ov ma) = a_key (snd ma) \<and> da_kind (attr_of ms ov ma) = a_kind (snd ma)
      \<and> da_options (attr_of ms ov ma) = a_options (snd ma) \<and> da_platforms (attr_of ms ov ma) = a_platforms (snd ma)" for ma
    by (simp add: desired_attr_of_def desired_of_attr_def Let_def)
  then show ?thesis
    by (simp only: resolve_shape(7) [OF assms] mset_map_sort list.map_comp) (simp add: comp_def case_prod_unfold)
qed

text \<open>Where a resolved attribute comes from, its entity template included.\<close>

definition kept_from :: "string \<Rightarrow> mattribute \<Rightarrow> desired_attr \<Rightarrow> bool" where
  "kept_from m a da \<longleftrightarrow> da_module da = m \<and> da_key da = a_key a \<and> da_kind da = a_kind a \<and> da_options da = a_options a
     \<and> da_platforms da = a_platforms a \<and> (da_entity da = a_template a \<or> da_entity da = [])"

lemma attr_of_kept: "kept_from (fst ma) (snd ma) (set_display x (attr_of ms ov ma))"
  by (auto simp: kept_from_def desired_attr_of_def desired_of_attr_def Let_def split: option.splits)

lemma resolve_attr_from:
  assumes "resolve ms ov = Inr d" "da \<in> set (d_attributes d)"
  shows "\<exists>(m, a) \<in> set (all_attrs ms). kept_from m a da"
proof -
  from assms(2) obtain ma where "ma \<in> set (all_attrs ms)" "da = set_display (display_of ms ov) (attr_of ms ov ma)"
    by (auto simp: resolve_shape(7) [OF assms(1)])
  then show ?thesis using attr_of_kept [of ma] by (intro bexI [of _ ma]) (simp_all add: case_prod_unfold)
qed

lemma resolve_attr_kept:
  assumes "resolve ms ov = Inr d" "ma \<in> set (all_attrs ms)"
  shows "\<exists>da \<in> set (d_attributes d). kept_from (fst ma) (snd ma) da"
proof (rule bexI)
  show "kept_from (fst ma) (snd ma) (set_display (display_of ms ov) (attr_of ms ov ma))" by (rule attr_of_kept)
  show "set_display (display_of ms ov) (attr_of ms ov ma) \<in> set (d_attributes d)"
    using assms(2) by (simp add: resolve_shape(7) [OF assms(1)])
qed

text \<open>An attribute on one of its module's entity templates keeps that template.\<close>

lemma resolve_entity_kept:
  assumes "distinct (map m_module ms)" "resolve ms ov = Inr d" "da \<in> set (d_attributes d)" "mf \<in> set ms"
    and "a \<in> set (m_attributes mf)" "distinct (map a_key (m_attributes mf))" "da_module da = m_module mf" "da_key da = a_key a"
    and "a_template a \<in> set (entity_slugs mf)"
  shows "da_entity da = a_template a"
proof -
  note sh = resolve_shape [OF assms(2)]
  let ?es = "ents_of ms ov" and ?h = "host_of ov"
  have "entity_inv ?h \<lparr>e_slugs = [], e_owner = [], e_problems = []\<rparr>" by (simp add: entity_inv_def ent_slug_def)
  from entity_modules [OF this sh(2) [unfolded entity_state_def] assms(1), folded entity_state_def]
  have all: "ent_slug ?es (m_module mf) (a_template a) \<noteq> None" using assms(4,9) by blast
  from assms(3) obtain ma where ma: "ma \<in> set (all_attrs ms)" "da = set_display (display_of ms ov) (attr_of ms ov ma)" by (auto simp: sh(7))
  obtain k b where kb: "ma = (k, b)" by fastforce
  have "k = m_module mf" "a_key b = a_key a" using assms(7,8) ma(2) kb by (simp_all add: desired_attr_of_def desired_of_attr_def Let_def)
  moreover obtain mf' where "mf' \<in> set ms" "m_module mf' = k" "b \<in> set (m_attributes mf')" using ma(1) kb by (auto simp: all_attrs_def)
  moreover from calculation have "mf' = mf" using assms(1,4) by (auto simp: distinct_map inj_on_def)
  ultimately have "b = a" using assms(5,6) by (auto simp: distinct_map inj_on_def)
  then show ?thesis using all ma(2) kb \<open>k = m_module mf\<close> by (auto simp: desired_attr_of_def desired_of_attr_def Let_def)
qed

definition slug_for :: "overrides \<Rightarrow> string \<Rightarrow> mattribute \<Rightarrow> string" where
  "slug_for ov m a = (let s = ao_slug (attr_override_of (override_of ov m) (a_key a)) in if s = [] then a_slug a else s)"

definition template_for :: "overrides \<Rightarrow> string \<Rightarrow> mattribute \<Rightarrow> string" where
  "template_for ov m a = (
     let t_attr = ao_template (attr_override_of (override_of ov m) (a_key a)); t_mod = mo_template (override_of ov m)
     in if t_attr \<noteq> [] then t_attr else if t_mod \<noteq> [] then t_mod else if a_template a \<noteq> [] then a_template a else host_of ov)"

lemma attr_overrides_valid:
  assumes "attr_override_problems name keys aos = []" "(k, ao) \<in> set aos"
  shows "(ao_slug ao = [] \<or> valid_slug (ao_slug ao)) \<and> (ao_template ao = [] \<or> valid_slug (ao_template ao))"
  using assms by (induction name keys aos rule: attr_override_problems.induct) (auto split: if_splits)

lemma overrides_valid:
  assumes "override_problems bm mos = []" "(m, mo) \<in> set mos"
  shows "(mo_template mo = [] \<or> valid_slug (mo_template mo))
    \<and> (\<forall>k. let ao = attr_override_of mo k in (ao_slug ao = [] \<or> valid_slug (ao_slug ao)) \<and> (ao_template ao = [] \<or> valid_slug (ao_template ao)))"
  using assms
proof (induction bm mos rule: override_problems.induct)
  case (2 bm name mo' rest)
  show ?case
  proof (cases "(m, mo) = (name, mo')")
    case True
    then show ?thesis using 2(2)
      by (auto simp: Let_def attr_override_of_def gm_getd_def no_attr_override_def split: option.splits
          dest!: gm_get_in dest: attr_overrides_valid)
  next
    case False
    then show ?thesis using 2 by auto
  qed
qed simp

lemma resolve_overrides_valid:
  assumes "resolve ms ov = Inr d"
  shows "(mo_template (override_of ov m) = [] \<or> valid_slug (mo_template (override_of ov m)))
    \<and> (let ao = attr_override_of (override_of ov m) k in (ao_slug ao = [] \<or> valid_slug (ao_slug ao)) \<and> (ao_template ao = [] \<or> valid_slug (ao_template ao)))"
proof -
  have "r_problems (resolve_state ms ov) = []" using assms by (simp add: resolve_def Let_def split: if_splits)
  then have "override_problems (by_module ms) (ov_modules ov) = []"
    using attrs_keep [of "ents_of ms ov" "host_of ov" ov _ "all_attrs ms"] by (fastforce simp: resolve_state_eq)
  then have "(m, mo) \<in> set (ov_modules ov) \<Longrightarrow> ?thesis" if "override_of ov m = mo" for mo
    using that overrides_valid by (fastforce simp: Let_def)
  moreover have ?thesis if "override_of ov m = no_mod_override"
    using that by (simp add: no_mod_override_def attr_override_of_def no_attr_override_def)
  ultimately show ?thesis
    by (cases "gm_get (ov_modules ov) m") (auto simp: override_of_def gm_getd_def dest: gm_get_in)
qed

text \<open>
  C4: placement follows the documented precedence. A declared attribute that sits on no entity
  template of its module is found in the schema under the override's slug (its own otherwise),
  on the template of the attribute override, else the module override, else the manifest, else the
  host template; one on an entity template stays on the entity template's resolved slug.
\<close>

theorem resolve_precedence:
  assumes "resolve ms ov = Inr d" "(m, a) \<in> set (all_attrs ms)"
  shows "\<exists>da \<in> set (d_attributes d). da_module da = m \<and> da_key da = a_key a \<and> da_slug da = slug_for ov m a
    \<and> da_templates da = [case ent_slug (ents_of ms ov) m (a_template a) of Some s \<Rightarrow> s | None \<Rightarrow> template_for ov m a]"
proof
  let ?da = "set_display (display_of ms ov) (attr_of ms ov (m, a))"
  show "?da \<in> set (d_attributes d)" using assms by (auto simp: resolve_shape(7))
  show "da_module ?da = m \<and> da_key ?da = a_key a \<and> da_slug ?da = slug_for ov m a
    \<and> da_templates ?da = [case ent_slug (ents_of ms ov) m (a_template a) of Some s \<Rightarrow> s | None \<Rightarrow> template_for ov m a]"
    using resolve_overrides_valid [OF assms(1), of m "a_key a"]
    by (auto simp: desired_attr_of_def desired_of_attr_def slug_for_def template_for_def place_attr_def Let_def split: option.splits)
qed

section \<open>Slugs and templates\<close>

lemma resolved_well_formed:
  assumes "resolve ms ov = Inr d"
  shows "sorted (map da_slug (d_attributes d)) \<and> distinct (map da_slug (d_attributes d))
    \<and> sorted (map dt_slug (d_templates d)) \<and> distinct (map dt_slug (d_templates d))
    \<and> (\<forall>a \<in> set (d_attributes d). \<exists>t \<in> set (d_templates d). da_templates a = [dt_slug t])
    \<and> (\<exists>t \<in> set (d_templates d). dt_slug t = d_host d \<and> \<not> dt_entity t)"
proof (intro conjI)
  note sh = resolve_shape [OF assms] and ts = resolve_templates [where ms = ms and ov = ov]
  show "sorted (map da_slug (d_attributes d))" "sorted (map dt_slug (d_templates d))" by (simp_all add: sh)
  have "mset (map da_slug (d_attributes d)) = mset (map (\<lambda>ma. da_slug (attr_of ms ov ma)) (all_attrs ms))"
    by (simp only: sh(7) mset_map_sort list.map_comp) (simp add: comp_def)
  then show "distinct (map da_slug (d_attributes d))" using sh(4) by (metis mset_eq_imp_distinct_iff)
  have "mset (map dt_slug (d_templates d)) = mset (map fst (r_templates (resolve_state ms ov)))"
    using ts(1) by (simp only: sh(8) mset_map_sort list.map_comp slug_keyed_def) (simp add: comp_def cong: map_cong)
  then show "distinct (map dt_slug (d_templates d))" using ts(1) by (metis mset_eq_imp_distinct_iff slug_keyed_def gm_ok_def)
  show "\<forall>a \<in> set (d_attributes d). \<exists>t \<in> set (d_templates d). da_templates a = [dt_slug t]"
  proof
    fix a assume "a \<in> set (d_attributes d)"
    then obtain ma where ma: "ma \<in> set (all_attrs ms)" "a = set_display (display_of ms ov) (attr_of ms ov ma)"
      by (auto simp: sh(7))
    obtain s where s: "da_templates (attr_of ms ov ma) = [s]" using templates_single desired_attr_of_def by metis
    with ts(3) [OF ma(1)] obtain t where "(s, t) \<in> set (r_templates (resolve_state ms ov))" by (auto simp: gm_has_iff)
    moreover from this have "s = dt_slug t" using ts(1) by (auto simp: slug_keyed_def)
    ultimately show "\<exists>t \<in> set (d_templates d). da_templates a = [dt_slug t]" using s ma(2) by (force simp: sh(8))
  qed
  show "\<exists>t \<in> set (d_templates d). dt_slug t = d_host d \<and> \<not> dt_entity t"
    using ts(2) by (force simp: sh(1,8) plain_template_def)
qed

text \<open>
  C33: the schema is well formed. Attributes and templates are sorted by slug without a repetition,
  every attribute is bound to exactly one template and that template is declared, and the host
  template is declared and is no entity template.
\<close>

theorem resolve_well_formed:
  assumes "resolve ms ov = Inr d"
  shows "sorted (map da_slug (d_attributes d)) \<and> distinct (map da_slug (d_attributes d))
    \<and> sorted (map dt_slug (d_templates d)) \<and> distinct (map dt_slug (d_templates d))
    \<and> (\<forall>a \<in> set (d_attributes d). \<exists>t \<in> set (d_templates d). da_templates a = [dt_slug t])
    \<and> (\<exists>t \<in> set (d_templates d). dt_slug t = d_host d \<and> \<not> dt_entity t)"
  by (rule resolved_well_formed [OF assms])

section \<open>Entity templates belong to one module\<close>

text \<open>
  No entity template resolves to the host template, and only the attributes that its own module
  declares on it are bound to it: an attribute bound to an entity template of the schema belongs to
  the template's module and names that template in its manifest.
\<close>

lemma resolve_entity_separate:
  assumes "distinct (map m_module ms)" "resolve ms ov = Inr d"
    and "t \<in> set (d_templates d)" "dt_entity t" "a \<in> set (d_attributes d)" "da_templates a = [dt_slug t]"
  shows "dt_slug t \<noteq> d_host d \<and> da_module a = dt_module t \<and> da_entity a = dt_key t"
proof -
  note sh = resolve_shape [OF assms(2)] and ts = resolve_templates [where ms = ms and ov = ov]
  let ?es = "ents_of ms ov" and ?h = "host_of ov"
  have "entity_inv ?h \<lparr>e_slugs = [], e_owner = [], e_problems = []\<rparr>" by (simp add: entity_inv_def ent_slug_def)
  from entity_modules [OF this sh(2) [unfolded entity_state_def] assms(1), folded entity_state_def]
  have inv: "entity_inv ?h ?es"
    and all: "\<And>m u. m \<in> set ms \<Longrightarrow> u \<in> set (entity_slugs m) \<Longrightarrow> ent_slug ?es (m_module m) u \<noteq> None" by blast+
  from assms(3) obtain s where "(s, t) \<in> set (r_templates (resolve_state ms ov))" by (auto simp: sh(8))
  from ts(4) [OF this] assms(4) obtain m u where mu: "m \<in> set ms" "u \<in> set (m_templates m)" "t_entity u"
      and t: "t = desired_of_template ?es (m_module m) u" by auto
  obtain r where r: "ent_slug ?es (m_module m) (t_slug u) = Some r" using all [OF mu(1), of "t_slug u"] mu by (auto simp: entity_slugs_def)
  have tr: "dt_slug t = r" "dt_module t = m_module m" "dt_key t = t_slug u" using t r mu by (simp_all add: desired_of_template_def)
  have own: "r \<noteq> ?h" "gm_get (e_owner ?es) r = Some (m_module m)" using inv r by (auto simp: entity_inv_def)
  from assms(5) obtain ma where ma: "ma \<in> set (all_attrs ms)" "a = set_display (display_of ms ov) (attr_of ms ov ma)" by (auto simp: sh(7))
  obtain k b where kb: "ma = (k, b)" by fastforce
  show ?thesis
  proof (cases "ent_slug ?es k (a_template b)")
    case None
    then have "place_attr ?h (override_of ov k) (attr_override_of (override_of ov k) (a_key b)) b = r"
      using assms(6) ma(2) kb tr by (simp add: desired_attr_of_def desired_of_attr_def Let_def)
    then have "attr_problems ?es ?h ov ma \<noteq> []" using None own by (simp add: kb attr_problems_def place_problems_def Let_def)
    then show ?thesis using sh(3) [OF ma(1)] by blast
  next
    case (Some r')
    then have "r' = r" "da_module a = k" "da_entity a = a_template b"
      using assms(6) ma(2) kb tr by (simp_all add: desired_attr_of_def desired_of_attr_def Let_def)
    moreover from this Some have "k = m_module m" using inv own by (fastforce simp: entity_inv_def)
    moreover from this Some r \<open>r' = r\<close> have "a_template b = t_slug u" using inv by (fastforce simp: entity_inv_def)
    ultimately show ?thesis using own tr by (simp add: sh(1))
  qed
qed

section \<open>Host links\<close>

definition better :: "string \<times> int \<Rightarrow> string \<times> int \<Rightarrow> bool" where
  "better c b \<longleftrightarrow> snd b < snd c \<or> (snd c = snd b \<and> fst c < fst b)"

lemma pick_best:
  "foldl (\<lambda>b c. if better c b then c else b) b cs \<in> insert b (set cs)
    \<and> (\<forall>c \<in> insert b (set cs). \<not> better c (foldl (\<lambda>b c. if better c b then c else b) b cs))"
proof (induction cs arbitrary: b)
  case Nil
  then show ?case by (simp add: better_def)
next
  case (Cons c cs)
  let ?b = "if better c b then c else b"
  let ?r = "foldl (\<lambda>b c. if better c b then c else b) ?b cs"
  have IH: "?r \<in> insert ?b (set cs)" "\<not> better x ?r" if "x \<in> insert ?b (set cs)" for x
    using Cons.IH [of ?b] that by blast+
  have "\<not> better x ?r" if "x = b \<or> x = c" for x
  proof -
    have "\<not> better ?b ?r" using Cons.IH [of ?b] by blast
    then show ?thesis using that by (auto simp: better_def split: if_splits)
  qed
  then show ?case using Cons.IH [of ?b] by auto
qed

definition label_candidates :: "manifest list \<Rightarrow> overrides \<Rightarrow> (string \<times> int) list" where
  "label_candidates ms ov = map (\<lambda>ma. (da_slug (attr_of ms ov ma), a_label (snd ma)))
     (filter (\<lambda>ma. 0 < a_label (snd ma) \<and> hd (da_templates (attr_of ms ov ma)) = host_of ov) (all_attrs ms))"

lemma valid_module_no_slash: "valid_module_name m \<Longrightarrow> CHR ''/'' \<notin> set m"
proof -
  have "byte (CHR ''/'') = 47" by (simp add: byte_def)
  then show "valid_module_name m \<Longrightarrow> CHR ''/'' \<notin> set m"
    by (cases m) (auto simp: valid_module_name_def list_all_iff is_lower_def is_digit_def)
qed

lemma attr_id_inj:
  assumes "CHR ''/'' \<notin> set m" "CHR ''/'' \<notin> set m'" "attr_id m k = attr_id m' k'"
  shows "m = m' \<and> k = k'"
  using assms
proof (induction m arbitrary: m')
  case Nil
  then show ?case by (cases m') (auto simp: attr_id_def)
next
  case (Cons c m)
  then show ?case by (cases m') (auto simp: attr_id_def)
qed

lemma all_attrs_wf:
  assumes "wf_manifests ms" "(m, a) \<in> set (all_attrs ms)"
  shows "valid_module_name m \<and> (a_label a \<ge> 0)"
  using assms by (auto simp: all_attrs_def wf_manifests_def wf_manifest_def wf_attr_def)

text \<open>The id of a declared attribute is its own, so looking a slug up by it finds that attribute's slug.\<close>

lemma find_own:
  assumes "distinct (map f xs)" "x \<in> set xs"
  shows "find (\<lambda>p. snd p = f x) (map (\<lambda>y. (g y, f y)) xs) = Some (g x, f x)"
  using assms
proof (induction xs)
  case (Cons y ys)
  then show ?case by (cases "f y = f x") (auto simp: image_iff)
qed simp

lemma distinct_ids:
  assumes "wf_manifests ms"
  shows "distinct (map (\<lambda>ma. attr_id (fst ma) (a_key (snd ma))) (all_attrs ms))"
  using assms
proof (induction ms)
  case Nil
  then show ?case by (simp add: all_attrs_def)
next
  case (Cons m ms)
  have wf: "wf_manifests ms" "valid_module_name (m_module m)" "m_module m \<notin> m_module ` set ms" "distinct (map a_key (m_attributes m))"
    using Cons.prems by (auto simp: wf_manifests_def wf_manifest_def)
  have own: "distinct (map (\<lambda>a. attr_id (m_module m) (a_key a)) (m_attributes m))"
    using wf(4) by (auto simp: distinct_map inj_on_def attr_id_def)
  have sep: "attr_id (m_module m) k \<noteq> attr_id m' (a_key a')" if "(m', a') \<in> set (all_attrs ms)" for k m' a'
  proof
    assume "attr_id (m_module m) k = attr_id m' (a_key a')"
    then have "m_module m = m'"
      using attr_id_inj valid_module_no_slash all_attrs_wf [OF wf(1) that] wf(2) by blast
    moreover have "m' \<in> m_module ` set ms" using that by (auto simp: all_attrs_def)
    ultimately show False using wf(3) by simp
  qed
  have "all_attrs (m # ms) = map (Pair (m_module m)) (m_attributes m) @ all_attrs ms" by (simp add: all_attrs_def)
  moreover have "distinct (map (\<lambda>ma. attr_id (fst ma) (a_key (snd ma))) (all_attrs ms))" using Cons.IH wf(1) by simp
  ultimately show ?case using own sep by (auto simp: comp_def)
qed

lemma label_step_eq:
  assumes "wf_manifests ms" "resolve ms ov = Inr d" "ma \<in> set (all_attrs ms)"
  shows "label_step (host_of ov) (resolve_state ms ov) best ma =
    (if 0 < a_label (snd ma) \<and> hd (da_templates (attr_of ms ov ma)) = host_of ov
     then (let c = (da_slug (attr_of ms ov ma), a_label (snd ma)) in if better c best then c else best) else best)"
proof -
  note sh = resolve_shape [OF assms(2)]
  have slug: "slug_of (fst ma) (a_key (snd ma)) (r_owner (resolve_state ms ov)) = da_slug (attr_of ms ov ma)"
    using find_own [OF distinct_ids [OF assms(1)] assms(3), of "\<lambda>ma. da_slug (attr_of ms ov ma)"] by (simp add: slug_of_def sh(6))
  have ok: "gm_ok (r_attrs (resolve_state ms ov))" using sh(4) by (simp add: sh(5) gm_ok_def comp_def)
  have "gm_get (r_attrs (resolve_state ms ov)) (da_slug (attr_of ms ov ma)) = Some (attr_of ms ov ma)"
    by (rule gm_in_get [OF ok]) (use assms(3) in \<open>auto simp: sh(5)\<close>)
  then show ?thesis using slug
    by (cases ma; cases best) (simp add: label_step_def better_def Let_def)
qed

lemma display_eq:
  assumes "wf_manifests ms" "resolve ms ov = Inr d"
  shows "display_of ms ov = fst (foldl (\<lambda>b c. if better c b then c else b) ([], 0) (label_candidates ms ov))"
proof -
  have "foldl (label_step (host_of ov) (resolve_state ms ov)) b as =
      foldl (\<lambda>b c. if better c b then c else b) b (map (\<lambda>ma. (da_slug (attr_of ms ov ma), a_label (snd ma)))
        (filter (\<lambda>ma. 0 < a_label (snd ma) \<and> hd (da_templates (attr_of ms ov ma)) = host_of ov) as))"
    if "set as \<subseteq> set (all_attrs ms)" for as b
    using that
  proof (induction as arbitrary: b)
    case (Cons ma as)
    then show ?case by (simp add: label_step_eq [OF assms] Let_def)
  qed simp
  then show ?thesis by (simp add: display_of_def host_label_def label_candidates_def)
qed

text \<open>
  Every host link of a resolved schema targets the host template and shows the host's label: the
  attribute bound to the host template with the highest label rank, the smallest slug among equal
  ranks. In particular there is one, so a link never shows nothing.
\<close>

lemma resolve_host_links:
  assumes "wf_manifests ms" "resolve ms ov = Inr d" "a \<in> set (d_attributes d)" "da_kind a = KindReference"
  shows "da_target a = d_host d \<and> (\<exists>rank > 0. (da_display a, rank) \<in> set (label_candidates ms ov)
    \<and> (\<forall>c \<in> set (label_candidates ms ov). snd c < rank \<or> (snd c = rank \<and> da_display a \<le> fst c)))"
proof -
  note sh = resolve_shape [OF assms(2)]
  from assms(3) obtain ma where ma: "ma \<in> set (all_attrs ms)" "a = set_display (display_of ms ov) (attr_of ms ov ma)" by (auto simp: sh(7))
  have ref: "da_kind (attr_of ms ov ma) = KindReference" using ma(2) assms(4) by simp
  then have ne: "display_of ms ov \<noteq> []" using sh(9) [OF ma(1)] by simp
  let ?r = "foldl (\<lambda>b c. if better c b then c else b) ([], 0) (label_candidates ms ov)"
  have r: "fst ?r = display_of ms ov" by (simp add: display_eq [OF assms(1,2)])
  note best = pick_best [of "([], 0)" "label_candidates ms ov"]
  have "?r \<noteq> ([], 0)" using ne r by auto
  then have inr: "?r \<in> set (label_candidates ms ov)" using best by blast
  have "da_display a = display_of ms ov" using ref ne by (simp add: ma(2) set_display_def)
  moreover have "da_target a = d_host d"
    using ref by (simp add: ma(2) sh(1) desired_attr_of_def desired_of_attr_def Let_def)
  moreover have "snd ?r > 0" using inr by (auto simp: label_candidates_def)
  moreover have "snd c < snd ?r \<or> (snd c = snd ?r \<and> fst ?r \<le> fst c)" if "c \<in> set (label_candidates ms ov)" for c
  proof -
    have "\<not> better c ?r" using conjunct2 [OF best] that by blast
    then show ?thesis by (auto simp: better_def)
  qed
  moreover have "(display_of ms ov, snd ?r) \<in> set (label_candidates ms ov)" using inr by (simp flip: r)
  ultimately show ?thesis using r by (intro conjI exI [of _ "snd ?r"]) auto
qed

section \<open>An example: a UPS module and a renamed host\<close>

definition example_manifests :: "manifest list" where
  "example_manifests = [
     \<lparr>m_module = ''hostname'', m_templates = [],
      m_attributes = [\<lparr>a_key = ''hostname'', a_name = ''Hostname'', a_slug = ''hostname'', a_kind = KindText, a_desc = [],
        a_options = [], a_template = [], a_target = [], a_label = 1, a_platforms = []\<rparr>]\<rparr>,
     \<lparr>m_module = ''ups'', m_templates = [\<lparr>t_slug = ''ups'', t_name = ''UPS'', t_desc = [], t_entity = True\<rparr>],
      m_attributes = [
        \<lparr>a_key = ''host'', a_name = ''Host'', a_slug = ''ups_host'', a_kind = KindReference, a_desc = [],
         a_options = [], a_template = ''ups'', a_target = ''host'', a_label = 0, a_platforms = []\<rparr>,
        \<lparr>a_key = ''load'', a_name = ''Load'', a_slug = ''ups_load'', a_kind = KindMetric, a_desc = [],
         a_options = [], a_template = ''ups'', a_target = [], a_label = 0, a_platforms = []\<rparr>]\<rparr>]"

definition example_overrides :: overrides where
  "example_overrides = \<lparr>ov_host = ''server'', ov_modules = [(''ups'', \<lparr>mo_template = [], mo_attributes =
     [(''load'', \<lparr>ao_slug = ''psu_load'', ao_template = [], ao_name = [], ao_desc = []\<rparr>)]\<rparr>)]\<rparr>"

definition example_desired :: desired where
  "example_desired = (case resolve example_manifests example_overrides of
     Inr d \<Rightarrow> d | Inl _ \<Rightarrow> \<lparr>d_host = [], d_templates = [], d_attributes = []\<rparr>)"

lemma example_wf: "wf_manifests example_manifests"
  by (simp add: example_manifests_def wf_manifests_def wf_manifest_def wf_attr_def trim_space_ascii byte_def is_space_def
      valid_module_name_def valid_slug_def is_lower_def is_digit_def links_on_def host_template_def entity_slugs_def kind_valid_def)

lemma example_modules: "distinct (map m_module example_manifests)"
  by (simp add: example_manifests_def)

lemma example_resolves: "resolve example_manifests example_overrides = Inr example_desired"
proof -
  have "\<not> isl (resolve example_manifests example_overrides)" by code_simp
  then show ?thesis by (cases "resolve example_manifests example_overrides") (simp_all add: example_desired_def)
qed

lemma example_sizes: "length (d_attributes example_desired) = 3 \<and> length (d_templates example_desired) = 2"
  by code_simp

lemma example_entity: "dt_entity (d_templates example_desired ! 1)"
  by code_simp

lemma example_bound: "da_templates (d_attributes example_desired ! 1) = [dt_slug (d_templates example_desired ! 1)]"
  by code_simp

lemma example_link: "da_kind (d_attributes example_desired ! 2) = KindReference"
  by code_simp

lemma resolve_keeps_declarations_witness:
  "mset (map (\<lambda>da. (da_module da, da_key da, da_kind da, da_options da, da_platforms da)) (d_attributes example_desired))
    = mset (map (\<lambda>(m, a). (m, a_key a, a_kind a, a_options a, a_platforms a)) (all_attrs example_manifests))"
  by (rule resolve_keeps_declarations [OF example_resolves])

theorem resolve_precedence_witness:
  "\<exists>da \<in> set (d_attributes example_desired). da_module da = ''ups'' \<and> da_key da = ''load'' \<and> da_slug da = ''psu_load''"
proof -
  let ?a = "m_attributes (example_manifests ! 1) ! 1"
  have "(''ups'', ?a) \<in> set (all_attrs example_manifests)" by (simp add: example_manifests_def all_attrs_def)
  moreover have "a_key ?a = ''load''" "slug_for example_overrides ''ups'' ?a = ''psu_load''"
    by (simp_all add: example_manifests_def slug_for_def example_overrides_def override_of_def attr_override_of_def
        gm_getd_def gm_get_def Let_def)
  ultimately show ?thesis using resolve_precedence [OF example_resolves] by metis
qed

theorem resolve_well_formed_witness:
  "sorted (map da_slug (d_attributes example_desired)) \<and> distinct (map da_slug (d_attributes example_desired))"
  using resolve_well_formed [OF example_resolves] by blast

lemma resolve_entity_separate_witness: "da_module (d_attributes example_desired ! 1) = dt_module (d_templates example_desired ! 1)"
  using resolve_entity_separate [OF example_modules example_resolves _ example_entity _ example_bound] example_sizes by simp

lemma resolve_host_links_witness: "da_target (d_attributes example_desired ! 2) = d_host example_desired"
  using resolve_host_links [OF example_wf example_resolves _ example_link] example_sizes by simp

end
