(* ===== verification/Schema.thy ===== *)
theory Schema
  imports Resolve "HOL-Library.Product_Lexorder"
begin

text \<open>
  \<open>internal/schema\<close>, the data and the plan (schema.go, diff.go): the project's current schema, the
  additive actions, and \<open>diff\<close>, the plan that brings the current schema to the desired one. The plan is
  empty exactly when the project already satisfies the desired schema.
\<close>

section \<open>The current schema and plans\<close>

record cur_template =
  ct_id :: string
  ct_name :: string
  ct_attrs :: "string list"

record cur_attribute =
  ca_id :: string
  ca_name :: string
  ca_type :: string
  ca_options :: "string list"
  ca_option_ids :: "(string, string) gomap"
  ca_ref :: string

record current =
  cu_templates :: "(string, cur_template) gomap"
  cu_attributes :: "(string, cur_attribute) gomap"

definition type_of :: "kind \<Rightarrow> string" where
  "type_of k = (case k of KindText \<Rightarrow> ''string'' | _ \<Rightarrow> kind_string k)"

datatype action_type = CreateTemplate | CreateAttribute | AddListOption | BindAttribute

definition action_name :: "action_type \<Rightarrow> string" where
  "action_name t = (case t of CreateTemplate \<Rightarrow> ''create_template'' | CreateAttribute \<Rightarrow> ''create_attribute''
     | AddListOption \<Rightarrow> ''add_list_option'' | BindAttribute \<Rightarrow> ''bind_attribute'')"

record action =
  ac_type :: action_type
  ac_template :: string
  ac_attribute :: string
  ac_name :: string
  ac_desc :: string
  ac_kind :: kind
  ac_templates :: "string list"
  ac_option :: string
  ac_target :: string
  ac_display :: string
  ac_module :: string
  ac_attr_id :: string
  ac_tpl_ids :: "string list"

text \<open>\<open>Kind\<close> is the empty string where an action does not set it.\<close>

definition blank_action :: "action_type \<Rightarrow> action" where
  "blank_action t = \<lparr>ac_type = t, ac_template = [], ac_attribute = [], ac_name = [], ac_desc = [], ac_kind = KindOther [],
     ac_templates = [], ac_option = [], ac_target = [], ac_display = [], ac_module = [], ac_attr_id = [], ac_tpl_ids = []\<rparr>"

definition action_slug :: "action \<Rightarrow> string" where
  "action_slug a = (if ac_type a = CreateTemplate then ac_template a else ac_attribute a)"

record conflict =
  cf_slug :: string
  cf_module :: string
  cf_expected :: string
  cf_actual :: string

record plan =
  pl_actions :: "action list"
  pl_conflicts :: "conflict list"

definition plan_empty :: "plan \<Rightarrow> bool" where
  "plan_empty p \<longleftrightarrow> pl_actions p = [] \<and> pl_conflicts p = []"

definition pending_step :: "(string, (string, bool) gomap) gomap \<Rightarrow> action \<Rightarrow> (string, (string, bool) gomap) gomap" where
  "pending_step acc a = (if ac_type a \<noteq> AddListOption then acc
     else gm_put (ac_attribute a) (gm_put (ac_option a) True (gm_getd [] acc (ac_attribute a))) acc)"

definition pending_options :: "plan \<Rightarrow> (string, (string, bool) gomap) gomap" where
  "pending_options p = foldl pending_step [] (pl_actions p)"

section \<open>Diff\<close>

text \<open>The template ids an attribute is bound to, from the templates' side.\<close>

definition bound_to :: "current \<Rightarrow> string \<Rightarrow> string list" where
  "bound_to cur aid = concat (map (\<lambda>p. map (\<lambda>_. ct_id (snd p)) (filter (\<lambda>x. x = aid) (ct_attrs (snd p)))) (cu_templates cur))"

definition template_actions :: "desired \<Rightarrow> current \<Rightarrow> action list" where
  "template_actions d cur = map (\<lambda>t. (blank_action CreateTemplate)\<lparr>ac_template := dt_slug t, ac_name := dt_name t, ac_desc := dt_desc t\<rparr>)
     (filter (\<lambda>t. \<not> gm_has (cu_templates cur) (dt_slug t)) (sort_key dt_slug (d_templates d)))"

definition template_slug_of :: "current \<Rightarrow> string \<Rightarrow> string" where
  "template_slug_of cur tid = (case find (\<lambda>p. ct_id (snd p) = tid) (cu_templates cur) of
     Some p \<Rightarrow> fst p | None \<Rightarrow> if tid = [] then ''(none)'' else tid)"

text \<open>What one desired attribute contributes to the plan.\<close>

record plan_parts =
  pp_creates :: "action list"
  pp_refs :: "action list"
  pp_options :: "action list"
  pp_binds :: "action list"
  pp_conflicts :: "conflict list"

definition no_parts :: plan_parts where
  "no_parts = \<lparr>pp_creates = [], pp_refs = [], pp_options = [], pp_binds = [], pp_conflicts = []\<rparr>"

definition option_action :: "desired_attr \<Rightarrow> string \<Rightarrow> string \<Rightarrow> action" where
  "option_action a aid opt = (blank_action AddListOption)\<lparr>ac_attribute := da_slug a, ac_attr_id := aid, ac_option := opt, ac_module := da_module a\<rparr>"

definition create_action :: "desired_attr \<Rightarrow> action" where
  "create_action a = (blank_action CreateAttribute)\<lparr>ac_attribute := da_slug a, ac_name := da_name a, ac_desc := da_desc a,
     ac_kind := da_kind a, ac_templates := sort (da_templates a), ac_module := da_module a, ac_target := da_target a, ac_display := da_display a\<rparr>"

definition bind_action :: "desired_attr \<Rightarrow> string \<Rightarrow> string \<Rightarrow> string list \<Rightarrow> action" where
  "bind_action a aid tpl tids = (blank_action BindAttribute)\<lparr>ac_attribute := da_slug a, ac_attr_id := aid, ac_template := tpl,
     ac_tpl_ids := tids, ac_module := da_module a\<rparr>"

definition create_parts :: "desired_attr \<Rightarrow> plan_parts" where
  "create_parts a = (if da_kind a = KindReference then no_parts\<lparr>pp_refs := [create_action a]\<rparr>
     else no_parts\<lparr>pp_creates := [create_action a], pp_options := map (option_action a []) (da_options a)\<rparr>)"

text \<open>\<open>"reference "\<close>, a right arrow (U+2192) and a space.\<close>

definition reference_to :: string where
  "reference_to = ''reference '' @ map char_of [226::nat, 134, 146] @ '' ''"

definition ref_conflict :: "current \<Rightarrow> desired_attr \<Rightarrow> cur_attribute \<Rightarrow> bool" where
  "ref_conflict cur a x \<longleftrightarrow> da_kind a = KindReference
     \<and> (case gm_get (cu_templates cur) (da_target a) of None \<Rightarrow> True | Some t \<Rightarrow> ca_ref x \<noteq> ct_id t)"

definition bind_step :: "current \<Rightarrow> desired_attr \<Rightarrow> cur_attribute \<Rightarrow> string \<Rightarrow> action list" where
  "bind_step cur a x tpl = (let tids = sort (bound_to cur (ca_id x)) in
     case gm_get (cu_templates cur) tpl of
       None \<Rightarrow> [bind_action a (ca_id x) tpl tids]
     | Some t \<Rightarrow> if ct_id t \<in> set tids then [] else [bind_action a (ca_id x) tpl (sort (tids @ [ct_id t]))])"

definition update_parts :: "current \<Rightarrow> desired_attr \<Rightarrow> cur_attribute \<Rightarrow> plan_parts" where
  "update_parts cur a x = (
     if ca_type x \<noteq> type_of (da_kind a)
     then no_parts\<lparr>pp_conflicts := [\<lparr>cf_slug = da_slug a, cf_module = da_module a, cf_expected = kind_string (da_kind a), cf_actual = ca_type x\<rparr>]\<rparr>
     else if ref_conflict cur a x
     then no_parts\<lparr>pp_conflicts := [\<lparr>cf_slug = da_slug a, cf_module = da_module a,
            cf_expected = reference_to @ da_target a, cf_actual = reference_to @ template_slug_of cur (ca_ref x)\<rparr>]\<rparr>
     else no_parts\<lparr>
            pp_options := (if da_kind a = KindList then map (option_action a (ca_id x)) (filter (\<lambda>opt. opt \<notin> set (ca_options x)) (da_options a)) else []),
            pp_binds := concat (map (bind_step cur a x) (da_templates a))\<rparr>)"

definition attr_parts :: "current \<Rightarrow> desired_attr \<Rightarrow> plan_parts" where
  "attr_parts cur a = (case gm_get (cu_attributes cur) (da_slug a) of None \<Rightarrow> create_parts a | Some x \<Rightarrow> update_parts cur a x)"

definition diff :: "desired \<Rightarrow> current \<Rightarrow> plan" where
  "diff d cur = (let parts = map (attr_parts cur) (sort_key da_slug (d_attributes d)) in
     \<lparr>pl_actions = template_actions d cur @ concat (map pp_creates parts) @ concat (map pp_refs parts) @ concat (map pp_options parts)
        @ sort_key (\<lambda>a. (ac_attribute a, ac_template a)) (concat (map pp_binds parts)),
      pl_conflicts = sort_key cf_slug (concat (map pp_conflicts parts))\<rparr>)"

section \<open>When a project satisfies the desired schema\<close>

definition attr_satisfied :: "current \<Rightarrow> desired_attr \<Rightarrow> bool" where
  "attr_satisfied cur a \<longleftrightarrow> (\<exists>x. gm_get (cu_attributes cur) (da_slug a) = Some x
     \<and> ca_type x = type_of (da_kind a)
     \<and> (da_kind a = KindList \<longrightarrow> set (da_options a) \<subseteq> set (ca_options x))
     \<and> (da_kind a = KindReference \<longrightarrow> (\<exists>t. gm_get (cu_templates cur) (da_target a) = Some t \<and> ca_ref x = ct_id t))
     \<and> (\<forall>tpl \<in> set (da_templates a). \<exists>t. gm_get (cu_templates cur) tpl = Some t
          \<and> (\<exists>slug u. (slug, u) \<in> set (cu_templates cur) \<and> ct_id u = ct_id t \<and> ca_id x \<in> set (ct_attrs u))))"

definition satisfied :: "desired \<Rightarrow> current \<Rightarrow> bool" where
  "satisfied d cur \<longleftrightarrow> (\<forall>t \<in> set (d_templates d). gm_has (cu_templates cur) (dt_slug t)) \<and> (\<forall>a \<in> set (d_attributes d). attr_satisfied cur a)"

lemma set_bound_to: "set (bound_to cur aid) = {ct_id t |slug t. (slug, t) \<in> set (cu_templates cur) \<and> aid \<in> set (ct_attrs t)}"
  by (auto simp: bound_to_def) blast+

lemma bind_step_Nil: "bind_step cur a x tpl = [] \<longleftrightarrow> (\<exists>t. gm_get (cu_templates cur) tpl = Some t \<and> ct_id t \<in> set (bound_to cur (ca_id x)))"
  by (auto simp: bind_step_def Let_def split: option.splits)

definition parts_empty :: "plan_parts \<Rightarrow> bool" where
  "parts_empty p \<longleftrightarrow> pp_creates p = [] \<and> pp_refs p = [] \<and> pp_options p = [] \<and> pp_binds p = [] \<and> pp_conflicts p = []"

lemma attr_parts_empty: "parts_empty (attr_parts cur a) \<longleftrightarrow> attr_satisfied cur a"
proof (cases "gm_get (cu_attributes cur) (da_slug a)")
  case None
  then show ?thesis by (simp add: attr_parts_def create_parts_def attr_satisfied_def parts_empty_def no_parts_def)
next
  case (Some x)
  have ref: "\<not> ref_conflict cur a x \<longleftrightarrow> (da_kind a = KindReference \<longrightarrow> (\<exists>t. gm_get (cu_templates cur) (da_target a) = Some t \<and> ca_ref x = ct_id t))"
    by (auto simp: ref_conflict_def split: option.splits)
  have binds: "concat (map (bind_step cur a x) (da_templates a)) = [] \<longleftrightarrow> (\<forall>tpl \<in> set (da_templates a). \<exists>t. gm_get (cu_templates cur) tpl = Some t
      \<and> (\<exists>slug u. (slug, u) \<in> set (cu_templates cur) \<and> ct_id u = ct_id t \<and> ca_id x \<in> set (ct_attrs u)))"
    unfolding concat_eq_Nil_conv set_map ball_simps bind_step_Nil set_bound_to by (simp; metis)
  have opts: "filter (\<lambda>opt. opt \<notin> set (ca_options x)) (da_options a) = [] \<longleftrightarrow> set (da_options a) \<subseteq> set (ca_options x)"
    by (auto simp: filter_empty_conv)
  have "parts_empty (update_parts cur a x) \<longleftrightarrow> ca_type x = type_of (da_kind a) \<and> \<not> ref_conflict cur a x
      \<and> (da_kind a = KindList \<longrightarrow> filter (\<lambda>opt. opt \<notin> set (ca_options x)) (da_options a) = []) \<and> concat (map (bind_step cur a x) (da_templates a)) = []"
    by (simp add: update_parts_def parts_empty_def no_parts_def del: concat_eq_Nil_conv)
  then show ?thesis unfolding ref opts binds by (simp add: attr_parts_def Some attr_satisfied_def) blast
qed

lemma plan_empty_iff: "plan_empty (diff d cur) \<longleftrightarrow> satisfied d cur"
proof -
  have "plan_empty (diff d cur) \<longleftrightarrow> template_actions d cur = [] \<and> (\<forall>a \<in> set (d_attributes d). parts_empty (attr_parts cur a))"
    by (auto simp: plan_empty_def diff_def parts_empty_def Let_def)
  moreover have "template_actions d cur = [] \<longleftrightarrow> (\<forall>t \<in> set (d_templates d). gm_has (cu_templates cur) (dt_slug t))"
    by (auto simp: template_actions_def filter_empty_conv)
  ultimately show ?thesis by (simp add: satisfied_def attr_parts_empty)
qed

text \<open>
  C7: the plan is empty exactly when the project satisfies the desired schema: every template exists, and
  every attribute exists with its type, its options, a host link's target and a binding to its template.
  So a reconciled project is left alone, and a project that lacks anything never is.
\<close>

theorem diff_empty_iff: "plan_empty (diff d cur) \<longleftrightarrow> satisfied d cur"
  by (rule plan_empty_iff)

end
