(* ===== verification/Settle.thy ===== *)
theory Settle
  imports Prelude
begin

text \<open>
  \<open>internal/settle\<close>: reading until a condition holds or a fixed budget of delays is spent. The read and
  the sleep are functions over a state \<open>'w\<close> that the caller provides; a sleep answers whether the wait
  was completed.
\<close>

definition millisecond :: int where
  "millisecond = 1000000"

definition default_delays :: "int list" where
  "default_delays = map (\<lambda>n. n * millisecond) [100, 200, 400, 800, 1600]"

fun settle_until :: "('w \<Rightarrow> ('e + 'a) \<times> 'w) \<Rightarrow> ('a \<Rightarrow> bool) \<Rightarrow> (int \<Rightarrow> 'w \<Rightarrow> bool \<times> 'w) \<Rightarrow> int list \<Rightarrow> 'w \<Rightarrow> ('e + 'a \<times> bool) \<times> 'w" where
  "settle_until rd ok slp [] w = (case rd w of
       (Inl e, w1) \<Rightarrow> (Inl e, w1)
     | (Inr x, w1) \<Rightarrow> (Inr (x, ok x), w1))"
| "settle_until rd ok slp (d # ds) w = (case rd w of
       (Inl e, w1) \<Rightarrow> (Inl e, w1)
     | (Inr x, w1) \<Rightarrow> if ok x then (Inr (x, True), w1)
         else (case slp d w1 of
             (False, w2) \<Rightarrow> (Inr (x, False), w2)
           | (True, w2) \<Rightarrow> settle_until rd ok slp ds w2))"

lemma until_settled: "fst (settle_until rd ok slp ds w) = Inr (x, b) \<Longrightarrow> b \<longleftrightarrow> ok x"
  by (induction rd ok slp ds w rule: settle_until.induct) (auto split: prod.splits sum.splits if_splits bool.splits)

text \<open>What a read may rely on, a settled read may: an invariant of the states and a fact of the results.\<close>

lemma until_inv:
  assumes "\<And>w r w'. P w \<Longrightarrow> rd w = (r, w') \<Longrightarrow> P w' \<and> (\<forall>x. r = Inr x \<longrightarrow> Q x)" "\<And>d w r w'. P w \<Longrightarrow> slp d w = (r, w') \<Longrightarrow> P w'"
  shows "P w \<Longrightarrow> settle_until rd ok slp ds w = (r, w') \<Longrightarrow> P w' \<and> (\<forall>x b. r = Inr (x, b) \<longrightarrow> Q x)"
proof (induction ds arbitrary: w)
  case Nil
  then show ?case using assms(1) [OF Nil.prems(1)] by (auto split: prod.splits sum.splits)
next
  case (Cons d ds)
  obtain r1 w1 where rd: "rd w = (r1, w1)" by fastforce
  note one = assms(1) [OF Cons.prems(1) rd]
  show ?case
  proof (cases "\<exists>x. r1 = Inr x \<and> \<not> ok x")
    case False
    then show ?thesis using Cons.prems(2) rd one by (auto split: sum.splits)
  next
    case True
    then obtain x where x: "r1 = Inr x" "\<not> ok x" by blast
    obtain b w2 where sl: "slp d w1 = (b, w2)" by fastforce
    then have "P w2" using assms(2) one by blast
    then show ?thesis using Cons rd x sl one by (cases b) auto
  qed
qed

definition counting :: "('w \<Rightarrow> ('e + 'a) \<times> 'w) \<Rightarrow> nat \<times> 'w \<Rightarrow> ('e + 'a) \<times> nat \<times> 'w" where
  "counting rd nw = (case rd (snd nw) of (r, w) \<Rightarrow> (r, Suc (fst nw), w))"

definition sleeping :: "(int \<Rightarrow> 'w \<Rightarrow> bool \<times> 'w) \<Rightarrow> int \<Rightarrow> nat \<times> 'w \<Rightarrow> bool \<times> nat \<times> 'w" where
  "sleeping slp d nw = (case slp d (snd nw) of (b, w) \<Rightarrow> (b, fst nw, w))"

lemma until_reads:
  "settle_until (counting rd) ok (sleeping slp) ds (n, w) = (r, (n', w')) \<Longrightarrow> n < n' \<and> n' \<le> n + 1 + length ds"
proof (induction ds arbitrary: n w)
  case Nil
  then show ?case by (auto simp: counting_def split: prod.splits sum.splits)
next
  case (Cons d ds)
  obtain r1 w1 where rd: "rd w = (r1, w1)" by fastforce
  obtain b w2 where sl: "slp d w1 = (b, w2)" by fastforce
  show ?case using Cons.prems rd sl Cons.IH [of "Suc n" w2]
    by (auto simp: counting_def sleeping_def split: sum.splits if_splits bool.splits)
qed

text \<open>
  Waiting for a write to settle reads once and then at most once per delay, so five times more and
  for at most 3.1 s by default; what it reports as settled satisfies the caller's condition, and what it
  reports as unsettled does not.
\<close>

lemma settle_bounded:
  assumes "settle_until (counting rd) ok (sleeping slp) default_delays (0, w) = (r, (n, w'))"
  shows "1 \<le> n \<and> n \<le> 6 \<and> sum_list default_delays = 3100 * millisecond \<and> (\<forall>x b. r = Inr (x, b) \<longrightarrow> (b \<longleftrightarrow> ok x))"
proof -
  have "0 < n \<and> n \<le> 6" using until_reads [OF assms] by (simp add: default_delays_def)
  moreover have "r = Inr (x, b) \<Longrightarrow> b \<longleftrightarrow> ok x" for x b
    using until_settled [of "counting rd" ok "sleeping slp" default_delays "(0, w)" x b] assms by simp
  ultimately show ?thesis by (simp add: default_delays_def millisecond_def)
qed

lemma settle_bounded_witness:
  "(3::nat) \<le> 6 \<and> (True \<longleftrightarrow> (3::nat) \<le> 3)"
proof -
  have "settle_until (counting (\<lambda>w. (Inr w :: unit + nat, Suc w))) (\<lambda>x. 3 \<le> x) (sleeping (\<lambda>d w. (True, w))) default_delays (0, 1)
      = (Inr (3, True), (3, 4))"
    by (simp add: default_delays_def counting_def sleeping_def)
  from settle_bounded [OF this] show ?thesis by blast
qed

end
