(* ===== verification/Apply.thy ===== *)
theory Apply
  imports Schema Settle
begin

text \<open>
  \<open>internal/schema/apply.go\<close>: executing a plan. The platform is the interface \<open>API\<close> of api.go, a record
  of functions over its own state \<open>'w\<close>; \<open>apply_with\<close> is \<open>ApplyWith\<close>, its loop with the fleet race (a
  create refused as already existing, a settled re-read, a new plan, at most five times) and the
  verification after binds.
\<close>

section \<open>The platform's interface and the ids learned\<close>

datatype schema_error = AlreadyExists string | OtherSchemaError string

record create_attribute_params =
  cp_slug :: string
  cp_name :: string
  cp_desc :: string
  cp_kind :: kind
  cp_templates :: "string list"
  cp_ref_template :: string
  cp_ref_display :: string

record 'w schema_api =
  sa_read :: "'w \<Rightarrow> (schema_error + current) \<times> 'w"
  sa_create_template :: "string \<Rightarrow> string \<Rightarrow> string \<Rightarrow> 'w \<Rightarrow> (schema_error + string) \<times> 'w"
  sa_create_attribute :: "create_attribute_params \<Rightarrow> 'w \<Rightarrow> (schema_error + string) \<times> 'w"
  sa_add_option :: "string \<Rightarrow> string \<Rightarrow> 'w \<Rightarrow> (schema_error + string) \<times> 'w"
  sa_bind :: "string \<Rightarrow> string list \<Rightarrow> 'w \<Rightarrow> (schema_error + unit) \<times> 'w"

record resolved =
  rs_templates :: "(string, string) gomap"
  rs_attributes :: "(string, string) gomap"
  rs_items :: "(string, (string, string) gomap) gomap"

definition resolved_from :: "current \<Rightarrow> resolved" where
  "resolved_from cur = \<lparr>
     rs_templates = map (\<lambda>p. (fst p, ct_id (snd p))) (cu_templates cur),
     rs_attributes = map (\<lambda>p. (fst p, ca_id (snd p))) (cu_attributes cur),
     rs_items = map (\<lambda>p. (fst p, ca_option_ids (snd p))) (filter (\<lambda>p. ca_option_ids (snd p) \<noteq> []) (cu_attributes cur))\<rparr>"

definition put_all :: "('k \<times> 'v) list \<Rightarrow> ('k, 'v) gomap \<Rightarrow> ('k, 'v) gomap" where
  "put_all ps m = foldl (\<lambda>m p. gm_put (fst p) (snd p) m) m ps"

definition merge_items :: "(string, (string, string) gomap) gomap \<Rightarrow> (string, (string, string) gomap) gomap \<Rightarrow> (string, (string, string) gomap) gomap" where
  "merge_items rd own = foldl (\<lambda>m p. gm_put (fst p) (put_all (snd p) (gm_getd [] m (fst p))) m) rd own"

definition merge :: "resolved \<Rightarrow> resolved \<Rightarrow> resolved" where
  "merge rd own = \<lparr>rs_templates = put_all (rs_templates own) (rs_templates rd),
     rs_attributes = put_all (rs_attributes own) (rs_attributes rd), rs_items = merge_items (rs_items rd) (rs_items own)\<rparr>"

section \<open>Executing one action\<close>

datatype exec_error = PlanOrderViolated | ApiFailed schema_error

definition with_result :: "('a \<Rightarrow> resolved) \<Rightarrow> (schema_error + 'a) \<times> 'w \<Rightarrow> (exec_error + resolved) \<times> 'w" where
  "with_result f rw = (case rw of (Inl e, w) \<Rightarrow> (Inl (ApiFailed e), w) | (Inr x, w) \<Rightarrow> (Inr (f x), w))"

definition exec_create_attribute :: "'w schema_api \<Rightarrow> action \<Rightarrow> resolved \<Rightarrow> 'w \<Rightarrow> (exec_error + resolved) \<times> 'w" where
  "exec_create_attribute api a r w = (case those (map (gm_get (rs_templates r)) (ac_templates a)) of
       None \<Rightarrow> (Inl PlanOrderViolated, w)
     | Some tids \<Rightarrow> (
         let ref = ac_kind a = KindReference;
             tgt = (if ref then gm_getd [] (rs_templates r) (ac_target a) else []);
             dsp = (if ref then gm_getd [] (rs_attributes r) (ac_display a) else [])
         in if ref \<and> (tgt = [] \<or> dsp = []) then (Inl PlanOrderViolated, w)
            else with_result (\<lambda>aid. r\<lparr>rs_attributes := gm_put (ac_attribute a) aid (rs_attributes r)\<rparr>)
                   (sa_create_attribute api \<lparr>cp_slug = ac_attribute a, cp_name = ac_name a, cp_desc = ac_desc a, cp_kind = ac_kind a,
                      cp_templates = tids, cp_ref_template = tgt, cp_ref_display = dsp\<rparr> w)))"

definition exec_add_option :: "'w schema_api \<Rightarrow> action \<Rightarrow> resolved \<Rightarrow> 'w \<Rightarrow> (exec_error + resolved) \<times> 'w" where
  "exec_add_option api a r w = (
     let aid = (if ac_attr_id a = [] then gm_getd [] (rs_attributes r) (ac_attribute a) else ac_attr_id a)
     in if aid = [] then (Inl PlanOrderViolated, w)
        else with_result (\<lambda>item. r\<lparr>rs_items := gm_put (ac_attribute a)
               (gm_put (ac_option a) item (gm_getd [] (rs_items r) (ac_attribute a))) (rs_items r)\<rparr>)
               (sa_add_option api aid (ac_option a) w))"

definition exec_bind :: "'w schema_api \<Rightarrow> action \<Rightarrow> resolved \<Rightarrow> 'w \<Rightarrow> (exec_error + resolved) \<times> 'w" where
  "exec_bind api a r w = (case gm_get (rs_templates r) (ac_template a) of
       None \<Rightarrow> (Inl PlanOrderViolated, w)
     | Some tid \<Rightarrow> with_result (\<lambda>_. r)
         (sa_bind api (ac_attr_id a) (sort (if tid \<in> set (ac_tpl_ids a) then ac_tpl_ids a else ac_tpl_ids a @ [tid])) w))"

definition execute :: "'w schema_api \<Rightarrow> action \<Rightarrow> resolved \<Rightarrow> 'w \<Rightarrow> (exec_error + resolved) \<times> 'w" where
  "execute api a r w = (case ac_type a of
       CreateTemplate \<Rightarrow> with_result (\<lambda>tid. r\<lparr>rs_templates := gm_put (ac_template a) tid (rs_templates r)\<rparr>)
         (sa_create_template api (ac_template a) (ac_name a) (ac_desc a) w)
     | CreateAttribute \<Rightarrow> exec_create_attribute api a r w
     | AddListOption \<Rightarrow> exec_add_option api a r w
     | BindAttribute \<Rightarrow> exec_bind api a r w)"

definition exists_in :: "current \<Rightarrow> action \<Rightarrow> bool" where
  "exists_in cur a = (case ac_type a of
       CreateTemplate \<Rightarrow> gm_has (cu_templates cur) (ac_template a)
     | CreateAttribute \<Rightarrow> gm_has (cu_attributes cur) (ac_attribute a)
     | AddListOption \<Rightarrow> (case gm_get (cu_attributes cur) (ac_attribute a) of None \<Rightarrow> False | Some x \<Rightarrow> ac_option a \<in> set (ca_options x))
     | BindAttribute \<Rightarrow> (case (gm_get (cu_templates cur) (ac_template a), gm_get (cu_attributes cur) (ac_attribute a)) of
           (Some t, Some x) \<Rightarrow> ca_id x \<in> set (ct_attrs t) | _ \<Rightarrow> False))"

section \<open>Apply\<close>

text \<open>The key of an action in \<open>notYetDone\<close>: its type and its slug.\<close>

definition done_key :: "action \<Rightarrow> string" where
  "done_key a = action_name (ac_type a) @ '' '' @ action_slug a"

record action_result =
  re_action :: action
  re_skipped :: bool

definition not_yet_done :: "action list \<Rightarrow> action_result list \<Rightarrow> action list" where
  "not_yet_done actions dn = filter (\<lambda>a. ac_type a = BindAttribute \<or> done_key a \<notin> (done_key \<circ> re_action) ` set dn) actions"

record apply_result =
  ap_done :: "action_result list"
  ap_failed :: "action option"
  ap_rereads :: nat
  ap_resolved :: resolved

datatype apply_error =
    Conflicts "conflict list"
  | RereadFailed action schema_error
  | StillAbsent action schema_error
  | ActionFailed action exec_error
  | VerifyFailed schema_error

definition max_rereads :: nat where
  "max_rereads = 5"

text \<open>One fleet race: \<open>e\<close> is the platform's refusal of \<open>a\<close>.\<close>

definition race :: "'w schema_api \<Rightarrow> (int \<Rightarrow> 'w \<Rightarrow> bool \<times> 'w) \<Rightarrow> int list \<Rightarrow> desired \<Rightarrow> action \<Rightarrow> schema_error \<Rightarrow> apply_result \<Rightarrow> 'w
    \<Rightarrow> (apply_error + action list) \<times> apply_result \<times> 'w" where
  "race api slp ds d a e res w = (
     let res1 = res\<lparr>ap_rereads := ap_rereads res + 1\<rparr> in
     case settle_until (sa_read api) (\<lambda>c. exists_in c a) slp ds w of
       (Inl e2, w1) \<Rightarrow> (Inl (RereadFailed a e2), res1\<lparr>ap_failed := Some a\<rparr>, w1)
     | (Inr (fresh, False), w1) \<Rightarrow> (Inl (StillAbsent a e), res1\<lparr>ap_failed := Some a\<rparr>, w1)
     | (Inr (fresh, True), w1) \<Rightarrow> (
         let res2 = res1\<lparr>ap_done := ap_done res1 @ [\<lparr>re_action = a, re_skipped = True\<rparr>]\<rparr>; replan = diff d fresh in
         if pl_conflicts replan \<noteq> [] then (Inl (Conflicts (pl_conflicts replan)), res2\<lparr>ap_failed := Some a\<rparr>, w1)
         else (Inr (not_yet_done (pl_actions replan) (ap_done res2)),
               res2\<lparr>ap_resolved := merge (resolved_from fresh) (ap_resolved res2)\<rparr>, w1)))"

lemma race_rereads: "race api slp ds d a e res w = (r, res', w') \<Longrightarrow> ap_rereads res' = Suc (ap_rereads res)"
  by (auto simp: race_def Let_def split: prod.splits sum.splits bool.splits if_splits)

text \<open>The refusal of a create whose object exists: \<open>errors.Is(err, ErrAlreadyExists)\<close>.\<close>

fun refusal :: "exec_error \<Rightarrow> schema_error option" where
  "refusal (ApiFailed (AlreadyExists m)) = Some (AlreadyExists m)"
| "refusal _ = None"

function apply_loop :: "'w schema_api \<Rightarrow> (int \<Rightarrow> 'w \<Rightarrow> bool \<times> 'w) \<Rightarrow> int list \<Rightarrow> desired \<Rightarrow> action list \<Rightarrow> apply_result \<Rightarrow> bool \<Rightarrow> 'w
    \<Rightarrow> apply_error option \<times> apply_result \<times> bool \<times> 'w" where
  "apply_loop api slp ds d [] res reread w = (None, res, reread, w)"
| "apply_loop api slp ds d (a # rest) res reread w = (case execute api a (ap_resolved res) w of
       (Inr r, w1) \<Rightarrow> apply_loop api slp ds d rest
          (res\<lparr>ap_done := ap_done res @ [\<lparr>re_action = a, re_skipped = False\<rparr>], ap_resolved := r\<rparr>)
          (reread \<or> ac_type a = BindAttribute) w1
     | (Inl e, w1) \<Rightarrow> (case (refusal e, ap_rereads res < max_rereads) of
           (Some x, True) \<Rightarrow> (case race api slp ds d a x res w1 of
               (Inl err, res', w2) \<Rightarrow> (Some err, res', reread, w2)
             | (Inr rem, res', w2) \<Rightarrow> apply_loop api slp ds d rem res' reread w2)
         | _ \<Rightarrow> (Some (ActionFailed a e), res\<lparr>ap_failed := Some a\<rparr>, reread, w1)))"
  by pat_completeness auto
termination
  by (relation "measures [\<lambda>(api, slp, ds, d, as, res, reread, w). max_rereads - ap_rereads res, \<lambda>(api, slp, ds, d, as, res, reread, w). length as]")
    (auto dest!: race_rereads [OF sym])

fun verify_loop :: "'w schema_api \<Rightarrow> action list \<Rightarrow> apply_result \<Rightarrow> 'w \<Rightarrow> apply_error option \<times> apply_result \<times> 'w" where
  "verify_loop api [] res w = (None, res, w)"
| "verify_loop api (a # rest) res w = (
     let dn = res\<lparr>ap_done := ap_done res @ [\<lparr>re_action = a, re_skipped = False\<rparr>]\<rparr> in
     case execute api a (ap_resolved res) w of
       (Inr r, w1) \<Rightarrow> verify_loop api rest (dn\<lparr>ap_resolved := r\<rparr>) w1
     | (Inl e, w1) \<Rightarrow> (case refusal e of
           Some _ \<Rightarrow> verify_loop api rest dn w1
         | None \<Rightarrow> (Some (ActionFailed a e), res\<lparr>ap_failed := Some a\<rparr>, w1)))"

definition verify :: "'w schema_api \<Rightarrow> desired \<Rightarrow> apply_result \<Rightarrow> 'w \<Rightarrow> apply_error option \<times> apply_result \<times> 'w" where
  "verify api d res w = (case sa_read api w of
       (Inl e, w1) \<Rightarrow> (Some (VerifyFailed e), res, w1)
     | (Inr fresh, w1) \<Rightarrow> (
         let res1 = res\<lparr>ap_resolved := merge (resolved_from fresh) (ap_resolved res)\<rparr>; replan = diff d fresh in
         if pl_actions replan \<noteq> [] \<and> pl_conflicts replan = []
         then verify_loop api (not_yet_done (pl_actions replan) (ap_done res1)) res1 w1
         else (None, res1, w1)))"

definition no_resolved :: resolved where
  "no_resolved = \<lparr>rs_templates = [], rs_attributes = [], rs_items = []\<rparr>"

definition start_result :: "resolved \<Rightarrow> apply_result" where
  "start_result r = \<lparr>ap_done = [], ap_failed = None, ap_rereads = 0, ap_resolved = r\<rparr>"

definition apply_with :: "'w schema_api \<Rightarrow> (int \<Rightarrow> 'w \<Rightarrow> bool \<times> 'w) \<Rightarrow> int list \<Rightarrow> desired \<Rightarrow> current \<Rightarrow> 'w
    \<Rightarrow> apply_error option \<times> apply_result \<times> 'w" where
  "apply_with api slp ds d cur w = (let p = diff d cur in
     if pl_conflicts p \<noteq> [] then (Some (Conflicts (pl_conflicts p)), start_result no_resolved, w)
     else (case apply_loop api slp ds d (pl_actions p) (start_result (resolved_from cur)) False w of
         (Some e, res, reread, w1) \<Rightarrow> (Some e, res, w1)
       | (None, res, reread, w1) \<Rightarrow> if reread then verify api d res w1 else (None, res, w1)))"

section \<open>Bounds\<close>

lemma apply_loop_rereads:
  "apply_loop api slp ds d as res reread w = (e, res', rr, w') \<Longrightarrow> ap_rereads res \<le> max_rereads \<Longrightarrow>
    ap_rereads res \<le> ap_rereads res' \<and> ap_rereads res' \<le> max_rereads"
proof (induction api slp ds d as res reread w rule: apply_loop.induct)
  case (1 api slp ds d res reread w)
  then show ?case by simp
next
  case (2 api slp ds d a rest res reread w)
  obtain x w1 where ex: "execute api a (ap_resolved res) w = (x, w1)" by fastforce
  show ?case
  proof (cases x)
    case (Inr r)
    then show ?thesis using 2(2) [OF ex [symmetric] Inr] 2(3,4) ex Inr by auto
  next
    case (Inl er)
    show ?thesis
    proof (cases "refusal er \<noteq> None \<and> ap_rereads res < max_rereads")
      case False
      then have "res' = res\<lparr>ap_failed := Some a\<rparr>" using 2(3) ex Inl by (auto split: option.splits bool.splits)
      then show ?thesis using 2(4) by simp
    next
      case True
      then obtain y where y: "refusal er = Some y" by blast
      obtain q res2 w2 where rc: "race api slp ds d a y res w1 = (q, res2, w2)" by (metis prod_cases3)
      note rr = race_rereads [OF rc]
      show ?thesis
      proof (cases q)
        case (Inl err)
        then show ?thesis using 2(3,4) ex \<open>x = Inl er\<close> y True rc rr by auto
      next
        case (Inr rem)
        have run: "apply_loop api slp ds d rem res2 reread w2 = (e, res', rr, w')"
          using 2(3) ex \<open>x = Inl er\<close> y True rc Inr by simp
        have "ap_rereads res2 \<le> max_rereads" using rr True by simp
        from 2(1) [OF ex [symmetric] \<open>x = Inl er\<close> refl y _ rc [symmetric] Inr refl run this] show ?thesis using rr True by auto
      qed
    qed
  qed
qed

section \<open>The order of a plan\<close>

text \<open>A platform that accepts every write and answers with an id, as it does without a race or a failure.\<close>

definition accepting :: "'w schema_api \<Rightarrow> bool" where
  "accepting api \<longleftrightarrow> (\<forall>s n d w. \<exists>tid w'. sa_create_template api s n d w = (Inr tid, w') \<and> tid \<noteq> [])
     \<and> (\<forall>ps w. \<exists>aid w'. sa_create_attribute api ps w = (Inr aid, w') \<and> aid \<noteq> [])
     \<and> (\<forall>aid opt w. \<exists>item w'. sa_add_option api aid opt w = (Inr item, w') \<and> item \<noteq> [])
     \<and> (\<forall>aid tids w. \<exists>w'. sa_bind api aid tids w = (Inr (), w'))"

definition known :: "resolved \<Rightarrow> string set \<Rightarrow> string set \<Rightarrow> bool" where
  "known r T A \<longleftrightarrow> (\<forall>k. k \<in> T \<longleftrightarrow> gm_has (rs_templates r) k) \<and> (\<forall>k. k \<in> A \<longleftrightarrow> gm_has (rs_attributes r) k)
     \<and> (\<forall>k v. gm_get (rs_templates r) k = Some v \<longrightarrow> v \<noteq> []) \<and> (\<forall>k v. gm_get (rs_attributes r) k = Some v \<longrightarrow> v \<noteq> [])"

definition ready :: "string set \<Rightarrow> string set \<Rightarrow> action \<Rightarrow> bool" where
  "ready T A a = (case ac_type a of
       CreateTemplate \<Rightarrow> True
     | CreateAttribute \<Rightarrow> set (ac_templates a) \<subseteq> T \<and> (ac_kind a = KindReference \<longrightarrow> ac_target a \<in> T \<and> ac_display a \<in> A)
     | AddListOption \<Rightarrow> ac_attr_id a \<noteq> [] \<or> ac_attribute a \<in> A
     | BindAttribute \<Rightarrow> ac_template a \<in> T)"

definition new_templates :: "action \<Rightarrow> string set" where
  "new_templates a = (if ac_type a = CreateTemplate then {ac_template a} else {})"

definition new_attributes :: "action \<Rightarrow> string set" where
  "new_attributes a = (if ac_type a = CreateAttribute then {ac_attribute a} else {})"

fun ordered :: "string set \<Rightarrow> string set \<Rightarrow> action list \<Rightarrow> bool" where
  "ordered T A [] = True"
| "ordered T A (a # as) \<longleftrightarrow> ready T A a \<and> ordered (T \<union> new_templates a) (A \<union> new_attributes a) as"

lemma ordered_append:
  "ordered T A (as @ bs) \<longleftrightarrow> ordered T A as \<and> ordered (T \<union> \<Union> (new_templates ` set as)) (A \<union> \<Union> (new_attributes ` set as)) bs"
  by (induction as arbitrary: T A) (auto simp: Un_assoc)

lemma ordered_all:
  assumes "\<forall>a \<in> set as. ready T A a"
  shows "ordered T A as"
proof -
  have mono: "ready T A a \<Longrightarrow> T \<subseteq> T' \<Longrightarrow> A \<subseteq> A' \<Longrightarrow> ready T' A' a" for T A T' A' a
    by (auto simp: ready_def split: action_type.splits)
  have "\<forall>a \<in> set as. ready T A a \<Longrightarrow> T \<subseteq> T' \<Longrightarrow> A \<subseteq> A' \<Longrightarrow> ordered T' A' as" for T' A'
  proof (induction as arbitrary: T' A')
    case (Cons a as)
    have "ordered (T' \<union> new_templates a) (A' \<union> new_attributes a) as" using Cons by (intro Cons.IH) auto
    then show ?case using Cons.prems mono by auto
  qed simp
  then show ?thesis using assms by blast
qed

lemma known_map:
  assumes "known r T A" "set ks \<subseteq> T"
  shows "\<exists>ids. those (map (gm_get (rs_templates r)) ks) = Some ids"
  using assms(2)
proof (induction ks)
  case (Cons k ks)
  then have "gm_has (rs_templates r) k" using assms(1) by (auto simp: known_def)
  then show ?case using Cons by (auto simp: gm_has_def)
qed simp

lemma execute_ready:
  assumes "accepting api" "known r T A" "ready T A a"
  shows "\<exists>r' w'. execute api a r w = (Inr r', w') \<and> known r' (T \<union> new_templates a) (A \<union> new_attributes a)"
proof (cases "ac_type a")
  case CreateTemplate
  obtain tid w' where "sa_create_template api (ac_template a) (ac_name a) (ac_desc a) w = (Inr tid, w')" "tid \<noteq> []"
    using assms(1) by (metis accepting_def)
  then show ?thesis using assms(2) by (auto simp: execute_def CreateTemplate with_result_def known_def new_templates_def new_attributes_def)
next
  case CreateAttribute
  obtain ids where ids: "those (map (gm_get (rs_templates r)) (ac_templates a)) = Some ids"
    using known_map [OF assms(2), of "ac_templates a"] assms(3) by (auto simp: ready_def CreateAttribute)
  have "ac_kind a = KindReference \<Longrightarrow> gm_getd [] (rs_templates r) (ac_target a) \<noteq> [] \<and> gm_getd [] (rs_attributes r) (ac_display a) \<noteq> []"
    using assms(2,3) by (auto simp: ready_def CreateAttribute known_def gm_has_def gm_getd_def)
  moreover define ps where "ps = \<lparr>cp_slug = ac_attribute a, cp_name = ac_name a, cp_desc = ac_desc a, cp_kind = ac_kind a, cp_templates = ids,
    cp_ref_template = (if ac_kind a = KindReference then gm_getd [] (rs_templates r) (ac_target a) else []),
    cp_ref_display = (if ac_kind a = KindReference then gm_getd [] (rs_attributes r) (ac_display a) else [])\<rparr>"
  moreover obtain aid w' where "sa_create_attribute api ps w = (Inr aid, w')" "aid \<noteq> []"
    using assms(1) unfolding accepting_def by metis
  ultimately show ?thesis using assms(2) ids
    by (auto simp: execute_def CreateAttribute exec_create_attribute_def with_result_def known_def new_templates_def new_attributes_def Let_def)
next
  case AddListOption
  let ?aid = "if ac_attr_id a = [] then gm_getd [] (rs_attributes r) (ac_attribute a) else ac_attr_id a"
  have "?aid \<noteq> []" using assms(2,3) by (auto simp: ready_def AddListOption known_def gm_has_def gm_getd_def)
  moreover obtain item w' where "sa_add_option api ?aid (ac_option a) w = (Inr item, w')" using assms(1) unfolding accepting_def by metis
  ultimately show ?thesis using assms(2)
    by (auto simp: execute_def AddListOption exec_add_option_def with_result_def known_def new_templates_def new_attributes_def Let_def)
next
  case BindAttribute
  then obtain tid where "gm_get (rs_templates r) (ac_template a) = Some tid" using assms(2,3) by (auto simp: ready_def known_def gm_has_def)
  moreover obtain w' where "sa_bind api (ac_attr_id a) (sort (if tid \<in> set (ac_tpl_ids a) then ac_tpl_ids a else ac_tpl_ids a @ [tid])) w = (Inr (), w')"
    using assms(1) unfolding accepting_def by metis
  ultimately show ?thesis using assms(2)
    by (auto simp: execute_def BindAttribute exec_bind_def with_result_def known_def new_templates_def new_attributes_def)
qed

definition done_all :: "action list \<Rightarrow> action_result list" where
  "done_all as = map (\<lambda>a. \<lparr>re_action = a, re_skipped = False\<rparr>) as"

lemma apply_loop_accepting:
  assumes "accepting api"
  shows "known (ap_resolved res) T A \<Longrightarrow> ordered T A as \<Longrightarrow> \<exists>res' rr w'. apply_loop api slp ds d as res reread w = (None, res', rr, w')
    \<and> ap_done res' = ap_done res @ done_all as \<and> ap_rereads res' = ap_rereads res"
proof (induction as arbitrary: T A res reread w)
  case Nil
  then show ?case by (simp add: done_all_def)
next
  case (Cons a as)
  obtain r' w1 where ex: "execute api a (ap_resolved res) w = (Inr r', w1)" and k: "known r' (T \<union> new_templates a) (A \<union> new_attributes a)"
    using execute_ready [OF assms Cons.prems(1), of a w] Cons.prems(2) by auto
  let ?res = "res\<lparr>ap_done := ap_done res @ [\<lparr>re_action = a, re_skipped = False\<rparr>], ap_resolved := r'\<rparr>"
  have "known (ap_resolved ?res) (T \<union> new_templates a) (A \<union> new_attributes a)" "ordered (T \<union> new_templates a) (A \<union> new_attributes a) as"
    using k Cons.prems(2) by auto
  from Cons.IH [OF this, of "reread \<or> ac_type a = BindAttribute" w1] show ?case using ex by (auto simp: done_all_def)
qed

section \<open>Plans from a desired schema\<close>

definition wf_desired :: "desired \<Rightarrow> bool" where
  "wf_desired d \<longleftrightarrow> (\<forall>a \<in> set (d_attributes d). set (da_templates a) \<subseteq> dt_slug ` set (d_templates d)
     \<and> (da_kind a = KindReference \<longrightarrow> da_target a \<in> dt_slug ` set (d_templates d)
         \<and> (\<exists>b \<in> set (d_attributes d). da_kind b \<noteq> KindReference \<and> da_slug b = da_display a)))"

definition wf_current :: "current \<Rightarrow> bool" where
  "wf_current cur \<longleftrightarrow> (\<forall>k t. gm_get (cu_templates cur) k = Some t \<longrightarrow> ct_id t \<noteq> []) \<and> (\<forall>k x. gm_get (cu_attributes cur) k = Some x \<longrightarrow> ca_id x \<noteq> [])"

lemma gm_get_map_snd: "gm_get (map (\<lambda>p. (fst p, f (snd p))) m) k = map_option f (gm_get m k)"
  by (induction m) (auto simp: gm_get_Cons)

lemma known_from: "wf_current cur \<Longrightarrow> known (resolved_from cur) {k. gm_has (cu_templates cur) k} {k. gm_has (cu_attributes cur) k}"
  by (auto simp: known_def resolved_from_def wf_current_def gm_has_def gm_get_map_snd)

lemma bind_step_in: "x \<in> set (bind_step cur a y tpl) \<Longrightarrow> ac_type x = BindAttribute \<and> ac_template x = tpl"
  by (cases "gm_get (cu_templates cur) tpl") (auto simp: bind_step_def bind_action_def blank_action_def Let_def split: if_splits)

lemma parts_ready:
  assumes "wf_desired d" "wf_current cur" "a \<in> set (d_attributes d)"
    and T: "dt_slug ` set (d_templates d) \<subseteq> T"
    and A: "\<And>b. b \<in> set (d_attributes d) \<Longrightarrow> da_kind b \<noteq> KindReference \<Longrightarrow> da_slug b \<in> A"
  shows "x \<in> set (pp_creates (attr_parts cur a)) \<Longrightarrow> ready T A' x \<and> new_attributes x = {da_slug a} \<and> new_templates x = {}"
    and "x \<in> set (pp_refs (attr_parts cur a)) \<Longrightarrow> ready T A x \<and> new_templates x = {}"
    and "x \<in> set (pp_options (attr_parts cur a)) \<Longrightarrow> ready T A x \<and> new_templates x = {} \<and> new_attributes x = {}"
    and "x \<in> set (pp_binds (attr_parts cur a)) \<Longrightarrow> ready T A x"
proof -
  have wfa: "set (da_templates a) \<subseteq> T" "da_kind a = KindReference \<Longrightarrow> da_target a \<in> T \<and> da_display a \<in> A"
    using assms(1,3) T A by (auto simp: wf_desired_def) (metis A)
  note defs = attr_parts_def create_parts_def update_parts_def no_parts_def create_action_def option_action_def bind_action_def
    blank_action_def ready_def new_attributes_def new_templates_def
  show "x \<in> set (pp_creates (attr_parts cur a)) \<Longrightarrow> ready T A' x \<and> new_attributes x = {da_slug a} \<and> new_templates x = {}"
    using wfa by (auto simp: defs split: option.splits if_splits)
  show "x \<in> set (pp_refs (attr_parts cur a)) \<Longrightarrow> ready T A x \<and> new_templates x = {}"
    using wfa by (auto simp: defs split: option.splits if_splits)
  show "x \<in> set (pp_options (attr_parts cur a)) \<Longrightarrow> ready T A x \<and> new_templates x = {} \<and> new_attributes x = {}"
    using A [OF assms(3)] assms(2) by (auto simp: defs wf_current_def split: option.splits if_splits)
  show "x \<in> set (pp_binds (attr_parts cur a)) \<Longrightarrow> ready T A x"
    using wfa by (auto simp: defs dest!: bind_step_in split: option.splits if_splits)
qed

lemma creates_cover:
  assumes "b \<in> set (d_attributes d)" "da_kind b \<noteq> KindReference"
  shows "gm_has (cu_attributes cur) (da_slug b) \<or> (\<exists>x \<in> set (pp_creates (attr_parts cur b)). new_attributes x = {da_slug b})"
  using assms by (auto simp: attr_parts_def create_parts_def no_parts_def create_action_def blank_action_def new_attributes_def gm_has_def split: option.splits)

lemma diff_ordered:
  assumes "wf_desired d" "wf_current cur"
  shows "ordered {k. gm_has (cu_templates cur) k} {k. gm_has (cu_attributes cur) k} (pl_actions (diff d cur))"
proof -
  let ?as = "sort_key da_slug (d_attributes d)" and ?T0 = "{k. gm_has (cu_templates cur) k}" and ?A0 = "{k. gm_has (cu_attributes cur) k}"
  let ?parts = "map (attr_parts cur) ?as"
  define T where "T = ?T0 \<union> \<Union> (new_templates ` set (template_actions d cur))"
  define A where "A = ?A0 \<union> \<Union> (new_attributes ` set (concat (map pp_creates ?parts)))"
  have tpl: "\<forall>x \<in> set (template_actions d cur). ac_type x = CreateTemplate"
    by (auto simp: template_actions_def blank_action_def)
  have T: "dt_slug ` set (d_templates d) \<subseteq> T"
    by (force simp: T_def template_actions_def new_templates_def blank_action_def)
  have A: "da_slug b \<in> A" if "b \<in> set (d_attributes d)" "da_kind b \<noteq> KindReference" for b
    using creates_cover [OF that, of cur] that(1) by (auto simp: A_def)
  note rd = parts_ready [OF assms _ T A]
  have noA: "\<Union> (new_attributes ` set (template_actions d cur)) = {}" using tpl by (auto simp: new_attributes_def)
  have noT: "\<Union> (new_templates ` set (concat (map pp_creates ?parts))) = {}" using rd(1) by fastforce
  have "ordered ?T0 ?A0 (template_actions d cur)" by (rule ordered_all) (use tpl in \<open>auto simp: ready_def\<close>)
  moreover have "ordered T ?A0 (concat (map pp_creates ?parts))" by (rule ordered_all) (use rd(1) in auto)
  moreover have "ordered T A (concat (map pp_refs ?parts) @ concat (map pp_options ?parts)
      @ sort_key (\<lambda>a. (ac_attribute a, ac_template a)) (concat (map pp_binds ?parts)))"
    by (rule ordered_all) (use rd(2-4) in auto)
  ultimately show ?thesis
    by (simp only: diff_def Let_def plan.select_convs ordered_append noA noT T_def [symmetric] A_def [symmetric] Un_empty_right append_assoc)
qed

section \<open>Properties\<close>

text \<open>
  C12: the order of a plan is never violated. For a well-formed desired schema and any current schema
  without conflicts, every action finds the ids it needs: on a platform that accepts the writes, the
  whole plan is executed in order, nothing is skipped, and no step fails for a missing id.
\<close>

theorem plan_executes:
  assumes "accepting api" "wf_desired d" "wf_current cur" "pl_conflicts (diff d cur) = []"
  shows "\<exists>res rr w'. apply_loop api slp ds d (pl_actions (diff d cur)) (start_result (resolved_from cur)) False w = (None, res, rr, w')
    \<and> ap_done res = done_all (pl_actions (diff d cur)) \<and> ap_rereads res = 0"
proof -
  have "known (ap_resolved (start_result (resolved_from cur))) {k. gm_has (cu_templates cur) k} {k. gm_has (cu_attributes cur) k}"
    using known_from [OF assms(3)] by (simp add: start_result_def)
  from apply_loop_accepting [OF assms(1) this diff_ordered [OF assms(2,3)], of slp ds d False w] show ?thesis
    by (simp add: start_result_def)
qed

lemma verify_loop_rereads: "ap_rereads (fst (snd (verify_loop api as res w))) = ap_rereads res"
  by (induction api as res w rule: verify_loop.induct) (auto simp: Let_def split: prod.splits sum.splits option.splits)

text \<open>
  C34: reconciliation is bounded and stops at conflicts: with a conflict in the first plan nothing is
  written and the platform is not even called, and whatever the platform answers, a run terminates with
  at most five re-reads for the fleet race.
\<close>

theorem apply_bounded:
  "(pl_conflicts (diff d cur) \<noteq> [] \<longrightarrow>
      apply_with api slp ds d cur w = (Some (Conflicts (pl_conflicts (diff d cur))), start_result no_resolved, w))
    \<and> ap_rereads (fst (snd (apply_with api slp ds d cur w))) \<le> 5"
proof (cases "pl_conflicts (diff d cur) = []")
  case False
  then show ?thesis by (simp add: apply_with_def start_result_def)
next
  case True
  obtain e res rr w1 where lp: "apply_loop api slp ds d (pl_actions (diff d cur)) (start_result (resolved_from cur)) False w = (e, res, rr, w1)"
    by (metis prod_cases4)
  have "ap_rereads res \<le> 5" using apply_loop_rereads [OF lp] by (simp add: start_result_def max_rereads_def)
  then show ?thesis using True lp
    by (auto simp: apply_with_def verify_def verify_loop_rereads Let_def split: option.splits prod.splits sum.splits)
qed

lemma put_all_get: "gm_ok ps \<Longrightarrow> gm_get (put_all ps m) k = (case gm_get ps k of Some v \<Rightarrow> Some v | None \<Rightarrow> gm_get m k)"
proof (induction ps arbitrary: m)
  case Nil
  then show ?case by (simp add: put_all_def)
next
  case (Cons p ps)
  obtain a b where p: "p = (a, b)" by fastforce
  have "gm_get ps a = None" using Cons.prems by (auto simp: p gm_ok_Cons gm_get_def map_of_eq_None_iff)
  then show ?case using Cons by (auto simp: p put_all_def gm_ok_Cons gm_get_Cons split: option.splits)
qed

lemma merge_items_get:
  "gm_ok own \<Longrightarrow> gm_getd [] (merge_items rd own) k = (case gm_get own k of Some items \<Rightarrow> put_all items (gm_getd [] rd k) | None \<Rightarrow> gm_getd [] rd k)"
proof (induction own arbitrary: rd)
  case Nil
  then show ?case by (simp add: merge_items_def)
next
  case (Cons p own)
  obtain a b where p: "p = (a, b)" by fastforce
  have "gm_get own a = None" using Cons.prems by (auto simp: p gm_ok_Cons gm_get_def map_of_eq_None_iff)
  then show ?case using Cons by (auto simp: p merge_items_def gm_ok_Cons gm_get_Cons split: option.splits)
qed

text \<open>
  Ids learned from this run's own writes survive every re-read: merging keeps each own template,
  attribute and list item id, and adds what only the read knows.
\<close>

lemma merge_keeps_own:
  assumes "gm_ok (rs_templates own)" "gm_ok (rs_attributes own)" "gm_ok (rs_items own)"
    and "\<forall>k items. gm_get (rs_items own) k = Some items \<longrightarrow> gm_ok items"
  shows "gm_get (rs_templates (merge rd own)) k = (case gm_get (rs_templates own) k of Some v \<Rightarrow> Some v | None \<Rightarrow> gm_get (rs_templates rd) k)
    \<and> gm_get (rs_attributes (merge rd own)) k = (case gm_get (rs_attributes own) k of Some v \<Rightarrow> Some v | None \<Rightarrow> gm_get (rs_attributes rd) k)
    \<and> gm_get (gm_getd [] (rs_items (merge rd own)) k) v
      = (case gm_get (gm_getd [] (rs_items own) k) v of Some item \<Rightarrow> Some item | None \<Rightarrow> gm_get (gm_getd [] (rs_items rd) k) v)"
proof -
  have "gm_get (gm_getd [] (rs_items (merge rd own)) k) v
      = (case gm_get (gm_getd [] (rs_items own) k) v of Some item \<Rightarrow> Some item | None \<Rightarrow> gm_get (gm_getd [] (rs_items rd) k) v)"
  proof (cases "gm_get (rs_items own) k")
    case None
    then have "gm_getd [] (rs_items own) k = []" by (simp add: gm_getd_def)
    with None show ?thesis by (simp add: merge_def merge_items_get [OF assms(3)])
  next
    case (Some items)
    then have "gm_getd [] (rs_items own) k = items" "gm_ok items" using assms(4) by (auto simp: gm_getd_def)
    with Some show ?thesis by (simp add: merge_def merge_items_get [OF assms(3)] put_all_get)
  qed
  then show ?thesis using assms(1,2) by (simp add: merge_def put_all_get)
qed

section \<open>An option lost to the fleet race\<close>

text \<open>
  \<open>notYetDone\<close> remembers an added option by its attribute's slug alone, so once one option of an attribute
  was added (or found), a new plan loses every other option of that attribute.
\<close>

lemma option_forgotten:
  assumes "ac_type a = AddListOption" "ac_type b = AddListOption" "ac_attribute a = ac_attribute b" "\<lparr>re_action = b, re_skipped = sk\<rparr> \<in> set dn"
  shows "not_yet_done [a] dn = []"
  using assms by (force simp: not_yet_done_def done_key_def action_slug_def)

text \<open>
  A project with one list attribute, as a platform state: its options. This host plans to add the options
  a, b and c; another host of the fleet adds b first.
\<close>

definition race_attr :: desired_attr where
  "race_attr = \<lparr>da_slug = ''x'', da_name = ''X'', da_desc = [], da_kind = KindList, da_options = [''a'', ''b'', ''c''], da_templates = [''host''],
     da_module = ''m'', da_key = ''x'', da_platforms = [], da_entity = [], da_target = [], da_display = []\<rparr>"

definition race_desired :: desired where
  "race_desired = \<lparr>d_host = ''host'', d_templates = [plain_template ''host'' ''Host'' []], d_attributes = [race_attr]\<rparr>"

definition race_schema :: "string list \<Rightarrow> current" where
  "race_schema opts = \<lparr>cu_templates = [(''host'', \<lparr>ct_id = ''t1'', ct_name = ''Host'', ct_attrs = [''a1'']\<rparr>)],
     cu_attributes = [(''x'', \<lparr>ca_id = ''a1'', ca_name = ''X'', ca_type = ''list'', ca_options = opts, ca_option_ids = [], ca_ref = []\<rparr>)]\<rparr>"

definition race_platform :: "string list schema_api" where
  "race_platform = \<lparr>
     sa_read = (\<lambda>w. (Inr (race_schema w), w)),
     sa_create_template = (\<lambda>s n d w. (Inr ''t'', w)),
     sa_create_attribute = (\<lambda>ps w. (Inr ''a'', w)),
     sa_add_option = (\<lambda>aid opt w. if opt \<in> set w then (Inl (AlreadyExists opt), w) else (Inr opt, w @ [opt])),
     sa_bind = (\<lambda>aid tids w. (Inr (), w))\<rparr>"

lemma race_diff:
  "pl_conflicts (diff race_desired (race_schema w)) = []
    \<and> pl_actions (diff race_desired (race_schema w)) = map (option_action race_attr ''a1'') (filter (\<lambda>opt. opt \<notin> set w) [''a'', ''b'', ''c''])"
  by (simp add: diff_def template_actions_def race_desired_def race_schema_def race_attr_def plain_template_def gm_has_def gm_get_def attr_parts_def
      update_parts_def ref_conflict_def bind_step_def bound_to_def type_of_def kind_string_def no_parts_def Let_def)

text \<open>
  C35: a list option can be lost to the fleet race without an error. When another host adds the option b
  after this run read the schema, the run reports success, yet the option c, which the desired schema
  declares and the project lacks, was never added; the project does not satisfy the desired schema.
\<close>

theorem race_loses_option:
  "\<exists>res. apply_with race_platform (\<lambda>d w. (True, w)) default_delays race_desired (race_schema []) [''b'']
      = (None, res, [''b'', ''a'']) \<and> \<not> satisfied race_desired (race_schema [''b'', ''a''])"
proof -
  let ?opt = "option_action race_attr ''a1''"
  have exec: "execute race_platform (?opt o1) r w = (if o1 \<in> set w then (Inl (ApiFailed (AlreadyExists o1)), w)
      else (Inr (r\<lparr>rs_items := gm_put ''x'' (gm_put o1 o1 (gm_getd [] (rs_items r) ''x'')) (rs_items r)\<rparr>), w @ [o1]))" for o1 r w
    by (simp add: execute_def exec_add_option_def option_action_def blank_action_def race_attr_def race_platform_def with_result_def Let_def)
  have reads: "settle_until (sa_read race_platform) (\<lambda>c. exists_in c (?opt o1)) slp default_delays w = (Inr (race_schema w, True), w)"
    if "o1 \<in> set w" for o1 slp w
    using that by (simp add: default_delays_def race_platform_def exists_in_def option_action_def blank_action_def race_attr_def race_schema_def gm_get_def)
  have lost: "not_yet_done [?opt ''c''] (\<lparr>re_action = ?opt ''a'', re_skipped = s\<rparr> # dn) = []" for s dn
    by (rule option_forgotten [of _ "?opt ''a''" s]) (simp_all add: option_action_def blank_action_def)
  have acts: "pl_actions (diff race_desired (race_schema [])) = [?opt ''a'', ?opt ''b'', ?opt ''c'']"
    "pl_actions (diff race_desired (race_schema [''b'', ''a''])) = [?opt ''c'']"
    using race_diff by simp_all
  have nobind: "ac_type (?opt o1) \<noteq> BindAttribute" for o1 by (simp add: option_action_def blank_action_def)
  have "\<exists>res. apply_with race_platform (\<lambda>d w. (True, w)) default_delays race_desired (race_schema []) [''b''] = (None, res, [''b'', ''a''])"
    by (simp add: apply_with_def race_diff acts exec race_def reads lost nobind start_result_def max_rereads_def Let_def)
  moreover have "\<not> satisfied race_desired (race_schema [''b'', ''a''])"
    using plan_empty_iff [of race_desired "race_schema [''b'', ''a'']"] by (simp add: plan_empty_def acts)
  ultimately show ?thesis by blast
qed

section \<open>Witnesses\<close>

definition kind_platform :: "string list schema_api" where
  "kind_platform = race_platform\<lparr>sa_add_option := (\<lambda>aid opt w. (Inr ''i'', w @ [opt]))\<rparr>"

lemma kind_accepting: "accepting kind_platform"
  by (simp add: accepting_def kind_platform_def race_platform_def)

lemma race_wf: "wf_desired race_desired" "wf_current (race_schema [])"
  by (simp_all add: wf_desired_def wf_current_def race_desired_def race_schema_def race_attr_def plain_template_def gm_get_def)

theorem plan_executes_witness:
  "\<exists>res rr w'. apply_loop kind_platform (\<lambda>d w. (True, w)) [] race_desired (pl_actions (diff race_desired (race_schema [])))
      (start_result (resolved_from (race_schema []))) False [] = (None, res, rr, w')
    \<and> ap_done res = done_all (pl_actions (diff race_desired (race_schema []))) \<and> ap_rereads res = 0"
  by (rule plan_executes [OF kind_accepting race_wf]) (simp add: race_diff)

theorem apply_bounded_witness:
  "ap_rereads (fst (snd (apply_with race_platform (\<lambda>d w. (True, w)) default_delays race_desired (race_schema []) [''b'']))) \<le> 5"
  using apply_bounded [of race_desired "race_schema []" race_platform "\<lambda>d w. (True, w)" default_delays "[''b'']"] by blast

lemma merge_keeps_own_witness:
  "gm_get (rs_templates (merge (resolved_from (race_schema [])) (no_resolved\<lparr>rs_templates := [(''host'', ''t9'')]\<rparr>))) ''host'' = Some ''t9''"
  using merge_keeps_own [of "no_resolved\<lparr>rs_templates := [(''host'', ''t9'')]\<rparr>" "resolved_from (race_schema [])" "''host''" "[]"]
  by (simp add: no_resolved_def gm_ok_def gm_get_def)

end
