(* ===== verification/Samples.thy ===== *)
theory Samples
  imports Resolve Gofloat
begin

text \<open>
  The values of an observation and their validation (internal/collect/validate.go), and the sample
  and target types of internal/collect/buffer.go. A Go \<open>any\<close> is \<open>gvalue\<close>: one constructor per
  dynamic type the code distinguishes; every other type is \<open>VOther\<close> with its name. A \<open>float32\<close>
  is the \<open>float64\<close> it converts to exactly. An instant is its nanoseconds since 1970, in UTC.
\<close>

section \<open>Values\<close>

datatype int_type = GoInt | GoInt8 | GoInt16 | GoInt32 | GoInt64 | GoUint | GoUint8 | GoUint16 | GoUint32 | GoUint64

type_synonym gtime = int

definition zero_time :: gtime where
  "zero_time = - 62135596800000000000"

datatype gvalue = VNil | VString string | VF64 f64 | VF32 f64 | VInt int_type int | VBool bool | VTime gtime | VOther string

text \<open>The canonical value of a sample.\<close>

datatype cvalue = CString string | CNumber f64 | CBool bool | CTime gtime

datatype value_error =
    NilValue
  | WantsString kind gvalue
  | WantsNumber kind gvalue
  | NotFinite kind f64
  | WantsBool gvalue
  | WantsTime kind gvalue
  | ZeroTime kind
  | NotAnOption string "string list"
  | UnknownKind kind

definition to_float :: "gvalue \<Rightarrow> f64 option" where
  "to_float v = (case v of VF64 x \<Rightarrow> Some x | VF32 x \<Rightarrow> Some x | VInt _ i \<Rightarrow> Some (f_of_int i) | _ \<Rightarrow> None)"

definition validate_value :: "kind \<Rightarrow> string list \<Rightarrow> gvalue \<Rightarrow> value_error + cvalue" where
  "validate_value k options v = (
     if v = VNil then Inl NilValue
     else case k of
       KindText \<Rightarrow> (case v of VString s \<Rightarrow> Inr (CString s) | _ \<Rightarrow> Inl (WantsString k v))
     | KindNumber \<Rightarrow> (case to_float v of None \<Rightarrow> Inl (WantsNumber k v) | Some f \<Rightarrow> if is_fin f then Inr (CNumber f) else Inl (NotFinite k f))
     | KindMetric \<Rightarrow> (case to_float v of None \<Rightarrow> Inl (WantsNumber k v) | Some f \<Rightarrow> if is_fin f then Inr (CNumber f) else Inl (NotFinite k f))
     | KindBoolean \<Rightarrow> (case v of VBool b \<Rightarrow> Inr (CBool b) | _ \<Rightarrow> Inl (WantsBool v))
     | KindDate \<Rightarrow> (case v of VTime t \<Rightarrow> if t = zero_time then Inl (ZeroTime k) else Inr (CTime t) | _ \<Rightarrow> Inl (WantsTime k v))
     | KindDatetime \<Rightarrow> (case v of VTime t \<Rightarrow> if t = zero_time then Inl (ZeroTime k) else Inr (CTime t) | _ \<Rightarrow> Inl (WantsTime k v))
     | KindList \<Rightarrow> (case v of VString s \<Rightarrow> if s \<in> set options then Inr (CString s) else Inl (NotAnOption s options) | _ \<Rightarrow> Inl (WantsString k v))
     | _ \<Rightarrow> Inl (UnknownKind k))"

text \<open>The canonical type of each kind: what every buffered sample carries.\<close>

fun value_of_kind :: "kind \<Rightarrow> string list \<Rightarrow> cvalue \<Rightarrow> bool" where
  "value_of_kind KindText _ (CString _) = True"
| "value_of_kind KindList opts (CString s) = (s \<in> set opts)"
| "value_of_kind KindNumber _ (CNumber f) = is_fin f"
| "value_of_kind KindMetric _ (CNumber f) = is_fin f"
| "value_of_kind KindBoolean _ (CBool _) = True"
| "value_of_kind KindDate _ (CTime t) = (t \<noteq> zero_time)"
| "value_of_kind KindDatetime _ (CTime t) = (t \<noteq> zero_time)"
| "value_of_kind _ _ _ = False"

lemma validate_value_typed: "validate_value k opts v = Inr c \<Longrightarrow> value_of_kind k opts c"
  by (cases k) (auto simp: validate_value_def split: gvalue.splits option.splits if_splits)

text \<open>A value that has its kind's canonical type passes unchanged.\<close>

definition plain_value :: "cvalue \<Rightarrow> gvalue" where
  "plain_value c = (case c of CString s \<Rightarrow> VString s | CNumber f \<Rightarrow> VF64 f | CBool b \<Rightarrow> VBool b | CTime t \<Rightarrow> VTime t)"

lemma validate_value_plain: "value_of_kind k opts c \<Longrightarrow> validate_value k opts (plain_value c) = Inr c"
  by (cases k; cases c) (auto simp: validate_value_def plain_value_def to_float_def)

text \<open>
  \<open>Validate\<close> returns exactly the canonical values: whatever it accepts has the type of the
  attribute's kind (a finite number, a non-zero instant, one of the list's options, never a value for
  a reference), and every such value is accepted as it is.
\<close>

lemma validate_canonical:
  "(\<exists>v. validate_value k opts v = Inr c) \<longleftrightarrow> value_of_kind k opts c"
  using validate_value_typed validate_value_plain by blast

section \<open>Targets\<close>

text \<open>An entity a sample belongs to: module, resolved template slug and key; the zero value is the host.\<close>

datatype target = Target (tg_module: string) (tg_template: string) (tg_key: string)

definition host_target :: target where
  "host_target = Target [] [] []"

definition is_host_target :: "target \<Rightarrow> bool" where
  "is_host_target t \<longleftrightarrow> t = host_target"

text \<open>The order of \<open>Buffers.Targets\<close>: by module, then template, then key.\<close>

definition target_before :: "target \<Rightarrow> target \<Rightarrow> bool" where
  "target_before a c \<longleftrightarrow> (if tg_module a \<noteq> tg_module c then tg_module a < tg_module c
     else if tg_template a \<noteq> tg_template c then tg_template a < tg_template c
     else tg_key a < tg_key c)"

instantiation target :: linorder
begin

definition less_target :: "target \<Rightarrow> target \<Rightarrow> bool" where
  "less_target a c \<longleftrightarrow> target_before a c"

definition less_eq_target :: "target \<Rightarrow> target \<Rightarrow> bool" where
  "less_eq_target a c \<longleftrightarrow> a = c \<or> a < c"

instance
proof
  fix a c e :: target
  show "(a < c) = (a \<le> c \<and> \<not> c \<le> a)" by (cases a; cases c) (auto simp: less_target_def target_before_def less_eq_target_def)
  show "a \<le> a" by (simp add: less_eq_target_def)
  show "a \<le> c \<Longrightarrow> c \<le> e \<Longrightarrow> a \<le> e"
    by (cases a; cases c; cases e) (auto simp: less_target_def target_before_def less_eq_target_def split: if_splits)
  show "a \<le> c \<Longrightarrow> c \<le> a \<Longrightarrow> a = c" by (cases a; cases c) (auto simp: less_target_def target_before_def less_eq_target_def split: if_splits)
  show "a \<le> c \<or> c \<le> a" by (cases a; cases c) (auto simp: less_target_def target_before_def less_eq_target_def)
qed

end

section \<open>Samples\<close>

record sample =
  sm_module :: string
  sm_key :: string
  sm_slug :: string
  sm_kind :: kind
  sm_value :: cvalue
  sm_at :: gtime
  sm_target :: target

definition is_metric :: "sample \<Rightarrow> bool" where
  "is_metric s \<longleftrightarrow> sm_kind s = KindMetric"

end
