(* ===== verification/Buffer.thy ===== *)
theory Buffer
  imports Samples
begin

text \<open>
  \<open>internal/collect/buffer.go\<close>: the samples held between publishes. A dimension keeps its latest
  sample; a metric keeps a queue bounded at \<open>max\<close>, with the number of samples ever removed from its
  front so that indexes stay absolute. The mutex makes every operation one atomic step, so a
  concurrent history is a sequence of operations. \<open>removed\<close> and the batch's \<open>start\<close> are \<open>uint64\<close>
  in the code and natural numbers here: they count samples one by one, and a process would have to
  remove 2^64 of them before the two differ.
\<close>

section \<open>State\<close>

record queue =
  q_items :: "sample list"
  q_removed :: nat

record buffer =
  bf_max :: nat
  bf_dims :: "(string, sample) gomap"
  bf_metrics :: "(string, queue) gomap"
  bf_drops :: "(string, int) gomap"

record batch =
  bt_dims :: "sample list"
  bt_metrics :: "sample list"
  bt_start :: "(string, nat) gomap"

record ack =
  ak_dims :: "string list"
  ak_metrics :: "(string, int) gomap"

definition default_max_per_metric :: nat where
  "default_max_per_metric = 5000"

definition empty_queue :: queue where
  "empty_queue = \<lparr>q_items = [], q_removed = 0\<rparr>"

definition batch_empty :: "batch \<Rightarrow> bool" where
  "batch_empty b \<longleftrightarrow> bt_dims b = [] \<and> bt_metrics b = []"

definition new_buffer :: "int \<Rightarrow> buffer" where
  "new_buffer n = \<lparr>bf_max = (if n \<le> 0 then default_max_per_metric else nat n), bf_dims = [], bf_metrics = [], bf_drops = []\<rparr>"

section \<open>Operations\<close>

definition buffer_add :: "sample \<Rightarrow> buffer \<Rightarrow> buffer" where
  "buffer_add s b = (
     if \<not> is_metric s then b\<lparr>bf_dims := gm_put (sm_slug s) s (bf_dims b)\<rparr>
     else (let q = gm_getd empty_queue (bf_metrics b) (sm_slug s) in
       if bf_max b \<le> length (q_items q)
       then b\<lparr>bf_metrics := gm_put (sm_slug s) \<lparr>q_items = tl (q_items q) @ [s], q_removed = Suc (q_removed q)\<rparr> (bf_metrics b),
              bf_drops := gm_inc (sm_slug s) (bf_drops b)\<rparr>
       else b\<lparr>bf_metrics := gm_put (sm_slug s) (q\<lparr>q_items := q_items q @ [s]\<rparr>) (bf_metrics b)\<rparr>))"

definition buffer_empty :: "buffer \<Rightarrow> bool" where
  "buffer_empty b \<longleftrightarrow> bf_dims b = [] \<and> list_all (\<lambda>p. q_items (snd p) = []) (bf_metrics b)"

definition pending_slugs :: "buffer \<Rightarrow> string list" where
  "pending_slugs b = sort (map fst (filter (\<lambda>p. q_items (snd p) \<noteq> []) (bf_metrics b)))"

definition queue_of :: "buffer \<Rightarrow> string \<Rightarrow> queue" where
  "queue_of b slug = gm_getd empty_queue (bf_metrics b) slug"

definition snapshot :: "buffer \<Rightarrow> batch" where
  "snapshot b = \<lparr>bt_dims = sort_key sm_slug (map snd (bf_dims b)),
     bt_metrics = concat (map (\<lambda>slug. q_items (queue_of b slug)) (pending_slugs b)),
     bt_start = map (\<lambda>slug. (slug, q_removed (queue_of b slug))) (pending_slugs b)\<rparr>"

text \<open>\<open>snap[slug]\<close> reads as the zero time for a slug the batch did not hold.\<close>

definition snap_time :: "batch \<Rightarrow> string \<Rightarrow> gtime" where
  "snap_time bt slug = gm_getd zero_time (foldl (\<lambda>m s. gm_put (sm_slug s) (sm_at s) m) [] (bt_dims bt)) slug"

definition ack_dim :: "batch \<Rightarrow> buffer \<Rightarrow> string \<Rightarrow> buffer" where
  "ack_dim bt b slug = (case gm_get (bf_dims b) slug of
       Some cur \<Rightarrow> if sm_at cur = snap_time bt slug then b\<lparr>bf_dims := gm_del slug (bf_dims b)\<rparr> else b
     | None \<Rightarrow> b)"

definition ack_queue :: "nat \<Rightarrow> int \<Rightarrow> queue \<Rightarrow> queue" where
  "ack_queue start n q = (
     let e = start + nat n in
     if e \<le> q_removed q then q
     else (let drp = min (e - q_removed q) (length (q_items q))
       in \<lparr>q_items = drop drp (q_items q), q_removed = q_removed q + drp\<rparr>))"

definition ack_metric :: "batch \<Rightarrow> buffer \<Rightarrow> string \<times> int \<Rightarrow> buffer" where
  "ack_metric bt b sn = (case sn of (slug, n) \<Rightarrow>
     case (gm_get (bf_metrics b) slug, gm_get (bt_start bt) slug) of
       (Some q, Some start) \<Rightarrow> if n \<le> 0 then b else b\<lparr>bf_metrics := gm_put slug (ack_queue start n q) (bf_metrics b)\<rparr>
     | _ \<Rightarrow> b)"

definition buffer_ack :: "batch \<Rightarrow> ack \<Rightarrow> buffer \<Rightarrow> buffer" where
  "buffer_ack bt a b = foldl (ack_metric bt) (foldl (ack_dim bt) b (ak_dims a)) (ak_metrics a)"

definition buffer_drops :: "buffer \<Rightarrow> (string, int) gomap \<times> buffer" where
  "buffer_drops b = (bf_drops b, b\<lparr>bf_drops := []\<rparr>)"

section \<open>The invariant\<close>

definition buffer_ok :: "buffer \<Rightarrow> bool" where
  "buffer_ok b \<longleftrightarrow> 0 < bf_max b \<and> gm_ok (bf_dims b) \<and> gm_ok (bf_metrics b) \<and> gm_ok (bf_drops b)
     \<and> (\<forall>slug s. gm_get (bf_dims b) slug = Some s \<longrightarrow> sm_slug s = slug \<and> \<not> is_metric s)
     \<and> (\<forall>slug. length (q_items (queue_of b slug)) \<le> bf_max b
          \<and> (\<forall>s \<in> set (q_items (queue_of b slug)). sm_slug s = slug \<and> is_metric s))"

lemma buffer_ok_new: "buffer_ok (new_buffer n)"
  by (auto simp: buffer_ok_def new_buffer_def default_max_per_metric_def queue_of_def empty_queue_def)

lemma queue_of_add:
  "queue_of (buffer_add s b) slug = (let q = queue_of b slug in
     if is_metric s \<and> slug = sm_slug s
     then (if bf_max b \<le> length (q_items q) then \<lparr>q_items = tl (q_items q) @ [s], q_removed = Suc (q_removed q)\<rparr>
           else q\<lparr>q_items := q_items q @ [s]\<rparr>)
     else q)"
  by (auto simp: buffer_add_def queue_of_def Let_def)

lemma dims_add: "bf_dims (buffer_add s b) = (if is_metric s then bf_dims b else gm_put (sm_slug s) s (bf_dims b))"
  by (auto simp: buffer_add_def Let_def)

lemma max_add [simp]: "bf_max (buffer_add s b) = bf_max b"
  by (auto simp: buffer_add_def Let_def)

lemma gm_ok_add: "gm_ok (bf_metrics b) \<Longrightarrow> gm_ok (bf_metrics (buffer_add s b))"
  "gm_ok (bf_drops b) \<Longrightarrow> gm_ok (bf_drops (buffer_add s b))"
  by (auto simp: buffer_add_def Let_def)

lemma buffer_ok_add: "buffer_ok b \<Longrightarrow> buffer_ok (buffer_add s b)"
proof -
  assume ok: "buffer_ok b"
  have "length (q_items (queue_of (buffer_add s b) slug)) \<le> bf_max b
      \<and> (\<forall>x \<in> set (q_items (queue_of (buffer_add s b) slug)). sm_slug x = slug \<and> is_metric x)" for slug
  proof -
    have q: "length (q_items (queue_of b slug)) \<le> bf_max b"
      "\<forall>x \<in> set (q_items (queue_of b slug)). sm_slug x = slug \<and> is_metric x" "0 < bf_max b"
      using ok by (auto simp: buffer_ok_def)
    have "set (tl (q_items (queue_of b slug))) \<subseteq> set (q_items (queue_of b slug))" by (cases "q_items (queue_of b slug)") auto
    with q show ?thesis by (auto simp: queue_of_add Let_def)
  qed
  then show ?thesis using ok by (auto simp: buffer_ok_def dims_add gm_ok_add)
qed

lemma ack_dim_queue [simp]: "queue_of (ack_dim bt b x) slug = queue_of b slug" "bf_max (ack_dim bt b x) = bf_max b"
  "bf_drops (ack_dim bt b x) = bf_drops b" "bf_metrics (ack_dim bt b x) = bf_metrics b"
  by (auto simp: ack_dim_def queue_of_def split: option.splits)

lemma buffer_ok_ack_dim: "buffer_ok b \<Longrightarrow> buffer_ok (ack_dim bt b x)"
  unfolding buffer_ok_def ack_dim_queue by (auto simp: ack_dim_def split: option.splits)

lemma ack_queue_items: "q_items (ack_queue start n q) = drop (start + nat n - q_removed q) (q_items q)"
  by (auto simp: ack_queue_def Let_def min_def)

lemma ack_queue_removed:
  "q_removed (ack_queue start n q) = max (q_removed q) (min (start + nat n) (q_removed q + length (q_items q)))"
  by (auto simp: ack_queue_def Let_def min_def max_def)

lemma queue_of_ack_metric:
  "queue_of (ack_metric bt b (x, n)) slug = (case gm_get (bt_start bt) slug of
     Some start \<Rightarrow> if slug = x \<and> gm_has (bf_metrics b) x \<and> 0 < n then ack_queue start n (queue_of b slug) else queue_of b slug
   | None \<Rightarrow> queue_of b slug)"
  by (auto simp: ack_metric_def queue_of_def gm_has_def gm_getd_def split: option.splits)

lemma ack_metric_other [simp]: "bf_dims (ack_metric bt b p) = bf_dims b" "bf_max (ack_metric bt b p) = bf_max b"
  "bf_drops (ack_metric bt b p) = bf_drops b"
  by (auto simp: ack_metric_def split: option.splits prod.splits)

lemma buffer_ok_ack_metric: "buffer_ok b \<Longrightarrow> buffer_ok (ack_metric bt b p)"
proof -
  assume ok: "buffer_ok b"
  obtain x n where p: "p = (x, n)" by fastforce
  have "gm_ok (bf_metrics (ack_metric bt b p))" using ok by (auto simp: ack_metric_def buffer_ok_def split: option.splits prod.splits)
  moreover have "length (q_items (queue_of (ack_metric bt b p) slug)) \<le> bf_max b
      \<and> (\<forall>s \<in> set (q_items (queue_of (ack_metric bt b p) slug)). sm_slug s = slug \<and> is_metric s)" for slug
  proof -
    have "length (q_items (queue_of b slug)) \<le> bf_max b" "\<forall>s \<in> set (q_items (queue_of b slug)). sm_slug s = slug \<and> is_metric s"
      using ok by (auto simp: buffer_ok_def)
    then show ?thesis
      by (auto simp: p queue_of_ack_metric ack_queue_items dest: in_set_dropD split: option.splits)
  qed
  ultimately show ?thesis using ok by (simp add: buffer_ok_def)
qed

lemma buffer_ok_ack: "buffer_ok b \<Longrightarrow> buffer_ok (buffer_ack bt a b)"
proof -
  have "buffer_ok b \<Longrightarrow> buffer_ok (foldl (ack_dim bt) b xs)" for b xs
    by (induction xs arbitrary: b) (auto simp: buffer_ok_ack_dim)
  moreover have "buffer_ok b \<Longrightarrow> buffer_ok (foldl (ack_metric bt) b xs)" for b xs
    by (induction xs arbitrary: b) (auto simp: buffer_ok_ack_metric)
  ultimately show "buffer_ok b \<Longrightarrow> ?thesis" by (simp add: buffer_ack_def)
qed

lemma buffer_ok_drops: "buffer_ok b \<Longrightarrow> buffer_ok (snd (buffer_drops b))"
  by (auto simp: buffer_ok_def buffer_drops_def queue_of_def)

section \<open>The contract: histories and how much of them is gone\<close>

text \<open>
  What a buffer promises, without its representation: per metric the samples ever added and how
  many of the first are gone, per dimension the latest sample. Adding makes the oldest go when more
  than \<open>max\<close> would be left; an acknowledgement makes what the batch held up to the accepted count go.
\<close>

record abuffer =
  ab_hist :: "string \<Rightarrow> sample list"
  ab_gone :: "string \<Rightarrow> nat"
  ab_dim :: "string \<Rightarrow> sample option"

datatype buffer_op = OpAdd sample | OpAck batch ack | OpDrops

fun op_ok :: "buffer_op \<Rightarrow> bool" where
  "op_ok (OpAck bt a) = gm_ok (ak_metrics a)"
| "op_ok _ = True"

definition buffer_step :: "buffer \<Rightarrow> buffer_op \<Rightarrow> buffer" where
  "buffer_step b op = (case op of OpAdd s \<Rightarrow> buffer_add s b | OpAck bt a \<Rightarrow> buffer_ack bt a b | OpDrops \<Rightarrow> snd (buffer_drops b))"

definition ab_add :: "nat \<Rightarrow> sample \<Rightarrow> abuffer \<Rightarrow> abuffer" where
  "ab_add mx s ab = (if is_metric s
     then ab\<lparr>ab_hist := (ab_hist ab)(sm_slug s := ab_hist ab (sm_slug s) @ [s]),
             ab_gone := (ab_gone ab)(sm_slug s := max (ab_gone ab (sm_slug s)) (Suc (length (ab_hist ab (sm_slug s))) - mx))\<rparr>
     else ab\<lparr>ab_dim := (ab_dim ab)(sm_slug s := Some s)\<rparr>)"

definition ab_ack :: "batch \<Rightarrow> ack \<Rightarrow> abuffer \<Rightarrow> abuffer" where
  "ab_ack bt a ab = ab\<lparr>
     ab_gone := (\<lambda>slug. case (gm_get (ak_metrics a) slug, gm_get (bt_start bt) slug) of
         (Some n, Some start) \<Rightarrow> max (ab_gone ab slug) (min (start + nat n) (length (ab_hist ab slug)) * of_bool (0 < n))
       | _ \<Rightarrow> ab_gone ab slug),
     ab_dim := (\<lambda>slug. case ab_dim ab slug of
         Some cur \<Rightarrow> if slug \<in> set (ak_dims a) \<and> sm_at cur = snap_time bt slug then None else Some cur
       | None \<Rightarrow> None)\<rparr>"

definition ab_step :: "nat \<Rightarrow> abuffer \<Rightarrow> buffer_op \<Rightarrow> abuffer" where
  "ab_step mx ab op = (case op of OpAdd s \<Rightarrow> ab_add mx s ab | OpAck bt a \<Rightarrow> ab_ack bt a ab | OpDrops \<Rightarrow> ab)"

definition ab_init :: abuffer where
  "ab_init = \<lparr>ab_hist = (\<lambda>_. []), ab_gone = (\<lambda>_. 0), ab_dim = (\<lambda>_. None)\<rparr>"

definition buffer_abs :: "buffer \<Rightarrow> abuffer \<Rightarrow> bool" where
  "buffer_abs b ab \<longleftrightarrow> (\<forall>slug. gm_get (bf_dims b) slug = ab_dim ab slug)
     \<and> (\<forall>slug. q_items (queue_of b slug) = drop (ab_gone ab slug) (ab_hist ab slug)
          \<and> q_removed (queue_of b slug) = ab_gone ab slug \<and> ab_gone ab slug \<le> length (ab_hist ab slug))"

lemma buffer_abs_init: "buffer_abs (new_buffer n) ab_init"
  by (simp add: buffer_abs_def new_buffer_def ab_init_def queue_of_def empty_queue_def)

lemma buffer_abs_add:
  assumes "buffer_abs b ab" "buffer_ok b"
  shows "buffer_abs (buffer_add s b) (ab_add (bf_max b) s ab)"
proof -
  have "q_items (queue_of (buffer_add s b) slug) = drop (ab_gone (ab_add (bf_max b) s ab) slug) (ab_hist (ab_add (bf_max b) s ab) slug)
      \<and> q_removed (queue_of (buffer_add s b) slug) = ab_gone (ab_add (bf_max b) s ab) slug
      \<and> ab_gone (ab_add (bf_max b) s ab) slug \<le> length (ab_hist (ab_add (bf_max b) s ab) slug)" for slug
  proof -
    let ?h = "ab_hist ab slug" and ?g = "ab_gone ab slug" and ?q = "queue_of b slug"
    have q: "q_items ?q = drop ?g ?h" "q_removed ?q = ?g" "?g \<le> length ?h" using assms(1) by (auto simp: buffer_abs_def)
    have len: "length ?h - ?g \<le> bf_max b" "0 < bf_max b" using assms(2) q(1) by (auto simp: buffer_ok_def dest: spec [of _ slug])
    show ?thesis
    proof (cases "is_metric s \<and> slug = sm_slug s")
      case True
      show ?thesis
      proof (cases "bf_max b \<le> length (q_items ?q)")
        case full: True
        have "?g < length ?h" and g: "max ?g (Suc (length ?h) - bf_max b) = Suc ?g" using full len q by auto
        then have "tl (drop ?g ?h) @ [s] = drop (Suc ?g) (?h @ [s])" by (simp add: drop_Suc tl_drop)
        then show ?thesis using True full q g \<open>?g < length ?h\<close> by (auto simp: queue_of_add ab_add_def Let_def)
      next
        case False
        have g: "max ?g (Suc (length ?h) - bf_max b) = ?g" using False len q by auto
        show ?thesis using True False q g by (auto simp: queue_of_add ab_add_def Let_def)
      qed
    next
      case False
      then show ?thesis using q by (auto simp: queue_of_add ab_add_def Let_def)
    qed
  qed
  then show ?thesis using assms(1) by (auto simp: buffer_abs_def dims_add ab_add_def)
qed

lemma ack_dims_get:
  "gm_get (bf_dims (foldl (ack_dim bt) b xs)) slug = (case gm_get (bf_dims b) slug of
     Some cur \<Rightarrow> if slug \<in> set xs \<and> sm_at cur = snap_time bt slug then None else Some cur
   | None \<Rightarrow> None)"
proof (induction xs arbitrary: b)
  case Nil
  then show ?case by (auto split: option.splits)
next
  case (Cons x xs)
  show ?case unfolding foldl.simps Cons.IH by (auto simp: ack_dim_def split: option.splits)
qed

lemma ack_dims_other [simp]: "queue_of (foldl (ack_dim bt) b xs) slug = queue_of b slug"
  "bf_metrics (foldl (ack_dim bt) b xs) = bf_metrics b"
  by (induction xs arbitrary: b) auto

lemma ack_metrics_dims [simp]: "bf_dims (foldl (ack_metric bt) b xs) = bf_dims b"
  by (induction xs arbitrary: b) auto

lemma has_ack_metric [simp]: "gm_has (bf_metrics (ack_metric bt b p)) slug = gm_has (bf_metrics b) slug"
  by (auto simp: ack_metric_def gm_has_def split: option.splits prod.splits)

lemma ack_metrics_queue:
  "gm_ok xs \<Longrightarrow> queue_of (foldl (ack_metric bt) b xs) slug = (case (gm_get xs slug, gm_get (bt_start bt) slug) of
     (Some n, Some start) \<Rightarrow> if gm_has (bf_metrics b) slug \<and> 0 < n then ack_queue start n (queue_of b slug) else queue_of b slug
   | _ \<Rightarrow> queue_of b slug)"
proof (induction xs arbitrary: b)
  case Nil
  then show ?case by simp
next
  case (Cons p xs)
  obtain x n where p: "p = (x, n)" by fastforce
  have rest: "gm_ok xs" "slug = x \<Longrightarrow> gm_get xs slug = None"
    using Cons.prems by (auto simp: p gm_ok_Cons gm_get_def map_of_eq_None_iff)
  show ?case
    unfolding foldl.simps Cons.IH [OF rest(1)] using rest(2)
    by (auto simp: p queue_of_ack_metric gm_get_Cons split: option.splits)
qed

lemma queue_of_absent: "\<not> gm_has (bf_metrics b) slug \<Longrightarrow> queue_of b slug = empty_queue"
  by (simp add: queue_of_def gm_getd_def gm_has_def)

lemma buffer_abs_ack:
  assumes "buffer_abs b ab" "gm_ok (ak_metrics a)"
  shows "buffer_abs (buffer_ack bt a b) (ab_ack bt a ab)"
proof -
  have "q_items (queue_of (buffer_ack bt a b) slug) = drop (ab_gone (ab_ack bt a ab) slug) (ab_hist (ab_ack bt a ab) slug)
      \<and> q_removed (queue_of (buffer_ack bt a b) slug) = ab_gone (ab_ack bt a ab) slug
      \<and> ab_gone (ab_ack bt a ab) slug \<le> length (ab_hist (ab_ack bt a ab) slug)" for slug
  proof -
    let ?h = "ab_hist ab slug" and ?g = "ab_gone ab slug" and ?q = "queue_of b slug"
    have q: "q_items ?q = drop ?g ?h" "q_removed ?q = ?g" "?g \<le> length ?h" using assms(1) by (auto simp: buffer_abs_def)
    have absent: "?h = []" if "\<not> gm_has (bf_metrics b) slug"
      using queue_of_absent [OF that] q by (simp add: empty_queue_def)
    have cut: "drop (k - ?g + ?g) ?h = drop (max ?g (min k (length ?h))) ?h" for k
      using q(3) by (auto simp: max_def min_def)
    show ?thesis using q absent
      by (auto simp: buffer_ack_def ack_metrics_queue [OF assms(2)] ab_ack_def ack_queue_items ack_queue_removed cut
          split: option.splits)
  qed
  then show ?thesis using assms(1) by (auto simp: buffer_abs_def buffer_ack_def ack_dims_get ab_ack_def)
qed

lemma buffer_abs_step:
  assumes "buffer_abs b ab" "buffer_ok b" "op_ok op"
  shows "buffer_abs (buffer_step b op) (ab_step (bf_max b) ab op)"
  using assms by (cases op)
    (auto simp: buffer_step_def ab_step_def buffer_abs_add buffer_abs_ack, simp add: buffer_abs_def buffer_drops_def queue_of_def)

lemma max_ack [simp]: "bf_max (buffer_ack bt a b) = bf_max b"
proof -
  have "bf_max (foldl (ack_dim bt) b xs) = bf_max b" for xs by (induction xs arbitrary: b) auto
  moreover have "bf_max (foldl (ack_metric bt) b xs) = bf_max b" for b xs by (induction xs arbitrary: b) auto
  ultimately show ?thesis by (simp add: buffer_ack_def)
qed

lemma buffer_step_ok: "buffer_ok b \<Longrightarrow> buffer_ok (buffer_step b op) \<and> bf_max (buffer_step b op) = bf_max b"
  by (cases op) (auto simp: buffer_step_def buffer_ok_add buffer_ok_ack buffer_ok_drops, simp add: buffer_drops_def)


section \<open>Publishing: snapshot, concurrent adds, acknowledgement\<close>

definition adds :: "string \<Rightarrow> sample list \<Rightarrow> sample list" where
  "adds slug ss = filter (\<lambda>s. is_metric s \<and> sm_slug s = slug) ss"

lemma adds_queue:
  assumes "buffer_ok b"
  shows "q_items (queue_of (foldl (\<lambda>b s. buffer_add s b) b ss) slug)
      = drop (length (q_items (queue_of b slug) @ adds slug ss) - bf_max b) (q_items (queue_of b slug) @ adds slug ss)
    \<and> q_removed (queue_of (foldl (\<lambda>b s. buffer_add s b) b ss) slug)
      = q_removed (queue_of b slug) + (length (q_items (queue_of b slug) @ adds slug ss) - bf_max b)
    \<and> gm_getd 0 (bf_drops (foldl (\<lambda>b s. buffer_add s b) b ss)) slug
      = gm_getd 0 (bf_drops b) slug + int (length (q_items (queue_of b slug) @ adds slug ss) - bf_max b)"
  using assms
proof (induction ss arbitrary: b)
  case Nil
  then have "length (q_items (queue_of b slug)) \<le> bf_max b" by (auto simp: buffer_ok_def)
  then show ?case by (simp add: adds_def)
next
  case (Cons s ss)
  let ?q = "queue_of b slug"
  have len: "length (q_items ?q) \<le> bf_max b" "0 < bf_max b" using Cons.prems by (auto simp: buffer_ok_def)
  have drops: "gm_getd 0 (bf_drops (buffer_add s b)) slug = gm_getd 0 (bf_drops b) slug
      + of_bool (is_metric s \<and> slug = sm_slug s \<and> bf_max b \<le> length (q_items ?q))"
    by (auto simp: buffer_add_def queue_of_def Let_def)
  note IH = Cons.IH [OF buffer_ok_add [OF Cons.prems], of s]
  show ?case
  proof (cases "is_metric s \<and> slug = sm_slug s")
    case True
    then have a: "adds slug (s # ss) = s # adds slug ss" by (simp add: adds_def)
    show ?thesis
    proof (cases "bf_max b \<le> length (q_items ?q)")
      case full: True
      then obtain x xs where q: "q_items ?q = x # xs" using len by (cases "q_items ?q") auto
      define L where "L = xs @ s # adds slug ss"
      have "length xs + 1 = bf_max b" using full len q by simp
      then have n: "length L - bf_max b = length (adds slug ss)" "Suc (length L) - bf_max b = Suc (length (adds slug ss))"
        by (auto simp: L_def)
      have new: "q_items (queue_of (buffer_add s b) slug) @ adds slug ss = L"
        "q_removed (queue_of (buffer_add s b) slug) = Suc (q_removed ?q)"
        using True full q by (auto simp: queue_of_add L_def Let_def)
      have old: "q_items ?q @ adds slug (s # ss) = x # L" by (simp add: a q L_def)
      show ?thesis unfolding old foldl.simps using IH [unfolded new] n drops True full by simp
    next
      case False
      then show ?thesis unfolding a using IH True drops by (simp add: queue_of_add Let_def)
    qed
  next
    case False
    then have "adds slug (s # ss) = adds slug ss" by (auto simp: adds_def)
    then show ?thesis using IH False drops by (auto simp: queue_of_add Let_def)
  qed
qed

lemma snapshot_start:
  assumes "buffer_ok b"
  shows "gm_get (bt_start (snapshot b)) slug = (if q_items (queue_of b slug) = [] then None else Some (q_removed (queue_of b slug)))"
proof -
  have mem: "slug \<in> set (pending_slugs b) \<longleftrightarrow> q_items (queue_of b slug) \<noteq> []"
  proof -
    have "slug \<in> set (pending_slugs b) \<longleftrightarrow> (\<exists>q. (slug, q) \<in> set (bf_metrics b) \<and> q_items q \<noteq> [])"
      by (auto simp: pending_slugs_def image_iff)
    also have "\<dots> \<longleftrightarrow> (\<exists>q. gm_get (bf_metrics b) slug = Some q \<and> q_items q \<noteq> [])"
      using assms by (meson buffer_ok_def gm_get_in gm_in_get)
    also have "\<dots> \<longleftrightarrow> q_items (queue_of b slug) \<noteq> []"
      by (auto simp: queue_of_def gm_getd_def empty_queue_def split: option.splits)
    finally show ?thesis .
  qed
  have "map_of (map (\<lambda>x. (x, f x)) xs) slug = (if slug \<in> set xs then Some (f slug) else None)" for xs and f :: "string \<Rightarrow> nat"
    by (induction xs) auto
  then show ?thesis using mem by (simp add: snapshot_def gm_get_def)
qed

lemma ack_queue_exact:
  assumes "buffer_ok b" "gm_ok (ak_metrics a)" "gm_getd 0 (ak_metrics a) slug = int n"
    and "n \<le> length (q_items (queue_of b slug))"
  shows "let xs = q_items (queue_of b slug) @ adds slug ss;
             b' = buffer_ack (snapshot b) a (foldl (\<lambda>b s. buffer_add s b) b ss)
         in q_items (queue_of b' slug) = drop (max n (length xs - bf_max b)) xs"
proof -
  let ?xs = "q_items (queue_of b slug) @ adds slug ss" and ?b = "foldl (\<lambda>b s. buffer_add s b) b ss"
  note add = adds_queue [OF assms(1), of ss slug]
  have ack: "queue_of (buffer_ack (snapshot b) a ?b) slug
      = (case gm_get (bt_start (snapshot b)) slug of
           Some start \<Rightarrow> if gm_has (bf_metrics ?b) slug \<and> 0 < n then ack_queue start (int n) (queue_of ?b slug) else queue_of ?b slug
         | None \<Rightarrow> queue_of ?b slug)"
    using assms(3) by (auto simp: buffer_ack_def ack_metrics_queue [OF assms(2)] gm_getd_def split: option.splits)
  show ?thesis
  proof (cases "n = 0")
    case True
    then show ?thesis using add by (simp add: ack split: option.splits)
  next
    case False
    then have ne: "q_items (queue_of b slug) \<noteq> []" using assms(4) by auto
    have "gm_has (bf_metrics b) slug" using ne queue_of_absent [of b slug] by (metis empty_queue_def queue.select_convs(1))
    then have has: "gm_has (bf_metrics ?b) slug"
    proof (induction ss arbitrary: b)
      case (Cons s ss)
      have "gm_has (bf_metrics (buffer_add s b)) slug" using Cons.prems by (auto simp: buffer_add_def Let_def)
      then show ?case using Cons.IH by simp
    qed simp
    have "q_items (queue_of (buffer_ack (snapshot b) a ?b) slug)
        = drop (n - (length ?xs - bf_max b)) (drop (length ?xs - bf_max b) ?xs)"
      using add ne False by (simp del: drop_append drop_drop length_append add: ack snapshot_start [OF assms(1)] has ack_queue_items)
    also have "\<dots> = drop (max n (length ?xs - bf_max b)) ?xs" by (auto simp: max_def simp del: drop_append length_append)
    finally show ?thesis by (simp add: Let_def)
  qed
qed

text \<open>
  C10: an acknowledgement removes exactly what was accepted. Take a snapshot, add any samples while
  the publish is in flight, then acknowledge the first \<open>n\<close> samples of a metric: what stays is the
  snapshot's samples followed by the new ones, without the accepted prefix, or without the longer
  prefix that the bound already dropped. So no accepted sample is sent again, no unaccepted sample
  is lost except to the bound, and dropped samples are not counted twice.
\<close>

theorem ack_exact:
  assumes "buffer_ok b" "gm_ok (ak_metrics a)" "gm_get (ak_metrics a) slug = Some (int n)"
    and "n \<le> length (q_items (queue_of b slug))"
  shows "let xs = q_items (queue_of b slug) @ adds slug ss;
             b' = buffer_ack (snapshot b) a (foldl (\<lambda>b s. buffer_add s b) b ss)
         in q_items (queue_of b' slug) = drop (max n (length xs - bf_max b)) xs"
  using assms(3) by (intro ack_queue_exact [OF assms(1,2) _ assms(4)]) (simp add: gm_getd_def)

definition latest :: "string \<Rightarrow> sample option \<Rightarrow> sample list \<Rightarrow> sample option" where
  "latest slug old ss = (case filter (\<lambda>s. \<not> is_metric s \<and> sm_slug s = slug) (rev ss) of [] \<Rightarrow> old | s # _ \<Rightarrow> Some s)"

lemma latest_simps:
  "latest slug old [] = old"
  "latest slug old (s # ss) = latest slug (if \<not> is_metric s \<and> sm_slug s = slug then Some s else old) ss"
  by (auto simp: latest_def split: list.splits)

lemma adds_dims: "gm_get (bf_dims (foldl (\<lambda>b s. buffer_add s b) b ss)) slug = latest slug (gm_get (bf_dims b) slug) ss"
  by (induction ss arbitrary: b) (auto simp: latest_simps dims_add)

lemma snap_time_get:
  assumes "buffer_ok b"
  shows "snap_time (snapshot b) slug = (case gm_get (bf_dims b) slug of Some s \<Rightarrow> sm_at s | None \<Rightarrow> zero_time)"
proof -
  have put: "gm_getd z (foldl (\<lambda>m s. gm_put (sm_slug s) (sm_at s) m) m ss) k
      = (case find (\<lambda>s. sm_slug s = k) ss of Some s \<Rightarrow> sm_at s | None \<Rightarrow> gm_getd z m k)"
    if "distinct (map sm_slug ss)" for ss m k and z :: gtime
    using that
  proof (induction ss arbitrary: m)
    case (Cons s ss)
    have "sm_slug x \<noteq> sm_slug s" if "x \<in> set ss" for x using Cons.prems that by simp (metis image_eqI)
    then have "find (\<lambda>x. sm_slug x = sm_slug s) ss = None" by (rule find_None_I)
    then have "sm_slug s = k \<Longrightarrow> find (\<lambda>s. sm_slug s = k) ss = None" by simp
    then show ?case using Cons by (auto split: option.splits)
  qed simp
  have slugs: "map sm_slug (map snd (bf_dims b)) = map fst (bf_dims b)"
    using assms by (auto simp: buffer_ok_def gm_in_get)
  then have dist: "distinct (map sm_slug (map snd (bf_dims b)))" using assms by (simp only: slugs) (simp add: buffer_ok_def gm_ok_def)
  let ?ds = "sort_key sm_slug (map snd (bf_dims b))"
  have "distinct (map sm_slug ?ds)" using dist by (metis distinct_map distinct_sort set_sort)
  note put = put [OF this, of zero_time "[]" slug]
  have "find (\<lambda>s. sm_slug s = slug) ?ds = gm_get (bf_dims b) slug"
  proof (cases "gm_get (bf_dims b) slug")
    case None
    then have "slug \<notin> set (map sm_slug (map snd (bf_dims b)))" unfolding slugs by (metis gm_has_def gm_has_iff list.set_map)
    then have "\<forall>s \<in> set ?ds. sm_slug s \<noteq> slug" by (simp only: set_sort set_map) blast
    then have "find (\<lambda>s. sm_slug s = slug) ?ds = None" by (intro find_None_I) blast
    then show ?thesis using None by simp
  next
    case (Some s)
    then have "s \<in> snd ` set (bf_dims b)" by (metis gm_get_in image_eqI snd_conv)
    then have s: "s \<in> set ?ds" "sm_slug s = slug" using assms Some by (simp_all add: buffer_ok_def)
    then obtain s' where s': "find (\<lambda>s. sm_slug s = slug) ?ds = Some s'" using find_None_D [of _ ?ds s] by (cases "find (\<lambda>s. sm_slug s = slug) ?ds") auto
    then have "s' \<in> set ?ds" "sm_slug s' = slug" using find_SomeD [OF s'] by simp_all
    moreover have "inj_on sm_slug (set ?ds)" using dist by (simp only: distinct_map set_sort)
    ultimately have "s' = s" using s by (metis inj_onD)
    then show ?thesis using Some s' by simp
  qed
  then show ?thesis using put by (simp add: snap_time_def snapshot_def split: option.splits)
qed

text \<open>
  A dimension published while newer ones arrive is not lost. After the snapshot, the adds and the
  acknowledgement, a slug holds its latest sample, unless that slug was accepted and the latest sample
  is as old as the one that was sent.
\<close>

lemma ack_keeps_newer:
  assumes "buffer_ok b"
  shows "gm_get (bf_dims (buffer_ack (snapshot b) a (foldl (\<lambda>b s. buffer_add s b) b ss))) slug =
    (case latest slug (gm_get (bf_dims b) slug) ss of
       None \<Rightarrow> None
     | Some cur \<Rightarrow> if slug \<in> set (ak_dims a)
           \<and> sm_at cur = (case gm_get (bf_dims b) slug of Some old \<Rightarrow> sm_at old | None \<Rightarrow> zero_time)
         then None else Some cur)"
  by (simp add: buffer_ack_def ack_dims_get adds_dims snap_time_get [OF assms] split: option.split)

lemma pending_distinct: "buffer_ok b \<Longrightarrow> distinct (pending_slugs b)"
  by (auto simp: pending_slugs_def buffer_ok_def gm_ok_def distinct_map filter_map comp_def intro: inj_on_subset)

lemma set_pending:
  assumes "buffer_ok b"
  shows "slug \<in> set (pending_slugs b) \<longleftrightarrow> q_items (queue_of b slug) \<noteq> []"
  using snapshot_start [OF assms, of slug]
  by (auto simp: snapshot_def gm_get_def comp_def map_of_eq_None_iff image_iff split: if_splits dest!: map_of_SomeD)

lemma snapshot_parts:
  assumes "buffer_ok b"
  shows "(batch_empty (snapshot b) \<longleftrightarrow> buffer_empty b)
    \<and> sorted (map sm_slug (bt_dims (snapshot b))) \<and> sorted (map sm_slug (bt_metrics (snapshot b)))
    \<and> set (bt_dims (snapshot b)) = snd ` set (bf_dims b)
    \<and> filter (\<lambda>s. sm_slug s = slug) (bt_metrics (snapshot b)) = q_items (queue_of b slug)"
proof -
  have slugs: "\<forall>s \<in> set (q_items (queue_of b x)). sm_slug s = x" for x using assms by (auto simp: buffer_ok_def)
  have seg: "filter (\<lambda>s. sm_slug s = slug) (concat (map (\<lambda>x. q_items (queue_of b x)) xs))
      = (if slug \<in> set xs then q_items (queue_of b slug) else [])" if "distinct xs" for xs
    using that
  proof (induction xs)
    case (Cons x xs)
    have "filter (\<lambda>s. sm_slug s = slug) (q_items (queue_of b x)) = (if x = slug then q_items (queue_of b x) else [])"
      using slugs [of x] by (auto simp: filter_id_conv filter_empty_conv)
    then show ?case using Cons by auto
  qed simp
  have "filter (\<lambda>s. sm_slug s = slug) (bt_metrics (snapshot b)) = q_items (queue_of b slug)"
    using seg [OF pending_distinct [OF assms]] set_pending [OF assms, of slug] by (auto simp: snapshot_def)
  moreover have "sorted (map sm_slug (concat (map (\<lambda>x. q_items (queue_of b x)) xs)))" if "sorted xs" for xs
    using that slugs
  proof (induction xs)
    case (Cons x xs)
    have "map sm_slug (q_items (queue_of b x)) = replicate (length (q_items (queue_of b x))) x"
      using slugs [of x] by (simp add: map_replicate_const cong: map_cong)
    then show ?case using Cons by (auto simp: sorted_append)
  qed simp
  then have "sorted (map sm_slug (bt_metrics (snapshot b)))" by (simp add: snapshot_def pending_slugs_def)
  moreover have "batch_empty (snapshot b) \<longleftrightarrow> buffer_empty b"
  proof -
    have "bt_metrics (snapshot b) = [] \<longleftrightarrow> pending_slugs b = []"
      using set_pending [OF assms] by (cases "pending_slugs b") (auto simp: snapshot_def)
    also have "\<dots> \<longleftrightarrow> filter (\<lambda>p. q_items (snd p) \<noteq> []) (bf_metrics b) = []"
      by (simp only: pending_slugs_def set_empty [symmetric] set_sort set_map image_is_empty)
    also have "\<dots> \<longleftrightarrow> list_all (\<lambda>p. q_items (snd p) = []) (bf_metrics b)"
      by (auto simp: filter_empty_conv list_all_iff)
    finally show ?thesis by (simp add: batch_empty_def buffer_empty_def snapshot_def)
  qed
  ultimately show ?thesis by (simp add: snapshot_def)
qed

text \<open>
  A snapshot is complete and orderly: a batch is empty exactly when the buffer is, its dimensions
  are the buffer's, sorted by slug, and its samples of each metric are that metric's whole queue in
  collection order.
\<close>

lemma snapshot_complete:
  assumes "buffer_ok b"
  shows "(batch_empty (snapshot b) \<longleftrightarrow> buffer_empty b)
    \<and> sorted (map sm_slug (bt_dims (snapshot b))) \<and> sorted (map sm_slug (bt_metrics (snapshot b)))
    \<and> set (bt_dims (snapshot b)) = snd ` set (bf_dims b)
    \<and> filter (\<lambda>s. sm_slug s = slug) (bt_metrics (snapshot b)) = q_items (queue_of b slug)"
  by (rule snapshot_parts [OF assms])

section \<open>An example: a full metric and a dimension in flight\<close>

definition example_metric :: "gtime \<Rightarrow> sample" where
  "example_metric t = \<lparr>sm_module = ''cpu'', sm_key = ''load'', sm_slug = ''cpu_load'', sm_kind = KindMetric,
     sm_value = CNumber (Fin 1), sm_at = t, sm_target = host_target\<rparr>"

definition example_dim :: "gtime \<Rightarrow> sample" where
  "example_dim t = \<lparr>sm_module = ''os'', sm_key = ''name'', sm_slug = ''os_name'', sm_kind = KindText,
     sm_value = CString ''linux'', sm_at = t, sm_target = host_target\<rparr>"

definition example_buffer :: buffer where
  "example_buffer = foldl (\<lambda>b s. buffer_add s b) (new_buffer 2) [example_metric 1, example_metric 2, example_dim 3]"

definition example_ack :: ack where
  "example_ack = \<lparr>ak_dims = [''os_name''], ak_metrics = [(''cpu_load'', 2)]\<rparr>"

lemma example_buffer_ok: "buffer_ok example_buffer"
  by (simp add: example_buffer_def buffer_ok_add buffer_ok_new)

lemma example_facts: "is_metric (example_metric t)" "sm_slug (example_metric t) = ''cpu_load''"
  "\<not> is_metric (example_dim t)" "sm_slug (example_dim t) = ''os_name''" "sm_at (example_dim t) = t"
  by (simp_all add: is_metric_def example_metric_def example_dim_def)

lemma queue_of_new: "queue_of (new_buffer n) slug = empty_queue" "bf_max (new_buffer 2) = 2"
  by (simp_all add: queue_of_def new_buffer_def)

lemma example_queue: "q_items (queue_of example_buffer ''cpu_load'') = [example_metric 1, example_metric 2]"
  by (simp add: example_buffer_def queue_of_add example_facts queue_of_new empty_queue_def Let_def)

lemma example_max: "bf_max example_buffer = 2"
  by (simp add: example_buffer_def new_buffer_def)

lemma example_dims: "gm_get (bf_dims example_buffer) ''os_name'' = Some (example_dim 3)"
  by (simp add: example_buffer_def dims_add example_facts)


theorem ack_exact_witness:
  "q_items (queue_of (buffer_ack (snapshot example_buffer) example_ack (buffer_add (example_metric 5) example_buffer)) ''cpu_load'')
    = [example_metric 5]"
proof -
  have "gm_ok (ak_metrics example_ack)" "gm_get (ak_metrics example_ack) ''cpu_load'' = Some (int 2)"
    by (simp_all add: example_ack_def gm_ok_def gm_get_def)
  moreover have "adds ''cpu_load'' [example_metric 5] = [example_metric 5]"
    by (simp add: adds_def example_facts)
  ultimately show ?thesis
    using ack_exact [OF example_buffer_ok, of example_ack "''cpu_load''" 2 "[example_metric 5]"]
    by (simp add: example_queue example_max Let_def)
qed

lemma ack_keeps_newer_witness:
  "gm_get (bf_dims (buffer_ack (snapshot example_buffer) example_ack (buffer_add (example_dim 7) example_buffer))) ''os_name''
    = Some (example_dim 7)"
  using ack_keeps_newer [OF example_buffer_ok, of example_ack "[example_dim 7]" "''os_name''"]
  by (simp add: latest_simps example_dims example_facts)

lemma snapshot_complete_witness:
  "\<not> batch_empty (snapshot example_buffer)"
  using snapshot_complete [OF example_buffer_ok, of "''cpu_load''"] example_queue
  by (auto simp: batch_empty_def)

end
