(* ===== verification/Buffers.thy ===== *)
theory Buffers
  imports Buffer
begin

text \<open>
  \<open>internal/collect/buffers.go\<close>: the host's buffer and one per module-owned entity, at most 256
  entities per module; and the contract of \<open>collect.Sink\<close>, which the scheduler feeds, as the locale
  \<open>sink\<close> with its two providers.
\<close>

section \<open>The contract of a sink\<close>

text \<open>
  What feeding samples to a sink may do: it keeps the sink's invariant, what is pending under a key
  (the place a sample goes to) comes from what was pending or was added there, and other keys are
  left alone.
\<close>

locale sink =
  fixes add :: "sample \<Rightarrow> 's \<Rightarrow> 's"
    and inv :: "'s \<Rightarrow> bool"
    and place :: "sample \<Rightarrow> 'k"
    and pending :: "'s \<Rightarrow> 'k \<Rightarrow> sample list"
  assumes add_inv: "inv st \<Longrightarrow> inv (add s st)"
    and add_from: "inv st \<Longrightarrow> set (pending (add s st) (place s)) \<subseteq> insert s (set (pending st (place s)))"
    and add_other: "inv st \<Longrightarrow> k \<noteq> place s \<Longrightarrow> pending (add s st) k = pending st k"
begin

lemma feed_inv: "inv st \<Longrightarrow> inv (foldl (\<lambda>st s. add s st) st ss)"
  by (induction ss arbitrary: st) (auto simp: add_inv)

lemma feed_from:
  "inv st \<Longrightarrow> set (pending (foldl (\<lambda>st s. add s st) st ss) k) \<subseteq> set (pending st k) \<union> {s \<in> set ss. place s = k}"
proof (induction ss arbitrary: st)
  case (Cons s ss)
  have "set (pending (add s st) k) \<subseteq> set (pending st k) \<union> {x. x = s \<and> place x = k}"
    using add_from [OF Cons.prems, of s] add_other [OF Cons.prems, of k s] by (cases "k = place s") auto
  then show ?case using Cons.IH [OF add_inv [OF Cons.prems], of s] by auto
qed simp

lemma feed_other: "inv st \<Longrightarrow> k \<notin> place ` set ss \<Longrightarrow> pending (foldl (\<lambda>st s. add s st) st ss) k = pending st k"
  by (induction ss arbitrary: st) (auto simp: add_inv add_other)

end

definition dim_list :: "buffer \<Rightarrow> string \<Rightarrow> sample list" where
  "dim_list b slug = (case gm_get (bf_dims b) slug of None \<Rightarrow> [] | Some s \<Rightarrow> [s])"

text \<open>What one buffer holds for a slug: its dimension and its queue.\<close>

definition buffer_pending :: "buffer \<Rightarrow> string \<Rightarrow> sample list" where
  "buffer_pending b slug = dim_list b slug @ q_items (queue_of b slug)"

lemma buffer_pending_add:
  "set (buffer_pending (buffer_add s b) (sm_slug s)) \<subseteq> insert s (set (buffer_pending b (sm_slug s)))"
  "slug \<noteq> sm_slug s \<Longrightarrow> buffer_pending (buffer_add s b) slug = buffer_pending b slug"
proof -
  have "set (tl (q_items (queue_of b (sm_slug s)))) \<subseteq> set (q_items (queue_of b (sm_slug s)))"
    by (cases "q_items (queue_of b (sm_slug s))") auto
  then show "set (buffer_pending (buffer_add s b) (sm_slug s)) \<subseteq> insert s (set (buffer_pending b (sm_slug s)))"
    by (auto simp: buffer_pending_def dim_list_def queue_of_add dims_add Let_def split: if_splits option.splits)
  show "slug \<noteq> sm_slug s \<Longrightarrow> buffer_pending (buffer_add s b) slug = buffer_pending b slug"
    by (simp add: buffer_pending_def dim_list_def queue_of_add dims_add)
qed

interpretation buffer_sink: sink buffer_add buffer_ok sm_slug buffer_pending
  by unfold_locales (auto simp: buffer_ok_add buffer_pending_add dest: subsetD [OF buffer_pending_add(1)])

section \<open>Buffers\<close>

definition max_keys_per_module :: int where
  "max_keys_per_module = 256"

text \<open>\<open>max\<close> is kept as it was given: \<open>NewBuffer\<close> reads a non-positive one as the default.\<close>

record buffers =
  bs_max :: int
  bs_host :: buffer
  bs_targets :: "(target, buffer) gomap"
  bs_keys :: "(string, int) gomap"
  bs_warned :: "(string, bool) gomap"

definition new_buffers :: "int \<Rightarrow> buffers" where
  "new_buffers n = \<lparr>bs_max = n, bs_host = new_buffer n, bs_targets = [], bs_keys = [], bs_warned = []\<rparr>"

text \<open>\<open>Add\<close> with the warning it logs, if any.\<close>

definition buffers_add_log :: "sample \<Rightarrow> buffers \<Rightarrow> bool \<times> buffers" where
  "buffers_add_log s b = (let t = sm_target s; m = tg_module t in
     if is_host_target t then (False, b\<lparr>bs_host := buffer_add s (bs_host b)\<rparr>)
     else (case gm_get (bs_targets b) t of
         Some buf \<Rightarrow> (False, b\<lparr>bs_targets := gm_put t (buffer_add s buf) (bs_targets b)\<rparr>)
       | None \<Rightarrow>
           if max_keys_per_module \<le> gm_getd 0 (bs_keys b) m
           then (\<not> gm_on (bs_warned b) m, b\<lparr>bs_warned := gm_put m True (bs_warned b)\<rparr>)
           else (False, b\<lparr>bs_targets := gm_put t (buffer_add s (new_buffer (bs_max b))) (bs_targets b),
                         bs_keys := gm_inc m (bs_keys b)\<rparr>)))"

definition buffers_add :: "sample \<Rightarrow> buffers \<Rightarrow> buffers" where
  "buffers_add s b = snd (buffers_add_log s b)"

definition targets :: "buffers \<Rightarrow> target list" where
  "targets b = gm_keys (bs_targets b)"

definition buffer_for :: "buffers \<Rightarrow> target \<Rightarrow> buffer option" where
  "buffer_for b t = gm_get (bs_targets b) t"

definition buffers_empty :: "buffers \<Rightarrow> bool" where
  "buffers_empty b \<longleftrightarrow> buffer_empty (bs_host b)
     \<and> list_all (\<lambda>t. case buffer_for b t of Some x \<Rightarrow> buffer_empty x | None \<Rightarrow> True) (targets b)"

record drop_count =
  dc_target :: target
  dc_slug :: string
  dc_dropped :: int

definition drops_of :: "target \<Rightarrow> (string, int) gomap \<Rightarrow> drop_count list" where
  "drops_of t m = map (\<lambda>slug. \<lparr>dc_target = t, dc_slug = slug, dc_dropped = gm_getd 0 m slug\<rparr>) (gm_keys m)"

definition drain_target :: "drop_count list \<times> buffers \<Rightarrow> target \<Rightarrow> drop_count list \<times> buffers" where
  "drain_target st t = (case st of (out, b) \<Rightarrow> (case gm_get (bs_targets b) t of
       None \<Rightarrow> (out, b)
     | Some x \<Rightarrow> (out @ drops_of t (fst (buffer_drops x)), b\<lparr>bs_targets := gm_put t (snd (buffer_drops x)) (bs_targets b)\<rparr>)))"

definition buffers_drops :: "buffers \<Rightarrow> drop_count list \<times> buffers" where
  "buffers_drops b = foldl drain_target
     (drops_of host_target (fst (buffer_drops (bs_host b))), b\<lparr>bs_host := snd (buffer_drops (bs_host b))\<rparr>)
     (targets b)"

section \<open>Invariant: a buffer per entity, at most 256 entities per module\<close>

definition entities_of :: "buffers \<Rightarrow> string \<Rightarrow> target set" where
  "entities_of b m = {t \<in> fst ` set (bs_targets b). tg_module t = m}"

definition buffers_ok :: "buffers \<Rightarrow> bool" where
  "buffers_ok b \<longleftrightarrow> buffer_ok (bs_host b) \<and> gm_ok (bs_targets b)
     \<and> (\<forall>t buf. gm_get (bs_targets b) t = Some buf \<longrightarrow> buffer_ok buf \<and> t \<noteq> host_target)
     \<and> (\<forall>m. gm_getd 0 (bs_keys b) m = int (card (entities_of b m)) \<and> gm_getd 0 (bs_keys b) m \<le> max_keys_per_module)"

lemma buffers_ok_new: "buffers_ok (new_buffers n)"
  by (simp add: buffers_ok_def new_buffers_def buffer_ok_new entities_of_def max_keys_per_module_def)

lemma buffers_ok_add: "buffers_ok b \<Longrightarrow> buffers_ok (buffers_add s b)"
proof -
  assume ok: "buffers_ok b"
  let ?t = "sm_target s" and ?m = "tg_module (sm_target s)"
  have old: "entities_of (b\<lparr>bs_targets := gm_put ?t x (bs_targets b)\<rparr>) m = (if m = ?m then insert ?t (entities_of b m) else entities_of b m)" for x m
    by (auto simp: entities_of_def)
  have le: "int (card (entities_of b m)) \<le> max_keys_per_module" for m using ok by (metis buffers_ok_def)
  show ?thesis
  proof (cases "gm_get (bs_targets b) ?t")
    case (Some buf)
    then have "?t \<in> entities_of b ?m" using gm_has_iff [of "bs_targets b" ?t] by (simp add: gm_has_def entities_of_def)
    then have "entities_of (b\<lparr>bs_targets := gm_put ?t x (bs_targets b)\<rparr>) m = entities_of b m" for x m
      using old [of x m] by (simp add: insert_absorb)
    then show ?thesis using ok Some le [unfolded entities_of_def]
      by (auto simp: buffers_add_def buffers_add_log_def buffers_ok_def buffer_ok_add is_host_target_def Let_def entities_of_def)
  next
    case None
    then have new: "?t \<notin> entities_of b ?m" using gm_has_iff [of "bs_targets b" ?t] by (simp add: gm_has_def entities_of_def)
    have fin: "finite (entities_of b m)" for m by (simp add: entities_of_def)
    have host: "entities_of (b\<lparr>bs_host := x\<rparr>) m = entities_of b m" "entities_of (b\<lparr>bs_warned := y\<rparr>) m = entities_of b m"
      "entities_of (b\<lparr>bs_targets := z, bs_keys := w\<rparr>) m = entities_of (b\<lparr>bs_targets := z\<rparr>) m" for x y z w m
      by (simp_all add: entities_of_def)
    show ?thesis using ok None new le
      by (auto simp: buffers_add_def buffers_add_log_def buffers_ok_def buffer_ok_add buffer_ok_new is_host_target_def Let_def
          host old fin)
  qed
qed

text \<open>What is pending for an entity under a slug.\<close>

definition buffers_pending :: "buffers \<Rightarrow> target \<times> string \<Rightarrow> sample list" where
  "buffers_pending b k = (case k of (t, slug) \<Rightarrow>
     if t = host_target then buffer_pending (bs_host b) slug
     else (case gm_get (bs_targets b) t of None \<Rightarrow> [] | Some buf \<Rightarrow> buffer_pending buf slug))"

definition sample_place :: "sample \<Rightarrow> target \<times> string" where
  "sample_place s = (sm_target s, sm_slug s)"

lemma buffer_pending_new [simp]: "buffer_pending (new_buffer n) slug = []"
  by (simp add: buffer_pending_def dim_list_def queue_of_def new_buffer_def empty_queue_def)

interpretation buffers_sink: sink buffers_add buffers_ok sample_place buffers_pending
proof unfold_locales
  fix st s k
  show "buffers_ok st \<Longrightarrow> buffers_ok (buffers_add s st)" by (rule buffers_ok_add)
  show "set (buffers_pending (buffers_add s st) (sample_place s)) \<subseteq> insert s (set (buffers_pending st (sample_place s)))"
    using buffer_pending_add(1) [of s "bs_host st"] buffer_pending_add(1) [of s "new_buffer (bs_max st)"]
      buffer_pending_add(1) [of s "the (gm_get (bs_targets st) (sm_target s))"]
    by (auto simp: buffers_pending_def sample_place_def buffers_add_def buffers_add_log_def is_host_target_def Let_def split: option.splits)
  show "k \<noteq> sample_place s \<Longrightarrow> buffers_pending (buffers_add s st) k = buffers_pending st k"
    by (cases k) (auto simp: buffers_pending_def sample_place_def buffers_add_def buffers_add_log_def is_host_target_def
        buffer_pending_add(2) Let_def split: option.splits)
qed

section \<open>Properties\<close>

definition feed :: "buffers \<Rightarrow> sample list \<Rightarrow> buffers" where
  "feed b ss = foldl (\<lambda>b s. buffers_add s b) b ss"

text \<open>
  Whatever the providers send, one module never feeds more than 256 entities, and every entity
  has exactly one buffer, bounded like the host's.
\<close>

lemma entities_capped:
  "card (entities_of (feed (new_buffers n) ss) m) \<le> 256 \<and> gm_ok (bs_targets (feed (new_buffers n) ss))
    \<and> (\<forall>t buf. gm_get (bs_targets (feed (new_buffers n) ss)) t = Some buf \<longrightarrow>
        (\<forall>slug. length (q_items (queue_of buf slug)) \<le> bf_max buf))"
proof -
  have ok: "buffers_ok (feed (new_buffers n) ss)" unfolding feed_def by (rule buffers_sink.feed_inv [OF buffers_ok_new])
  then have "int (card (entities_of (feed (new_buffers n) ss) m)) \<le> 256" unfolding buffers_ok_def max_keys_per_module_def by metis
  then show ?thesis using ok by (auto simp: buffers_ok_def buffer_ok_def)
qed

definition admitted :: "buffers \<Rightarrow> target \<Rightarrow> bool" where
  "admitted b t \<longleftrightarrow> t = host_target \<or> gm_has (bs_targets b) t \<or> card (entities_of b (tg_module t)) < 256"

lemma buffer_keeps: "s \<in> set (buffer_pending (buffer_add s b) (sm_slug s))"
  by (auto simp: buffer_pending_def dim_list_def dims_add queue_of_add Let_def)

text \<open>
  Entities are isolated. What is pending for an entity under a slug was pending there before or was
  added for that entity and slug; and a sample is kept exactly when it is for the host, for an entity
  that already has a buffer, or for a new entity of a module still below its cap.
\<close>

lemma entities_isolated:
  assumes "buffers_ok b"
  shows "set (buffers_pending (feed b ss) (t, slug))
      \<subseteq> set (buffers_pending b (t, slug)) \<union> {s \<in> set ss. sm_target s = t \<and> sm_slug s = slug}
    \<and> (s \<in> set (buffers_pending (buffers_add s b) (sample_place s)) \<longleftrightarrow> admitted b (sm_target s))"
proof (rule conjI)
  show "set (buffers_pending (feed b ss) (t, slug))
      \<subseteq> set (buffers_pending b (t, slug)) \<union> {s \<in> set ss. sm_target s = t \<and> sm_slug s = slug}"
    using buffers_sink.feed_from [OF assms, of ss "(t, slug)"] by (auto simp: feed_def sample_place_def)
  have "gm_getd 0 (bs_keys b) m = int (card (entities_of b m))" for m using assms by (simp add: buffers_ok_def)
  then show "s \<in> set (buffers_pending (buffers_add s b) (sample_place s)) \<longleftrightarrow> admitted b (sm_target s)"
    by (auto simp: buffers_pending_def sample_place_def buffers_add_def buffers_add_log_def is_host_target_def admitted_def
        gm_has_def buffer_keeps max_keys_per_module_def Let_def split: option.splits)
qed

lemma entities_capped_witness: "card (entities_of (feed (new_buffers 0) [example_metric 1, example_dim 2]) ''ups'') \<le> 256"
  using entities_capped [of 0 "[example_metric 1, example_dim 2]" "''ups''"] by blast

lemma entities_isolated_witness:
  "example_metric 1 \<in> set (buffers_pending (buffers_add (example_metric 1) (new_buffers 5)) (sample_place (example_metric 1)))"
  using entities_isolated [OF buffers_ok_new, of 5 "[]" host_target "''a''" "example_metric 1"]
  by (simp add: admitted_def example_metric_def)

end
