(* ===== verification/Publish.thy ===== *)
theory Publish
  imports Buffers Identity Gotime
begin

text \<open>
  \<open>internal/publish/publish.go\<close>: rendering samples for the platform and publishing a batch to one
  entity. The platform's interface (api.go) is a record of functions over a state \<open>'w\<close>; the shortest exact decimal
  of a number (\<open>strconv.FormatFloat\<close>) is the parameter \<open>fmt\<close>, on which no property depends.
\<close>

section \<open>Rendering\<close>

datatype rvalue = RString string | RBool bool

datatype render_error = NotCanonical string kind | NoListItem string string | UnknownSampleKind kind

type_synonym list_items = "(string, (string, string) gomap) gomap"

definition render :: "(f64 \<Rightarrow> string) \<Rightarrow> list_items \<Rightarrow> sample \<Rightarrow> render_error + rvalue" where
  "render fmt items s = (let bad = Inl (NotCanonical (sm_slug s) (sm_kind s)) in
     case sm_kind s of
       KindText \<Rightarrow> (case sm_value s of CString v \<Rightarrow> Inr (RString v) | _ \<Rightarrow> bad)
     | KindNumber \<Rightarrow> (case sm_value s of CNumber f \<Rightarrow> Inr (RString (fmt f)) | _ \<Rightarrow> bad)
     | KindMetric \<Rightarrow> (case sm_value s of CNumber f \<Rightarrow> Inr (RString (fmt f)) | _ \<Rightarrow> bad)
     | KindBoolean \<Rightarrow> (case sm_value s of CBool b \<Rightarrow> Inr (RBool b) | _ \<Rightarrow> bad)
     | KindDate \<Rightarrow> (case sm_value s of CTime t \<Rightarrow> Inr (RString (format_date t)) | _ \<Rightarrow> bad)
     | KindDatetime \<Rightarrow> (case sm_value s of CTime t \<Rightarrow> Inr (RString (format_rfc3339 t)) | _ \<Rightarrow> bad)
     | KindList \<Rightarrow> (case sm_value s of
           CString v \<Rightarrow> (case gm_get (gm_getd [] items (sm_slug s)) v of Some item \<Rightarrow> Inr (RString item) | None \<Rightarrow> Inl (NoListItem v (sm_slug s)))
         | _ \<Rightarrow> bad)
     | _ \<Rightarrow> Inl (UnknownSampleKind (sm_kind s)))"

section \<open>The platform's interface and the publisher\<close>

record backfill =
  bk_value :: rvalue
  bk_at :: gtime

record metric_obs =
  mo_slug :: string
  mo_value :: string
  mo_at :: gtime

text \<open>\<open>PubRejected None\<close> is a refusal that names no fields.\<close>

datatype publish_error = PubNotFound | PubRejected "string list option" | PubOther string

record 'w publish_api =
  pa_update :: "string \<Rightarrow> (string, backfill) gomap \<Rightarrow> 'w \<Rightarrow> publish_error option \<times> 'w"
  pa_ingest :: "string \<Rightarrow> metric_obs list \<Rightarrow> 'w \<Rightarrow> publish_error option \<times> 'w"

record pub_link =
  pk_module :: string
  pk_slug :: string
  pk_entity :: string

record line =
  ln_module :: string
  ln_key :: string
  ln_slug :: string
  ln_value :: rvalue
  ln_at :: gtime
  ln_pending :: bool

record publisher =
  pb_entity :: string
  pb_link :: "pub_link option"
  pb_items :: list_items
  pb_pending :: "(string, (string, bool) gomap) gomap"
  pb_dry :: bool

record pub_result =
  pr_dims :: "string list"
  pr_metrics :: "(string, int) gomap"
  pr_dimensions :: int
  pr_observations :: int
  pr_requests :: int
  pr_dropped :: int
  pr_entities :: int
  pr_entities_failed :: int

definition no_result :: pub_result where
  "no_result = \<lparr>pr_dims = [], pr_metrics = [], pr_dimensions = 0, pr_observations = 0, pr_requests = 0, pr_dropped = 0,
     pr_entities = 0, pr_entities_failed = 0\<rparr>"

datatype pub_failure = EntityGone string | UpdateFailed publish_error | IngestFailed publish_error

definition chunk_size :: nat where
  "chunk_size = 1000"

section \<open>Dimensions\<close>

record dim_state =
  ds_dims :: "(string, backfill) gomap"
  ds_lines :: "line list"
  ds_acked :: "string list"

definition dim_line :: "sample \<Rightarrow> rvalue \<Rightarrow> bool \<Rightarrow> line" where
  "dim_line s v pend = \<lparr>ln_module = sm_module s, ln_key = sm_key s, ln_slug = sm_slug s, ln_value = v, ln_at = sm_at s, ln_pending = pend\<rparr>"

definition put_dim :: "sample \<Rightarrow> rvalue \<Rightarrow> bool \<Rightarrow> dim_state \<Rightarrow> dim_state" where
  "put_dim s v pend st = st\<lparr>ds_dims := gm_put (sm_slug s) \<lparr>bk_value = v, bk_at = sm_at s\<rparr> (ds_dims st), ds_lines := ds_lines st @ [dim_line s v pend]\<rparr>"

definition is_pending :: "publisher \<Rightarrow> sample \<Rightarrow> bool" where
  "is_pending p s \<longleftrightarrow> pb_dry p \<and> sm_kind s = KindList
     \<and> (case sm_value s of CString v \<Rightarrow> gm_on (gm_getd [] (pb_pending p) (sm_slug s)) v | _ \<Rightarrow> False)"

definition render_dim :: "(f64 \<Rightarrow> string) \<Rightarrow> publisher \<Rightarrow> dim_state \<Rightarrow> sample \<Rightarrow> dim_state" where
  "render_dim fmt p st s = (
     if is_pending p s then (case sm_value s of CString v \<Rightarrow> put_dim s (RString v) True st | _ \<Rightarrow> st)
     else (case render fmt (pb_items p) s of
         Inl e \<Rightarrow> st\<lparr>ds_acked := ds_acked st @ [sm_slug s]\<rparr>
       | Inr v \<Rightarrow> put_dim s v False st))"

definition render_dims :: "(f64 \<Rightarrow> string) \<Rightarrow> publisher \<Rightarrow> sample list \<Rightarrow> dim_state" where
  "render_dims fmt p ss = foldl (render_dim fmt p) \<lparr>ds_dims = [], ds_lines = [], ds_acked = []\<rparr> ss"

definition newest :: "(string, backfill) gomap \<Rightarrow> gtime" where
  "newest dims = foldl (\<lambda>t d. if t < bk_at (snd d) then bk_at (snd d) else t) zero_time dims"

definition add_link :: "publisher \<Rightarrow> dim_state \<Rightarrow> dim_state" where
  "add_link p st = (case pb_link p of
       None \<Rightarrow> st
     | Some l \<Rightarrow> if ds_dims st = [] then st
         else (let t = newest (ds_dims st);
                   shown = (if pk_entity l = [] then ''(host entity to be created)'' else pk_entity l)
               in st\<lparr>ds_dims := gm_put (pk_slug l) \<lparr>bk_value = RString (pk_entity l), bk_at = t\<rparr> (ds_dims st),
                     ds_lines := ds_lines st @ [\<lparr>ln_module = pk_module l, ln_key = ''(host link)'', ln_slug = pk_slug l,
                       ln_value = RString shown, ln_at = t, ln_pending = False\<rparr>]\<rparr>))"

definition rejected_slugs :: "string list \<Rightarrow> (string, backfill) gomap \<Rightarrow> string list" where
  "rejected_slugs fs dims = sort (concat (map (\<lambda>f. case cut_prefix ''attributes.'' f of
     None \<Rightarrow> [] | Some slug \<Rightarrow> if gm_has dims slug then [slug] else []) fs))"

record dim_result =
  dr_acked :: "string list"
  dr_dropped :: int
  dr_requests :: int

definition del_all :: "string list \<Rightarrow> (string, backfill) gomap \<Rightarrow> (string, backfill) gomap" where
  "del_all ks m = foldl (\<lambda>m k. gm_del k m) m ks"

text \<open>\<open>updateDims\<close> with the attempts left.\<close>

fun update_dims :: "nat \<Rightarrow> 'w publish_api \<Rightarrow> string \<Rightarrow> (string, backfill) gomap \<Rightarrow> dim_result \<Rightarrow> 'w \<Rightarrow> pub_failure option \<times> dim_result \<times> 'w" where
  "update_dims 0 api eid dims r w = (None, r, w)"
| "update_dims (Suc n) api eid dims r w = (
     if dims = [] then (None, r, w)
     else (let r1 = r\<lparr>dr_requests := dr_requests r + 1\<rparr> in
       case pa_update api eid dims w of
         (None, w1) \<Rightarrow> (None, r1\<lparr>dr_acked := sort (dr_acked r1 @ map fst dims)\<rparr>, w1)
       | (Some PubNotFound, w1) \<Rightarrow> (Some (EntityGone eid), r1, w1)
       | (Some (PubRejected (Some fs)), w1) \<Rightarrow> (let bad = rejected_slugs fs dims in
           if bad = [] then (Some (UpdateFailed (PubRejected (Some fs))), r1, w1)
           else update_dims n api eid (del_all bad dims)
                  (r1\<lparr>dr_acked := dr_acked r1 @ bad, dr_dropped := dr_dropped r1 + int (length bad)\<rparr>) w1)
       | (Some e, w1) \<Rightarrow> (Some (UpdateFailed e), r1, w1)))"

section \<open>Metrics\<close>

text \<open>A metric renders to a string; \<open>v.(string)\<close> of another rendering would panic.\<close>

record metric_state =
  ms_metrics :: "metric_obs list"
  ms_lines :: "line list"
  ms_acked :: "(string, int) gomap"
  ms_dropped :: int

definition render_metric :: "(f64 \<Rightarrow> string) \<Rightarrow> publisher \<Rightarrow> metric_state \<Rightarrow> sample \<Rightarrow> metric_state" where
  "render_metric fmt p st s = (case render fmt (pb_items p) s of
       Inr (RString v) \<Rightarrow> st\<lparr>ms_metrics := ms_metrics st @ [\<lparr>mo_slug = sm_slug s, mo_value = v, mo_at = sm_at s\<rparr>],
          ms_lines := ms_lines st @ [dim_line s (RString v) False]\<rparr>
     | Inr (RBool b) \<Rightarrow> st
     | Inl e \<Rightarrow> st\<lparr>ms_acked := gm_inc (sm_slug s) (ms_acked st), ms_dropped := ms_dropped st + 1\<rparr>)"

definition render_metrics :: "(f64 \<Rightarrow> string) \<Rightarrow> publisher \<Rightarrow> sample list \<Rightarrow> metric_state" where
  "render_metrics fmt p ss = foldl (render_metric fmt p) \<lparr>ms_metrics = [], ms_lines = [], ms_acked = [], ms_dropped = 0\<rparr> ss"

definition ack_obs :: "metric_obs list \<Rightarrow> (string, int) gomap \<Rightarrow> (string, int) gomap" where
  "ack_obs os m = foldl (\<lambda>m x. gm_inc (mo_slug x) m) m os"

function ingest :: "'w publish_api \<Rightarrow> string \<Rightarrow> metric_obs list \<Rightarrow> pub_result \<Rightarrow> 'w \<Rightarrow> pub_failure option \<times> pub_result \<times> 'w" where
  "ingest api eid os res w = (
     if os = [] then (None, res, w)
     else (let chunk = take chunk_size os; rest = drop chunk_size os;
               res1 = res\<lparr>pr_requests := pr_requests res + 1\<rparr>;
               acked = (\<lambda>r. r\<lparr>pr_metrics := ack_obs chunk (pr_metrics r)\<rparr>)
           in case pa_ingest api eid chunk w of
             (None, w1) \<Rightarrow> ingest api eid rest (acked (res1\<lparr>pr_observations := pr_observations res1 + int (length chunk)\<rparr>)) w1
           | (Some PubNotFound, w1) \<Rightarrow> (Some (EntityGone eid), res1, w1)
           | (Some (PubRejected fs), w1) \<Rightarrow> ingest api eid rest (acked (res1\<lparr>pr_dropped := pr_dropped res1 + int (length chunk)\<rparr>)) w1
           | (Some (PubOther e), w1) \<Rightarrow> (Some (IngestFailed (PubOther e)), res1, w1)))"
  by pat_completeness auto
termination
  by (relation "measure (\<lambda>(api, eid, os, res, w). length os)") (auto simp: chunk_size_def)

declare ingest.simps [simp del]

section \<open>Publishing one batch\<close>

definition publish_dry :: "dim_state \<Rightarrow> metric_state \<Rightarrow> pub_result \<Rightarrow> pub_result" where
  "publish_dry dst mst res = res\<lparr>pr_dims := pr_dims res @ map fst (ds_dims dst), pr_metrics := ack_obs (ms_metrics mst) (pr_metrics res),
     pr_dimensions := int (length (ds_dims dst)), pr_observations := int (length (ms_metrics mst))\<rparr>"

definition publish_real :: "'w publish_api \<Rightarrow> publisher \<Rightarrow> dim_state \<Rightarrow> metric_state \<Rightarrow> pub_result \<Rightarrow> 'w \<Rightarrow> pub_failure option \<times> pub_result \<times> 'w" where
  "publish_real api p dst mst res w = (
     if ds_dims dst = [] then ingest api (pb_entity p) (ms_metrics mst) res w
     else (case update_dims 2 api (pb_entity p) (ds_dims dst) \<lparr>dr_acked = [], dr_dropped = 0, dr_requests = 0\<rparr> w of
         (fail, sent, w1) \<Rightarrow> (
           let res1 = res\<lparr>pr_requests := pr_requests res + dr_requests sent, pr_dims := pr_dims res @ dr_acked sent,
                          pr_dropped := pr_dropped res + dr_dropped sent\<rparr>
           in case fail of
                Some e \<Rightarrow> (Some e, res1, w1)
              | None \<Rightarrow> ingest api (pb_entity p) (ms_metrics mst)
                  (res1\<lparr>pr_dimensions := int (length (dr_acked sent)) - dr_dropped sent\<rparr>) w1)))"

text \<open>The lines are what a dry run prints.\<close>

definition publish :: "'w publish_api \<Rightarrow> (f64 \<Rightarrow> string) \<Rightarrow> publisher \<Rightarrow> batch \<Rightarrow> 'w \<Rightarrow> pub_failure option \<times> pub_result \<times> line list \<times> 'w" where
  "publish api fmt p b w = (
     if batch_empty b then (None, no_result, [], w)
     else (let dst = add_link p (render_dims fmt p (bt_dims b)); mst = render_metrics fmt p (bt_metrics b);
               res = no_result\<lparr>pr_dims := ds_acked dst, pr_metrics := ms_acked mst,
                       pr_dropped := int (length (ds_acked dst)) + ms_dropped mst\<rparr>
           in if pb_dry p then (None, publish_dry dst mst res, ds_lines dst @ ms_lines mst, w)
              else (case publish_real api p dst mst res w of (fail, r, w1) \<Rightarrow> (fail, r, [], w1))))"

definition ack_of :: "pub_result \<Rightarrow> ack" where
  "ack_of r = \<lparr>ak_dims = pr_dims r, ak_metrics = pr_metrics r\<rparr>"

section \<open>What the platform was asked and what it answered\<close>

datatype pub_call =
    UpdateCall string "(string, backfill) gomap" "publish_error option"
  | IngestCall string "metric_obs list" "publish_error option"

text \<open>The same platform, with a log of its calls and answers beside its state.\<close>

definition logged :: "'w publish_api \<Rightarrow> ('w \<times> pub_call list) publish_api" where
  "logged api = \<lparr>
     pa_update = (\<lambda>eid dims wl. case pa_update api eid dims (fst wl) of (a, w) \<Rightarrow> (a, (w, snd wl @ [UpdateCall eid dims a]))),
     pa_ingest = (\<lambda>eid os wl. case pa_ingest api eid os (fst wl) of (a, w) \<Rightarrow> (a, (w, snd wl @ [IngestCall eid os a])))\<rparr>"

lemma logged_update: "pa_update (logged api) eid dims wl = (a, wl') \<Longrightarrow> snd wl' = snd wl @ [UpdateCall eid dims a]"
  by (auto simp: logged_def split: prod.splits)

lemma logged_ingest: "pa_ingest (logged api) eid os wl = (a, wl') \<Longrightarrow> snd wl' = snd wl @ [IngestCall eid os a]"
  by (auto simp: logged_def split: prod.splits)

text \<open>The observations a call settles: accepted, or refused for good.\<close>

fun settled :: "pub_call \<Rightarrow> metric_obs list" where
  "settled (IngestCall eid os None) = os"
| "settled (IngestCall eid os (Some (PubRejected fs))) = os"
| "settled _ = []"

text \<open>A dimension is answered for by an accepted update that carried it or a refusal that named it.\<close>

fun answered :: "string \<Rightarrow> pub_call \<Rightarrow> bool" where
  "answered slug (UpdateCall eid dims None) \<longleftrightarrow> gm_has dims slug"
| "answered slug (UpdateCall eid dims (Some (PubRejected (Some fs)))) \<longleftrightarrow> gm_has dims slug \<and> ''attributes.'' @ slug \<in> set fs"
| "answered slug _ \<longleftrightarrow> False"

lemma ack_obs_count: "gm_getd 0 (ack_obs os m) slug = gm_getd 0 m slug + int (length (filter (\<lambda>x. mo_slug x = slug) os))"
  by (induction os arbitrary: m) (auto simp: ack_obs_def)

lemma ack_obs_append: "ack_obs (xs @ ys) m = ack_obs ys (ack_obs xs m)"
  by (simp add: ack_obs_def)

lemma ack_obs_ok: "gm_ok m \<Longrightarrow> gm_ok (ack_obs os m)"
  by (induction os arbitrary: m) (auto simp: ack_obs_def)

lemma ingest_log:
  assumes "ingest (logged api) eid os res wl = (fail, res', wl')"
  shows "\<exists>cs rest. snd wl' = snd wl @ cs \<and> os = concat (map settled cs) @ rest \<and> (fail = None \<longrightarrow> rest = [])
    \<and> pr_metrics res' = ack_obs (concat (map settled cs)) (pr_metrics res) \<and> pr_dims res' = pr_dims res
    \<and> (\<forall>c \<in> set cs. \<exists>xs a. c = IngestCall eid xs a \<and> length xs \<le> chunk_size)"
  using assms
proof (induction "length os" arbitrary: os res wl rule: less_induct)
  case less
  show ?case
  proof (cases "os = []")
    case True
    then show ?thesis using less.prems by (intro exI [of _ "[]"]) (auto simp: ingest.simps ack_obs_def)
  next
    case False
    let ?chunk = "take chunk_size os" and ?rest = "drop chunk_size os"
    obtain a wl1 where call: "pa_ingest (logged api) eid ?chunk wl = (a, wl1)" by (metis surj_pair)
    note log = logged_ingest [OF call]
    have shorter: "length ?rest < length os" using False by (simp add: chunk_size_def)
    show ?thesis
    proof (cases "a = None \<or> (\<exists>fs. a = Some (PubRejected fs))")
      case False
      then have "fail \<noteq> None \<and> wl' = wl1 \<and> pr_metrics res' = pr_metrics res \<and> pr_dims res' = pr_dims res"
        using less.prems call \<open>os \<noteq> []\<close> by (auto simp: ingest.simps [of _ _ os] Let_def split: option.splits publish_error.splits)
      moreover have "settled (IngestCall eid ?chunk a) = []" using False by (cases a; cases "the a") auto
      ultimately show ?thesis using log by (intro exI [of _ "[IngestCall eid ?chunk a]"] exI [of _ os]) (auto simp: ack_obs_def)
    next
      case True
      then obtain res1 where rest: "ingest (logged api) eid ?rest res1 wl1 = (fail, res', wl')"
          "pr_metrics res1 = ack_obs ?chunk (pr_metrics res)" "pr_dims res1 = pr_dims res"
        using less.prems call \<open>os \<noteq> []\<close> by (auto simp: ingest.simps [of _ _ os] Let_def)
      from less.hyps [OF shorter rest(1)] obtain cs tl where IH: "snd wl' = snd wl1 @ cs" "?rest = concat (map settled cs) @ tl"
          "fail = None \<longrightarrow> tl = []" "pr_metrics res' = ack_obs (concat (map settled cs)) (pr_metrics res1)" "pr_dims res' = pr_dims res1"
          "\<forall>c \<in> set cs. \<exists>xs a. c = IngestCall eid xs a \<and> length xs \<le> chunk_size" by blast
      have st: "settled (IngestCall eid ?chunk a) = ?chunk" using True by auto
      have "os = concat (map settled (IngestCall eid ?chunk a # cs)) @ tl" using IH(2) st by (metis append.assoc append_take_drop_id concat.simps(2) list.simps(9))
      then show ?thesis using IH log rest st
        by (intro exI [of _ "IngestCall eid ?chunk a # cs"] exI [of _ tl]) (auto simp: ack_obs_append)
    qed
  qed
qed

lemma set_rejected_slugs: "slug \<in> set (rejected_slugs fs dims) \<longleftrightarrow> ''attributes.'' @ slug \<in> set fs \<and> gm_has dims slug"
proof -
  have "slug \<in> set (rejected_slugs fs dims) \<longleftrightarrow> (\<exists>f \<in> set fs. cut_prefix ''attributes.'' f = Some slug) \<and> gm_has dims slug"
    by (auto simp: rejected_slugs_def split: option.splits if_splits) (metis+)?
  then show ?thesis by (auto simp: cut_prefix_iff)
qed

lemma has_del_all: "gm_has (del_all ks m) slug \<longleftrightarrow> gm_has m slug \<and> slug \<notin> set ks"
  by (induction ks arbitrary: m) (auto simp: del_all_def)

lemma update_log:
  assumes "update_dims n (logged api) eid dims r wl = (fail, r', wl')"
  shows "\<exists>cs. snd wl' = snd wl @ cs \<and> length cs \<le> n
    \<and> (\<forall>slug \<in> set (dr_acked r'). slug \<in> set (dr_acked r) \<or> (gm_has dims slug \<and> list_ex (answered slug) cs))
    \<and> (\<forall>c \<in> set cs. \<exists>ds a. c = UpdateCall eid ds a) \<and> dr_requests r' = dr_requests r + int (length cs)"
  using assms
proof (induction n arbitrary: dims r wl)
  case 0
  then show ?case by simp
next
  case (Suc n)
  show ?case
  proof (cases "dims = []")
    case True
    then show ?thesis using Suc.prems by simp
  next
    case False
    obtain a wl1 where call: "pa_update (logged api) eid dims wl = (a, wl1)" by (metis surj_pair)
    note log = logged_update [OF call]
    have one: ?thesis if "wl' = wl1" "dr_requests r' = dr_requests r + 1"
      "\<forall>slug \<in> set (dr_acked r'). slug \<in> set (dr_acked r) \<or> (gm_has dims slug \<and> answered slug (UpdateCall eid dims a))"
      using that log by (intro exI [of _ "[UpdateCall eid dims a]"]) auto
    show ?thesis
    proof (cases "\<exists>fs. a = Some (PubRejected (Some fs)) \<and> rejected_slugs fs dims \<noteq> []")
      case False
      have ends: "wl' = wl1 \<and> dr_requests r' = dr_requests r + 1
          \<and> (\<forall>slug \<in> set (dr_acked r'). slug \<in> set (dr_acked r) \<or> (a = None \<and> slug \<in> fst ` set dims))"
        using Suc.prems call \<open>dims \<noteq> []\<close> False
        by (auto simp: Let_def split: option.splits publish_error.splits if_splits)
      have "a = None \<Longrightarrow> slug \<in> fst ` set dims \<Longrightarrow> gm_has dims slug \<and> answered slug (UpdateCall eid dims a)" for slug
        by (simp add: gm_has_iff)
      with ends show ?thesis by (intro one) blast+
    next
      case True
      then obtain fs where fs: "a = Some (PubRejected (Some fs))" "rejected_slugs fs dims \<noteq> []" by blast
      let ?bad = "rejected_slugs fs dims"
      have run: "update_dims n (logged api) eid (del_all ?bad dims)
          (r\<lparr>dr_requests := dr_requests r + 1, dr_acked := dr_acked r @ ?bad, dr_dropped := dr_dropped r + int (length ?bad)\<rparr>) wl1 = (fail, r', wl')"
        using Suc.prems call \<open>dims \<noteq> []\<close> fs by (simp add: Let_def)
      from Suc.IH [OF run] obtain cs where IH: "snd wl' = snd wl1 @ cs" "length cs \<le> n"
          "\<forall>slug \<in> set (dr_acked r'). slug \<in> set (dr_acked r @ ?bad) \<or> (gm_has (del_all ?bad dims) slug \<and> list_ex (answered slug) cs)"
          "\<forall>c \<in> set cs. \<exists>ds a. c = UpdateCall eid ds a" "dr_requests r' = dr_requests r + 1 + int (length cs)" by auto
      have "answered slug (UpdateCall eid dims a) \<and> gm_has dims slug" if "slug \<in> set ?bad" for slug
        using that fs by (simp add: set_rejected_slugs)
      then show ?thesis using IH log
        by (intro exI [of _ "UpdateCall eid dims a # cs"]) (auto simp: has_del_all)
    qed
  qed
qed

section \<open>What a publish accounts for\<close>

definition metric_sample :: "sample \<Rightarrow> bool" where
  "metric_sample s \<longleftrightarrow> sm_kind s = KindMetric \<and> (case sm_value s of CNumber _ \<Rightarrow> True | _ \<Rightarrow> False)"

definition obs_of :: "(f64 \<Rightarrow> string) \<Rightarrow> sample \<Rightarrow> metric_obs" where
  "obs_of fmt s = \<lparr>mo_slug = sm_slug s, mo_value = (case sm_value s of CNumber f \<Rightarrow> fmt f | _ \<Rightarrow> []), mo_at = sm_at s\<rparr>"

lemma render_metrics_all:
  assumes "\<forall>s \<in> set ss. metric_sample s"
  shows "ms_metrics (render_metrics fmt p ss) = map (obs_of fmt) ss \<and> ms_acked (render_metrics fmt p ss) = []
    \<and> ms_dropped (render_metrics fmt p ss) = 0"
proof -
  have "ms_metrics (foldl (render_metric fmt p) st ss) = ms_metrics st @ map (obs_of fmt) ss
      \<and> ms_acked (foldl (render_metric fmt p) st ss) = ms_acked st \<and> ms_dropped (foldl (render_metric fmt p) st ss) = ms_dropped st" for st
    using assms
  proof (induction ss arbitrary: st)
    case (Cons s ss)
    then have "render fmt (pb_items p) s = Inr (RString (mo_value (obs_of fmt s)))"
      by (auto simp: metric_sample_def render_def obs_of_def split: cvalue.splits)
    then show ?case using Cons by (simp add: render_metric_def obs_of_def)
  qed simp
  then show ?thesis by (simp add: render_metrics_def)
qed

lemma render_dims_acked:
  "slug \<in> set (ds_acked (add_link p (render_dims fmt p ss))) \<Longrightarrow> \<exists>s \<in> set ss. sm_slug s = slug \<and> (\<exists>e. render fmt (pb_items p) s = Inl e)"
proof -
  have "slug \<in> set (ds_acked (foldl (render_dim fmt p) st ss)) \<Longrightarrow>
      slug \<in> set (ds_acked st) \<or> (\<exists>s \<in> set ss. sm_slug s = slug \<and> (\<exists>e. render fmt (pb_items p) s = Inl e))" for st
  proof (induction ss arbitrary: st)
    case (Cons s ss)
    have "set (ds_acked (render_dim fmt p st s)) \<subseteq> set (ds_acked st) \<union> {x. x = sm_slug s \<and> (\<exists>e. render fmt (pb_items p) s = Inl e)}"
      by (auto simp: render_dim_def put_dim_def split: cvalue.splits sum.splits if_splits)
    then show ?case using Cons.IH [of "render_dim fmt p st s"] Cons.prems by auto
  qed simp
  then show "slug \<in> set (ds_acked (add_link p (render_dims fmt p ss))) \<Longrightarrow> ?thesis"
    by (fastforce simp: render_dims_def add_link_def Let_def split: option.splits if_splits)
qed

lemma concat_settled_updates: "(\<forall>c \<in> set cs. \<exists>ds a. c = UpdateCall eid ds a) \<Longrightarrow> concat (map settled cs) = []"
  by (induction cs) auto

lemma publish_real_log:
  assumes "publish_real (logged api) p dst mst res (w, []) = (fail, res', (w', calls))"
  shows "(\<exists>rest. ms_metrics mst = concat (map settled calls) @ rest \<and> (fail = None \<longrightarrow> rest = []))
    \<and> pr_metrics res' = ack_obs (concat (map settled calls)) (pr_metrics res)
    \<and> (\<forall>slug \<in> set (pr_dims res'). slug \<in> set (pr_dims res) \<or> list_ex (answered slug) calls)"
proof (cases "ds_dims dst = []")
  case True
  then show ?thesis using ingest_log [of api "pb_entity p" "ms_metrics mst" res "(w, [])" fail res' "(w', calls)"] assms
    by (auto simp: publish_real_def)
next
  case False
  obtain f1 sent wl1 where up: "update_dims 2 (logged api) (pb_entity p) (ds_dims dst) \<lparr>dr_acked = [], dr_dropped = 0, dr_requests = 0\<rparr> (w, []) = (f1, sent, wl1)"
    by (metis prod_cases3)
  from update_log [OF up] obtain cs where cs: "snd wl1 = cs" "\<forall>slug \<in> set (dr_acked sent). list_ex (answered slug) cs"
      "\<forall>c \<in> set cs. \<exists>ds a. c = UpdateCall (pb_entity p) ds a" by auto
  note quiet = concat_settled_updates [OF cs(3)]
  define res1 where "res1 = res\<lparr>pr_requests := pr_requests res + dr_requests sent, pr_dims := pr_dims res @ dr_acked sent,
    pr_dropped := pr_dropped res + dr_dropped sent\<rparr>"
  show ?thesis
  proof (cases f1)
    case (Some e)
    then have "fail \<noteq> None" "res' = res1" "calls = cs" using assms False up cs(1) by (auto simp: publish_real_def res1_def Let_def)
    then have "concat (map settled calls) = []" "pr_metrics res' = pr_metrics res" "set (pr_dims res') = set (pr_dims res) \<union> set (dr_acked sent)"
      using quiet by (simp_all only: res1_def) simp_all
    then show ?thesis using \<open>fail \<noteq> None\<close> \<open>calls = cs\<close> cs(2) by (simp only:) (auto simp: ack_obs_def)
  next
    case None
    then have "ingest (logged api) (pb_entity p) (ms_metrics mst) (res1\<lparr>pr_dimensions := int (length (dr_acked sent)) - dr_dropped sent\<rparr>) wl1 = (fail, res', (w', calls))"
      using assms False up by (simp add: publish_real_def res1_def Let_def)
    from ingest_log [OF this] obtain ds rest where ds: "calls = cs @ ds" "ms_metrics mst = concat (map settled ds) @ rest" "fail = None \<longrightarrow> rest = []"
        "pr_metrics res' = ack_obs (concat (map settled ds)) (pr_metrics res1)" "pr_dims res' = pr_dims res1" using cs(1) by auto
    have "concat (map settled calls) = concat (map settled ds)" using ds(1) quiet by simp
    then have out: "ms_metrics mst = concat (map settled calls) @ rest" "pr_metrics res' = ack_obs (concat (map settled calls)) (pr_metrics res)"
      using ds by (simp_all only: res1_def) simp_all
    have "set (pr_dims res') = set (pr_dims res) \<union> set (dr_acked sent)" using ds(5) by (simp add: res1_def)
    then have "\<forall>slug \<in> set (pr_dims res'). slug \<in> set (pr_dims res) \<or> list_ex (answered slug) calls"
      using cs(2) ds(1) by auto
    then show ?thesis using out ds(3) by blast
  qed
qed

lemma publish_log:
  assumes "publish (logged api) fmt p b (w, []) = (fail, res, lines, (w', calls))" "\<not> pb_dry p" "\<forall>s \<in> set (bt_metrics b). metric_sample s"
  shows "\<exists>k \<le> length (bt_metrics b).
      concat (map settled calls) = map (obs_of fmt) (take k (bt_metrics b)) \<and> (fail = None \<longrightarrow> k = length (bt_metrics b))
      \<and> pr_metrics res = ack_obs (map (obs_of fmt) (take k (bt_metrics b))) []
      \<and> (\<forall>slug \<in> set (pr_dims res). list_ex (answered slug) calls
            \<or> (\<exists>s \<in> set (bt_dims b). sm_slug s = slug \<and> (\<exists>e. render fmt (pb_items p) s = Inl e)))"
proof (cases "batch_empty b")
  case True
  then have "res = no_result" "calls = []" "bt_metrics b = []" using assms(1) by (auto simp: publish_def batch_empty_def)
  then show ?thesis by (simp add: no_result_def ack_obs_def)
next
  case False
  define dst where "dst = add_link p (render_dims fmt p (bt_dims b))"
  define mst where "mst = render_metrics fmt p (bt_metrics b)"
  define res0 where "res0 = no_result\<lparr>pr_dims := ds_acked dst, pr_metrics := ms_acked mst, pr_dropped := int (length (ds_acked dst)) + ms_dropped mst\<rparr>"
  have mst: "ms_metrics mst = map (obs_of fmt) (bt_metrics b)" "ms_acked mst = []" using render_metrics_all [OF assms(3)] by (simp_all add: mst_def)
  have "publish_real (logged api) p dst mst res0 (w, []) = (fail, res, (w', calls))"
    using assms(1,2) False by (auto simp: publish_def Let_def dst_def mst_def res0_def split: prod.splits)
  from publish_real_log [OF this] obtain rest where rest: "map (obs_of fmt) (bt_metrics b) = concat (map settled calls) @ rest" "fail = None \<longrightarrow> rest = []"
      "pr_metrics res = ack_obs (concat (map settled calls)) []" "\<forall>slug \<in> set (pr_dims res). slug \<in> set (ds_acked dst) \<or> list_ex (answered slug) calls"
    using mst by (auto simp: res0_def)
  let ?k = "length (concat (map settled calls))"
  have "length (map (obs_of fmt) (bt_metrics b)) = ?k + length rest" by (simp only: rest(1) length_append)
  then have k: "?k \<le> length (bt_metrics b)" "rest = [] \<longrightarrow> ?k = length (bt_metrics b)" by simp_all
  have "concat (map settled calls) = map (obs_of fmt) (take ?k (bt_metrics b))"
    using rest(1) by (metis append_eq_conv_conj take_map)
  moreover have "\<forall>slug \<in> set (pr_dims res). list_ex (answered slug) calls
      \<or> (\<exists>s \<in> set (bt_dims b). sm_slug s = slug \<and> (\<exists>e. render fmt (pb_items p) s = Inl e))"
    using rest(4) render_dims_acked unfolding dst_def by blast
  ultimately show ?thesis using k rest(2,3) by (intro exI [of _ ?k]) simp
qed

text \<open>
  C29: a publish acknowledges only what the platform answered for. Against a log of every call and its
  answer: the observations that were accepted or refused for good are exactly the first \<open>k\<close> of the
  batch's metrics, in order, the acknowledgement counts them per metric, and all of them were when the
  publish succeeds; and a dimension is acknowledged only if an accepted update carried it, a refusal
  named it, or it could not be rendered.
\<close>

theorem publish_accounts:
  assumes "publish (logged api) fmt p b (w, []) = (fail, res, lines, (w', calls))" "\<not> pb_dry p" "\<forall>s \<in> set (bt_metrics b). metric_sample s"
  shows "\<exists>k \<le> length (bt_metrics b).
      concat (map settled calls) = map (obs_of fmt) (take k (bt_metrics b)) \<and> (fail = None \<longrightarrow> k = length (bt_metrics b))
      \<and> (\<forall>slug. gm_getd 0 (pr_metrics res) slug = int (length (filter (\<lambda>s. sm_slug s = slug) (take k (bt_metrics b)))))
      \<and> (\<forall>slug \<in> set (pr_dims res). list_ex (answered slug) calls
            \<or> (\<exists>s \<in> set (bt_dims b). sm_slug s = slug \<and> (\<exists>e. render fmt (pb_items p) s = Inl e)))"
proof -
  from publish_log [OF assms] obtain k where k: "k \<le> length (bt_metrics b)"
      "concat (map settled calls) = map (obs_of fmt) (take k (bt_metrics b))" "fail = None \<longrightarrow> k = length (bt_metrics b)"
      "pr_metrics res = ack_obs (map (obs_of fmt) (take k (bt_metrics b))) []"
      "\<forall>slug \<in> set (pr_dims res). list_ex (answered slug) calls
        \<or> (\<exists>s \<in> set (bt_dims b). sm_slug s = slug \<and> (\<exists>e. render fmt (pb_items p) s = Inl e))" by blast
  have "gm_getd 0 (pr_metrics res) slug = int (length (filter (\<lambda>s. sm_slug s = slug) (take k (bt_metrics b))))" for slug
    by (simp add: k(4) ack_obs_count filter_map comp_def obs_of_def)
  then show ?thesis using k by blast
qed

text \<open>
  C1: nothing is lost and nothing is sent twice between the buffer, the publisher and the platform.
  Publish a buffer's snapshot, let any samples arrive meanwhile, acknowledge what the publish reports:
  of every metric, the observations the platform settled are the first \<open>n\<close> the buffer held, and the
  buffer then holds the rest followed by the new ones, less what its bound dropped.
\<close>

theorem publish_no_loss:
  assumes "buffer_ok b" "\<not> pb_dry p" "\<forall>s \<in> set (bt_metrics (snapshot b)). metric_sample s"
    and "publish (logged api) fmt p (snapshot b) (w, []) = (fail, res, lines, (w', calls))"
  shows "\<exists>n. let xs = q_items (queue_of b slug) @ adds slug ss;
              b' = buffer_ack (snapshot b) (ack_of res) (foldl (\<lambda>b s. buffer_add s b) b ss)
          in n \<le> length (q_items (queue_of b slug))
             \<and> filter (\<lambda>x. mo_slug x = slug) (concat (map settled calls)) = map (obs_of fmt) (take n xs)
             \<and> q_items (queue_of b' slug) = drop (max n (length xs - bf_max b)) xs"
proof -
  from publish_log [OF assms(4,2,3)] obtain k where k: "k \<le> length (bt_metrics (snapshot b))"
      "concat (map settled calls) = map (obs_of fmt) (take k (bt_metrics (snapshot b)))"
      "pr_metrics res = ack_obs (map (obs_of fmt) (take k (bt_metrics (snapshot b)))) []" by blast
  let ?own = "filter (\<lambda>s. sm_slug s = slug)" and ?q = "q_items (queue_of b slug)"
  let ?n = "length (?own (take k (bt_metrics (snapshot b))))"
  have "?own (take k (bt_metrics (snapshot b))) @ ?own (drop k (bt_metrics (snapshot b))) = ?q"
    using snapshot_parts [OF assms(1), of slug] by (simp flip: filter_append)
  then have n: "?n \<le> length ?q" "?own (take k (bt_metrics (snapshot b))) = take ?n ?q"
    by (metis le_add1 length_append, metis append_eq_conv_conj)
  have "gm_getd 0 (ak_metrics (ack_of res)) slug = int ?n"
    by (simp add: ack_of_def k(3) ack_obs_count filter_map comp_def obs_of_def)
  moreover have "gm_ok (ak_metrics (ack_of res))" by (simp add: ack_of_def k(3) ack_obs_ok)
  ultimately have left: "let xs = ?q @ adds slug ss; b' = buffer_ack (snapshot b) (ack_of res) (foldl (\<lambda>b s. buffer_add s b) b ss)
      in q_items (queue_of b' slug) = drop (max ?n (length xs - bf_max b)) xs"
    using n(1) by (intro ack_queue_exact [OF assms(1)])
  have "filter (\<lambda>x. mo_slug x = slug) (concat (map settled calls)) = map (obs_of fmt) (?own (take k (bt_metrics (snapshot b))))"
    by (simp add: k(2) filter_map comp_def obs_of_def)
  then show ?thesis using left n by (intro exI [of _ ?n]) (simp add: Let_def)
qed

section \<open>At a concrete input\<close>

definition example_publish_api :: "unit publish_api" where
  "example_publish_api = \<lparr>pa_update = (\<lambda>eid dims w. (None, w)), pa_ingest = (\<lambda>eid os w. (None, w))\<rparr>"

definition example_publisher :: publisher where
  "example_publisher = \<lparr>pb_entity = ''e1'', pb_link = None, pb_items = [], pb_pending = [], pb_dry = False\<rparr>"

lemma example_metric_sample: "metric_sample (example_metric t)"
  by (simp add: metric_sample_def example_metric_def)

lemma example_pending: "\<forall>s \<in> set (bt_metrics (snapshot example_buffer)). metric_sample s"
proof
  fix s assume s: "s \<in> set (bt_metrics (snapshot example_buffer))"
  then have "s \<in> set (q_items (queue_of example_buffer (sm_slug s)))"
    using snapshot_parts [OF example_buffer_ok, of "sm_slug s"] by (metis (mono_tags, lifting) filter_set mem_Collect_eq set_filter)
  then show "metric_sample s"
    by (auto simp: example_buffer_def queue_of_add example_facts queue_of_new empty_queue_def example_metric_sample Let_def split: if_splits)
qed

theorem publish_accounts_witness:
  "\<exists>fail res lines w' calls k.
     publish (logged example_publish_api) (\<lambda>f. ''1'') example_publisher \<lparr>bt_dims = [], bt_metrics = [example_metric 1], bt_start = []\<rparr> ((), [])
       = (fail, res, lines, (w', calls))
     \<and> concat (map settled calls) = map (obs_of (\<lambda>f. ''1'')) (take k [example_metric 1])"
proof -
  let ?b = "\<lparr>bt_dims = [], bt_metrics = [example_metric 1], bt_start = []\<rparr>"
  obtain fail res lines w' calls where run:
      "publish (logged example_publish_api) (\<lambda>f. ''1'') example_publisher ?b ((), []) = (fail, res, lines, (w', calls))"
    by (metis surj_pair)
  have "\<not> pb_dry example_publisher" "\<forall>s \<in> set (bt_metrics ?b). metric_sample s"
    by (simp_all add: example_publisher_def example_metric_sample)
  from publish_accounts [OF run this] run show ?thesis by auto
qed

theorem publish_no_loss_witness:
  "\<exists>fail res lines w' calls n.
     publish (logged example_publish_api) (\<lambda>f. ''1'') example_publisher (snapshot example_buffer) ((), []) = (fail, res, lines, (w', calls))
     \<and> q_items (queue_of (buffer_ack (snapshot example_buffer) (ack_of res) example_buffer) ''cpu_load'')
         = drop n [example_metric 1, example_metric 2]"
proof -
  obtain fail res lines w' calls where run:
      "publish (logged example_publish_api) (\<lambda>f. ''1'') example_publisher (snapshot example_buffer) ((), []) = (fail, res, lines, (w', calls))"
    by (metis surj_pair)
  have "\<not> pb_dry example_publisher" by (simp add: example_publisher_def)
  from publish_no_loss [OF example_buffer_ok this example_pending run, of "''cpu_load''" "[]"] run
  show ?thesis by (auto simp: example_queue adds_def Let_def)
qed

end
