(* ===== verification/Entities.thy ===== *)
theory Entities
  imports Publish
begin

text \<open>
  \<open>internal/publish/entities.go\<close>: the publish loop over the host and every module-owned entity. Its
  properties say that each entity's buffer loses only what its own publish acknowledged, whatever
  happens to the others.
\<close>

section \<open>Publishing every entity\<close>

text \<open>
  The resolver (\<open>identity.Keyed\<close>) is its \<open>Resolve\<close> and \<open>Forget\<close> over the same state \<open>'w\<close>; its error stands
  for any.
\<close>

record ('e, 'w) resolver =
  rv_resolve :: "string \<Rightarrow> string \<Rightarrow> string \<Rightarrow> 'w \<Rightarrow> ('e + string \<times> outcome) \<times> 'w"
  rv_forget :: "string \<Rightarrow> string \<Rightarrow> 'w \<Rightarrow> 'w"

definition add_result :: "pub_result \<Rightarrow> pub_result \<Rightarrow> pub_result" where
  "add_result r x = r\<lparr>pr_dimensions := pr_dimensions r + pr_dimensions x, pr_observations := pr_observations r + pr_observations x,
     pr_requests := pr_requests r + pr_requests x, pr_dropped := pr_dropped r + pr_dropped x\<rparr>"

definition entity_publisher :: "publisher \<Rightarrow> (string, string) gomap \<Rightarrow> target \<Rightarrow> string \<Rightarrow> publisher" where
  "entity_publisher host links t eid = (let slug = gm_getd [] links (tg_template t) in
     host\<lparr>pb_entity := eid,
          pb_link := (if slug = [] then pb_link host else Some \<lparr>pk_module = tg_module t, pk_slug = slug, pk_entity = pb_entity host\<rparr>)\<rparr>)"

record 'w entities_state =
  et_bufs :: buffers
  et_total :: pub_result
  et_lines :: "line list"
  et_world :: 'w

definition publish_entity :: "'w publish_api \<Rightarrow> (f64 \<Rightarrow> string) \<Rightarrow> ('e, 'w) resolver \<Rightarrow> publisher \<Rightarrow> (string, string) gomap
    \<Rightarrow> 'w entities_state \<Rightarrow> target \<Rightarrow> 'w entities_state" where
  "publish_entity api fmt rv host links st t = (case buffer_for (et_bufs st) t of
       None \<Rightarrow> st
     | Some buf \<Rightarrow> (let b = snapshot buf in
         if batch_empty b then st
         else (case rv_resolve rv (tg_module t) (tg_template t) (tg_key t) (et_world st) of
             (Inl e, w1) \<Rightarrow> st\<lparr>et_total := (et_total st)\<lparr>pr_entities_failed := pr_entities_failed (et_total st) + 1\<rparr>, et_world := w1\<rparr>
           | (Inr (eid, out), w1) \<Rightarrow> (case publish api fmt (entity_publisher host links t eid) b w1 of
               (fail, res, lines, w2) \<Rightarrow> (
                 let total = add_result (et_total st) res;
                     st1 = st\<lparr>et_bufs := (et_bufs st)\<lparr>bs_targets := gm_put t (buffer_ack b (ack_of res) buf) (bs_targets (et_bufs st))\<rparr>,
                              et_lines := et_lines st @ lines, et_world := w2\<rparr>
                 in case fail of
                      None \<Rightarrow> st1\<lparr>et_total := total\<lparr>pr_entities := pr_entities total + 1\<rparr>\<rparr>
                    | Some (EntityGone g) \<Rightarrow> st1\<lparr>et_total := total\<lparr>pr_entities_failed := pr_entities_failed total + 1\<rparr>,
                        et_world := rv_forget rv (tg_template t) (tg_key t) w2\<rparr>
                    | Some e \<Rightarrow> st1\<lparr>et_total := total\<lparr>pr_entities_failed := pr_entities_failed total + 1\<rparr>\<rparr>)))))"

definition publish_all :: "'w publish_api \<Rightarrow> (f64 \<Rightarrow> string) \<Rightarrow> ('e, 'w) resolver \<Rightarrow> publisher \<Rightarrow> (string, string) gomap
    \<Rightarrow> buffers \<Rightarrow> 'w \<Rightarrow> pub_failure option \<times> 'w entities_state" where
  "publish_all api fmt rv host links bufs w = (
     let b = snapshot (bs_host bufs); st0 = \<lparr>et_bufs = bufs, et_total = no_result, et_lines = [], et_world = w\<rparr>;
         rest = (\<lambda>st. foldl (publish_entity api fmt rv host links) st (targets (et_bufs st)))
     in if batch_empty b then (None, rest st0)
        else (case publish api fmt host b w of
            (fail, res, lines, w1) \<Rightarrow> (
              let st1 = \<lparr>et_bufs = bufs\<lparr>bs_host := buffer_ack b (ack_of res) (bs_host bufs)\<rparr>, et_total = add_result no_result res,
                         et_lines = lines, et_world = w1\<rparr>
              in case fail of Some (EntityGone g) \<Rightarrow> (fail, st1) | _ \<Rightarrow> (fail, rest st1))))"

section \<open>One entity at a time\<close>

text \<open>A buffer before and after a publish: untouched, or acknowledged against its own snapshot.\<close>

definition settled_by :: "buffer \<Rightarrow> buffer \<Rightarrow> bool" where
  "settled_by buf buf' \<longleftrightarrow> buf' = buf \<or> (\<exists>res. buf' = buffer_ack (snapshot buf) (ack_of res) buf)"

definition entity_count :: "pub_result \<Rightarrow> int" where
  "entity_count r = pr_entities r + pr_entities_failed r"

lemma targets_ack: "gm_has (bs_targets b) t \<Longrightarrow> fst ` set (gm_put t x (bs_targets b)) = fst ` set (bs_targets b)"
  by (auto simp: gm_has_iff)

lemma buffers_ok_put:
  assumes "buffers_ok b" "gm_get (bs_targets b) t = Some buf" "buffer_ok x"
  shows "buffers_ok (b\<lparr>bs_targets := gm_put t x (bs_targets b)\<rparr>)"
proof -
  have "gm_has (bs_targets b) t" using assms(2) by (simp add: gm_has_def)
  then have "entities_of (b\<lparr>bs_targets := gm_put t x (bs_targets b)\<rparr>) m = entities_of b m" for m
    using targets_ack [of b t x] by (simp add: entities_of_def)
  moreover have "int (card (entities_of b m)) \<le> max_keys_per_module" for m using assms(1) by (metis buffers_ok_def)
  ultimately show ?thesis using assms by (auto simp: buffers_ok_def)
qed

lemma buffers_ok_host: "buffers_ok b \<Longrightarrow> buffer_ok x \<Longrightarrow> buffers_ok (b\<lparr>bs_host := x\<rparr>)"
proof -
  assume ok: "buffers_ok b" "buffer_ok x"
  have "entities_of (b\<lparr>bs_host := x\<rparr>) m = entities_of b m" for m by (simp add: entities_of_def)
  moreover have "int (card (entities_of b m)) \<le> max_keys_per_module" for m using ok(1) by (metis buffers_ok_def)
  ultimately show ?thesis using ok by (simp add: buffers_ok_def)
qed

lemma publish_entity_step:
  assumes "buffers_ok (et_bufs st)"
  shows "buffers_ok (et_bufs (publish_entity api fmt rv host links st t))
    \<and> bs_host (et_bufs (publish_entity api fmt rv host links st t)) = bs_host (et_bufs st)
    \<and> (\<forall>u. u \<noteq> t \<longrightarrow> buffer_for (et_bufs (publish_entity api fmt rv host links st t)) u = buffer_for (et_bufs st) u)
    \<and> rel_option settled_by (buffer_for (et_bufs st) t) (buffer_for (et_bufs (publish_entity api fmt rv host links st t)) t)
    \<and> entity_count (et_total (publish_entity api fmt rv host links st t)) = entity_count (et_total st)
        + (case buffer_for (et_bufs st) t of Some buf \<Rightarrow> if buffer_empty buf then 0 else 1 | None \<Rightarrow> 0)"
proof (cases "buffer_for (et_bufs st) t")
  case None
  then show ?thesis using assms by (simp add: publish_entity_def)
next
  case (Some buf)
  then have buf: "gm_get (bs_targets (et_bufs st)) t = Some buf" "buffer_ok buf" using assms by (auto simp: buffers_ok_def buffer_for_def)
  have same: "rel_option settled_by (Some buf) (Some buf)" by (simp add: settled_by_def)
  show ?thesis
  proof (cases "batch_empty (snapshot buf)")
    case True
    then show ?thesis using assms Some same snapshot_parts [OF buf(2)] by (simp add: publish_entity_def Let_def)
  next
    case False
    note pending = False
    have ne: "\<not> buffer_empty buf" using False snapshot_parts [OF buf(2)] by simp
    obtain r w1 where res: "rv_resolve rv (tg_module t) (tg_template t) (tg_key t) (et_world st) = (r, w1)" by (metis surj_pair)
    show ?thesis
    proof (cases r)
      case (Inl e)
      then show ?thesis using assms Some same pending res ne by (simp add: publish_entity_def Let_def entity_count_def)
    next
      case (Inr ro)
      obtain eid out where ro: "ro = (eid, out)" by (metis surj_pair)
      obtain fail pres lines w2 where pub: "publish api fmt (entity_publisher host links t eid) (snapshot buf) w1 = (fail, pres, lines, w2)"
        by (metis prod_cases4)
      let ?x = "buffer_ack (snapshot buf) (ack_of pres) buf"
      let ?st = "publish_entity api fmt rv host links st t"
      have st: "et_bufs ?st = (et_bufs st)\<lparr>bs_targets := gm_put t ?x (bs_targets (et_bufs st))\<rparr>
          \<and> entity_count (et_total ?st) = entity_count (et_total st) + 1"
        using Some pending res Inr ro pub
        by (simp add: publish_entity_def Let_def entity_count_def add_result_def split: option.split pub_failure.split)
      have "buffers_ok (et_bufs ?st)" using st buffers_ok_put [OF assms buf(1) buffer_ok_ack [OF buf(2)]] by simp
      moreover have "settled_by buf ?x" by (auto simp: settled_by_def)
      ultimately show ?thesis using st Some ne by (simp add: buffer_for_def)
    qed
  qed
qed

lemma publish_entities:
  assumes "buffers_ok (et_bufs st)" "distinct ts"
  shows "let st' = foldl (publish_entity api fmt rv host links) st ts in
    buffers_ok (et_bufs st') \<and> bs_host (et_bufs st') = bs_host (et_bufs st)
    \<and> (\<forall>u. u \<notin> set ts \<longrightarrow> buffer_for (et_bufs st') u = buffer_for (et_bufs st) u)
    \<and> (\<forall>u. rel_option settled_by (buffer_for (et_bufs st) u) (buffer_for (et_bufs st') u))
    \<and> entity_count (et_total st') = entity_count (et_total st)
        + int (length (filter (\<lambda>t. case buffer_for (et_bufs st) t of Some buf \<Rightarrow> \<not> buffer_empty buf | None \<Rightarrow> False) ts))"
  using assms
proof (induction ts arbitrary: st)
  case Nil
  have "rel_option settled_by x x" for x by (cases x) (simp_all add: settled_by_def)
  then show ?case using Nil by simp
next
  case (Cons t ts)
  let ?s1 = "publish_entity api fmt rv host links st t"
  note step = publish_entity_step [OF Cons.prems(1), of api fmt rv host links t]
  then have ok: "buffers_ok (et_bufs ?s1)" by blast
  have d: "distinct ts" "t \<notin> set ts" using Cons.prems(2) by simp_all
  note IH = Cons.IH [OF ok d(1), unfolded Let_def]
  let ?s2 = "foldl (publish_entity api fmt rv host links) ?s1 ts"
  have other: "buffer_for (et_bufs ?s1) u = buffer_for (et_bufs st) u" if "u \<noteq> t" for u using step that by blast
  have "rel_option settled_by (buffer_for (et_bufs st) u) (buffer_for (et_bufs ?s2) u)" for u
  proof (cases "u = t")
    case True
    then show ?thesis using IH step d(2) by simp
  next
    case False
    then show ?thesis using IH other by metis
  qed
  moreover have "filter (\<lambda>t. case buffer_for (et_bufs ?s1) t of Some buf \<Rightarrow> \<not> buffer_empty buf | None \<Rightarrow> False) ts
      = filter (\<lambda>t. case buffer_for (et_bufs st) t of Some buf \<Rightarrow> \<not> buffer_empty buf | None \<Rightarrow> False) ts"
    using other d(2) by (intro filter_cong refl) (metis (no_types, lifting))
  ultimately show ?case using IH step other by (auto simp: Let_def split: option.splits)
qed

lemma publish_all_settles:
  assumes "buffers_ok bufs" "publish_all api fmt rv host links bufs w = (fail, st)"
  shows "buffers_ok (et_bufs st) \<and> settled_by (bs_host bufs) (bs_host (et_bufs st))
    \<and> (\<forall>t. rel_option settled_by (buffer_for bufs t) (buffer_for (et_bufs st) t))
    \<and> (if \<exists>g. fail = Some (EntityGone g) then bs_targets (et_bufs st) = bs_targets bufs \<and> entity_count (et_total st) = 0
       else entity_count (et_total st)
         = int (length (filter (\<lambda>t. case buffer_for bufs t of Some buf \<Rightarrow> \<not> buffer_empty buf | None \<Rightarrow> False) (targets bufs))))"
proof -
  have host: "buffer_ok (bs_host bufs)" and dist: "distinct (targets bufs)" using assms(1) by (simp_all add: buffers_ok_def targets_def)
  have loop: "buffers_ok (et_bufs st') \<and> settled_by (bs_host bufs) (bs_host (et_bufs st'))
      \<and> (\<forall>t. rel_option settled_by (buffer_for bufs t) (buffer_for (et_bufs st') t))
      \<and> entity_count (et_total st')
         = int (length (filter (\<lambda>t. case buffer_for bufs t of Some buf \<Rightarrow> \<not> buffer_empty buf | None \<Rightarrow> False) (targets bufs)))"
    if st': "st' = foldl (publish_entity api fmt rv host links) st0 (targets (et_bufs st0))" and
      st0: "et_bufs st0 = bufs\<lparr>bs_host := x\<rparr>" "buffer_ok x" "settled_by (bs_host bufs) x" "entity_count (et_total st0) = 0" for st' st0 x
  proof -
    have "buffers_ok (et_bufs st0)" using assms(1) st0 by (simp add: buffers_ok_host)
    moreover have "targets (et_bufs st0) = targets bufs" "buffer_for (et_bufs st0) = buffer_for bufs" "bs_host (et_bufs st0) = x"
      using st0 by (simp_all add: targets_def buffer_for_def fun_eq_iff)
    ultimately show ?thesis using publish_entities [of st0 "targets bufs" api fmt rv host links] dist st' st0 by (simp add: Let_def)
  qed
  show ?thesis
  proof (cases "batch_empty (snapshot (bs_host bufs))")
    case True
    then have "fail = None" "st = foldl (publish_entity api fmt rv host links)
        \<lparr>et_bufs = bufs, et_total = no_result, et_lines = [], et_world = w\<rparr> (targets bufs)"
      using assms(2) by (simp_all add: publish_all_def Let_def)
    then show ?thesis
      using loop [of st "\<lparr>et_bufs = bufs, et_total = no_result, et_lines = [], et_world = w\<rparr>" "bs_host bufs"] host
      by (simp add: settled_by_def entity_count_def no_result_def)
  next
    case False
    obtain f res lines w1 where pub: "publish api fmt host (snapshot (bs_host bufs)) w = (f, res, lines, w1)" by (metis prod_cases4)
    let ?x = "buffer_ack (snapshot (bs_host bufs)) (ack_of res) (bs_host bufs)"
    let ?st = "\<lparr>et_bufs = bufs\<lparr>bs_host := ?x\<rparr>, et_total = add_result no_result res, et_lines = lines, et_world = w1\<rparr>"
    have x: "buffer_ok ?x" "settled_by (bs_host bufs) ?x" "entity_count (et_total ?st) = 0"
      using buffer_ok_ack [OF host] by (auto simp: settled_by_def entity_count_def add_result_def no_result_def)
    show ?thesis
    proof (cases "\<exists>g. f = Some (EntityGone g)")
      case True
      then have "fail = f" "st = ?st" using assms(2) False pub by (auto simp: publish_all_def Let_def)
      moreover have "rel_option settled_by y y" for y by (cases y) (simp_all add: settled_by_def)
      moreover have "buffers_ok (bufs\<lparr>bs_host := ?x\<rparr>)" using assms(1) x(1) by (rule buffers_ok_host)
      ultimately show ?thesis using True x by (simp add: buffer_for_def)
    next
      case False
      then have "fail = f" "st = foldl (publish_entity api fmt rv host links) ?st (targets (et_bufs ?st))"
        using assms(2) \<open>\<not> batch_empty _\<close> pub by (auto simp: publish_all_def Let_def split: option.splits pub_failure.splits)
      then show ?thesis using loop [of st ?st ?x] x False by simp
    qed
  qed
qed

lemma publish_all_buffers:
  assumes "buffers_ok bufs" "publish_all api fmt rv host links bufs w = (fail, st)"
  shows "buffers_ok (et_bufs st)"
  using publish_all_settles [OF assms] by blast

text \<open>
  C30: entities are published independently. Whatever the resolver and the platform answer, a publish of
  everything keeps the buffers' invariant, leaves each entity's buffer as it was or acknowledged against
  its own snapshot, and counts every entity with pending samples exactly once, as published or as
  failed. Only when the host's own entity is gone does it stop before the others, and then it touches
  none of their buffers.
\<close>

theorem publish_all_independent:
  assumes "buffers_ok bufs" "publish_all api fmt rv host links bufs w = (fail, st)"
  shows "buffers_ok (et_bufs st) \<and> settled_by (bs_host bufs) (bs_host (et_bufs st))
    \<and> (\<forall>t. rel_option settled_by (buffer_for bufs t) (buffer_for (et_bufs st) t))
    \<and> (if \<exists>g. fail = Some (EntityGone g) then bs_targets (et_bufs st) = bs_targets bufs \<and> entity_count (et_total st) = 0
       else entity_count (et_total st)
         = int (length (filter (\<lambda>t. case buffer_for bufs t of Some buf \<Rightarrow> \<not> buffer_empty buf | None \<Rightarrow> False) (targets bufs))))"
  by (rule publish_all_settles [OF assms])

section \<open>At a concrete input\<close>

definition example_battery :: sample where
  "example_battery = (example_metric 4)\<lparr>sm_target := Target ''ups'' ''ups'' ''ups1''\<rparr>"

definition example_resolver :: "(string, unit) resolver" where
  "example_resolver = \<lparr>rv_resolve = (\<lambda>m tpl key w. (Inl ''down'', w)), rv_forget = (\<lambda>tpl key w. w)\<rparr>"

theorem publish_all_independent_witness:
  "entity_count (et_total (snd (publish_all example_publish_api (\<lambda>f. []) example_resolver example_publisher []
      (buffers_add example_battery (new_buffers 0)) ()))) = 1"
proof -
  let ?b = "buffers_add example_battery (new_buffers 0)"
  obtain fail st where run: "publish_all example_publish_api (\<lambda>f. []) example_resolver example_publisher [] ?b () = (fail, st)"
    by (metis surj_pair)
  have b: "?b = (new_buffers 0)\<lparr>bs_targets := [(sm_target example_battery, buffer_add example_battery (new_buffer 0))], bs_keys := [(''ups'', 1)]\<rparr>"
    by (simp add: buffers_add_def buffers_add_log_def new_buffers_def example_battery_def is_host_target_def host_target_def Let_def
        max_keys_per_module_def gm_get_def gm_put_def gm_inc_def gm_getd_def)
  have "batch_empty (snapshot (bs_host ?b))" unfolding b by (simp add: new_buffers_def new_buffer_def snapshot_def pending_slugs_def batch_empty_def)
  then have "fail = None" using run by (simp add: publish_all_def Let_def)
  moreover have "\<not> buffer_empty (buffer_add example_battery (new_buffer 0))"
    by (simp add: buffer_empty_def buffer_add_def example_battery_def example_metric_def is_metric_def new_buffer_def
        default_max_per_metric_def empty_queue_def gm_getd_def gm_get_def gm_put_def Let_def)
  then have "filter (\<lambda>t. case buffer_for ?b t of Some buf \<Rightarrow> \<not> buffer_empty buf | None \<Rightarrow> False) (targets ?b) = [sm_target example_battery]"
    unfolding b by (simp add: targets_def gm_keys_def buffer_for_def gm_get_def)
  ultimately show ?thesis
    using publish_all_independent [OF buffers_ok_add [OF buffers_ok_new] run] run by simp
qed

end
