(* ===== verification/Scheduler.thy ===== *)
theory Scheduler
  imports Buffers Identity
begin

text \<open>
  \<open>internal/collect/scheduler.go\<close> and clock.go: which sources run (\<open>sources\<close>), one collection of a
  source (\<open>collect_one\<close>), the one-shot \<open>once\<close>, the log that keeps repeated failures quiet, and the
  times at which a source collects. A provider is not called here: its answer (observations, an error,
  a panic) is an argument. Collections of different modules run concurrently in the code; each feeds
  the sink by atomic adds, so the lemmas are about any sink that satisfies its contract.
\<close>

section \<open>Observations and sources\<close>

record obs_entity =
  oe_template :: string
  oe_key :: string

definition host_obs :: obs_entity where
  "host_obs = \<lparr>oe_template = [], oe_key = []\<rparr>"

definition is_host_entity :: "obs_entity \<Rightarrow> bool" where
  "is_host_entity e \<longleftrightarrow> oe_template e = [] \<and> oe_key e = []"

record observation =
  ob_key :: string
  ob_value :: gvalue
  ob_entity :: obs_entity

record source =
  so_module :: string
  so_interval :: int
  so_attrs :: "(string, desired_attr) gomap"
  so_unsupported :: "(string, bool) gomap"
  so_links :: "(string, bool) gomap"
  so_entities :: "(string, string) gomap"

record skipped =
  sk_module :: string
  sk_key :: string
  sk_slug :: string
  sk_platforms :: "string list"

definition platform_union :: "skipped list \<Rightarrow> string list" where
  "platform_union gated = nub_first [] (concat (map sk_platforms gated))"

record attr_split =
  as_attrs :: "(string, desired_attr) gomap"
  as_unsupported :: "(string, bool) gomap"
  as_links :: "(string, bool) gomap"
  as_gated :: "skipped list"

definition split_attr :: "string \<Rightarrow> string \<Rightarrow> attr_split \<Rightarrow> desired_attr \<Rightarrow> attr_split" where
  "split_attr m goos sp a = (
     if da_module a \<noteq> m then sp
     else if da_kind a = KindReference then sp\<lparr>as_links := gm_put (da_key a) True (as_links sp)\<rparr>
     else if collectable (da_platforms a) goos then sp\<lparr>as_attrs := gm_put (da_key a) a (as_attrs sp)\<rparr>
     else sp\<lparr>as_unsupported := gm_put (da_key a) True (as_unsupported sp),
             as_gated := as_gated sp @ [\<lparr>sk_module = m, sk_key = da_key a, sk_slug = da_slug a, sk_platforms = da_platforms a\<rparr>]\<rparr>)"

definition split_attrs :: "string \<Rightarrow> string \<Rightarrow> desired_attr list \<Rightarrow> attr_split" where
  "split_attrs m goos as = foldl (split_attr m goos) \<lparr>as_attrs = [], as_unsupported = [], as_links = [], as_gated = []\<rparr> as"

definition entity_map :: "string \<Rightarrow> desired_template list \<Rightarrow> (string, string) gomap" where
  "entity_map m ts = foldl (\<lambda>acc t. if dt_entity t \<and> dt_module t = m then gm_put (dt_key t) (dt_slug t) acc else acc) [] ts"

text \<open>A module here is its name and its provider's default interval, \<open>None\<close> when it has no provider.\<close>

datatype source_error = NoValues "string list" | BadInterval string

fun sources_loop :: "desired \<Rightarrow> (string, int) gomap \<Rightarrow> string \<Rightarrow> (string \<times> int option) list
    \<Rightarrow> source list \<Rightarrow> skipped list \<Rightarrow> string list \<Rightarrow> source_error + source list \<times> skipped list" where
  "sources_loop d ivs goos [] out skip ps = (if ps \<noteq> [] then Inl (NoValues (sort ps)) else Inr (out, skip))"
| "sources_loop d ivs goos ((name, None) # mods) out skip ps =
     sources_loop d ivs goos mods out skip (if gm_has ivs name then ps @ [name] else ps)"
| "sources_loop d ivs goos ((name, Some def) # mods) out skip ps = (
     let iv = gm_getd def ivs name; sp = split_attrs name goos (d_attributes d) in
     if iv \<le> 0 then Inl (BadInterval name)
     else if as_attrs sp = []
     then sources_loop d ivs goos mods out
            (skip @ [\<lparr>sk_module = name, sk_key = [], sk_slug = [], sk_platforms = platform_union (as_gated sp)\<rparr>]) ps
     else sources_loop d ivs goos mods
            (out @ [\<lparr>so_module = name, so_interval = iv, so_attrs = as_attrs sp, so_unsupported = as_unsupported sp,
               so_links = as_links sp, so_entities = entity_map name (d_templates d)\<rparr>])
            (skip @ as_gated sp) ps)"

definition sources :: "desired \<Rightarrow> (string \<times> int option) list \<Rightarrow> (string, int) gomap \<Rightarrow> string \<Rightarrow> source_error + source list \<times> skipped list" where
  "sources d mods ivs goos = sources_loop d ivs goos mods [] [] []"

section \<open>One collection\<close>

datatype entity_error = NamesNoEntity string | WrongTemplate string string

definition describe_template :: "string \<Rightarrow> string" where
  "describe_template t = (if t = [] then ''the host'' else t)"

definition target_of :: "source \<Rightarrow> desired_attr \<Rightarrow> obs_entity \<Rightarrow> entity_error + target" where
  "target_of src a e = (
     if is_host_entity e \<and> da_entity a = [] then Inr host_target
     else if is_host_entity e then Inl (NamesNoEntity (da_entity a))
     else if oe_template e \<noteq> da_entity a then Inl (WrongTemplate (oe_template e) (describe_template (da_entity a)))
     else Inr (Target (so_module src) (gm_getd [] (so_entities src) (oe_template e)) (oe_key e)))"

datatype obs_drop =
    LinkSetByCore string
  | NotCollectableHere string
  | NotDeclared string
  | WrongEntity string entity_error
  | InvalidKey string key_error
  | InvalidValue string value_error

definition observe :: "source \<Rightarrow> gtime \<Rightarrow> observation \<Rightarrow> obs_drop + sample" where
  "observe src now ob = (
     if gm_on (so_links src) (ob_key ob) then Inl (LinkSetByCore (ob_key ob))
     else (case gm_get (so_attrs src) (ob_key ob) of
         None \<Rightarrow> if gm_on (so_unsupported src) (ob_key ob) then Inl (NotCollectableHere (ob_key ob)) else Inl (NotDeclared (ob_key ob))
       | Some a \<Rightarrow> (case target_of src a (ob_entity ob) of
           Inl e \<Rightarrow> Inl (WrongEntity (ob_key ob) e)
         | Inr t \<Rightarrow> (case (if is_host_target t then None else valid_key (tg_key t)) of
             Some e \<Rightarrow> Inl (InvalidKey (ob_key ob) e)
           | None \<Rightarrow> (case validate_value (da_kind a) (da_options a) (ob_value ob) of
               Inl e \<Rightarrow> Inl (InvalidValue (ob_key ob) e)
             | Inr v \<Rightarrow> Inr \<lparr>sm_module = so_module src, sm_key = ob_key ob, sm_slug = da_slug a, sm_kind = da_kind a,
                 sm_value = v, sm_at = now, sm_target = t\<rparr>)))))"

text \<open>What the provider did; a panic is turned into an error (\<open>safeCollect\<close>).\<close>

datatype answer = Returned "observation list" | FailedWith string | Panicked string

definition safe_collect :: "answer \<Rightarrow> string + observation list" where
  "safe_collect ans = (case ans of Returned os \<Rightarrow> Inr os | FailedWith e \<Rightarrow> Inl e | Panicked r \<Rightarrow> Inl (''provider panicked: '' @ r))"

text \<open>The loop of \<open>collectOne\<close> over any sink: what it drops, how many it keeps, and the sink.\<close>

definition collect_step :: "(sample \<Rightarrow> 's \<Rightarrow> 's) \<Rightarrow> source \<Rightarrow> gtime \<Rightarrow> obs_drop list \<times> nat \<times> 's \<Rightarrow> observation \<Rightarrow> obs_drop list \<times> nat \<times> 's" where
  "collect_step add src now acc ob = (case acc of (drops, kept, st) \<Rightarrow>
     (case observe src now ob of Inl d \<Rightarrow> (drops @ [d], kept, st) | Inr s \<Rightarrow> (drops, kept + 1, add s st)))"

definition collect_one :: "(sample \<Rightarrow> 's \<Rightarrow> 's) \<Rightarrow> source \<Rightarrow> gtime \<Rightarrow> answer \<Rightarrow> 's \<Rightarrow> (string + obs_drop list \<times> nat) \<times> 's" where
  "collect_one add src now ans st = (case safe_collect ans of
       Inl e \<Rightarrow> (Inl e, st)
     | Inr os \<Rightarrow> (case foldl (collect_step add src now) ([], 0, st) os of (drops, kept, st') \<Rightarrow> (Inr (drops, kept), st')))"

text \<open>\<open>Once\<close>: every source once, in the order \<open>srcs\<close> in which the collections happen to end.\<close>

definition once_step :: "(sample \<Rightarrow> 's \<Rightarrow> 's) \<Rightarrow> string list \<times> 's \<Rightarrow> source \<times> gtime \<times> answer \<Rightarrow> string list \<times> 's" where
  "once_step add acc x = (case (acc, x) of ((failed, st), (src, now, ans)) \<Rightarrow>
     (case collect_one add src now ans st of
        (Inl e, st') \<Rightarrow> (failed @ [so_module src], st')
      | (Inr r, st') \<Rightarrow> (failed, st')))"

definition once :: "(sample \<Rightarrow> 's \<Rightarrow> 's) \<Rightarrow> (source \<times> gtime \<times> answer) list \<Rightarrow> 's \<Rightarrow> string list \<times> 's" where
  "once add srcs st = (case foldl (once_step add) ([], st) srcs of (failed, st') \<Rightarrow> (sort failed, st'))"

section \<open>The failure log\<close>

record failure_log =
  fl_reason :: "(string, string) gomap"
  fl_streak :: "(string, int) gomap"
  fl_pending :: "(string, int) gomap"

datatype log_record = WarnFailed string string | DebugAgain string string int | InfoRecovered string int | NoRecord

definition new_failure_log :: failure_log where
  "new_failure_log = \<lparr>fl_reason = [], fl_streak = [], fl_pending = []\<rparr>"

definition log_failed :: "string \<Rightarrow> string \<Rightarrow> failure_log \<Rightarrow> log_record \<times> failure_log" where
  "log_failed m reason f = (let f1 = f\<lparr>fl_streak := gm_inc m (fl_streak f)\<rparr> in
     if gm_getd [] (fl_reason f) m \<noteq> reason
     then (WarnFailed m reason, f1\<lparr>fl_reason := gm_put m reason (fl_reason f)\<rparr>)
     else (DebugAgain m reason (gm_getd 0 (fl_streak f1) m), f1\<lparr>fl_pending := gm_inc m (fl_pending f)\<rparr>))"

definition log_succeeded :: "string \<Rightarrow> failure_log \<Rightarrow> log_record \<times> failure_log" where
  "log_succeeded m f = (let n = gm_getd 0 (fl_streak f) m in
     (if 0 < n then InfoRecovered m n else NoRecord,
      f\<lparr>fl_streak := gm_del m (fl_streak f), fl_reason := gm_del m (fl_reason f)\<rparr>))"

definition log_take :: "failure_log \<Rightarrow> (string, int) gomap \<times> failure_log" where
  "log_take f = (fl_pending f, f\<lparr>fl_pending := []\<rparr>)"

section \<open>When a source collects\<close>

text \<open>
  The loop of \<open>Run\<close> for one source, given how long each collection takes and how much later than asked
  each sleep ends: the times at which the collections start.
\<close>

definition next_start :: "int \<Rightarrow> int \<Rightarrow> int \<Rightarrow> int \<Rightarrow> int" where
  "next_start interval start now late = (let wait = interval - (now - start) in if wait \<le> 0 then now else now + wait + late)"

fun run_starts :: "int \<Rightarrow> int \<Rightarrow> (int \<times> int) list \<Rightarrow> int list" where
  "run_starts interval start [] = [start]"
| "run_starts interval start ((dur, late) # rest) = start # run_starts interval (next_start interval start (start + dur) late) rest"

section \<open>Which sources run\<close>

definition collects_here :: "string \<Rightarrow> string \<Rightarrow> desired_attr \<Rightarrow> bool" where
  "collects_here m goos a \<longleftrightarrow> da_module a = m \<and> da_kind a \<noteq> KindReference \<and> collectable (da_platforms a) goos"

lemma split_attrs_from:
  "let r = foldl (split_attr m goos) sp as in
    (\<forall>k. gm_has (as_attrs r) k \<longleftrightarrow> gm_has (as_attrs sp) k \<or> k \<in> da_key ` {a \<in> set as. collects_here m goos a})
    \<and> (\<forall>k. gm_on (as_links r) k \<longleftrightarrow> gm_on (as_links sp) k \<or> k \<in> da_key ` {a \<in> set as. da_module a = m \<and> da_kind a = KindReference})
    \<and> (\<forall>k. gm_on (as_unsupported r) k \<longleftrightarrow> gm_on (as_unsupported sp) k
        \<or> k \<in> da_key ` {a \<in> set as. da_module a = m \<and> da_kind a \<noteq> KindReference \<and> \<not> collectable (da_platforms a) goos})
    \<and> (\<forall>k a. gm_get (as_attrs r) k = Some a \<longrightarrow> gm_get (as_attrs sp) k = Some a \<or> (a \<in> set as \<and> collects_here m goos a \<and> da_key a = k))"
proof (induction as arbitrary: sp)
  case Nil
  then show ?case by simp
next
  case (Cons a as)
  let ?sp = "split_attr m goos sp a"
  have step: "gm_has (as_attrs ?sp) k \<longleftrightarrow> gm_has (as_attrs sp) k \<or> (collects_here m goos a \<and> k = da_key a)"
      "gm_on (as_links ?sp) k \<longleftrightarrow> gm_on (as_links sp) k \<or> (da_module a = m \<and> da_kind a = KindReference \<and> k = da_key a)"
      "gm_on (as_unsupported ?sp) k \<longleftrightarrow> gm_on (as_unsupported sp) k
        \<or> (da_module a = m \<and> da_kind a \<noteq> KindReference \<and> \<not> collectable (da_platforms a) goos \<and> k = da_key a)"
      "gm_get (as_attrs ?sp) k = Some b \<Longrightarrow> gm_get (as_attrs sp) k = Some b \<or> (b = a \<and> collects_here m goos a \<and> da_key a = k)" for k b
    by (auto simp: split_attr_def collects_here_def split: if_splits)
  note IH = Cons.IH [of ?sp, unfolded Let_def]
  show ?case unfolding Let_def foldl.simps
  proof (intro conjI allI impI)
    fix k
    show "gm_has (as_attrs (foldl (split_attr m goos) ?sp as)) k \<longleftrightarrow>
        gm_has (as_attrs sp) k \<or> k \<in> da_key ` {x \<in> set (a # as). collects_here m goos x}"
      using conjunct1 [OF IH] step(1) by auto
    show "gm_on (as_links (foldl (split_attr m goos) ?sp as)) k \<longleftrightarrow>
        gm_on (as_links sp) k \<or> k \<in> da_key ` {x \<in> set (a # as). da_module x = m \<and> da_kind x = KindReference}"
      using conjunct1 [OF conjunct2 [OF IH]] step(2) by auto
    show "gm_on (as_unsupported (foldl (split_attr m goos) ?sp as)) k \<longleftrightarrow> gm_on (as_unsupported sp) k
        \<or> k \<in> da_key ` {x \<in> set (a # as). da_module x = m \<and> da_kind x \<noteq> KindReference \<and> \<not> collectable (da_platforms x) goos}"
      using conjunct1 [OF conjunct2 [OF conjunct2 [OF IH]]] step(3) by auto
  next
    fix k b assume "gm_get (as_attrs (foldl (split_attr m goos) ?sp as)) k = Some b"
    then show "gm_get (as_attrs sp) k = Some b \<or> (b \<in> set (a # as) \<and> collects_here m goos b \<and> da_key b = k)"
      using conjunct2 [OF conjunct2 [OF conjunct2 [OF IH]]] step(4) by fastforce
  qed
qed

text \<open>What a source knows about its module's attributes, against the desired schema.\<close>

definition source_matches :: "desired \<Rightarrow> string \<Rightarrow> source \<Rightarrow> bool" where
  "source_matches d goos src \<longleftrightarrow> 0 < so_interval src
     \<and> (\<forall>k. gm_has (so_attrs src) k \<longleftrightarrow> k \<in> da_key ` {a \<in> set (d_attributes d). collects_here (so_module src) goos a})
     \<and> (\<forall>k a. gm_get (so_attrs src) k = Some a \<longrightarrow> a \<in> set (d_attributes d) \<and> collects_here (so_module src) goos a \<and> da_key a = k)
     \<and> (\<forall>k. gm_on (so_links src) k \<longleftrightarrow> k \<in> da_key ` {a \<in> set (d_attributes d). da_module a = so_module src \<and> da_kind a = KindReference})
     \<and> (\<forall>k. gm_on (so_unsupported src) k \<longleftrightarrow> k \<in> da_key ` {a \<in> set (d_attributes d).
          da_module a = so_module src \<and> da_kind a \<noteq> KindReference \<and> \<not> collectable (da_platforms a) goos})"

lemma split_attrs_eqs:
  "gm_has (as_attrs (split_attrs m goos as)) k \<longleftrightarrow> k \<in> da_key ` {a \<in> set as. collects_here m goos a}"
  "gm_on (as_links (split_attrs m goos as)) k \<longleftrightarrow> k \<in> da_key ` {a \<in> set as. da_module a = m \<and> da_kind a = KindReference}"
  "gm_on (as_unsupported (split_attrs m goos as)) k
    \<longleftrightarrow> k \<in> da_key ` {a \<in> set as. da_module a = m \<and> da_kind a \<noteq> KindReference \<and> \<not> collectable (da_platforms a) goos}"
  "gm_get (as_attrs (split_attrs m goos as)) k = Some a \<Longrightarrow> a \<in> set as \<and> collects_here m goos a \<and> da_key a = k"
proof -
  note f = split_attrs_from [of m goos "\<lparr>as_attrs = [], as_unsupported = [], as_links = [], as_gated = []\<rparr>" as,
      unfolded Let_def, folded split_attrs_def]
  show "gm_has (as_attrs (split_attrs m goos as)) k \<longleftrightarrow> k \<in> da_key ` {a \<in> set as. collects_here m goos a}"
    using conjunct1 [OF f] by simp
  show "gm_on (as_links (split_attrs m goos as)) k \<longleftrightarrow> k \<in> da_key ` {a \<in> set as. da_module a = m \<and> da_kind a = KindReference}"
    using conjunct1 [OF conjunct2 [OF f]] by simp
  show "gm_on (as_unsupported (split_attrs m goos as)) k
      \<longleftrightarrow> k \<in> da_key ` {a \<in> set as. da_module a = m \<and> da_kind a \<noteq> KindReference \<and> \<not> collectable (da_platforms a) goos}"
    using conjunct1 [OF conjunct2 [OF conjunct2 [OF f]]] by simp
  show "gm_get (as_attrs (split_attrs m goos as)) k = Some a \<Longrightarrow> a \<in> set as \<and> collects_here m goos a \<and> da_key a = k"
    using conjunct2 [OF conjunct2 [OF conjunct2 [OF f]]] by simp
qed

lemma split_attrs_empty: "as_attrs (split_attrs m goos as) = [] \<longleftrightarrow> (\<forall>a \<in> set as. \<not> collects_here m goos a)"
proof -
  have "as_attrs (split_attrs m goos as) = [] \<longleftrightarrow> (\<forall>k. \<not> gm_has (as_attrs (split_attrs m goos as)) k)"
    by (cases "as_attrs (split_attrs m goos as)") (auto simp: gm_has_iff)
  then show ?thesis by (auto simp: split_attrs_eqs(1))
qed

definition scheduled :: "desired \<Rightarrow> string \<Rightarrow> (string \<times> int option) list \<Rightarrow> string list" where
  "scheduled d goos mods = map fst (filter (\<lambda>(n, p). p \<noteq> None \<and> (\<exists>a \<in> set (d_attributes d). collects_here n goos a)) mods)"

lemma sources_loop_ok:
  assumes "sources_loop d ivs goos mods out skip ps = Inr (srcs, skips)"
  shows "(\<exists>new. srcs = out @ new \<and> map so_module new = scheduled d goos mods
      \<and> (\<forall>src \<in> set new. source_matches d goos src \<and> so_entities src = entity_map (so_module src) (d_templates d)
          \<and> (\<exists>def. (so_module src, Some def) \<in> set mods \<and> so_interval src = gm_getd def ivs (so_module src))))
    \<and> ps = [] \<and> (\<forall>n. (n, None) \<in> set mods \<longrightarrow> \<not> gm_has ivs n)"
  using assms
proof (induction mods arbitrary: out skip ps)
  case Nil
  then show ?case by (auto simp: scheduled_def split: if_splits)
next
  case (Cons m mods)
  obtain name p where m: "m = (name, p)" by fastforce
  show ?case
  proof (cases p)
    case None
    have same: "scheduled d goos (m # mods) = scheduled d goos mods" by (simp add: m None scheduled_def)
    from Cons.IH [OF Cons.prems [unfolded m None sources_loop.simps]] show ?thesis
      unfolding same by (simp only: m None list.set split: if_splits) blast+
  next
    case (Some def)
    let ?sp = "split_attrs name goos (d_attributes d)" and ?iv = "gm_getd def ivs name"
    have iv: "\<not> ?iv \<le> 0" using Cons.prems by (auto simp: m Some Let_def split: if_splits)
    show ?thesis
    proof (cases "as_attrs ?sp = []")
      case True
      have run: "sources_loop d ivs goos mods out (skip @ [\<lparr>sk_module = name, sk_key = [], sk_slug = [],
          sk_platforms = platform_union (as_gated ?sp)\<rparr>]) ps = Inr (srcs, skips)"
        using Cons.prems iv True by (simp add: m Some Let_def)
      have same: "scheduled d goos (m # mods) = scheduled d goos mods"
        using True by (auto simp: m Some scheduled_def split_attrs_empty)
      from Cons.IH [OF run] show ?thesis unfolding same by (simp only: m Some list.set) blast
    next
      case False
      let ?src = "\<lparr>so_module = name, so_interval = ?iv, so_attrs = as_attrs ?sp, so_unsupported = as_unsupported ?sp,
        so_links = as_links ?sp, so_entities = entity_map name (d_templates d)\<rparr>"
      have run: "sources_loop d ivs goos mods (out @ [?src]) (skip @ as_gated ?sp) ps = Inr (srcs, skips)"
        using Cons.prems iv False by (simp add: m Some Let_def)
      have good: "source_matches d goos ?src" using iv split_attrs_eqs by (simp add: source_matches_def)
      have hd: "\<exists>a \<in> set (d_attributes d). collects_here name goos a" using False by (simp add: split_attrs_empty)
      from Cons.IH [OF run] obtain new where new: "srcs = (out @ [?src]) @ new" "map so_module new = scheduled d goos mods"
          "\<forall>src \<in> set new. source_matches d goos src \<and> so_entities src = entity_map (so_module src) (d_templates d)
            \<and> (\<exists>def. (so_module src, Some def) \<in> set mods \<and> so_interval src = gm_getd def ivs (so_module src))"
          "ps = []" "\<forall>n. (n, None) \<in> set mods \<longrightarrow> \<not> gm_has ivs n" by blast
      have "\<exists>new. srcs = out @ new \<and> map so_module new = scheduled d goos (m # mods)
          \<and> (\<forall>src \<in> set new. source_matches d goos src \<and> so_entities src = entity_map (so_module src) (d_templates d)
            \<and> (\<exists>def. (so_module src, Some def) \<in> set (m # mods) \<and> so_interval src = gm_getd def ivs (so_module src)))"
        using new(1-3) good hd by (intro exI [of _ "?src # new"]) (auto simp: m Some scheduled_def)
      then show ?thesis using new(4,5) by (auto simp: m Some)
    qed
  qed
qed

text \<open>
  The scheduled sources are, in module order, exactly the modules with a provider and at least one
  attribute collectable on this platform; each knows exactly its module's collectable attributes, its
  host links and what the platform cannot report, and runs at the operator's interval or its default,
  which is positive. No interval is configured for a module without a provider.
\<close>

lemma sources_exact:
  assumes "sources d mods ivs goos = Inr (srcs, skips)"
  shows "map so_module srcs = scheduled d goos mods
    \<and> (\<forall>src \<in> set srcs. source_matches d goos src \<and> so_entities src = entity_map (so_module src) (d_templates d)
        \<and> (\<exists>def. (so_module src, Some def) \<in> set mods \<and> so_interval src = gm_getd def ivs (so_module src)))
    \<and> (\<forall>n. (n, None) \<in> set mods \<longrightarrow> \<not> gm_has ivs n)"
  using sources_loop_ok [OF assms [unfolded sources_def]] by auto

section \<open>What a collection feeds\<close>

definition good_samples :: "source \<Rightarrow> gtime \<Rightarrow> observation list \<Rightarrow> sample list" where
  "good_samples src now os = concat (map (\<lambda>ob. case observe src now ob of Inl _ \<Rightarrow> [] | Inr s \<Rightarrow> [s]) os)"

definition dropped :: "source \<Rightarrow> gtime \<Rightarrow> observation list \<Rightarrow> obs_drop list" where
  "dropped src now os = concat (map (\<lambda>ob. case observe src now ob of Inl d \<Rightarrow> [d] | Inr _ \<Rightarrow> []) os)"

lemma collect_loop:
  "foldl (collect_step add src now) (drops, kept, st) os
    = (drops @ dropped src now os, kept + length (good_samples src now os), foldl (\<lambda>st s. add s st) st (good_samples src now os))"
  by (induction os arbitrary: drops kept st)
    (auto simp: collect_step_def dropped_def good_samples_def split: sum.splits)

lemma collect_one_eq:
  "collect_one add src now ans st = (case safe_collect ans of
     Inl e \<Rightarrow> (Inl e, st)
   | Inr os \<Rightarrow> (Inr (dropped src now os, length (good_samples src now os)), foldl (\<lambda>st s. add s st) st (good_samples src now os)))"
  by (simp add: collect_one_def collect_loop split: sum.splits)

text \<open>
  What a sample should be, apart from its target; and its target: the host for an attribute of the host, else an entity of
  the attribute's template, with a valid key.
\<close>

definition fits_attr :: "source \<Rightarrow> gtime \<Rightarrow> sample \<Rightarrow> desired_attr \<Rightarrow> bool" where
  "fits_attr src now s a \<longleftrightarrow> gm_get (so_attrs src) (sm_key s) = Some a \<and> \<not> gm_on (so_links src) (sm_key s)
     \<and> sm_module s = so_module src \<and> sm_slug s = da_slug a \<and> sm_kind s = da_kind a \<and> sm_at s = now
     \<and> value_of_kind (da_kind a) (da_options a) (sm_value s)"

definition sample_ok :: "source \<Rightarrow> gtime \<Rightarrow> sample \<Rightarrow> bool" where
  "sample_ok src now s \<longleftrightarrow> (\<exists>a. fits_attr src now s a
     \<and> (if sm_target s = host_target then da_entity a = []
        else da_entity a \<noteq> [] \<and> tg_module (sm_target s) = so_module src
           \<and> tg_template (sm_target s) = gm_getd [] (so_entities src) (da_entity a) \<and> valid_key (tg_key (sm_target s)) = None))"

text \<open>
  The exception: an observation of a host attribute whose entity has a key but no template, which \<open>targetOf\<close> takes for
  an entity of no template although it is not the host and no entity of the attribute.
\<close>

definition half_entity :: "obs_entity \<Rightarrow> bool" where
  "half_entity e \<longleftrightarrow> oe_template e = [] \<and> oe_key e \<noteq> []"

definition stray :: "source \<Rightarrow> gtime \<Rightarrow> observation list \<Rightarrow> sample \<Rightarrow> bool" where
  "stray src now os s \<longleftrightarrow> (\<exists>a. \<exists>ob \<in> set os. fits_attr src now s a \<and> half_entity (ob_entity ob) \<and> da_entity a = []
     \<and> sm_target s = Target (so_module src) (gm_getd [] (so_entities src) []) (oe_key (ob_entity ob))
     \<and> valid_key (oe_key (ob_entity ob)) = None)"

lemma target_of_ok:
  assumes "target_of src a e = Inr t" "so_module src \<noteq> []"
  shows "if t = host_target then is_host_entity e \<and> da_entity a = []
    else t = Target (so_module src) (gm_getd [] (so_entities src) (da_entity a)) (oe_key e) \<and> (da_entity a = [] \<longrightarrow> half_entity e)"
  using assms by (auto simp: target_of_def host_target_def half_entity_def is_host_entity_def split: if_splits)

lemma observe_ok:
  assumes "observe src now ob = Inr s" "so_module src \<noteq> []" "ob \<in> set os"
  shows "sample_ok src now s \<or> stray src now os s"
proof -
  from assms(1) obtain a t v where a: "gm_get (so_attrs src) (ob_key ob) = Some a" "\<not> gm_on (so_links src) (ob_key ob)"
      and t: "target_of src a (ob_entity ob) = Inr t" and k: "\<not> is_host_target t \<longrightarrow> valid_key (tg_key t) = None"
      and v: "validate_value (da_kind a) (da_options a) (ob_value ob) = Inr v"
      and s: "s = \<lparr>sm_module = so_module src, sm_key = ob_key ob, sm_slug = da_slug a, sm_kind = da_kind a, sm_value = v, sm_at = now, sm_target = t\<rparr>"
    by (auto simp: observe_def split: if_splits option.splits sum.splits)
  have f: "fits_attr src now s a" using a validate_value_typed [OF v] by (simp add: fits_attr_def s)
  note tgt = target_of_ok [OF t assms(2)]
  show ?thesis
  proof (cases "t = host_target \<or> da_entity a \<noteq> []")
    case True
    then show ?thesis using f tgt k by (auto simp: sample_ok_def s is_host_target_def split: if_splits)
  next
    case False
    then show ?thesis using f tgt k assms(3) by (auto simp: stray_def s is_host_target_def)
  qed
qed

lemma good_samples_ok: "so_module src \<noteq> [] \<Longrightarrow> s \<in> set (good_samples src now os) \<Longrightarrow> sample_ok src now s \<or> stray src now os s"
  by (auto simp: good_samples_def dest: observe_ok [OF sym] split: sum.splits)

text \<open>The observations of an answer; a provider that fails has none.\<close>

definition returned_obs :: "answer \<Rightarrow> observation list" where
  "returned_obs ans = (case safe_collect ans of Inl e \<Rightarrow> [] | Inr os \<Rightarrow> os)"

text \<open>The collection as a client of any sink.\<close>

context sink
begin

lemma collect_inv: "inv st \<Longrightarrow> inv (snd (collect_one add src now ans st))"
  by (auto simp: collect_one_eq feed_inv split: sum.splits)

lemma collect_from:
  assumes "inv st" "so_module src \<noteq> []"
  shows "set (pending (snd (collect_one add src now ans st)) k) \<subseteq> set (pending st k) \<union> {s. (sample_ok src now s \<or> stray src now (returned_obs ans) s) \<and> place s = k}"
proof (cases "safe_collect ans")
  case (Inl e)
  then show ?thesis by (simp add: collect_one_eq)
next
  case (Inr os)
  have "set (pending (foldl (\<lambda>st s. add s st) st (good_samples src now os)) k)
      \<subseteq> set (pending st k) \<union> {s \<in> set (good_samples src now os). place s = k}"
    by (rule feed_from [OF assms(1)])
  then show ?thesis using good_samples_ok [OF assms(2)] by (simp add: collect_one_eq returned_obs_def Inr) blast
qed

end

text \<open>
  A collection feeds the sink exactly the observations that are in order, in the order the provider
  returned them, and accounts for every other one; a provider that fails or panics leaves the sink as it
  was. This holds for any sink.
\<close>

lemma collect_one_exact:
  "collect_one add src now (Returned os) st
      = (Inr (dropped src now os, length (good_samples src now os)), foldl (\<lambda>st s. add s st) st (good_samples src now os))
    \<and> length (dropped src now os) + length (good_samples src now os) = length os
    \<and> collect_one add src now (FailedWith e) st = (Inl e, st)
    \<and> collect_one add src now (Panicked r) st = (Inl (''provider panicked: '' @ r), st)"
proof -
  have "length (dropped src now os) + length (good_samples src now os) = length os"
    by (induction os) (auto simp: dropped_def good_samples_def split: sum.splits)
  then show ?thesis by (simp add: collect_one_eq safe_collect_def)
qed

text \<open>
  C9: whatever a provider returns, everything pending after a collection was pending before or is a well-formed sample for
  that place, and the buffers' invariant holds. Well-formed is: a declared, collectable attribute of the source that is no host
  link, under its resolved slug, with a value of its kind, stamped with the collection's time; for the host when the attribute is
  the host's, else for a validly keyed entity of the source's module under the slug of the attribute's own template. There is one
  exception, exactly delimited: an observation of a host attribute that names a key but no template is taken, for an entity of no
  declared template; when no observation of the answer does that, every new sample is well-formed.
\<close>

theorem collect_sound:
  assumes "buffers_ok b" "so_module src \<noteq> []"
  shows "buffers_ok (snd (collect_one buffers_add src now ans b))
    \<and> set (buffers_pending (snd (collect_one buffers_add src now ans b)) (t, slug))
        \<subseteq> set (buffers_pending b (t, slug))
          \<union> {s. (sample_ok src now s \<or> stray src now (returned_obs ans) s) \<and> sm_target s = t \<and> sm_slug s = slug}
    \<and> ((\<exists>ob \<in> set (returned_obs ans). half_entity (ob_entity ob))
       \<or> set (buffers_pending (snd (collect_one buffers_add src now ans b)) (t, slug))
          \<subseteq> set (buffers_pending b (t, slug)) \<union> {s. sample_ok src now s \<and> sm_target s = t \<and> sm_slug s = slug})"
  using buffers_sink.collect_inv [OF assms(1)] buffers_sink.collect_from [OF assms, of now ans "(t, slug)"]
  by (auto simp: sample_place_def stray_def)

text \<open>Such an observation does reach the buffers: the target is neither the host nor an entity of the attribute's template.\<close>

lemma half_entity_taken:
  assumes "gm_get (so_attrs src) k = Some a" "\<not> gm_on (so_links src) k" "da_entity a = []" "so_module src \<noteq> []" "valid_key x = None" "x \<noteq> []"
    "validate_value (da_kind a) (da_options a) v = Inr c"
  shows "\<exists>s. observe src now \<lparr>ob_key = k, ob_value = v, ob_entity = \<lparr>oe_template = [], oe_key = x\<rparr>\<rparr> = Inr s
    \<and> sm_target s = Target (so_module src) (gm_getd [] (so_entities src) []) x \<and> \<not> sample_ok src now s"
  using assms by (auto simp: observe_def target_of_def is_host_entity_def is_host_target_def host_target_def sample_ok_def fits_attr_def)

definition answer_failed :: "answer \<Rightarrow> bool" where
  "answer_failed ans = (case ans of Returned _ \<Rightarrow> False | _ \<Rightarrow> True)"

lemma once_step_eq:
  "once_step add (failed, st) (src, now, ans)
    = (if answer_failed ans then failed @ [so_module src] else failed, snd (collect_one add src now ans st))"
  by (cases ans) (simp_all add: once_step_def collect_one_eq safe_collect_def answer_failed_def)

text \<open>
  The one-shot reports exactly the modules whose collection failed, sorted, whatever the order in
  which the concurrent collections ended.
\<close>

lemma once_failures:
  "fst (once add srcs st) = sort (map (\<lambda>(src, now, ans). so_module src) (filter (\<lambda>(src, now, ans). answer_failed ans) srcs))"
proof -
  have "fst (foldl (once_step add) (failed, st) srcs)
      = failed @ map (\<lambda>(src, now, ans). so_module src) (filter (\<lambda>(src, now, ans). answer_failed ans) srcs)" for failed
  proof (induction srcs arbitrary: failed st)
    case (Cons x srcs)
    obtain src now ans where x: "x = (src, now, ans)" by (metis prod_cases3)
    show ?case by (simp add: x once_step_eq Cons.IH)
  qed simp
  then show ?thesis by (simp add: once_def split: prod.splits) (metis append_Nil fst_conv)
qed

section \<open>Repeated failures\<close>

datatype log_event = EvFailed string string | EvSucceeded string | EvTake

definition log_step :: "failure_log \<Rightarrow> log_event \<Rightarrow> log_record \<times> failure_log" where
  "log_step f ev = (case ev of EvFailed m r \<Rightarrow> log_failed m r f | EvSucceeded m \<Rightarrow> log_succeeded m f | EvTake \<Rightarrow> (NoRecord, snd (log_take f)))"

definition log_run :: "log_event list \<Rightarrow> failure_log" where
  "log_run evs = foldl (\<lambda>f ev. snd (log_step f ev)) new_failure_log evs"

text \<open>The reasons of a module's current streak, the oldest first.\<close>

definition streak_step :: "string \<Rightarrow> string list \<Rightarrow> log_event \<Rightarrow> string list" where
  "streak_step m rs ev = (case ev of EvFailed m' r \<Rightarrow> if m' = m then rs @ [r] else rs
     | EvSucceeded m' \<Rightarrow> if m' = m then [] else rs | EvTake \<Rightarrow> rs)"

definition streak_of :: "string \<Rightarrow> log_event list \<Rightarrow> string list" where
  "streak_of m evs = foldl (streak_step m) [] evs"

definition last_reason :: "string list \<Rightarrow> string" where
  "last_reason rs = (if rs = [] then [] else last rs)"

definition log_abs :: "failure_log \<Rightarrow> string \<Rightarrow> string list \<Rightarrow> bool" where
  "log_abs f m rs \<longleftrightarrow> gm_getd 0 (fl_streak f) m = int (length rs) \<and> gm_getd [] (fl_reason f) m = last_reason rs"

lemma log_abs_step: "log_abs f m rs \<Longrightarrow> log_abs (snd (log_step f ev)) m (streak_step m rs ev)"
  by (auto simp: log_abs_def log_step_def streak_step_def log_failed_def log_succeeded_def log_take_def last_reason_def Let_def
      split: log_event.splits)

lemma log_abs_run: "log_abs (log_run evs) m (streak_of m evs)"
proof -
  have "log_abs f m rs \<Longrightarrow> log_abs (foldl (\<lambda>f ev. snd (log_step f ev)) f evs) m (foldl (streak_step m) rs evs)" for f rs
    by (induction evs arbitrary: f rs) (simp_all add: log_abs_step)
  then show ?thesis by (simp add: log_run_def streak_of_def log_abs_def new_failure_log_def last_reason_def)
qed

text \<open>
  After any history, a failure is a warning exactly when its reason differs from the module's
  previous failure in the current streak (or starts one); a repeat is a debug record with the streak's
  length and is counted; and the first success after failures says how many there were.
\<close>

lemma failures_logged_once:
  assumes "r \<noteq> []"
  shows "fst (log_failed m r (log_run evs)) =
      (if streak_of m evs \<noteq> [] \<and> last (streak_of m evs) = r then DebugAgain m r (int (length (streak_of m evs)) + 1) else WarnFailed m r)
    \<and> gm_getd 0 (fl_pending (snd (log_failed m r (log_run evs)))) m = gm_getd 0 (fl_pending (log_run evs)) m
        + (if streak_of m evs \<noteq> [] \<and> last (streak_of m evs) = r then 1 else 0)
    \<and> fst (log_succeeded m (log_run evs)) = (if streak_of m evs = [] then NoRecord else InfoRecovered m (int (length (streak_of m evs))))"
  using log_abs_run [of evs m] assms
  by (auto simp: log_abs_def log_failed_def log_succeeded_def last_reason_def Let_def)

section \<open>Cadence\<close>

lemma run_starts_length [simp]: "length (run_starts interval start ds) = Suc (length ds)"
  by (induction interval start ds rule: run_starts.induct) auto

lemma run_starts_first: "run_starts interval start ds ! 0 = start"
  by (cases ds) auto

text \<open>
  A source's collections never overlap and never run more often than its interval allows: each
  starts no earlier than the end of the one before it and no earlier than one interval after its
  start; and when every sleep ends on time and no collection overruns, they start exactly one interval
  apart.
\<close>

lemma cadence:
  assumes "\<forall>(dur, late) \<in> set ds. 0 \<le> dur \<and> 0 \<le> late" "i < length ds"
  shows "let ts = run_starts interval start ds in
      ts ! i + fst (ds ! i) \<le> ts ! Suc i \<and> ts ! i + interval \<le> ts ! Suc i
      \<and> (fst (ds ! i) \<le> interval \<longrightarrow> snd (ds ! i) = 0 \<longrightarrow> ts ! Suc i = ts ! i + interval)"
  using assms
proof (induction interval start ds arbitrary: i rule: run_starts.induct)
  case (2 interval start dur late rest)
  show ?case
  proof (cases i)
    case 0
    then show ?thesis using 2(2) by (auto simp: run_starts_first next_start_def Let_def)
  next
    case (Suc j)
    then show ?thesis using 2(1) [of j] 2(2,3) by (auto simp: Let_def)
  qed
qed simp

section \<open>An example source\<close>

definition example_source :: source where
  "example_source = \<lparr>so_module = ''cpu'', so_interval = 60,
     so_attrs = [(''load'', \<lparr>da_slug = ''cpu_load'', da_name = ''Load'', da_desc = [], da_kind = KindMetric, da_options = [],
       da_templates = [''host''], da_module = ''cpu'', da_key = ''load'', da_platforms = [], da_entity = [], da_target = [], da_display = []\<rparr>)],
     so_unsupported = [], so_links = [], so_entities = []\<rparr>"

definition example_observations :: "observation list" where
  "example_observations = [\<lparr>ob_key = ''load'', ob_value = VF64 (Fin 1), ob_entity = host_obs\<rparr>,
     \<lparr>ob_key = ''model'', ob_value = VNil, ob_entity = host_obs\<rparr>]"

definition example_schema :: desired where
  "example_schema = \<lparr>d_host = ''host'', d_templates = [], d_attributes = map snd (so_attrs example_source)\<rparr>"

lemma sources_exact_witness:
  "map so_module [example_source] = scheduled example_schema ''linux'' [(''cpu'', Some 60), (''memory'', Some 60)]"
proof -
  have "sources example_schema [(''cpu'', Some 60), (''memory'', Some 60)] [] ''linux''
      = Inr ([example_source], [\<lparr>sk_module = ''memory'', sk_key = [], sk_slug = [], sk_platforms = []\<rparr>])"
    by (simp add: sources_def example_schema_def example_source_def split_attrs_def split_attr_def collectable_def
        entity_map_def gm_put_def platform_union_def Let_def)
  from sources_exact [OF this] show ?thesis by blast
qed

theorem collect_sound_witness:
  "buffers_ok (snd (collect_one buffers_add example_source 7 (Returned example_observations) (new_buffers 0)))
   \<and> set (buffers_pending (snd (collect_one buffers_add example_source 7 (Returned example_observations) (new_buffers 0))) (host_target, ''cpu_load''))
        \<subseteq> {s. sample_ok example_source 7 s \<and> sm_target s = host_target}"
proof -
  have "so_module example_source \<noteq> []" by (simp add: example_source_def)
  note c = collect_sound [OF buffers_ok_new this, of 7 "Returned example_observations" 0 host_target "''cpu_load''"]
  have "\<not> (\<exists>ob \<in> set (returned_obs (Returned example_observations)). half_entity (ob_entity ob))"
    by (simp add: returned_obs_def safe_collect_def example_observations_def half_entity_def host_obs_def)
  moreover have "buffers_pending (new_buffers 0) (host_target, ''cpu_load'') = []" by code_simp
  ultimately show ?thesis using c by auto
qed

lemma failures_logged_once_witness:
  "fst (log_failed ''ups'' ''eof'' (log_run [EvFailed ''ups'' ''eof'', EvTake])) = DebugAgain ''ups'' ''eof'' 2"
  using failures_logged_once [of "''eof''" "''ups''" "[EvFailed ''ups'' ''eof'', EvTake]"]
  by (simp add: streak_of_def streak_step_def)

lemma cadence_witness: "run_starts 60 0 [(5, 0), (70, 0)] ! 1 = 60"
  using cadence [of "[(5, 0), (70, 0)]" 0 60 0] by (simp add: run_starts_first)

end
