(* ===== verification/Prepare.thy ===== *)
theory Prepare
  imports Config Resolved Apply Entities Scheduler
begin

text \<open>
  The wiring of \<open>internal/cli/schema.go\<close> and the first half of \<open>run.go\<close>: from the settings to modules,
  desired schema and client (\<open>prepareLocal\<close>), the one read of the schema, the reconciliation in the
  configured mode and the resolution of the host. The platform is the record of the interfaces the parts
  use, over one state \<open>'w\<close>.
\<close>

section \<open>The client\<close>

record client =
  cl_base :: string
  cl_token :: string
  cl_project :: string
  cl_timeout :: int
  cl_retries :: int
  cl_agent :: string

datatype client_error = EmptyToken | EmptyProject

definition default_base_url :: string where
  "default_base_url = ''https://api.omnismith.io/v1''"

definition trim_right_slash :: "string \<Rightarrow> string" where
  "trim_right_slash s = rev (dropWhile (\<lambda>c. c = CHR 0x2F) (rev s))"

definition new_client :: "config_settings \<Rightarrow> string \<Rightarrow> client_error + client" where
  "new_client s version = (
     if trim_space (cs_token s) = [] then Inl EmptyToken
     else if trim_space (cs_project s) = [] then Inl EmptyProject
     else Inr \<lparr>cl_base = trim_right_slash (if cs_base_url s = [] then default_base_url else cs_base_url s),
       cl_token = cs_token s, cl_project = cs_project s, cl_timeout = (if cs_timeout s = 0 then 15 * nano else cs_timeout s),
       cl_retries = max 0 (cs_retries s), cl_agent = ''omnistat/'' @ (if version = [] then ''dev'' else version)\<rparr>)"

section \<open>What needs no network\<close>

datatype prepare_error =
    ApiMissing "api_missing list"
  | SettingsRefused "settings_problem list"
  | SwitchesRefused "switch_problem list"
  | BadManifests "mproblem list"
  | BadOverrides "rproblem list"
  | NoClient client_error

record prepared =
  pp_settings :: config_settings
  pp_modules :: "go_module list"
  pp_desired :: desired
  pp_client :: client

definition prepare_local :: "registry \<Rightarrow> string \<Rightarrow> config_settings \<Rightarrow> prepare_error + prepared" where
  "prepare_local reg version s = (
     if require_api s \<noteq> [] then Inl (ApiMissing (require_api s))
     else if fst (configure reg (cs_module_settings s)) \<noteq> [] then Inl (SettingsRefused (fst (configure reg (cs_module_settings s))))
     else (case enabled reg (cs_modules s) of
         Inl ps \<Rightarrow> Inl (SwitchesRefused ps)
       | Inr mods \<Rightarrow>
           if validate (manifests mods) \<noteq> [] then Inl (BadManifests (validate (manifests mods)))
           else (case resolve (manifests mods) (cs_overrides s) of
               Inl ps \<Rightarrow> Inl (BadOverrides ps)
             | Inr d \<Rightarrow> (case new_client s version of
                   Inl e \<Rightarrow> Inl (NoClient e)
                 | Inr c \<Rightarrow> Inr \<lparr>pp_settings = s, pp_modules = mods, pp_desired = d, pp_client = c\<rparr>))))"

section \<open>The platform\<close>

record 'w platform =
  pl_schema :: "'w schema_api"
  pl_api :: "'w api"
  pl_publish :: "'w publish_api"
  pl_sleep :: "int \<Rightarrow> 'w \<Rightarrow> bool \<times> 'w"

text \<open>An operation of the platform's state, beside the trace of the calls that resolve entities.\<close>

definition on_world :: "('w \<Rightarrow> 'r \<times> 'w) \<Rightarrow> 'w traced \<Rightarrow> 'r \<times> 'w traced" where
  "on_world f st = (case f (fst st) of (r, w) \<Rightarrow> (r, (w, snd st)))"

section \<open>Schema and host\<close>

datatype run_error =
    PrepareFailed prepare_error
  | SourcesFailed source_error
  | ReadFailed schema_error
  | SchemaConflicts "conflict list"
  | SchemaIncomplete mode
  | ReconcileFailed apply_error
  | NoIdentity machineid_error
  | NoIdentityAttribute
  | IdentityUnplaced
  | NotReady string string
  | HostUnresolved identity_error

text \<open>\<open>reconcile\<close>: the ids, or why the run cannot go on.\<close>

definition reconcile :: "'w platform \<Rightarrow> mode \<Rightarrow> desired \<Rightarrow> current \<Rightarrow> bool \<Rightarrow> 'w \<Rightarrow> (run_error + resolved) \<times> 'w" where
  "reconcile plat md d cur dry w = (let p = diff d cur in
     if pl_conflicts p \<noteq> [] then (Inl (SchemaConflicts (pl_conflicts p)), w)
     else if plan_empty p then (Inr (resolved_from cur), w)
     else if md \<noteq> ModeApply then (Inl (SchemaIncomplete md), w)
     else if dry then (Inr (resolved_from cur), w)
     else (case apply_with (pl_schema plat) (pl_sleep plat) default_delays d cur w of
         (Some e, res, w1) \<Rightarrow> (Inl (ReconcileFailed e), w1)
       | (None, res, w1) \<Rightarrow> (Inr (ap_resolved res), w1)))"

text \<open>\<open>identityTarget\<close>: the template of the identity attribute is its first; without one, Go panics.\<close>

definition identity_target :: "desired \<Rightarrow> resolved \<Rightarrow> run_error + id_target" where
  "identity_target d r = (case find_attr d ''machine-id'' ''id'' of
       None \<Rightarrow> Inl NoIdentityAttribute
     | Some a \<Rightarrow> (case da_templates a of
           [] \<Rightarrow> Inl IdentityUnplaced
         | tpl # _ \<Rightarrow> (case gm_get (rs_templates r) tpl of
               Some tid \<Rightarrow> if gm_has (rs_attributes r) (da_slug a) then Inr \<lparr>it_slug = tpl, it_id = tid, it_attr = da_slug a\<rparr>
                           else Inl (NotReady tpl (da_slug a))
             | None \<Rightarrow> Inl (NotReady tpl (da_slug a)))))"

definition app_resolve_host :: "'w platform \<Rightarrow> machineid_module \<Rightarrow> string \<Rightarrow> desired \<Rightarrow> resolved \<Rightarrow> bool \<Rightarrow> 'w traced
    \<Rightarrow> (run_error + host_entity) \<times> 'w traced" where
  "app_resolve_host plat mi static d r dry st = (case discover mi static of
       Inl e \<Rightarrow> (Inl (NoIdentity e), st)
     | Inr i \<Rightarrow> (case identity_target d r of
           Inl e \<Rightarrow> if dry then (Inr ((host_with (hi_value i) [] WouldCreate)\<lparr>h_would_create := True\<rparr>), st) else (Inl e, st)
         | Inr t \<Rightarrow> (case resolve_host_entity (pl_api plat) t (hi_value i) dry st of
               (Inl e, st1) \<Rightarrow> (Inl (HostUnresolved e), st1)
             | (Inr h, st1) \<Rightarrow> (Inr h, st1))))"

definition host_links :: "desired \<Rightarrow> (string, string) gomap" where
  "host_links d = foldl (\<lambda>out t. if \<not> dt_entity t then out
     else (case host_link d (dt_slug t) of None \<Rightarrow> out | Some link \<Rightarrow> gm_put (dt_slug t) (da_slug link) out)) [] (d_templates d)"

section \<open>Up to the first collection\<close>

record run_ready =
  rr_settings :: config_settings
  rr_desired :: desired
  rr_current :: current
  rr_sources :: "source list"
  rr_skipped :: "skipped list"
  rr_resolved :: resolved
  rr_host :: host_entity

record app =
  ap_registry :: registry
  ap_version :: string
  ap_goos :: string
  ap_machineid :: machineid_module
  ap_interval :: "string \<Rightarrow> int option"

definition start_run :: "app \<Rightarrow> 'w platform \<Rightarrow> config_settings \<Rightarrow> bool \<Rightarrow> 'w traced \<Rightarrow> (run_error + run_ready) \<times> 'w traced" where
  "start_run a plat s dry st = (case prepare_local (ap_registry a) (ap_version a) s of
       Inl e \<Rightarrow> (Inl (PrepareFailed e), st)
     | Inr p \<Rightarrow> (case sources (pp_desired p) (map (\<lambda>m. (mod_name m, ap_interval a (mod_name m))) (pp_modules p)) (cs_intervals s) (ap_goos a) of
         Inl e \<Rightarrow> (Inl (SourcesFailed e), st)
       | Inr (srcs, skip) \<Rightarrow> (case on_world (sa_read (pl_schema plat)) st of
           (Inl e, st1) \<Rightarrow> (Inl (ReadFailed e), st1)
         | (Inr cur, st1) \<Rightarrow> (case on_world (reconcile plat (cs_mode s) (pp_desired p) cur dry) st1 of
             (Inl e, st2) \<Rightarrow> (Inl e, st2)
           | (Inr r, st2) \<Rightarrow> (case app_resolve_host plat (ap_machineid a) (cs_identity s) (pp_desired p) r dry st2 of
               (Inl e, st3) \<Rightarrow> (Inl e, st3)
             | (Inr h, st3) \<Rightarrow> (Inr \<lparr>rr_settings = s, rr_desired = pp_desired p, rr_current = cur, rr_sources = srcs, rr_skipped = skip,
                 rr_resolved = r, rr_host = h\<rparr>, st3))))))"

section \<open>The schema commands\<close>

definition exit_ok :: nat where "exit_ok = 0"

definition exit_error :: nat where "exit_error = 1"

definition exit_changes :: nat where "exit_changes = 2"

definition exit_partial :: nat where "exit_partial = 2"

definition prepare_with :: "app \<Rightarrow> 'w platform \<Rightarrow> config_settings \<Rightarrow> 'w \<Rightarrow> (run_error + prepared \<times> current) \<times> 'w" where
  "prepare_with a plat s w = (case prepare_local (ap_registry a) (ap_version a) s of
       Inl e \<Rightarrow> (Inl (PrepareFailed e), w)
     | Inr p \<Rightarrow> (case sa_read (pl_schema plat) w of
         (Inl e, w1) \<Rightarrow> (Inl (ReadFailed e), w1)
       | (Inr cur, w1) \<Rightarrow> (Inr (p, cur), w1)))"

definition schema_plan :: "app \<Rightarrow> 'w platform \<Rightarrow> config_settings \<Rightarrow> 'w \<Rightarrow> nat \<times> 'w" where
  "schema_plan a plat s w = (case prepare_with a plat s w of
       (Inl e, w1) \<Rightarrow> (exit_error, w1)
     | (Inr (p, cur), w1) \<Rightarrow> (let plan = diff (pp_desired p) cur in
         (if pl_conflicts plan \<noteq> [] then exit_error else if pl_actions plan \<noteq> [] then exit_changes else exit_ok, w1)))"

definition schema_verify :: "app \<Rightarrow> 'w platform \<Rightarrow> config_settings \<Rightarrow> 'w \<Rightarrow> nat \<times> 'w" where
  "schema_verify a plat s w = (case prepare_with a plat s w of
       (Inl e, w1) \<Rightarrow> (exit_error, w1)
     | (Inr (p, cur), w1) \<Rightarrow> (if plan_empty (diff (pp_desired p) cur) then exit_ok else exit_error, w1))"

text \<open>\<open>denied\<close> is the permission pre-flight: whether the token is refused outright.\<close>

definition schema_apply :: "app \<Rightarrow> 'w platform \<Rightarrow> ('w \<Rightarrow> bool \<times> 'w) \<Rightarrow> config_settings \<Rightarrow> 'w \<Rightarrow> nat \<times> 'w" where
  "schema_apply a plat denied s w = (case prepare_with a plat s w of
       (Inl e, w1) \<Rightarrow> (exit_error, w1)
     | (Inr (p, cur), w1) \<Rightarrow> (let plan = diff (pp_desired p) cur in
         if pl_conflicts plan \<noteq> [] then (exit_error, w1)
         else if plan_empty plan then (exit_ok, w1)
         else (case denied w1 of
             (True, w2) \<Rightarrow> (exit_error, w2)
           | (False, w2) \<Rightarrow> (case apply_with (pl_schema plat) (pl_sleep plat) default_delays (pp_desired p) cur w2 of
                 (Some e, res, w3) \<Rightarrow> (exit_error, w3)
               | (None, res, w3) \<Rightarrow> (exit_ok, w3)))))"

section \<open>The identity command\<close>

datatype identity_failure = CheckFailed run_error | CheckConflicts "conflict list"

record identity_report =
  ir_identity :: host_identity
  ir_project :: bool
  ir_schema_ok :: bool
  ir_host :: "host_entity option"
  ir_error :: "identity_failure option"

definition resolve_dry_run :: "app \<Rightarrow> 'w platform \<Rightarrow> config_settings \<Rightarrow> host_identity \<Rightarrow> identity_report \<Rightarrow> 'w traced
    \<Rightarrow> identity_report \<times> 'w traced" where
  "resolve_dry_run a plat s i rep st = (case on_world (prepare_with a plat s) st of
       (Inl e, st1) \<Rightarrow> (rep\<lparr>ir_error := Some (CheckFailed e)\<rparr>, st1)
     | (Inr (p, cur), st1) \<Rightarrow> (let plan = diff (pp_desired p) cur in
         if pl_conflicts plan \<noteq> [] then (rep\<lparr>ir_error := Some (CheckConflicts (pl_conflicts plan))\<rparr>, st1)
         else (case identity_target (pp_desired p) (resolved_from cur) of
             Inl e \<Rightarrow> (rep\<lparr>ir_error := Some (CheckFailed e)\<rparr>, st1)
           | Inr t \<Rightarrow> (let ok = rep\<lparr>ir_schema_ok := True\<rparr> in
               case resolve_host_entity (pl_api plat) t (hi_value i) True st1 of
                 (Inl e, st2) \<Rightarrow> (ok\<lparr>ir_error := Some (CheckFailed (HostUnresolved e))\<rparr>, st2)
               | (Inr h, st2) \<Rightarrow> (ok\<lparr>ir_host := Some h\<rparr>, st2)))))"

definition identity_check :: "app \<Rightarrow> 'w platform \<Rightarrow> config_settings \<Rightarrow> 'w traced \<Rightarrow> (machineid_error + identity_report) \<times> 'w traced" where
  "identity_check a plat s st = (case discover (ap_machineid a) (cs_identity s) of
       Inl e \<Rightarrow> (Inl e, st)
     | Inr i \<Rightarrow> (let rep = \<lparr>ir_identity = i, ir_project = False, ir_schema_ok = False, ir_host = None, ir_error = None\<rparr> in
         if require_api s \<noteq> [] then (Inr rep, st)
         else (case resolve_dry_run a plat s i (rep\<lparr>ir_project := True\<rparr>) st of (r, st1) \<Rightarrow> (Inr r, st1))))"

definition identity_command :: "app \<Rightarrow> 'w platform \<Rightarrow> config_settings \<Rightarrow> 'w traced \<Rightarrow> nat \<times> 'w traced" where
  "identity_command a plat s st = (case identity_check a plat s st of
       (Inl e, st1) \<Rightarrow> (exit_error, st1)
     | (Inr rep, st1) \<Rightarrow> (if ir_error rep \<noteq> None then exit_error else exit_ok, st1))"

section \<open>What only reads\<close>

text \<open>
  The calls that the platform documents as reads leave a view \<open>v\<close> of its state alone, and so do the waits
  between them; the view can be anything the writes would change.
\<close>

definition reads_keep :: "('w \<Rightarrow> 'v) \<Rightarrow> 'w platform \<Rightarrow> bool" where
  "reads_keep v plat \<longleftrightarrow> (\<forall>w. v (snd (sa_read (pl_schema plat) w)) = v w)
     \<and> (\<forall>tpl key w. v (snd (api_by_key (pl_api plat) tpl key w)) = v w)
     \<and> (\<forall>tid slug x w. v (snd (api_find (pl_api plat) tid slug x w)) = v w)"

definition quiet :: "('w \<Rightarrow> 'v) \<Rightarrow> 'w traced \<Rightarrow> 'w traced \<Rightarrow> bool" where
  "quiet v st st' \<longleftrightarrow> v (fst st') = v (fst st) \<and> (\<exists>cs. snd st' = snd st @ cs \<and> \<not> list_ex is_write cs)"

lemma quiet_refl [simp]: "quiet v st st"
  by (simp add: quiet_def)

lemma quiet_trans: "quiet v a b \<Longrightarrow> quiet v b c \<Longrightarrow> quiet v a c"
  by (fastforce simp: quiet_def)

lemma quiet_by_key: "reads_keep v plat \<Longrightarrow> by_key (pl_api plat) tpl key st = (r, st') \<Longrightarrow> quiet v st st'"
  by (auto simp: quiet_def reads_keep_def by_key_def call_def split: prod.splits) (metis snd_conv)

lemma quiet_find: "reads_keep v plat \<Longrightarrow> find_entities (pl_api plat) tid slug x st = (r, st') \<Longrightarrow> quiet v st st'"
  by (auto simp: quiet_def reads_keep_def find_entities_def call_def split: prod.splits) (metis snd_conv)

lemma quiet_world: "(\<And>w. v (snd (f w)) = v w) \<Longrightarrow> on_world f st = (r, st') \<Longrightarrow> quiet v st st'"
  by (auto simp: quiet_def on_world_def split: prod.splits) (metis snd_conv)

lemma quiet_resolve_host:
  assumes "reads_keep v plat" "resolve_host_entity (pl_api plat) t key True st = (r, st')"
  shows "quiet v st st'"
proof -
  obtain r1 st1 where bk: "by_key (pl_api plat) (it_slug t) key st = (r1, st1)" by (metis surj_pair)
  obtain r2 st2 where fe: "find_entities (pl_api plat) (it_id t) (it_attr t) key st1 = (r2, st2)" by (metis surj_pair)
  note q = quiet_by_key [OF assms(1) bk] quiet_find [OF assms(1) fe]
  have "st' = st \<or> st' = st1 \<or> st' = st2"
    using assms(2) bk fe
    by (auto simp: resolve_host_entity_def adopt_host_def create_host_def Let_def split: option.splits if_splits sum.splits)
  then show ?thesis using q quiet_trans [OF q] by auto
qed

lemma quiet_app_host:
  assumes "reads_keep v plat" "app_resolve_host plat mi static d r True st = (x, st')"
  shows "quiet v st st'"
  using assms(2) quiet_resolve_host [OF assms(1)]
  by (auto simp: app_resolve_host_def split: sum.splits prod.splits)

lemma reconcile_dry: "reconcile plat md d cur True w = (r, w') \<Longrightarrow> w' = w"
  by (auto simp: reconcile_def Let_def split: if_splits)

lemma quiet_start_run:
  assumes "reads_keep v plat" "start_run a plat s True st = (x, st')"
  shows "quiet v st st'"
proof -
  have read: "on_world (sa_read (pl_schema plat)) b = (y, c) \<Longrightarrow> quiet v b c" for b y c
    by (rule quiet_world) (use assms(1) in \<open>simp_all add: reads_keep_def\<close>)
  have rec: "on_world (reconcile plat md d cur True) b = (y, c) \<Longrightarrow> c = b" for md d cur b y c
    by (auto simp: on_world_def dest: reconcile_dry split: prod.splits)
  show ?thesis using assms(2)
    by (auto simp: start_run_def split: sum.splits prod.splits dest!: rec read quiet_app_host [OF assms(1)] intro: quiet_trans)
qed

lemma quiet_prepare:
  assumes "reads_keep v plat" "on_world (prepare_with a plat s) st = (x, st')"
  shows "quiet v st st'"
proof (rule quiet_world [OF _ assms(2)])
  fix w show "v (snd (prepare_with a plat s w)) = v w"
    using assms(1) by (auto simp: prepare_with_def reads_keep_def split: sum.splits prod.splits) (metis snd_conv)+
qed

lemma quiet_identity:
  assumes "reads_keep v plat" "identity_command a plat s st = (code, st')"
  shows "quiet v st st'"
proof -
  have "resolve_dry_run a plat s i rep b = (y, c) \<Longrightarrow> quiet v b c" for i rep b y c
    by (auto simp: resolve_dry_run_def Let_def split: sum.splits prod.splits if_splits
        dest!: quiet_prepare [OF assms(1)] quiet_resolve_host [OF assms(1)] intro: quiet_trans)
  then show ?thesis using assms(2)
    by (auto simp: identity_command_def identity_check_def Let_def split: sum.splits prod.splits if_splits)
qed

end
