(* ===== verification/Drain.thy ===== *)
theory Drain
  imports Entities
begin

text \<open>
  What one publish achieves on a platform that accepts what it is sent: every buffer, the host's and those
  of the entities, is empty afterwards. It is the liveness of the publish loop and what a stopping daemon
  relies on.
\<close>

section \<open>One batch\<close>

definition accepts :: "'w publish_api \<Rightarrow> bool" where
  "accepts api \<longleftrightarrow> (\<forall>eid dims w. fst (pa_update api eid dims w) = None) \<and> (\<forall>eid os w. fst (pa_ingest api eid os w) = None)"

lemma ingest_accepts:
  assumes "accepts api"
  shows "ingest api eid os res w = (fail, res', w') \<Longrightarrow>
    fail = None \<and> pr_metrics res' = ack_obs os (pr_metrics res) \<and> pr_dims res' = pr_dims res"
proof (induction "length os" arbitrary: os res w rule: less_induct)
  case less
  show ?case
  proof (cases "os = []")
    case True
    then show ?thesis using less.prems by (simp add: ingest.simps ack_obs_def)
  next
    case False
    let ?chunk = "take chunk_size os" and ?rest = "drop chunk_size os"
    obtain w1 where call: "pa_ingest api eid ?chunk w = (None, w1)" using assms by (metis accepts_def prod.collapse)
    obtain res1 where run: "ingest api eid ?rest res1 w1 = (fail, res', w')" "pr_metrics res1 = ack_obs ?chunk (pr_metrics res)" "pr_dims res1 = pr_dims res"
      using less.prems False call by (auto simp: ingest.simps [of _ _ os] Let_def)
    have "length ?rest < length os" using False by (simp add: chunk_size_def)
    from less.hyps [OF this run(1)] run(2,3) show ?thesis using ack_obs_append [of ?chunk ?rest "pr_metrics res"] by simp
  qed
qed

lemma update_accepts:
  assumes "accepts api" "dims \<noteq> []"
  shows "\<exists>w'. update_dims 2 api eid dims r w = (None, r\<lparr>dr_acked := sort (dr_acked r @ map fst dims), dr_requests := dr_requests r + 1\<rparr>, w')"
proof -
  obtain w1 where "pa_update api eid dims w = (None, w1)" using assms(1) by (metis accepts_def prod.collapse)
  then show ?thesis using assms(2) by (simp add: numeral_2_eq_2 Let_def)
qed

text \<open>Every sample of a batch is sent or given up: each metric is counted once, each dimension is named.\<close>

lemma render_metrics_counted:
  assumes "\<forall>s \<in> set ss. sm_kind s = KindMetric"
  shows "gm_getd 0 (ack_obs (ms_metrics (render_metrics fmt p ss)) (ms_acked (render_metrics fmt p ss))) slug
    = int (length (filter (\<lambda>s. sm_slug s = slug) ss)) \<and> gm_ok (ms_acked (render_metrics fmt p ss))"
proof -
  have "gm_ok (ms_acked st) \<Longrightarrow> (let st' = foldl (render_metric fmt p) st ss in
      gm_getd 0 (ms_acked st') slug + int (length (filter (\<lambda>x. mo_slug x = slug) (ms_metrics st')))
      = gm_getd 0 (ms_acked st) slug + int (length (filter (\<lambda>x. mo_slug x = slug) (ms_metrics st))) + int (length (filter (\<lambda>s. sm_slug s = slug) ss))
      \<and> gm_ok (ms_acked st'))" for st
    using assms
  proof (induction ss arbitrary: st)
    case (Cons s ss)
    have "\<And>b. render fmt (pb_items p) s \<noteq> Inr (RBool b)" using Cons.prems(2) by (auto simp: render_def Let_def split: cvalue.splits)
    then have "gm_ok (ms_acked (render_metric fmt p st s)) \<and> gm_getd 0 (ms_acked (render_metric fmt p st s)) slug
        + int (length (filter (\<lambda>x. mo_slug x = slug) (ms_metrics (render_metric fmt p st s))))
        = gm_getd 0 (ms_acked st) slug + int (length (filter (\<lambda>x. mo_slug x = slug) (ms_metrics st))) + of_bool (sm_slug s = slug)"
      using Cons.prems(1) by (auto simp: render_metric_def split: sum.split rvalue.split)
    then show ?case using Cons.IH [of "render_metric fmt p st s"] Cons.prems(2) by (auto simp: Let_def)
  qed simp
  from this [of "\<lparr>ms_metrics = [], ms_lines = [], ms_acked = [], ms_dropped = 0\<rparr>"] show ?thesis
    by (simp add: render_metrics_def Let_def ack_obs_count)
qed

lemma render_dims_named:
  assumes "s \<in> set ss"
  shows "sm_slug s \<in> set (ds_acked (add_link p (render_dims fmt p ss))) \<or> gm_has (ds_dims (add_link p (render_dims fmt p ss))) (sm_slug s)"
proof -
  let ?in = "\<lambda>st x. x \<in> set (ds_acked st) \<or> gm_has (ds_dims st) x"
  have keep: "?in st x \<Longrightarrow> ?in (render_dim fmt p st y) x" for st x y
    by (auto simp: render_dim_def put_dim_def split: cvalue.splits sum.splits)
  have own: "?in (render_dim fmt p st y) (sm_slug y)" for st y
    by (auto simp: render_dim_def put_dim_def is_pending_def split: cvalue.splits sum.splits)
  have keeps: "?in st x \<Longrightarrow> ?in (foldl (render_dim fmt p) st ys) x" for st x ys
    by (induction ys arbitrary: st) (use keep in \<open>simp, metis foldl_Cons\<close>)
  have "s \<in> set ss \<Longrightarrow> ?in (foldl (render_dim fmt p) st ss) (sm_slug s)" for st
  proof (induction ss arbitrary: st)
    case (Cons x ss)
    then show ?case using keeps [OF own [of s st], of ss] by auto
  qed simp
  then have "?in (render_dims fmt p ss) (sm_slug s)" using assms by (simp add: render_dims_def)
  then show ?thesis by (auto simp: add_link_def Let_def split: option.splits)
qed

lemma publish_accepts:
  assumes "accepts api" "\<forall>s \<in> set (bt_metrics b). sm_kind s = KindMetric" "publish api fmt p b w = (fail, res, lines, w')"
  shows "fail = None \<and> gm_ok (pr_metrics res)
    \<and> (\<forall>slug. gm_getd 0 (pr_metrics res) slug = int (length (filter (\<lambda>s. sm_slug s = slug) (bt_metrics b))))
    \<and> (\<forall>s \<in> set (bt_dims b). sm_slug s \<in> set (pr_dims res))"
proof (cases "batch_empty b")
  case True
  then have "res = no_result" "fail = None" "bt_metrics b = []" "bt_dims b = []" using assms(3) by (auto simp: publish_def batch_empty_def)
  then show ?thesis by (simp add: no_result_def)
next
  case False
  define dst where "dst = add_link p (render_dims fmt p (bt_dims b))"
  define mst where "mst = render_metrics fmt p (bt_metrics b)"
  define res0 where "res0 = no_result\<lparr>pr_dims := ds_acked dst, pr_metrics := ms_acked mst, pr_dropped := int (length (ds_acked dst)) + ms_dropped mst\<rparr>"
  have count: "gm_getd 0 (ack_obs (ms_metrics mst) (ms_acked mst)) slug = int (length (filter (\<lambda>s. sm_slug s = slug) (bt_metrics b)))"
      and ok: "gm_ok (ms_acked mst)" for slug using render_metrics_counted [OF assms(2)] by (auto simp: mst_def)
  have named: "s \<in> set (bt_dims b) \<Longrightarrow> sm_slug s \<in> set (ds_acked dst) \<or> sm_slug s \<in> fst ` set (ds_dims dst)" for s
    using render_dims_named [of s "bt_dims b" p fmt] by (auto simp: dst_def gm_has_iff)
  have all: "fail = None \<and> pr_metrics res = ack_obs (ms_metrics mst) (ms_acked mst) \<and> set (ds_acked dst) \<union> fst ` set (ds_dims dst) \<subseteq> set (pr_dims res)"
  proof (cases "pb_dry p")
    case True
    then have "fail = None" "res = publish_dry dst mst res0"
      using assms(3) False by (auto simp: publish_def Let_def dst_def mst_def res0_def)
    then show ?thesis by (simp add: publish_dry_def res0_def)
  next
    case real: False
    then have run: "publish_real api p dst mst res0 w = (fail, res, w')"
      using assms(3) False by (auto simp: publish_def Let_def dst_def mst_def res0_def split: prod.splits)
    show ?thesis
    proof (cases "ds_dims dst = []")
      case True
      then have "ingest api (pb_entity p) (ms_metrics mst) res0 w = (fail, res, w')" using run by (simp add: publish_real_def)
      from ingest_accepts [OF assms(1) this] True show ?thesis by (simp add: res0_def)
    next
      case dims: False
      obtain w1 where up: "update_dims 2 api (pb_entity p) (ds_dims dst) \<lparr>dr_acked = [], dr_dropped = 0, dr_requests = 0\<rparr> w
          = (None, \<lparr>dr_acked = sort (map fst (ds_dims dst)), dr_dropped = 0, dr_requests = 1\<rparr>, w1)"
        using update_accepts [OF assms(1) dims, of "pb_entity p" "\<lparr>dr_acked = [], dr_dropped = 0, dr_requests = 0\<rparr>" w] by auto
      obtain res1 where "ingest api (pb_entity p) (ms_metrics mst) res1 w1 = (fail, res, w')" "pr_metrics res1 = ms_acked mst"
          "pr_dims res1 = ds_acked dst @ sort (map fst (ds_dims dst))"
        using run dims up by (auto simp: publish_real_def res0_def Let_def)
      note i = this
      from ingest_accepts [OF assms(1) i(1)] show ?thesis by (simp add: i(2,3))
    qed
  qed
  moreover have "\<forall>s \<in> set (bt_dims b). sm_slug s \<in> set (pr_dims res)"
  proof
    fix s assume "s \<in> set (bt_dims b)"
    then show "sm_slug s \<in> set (pr_dims res)" using named all by blast
  qed
  ultimately show ?thesis using count ack_obs_ok [OF ok] by simp
qed

text \<open>The acknowledgement of such a publish leaves nothing in the buffer.\<close>

lemma buffer_empty_iff: "buffer_ok b \<Longrightarrow> buffer_empty b \<longleftrightarrow> (\<forall>slug. gm_get (bf_dims b) slug = None \<and> q_items (queue_of b slug) = [])"
proof -
  assume ok: "buffer_ok b"
  then have "bf_dims b = [] \<longleftrightarrow> (\<forall>slug. gm_get (bf_dims b) slug = None)"
    by (cases "bf_dims b") (auto simp: gm_get_def)
  moreover have "list_all (\<lambda>p. q_items (snd p) = []) (bf_metrics b) \<longleftrightarrow> (\<forall>slug. q_items (queue_of b slug) = [])"
  proof -
    have g: "gm_ok (bf_metrics b)" using ok by (simp add: buffer_ok_def)
    have "(slug, q) \<in> set (bf_metrics b) \<Longrightarrow> queue_of b slug = q" for slug q
      using gm_in_get [OF g] by (simp add: queue_of_def gm_getd_def)
    moreover have "q_items (queue_of b slug) \<noteq> [] \<Longrightarrow> (slug, queue_of b slug) \<in> set (bf_metrics b)" for slug
      using gm_get_in by (fastforce simp: queue_of_def gm_getd_def empty_queue_def split: option.splits)
    ultimately show ?thesis by (fastforce simp: list_all_iff)
  qed
  ultimately show ?thesis by (simp add: buffer_empty_def) blast
qed

lemma ack_all_empty:
  assumes ok: "buffer_ok b" and m: "gm_ok (pr_metrics res)"
    and n: "\<forall>slug. gm_getd 0 (pr_metrics res) slug = int (length (filter (\<lambda>s. sm_slug s = slug) (bt_metrics (snapshot b))))"
    and d: "\<forall>s \<in> set (bt_dims (snapshot b)). sm_slug s \<in> set (pr_dims res)"
  shows "buffer_empty (buffer_ack (snapshot b) (ack_of res) b)"
proof -
  let ?b = "buffer_ack (snapshot b) (ack_of res) b"
  have "q_items (queue_of ?b slug) = []" for slug
  proof -
    have "gm_getd 0 (ak_metrics (ack_of res)) slug = int (length (q_items (queue_of b slug)))"
      using n snapshot_parts [OF ok, of slug] by (simp add: ack_of_def)
    moreover have "gm_ok (ak_metrics (ack_of res))" using m by (simp add: ack_of_def)
    ultimately show ?thesis using ack_queue_exact [OF ok, of "ack_of res" slug "length (q_items (queue_of b slug))" "[]"]
      by (simp add: adds_def Let_def)
  qed
  moreover have "gm_get (bf_dims ?b) slug = None" for slug
  proof (cases "gm_get (bf_dims b) slug")
    case None
    then show ?thesis by (simp add: buffer_ack_def ack_dims_get)
  next
    case (Some s)
    then have "s \<in> set (bt_dims (snapshot b))" "sm_slug s = slug"
      using snapshot_parts [OF ok] ok gm_get_in [OF Some] by (auto simp: buffer_ok_def image_iff) (metis snd_conv)
    then have "slug \<in> set (pr_dims res)" using d by auto
    then show ?thesis using Some by (simp add: buffer_ack_def ack_dims_get snap_time_get [OF ok] ack_of_def)
  qed
  ultimately show ?thesis using buffer_empty_iff [OF buffer_ok_ack [OF ok]] by blast
qed

lemma publish_empties:
  assumes "accepts api" "buffer_ok b" "publish api fmt p (snapshot b) w = (fail, res, lines, w')"
  shows "fail = None \<and> buffer_empty (buffer_ack (snapshot b) (ack_of res) b)"
proof -
  have "sm_kind s = KindMetric" if "s \<in> set (bt_metrics (snapshot b))" for s
  proof -
    have "s \<in> set (filter (\<lambda>x. sm_slug x = sm_slug s) (bt_metrics (snapshot b)))" using that by simp
    then have "s \<in> set (q_items (queue_of b (sm_slug s)))" using snapshot_parts [OF assms(2)] by simp
    then show ?thesis using assms(2) by (auto simp: buffer_ok_def is_metric_def)
  qed
  then show ?thesis using publish_accepts [OF assms(1) _ assms(3)] ack_all_empty [OF assms(2)] by blast
qed

section \<open>Everything\<close>

definition resolves :: "('e, 'w) resolver \<Rightarrow> bool" where
  "resolves rv \<longleftrightarrow> (\<forall>m tpl key w. \<exists>x w'. rv_resolve rv m tpl key w = (Inr x, w'))"

lemma entity_drained:
  assumes "accepts api" "resolves rv" "buffers_ok (et_bufs st)" "pr_entities_failed (et_total st) = 0"
  shows "(case buffer_for (et_bufs (publish_entity api fmt rv host links st t)) t of Some x \<Rightarrow> buffer_empty x | None \<Rightarrow> True)
    \<and> pr_entities_failed (et_total (publish_entity api fmt rv host links st t)) = 0
    \<and> targets (et_bufs (publish_entity api fmt rv host links st t)) = targets (et_bufs st)"
proof (cases "buffer_for (et_bufs st) t")
  case None
  then show ?thesis using assms(4) by (simp add: publish_entity_def)
next
  case (Some buf)
  have buf: "buffer_ok buf" "gm_has (bs_targets (et_bufs st)) t" using assms(3) Some by (auto simp: buffers_ok_def buffer_for_def gm_has_def)
  show ?thesis
  proof (cases "batch_empty (snapshot buf)")
    case True
    then show ?thesis using Some snapshot_parts [OF buf(1)] assms(4) by (simp add: publish_entity_def)
  next
    case False
    obtain x w1 where res: "rv_resolve rv (tg_module t) (tg_template t) (tg_key t) (et_world st) = (Inr x, w1)"
      using assms(2) unfolding resolves_def by blast
    obtain eid out where x: "x = (eid, out)" by (metis surj_pair)
    obtain fail pres lines w2 where pub: "publish api fmt (entity_publisher host links t eid) (snapshot buf) w1 = (fail, pres, lines, w2)"
      by (metis prod_cases4)
    note e = publish_empties [OF assms(1) buf(1) pub]
    have same: "gm_ok (bs_targets (et_bufs st))" using assms(3) by (simp add: buffers_ok_def)
    have "gm_keys (gm_put t (buffer_ack (snapshot buf) (ack_of pres) buf) (bs_targets (et_bufs st))) = gm_keys (bs_targets (et_bufs st))"
      by (rule gm_keys_eq) (use same buf(2) in \<open>auto simp: gm_has_iff\<close>)
    then show ?thesis using Some False res x pub e assms(4)
      by (simp add: publish_entity_def Let_def buffer_for_def targets_def add_result_def)
  qed
qed

lemma entities_drained:
  assumes "accepts api" "resolves rv"
  shows "buffers_ok (et_bufs st) \<Longrightarrow> pr_entities_failed (et_total st) = 0 \<Longrightarrow> distinct ts \<Longrightarrow>
    (let st' = foldl (publish_entity api fmt rv host links) st ts in
      (\<forall>t \<in> set ts. case buffer_for (et_bufs st') t of Some x \<Rightarrow> buffer_empty x | None \<Rightarrow> True)
      \<and> pr_entities_failed (et_total st') = 0 \<and> targets (et_bufs st') = targets (et_bufs st))"
proof (induction ts arbitrary: st)
  case (Cons t ts)
  let ?s1 = "publish_entity api fmt rv host links st t"
  note one = entity_drained [OF assms Cons.prems(1,2), of fmt host links t]
  have ok: "buffers_ok (et_bufs ?s1)" using publish_entity_step [OF Cons.prems(1)] by blast
  have rest: "buffer_for (et_bufs (foldl (publish_entity api fmt rv host links) ?s1 ts)) t = buffer_for (et_bufs ?s1) t"
    using publish_entities [OF ok, of ts api fmt rv host links] Cons.prems(3) by (simp add: Let_def)
  show ?case using Cons.IH [OF ok] one rest Cons.prems(3) by (simp add: Let_def)
qed simp

lemma publish_all_drained:
  assumes "accepts api" "resolves rv" "buffers_ok bufs" "publish_all api fmt rv host links bufs w = (fail, st)"
  shows "fail = None \<and> buffers_empty (et_bufs st) \<and> pr_entities_failed (et_total st) = 0"
proof -
  have host: "buffer_ok (bs_host bufs)" using assms(3) by (simp add: buffers_ok_def)
  have loop: "buffers_empty (et_bufs st') \<and> pr_entities_failed (et_total st') = 0"
    if st': "st' = foldl (publish_entity api fmt rv host links) st0 (targets (et_bufs st0))"
      and st0: "buffers_ok (et_bufs st0)" "buffer_empty (bs_host (et_bufs st0))" "pr_entities_failed (et_total st0) = 0" for st0 st'
  proof -
    have d: "distinct (targets (et_bufs st0))" using st0(1) by (simp add: buffers_ok_def targets_def)
    show ?thesis using entities_drained [OF assms(1,2) st0(1,3) d, of fmt host links]
        publish_entities [OF st0(1) d, of api fmt rv host links] st0(2) st'
      by (auto simp: Let_def buffers_empty_def list_all_iff)
  qed
  show ?thesis
  proof (cases "batch_empty (snapshot (bs_host bufs))")
    case True
    then have "buffer_empty (bs_host bufs)" using snapshot_parts [OF host] by simp
    then show ?thesis using True assms(3,4) loop [of st "\<lparr>et_bufs = bufs, et_total = no_result, et_lines = [], et_world = w\<rparr>"]
      by (auto simp: publish_all_def Let_def no_result_def)
  next
    case False
    obtain f res lines w1 where pub: "publish api fmt host (snapshot (bs_host bufs)) w = (f, res, lines, w1)" by (metis prod_cases4)
    note e = publish_empties [OF assms(1) host pub]
    let ?st = "\<lparr>et_bufs = bufs\<lparr>bs_host := buffer_ack (snapshot (bs_host bufs)) (ack_of res) (bs_host bufs)\<rparr>, et_total = add_result no_result res,
      et_lines = lines, et_world = w1\<rparr>"
    have "buffers_ok (et_bufs ?st)" using buffers_ok_host [OF assms(3) buffer_ok_ack [OF host]] by simp
    then show ?thesis using False pub e assms(4) loop [of st ?st]
      by (auto simp: publish_all_def Let_def add_result_def no_result_def)
  qed
qed

section \<open>What was sent\<close>

text \<open>
  The specification of the calls for one batch, without the publisher's state: at most one accepted update, then accepted
  ingests of at most \<open>chunk_size\<close> observations, all for the publisher's entity. The ingests hold, in order, every metric that
  renders; the update holds every dimension that renders, under its slug with its time, and nothing else but the link.
\<close>

definition observed :: "(f64 \<Rightarrow> string) \<Rightarrow> list_items \<Rightarrow> sample \<Rightarrow> metric_obs list" where
  "observed fmt items s = (case render fmt items s of Inr (RString v) \<Rightarrow> [\<lparr>mo_slug = sm_slug s, mo_value = v, mo_at = sm_at s\<rparr>] | _ \<Rightarrow> [])"

definition is_link :: "publisher \<Rightarrow> string \<Rightarrow> bool" where
  "is_link p slug \<longleftrightarrow> (case pb_link p of None \<Rightarrow> False | Some l \<Rightarrow> pk_slug l = slug)"

definition carries :: "(f64 \<Rightarrow> string) \<Rightarrow> publisher \<Rightarrow> sample list \<Rightarrow> (string, backfill) gomap \<Rightarrow> bool" where
  "carries fmt p ss dims \<longleftrightarrow> (\<forall>slug v t. \<not> is_link p slug \<longrightarrow>
     gm_get dims slug = Some \<lparr>bk_value = v, bk_at = t\<rparr> \<longleftrightarrow> (\<exists>s \<in> set ss. sm_slug s = slug \<and> sm_at s = t \<and> render fmt (pb_items p) s = Inr v))"

definition carried :: "(f64 \<Rightarrow> string) \<Rightarrow> publisher \<Rightarrow> batch \<Rightarrow> pub_call list \<Rightarrow> bool" where
  "carried fmt p b cs \<longleftrightarrow> (\<exists>us gs. cs = us @ gs
     \<and> (us = [] \<and> carries fmt p (bt_dims b) [] \<or> (\<exists>dims. us = [UpdateCall (pb_entity p) dims None] \<and> carries fmt p (bt_dims b) dims))
     \<and> (\<forall>c \<in> set gs. \<exists>os. c = IngestCall (pb_entity p) os None \<and> length os \<le> chunk_size)
     \<and> concat (map settled gs) = concat (map (observed fmt (pb_items p)) (bt_metrics b)))"

lemma render_metrics_observed:
  assumes "\<forall>s \<in> set ss. sm_kind s = KindMetric"
  shows "ms_metrics (render_metrics fmt p ss) = concat (map (observed fmt (pb_items p)) ss)"
proof -
  have "ms_metrics (foldl (render_metric fmt p) st ss) = ms_metrics st @ concat (map (observed fmt (pb_items p)) ss)" for st
  proof (induction ss arbitrary: st)
    case (Cons s ss)
    have "ms_metrics (render_metric fmt p st s) = ms_metrics st @ observed fmt (pb_items p) s"
      by (auto simp: render_metric_def observed_def split: sum.split rvalue.split)
    then show ?case using Cons.IH by simp
  qed simp
  then show ?thesis by (simp add: render_metrics_def)
qed

lemma render_dims_exact:
  assumes "\<not> pb_dry p" "distinct (map sm_slug ss)"
  shows "carries fmt p ss (ds_dims (add_link p (render_dims fmt p ss)))"
proof -
  have "gm_get (ds_dims (foldl (render_dim fmt p) st ss)) slug = Some b \<longleftrightarrow>
      (\<exists>s \<in> set ss. sm_slug s = slug \<and> sm_at s = bk_at b \<and> render fmt (pb_items p) s = Inr (bk_value b))
      \<or> (gm_get (ds_dims st) slug = Some b \<and> (\<forall>s \<in> set ss. sm_slug s = slug \<longrightarrow> (\<exists>e. render fmt (pb_items p) s = Inl e)))" for st slug b
    using assms(2)
  proof (induction ss arbitrary: st)
    case (Cons s ss)
    have step: "gm_get (ds_dims (render_dim fmt p st s)) slug = (case render fmt (pb_items p) s of
        Inr v \<Rightarrow> if slug = sm_slug s then Some \<lparr>bk_value = v, bk_at = sm_at s\<rparr> else gm_get (ds_dims st) slug | Inl e \<Rightarrow> gm_get (ds_dims st) slug)"
      using assms(1) by (auto simp: render_dim_def put_dim_def is_pending_def split: sum.split)
    have own: "s' \<in> set ss \<Longrightarrow> sm_slug s' \<noteq> sm_slug s" for s' using Cons.prems by (metis distinct.simps(2) imageI list.set_map list.simps(9))
    show ?case
    proof (cases "render fmt (pb_items p) s")
      case (Inl e)
      then show ?thesis using Cons.IH [of "render_dim fmt p st s"] Cons.prems step by auto
    next
      case (Inr v)
      then show ?thesis using Cons.IH [of "render_dim fmt p st s"] Cons.prems step own by (cases b) (auto split: if_splits)
    qed
  qed simp
  then have exact: "gm_get (ds_dims (render_dims fmt p ss)) slug = Some \<lparr>bk_value = v, bk_at = t\<rparr> \<longleftrightarrow>
      (\<exists>s \<in> set ss. sm_slug s = slug \<and> sm_at s = t \<and> render fmt (pb_items p) s = Inr v)" for slug v t
    by (simp add: render_dims_def)
  have "gm_get (ds_dims (add_link p (render_dims fmt p ss))) slug = gm_get (ds_dims (render_dims fmt p ss)) slug"
    if "\<not> is_link p slug" for slug using that by (auto simp: add_link_def is_link_def Let_def split: option.splits)
  then show ?thesis unfolding carries_def using exact by metis
qed

text \<open>A platform whose world shows the calls made to it, by \<open>v\<close>; resolving an entity makes none of them.\<close>

definition records :: "('w \<Rightarrow> pub_call list) \<Rightarrow> 'w publish_api \<Rightarrow> bool" where
  "records v api \<longleftrightarrow> (\<forall>eid dims w. v (snd (pa_update api eid dims w)) = v w @ [UpdateCall eid dims (fst (pa_update api eid dims w))])
     \<and> (\<forall>eid xs w. v (snd (pa_ingest api eid xs w)) = v w @ [IngestCall eid xs (fst (pa_ingest api eid xs w))])"

definition leaves_calls :: "('w \<Rightarrow> pub_call list) \<Rightarrow> ('e, 'w) resolver \<Rightarrow> bool" where
  "leaves_calls v rv \<longleftrightarrow> (\<forall>m tpl key w. v (snd (rv_resolve rv m tpl key w)) = v w)"

lemma records_logged: "records snd (logged api)"
  by (auto simp: records_def logged_def split: prod.split)

lemma update_recorded: "accepts api \<Longrightarrow> records v api \<Longrightarrow> \<exists>w'. pa_update api eid dims w = (None, w') \<and> v w' = v w @ [UpdateCall eid dims None]"
  unfolding accepts_def records_def by (metis prod.collapse)

lemma ingest_recorded: "accepts api \<Longrightarrow> records v api \<Longrightarrow> \<exists>w'. pa_ingest api eid xs w = (None, w') \<and> v w' = v w @ [IngestCall eid xs None]"
  unfolding accepts_def records_def by (metis prod.collapse)

lemma ingest_sent:
  assumes "accepts api" "records v api"
  shows "ingest api eid os res wl = (fail, res', wl') \<Longrightarrow> \<exists>gs. v wl' = v wl @ gs \<and> concat (map settled gs) = os
    \<and> (\<forall>c \<in> set gs. \<exists>xs. c = IngestCall eid xs None \<and> length xs \<le> chunk_size)"
proof (induction "length os" arbitrary: os res wl rule: less_induct)
  case less
  show ?case
  proof (cases "os = []")
    case True
    then show ?thesis using less.prems by (auto simp: ingest.simps intro!: exI [of _ "[]"])
  next
    case False
    let ?chunk = "take chunk_size os" and ?rest = "drop chunk_size os"
    obtain w1 where call: "pa_ingest api eid ?chunk wl = (None, w1)" "v w1 = v wl @ [IngestCall eid ?chunk None]"
      using ingest_recorded [OF assms] by blast
    obtain res1 where run: "ingest api eid ?rest res1 w1 = (fail, res', wl')"
      using less.prems False call by (auto simp: ingest.simps [of _ _ os] Let_def)
    have "length ?rest < length os" using False by (simp add: chunk_size_def)
    from less.hyps [OF this run] obtain gs where "v wl' = v w1 @ gs" "concat (map settled gs) = ?rest"
        "\<forall>c \<in> set gs. \<exists>xs. c = IngestCall eid xs None \<and> length xs \<le> chunk_size" by auto
    then show ?thesis using call(2) by (intro exI [of _ "IngestCall eid ?chunk None # gs"]) auto
  qed
qed

lemma publish_sent:
  assumes "accepts api" "records v api" "\<not> pb_dry p" "\<forall>s \<in> set (bt_metrics b). sm_kind s = KindMetric" "distinct (map sm_slug (bt_dims b))"
    and "publish api fmt p b wl = (fail, res, lines, wl')"
  shows "\<exists>cs. v wl' = v wl @ cs \<and> carried fmt p b cs"
proof (cases "batch_empty b")
  case True
  then have "wl' = wl" "bt_metrics b = []" "bt_dims b = []" using assms(6) by (auto simp: publish_def batch_empty_def)
  then show ?thesis by (auto simp: carried_def carries_def intro!: exI [of _ "[]"])
next
  case False
  define dst where "dst = add_link p (render_dims fmt p (bt_dims b))"
  define mst where "mst = render_metrics fmt p (bt_metrics b)"
  have dims: "carries fmt p (bt_dims b) (ds_dims dst)" unfolding dst_def by (rule render_dims_exact [OF assms(3,5)])
  have obs: "ms_metrics mst = concat (map (observed fmt (pb_items p)) (bt_metrics b))" unfolding mst_def by (rule render_metrics_observed [OF assms(4)])
  obtain res0 where run: "publish_real api p dst mst res0 wl = (fail, res, wl')"
    using assms(3,6) False by (auto simp: publish_def Let_def dst_def mst_def split: prod.splits)
  show ?thesis
  proof (cases "ds_dims dst = []")
    case True
    then have "ingest api (pb_entity p) (ms_metrics mst) res0 wl = (fail, res, wl')" using run by (simp add: publish_real_def)
    from ingest_sent [OF assms(1,2) this] dims True obs show ?thesis unfolding carried_def by fastforce
  next
    case ne: False
    obtain w1 where call: "pa_update api (pb_entity p) (ds_dims dst) wl = (None, w1)" "v w1 = v wl @ [UpdateCall (pb_entity p) (ds_dims dst) None]"
      using update_recorded [OF assms(1,2)] by blast
    obtain res1 where "ingest api (pb_entity p) (ms_metrics mst) res1 w1 = (fail, res, wl')"
      using run ne call(1) by (auto simp: publish_real_def numeral_2_eq_2 Let_def)
    from ingest_sent [OF assms(1,2) this] obtain gs where gs: "v wl' = v wl @ [UpdateCall (pb_entity p) (ds_dims dst) None] @ gs"
        "concat (map settled gs) = ms_metrics mst" "\<forall>c \<in> set gs. \<exists>xs. c = IngestCall (pb_entity p) xs None \<and> length xs \<le> chunk_size" using call(2) by auto
    have "carried fmt p b ([UpdateCall (pb_entity p) (ds_dims dst) None] @ gs)"
      unfolding carried_def using gs(2,3) dims obs by (intro exI [of _ "[UpdateCall (pb_entity p) (ds_dims dst) None]"] exI [of _ gs]) simp
    then show ?thesis using gs(1) by blast
  qed
qed

lemma snapshot_batch:
  assumes "buffer_ok b"
  shows "distinct (map sm_slug (bt_dims (snapshot b))) \<and> (\<forall>s \<in> set (bt_metrics (snapshot b)). sm_kind s = KindMetric)"
proof
  have ok: "gm_ok (bf_dims b)" and slug: "\<And>k s. gm_get (bf_dims b) k = Some s \<Longrightarrow> sm_slug s = k" using assms by (auto simp: buffer_ok_def)
  have "map sm_slug (map snd (bf_dims b)) = map fst (bf_dims b)"
    using slug gm_in_get [OF ok] by (auto simp: map_eq_conv)
  then have "distinct (map sm_slug (map snd (bf_dims b)))" using ok by (metis gm_ok_def)
  then show "distinct (map sm_slug (bt_dims (snapshot b)))" by (simp add: snapshot_def distinct_sort_map)
  show "\<forall>s \<in> set (bt_metrics (snapshot b)). sm_kind s = KindMetric"
  proof
    fix s assume "s \<in> set (bt_metrics (snapshot b))"
    then have "s \<in> set (filter (\<lambda>x. sm_slug x = sm_slug s) (bt_metrics (snapshot b)))" by simp
    then have "s \<in> set (q_items (queue_of b (sm_slug s)))" using snapshot_parts [OF assms] by simp
    then show "sm_kind s = KindMetric" using assms by (auto simp: buffer_ok_def is_metric_def)
  qed
qed

definition entity_sent :: "(f64 \<Rightarrow> string) \<Rightarrow> ('e, 'w) resolver \<Rightarrow> publisher \<Rightarrow> (string, string) gomap \<Rightarrow> buffers \<Rightarrow> target \<Rightarrow> pub_call list \<Rightarrow> bool" where
  "entity_sent fmt rv host links bufs t cs \<longleftrightarrow> (case buffer_for bufs t of
       None \<Rightarrow> cs = []
     | Some buf \<Rightarrow> if buffer_empty buf then cs = []
         else (\<exists>eid w0 out w1. rv_resolve rv (tg_module t) (tg_template t) (tg_key t) w0 = (Inr (eid, out), w1)
           \<and> carried fmt (entity_publisher host links t eid) (snapshot buf) cs))"

lemma entity_calls:
  assumes plat: "accepts api" "resolves rv" "records v api" "leaves_calls v rv" and "buffers_ok (et_bufs st)" "\<not> pb_dry host"
  shows "\<exists>cs. v (et_world (publish_entity api fmt rv host links st t)) = v (et_world st) @ cs
    \<and> entity_sent fmt rv host links (et_bufs st) t cs"
proof (cases "buffer_for (et_bufs st) t")
  case None
  then show ?thesis by (simp add: publish_entity_def entity_sent_def)
next
  case (Some buf)
  have buf: "buffer_ok buf" using assms(5) Some by (auto simp: buffers_ok_def buffer_for_def)
  show ?thesis
  proof (cases "buffer_empty buf")
    case True
    then show ?thesis using Some snapshot_parts [OF buf] by (simp add: publish_entity_def entity_sent_def Let_def)
  next
    case False
    then have ne: "\<not> batch_empty (snapshot buf)" using snapshot_parts [OF buf] by simp
    obtain eid out w1 where res: "rv_resolve rv (tg_module t) (tg_template t) (tg_key t) (et_world st) = (Inr (eid, out), w1)"
      using plat(2) unfolding resolves_def by (metis surj_pair)
    then have w1: "v w1 = v (et_world st)" using plat(4) unfolding leaves_calls_def by (metis snd_conv)
    obtain fail pres lines w2 where pub: "publish api fmt (entity_publisher host links t eid) (snapshot buf) w1 = (fail, pres, lines, w2)"
      by (metis prod_cases4)
    have "\<not> pb_dry (entity_publisher host links t eid)" using assms(6) by (simp add: entity_publisher_def Let_def)
    from publish_sent [OF plat(1,3) this _ _ pub] snapshot_batch [OF buf] obtain cs where
      cs: "v w2 = v w1 @ cs" "carried fmt (entity_publisher host links t eid) (snapshot buf) cs" by auto
    have "fail = None" using publish_empties [OF plat(1) buf pub] by blast
    then have "et_world (publish_entity api fmt rv host links st t) = w2"
      using Some ne res pub by (simp add: publish_entity_def Let_def)
    then show ?thesis using cs w1 False Some res by (auto simp: entity_sent_def)
  qed
qed

lemma entities_calls:
  assumes plat: "accepts api" "resolves rv" "records v api" "leaves_calls v rv" and "\<not> pb_dry host"
  shows "buffers_ok (et_bufs st) \<Longrightarrow> distinct ts \<Longrightarrow>
    \<exists>cs. v (et_world (foldl (publish_entity api fmt rv host links) st ts)) = v (et_world st) @ concat (map cs ts)
      \<and> (\<forall>t \<in> set ts. entity_sent fmt rv host links (et_bufs st) t (cs t))"
proof (induction ts arbitrary: st)
  case (Cons t ts)
  let ?s1 = "publish_entity api fmt rv host links st t"
  note step = publish_entity_step [OF Cons.prems(1), of api fmt rv host links t]
  obtain c where c: "v (et_world ?s1) = v (et_world st) @ c" "entity_sent fmt rv host links (et_bufs st) t c"
    using entity_calls [OF plat Cons.prems(1) assms(5)] by blast
  from Cons.IH [of ?s1] step Cons.prems obtain cs where
    cs: "v (et_world (foldl (publish_entity api fmt rv host links) ?s1 ts)) = v (et_world ?s1) @ concat (map cs ts)"
      "\<forall>u \<in> set ts. entity_sent fmt rv host links (et_bufs ?s1) u (cs u)" by auto
  have "entity_sent fmt rv host links (et_bufs st) u (cs u)" if "u \<in> set ts" for u
  proof -
    have "u \<noteq> t" using that Cons.prems(2) by auto
    then have "buffer_for (et_bufs ?s1) u = buffer_for (et_bufs st) u" using step by blast
    then have "entity_sent fmt rv host links (et_bufs ?s1) u (cs u) = entity_sent fmt rv host links (et_bufs st) u (cs u)" by (simp only: entity_sent_def)
    then show ?thesis using cs(2) that by simp
  qed
  moreover have "map (cs(t := c)) ts = map cs ts" using Cons.prems(2) by (intro map_cong) auto
  moreover have "entity_sent fmt rv host links (et_bufs st) u ((cs(t := c)) u)" if "u \<in> set (t # ts)" for u
    using that c(2) \<open>\<And>u. u \<in> set ts \<Longrightarrow> _\<close> by (cases "u = t") auto
  moreover have "v (et_world (foldl (publish_entity api fmt rv host links) st (t # ts))) = v (et_world st) @ concat (map (cs(t := c)) (t # ts))"
    unfolding list.map calculation(2) using c(1) cs(1) by simp
  ultimately show ?case by blast
qed simp

definition all_sent :: "(f64 \<Rightarrow> string) \<Rightarrow> ('e, 'w) resolver \<Rightarrow> publisher \<Rightarrow> (string, string) gomap \<Rightarrow> buffers \<Rightarrow> pub_call list \<Rightarrow> bool" where
  "all_sent fmt rv host links bufs cs \<longleftrightarrow> (\<exists>hc ec. cs = hc @ concat (map ec (targets bufs))
     \<and> carried fmt host (snapshot (bs_host bufs)) hc \<and> (\<forall>t \<in> set (targets bufs). entity_sent fmt rv host links bufs t (ec t)))"

lemma carried_nothing: "batch_empty b \<Longrightarrow> carried fmt p b []"
  by (auto simp: carried_def carries_def batch_empty_def)

lemma all_calls:
  assumes plat: "accepts api" "resolves rv" "records v api" "leaves_calls v rv" and "buffers_ok bufs" "\<not> pb_dry host"
    and "publish_all api fmt rv host links bufs w = (fail, st)"
  shows "\<exists>cs. v (et_world st) = v w @ cs \<and> all_sent fmt rv host links bufs cs"
proof -
  have host: "buffer_ok (bs_host bufs)" using assms(5) by (simp add: buffers_ok_def)
  have d: "distinct (targets bufs)" using assms(5) by (simp add: buffers_ok_def targets_def)
  have loop: "\<exists>cs. v (et_world st) = v w @ cs \<and> all_sent fmt rv host links bufs cs"
    if "st = foldl (publish_entity api fmt rv host links) st0 (targets bufs)" "buffers_ok (et_bufs st0)"
      "bs_targets (et_bufs st0) = bs_targets bufs" "v (et_world st0) = v w @ hc" "carried fmt host (snapshot (bs_host bufs)) hc" for st0 hc
  proof -
    note h = that
    obtain ec where ec: "v (et_world st) = v (et_world st0) @ concat (map ec (targets bufs))"
        "\<forall>t \<in> set (targets bufs). entity_sent fmt rv host links (et_bufs st0) t (ec t)"
      using entities_calls [OF plat assms(6) h(2) d] h(1) by blast
    have "buffer_for (et_bufs st0) = buffer_for bufs" using that(3) by (simp add: buffer_for_def fun_eq_iff)
    then have "entity_sent fmt rv host links (et_bufs st0) t cs = entity_sent fmt rv host links bufs t cs" for t cs by (simp only: entity_sent_def)
    then have "all_sent fmt rv host links bufs (hc @ concat (map ec (targets bufs)))"
      using ec(2) that(5) unfolding all_sent_def by blast
    then show ?thesis using ec(1) that(4) by (intro exI [of _ "hc @ concat (map ec (targets bufs))"]) simp
  qed
  show ?thesis
  proof (cases "batch_empty (snapshot (bs_host bufs))")
    case True
    then have "st = foldl (publish_entity api fmt rv host links) \<lparr>et_bufs = bufs, et_total = no_result, et_lines = [], et_world = w\<rparr> (targets bufs)"
      using assms(7) by (simp add: publish_all_def Let_def)
    from loop [OF this] carried_nothing [OF True] assms(5) show ?thesis by simp
  next
    case False
    obtain f res lines w1 where pub: "publish api fmt host (snapshot (bs_host bufs)) w = (f, res, lines, w1)" by (metis prod_cases4)
    from publish_empties [OF plat(1) host pub] have f: "f = None" by blast
    from publish_sent [OF plat(1,3) assms(6) _ _ pub] snapshot_batch [OF host] obtain hc where
      hc: "v w1 = v w @ hc" "carried fmt host (snapshot (bs_host bufs)) hc" by auto
    let ?st = "\<lparr>et_bufs = bufs\<lparr>bs_host := buffer_ack (snapshot (bs_host bufs)) (ack_of res) (bs_host bufs)\<rparr>, et_total = add_result no_result res,
      et_lines = lines, et_world = w1\<rparr>"
    have st: "st = foldl (publish_entity api fmt rv host links) ?st (targets bufs)"
      using False pub f assms(7) by (simp add: publish_all_def Let_def targets_def)
    have "buffers_ok (et_bufs ?st)" using buffers_ok_host [OF assms(5) buffer_ok_ack [OF host]] by simp
    from loop [OF st this _ _ hc(2)] hc(1) show ?thesis by simp
  qed
qed

text \<open>
  C8: a publish drains, and sends what it drains. On a platform that accepts what it is sent and resolves every
  entity, one publish of everything succeeds, fails no entity, and leaves the host's buffer and every entity's buffer empty.
  Outside a dry run the calls it made, \<open>v\<close> being the platform's record of them, are in order those of the host's batch and those of
  each entity's batch, sent to the id the entity resolved to: every pending metric observation that renders is in an accepted
  ingest, in its order, and every pending dimension that renders is in the one accepted update with its value and time; what does
  not render is not sent, and nothing else is but the link to the host.
\<close>

theorem publish_drains:
  assumes "accepts api" "resolves rv" "records v api" "leaves_calls v rv" "buffers_ok bufs"
    and "publish_all api fmt rv host links bufs w = (fail, st)"
  shows "fail = None \<and> buffers_empty (et_bufs st) \<and> pr_entities_failed (et_total st) = 0
    \<and> (pb_dry host \<or> (\<exists>cs. v (et_world st) = v w @ cs \<and> all_sent fmt rv host links bufs cs))"
  using publish_all_drained [OF assms(1,2,5,6)] all_calls [OF assms(1-5) _ assms(6)] by blast

definition example_ok_resolver :: "(string, unit \<times> pub_call list) resolver" where
  "example_ok_resolver = \<lparr>rv_resolve = (\<lambda>m tpl key w. (Inr (''e2'', Found), w)), rv_forget = (\<lambda>tpl key w. w)\<rparr>"

theorem publish_drains_witness:
  "let b = buffers_add example_battery (new_buffers 0);
       st = snd (publish_all (logged example_publish_api) (\<lambda>f. []) example_ok_resolver example_publisher [] b ((), []))
   in \<not> buffers_empty b \<and> buffers_empty (et_bufs st) \<and> snd (et_world st) \<noteq> []"
proof -
  let ?b = "buffers_add example_battery (new_buffers 0)"
  obtain fail st where run: "publish_all (logged example_publish_api) (\<lambda>f. []) example_ok_resolver example_publisher [] ?b ((), []) = (fail, st)"
    by (metis surj_pair)
  have hyps: "accepts (logged example_publish_api)" "resolves example_ok_resolver" "leaves_calls snd example_ok_resolver" "\<not> pb_dry example_publisher"
    by (simp_all add: accepts_def logged_def example_publish_api_def resolves_def leaves_calls_def example_ok_resolver_def example_publisher_def)
  let ?t = "sm_target example_battery" and ?q = "buffer_add example_battery (new_buffer 0)"
  have b: "?b = (new_buffers 0)\<lparr>bs_targets := [(?t, ?q)], bs_keys := [(''ups'', 1)]\<rparr>"
    by (simp add: buffers_add_def buffers_add_log_def new_buffers_def example_battery_def is_host_target_def host_target_def Let_def
        max_keys_per_module_def gm_get_def gm_put_def gm_inc_def gm_getd_def)
  have ne: "\<not> buffer_empty ?q"
    by (simp add: buffer_empty_def buffer_add_def example_battery_def example_metric_def is_metric_def new_buffer_def
        default_max_per_metric_def empty_queue_def gm_getd_def gm_get_def gm_put_def Let_def)
  have t: "targets ?b = [?t]" "buffer_for ?b ?t = Some ?q" unfolding b by (simp_all add: targets_def gm_keys_def buffer_for_def gm_get_def)
  have "\<not> buffers_empty ?b" using ne t by (simp add: buffers_empty_def)
  moreover from publish_drains [OF hyps(1,2) records_logged hyps(3) buffers_ok_add [OF buffers_ok_new] run] hyps(4) obtain hc cs where
    out: "buffers_empty (et_bufs st)" "snd (et_world st) = hc @ cs ?t" "entity_sent (\<lambda>f. []) example_ok_resolver example_publisher [] ?b ?t (cs ?t)"
    using t by (auto simp: all_sent_def)
  moreover have "cs ?t \<noteq> []"
  proof -
    from out(3) ne t(2) obtain eid where "carried (\<lambda>f. []) (entity_publisher example_publisher [] ?t eid) (snapshot ?q) (cs ?t)" by (auto simp: entity_sent_def)
    moreover have "snapshot ?q = \<lparr>bt_dims = [], bt_metrics = [example_battery], bt_start = [(sm_slug example_battery, 0)]\<rparr>" by code_simp
    ultimately show ?thesis by (auto simp: carried_def observed_def render_def example_battery_def example_metric_def)
  qed
  ultimately show ?thesis using run by (simp add: Let_def)
qed

end
