(* ===== verification/Run.thy ===== *)
theory Run
  imports Prepare Drain
begin

text \<open>
  \<open>internal/cli/run.go\<close>: the loop that publishes what was collected, once or on a schedule, with what it
  logs and the exit code. The world of a run is the memory of resolved entities (\<open>identity.Keyed\<close>), the
  platform's state and the trace of its calls. What a publish took is an argument, as the clock is not
  the program's.
\<close>

section \<open>The interfaces the loop is given\<close>

type_synonym 'w run_world = "keyed \<times> 'w traced"

text \<open>\<open>Entities\<close> publishes over the platform and resolves entities with \<open>Keyed\<close>, both over the run's world.\<close>

definition run_publish :: "'w platform \<Rightarrow> 'w run_world publish_api" where
  "run_publish plat = \<lparr>
     pa_update = (\<lambda>eid dims (k, st). case on_world (pa_update (pl_publish plat) eid dims) st of (r, st1) \<Rightarrow> (r, (k, st1))),
     pa_ingest = (\<lambda>eid os (k, st). case on_world (pa_ingest (pl_publish plat) eid os) st of (r, st1) \<Rightarrow> (r, (k, st1)))\<rparr>"

definition run_resolver :: "'w platform \<Rightarrow> (keyed_error, 'w run_world) resolver" where
  "run_resolver plat = \<lparr>
     rv_resolve = (\<lambda>m tpl key (k, st). case keyed_resolve (pl_api plat) tpl key k st of (r, k1, st1) \<Rightarrow> (r, (k1, st1))),
     rv_forget = (\<lambda>tpl key (k, st). (forget tpl key k, st))\<rparr>"

definition run_publisher :: "run_ready \<Rightarrow> bool \<Rightarrow> publisher" where
  "run_publisher r dry = \<lparr>pb_entity = h_entity (rr_host r), pb_link = None, pb_items = rs_items (rr_resolved r),
     pb_pending = (if dry then pending_options (diff (rr_desired r) (rr_current r)) else []), pb_dry = dry\<rparr>"

definition run_keyed :: "run_ready \<Rightarrow> bool \<Rightarrow> keyed" where
  "run_keyed r dry = \<lparr>kd_host_id = h_entity (rr_host r), kd_host_link = host_links (rr_desired r), kd_dry = dry, kd_ids = []\<rparr>"

section \<open>The loop\<close>

record publish_stats =
  st_since :: int
  st_publishes :: int
  st_failed :: int
  st_dims :: int
  st_obs :: int
  st_reqs :: int
  st_dropped :: int
  st_entities :: int
  st_entities_failed :: int
  st_max :: int

definition new_stats :: "int \<Rightarrow> publish_stats" where
  "new_stats since = \<lparr>st_since = since, st_publishes = 0, st_failed = 0, st_dims = 0, st_obs = 0, st_reqs = 0, st_dropped = 0,
     st_entities = 0, st_entities_failed = 0, st_max = 0\<rparr>"

definition stats_add :: "pub_result \<Rightarrow> int \<Rightarrow> bool \<Rightarrow> publish_stats \<Rightarrow> publish_stats" where
  "stats_add res took failed st = \<lparr>st_since = st_since st,
     st_publishes = st_publishes st + (if failed then 0 else 1), st_failed = st_failed st + (if failed then 1 else 0),
     st_dims = st_dims st + pr_dimensions res, st_obs = st_obs st + pr_observations res, st_reqs = st_reqs st + pr_requests res,
     st_dropped = st_dropped st + pr_dropped res, st_entities = st_entities st + pr_entities res,
     st_entities_failed = st_entities_failed st + pr_entities_failed res, st_max = max (st_max st) took\<rparr>"

datatype run_log =
    BufferFull drop_count
  | NothingToPublish
  | PublishFailed pub_result
  | Published pub_result
  | Recovered pub_result int
  | PublishedQuietly pub_result
  | RepeatedFailures "(string, int) gomap"
  | Summary int publish_stats
  | CollectionLog log_record
  | Stopped

record loop_conf =
  lc_daemon :: bool
  lc_summary_every :: int
  lc_interval :: int
  lc_host :: publisher
  lc_links :: "(string, string) gomap"

record 'w loop =
  lp_bufs :: buffers
  lp_world :: "'w run_world"
  lp_stats :: publish_stats
  lp_succeeded :: bool
  lp_streak :: int
  lp_failures :: failure_log
  lp_lines :: "line list"
  lp_log :: "run_log list"

definition summaries :: "loop_conf \<Rightarrow> bool" where
  "summaries c \<longleftrightarrow> lc_daemon c \<and> 0 < lc_summary_every c"

definition log_add :: "run_log list \<Rightarrow> 'w loop \<Rightarrow> 'w loop" where
  "log_add rs l = l\<lparr>lp_log := lp_log l @ rs\<rparr>"

text \<open>\<open>summarize\<close> at the time \<open>now\<close>; the scheduler exists only in daemon mode, and so do summaries.\<close>

definition summarize :: "loop_conf \<Rightarrow> bool \<Rightarrow> int \<Rightarrow> 'w loop \<Rightarrow> 'w loop" where
  "summarize c final now l = (let period = now - st_since (lp_stats l) in
     if \<not> summaries c \<or> (\<not> final \<and> period < lc_summary_every c) then l
     else (case log_take (lp_failures l) of (counts, f) \<Rightarrow>
       (log_add ((if counts \<noteq> [] then [RepeatedFailures counts] else []) @ [Summary period (lp_stats l)]) l)
         \<lparr>lp_failures := f, lp_stats := new_stats now\<rparr>))"

text \<open>\<open>publish\<close>: what it returns and the loop afterwards.\<close>

definition loop_publish :: "'w platform \<Rightarrow> (f64 \<Rightarrow> string) \<Rightarrow> loop_conf \<Rightarrow> int \<Rightarrow> 'w loop \<Rightarrow> pub_failure option \<times> pub_result \<times> 'w loop" where
  "loop_publish plat fmt c took l0 = (case buffers_drops (lp_bufs l0) of (drops, bufs) \<Rightarrow>
     let l = log_add (map BufferFull drops) (l0\<lparr>lp_bufs := bufs\<rparr>) in
     if buffers_empty bufs then (None, no_result, log_add [NothingToPublish] l)
     else (case publish_all (run_publish plat) fmt (run_resolver plat) (lc_host c) (lc_links c) bufs (lp_world l) of
       (fail, st) \<Rightarrow> (
         let res = et_total st;
             l1 = l\<lparr>lp_bufs := et_bufs st, lp_world := et_world st, lp_lines := lp_lines l @ et_lines st,
                    lp_stats := stats_add res took (fail \<noteq> None) (lp_stats l)\<rparr>
         in case fail of
              Some e \<Rightarrow> (fail, res, log_add [PublishFailed res] (l1\<lparr>lp_streak := lp_streak l1 + 1\<rparr>))
            | None \<Rightarrow> (None, res,
                (log_add [if \<not> summaries c \<or> \<not> lp_succeeded l1 then Published res
                          else if 0 < lp_streak l1 then Recovered res (lp_streak l1)
                          else PublishedQuietly res] l1)\<lparr>lp_succeeded := True, lp_streak := 0\<rparr>))))"

section \<open>One run\<close>

text \<open>\<open>once\<close>: the exit code, the modules that failed and the loop.\<close>

definition loop_once :: "'w platform \<Rightarrow> (f64 \<Rightarrow> string) \<Rightarrow> loop_conf \<Rightarrow> (source \<times> gtime \<times> answer) list \<Rightarrow> int \<Rightarrow> 'w loop
    \<Rightarrow> nat \<times> string list \<times> 'w loop" where
  "loop_once plat fmt c answers took l = (case once buffers_add answers (lp_bufs l) of (failed, bufs) \<Rightarrow>
     (case loop_publish plat fmt c took (l\<lparr>lp_bufs := bufs\<rparr>) of (err, res, l1) \<Rightarrow>
       (if err \<noteq> None then exit_error
        else if failed \<noteq> [] \<or> 0 < pr_entities_failed res then exit_partial
        else exit_ok, failed, l1)))"

definition new_loop :: "int \<Rightarrow> run_ready \<Rightarrow> bool \<Rightarrow> 'w traced \<Rightarrow> 'w loop" where
  "new_loop max_per_metric r dry st = \<lparr>lp_bufs = new_buffers max_per_metric, lp_world = (run_keyed r dry, st), lp_stats = new_stats 0,
     lp_succeeded = False, lp_streak = 0, lp_failures = new_failure_log, lp_lines = [], lp_log = []\<rparr>"

definition run_conf :: "run_ready \<Rightarrow> bool \<Rightarrow> bool \<Rightarrow> loop_conf" where
  "run_conf r daemon dry = \<lparr>lc_daemon = daemon, lc_summary_every = cs_summary_interval (rr_settings r),
     lc_interval = cs_publish_interval (rr_settings r), lc_host = run_publisher r dry, lc_links = host_links (rr_desired r)\<rparr>"

text \<open>
  \<open>omnistat run\<close> without \<open>--daemon\<close>: \<open>answers\<close> gives each source's answer and time, in the order the
  collections happen to end.
\<close>

definition run_once :: "app \<Rightarrow> 'w platform \<Rightarrow> (f64 \<Rightarrow> string) \<Rightarrow> config_settings \<Rightarrow> bool \<Rightarrow> (source list \<Rightarrow> (source \<times> gtime \<times> answer) list)
    \<Rightarrow> int \<Rightarrow> int \<Rightarrow> 'w traced \<Rightarrow> nat \<times> 'w traced" where
  "run_once a plat fmt s dry answers took mx st = (case start_run a plat s dry st of
       (Inl e, st1) \<Rightarrow> (exit_error, st1)
     | (Inr r, st1) \<Rightarrow> (case loop_once plat fmt (run_conf r False dry) (answers (rr_sources r)) took (new_loop mx r dry st1) of
         (code, failed, l) \<Rightarrow> (code, snd (lp_world l))))"

text \<open>A publish of the loop is nothing, or a publish of everything counted once.\<close>

lemma loop_publish_cases:
  assumes "loop_publish plat fmt c took l = (err, res, l')"
  shows "\<exists>drops bufs. buffers_drops (lp_bufs l) = (drops, bufs) \<and> lp_failures l' = lp_failures l
    \<and> ((buffers_empty bufs \<and> err = None \<and> res = no_result \<and> lp_bufs l' = bufs \<and> lp_world l' = lp_world l \<and> lp_stats l' = lp_stats l
          \<and> lp_log l' = lp_log l @ map BufferFull drops @ [NothingToPublish])
      \<or> (\<not> buffers_empty bufs \<and> (\<exists>st e. publish_all (run_publish plat) fmt (run_resolver plat) (lc_host c) (lc_links c) bufs (lp_world l) = (err, st)
          \<and> res = et_total st \<and> lp_bufs l' = et_bufs st \<and> lp_world l' = et_world st \<and> lp_stats l' = stats_add res took (err \<noteq> None) (lp_stats l)
          \<and> lp_log l' = lp_log l @ map BufferFull drops @ [e]
          \<and> (if err \<noteq> None then e = PublishFailed res else e \<in> {Published res, PublishedQuietly res, Recovered res (lp_streak l)}))))"
proof -
  obtain drops bufs where d: "buffers_drops (lp_bufs l) = (drops, bufs)" by (metis surj_pair)
  obtain err' st where p: "publish_all (run_publish plat) fmt (run_resolver plat) (lc_host c) (lc_links c) bufs (lp_world l) = (err', st)" by (metis surj_pair)
  show ?thesis using assms d p by (cases err') (auto simp: loop_publish_def log_add_def Let_def split: if_splits)
qed

section \<open>A dry run writes nothing\<close>

lemma publish_dry_world: "pb_dry p \<Longrightarrow> publish api fmt p b w = (fail, res, lines, w') \<Longrightarrow> w' = w \<and> fail = None"
  by (auto simp: publish_def Let_def split: if_splits)

lemma quiet_keyed:
  assumes "reads_keep v plat" "kd_dry k" "keyed_resolve (pl_api plat) tpl key k st = (r, k', st')"
  shows "quiet v st st' \<and> kd_dry k'"
  using assms(2,3) quiet_by_key [OF assms(1)]
  by (auto simp: keyed_resolve_def Let_def split: option.splits prod.splits sum.splits)

definition quiet_world_step :: "('w \<Rightarrow> 'v) \<Rightarrow> 'w run_world \<Rightarrow> 'w run_world \<Rightarrow> bool" where
  "quiet_world_step v a b \<longleftrightarrow> (kd_dry (fst a) \<longrightarrow> kd_dry (fst b) \<and> quiet v (snd a) (snd b))"

lemma quiet_step_trans: "quiet_world_step v a b \<Longrightarrow> quiet_world_step v b c \<Longrightarrow> quiet_world_step v a c"
  by (auto simp: quiet_world_step_def intro: quiet_trans)

lemma quiet_step_refl [simp]: "quiet_world_step v a a"
  by (simp add: quiet_world_step_def)

lemma dry_entity_publisher [simp]: "pb_dry (entity_publisher host links t eid) = pb_dry host"
  by (simp add: entity_publisher_def Let_def)

lemma quiet_publish_entity:
  assumes "reads_keep v plat" "pb_dry host"
  shows "quiet_world_step v (et_world st) (et_world (publish_entity (run_publish plat) fmt (run_resolver plat) host links st t))"
proof (cases "buffer_for (et_bufs st) t")
  case None
  then show ?thesis by (simp add: publish_entity_def)
next
  case (Some buf)
  show ?thesis
  proof (cases "batch_empty (snapshot buf)")
    case True
    then show ?thesis using Some by (simp add: publish_entity_def)
  next
    case False
    obtain k w where w: "et_world st = (k, w)" by (metis surj_pair)
    obtain r k1 w1 where kr: "keyed_resolve (pl_api plat) (tg_template t) (tg_key t) k w = (r, k1, w1)" by (metis prod_cases3)
    then have q: "quiet_world_step v (et_world st) (k1, w1)" using quiet_keyed [OF assms(1)] w by (auto simp: quiet_world_step_def)
    have res: "rv_resolve (run_resolver plat) (tg_module t) (tg_template t) (tg_key t) (et_world st) = (r, (k1, w1))"
      by (simp add: run_resolver_def w kr)
    show ?thesis
    proof (cases r)
      case (Inl e)
      then show ?thesis using Some False res q by (simp add: publish_entity_def)
    next
      case (Inr ro)
      obtain eid out where ro: "ro = (eid, out)" by (metis surj_pair)
      obtain fail pres lines w2 where pub: "publish (run_publish plat) fmt (entity_publisher host links t eid) (snapshot buf) (k1, w1)
          = (fail, pres, lines, w2)" by (metis prod_cases4)
      have "w2 = (k1, w1) \<and> fail = None" using publish_dry_world [OF _ pub] assms(2) by simp
      then show ?thesis using Some False res q Inr ro pub by (simp add: publish_entity_def Let_def)
    qed
  qed
qed

lemma quiet_entities:
  assumes "reads_keep v plat" "pb_dry host"
  shows "quiet_world_step v (et_world st) (et_world (foldl (publish_entity (run_publish plat) fmt (run_resolver plat) host links) st ts))"
proof (induction ts arbitrary: st)
  case (Cons t ts)
  show ?case using quiet_step_trans [OF quiet_publish_entity [OF assms] Cons] by simp
qed simp

lemma quiet_publish_all:
  assumes "reads_keep v plat" "pb_dry host" "publish_all (run_publish plat) fmt (run_resolver plat) host links bufs w = (fail, st)"
  shows "quiet_world_step v w (et_world st) \<and> fail = None"
proof (cases "batch_empty (snapshot (bs_host bufs))")
  case True
  then show ?thesis using assms(3) quiet_entities [OF assms(1,2), of "\<lparr>et_bufs = bufs, et_total = no_result, et_lines = [], et_world = w\<rparr>"]
    by (auto simp: publish_all_def Let_def)
next
  case False
  obtain f res lines w1 where pub: "publish (run_publish plat) fmt host (snapshot (bs_host bufs)) w = (f, res, lines, w1)" by (metis prod_cases4)
  have "w1 = w \<and> f = None" by (rule publish_dry_world [OF assms(2) pub])
  then show ?thesis using False pub assms(3) quiet_entities [OF assms(1,2), of "\<lparr>et_bufs = bufs\<lparr>bs_host := buffer_ack (snapshot (bs_host bufs)) (ack_of res) (bs_host bufs)\<rparr>,
      et_total = add_result no_result res, et_lines = lines, et_world = w\<rparr>"]
    by (auto simp: publish_all_def Let_def)
qed

lemma quiet_loop_publish:
  assumes "reads_keep v plat" "pb_dry (lc_host c)" "loop_publish plat fmt c took l = (err, res, l')"
  shows "quiet_world_step v (lp_world l) (lp_world l') \<and> err = None"
proof -
  obtain bufs where "(err = None \<and> lp_world l' = lp_world l) \<or>
      (\<exists>st. publish_all (run_publish plat) fmt (run_resolver plat) (lc_host c) (lc_links c) bufs (lp_world l) = (err, st) \<and> lp_world l' = et_world st)"
    using loop_publish_cases [OF assms(3)] by blast
  then show ?thesis
  proof
    assume "\<exists>st. publish_all (run_publish plat) fmt (run_resolver plat) (lc_host c) (lc_links c) bufs (lp_world l) = (err, st) \<and> lp_world l' = et_world st"
    then obtain st where st: "publish_all (run_publish plat) fmt (run_resolver plat) (lc_host c) (lc_links c) bufs (lp_world l) = (err, st)"
        "lp_world l' = et_world st" by blast
    from quiet_publish_all [OF assms(1,2) st(1)] st(2) show ?thesis by simp
  qed simp
qed

text \<open>
  A dry run only reads. On any platform, through any view of its state that reads and lookups leave
  alone, \<open>omnistat run --dry-run\<close> leaves the view as it was and makes no call that gives a key or creates an
  entity, whatever the schema lacks, the modules report and the settings say; \<open>omnistat identity\<close> does so
  too, and its exit code does not depend on anything being written.\<close>

lemma dry_run_only_reads:
  assumes "reads_keep v plat"
  shows "(run_once a plat fmt s True answers took mx st = (code, st') \<longrightarrow>
      v (fst st') = v (fst st) \<and> (\<exists>cs. snd st' = snd st @ cs \<and> \<not> list_ex is_write cs))
    \<and> (identity_command a plat s st = (code, st') \<longrightarrow>
      v (fst st') = v (fst st) \<and> (\<exists>cs. snd st' = snd st @ cs \<and> \<not> list_ex is_write cs))"
proof -
  have "quiet v st st'" if run: "run_once a plat fmt s True answers took mx st = (code, st')"
  proof -
    obtain r st1 where start: "start_run a plat s True st = (r, st1)" by (metis surj_pair)
    note q = quiet_start_run [OF assms start]
    show ?thesis
    proof (cases r)
      case (Inl e)
      then show ?thesis using q start run by (simp add: run_once_def)
    next
      case (Inr rr)
      obtain failed bufs where on: "once buffers_add (answers (rr_sources rr)) (new_buffers mx) = (failed, bufs)" by (metis surj_pair)
      obtain err res l1 where lp: "loop_publish plat fmt (run_conf rr False True) took ((new_loop mx rr True st1)\<lparr>lp_bufs := bufs\<rparr>) = (err, res, l1)"
        by (metis prod_cases3)
      have "quiet_world_step v (run_keyed rr True, st1) (lp_world l1)"
        using quiet_loop_publish [OF assms _ lp] by (simp add: run_conf_def run_publisher_def new_loop_def)
      moreover have "st' = snd (lp_world l1)" using run start Inr on lp by (simp add: run_once_def loop_once_def new_loop_def)
      ultimately show ?thesis using quiet_trans [OF q] by (simp add: quiet_world_step_def run_keyed_def)
    qed
  qed
  then show ?thesis using quiet_identity [OF assms] by (auto simp: quiet_def)
qed

section \<open>At a concrete input\<close>

text \<open>A platform that counts its writes, and a project without any of the schema.\<close>

definition counting_platform :: "nat platform" where
  "counting_platform = \<lparr>
     pl_schema = \<lparr>sa_read = (\<lambda>w. (Inr \<lparr>cu_templates = [], cu_attributes = []\<rparr>, w)), sa_create_template = (\<lambda>slug name desc w. (Inr slug, Suc w)),
       sa_create_attribute = (\<lambda>p w. (Inr (cp_slug p), Suc w)), sa_add_option = (\<lambda>aid v w. (Inr v, Suc w)), sa_bind = (\<lambda>aid ts w. (Inr (), Suc w))\<rparr>,
     pl_api = \<lparr>api_find = (\<lambda>tid slug v w. (Inr [], w)), api_by_key = (\<lambda>tpl key w. (Inr None, w)),
       api_upsert = (\<lambda>tpl key attrs w. (Inr (key, True), Suc w)), api_set_key = (\<lambda>eid key w. (Inr (), Suc w))\<rparr>,
     pl_publish = \<lparr>pa_update = (\<lambda>eid dims w. (None, Suc w)), pa_ingest = (\<lambda>eid os w. (None, Suc w))\<rparr>,
     pl_sleep = (\<lambda>d w. (True, w))\<rparr>"

definition example_app :: app where
  "example_app = \<lparr>ap_registry = the (register (static_module machineid_manifest) [Required] new_registry), ap_version = ''v1.0.0'', ap_goos = ''linux'',
     ap_machineid = \<lparr>mi_fs = (\<lambda>p. None), mi_ioreg = None, mi_guid = None, mi_goos = ''linux''\<rparr>, ap_interval = (\<lambda>n. None)\<rparr>"

definition example_settings :: config_settings where
  "example_settings = default_settings\<lparr>cs_token := ''t'', cs_project := ''p'', cs_identity := ''host-1''\<rparr>"

lemma dry_run_only_reads_witness:
  "fst (snd (run_once example_app counting_platform (\<lambda>f. []) example_settings True (\<lambda>srcs. []) 0 0 (7, []))) = 7"
proof -
  obtain code st' where run: "run_once example_app counting_platform (\<lambda>f. []) example_settings True (\<lambda>srcs. []) 0 0 (7, []) = (code, st')"
    by (metis surj_pair)
  have "reads_keep (\<lambda>w. w) counting_platform" by (simp add: reads_keep_def counting_platform_def)
  from dry_run_only_reads [OF this, of example_app "\<lambda>f. []" example_settings "\<lambda>srcs. []" 0 0 "(7, [])" code st'] run show ?thesis by simp
qed

section \<open>A run on a working platform\<close>

definition answering :: "'w platform \<Rightarrow> bool" where
  "answering plat \<longleftrightarrow> accepts (pl_publish plat)
     \<and> (\<forall>tpl key w. \<exists>x w'. api_by_key (pl_api plat) tpl key w = (Inr x, w'))
     \<and> (\<forall>tpl key attrs w. \<exists>x w'. api_upsert (pl_api plat) tpl key attrs w = (Inr x, w'))"

lemma run_publish_accepts: "answering plat \<Longrightarrow> accepts (run_publish plat)"
  by (auto simp: answering_def accepts_def run_publish_def on_world_def split: prod.splits) (metis fst_conv)+

lemma run_resolves: "answering plat \<Longrightarrow> resolves (run_resolver plat)"
proof -
  assume a: "answering plat"
  have bk: "\<exists>x st'. by_key (pl_api plat) tpl key st = (Inr x, st')" for tpl key st
    using a by (auto simp: by_key_def call_def answering_def split: prod.splits) (metis prod.inject)
  have up: "\<exists>x st'. upsert (pl_api plat) tpl key attrs st = (Inr x, st')" for tpl key attrs st
  proof -
    obtain x w where "api_upsert (pl_api plat) tpl key attrs (fst st) = (Inr x, w)" using a unfolding answering_def by blast
    then have "upsert_by_key (pl_api plat) tpl key attrs st = (Inr x, (w, snd st @ [CallUpsert tpl key attrs]))"
      by (simp add: upsert_by_key_def call_def)
    then show ?thesis by (simp add: upsert_def upsert_attempts_def numeral_3_eq_3)
  qed
  have "\<exists>x k' st'. keyed_resolve (pl_api plat) tpl key k st = (Inr x, k', st')" for tpl key k st
  proof -
    obtain x st1 where b: "by_key (pl_api plat) tpl key st = (Inr x, st1)" using bk by blast
    obtain y st2 where u: "upsert (pl_api plat) tpl key (link_attrs k tpl) st1 = (Inr y, st2)" using up by blast
    obtain eid c where y: "y = (eid, c)" by (metis surj_pair)
    show ?thesis using b u y by (cases x) (auto simp: keyed_resolve_def Let_def split: option.splits)
  qed
  then show ?thesis by (fastforce simp: resolves_def run_resolver_def split: prod.splits)
qed

text \<open>
  A platform whose world shows, by \<open>v\<close>, the updates and ingests it was sent; looking an entity up or creating it is none of them.
\<close>

definition recording_platform :: "('w \<Rightarrow> pub_call list) \<Rightarrow> 'w platform \<Rightarrow> bool" where
  "recording_platform v plat \<longleftrightarrow> records v (pl_publish plat)
     \<and> (\<forall>tpl key w. v (snd (api_by_key (pl_api plat) tpl key w)) = v w)
     \<and> (\<forall>tpl key attrs w. v (snd (api_upsert (pl_api plat) tpl key attrs w)) = v w)"

definition run_calls :: "('w \<Rightarrow> pub_call list) \<Rightarrow> 'w run_world \<Rightarrow> pub_call list" where
  "run_calls v wl = v (fst (snd wl))"

lemma run_publish_records: "recording_platform v plat \<Longrightarrow> records (run_calls v) (run_publish plat)"
  by (auto simp: recording_platform_def records_def run_publish_def run_calls_def on_world_def split: prod.split) (metis fst_conv snd_conv)+

lemma run_resolver_leaves:
  assumes "recording_platform v plat"
  shows "leaves_calls (run_calls v) (run_resolver plat)"
proof -
  have bk: "v (fst (snd (by_key (pl_api plat) tpl key st))) = v (fst st)" for tpl key st
    using assms by (simp add: by_key_def call_def recording_platform_def split: prod.split) (metis snd_conv)
  have up: "v (fst (snd (upsert_by_key (pl_api plat) tpl key attrs st))) = v (fst st)" for tpl key attrs st
    using assms by (simp add: upsert_by_key_def call_def recording_platform_def split: prod.split) (metis snd_conv)
  have loop: "v (fst (snd (upsert_loop n (pl_api plat) tpl key attrs prev st))) = v (fst st)" for n tpl key attrs prev st
  proof (induction n arbitrary: prev st)
    case 0
    then show ?case using bk [of tpl key st] by (auto split: prod.split sum.split option.split)
  next
    case (Suc n)
    then show ?case using up [of tpl key attrs st] by (auto split: prod.split sum.split api_error.split)
  qed
  have "v (fst (snd (snd (keyed_resolve (pl_api plat) tpl key k st)))) = v (fst st)" for tpl key k st
  proof -
    obtain r st1 where b: "by_key (pl_api plat) tpl key st = (r, st1)" by (metis surj_pair)
    obtain y st2 where u: "upsert (pl_api plat) tpl key (link_attrs k tpl) st1 = (y, st2)" by (metis surj_pair)
    have "v (fst st1) = v (fst st)" "v (fst st2) = v (fst st1)" using bk [of tpl key st] b
        loop [of upsert_attempts tpl key "link_attrs k tpl" "[]" st1] u by (simp_all add: upsert_def)
    then show ?thesis using b u by (auto simp: keyed_resolve_def Let_def split: option.split sum.split)
  qed
  then show ?thesis by (auto simp: leaves_calls_def run_resolver_def run_calls_def split: prod.split)
qed

text \<open>What a publish of the loop sends to such a platform.\<close>

definition loop_sends :: "('w \<Rightarrow> pub_call list) \<Rightarrow> 'w platform \<Rightarrow> (f64 \<Rightarrow> string) \<Rightarrow> loop_conf \<Rightarrow> 'w loop \<Rightarrow> 'w loop \<Rightarrow> bool" where
  "loop_sends v plat fmt c l l' \<longleftrightarrow> (\<exists>cs. run_calls v (lp_world l') = run_calls v (lp_world l) @ cs
     \<and> all_sent fmt (run_resolver plat) (lc_host c) (lc_links c) (snd (buffers_drops (lp_bufs l))) cs)"

lemma nothing_sent:
  assumes "buffers_ok bufs" "buffers_empty bufs"
  shows "all_sent fmt rv host links bufs []"
proof -
  have "batch_empty (snapshot (bs_host bufs))" using assms snapshot_parts [of "bs_host bufs"] by (simp add: buffers_ok_def buffers_empty_def)
  moreover have "entity_sent fmt rv host links bufs t []" if "t \<in> set (targets bufs)" for t
    using that assms(2) by (auto simp: entity_sent_def buffers_empty_def list_all_iff split: option.split)
  ultimately show ?thesis using carried_nothing unfolding all_sent_def
    by (intro exI [of _ "[]"] exI [of _ "\<lambda>t. []"]) simp
qed

lemma buffer_ok_drained: "buffers_ok b \<Longrightarrow> buffers_ok (snd (drain_target (out, b) t))"
proof -
  assume ok: "buffers_ok b"
  have "gm_get (bs_targets b) t = Some x \<Longrightarrow> buffer_ok x" for x using ok by (simp add: buffers_ok_def)
  then show ?thesis using ok buffers_ok_put [OF ok] buffer_ok_drops by (simp add: drain_target_def split: option.splits)
qed

lemma buffers_ok_drops: "buffers_ok b \<Longrightarrow> buffers_ok (snd (buffers_drops b))"
proof -
  assume ok: "buffers_ok b"
  have "buffers_ok (snd acc) \<Longrightarrow> buffers_ok (snd (foldl drain_target acc ts))" for acc ts
  proof (induction ts arbitrary: acc)
    case (Cons t ts)
    show ?case using Cons.IH [of "drain_target acc t"] buffer_ok_drained [OF Cons.prems, of "fst acc" t] by simp
  qed simp
  moreover have "buffers_ok (b\<lparr>bs_host := snd (buffer_drops (bs_host b))\<rparr>)"
  proof (rule buffers_ok_host [OF ok buffer_ok_drops])
    show "buffer_ok (bs_host b)" using ok by (simp add: buffers_ok_def)
  qed
  ultimately show ?thesis by (simp add: buffers_drops_def)
qed

lemma loop_publish_ok:
  assumes "buffers_ok (lp_bufs l)" "loop_publish plat fmt c took l = (err, res, l')"
  shows "buffers_ok (lp_bufs l') \<and> (answering plat \<longrightarrow> err = None \<and> pr_entities_failed res = 0 \<and> buffers_empty (lp_bufs l'))"
proof -
  obtain drops bufs where d: "buffers_drops (lp_bufs l) = (drops, bufs)"
      "(buffers_empty bufs \<and> err = None \<and> res = no_result \<and> lp_bufs l' = bufs) \<or>
       (\<exists>st. publish_all (run_publish plat) fmt (run_resolver plat) (lc_host c) (lc_links c) bufs (lp_world l) = (err, st)
          \<and> res = et_total st \<and> lp_bufs l' = et_bufs st)"
    using loop_publish_cases [OF assms(2)] by blast
  have ok: "buffers_ok bufs" using buffers_ok_drops [OF assms(1)] d(1) by simp
  from d(2) show ?thesis
  proof
    assume "\<exists>st. publish_all (run_publish plat) fmt (run_resolver plat) (lc_host c) (lc_links c) bufs (lp_world l) = (err, st)
          \<and> res = et_total st \<and> lp_bufs l' = et_bufs st"
    then obtain st where st: "publish_all (run_publish plat) fmt (run_resolver plat) (lc_host c) (lc_links c) bufs (lp_world l) = (err, st)"
        "res = et_total st" "lp_bufs l' = et_bufs st" by blast
    show ?thesis using publish_all_buffers [OF ok st(1)] publish_all_drained [OF run_publish_accepts run_resolves ok st(1)] st(2,3) by auto
  qed (use ok in \<open>simp add: no_result_def\<close>)
qed

lemma loop_publish_sends:
  assumes "buffers_ok (lp_bufs l)" "answering plat" "recording_platform v plat" "\<not> pb_dry (lc_host c)" "loop_publish plat fmt c took l = (err, res, l')"
  shows "loop_sends v plat fmt c l l'"
proof -
  obtain drops bufs where d: "buffers_drops (lp_bufs l) = (drops, bufs)"
      "(buffers_empty bufs \<and> lp_world l' = lp_world l) \<or>
       (\<exists>st. publish_all (run_publish plat) fmt (run_resolver plat) (lc_host c) (lc_links c) bufs (lp_world l) = (err, st) \<and> lp_world l' = et_world st)"
    using loop_publish_cases [OF assms(5)] by blast
  have ok: "buffers_ok bufs" using buffers_ok_drops [OF assms(1)] d(1) by simp
  from d(2) show ?thesis
  proof
    assume "buffers_empty bufs \<and> lp_world l' = lp_world l"
    then show ?thesis using nothing_sent [OF ok] d(1) by (simp add: loop_sends_def)
  next
    assume "\<exists>st. publish_all (run_publish plat) fmt (run_resolver plat) (lc_host c) (lc_links c) bufs (lp_world l) = (err, st) \<and> lp_world l' = et_world st"
    then obtain st where st: "publish_all (run_publish plat) fmt (run_resolver plat) (lc_host c) (lc_links c) bufs (lp_world l) = (err, st)"
        "lp_world l' = et_world st" by blast
    show ?thesis using all_calls [OF run_publish_accepts [OF assms(2)] run_resolves [OF assms(2)] run_publish_records [OF assms(3)]
        run_resolver_leaves [OF assms(3)] ok assms(4) st(1)] d(1) st(2) unfolding loop_sends_def by simp
  qed
qed

lemma once_ok: "buffers_ok b \<Longrightarrow> buffers_ok (snd (once buffers_add answers b))"
proof -
  assume ok: "buffers_ok b"
  have "buffers_ok (snd acc) \<Longrightarrow> buffers_ok (snd (foldl (once_step buffers_add) acc answers))" for acc
  proof (induction answers arbitrary: acc)
    case (Cons x answers)
    obtain src now ans where x: "x = (src, now, ans)" by (metis prod_cases3)
    obtain failed st where acc: "acc = (failed, st)" by (metis surj_pair)
    have "buffers_ok (snd (once_step buffers_add acc x))"
      using buffers_sink.collect_inv [of st src now ans] Cons.prems by (simp add: x acc once_step_eq)
    then show ?case using Cons.IH by simp
  qed simp
  then show ?thesis using ok by (simp add: once_def split: prod.splits) (metis snd_conv)
qed

text \<open>
  C32: a run on a working platform is complete. When the platform accepts what it is sent and answers the
  lookups, one run ends with 0 if every module answered and with 2 if some did not, naming exactly those;
  in both cases everything the modules that answered reported is gone from the buffers, so a failing
  module never holds back the others.\<close>

theorem once_complete:
  assumes "answering plat" "buffers_ok (lp_bufs l)" "loop_once plat fmt c answers took l = (code, failed, l')"
  shows "failed = sort (map (\<lambda>(src, now, ans). so_module src) (filter (\<lambda>(src, now, ans). answer_failed ans) answers))
    \<and> code = (if list_ex (\<lambda>(src, now, ans). answer_failed ans) answers then 2 else 0)
    \<and> buffers_empty (lp_bufs l')"
proof -
  obtain f bufs where o: "once buffers_add answers (lp_bufs l) = (f, bufs)" by (metis surj_pair)
  obtain err res l1 where p: "loop_publish plat fmt c took (l\<lparr>lp_bufs := bufs\<rparr>) = (err, res, l1)" by (metis prod_cases3)
  have "buffers_ok bufs" using once_ok [OF assms(2), of answers] o by simp
  then have r: "err = None \<and> pr_entities_failed res = 0 \<and> buffers_empty (lp_bufs l1)"
    using loop_publish_ok [OF _ p] assms(1) by simp
  have f: "f = sort (map (\<lambda>(src, now, ans). so_module src) (filter (\<lambda>(src, now, ans). answer_failed ans) answers))"
    using once_failures [of buffers_add answers "lp_bufs l"] o by simp
  then have "f = [] \<longleftrightarrow> \<not> list_ex (\<lambda>(src, now, ans). answer_failed ans) answers"
    by (auto simp: filter_empty_conv list_ex_iff)
  then show ?thesis using assms(3) o p r f by (auto simp: loop_once_def exit_ok_def exit_partial_def exit_error_def split: if_splits)
qed

theorem once_complete_witness:
  "fst (loop_once counting_platform (\<lambda>f. []) \<lparr>lc_daemon = False, lc_summary_every = 0, lc_interval = 60, lc_host = example_publisher, lc_links = []\<rparr>
      [(example_source, 7, Returned example_observations), (example_source, 7, FailedWith ''eof'')] 0
      \<lparr>lp_bufs = new_buffers 0, lp_world = (\<lparr>kd_host_id = [], kd_host_link = [], kd_dry = False, kd_ids = []\<rparr>, (0, [])), lp_stats = new_stats 0,
       lp_succeeded = False, lp_streak = 0, lp_failures = new_failure_log, lp_lines = [], lp_log = []\<rparr>) = 2"
proof -
  let ?c = "\<lparr>lc_daemon = False, lc_summary_every = 0, lc_interval = 60, lc_host = example_publisher, lc_links = []\<rparr>"
  let ?l = "\<lparr>lp_bufs = new_buffers 0, lp_world = (\<lparr>kd_host_id = [], kd_host_link = [], kd_dry = False, kd_ids = []\<rparr>, (0, [])), lp_stats = new_stats 0,
       lp_succeeded = False, lp_streak = 0, lp_failures = new_failure_log, lp_lines = [], lp_log = []\<rparr>"
  let ?as = "[(example_source, 7, Returned example_observations), (example_source, 7, FailedWith ''eof'')]"
  obtain code failed l' where run: "loop_once counting_platform (\<lambda>f. []) ?c ?as 0 ?l = (code, failed, l')" by (metis prod_cases3)
  have a: "answering counting_platform" by (auto simp: answering_def accepts_def counting_platform_def)
  have "buffers_ok (lp_bufs ?l)" by (simp add: buffers_ok_new)
  from once_complete [OF a this run] run show ?thesis by (simp add: answer_failed_def)
qed

end
