(* ===== verification/Daemon.thy ===== *)
theory Daemon
  imports Run "HOL-Library.Signed_Division"
begin

text \<open>
  The daemon of \<open>internal/cli/run.go\<close> as a step relation: the publish loop in its phases, the scheduler's
  collections interleaved with it, the clock and the stop signal. A collection and a publish are each one
  step; what a publish does to a buffer that is fed while it runs is the subject of the theory Buffer.
\<close>

section \<open>State and steps\<close>

datatype phase = FirstRound | Publishing | Sleeping int | Stopping | Ended nat

record 'w daemon =
  dm_loop :: "'w loop"
  dm_phase :: phase
  dm_now :: int
  dm_start :: int
  dm_cancelled :: bool
  dm_collected :: "string list"

text \<open>The modules that have collected once are those the first round waits for.\<close>

definition round_done :: "source list \<Rightarrow> 'w daemon \<Rightarrow> bool" where
  "round_done srcs s \<longleftrightarrow> dm_cancelled s \<or> list_all (\<lambda>src. so_module src \<in> set (dm_collected s)) srcs"

text \<open>The next tick on the interval grid: \<open>start + interval * (elapsed / interval + 1)\<close>, with Go's division.\<close>

definition next_tick :: "int \<Rightarrow> int \<Rightarrow> int \<Rightarrow> int" where
  "next_tick start interval now = start + interval * ((now - start) sdiv interval + 1)"

text \<open>One collection of the scheduler: the samples into the buffers, the outcome into the failure log.\<close>

definition collect_into :: "source \<Rightarrow> int \<Rightarrow> answer \<Rightarrow> 'w loop \<Rightarrow> 'w loop" where
  "collect_into src now ans l = (case collect_one buffers_add src now ans (lp_bufs l) of
       (Inl reason, bufs) \<Rightarrow> (case log_failed (so_module src) reason (lp_failures l) of (rec, f) \<Rightarrow>
          log_add [CollectionLog rec] (l\<lparr>lp_bufs := bufs, lp_failures := f\<rparr>))
     | (Inr r, bufs) \<Rightarrow> (case log_succeeded (so_module src) (lp_failures l) of (rec, f) \<Rightarrow>
          log_add [CollectionLog rec] (l\<lparr>lp_bufs := bufs, lp_failures := f\<rparr>)))"

definition begin_loop :: "'w daemon \<Rightarrow> 'w daemon" where
  "begin_loop s = s\<lparr>dm_start := dm_now s, dm_loop := (dm_loop s)\<lparr>lp_stats := new_stats (dm_now s)\<rparr>,
     dm_phase := (if dm_cancelled s then Stopping else Publishing)\<rparr>"

definition after_publish :: "loop_conf \<Rightarrow> int \<Rightarrow> pub_failure option \<Rightarrow> 'w loop \<Rightarrow> 'w daemon \<Rightarrow> 'w daemon" where
  "after_publish c now err l s = (case err of
       Some (EntityGone g) \<Rightarrow> s\<lparr>dm_now := now, dm_loop := l, dm_phase := Ended exit_error\<rparr>
     | _ \<Rightarrow> s\<lparr>dm_now := now, dm_loop := summarize c False now l, dm_phase := Sleeping (next_tick (dm_start s) (lc_interval c) now)\<rparr>)"

definition final_publish :: "loop_conf \<Rightarrow> int \<Rightarrow> 'w loop \<Rightarrow> 'w daemon \<Rightarrow> 'w daemon" where
  "final_publish c now l s = s\<lparr>dm_now := now, dm_loop := log_add [Stopped] (summarize c True now l), dm_phase := Ended exit_ok\<rparr>"

inductive dstep :: "'w platform \<Rightarrow> (f64 \<Rightarrow> string) \<Rightarrow> loop_conf \<Rightarrow> source list \<Rightarrow> 'w daemon \<Rightarrow> 'w daemon \<Rightarrow> bool"
  for plat fmt c srcs where
  collect: "src \<in> set srcs \<Longrightarrow> \<forall>k. dm_phase s \<noteq> Ended k \<Longrightarrow>
    dstep plat fmt c srcs s (s\<lparr>dm_loop := collect_into src (dm_now s) ans (dm_loop s), dm_collected := so_module src # dm_collected s\<rparr>)"
| wait: "0 \<le> d \<Longrightarrow> dstep plat fmt c srcs s (s\<lparr>dm_now := dm_now s + d\<rparr>)"
| cancel: "dstep plat fmt c srcs s (s\<lparr>dm_cancelled := True\<rparr>)"
| first_round: "dm_phase s = FirstRound \<Longrightarrow> round_done srcs s \<Longrightarrow> dstep plat fmt c srcs s (begin_loop s)"
| tick: "dm_phase s = Publishing \<Longrightarrow> 0 \<le> took \<Longrightarrow> loop_publish plat fmt c took (dm_loop s) = (err, res, l) \<Longrightarrow>
    dstep plat fmt c srcs s (after_publish c (dm_now s + took) err l s)"
| wake: "dm_phase s = Sleeping t \<Longrightarrow> t \<le> dm_now s \<Longrightarrow> \<not> dm_cancelled s \<Longrightarrow> dstep plat fmt c srcs s (s\<lparr>dm_phase := Publishing\<rparr>)"
| interrupt: "dm_phase s = Sleeping t \<Longrightarrow> dm_cancelled s \<Longrightarrow> dstep plat fmt c srcs s (s\<lparr>dm_phase := Stopping\<rparr>)"
| stop: "dm_phase s = Stopping \<Longrightarrow> 0 \<le> took \<Longrightarrow> loop_publish plat fmt c took (dm_loop s) = (err, res, l) \<Longrightarrow>
    dstep plat fmt c srcs s (final_publish c (dm_now s + took) l s)"

inductive_cases dstepE: "dstep plat fmt c srcs s s'"

lemmas dstep_cases = dstepE [consumes 1, case_names collect wait cancel first_round tick wake interrupt stop]

definition new_daemon :: "int \<Rightarrow> 'w loop \<Rightarrow> 'w daemon" where
  "new_daemon now l = \<lparr>dm_loop = l, dm_phase = FirstRound, dm_now = now, dm_start = 0, dm_cancelled = False, dm_collected = []\<rparr>"

inductive reachable :: "'w platform \<Rightarrow> (f64 \<Rightarrow> string) \<Rightarrow> loop_conf \<Rightarrow> source list \<Rightarrow> 'w daemon \<Rightarrow> 'w daemon \<Rightarrow> bool"
  for plat fmt c srcs s0 where
  start: "reachable plat fmt c srcs s0 s0"
| step: "reachable plat fmt c srcs s0 s \<Longrightarrow> dstep plat fmt c srcs s s' \<Longrightarrow> reachable plat fmt c srcs s0 s'"

section \<open>What the log accounts for\<close>

text \<open>The publishes a record stands for: how many succeeded, failed, and with how many observations.\<close>

fun logged_publish :: "run_log \<Rightarrow> int \<times> int \<times> int" where
  "logged_publish (PublishFailed r) = (0, 1, pr_observations r)"
| "logged_publish (Published r) = (1, 0, pr_observations r)"
| "logged_publish (Recovered r n) = (1, 0, pr_observations r)"
| "logged_publish (PublishedQuietly r) = (1, 0, pr_observations r)"
| "logged_publish _ = (0, 0, 0)"

definition of_stats :: "publish_stats \<Rightarrow> int \<times> int \<times> int" where
  "of_stats st = (st_publishes st, st_failed st, st_obs st)"

fun summarized :: "run_log \<Rightarrow> int \<times> int \<times> int" where
  "summarized (Summary p st) = of_stats st"
| "summarized _ = (0, 0, 0)"

definition plus3 :: "int \<times> int \<times> int \<Rightarrow> int \<times> int \<times> int \<Rightarrow> int \<times> int \<times> int" where
  "plus3 a b = (fst a + fst b, fst (snd a) + fst (snd b), snd (snd a) + snd (snd b))"

definition sum3 :: "(run_log \<Rightarrow> int \<times> int \<times> int) \<Rightarrow> run_log list \<Rightarrow> int \<times> int \<times> int" where
  "sum3 f rs = (sum_list (map (fst \<circ> f) rs), sum_list (map (fst \<circ> snd \<circ> f) rs), sum_list (map (snd \<circ> snd \<circ> f) rs))"

definition accounted :: "'w loop \<Rightarrow> bool" where
  "accounted l \<longleftrightarrow> sum3 logged_publish (lp_log l) = plus3 (sum3 summarized (lp_log l)) (of_stats (lp_stats l))"

lemma sum3_append: "sum3 f (xs @ ys) = plus3 (sum3 f xs) (sum3 f ys)"
  by (simp add: sum3_def plus3_def)

lemma sum3_quiet: "(\<And>r. r \<in> set rs \<Longrightarrow> f r = (0, 0, 0)) \<Longrightarrow> sum3 f rs = (0, 0, 0)"
  by (induction rs) (auto simp: sum3_def)

lemma plus3_zero [simp]: "plus3 x (0, 0, 0) = x" "plus3 (0, 0, 0) x = x"
  by (simp_all add: plus3_def)

lemma sum3_simps [simp]: "sum3 f [] = (0, 0, 0)" "sum3 f [r] = f r"
  by (simp_all add: sum3_def)

lemma accounted_log: "accounted l \<Longrightarrow> (\<And>r. r \<in> set rs \<Longrightarrow> logged_publish r = (0, 0, 0) \<and> summarized r = (0, 0, 0)) \<Longrightarrow>
    lp_log l' = lp_log l @ rs \<Longrightarrow> lp_stats l' = lp_stats l \<Longrightarrow> accounted l'"
  using sum3_quiet [of rs logged_publish] sum3_quiet [of rs summarized] by (simp add: accounted_def sum3_append)

lemma accounted_summarize: "accounted l \<Longrightarrow> accounted (summarize c final now l)"
proof -
  assume a: "accounted l"
  have z: "of_stats (new_stats now) = (0, 0, 0)" by (simp add: of_stats_def new_stats_def)
  have two: "sum3 f [a, b] = plus3 (f a) (f b)" for f a b by (simp add: sum3_def plus3_def)
  show ?thesis using a
    by (auto simp: summarize_def Let_def accounted_def log_add_def log_take_def sum3_append two z)
qed

lemma accounted_publish: "accounted l \<Longrightarrow> loop_publish plat fmt c took l = (err, res, l') \<Longrightarrow> accounted l'"
proof -
  assume a: "accounted l" and p: "loop_publish plat fmt c took l = (err, res, l')"
  obtain drops bufs where d: "(err = None \<and> lp_stats l' = lp_stats l \<and> lp_log l' = lp_log l @ map BufferFull drops @ [NothingToPublish]) \<or>
      (\<exists>e. lp_stats l' = stats_add res took (err \<noteq> None) (lp_stats l) \<and> lp_log l' = lp_log l @ map BufferFull drops @ [e]
        \<and> (if err \<noteq> None then e = PublishFailed res else e \<in> {Published res, PublishedQuietly res, Recovered res (lp_streak l)}))"
    using loop_publish_cases [OF p] by blast
  have full: "sum3 logged_publish (map BufferFull drops) = (0, 0, 0)" "sum3 summarized (map BufferFull drops) = (0, 0, 0)"
    by (rule sum3_quiet, auto)+
  have add: "plus3 x (of_stats (stats_add res took failed st)) = plus3 (plus3 x (of_stats st)) (if failed then (0, 1, pr_observations res) else (1, 0, pr_observations res))"
    for x failed st by (simp add: plus3_def of_stats_def stats_add_def)
  from d show ?thesis
  proof
    assume "err = None \<and> lp_stats l' = lp_stats l \<and> lp_log l' = lp_log l @ map BufferFull drops @ [NothingToPublish]"
    then show ?thesis by (intro accounted_log [OF a, of "map BufferFull drops @ [NothingToPublish]"]) auto
  next
    assume "\<exists>e. lp_stats l' = stats_add res took (err \<noteq> None) (lp_stats l) \<and> lp_log l' = lp_log l @ map BufferFull drops @ [e]
        \<and> (if err \<noteq> None then e = PublishFailed res else e \<in> {Published res, PublishedQuietly res, Recovered res (lp_streak l)})"
    then obtain e where e: "lp_stats l' = stats_add res took (err \<noteq> None) (lp_stats l)" "lp_log l' = lp_log l @ map BufferFull drops @ [e]"
        "logged_publish e = (if err \<noteq> None then (0, 1, pr_observations res) else (1, 0, pr_observations res))" "summarized e = (0, 0, 0)"
      by (auto split: if_splits)
    show ?thesis using a by (simp add: accounted_def e add sum3_append full)
  qed
qed

section \<open>The invariant\<close>

definition daemon_ok :: "loop_conf \<Rightarrow> 'w daemon \<Rightarrow> bool" where
  "daemon_ok c s \<longleftrightarrow> buffers_ok (lp_bufs (dm_loop s)) \<and> accounted (dm_loop s)
     \<and> (dm_phase s = FirstRound \<longrightarrow> of_stats (lp_stats (dm_loop s)) = (0, 0, 0))
     \<and> (dm_phase s \<noteq> FirstRound \<longrightarrow> dm_start s \<le> dm_now s)
     \<and> (\<forall>t. dm_phase s = Sleeping t \<longrightarrow> (\<exists>k \<ge> 1. t = dm_start s + k * lc_interval c))
     \<and> (dm_phase s = Stopping \<longrightarrow> dm_cancelled s)
     \<and> (\<forall>code. dm_phase s = Ended code \<longrightarrow> code = 0 \<and> dm_cancelled s \<or> code = 1 \<and> (\<exists>r. PublishFailed r \<in> set (lp_log (dm_loop s))))"

lemma tick_grid:
  assumes "0 < interval" "start \<le> now"
  shows "\<exists>k \<ge> 1. next_tick start interval now = start + k * interval \<and> now < next_tick start interval now
    \<and> next_tick start interval now \<le> now + interval"
proof -
  have q: "(now - start) sdiv interval = (now - start) div interval" using assms by (simp add: signed_divide_int_def sgn_if)
  let ?q = "(now - start) div interval"
  have "0 \<le> ?q" using assms by (simp add: pos_imp_zdiv_nonneg_iff)
  moreover have "interval * ?q \<le> now - start" "now - start < interval * ?q + interval"
    using mult_div_mod_eq [of interval "now - start"] pos_mod_sign [OF assms(1), of "now - start"] pos_mod_bound [OF assms(1), of "now - start"] by linarith+
  ultimately have "1 \<le> ?q + 1" "now < start + interval * (?q + 1)" "start + interval * (?q + 1) \<le> now + interval" by (simp_all add: algebra_simps)
  then show ?thesis unfolding next_tick_def q by (intro exI [of _ "?q + 1"]) (simp add: mult.commute)
qed

lemma bufs_summarize [simp]: "lp_bufs (summarize c final now l) = lp_bufs l" "lp_world (summarize c final now l) = lp_world l"
  by (auto simp: summarize_def Let_def log_add_def log_take_def)

lemma log_summarize: "r \<in> set (lp_log l) \<Longrightarrow> r \<in> set (lp_log (summarize c final now l))"
  by (auto simp: summarize_def Let_def log_add_def log_take_def)

lemma collect_into_ok:
  assumes "buffers_ok (lp_bufs l)" "accounted l"
  shows "buffers_ok (lp_bufs (collect_into src now ans l)) \<and> accounted (collect_into src now ans l)
    \<and> lp_stats (collect_into src now ans l) = lp_stats l \<and> lp_world (collect_into src now ans l) = lp_world l
    \<and> set (lp_log l) \<subseteq> set (lp_log (collect_into src now ans l))"
proof -
  obtain r bufs where co: "collect_one buffers_add src now ans (lp_bufs l) = (r, bufs)" by (metis surj_pair)
  have "buffers_ok bufs" using buffers_sink.collect_inv [OF assms(1), of src now ans] co by simp
  moreover have "\<exists>rec. lp_log (collect_into src now ans l) = lp_log l @ [CollectionLog rec] \<and> lp_bufs (collect_into src now ans l) = bufs
      \<and> lp_stats (collect_into src now ans l) = lp_stats l \<and> lp_world (collect_into src now ans l) = lp_world l"
    using co by (auto simp: collect_into_def log_add_def split: sum.split prod.split)
  ultimately show ?thesis using accounted_log [OF assms(2), of "[CollectionLog rec]" for rec] by fastforce
qed

lemma failure_logged: "loop_publish plat fmt c took l = (Some e, res, l') \<Longrightarrow> PublishFailed res \<in> set (lp_log l')"
  using loop_publish_cases by fastforce

lemma daemon_ok_step:
  assumes "daemon_ok c s" "dstep plat fmt c srcs s s'" "0 < lc_interval c"
  shows "daemon_ok c s'"
  using assms(2)
proof (cases rule: dstep_cases)
  case (collect src ans)
  then show ?thesis using assms(1) collect_into_ok [of "dm_loop s" src "dm_now s" ans] by (auto simp: daemon_ok_def)
next
  case (wait d)
  then show ?thesis using assms(1) by (auto simp: daemon_ok_def)
next
  case cancel
  then show ?thesis using assms(1) by (auto simp: daemon_ok_def)
next
  case first_round
  then show ?thesis using assms(1) by (auto simp: daemon_ok_def begin_loop_def accounted_def of_stats_def new_stats_def)
next
  case (tick took err res l)
  have ok: "buffers_ok (lp_bufs l)" "accounted l" using loop_publish_ok [OF _ tick(4)] accounted_publish [OF _ tick(4)] assms(1)
    by (auto simp: daemon_ok_def)
  have "dm_start s \<le> dm_now s + took" using assms(1) tick by (auto simp: daemon_ok_def)
  note grid = tick_grid [OF assms(3) this]
  show ?thesis
  proof (cases "\<exists>g. err = Some (EntityGone g)")
    case True
    then have "PublishFailed res \<in> set (lp_log l)" using tick(4) failure_logged by blast
    then show ?thesis using True tick ok assms(1) by (auto simp: daemon_ok_def after_publish_def exit_error_def)
  next
    case False
    then have "s' = s\<lparr>dm_now := dm_now s + took, dm_loop := summarize c False (dm_now s + took) l,
        dm_phase := Sleeping (next_tick (dm_start s) (lc_interval c) (dm_now s + took))\<rparr>"
      using tick(1) by (auto simp: after_publish_def split: option.split pub_failure.split)
    then show ?thesis using ok accounted_summarize [OF ok(2)] grid \<open>dm_start s \<le> _\<close> by (auto simp: daemon_ok_def)
  qed
next
  case (wake t)
  then show ?thesis using assms(1) by (auto simp: daemon_ok_def)
next
  case (interrupt t)
  then show ?thesis using assms(1) by (auto simp: daemon_ok_def)
next
  case (stop took err res l)
  have ok: "buffers_ok (lp_bufs l)" "accounted l" using loop_publish_ok [OF _ stop(4)] accounted_publish [OF _ stop(4)] assms(1)
    by (auto simp: daemon_ok_def)
  have "accounted (log_add [Stopped] (summarize c True (dm_now s + took) l))"
    by (rule accounted_log [OF accounted_summarize [OF ok(2)], of "[Stopped]"]) (auto simp: log_add_def)
  then show ?thesis using stop ok assms(1) by (auto simp: daemon_ok_def final_publish_def log_add_def exit_ok_def)
qed

lemma daemon_ok_new: "buffers_ok (lp_bufs l) \<Longrightarrow> lp_log l = [] \<Longrightarrow> of_stats (lp_stats l) = (0, 0, 0) \<Longrightarrow> daemon_ok c (new_daemon now l)"
  by (simp add: daemon_ok_def new_daemon_def accounted_def)

lemma reachable_ok: "reachable plat fmt c srcs s0 s \<Longrightarrow> daemon_ok c s0 \<Longrightarrow> 0 < lc_interval c \<Longrightarrow> daemon_ok c s"
  by (induction rule: reachable.induct) (auto intro: daemon_ok_step)

definition started :: "loop_conf \<Rightarrow> 'w daemon \<Rightarrow> bool" where
  "started c s \<longleftrightarrow> (\<exists>now mx r dry st. s = new_daemon now (new_loop mx r dry st)) \<and> 0 < lc_interval c"

lemma started_ok: "started c s \<Longrightarrow> daemon_ok c s"
  by (auto simp: started_def new_loop_def buffers_ok_new of_stats_def new_stats_def intro!: daemon_ok_new)

lemma reached: "started c s0 \<Longrightarrow> reachable plat fmt c srcs s0 s \<Longrightarrow> daemon_ok c s"
proof -
  assume a: "started c s0" "reachable plat fmt c srcs s0 s"
  then have "0 < lc_interval c" by (simp add: started_def)
  with reachable_ok [OF a(2) started_ok [OF a(1)]] show ?thesis by simp
qed

text \<open>
  C2: the daemon's invariant. However collections, publishes, the clock and the stop signal interleave: the
  buffers stay well-formed and bounded; the summaries logged so far and the statistics of the unfinished
  period account for every publish that the log shows, the successes, the failures and the observations,
  none twice; the daemon sleeps only until a tick of its grid; and it ends with 0 only after a stop
  signal, with 1 only after a publish that failed, with nothing else.\<close>

theorem daemon_invariant:
  assumes "started c s0" "reachable plat fmt c srcs s0 s"
  shows "buffers_ok (lp_bufs (dm_loop s))
    \<and> sum3 logged_publish (lp_log (dm_loop s)) = plus3 (sum3 summarized (lp_log (dm_loop s))) (of_stats (lp_stats (dm_loop s)))
    \<and> (\<forall>t. dm_phase s = Sleeping t \<longrightarrow> (\<exists>k \<ge> 1. t = dm_start s + k * lc_interval c))
    \<and> (\<forall>code. dm_phase s = Ended code \<longrightarrow> code = 0 \<and> dm_cancelled s \<or> code = 1 \<and> (\<exists>r. PublishFailed r \<in> set (lp_log (dm_loop s))))"
  using reached [OF assms] by (simp add: daemon_ok_def accounted_def)

text \<open>
  A publish that overruns skips ticks, it does not shift them. After a publish the daemon sleeps until the
  first multiple of the interval after its start that is still ahead, so at most one interval from now,
  whatever the publish took; the only other outcome is that the host's own entity is gone.\<close>

lemma daemon_ticks:
  assumes "started c s0" "reachable plat fmt c srcs s0 s" "dm_phase s = Publishing" "dstep plat fmt c srcs s s'" "dm_phase s' \<noteq> Publishing"
  shows "(\<exists>t k. dm_phase s' = Sleeping t \<and> 1 \<le> k \<and> t = dm_start s' + k * lc_interval c \<and> dm_now s' < t \<and> t \<le> dm_now s' + lc_interval c)
    \<or> dm_phase s' = Ended 1"
  using assms(4)
proof (cases rule: dstep_cases)
  case (tick took err res l)
  have "0 < lc_interval c" "dm_start s \<le> dm_now s + took" using assms(1,3) tick reached [OF assms(1,2)] by (auto simp: started_def daemon_ok_def)
  note grid = tick_grid [OF this]
  show ?thesis
  proof (cases "\<exists>g. err = Some (EntityGone g)")
    case True
    then show ?thesis using tick by (auto simp: after_publish_def exit_error_def)
  next
    case False
    then have "s' = s\<lparr>dm_now := dm_now s + took, dm_loop := summarize c False (dm_now s + took) l,
        dm_phase := Sleeping (next_tick (dm_start s) (lc_interval c) (dm_now s + took))\<rparr>"
      using tick(1) by (auto simp: after_publish_def split: option.split pub_failure.split)
    then show ?thesis using grid by auto
  qed
qed (use assms in auto)

section \<open>Stopping\<close>

fun rank :: "phase \<Rightarrow> nat" where
  "rank (Ended code) = 0"
| "rank Stopping = 1"
| "rank FirstRound = 2"
| "rank (Sleeping t) = 2"
| "rank Publishing = 3"

text \<open>Once the stop signal is given, the phase only moves towards the end.\<close>

lemma cancelled_rank:
  assumes "dstep plat fmt c srcs s s'" "dm_cancelled s"
  shows "dm_cancelled s' \<and> (dm_phase s' = dm_phase s \<or> rank (dm_phase s') < rank (dm_phase s))"
  using assms(1)
proof (cases rule: dstep_cases)
  case (first_round)
  then show ?thesis using assms(2) by (simp add: begin_loop_def)
next
  case (tick took err res l)
  then show ?thesis using assms(2) by (auto simp: after_publish_def split: option.split pub_failure.split)
next
  case (stop took err res l)
  then show ?thesis using assms(2) by (simp add: final_publish_def)
qed (use assms(2) in auto)

text \<open>The daemon ends with the final publish, or when a publish finds that the host's own entity is gone.\<close>

lemma ends_by:
  assumes "dstep plat fmt c srcs s s'" "dm_phase s' = Ended k"
  shows "dm_phase s = Ended k \<or> dm_phase s = Stopping \<and> k = 0 \<or> dm_phase s = Publishing \<and> k = 1"
  using assms(1)
proof (cases rule: dstep_cases)
  case (first_round)
  then show ?thesis using assms(2) by (simp add: begin_loop_def split: if_splits)
next
  case (tick took err res l)
  then show ?thesis using assms(2) by (auto simp: after_publish_def exit_error_def split: option.splits pub_failure.splits)
next
  case (stop took err res l)
  then show ?thesis using assms(2) by (simp add: final_publish_def exit_ok_def)
qed (use assms(2) in auto)

text \<open>And some step brings it there.\<close>

lemma cancelled_moves:
  assumes "dm_cancelled s" "\<forall>k. dm_phase s \<noteq> Ended k"
  shows "\<exists>s'. dstep plat fmt c srcs s s' \<and> rank (dm_phase s') < rank (dm_phase s)"
proof -
  obtain err res l where p: "loop_publish plat fmt c 0 (dm_loop s) = (err, res, l)" by (metis prod_cases3)
  show ?thesis
  proof (cases "dm_phase s")
    case FirstRound
    then show ?thesis using dstep.first_round [of s srcs plat fmt c] assms(1) by (intro exI [of _ "begin_loop s"]) (simp add: round_done_def begin_loop_def)
  next
    case Publishing
    then show ?thesis using dstep.tick [OF Publishing order.refl p]
      by (intro exI [of _ "after_publish c (dm_now s + 0) err l s"]) (auto simp: after_publish_def split: option.split pub_failure.split)
  next
    case (Sleeping t)
    then show ?thesis using dstep.interrupt [OF Sleeping assms(1)] by (intro exI [of _ "s\<lparr>dm_phase := Stopping\<rparr>"]) simp
  next
    case Stopping
    then show ?thesis using dstep.stop [OF Stopping order.refl p] by (intro exI [of _ "final_publish c (dm_now s + 0) l s"]) (simp add: final_publish_def)
  qed (use assms(2) in simp)
qed

lemma stop_step:
  assumes "buffers_ok (lp_bufs (dm_loop s))" "dstep plat fmt c srcs s s'" "dm_phase s = Stopping" "dm_phase s' \<noteq> Stopping"
  shows "dm_phase s' = Ended 0 \<and> (answering plat \<longrightarrow> buffers_empty (lp_bufs (dm_loop s')))
    \<and> (answering plat \<longrightarrow> recording_platform v plat \<longrightarrow> \<not> pb_dry (lc_host c) \<longrightarrow> loop_sends v plat fmt c (dm_loop s) (dm_loop s'))"
  using assms(2)
proof (cases rule: dstep_cases)
  case (stop took err res l)
  then have "dm_loop s' = log_add [Stopped] (summarize c True (dm_now s + took) l)" "dm_phase s' = Ended 0"
    by (simp_all add: final_publish_def exit_ok_def)
  then show ?thesis using loop_publish_ok [OF assms(1) stop(4)] loop_publish_sends [OF assms(1) _ _ _ stop(4)]
    by (simp add: log_add_def loop_sends_def)
qed (use assms(3,4) in auto)

lemma ended_once:
  assumes "dstep plat fmt c srcs s s'" "dm_phase s = Ended k"
  shows "dm_phase s' = Ended k \<and> lp_bufs (dm_loop s') = lp_bufs (dm_loop s)"
  using assms by (auto elim: dstepE)


section \<open>A daemon in a dry run\<close>

lemma quiet_reachable:
  assumes "reads_keep v plat" "pb_dry (lc_host c)" "reachable plat fmt c srcs s0 s"
  shows "quiet_world_step v (lp_world (dm_loop s0)) (lp_world (dm_loop s))"
  using assms(3)
proof (induction rule: reachable.induct)
  case (step s s')
  have "quiet_world_step v (lp_world (dm_loop s)) (lp_world (dm_loop s'))"
    using step(2)
  proof (cases rule: dstep_cases)
    case (collect src ans)
    have "lp_world (collect_into src (dm_now s) ans (dm_loop s)) = lp_world (dm_loop s)"
      by (auto simp: collect_into_def log_add_def split: sum.split prod.split)
    then show ?thesis using collect by simp
  next
    case (tick took err res l)
    have "quiet_world_step v (lp_world (dm_loop s)) (lp_world l)" using quiet_loop_publish [OF assms(1,2) tick(4)] by simp
    then show ?thesis using tick by (auto simp: after_publish_def split: option.split pub_failure.split)
  next
    case (stop took err res l)
    have "quiet_world_step v (lp_world (dm_loop s)) (lp_world l)" using quiet_loop_publish [OF assms(1,2) stop(4)] by simp
    then show ?thesis using stop by (simp add: final_publish_def log_add_def)
  qed (simp_all add: begin_loop_def)
  then show ?case using step.IH quiet_step_trans by blast
qed simp

text \<open>
  C13: a daemon in a dry run never writes. At every moment of every run, with whatever collections, publishes,
  waits and signals before it, the view of the platform that reads leave alone is what it was when the
  daemon started, and no call so far gives a key or creates an entity.\<close>

theorem daemon_dry_only_reads:
  assumes "reads_keep v plat" "reachable plat fmt (run_conf r True True) srcs (new_daemon now (new_loop mx r True st)) s"
  shows "v (fst (snd (lp_world (dm_loop s)))) = v (fst st)
    \<and> (\<exists>cs. snd (snd (lp_world (dm_loop s))) = snd st @ cs \<and> \<not> list_ex is_write cs)"
  using quiet_reachable [OF assms(1) _ assms(2)]
  by (simp add: run_conf_def run_publisher_def new_daemon_def new_loop_def run_keyed_def quiet_world_step_def quiet_def)

section \<open>At a concrete input\<close>

definition example_ready :: run_ready where
  "example_ready = \<lparr>rr_settings = example_settings, rr_desired = example_schema, rr_current = \<lparr>cu_templates = [], cu_attributes = []\<rparr>,
     rr_sources = [example_source], rr_skipped = [], rr_resolved = no_resolved, rr_host = host_with ''host-1'' ''e1'' Found\<rparr>"

definition example_daemon :: "nat daemon" where
  "example_daemon = new_daemon 100 (new_loop 0 example_ready False (0, []))"

definition example_conf :: loop_conf where
  "example_conf = run_conf example_ready True False"

lemma example_started: "started example_conf example_daemon"
proof -
  have "0 < lc_interval example_conf"
    by (simp add: example_conf_def run_conf_def example_ready_def example_settings_def default_settings_def default_publish_interval_def nano_def)
  then show ?thesis unfolding started_def example_daemon_def by blast
qed

definition example_collected :: "nat daemon" where
  "example_collected = example_daemon\<lparr>dm_loop := collect_into example_source 100 (Returned example_observations) (dm_loop example_daemon),
     dm_collected := [''cpu'']\<rparr>"

lemma example_steps:
  "reachable counting_platform fmt example_conf [example_source] example_daemon (begin_loop example_collected)"
  "reachable counting_platform fmt example_conf [example_source] example_daemon (begin_loop (example_daemon\<lparr>dm_cancelled := True\<rparr>))"
proof -
  have "dstep counting_platform fmt example_conf [example_source] example_daemon example_collected"
    using dstep.collect [of example_source "[example_source]" example_daemon counting_platform fmt example_conf "Returned example_observations"]
    by (simp add: example_collected_def example_daemon_def new_daemon_def example_source_def)
  then show "reachable counting_platform fmt example_conf [example_source] example_daemon (begin_loop example_collected)"
    by (rule reachable.step [OF reachable.step [OF reachable.start] dstep.first_round])
      (simp_all add: example_collected_def example_daemon_def new_daemon_def round_done_def example_source_def)
  show "reachable counting_platform fmt example_conf [example_source] example_daemon (begin_loop (example_daemon\<lparr>dm_cancelled := True\<rparr>))"
    by (rule reachable.step [OF reachable.step [OF reachable.start dstep.cancel] dstep.first_round])
      (simp_all add: example_daemon_def new_daemon_def round_done_def)
qed

lemma example_answering: "answering counting_platform"
  by (auto simp: answering_def accepts_def counting_platform_def)

theorem daemon_invariant_witness: "buffers_ok (lp_bufs (dm_loop (begin_loop example_collected)))"
  using daemon_invariant [OF example_started example_steps(1)] by blast

lemma daemon_ticks_witness:
  "\<exists>s'. dstep counting_platform (\<lambda>f. []) example_conf [example_source] (begin_loop example_collected) s'
     \<and> (\<exists>t. dm_phase s' = Sleeping t \<and> 100 < t)"
proof -
  let ?s = "begin_loop example_collected"
  have ph: "dm_phase ?s = Publishing" by (simp add: begin_loop_def example_collected_def example_daemon_def new_daemon_def)
  obtain err res l where p: "loop_publish counting_platform (\<lambda>f. []) example_conf 0 (dm_loop ?s) = (err, res, l)" by (metis prod_cases3)
  have "buffers_ok (lp_bufs (dm_loop ?s))" using daemon_ok_def reached [OF example_started example_steps(1)] by blast
  then have "err = None" using loop_publish_ok [OF _ p] example_answering by blast
  let ?s' = "after_publish example_conf (dm_now ?s + 0) err l ?s"
  have st: "dstep counting_platform (\<lambda>f. []) example_conf [example_source] ?s ?s'" by (rule dstep.tick [OF ph order.refl p])
  have ph': "\<exists>t. dm_phase ?s' = Sleeping t" "dm_now ?s' = 100"
    by (simp_all add: \<open>err = None\<close> after_publish_def begin_loop_def example_collected_def example_daemon_def new_daemon_def)
  from ph'(1) have np: "dm_phase ?s' \<noteq> Publishing" by auto
  show ?thesis using daemon_ticks [OF example_started example_steps(1) ph st np] ph' st by (intro exI [of _ ?s']) auto
qed

definition noting_platform :: "pub_call list platform" where
  "noting_platform = \<lparr>
     pl_schema = \<lparr>sa_read = (\<lambda>w. (Inr \<lparr>cu_templates = [], cu_attributes = []\<rparr>, w)), sa_create_template = (\<lambda>slug name desc w. (Inr slug, w)),
       sa_create_attribute = (\<lambda>p w. (Inr (cp_slug p), w)), sa_add_option = (\<lambda>aid v w. (Inr v, w)), sa_bind = (\<lambda>aid ts w. (Inr (), w))\<rparr>,
     pl_api = \<lparr>api_find = (\<lambda>tid slug v w. (Inr [], w)), api_by_key = (\<lambda>tpl key w. (Inr None, w)),
       api_upsert = (\<lambda>tpl key attrs w. (Inr (key, True), w)), api_set_key = (\<lambda>eid key w. (Inr (), w))\<rparr>,
     pl_publish = \<lparr>pa_update = (\<lambda>eid dims w. (None, w @ [UpdateCall eid dims None])), pa_ingest = (\<lambda>eid xs w. (None, w @ [IngestCall eid xs None]))\<rparr>,
     pl_sleep = (\<lambda>d w. (True, w))\<rparr>"

lemma noting_platform: "answering noting_platform" "recording_platform (\<lambda>w. w) noting_platform"
  by (auto simp: answering_def accepts_def recording_platform_def records_def noting_platform_def)

definition stopping_daemon :: "pub_call list daemon" where
  "stopping_daemon = (let s = new_daemon 100 (new_loop 0 example_ready False ([], []));
     s1 = s\<lparr>dm_loop := collect_into example_source 100 (Returned example_observations) (dm_loop s), dm_collected := [''cpu'']\<rparr>
   in begin_loop (s1\<lparr>dm_cancelled := True\<rparr>))"


theorem daemon_dry_only_reads_witness:
  "\<exists>s. reachable counting_platform (\<lambda>f. []) (run_conf example_ready True True) []
      (new_daemon 0 (new_loop 0 example_ready True (7, []))) s \<and> dm_phase s = Publishing \<and> fst (snd (lp_world (dm_loop s))) = 7"
proof -
  let ?s0 = "new_daemon 0 (new_loop 0 example_ready True (7, []))"
  have r: "reachable counting_platform (\<lambda>f. []) (run_conf example_ready True True) [] ?s0 (begin_loop ?s0)"
    by (rule reachable.step [OF reachable.start dstep.first_round]) (simp_all add: new_daemon_def round_done_def)
  have "reads_keep (\<lambda>w. w) counting_platform" by (simp add: reads_keep_def counting_platform_def)
  from daemon_dry_only_reads [OF this r] show ?thesis
    by (intro exI [of _ "begin_loop ?s0"] conjI r) (simp_all add: begin_loop_def new_daemon_def)
qed

end
