(* ===== verification/Transport.thy ===== *)
theory Transport
  imports Gonum "HOL-Library.Word"
begin

unbundle bit_operations_syntax

text \<open>
  \<open>internal/omni/transport.go\<close>: the retries around every request. Durations are the 64-bit words of
  Go's \<open>time.Duration\<close>, so the shift of the backoff and the product of \<open>Retry-After\<close> wrap as they do there.
  The connection, the clock and the random numbers are functions over a state \<open>'w\<close>.
\<close>

section \<open>Delays\<close>

type_synonym duration = "64 word"

definition seconds :: "int \<Rightarrow> duration" where
  "seconds n = word_of_int n * 1000000000"

definition backoff_base :: "nat \<Rightarrow> duration" where
  "backoff_base attempt = (let d = push_bit attempt (200000000 :: duration) in
     if sint (seconds 5) < sint d then seconds 5 else d)"

text \<open>
  The bound of the jitter, \<open>int64(d)/2+1\<close>: division truncates towards zero. \<open>rand.Int64N\<close> panics unless
  its bound is positive, which is None here.
\<close>

definition half :: "int \<Rightarrow> int" where
  "half i = (if i < 0 then - (- i div 2) else i div 2)"

definition default_backoff :: "(int \<Rightarrow> 'w \<Rightarrow> int \<times> 'w) \<Rightarrow> nat \<Rightarrow> 'w \<Rightarrow> duration option \<times> 'w" where
  "default_backoff rand attempt w = (let d = backoff_base attempt; n = half (sint d) + 1 in
     if n \<le> 0 then (None, w)
     else (case rand n w of (r, w1) \<Rightarrow> (Some (d + word_of_int r), w1)))"

text \<open>\<open>Retry-After\<close>: the header's value, empty when it is absent.\<close>

definition retry_after :: "string \<Rightarrow> duration option" where
  "retry_after v = (case atoi v of
       Some secs \<Rightarrow> if secs < 0 then None
         else (let d = seconds secs in Some (if sint (seconds 30) < sint d then seconds 30 else d))
     | None \<Rightarrow> None)"

definition retryable :: "int \<Rightarrow> bool" where
  "retryable status \<longleftrightarrow> status \<in> {429, 500, 502, 503, 504}"

section \<open>One request\<close>

datatype transport_error = Canceled | TransportFailed string

record response =
  rp_status :: int
  rp_retry_after :: string
  rp_body :: string

text \<open>
  \<open>cn_attempt\<close> is one round trip under its own deadline, \<open>cn_ended\<close> whether the request's context is
  done, \<open>cn_rewind\<close> the request's \<open>GetBody\<close>.
\<close>

record 'w connection =
  cn_attempt :: "'w \<Rightarrow> (transport_error + response) \<times> 'w"
  cn_ended :: "'w \<Rightarrow> bool"
  cn_rewind :: "'w \<Rightarrow> transport_error option \<times> 'w"
  cn_sleep :: "duration \<Rightarrow> 'w \<Rightarrow> transport_error option \<times> 'w"
  cn_backoff :: "nat \<Rightarrow> 'w \<Rightarrow> duration option \<times> 'w"

record request =
  rq_body :: bool
  rq_get_body :: bool

datatype trip = Answered response | Failed transport_error | Panicked

definition can_retry :: "request \<Rightarrow> bool" where
  "can_retry rq \<longleftrightarrow> \<not> rq_body rq \<or> rq_get_body rq"

definition rewind :: "'w connection \<Rightarrow> request \<Rightarrow> nat \<Rightarrow> 'w \<Rightarrow> transport_error option \<times> 'w" where
  "rewind cn rq attempt w = (if 0 < attempt \<and> rq_get_body rq then cn_rewind cn w else (None, w))"

definition is_final :: "'w connection \<Rightarrow> transport_error + response \<Rightarrow> 'w \<Rightarrow> bool" where
  "is_final cn r w = (case r of Inr resp \<Rightarrow> \<not> retryable (rp_status resp) | Inl e \<Rightarrow> e = Canceled \<or> cn_ended cn w)"

definition outcome_of :: "transport_error + response \<Rightarrow> trip" where
  "outcome_of r = (case r of Inr resp \<Rightarrow> Answered resp | Inl e \<Rightarrow> Failed e)"

text \<open>The delay before the next attempt: what the answer asks for, else the backoff.\<close>

definition next_delay :: "'w connection \<Rightarrow> nat \<Rightarrow> transport_error + response \<Rightarrow> 'w \<Rightarrow> duration option \<times> 'w" where
  "next_delay cn attempt r w = (case cn_backoff cn attempt w of
       (None, w1) \<Rightarrow> (None, w1)
     | (Some d, w1) \<Rightarrow> (Some (case r of Inr resp \<Rightarrow> (case retry_after (rp_retry_after resp) of Some ra \<Rightarrow> ra | None \<Rightarrow> d) | Inl _ \<Rightarrow> d), w1))"

function round_trip_from :: "'w connection \<Rightarrow> int \<Rightarrow> request \<Rightarrow> nat \<Rightarrow> 'w \<Rightarrow> trip \<times> 'w" where
  "round_trip_from cn retries rq attempt w = (case rewind cn rq attempt w of
       (Some e, w1) \<Rightarrow> (Failed e, w1)
     | (None, w1) \<Rightarrow> (case cn_attempt cn w1 of (r, w2) \<Rightarrow>
         if is_final cn r w2 \<or> \<not> can_retry rq \<or> retries \<le> int attempt then (outcome_of r, w2)
         else (case next_delay cn attempt r w2 of
             (None, w3) \<Rightarrow> (Panicked, w3)
           | (Some d, w3) \<Rightarrow> (case cn_sleep cn d w3 of
                 (Some e, w4) \<Rightarrow> (Failed e, w4)
               | (None, w4) \<Rightarrow> round_trip_from cn retries rq (Suc attempt) w4))))"
  by pat_completeness auto
termination
  by (relation "measure (\<lambda>(cn, retries, rq, attempt, w). nat (retries - int attempt))") auto

declare round_trip_from.simps [simp del]

definition round_trip :: "'w connection \<Rightarrow> int \<Rightarrow> request \<Rightarrow> 'w \<Rightarrow> trip \<times> 'w" where
  "round_trip cn retries rq w = round_trip_from cn retries rq 0 w"

section \<open>The backoff\<close>

lemma backoff_values:
  "map (\<lambda>n. sint (backoff_base n)) [0..<36] = map (\<lambda>n. min (200000000 * 2 ^ n) 5000000000) [0..<36]"
  by code_simp

text \<open>\<open>rand.Int64N\<close> answers below its bound.\<close>

definition rand_lawful :: "(int \<Rightarrow> 'w \<Rightarrow> int \<times> 'w) \<Rightarrow> bool" where
  "rand_lawful rand \<longleftrightarrow> (\<forall>n w. 0 < n \<longrightarrow> 0 \<le> fst (rand n w) \<and> fst (rand n w) < n)"

lemma backoff_base_value:
  assumes "attempt < 36"
  shows "sint (backoff_base attempt) = min (200000000 * 2 ^ attempt) 5000000000"
proof -
  have "attempt \<in> set [0..<36]" using assms by simp
  then show ?thesis using backoff_values by (metis (mono_tags, lifting) map_eq_conv)
qed

lemma stretched: "r \<le> b div 2 \<Longrightarrow> 2 * (b + r) \<le> 3 * (b :: int)"
  by presburger

lemma sint_exact: "signed_take_bit 63 x = x \<Longrightarrow> sint (word_of_int x :: duration) = x"
  by transfer simp

lemma backoff_value:
  assumes "rand_lawful rand" "attempt < 36"
  shows "\<exists>d. fst (default_backoff rand attempt w) = Some d
    \<and> (let b = min (200000000 * 2 ^ attempt) 5000000000 in b \<le> sint d \<and> 2 * sint d \<le> 3 * b)"
proof -
  let ?b = "sint (backoff_base attempt)"
  have b: "?b = min (200000000 * 2 ^ attempt) 5000000000" by (rule backoff_base_value [OF assms(2)])
  have "(0::int) < 2 ^ attempt" by simp
  then have pos: "0 \<le> ?b" "?b \<le> 5000000000" by (simp_all add: b)
  have n: "half ?b + 1 = ?b div 2 + 1" "0 < ?b div 2 + 1" using pos by (simp_all add: half_def)
  obtain r w1 where r: "rand (?b div 2 + 1) w = (r, w1)" by (metis surj_pair)
  then have r': "0 \<le> r" "r \<le> ?b div 2" using assms(1) n(2) by (auto simp: rand_lawful_def dest!: spec [of _ "?b div 2 + 1"] spec [of _ w])
  have "sint (backoff_base attempt + word_of_int r) = ?b + r"
  proof -
    have "?b div 2 \<le> 2500000000" using pos by simp
    then have "0 \<le> ?b + r" "?b + r \<le> 7500000000" using pos r' by linarith+
    then have "signed_take_bit 63 (?b + r) = ?b + r" by (intro signed_take_bit_int_eq_self) simp_all
    then have "sint (word_of_int (?b + r) :: duration) = ?b + r" by (rule sint_exact)
    moreover have "backoff_base attempt + word_of_int r = word_of_int (?b + r)" by simp
    ultimately show ?thesis by metis
  qed
  moreover have "fst (default_backoff rand attempt w) = Some (backoff_base attempt + word_of_int r)"
    using n r by (simp add: default_backoff_def Let_def)
  moreover have "?b \<le> ?b + r" "2 * (?b + r) \<le> 3 * ?b" using r'(1) stretched [OF r'(2)] by simp_all
  ultimately show ?thesis unfolding b [symmetric] by (intro exI [of _ "backoff_base attempt + word_of_int r"]) (simp add: Let_def)
qed

lemma retry_after_capped: "retry_after v = Some d \<Longrightarrow> sint d \<le> 30000000000"
proof -
  have "sint (seconds 30) = 30000000000" by code_simp
  then show "retry_after v = Some d \<Longrightarrow> sint d \<le> 30000000000"
    by (auto simp: retry_after_def Let_def split: option.splits if_splits)
qed

text \<open>
  A wait between attempts is bounded. Before attempt 36 the backoff is \<open>200 ms * 2^attempt\<close> capped
  at 5 s and stretched by at most half, so never more than 7.5 s; an answer's \<open>Retry-After\<close> takes its
  place, capped at 30 s.
\<close>

lemma delay_bounded:
  assumes "rand_lawful rand" "attempt < 36" "cn_backoff cn = default_backoff rand"
  shows "\<exists>d. fst (next_delay cn attempt r w) = Some d
    \<and> (case r of
         Inr resp \<Rightarrow> (case retry_after (rp_retry_after resp) of
             Some ra \<Rightarrow> d = ra \<and> sint d \<le> 30000000000
           | None \<Rightarrow> min (200000000 * 2 ^ attempt) 5000000000 \<le> sint d \<and> sint d \<le> 7500000000)
       | Inl e \<Rightarrow> min (200000000 * 2 ^ attempt) 5000000000 \<le> sint d \<and> sint d \<le> 7500000000)"
proof -
  obtain d w1 where d: "default_backoff rand attempt w = (Some d, w1)" "min (200000000 * 2 ^ attempt) 5000000000 \<le> sint d"
      "2 * sint d \<le> 3 * min (200000000 * 2 ^ attempt) 5000000000"
    using backoff_value [OF assms(1,2), of w] by (cases "default_backoff rand attempt w") (auto simp: Let_def)
  have "sint d \<le> 7500000000" using d(3) by linarith
  then show ?thesis using d(1,2) retry_after_capped
    by (auto simp: next_delay_def assms(3) split: sum.splits option.splits)
qed

section \<open>The retries\<close>

text \<open>The same connection, with a log of what its attempts came to.\<close>

definition recorded :: "'w connection \<Rightarrow> ('w \<times> (transport_error + response) list) connection" where
  "recorded cn = \<lparr>
     cn_attempt = (\<lambda>wl. case cn_attempt cn (fst wl) of (r, w) \<Rightarrow> (r, (w, snd wl @ [r]))),
     cn_ended = (\<lambda>wl. cn_ended cn (fst wl)),
     cn_rewind = (\<lambda>wl. case cn_rewind cn (fst wl) of (e, w) \<Rightarrow> (e, (w, snd wl))),
     cn_sleep = (\<lambda>d wl. case cn_sleep cn d (fst wl) of (e, w) \<Rightarrow> (e, (w, snd wl))),
     cn_backoff = (\<lambda>n wl. case cn_backoff cn n (fst wl) of (d, w) \<Rightarrow> (d, (w, snd wl)))\<rparr>"

definition transient :: "transport_error + response \<Rightarrow> bool" where
  "transient r \<longleftrightarrow> (case r of Inr resp \<Rightarrow> retryable (rp_status resp) | Inl e \<Rightarrow> e \<noteq> Canceled)"

lemma recorded_quiet:
  "rewind (recorded cn) rq n wl = (e, wl') \<Longrightarrow> snd wl' = snd wl"
  "next_delay (recorded cn) n r wl = (d, wl') \<Longrightarrow> snd wl' = snd wl"
  "cn_sleep (recorded cn) x wl = (e, wl') \<Longrightarrow> snd wl' = snd wl"
  by (auto simp: recorded_def rewind_def next_delay_def split: prod.splits if_splits option.splits)

lemma round_trip_log:
  assumes "round_trip_from (recorded cn) retries rq n wl = (out, wl')"
  shows "\<exists>outs. snd wl' = snd wl @ outs \<and> length outs \<le> Suc (nat (retries - int n))
    \<and> (0 < n \<or> outs \<noteq> []) \<and> (\<not> can_retry rq \<longrightarrow> length outs \<le> 1)
    \<and> (\<forall>r \<in> set (butlast outs). transient r)
    \<and> (\<forall>resp. out = Answered resp \<longrightarrow> outs \<noteq> [] \<and> List.last outs = Inr resp
          \<and> (retryable (rp_status resp) \<longrightarrow> \<not> can_retry rq \<or> length outs = Suc (nat (retries - int n))))"
  using assms
proof (induction "nat (retries - int n)" arbitrary: n wl rule: less_induct)
  case less
  obtain e0 wl1 where rw: "rewind (recorded cn) rq n wl = (e0, wl1)" by (metis surj_pair)
  note rw' = recorded_quiet(1) [OF rw]
  show ?case
  proof (cases e0)
    case (Some e)
    then have "0 < n" "out = Failed e" "wl' = wl1" using less.prems rw by (auto simp: round_trip_from.simps [of _ _ _ n] rewind_def split: if_splits)
    then show ?thesis using rw' by simp
  next
    case None
    obtain r wl2 where at: "cn_attempt (recorded cn) wl1 = (r, wl2)" by (metis surj_pair)
    then have log: "snd wl2 = snd wl @ [r]" using rw' by (auto simp: recorded_def split: prod.splits)
    show ?thesis
    proof (cases "is_final (recorded cn) r wl2 \<or> \<not> can_retry rq \<or> retries \<le> int n")
      case True
      then have "out = outcome_of r" "wl' = wl2" using less.prems rw None at by (simp_all add: round_trip_from.simps [of _ _ _ n])
      then show ?thesis using True log
        by (intro exI [of _ "[r]"]) (auto simp: outcome_of_def is_final_def split: sum.splits)
    next
      case False
      then have tr: "transient r" by (auto simp: is_final_def transient_def split: sum.splits)
      obtain d wl3 where d: "next_delay (recorded cn) n r wl2 = (d, wl3)" by (metis surj_pair)
      note d' = recorded_quiet(2) [OF d]
      have stop: ?thesis if "snd wl' = snd wl2" "\<forall>resp. out \<noteq> Answered resp"
        using that log by (intro exI [of _ "[r]"]) simp
      show ?thesis
      proof (cases d)
        case None
        then show ?thesis using less.prems rw \<open>e0 = None\<close> at False d d' by (intro stop) (auto simp: round_trip_from.simps [of _ _ _ n])
      next
        case (Some dl)
        obtain e1 wl4 where sl: "cn_sleep (recorded cn) dl wl3 = (e1, wl4)" by (metis surj_pair)
        note sl' = recorded_quiet(3) [OF sl]
        show ?thesis
        proof (cases e1)
          case (Some e)
          then show ?thesis using less.prems rw \<open>e0 = None\<close> at False d d' \<open>d = Some dl\<close> sl sl'
            by (intro stop) (auto simp: round_trip_from.simps [of _ _ _ n])
        next
          case None
          then have run: "round_trip_from (recorded cn) retries rq (Suc n) wl4 = (out, wl')"
            using less.prems rw \<open>e0 = None\<close> at False d \<open>d = Some dl\<close> sl by (simp add: round_trip_from.simps [of _ _ _ n])
          have lt: "nat (retries - int (Suc n)) < nat (retries - int n)" using False by simp
          from less.hyps [OF lt run] obtain outs where IH: "snd wl' = snd wl4 @ outs" "length outs \<le> Suc (nat (retries - int (Suc n)))"
              "\<forall>r \<in> set (butlast outs). transient r"
              "\<forall>resp. out = Answered resp \<longrightarrow> outs \<noteq> [] \<and> List.last outs = Inr resp
                \<and> (retryable (rp_status resp) \<longrightarrow> \<not> can_retry rq \<or> length outs = Suc (nat (retries - int (Suc n))))" by blast
          have "Suc (nat (retries - int (Suc n))) = nat (retries - int n)" using False by (simp add: Suc_nat_eq_nat_zadd1)
          then show ?thesis using IH tr log d' sl' False by (intro exI [of _ "r # outs"]) auto
        qed
      qed
    qed
  qed
qed

text \<open>
  C26: retries are bounded and only follow transient failures. A request is tried at least once and at
  most \<open>retries + 1\<close> times, and only once when its body cannot be rewound; every attempt but the last
  came to a retryable status or an error that was not a cancellation; an answer is the last attempt's,
  and it is a retryable one only when the attempts were spent or the request could not be repeated.
\<close>

theorem retries_bounded:
  assumes "round_trip (recorded cn) retries rq (w, []) = (out, (w', outs))"
  shows "0 < length outs \<and> length outs \<le> Suc (nat retries) \<and> (\<not> can_retry rq \<longrightarrow> length outs = 1)
    \<and> (\<forall>r \<in> set (butlast outs). transient r)
    \<and> (\<forall>resp. out = Answered resp \<longrightarrow> List.last outs = Inr resp
          \<and> (retryable (rp_status resp) \<longrightarrow> \<not> can_retry rq \<or> length outs = Suc (nat retries)))"
proof -
  from round_trip_log [OF assms [unfolded round_trip_def]] have "outs \<noteq> []" "length outs \<le> Suc (nat retries)"
      "\<not> can_retry rq \<longrightarrow> length outs \<le> 1" "\<forall>r \<in> set (butlast outs). transient r"
      "\<forall>resp. out = Answered resp \<longrightarrow> List.last outs = Inr resp
          \<and> (retryable (rp_status resp) \<longrightarrow> \<not> can_retry rq \<or> length outs = Suc (nat retries))" by simp_all
  then show ?thesis by (cases outs) auto
qed

text \<open>A platform that always answers 503, behind the default backoff.\<close>

definition unavailable :: response where
  "unavailable = \<lparr>rp_status = 503, rp_retry_after = [], rp_body = []\<rparr>"

definition stubborn :: "(int \<Rightarrow> 'w \<Rightarrow> int \<times> 'w) \<Rightarrow> 'w connection" where
  "stubborn rand = \<lparr>cn_attempt = (\<lambda>w. (Inr unavailable, w)), cn_ended = (\<lambda>w. False), cn_rewind = (\<lambda>w. (None, w)),
     cn_sleep = (\<lambda>d w. (None, w)), cn_backoff = default_backoff rand\<rparr>"

lemma backoff_36: "half (sint (backoff_base 36)) + 1 \<le> 0"
  by code_simp

lemma stubborn_panics:
  assumes "36 < retries" "can_retry rq"
  shows "n \<le> 36 \<Longrightarrow> fst (round_trip_from (stubborn rand) retries rq n w) = Panicked"
proof (induction "36 - n" arbitrary: n w)
  case 0
  then have n: "n = 36" by simp
  have "default_backoff rand 36 w = (None, w)" using backoff_36 by (simp add: default_backoff_def Let_def)
  then have "next_delay (stubborn rand) 36 (Inr unavailable) w = (None, w)" by (simp add: next_delay_def stubborn_def)
  moreover have "rewind (stubborn rand) rq 36 w = (None, w)" by (simp add: rewind_def stubborn_def)
  moreover have "\<not> is_final (stubborn rand) (Inr unavailable) w" by (simp add: is_final_def unavailable_def retryable_def)
  ultimately show ?case using assms n by (simp add: round_trip_from.simps [of _ _ _ 36]) (simp add: stubborn_def)
next
  case (Suc k)
  then have n: "n < 36" "k = 36 - Suc n" by simp_all
  have "(0::int) < 2 ^ n" by simp
  then have "0 \<le> sint (backoff_base n)" by (simp add: backoff_base_value [OF n(1)])
  then have "0 < half (sint (backoff_base n)) + 1" by (simp add: half_def)
  then obtain d w1 where d: "default_backoff rand n w = (Some d, w1)"
    by (cases "rand (half (sint (backoff_base n)) + 1) w") (auto simp: default_backoff_def Let_def)
  have rest: "fst (round_trip_from (stubborn rand) retries rq (Suc n) w1) = Panicked" using Suc.hyps(1) [OF n(2)] n(1) by simp
  have "rewind (stubborn rand) rq n w = (None, w)" by (simp add: rewind_def stubborn_def)
  moreover have "next_delay (stubborn rand) n (Inr unavailable) w = (Some d, w1)"
    by (simp add: next_delay_def stubborn_def d unavailable_def retry_after_def atoi_def after_sign_def)
  moreover have "\<not> is_final (stubborn rand) (Inr unavailable) w" by (simp add: is_final_def unavailable_def retryable_def)
  ultimately show ?case using rest assms n(1)
    by (simp add: round_trip_from.simps [of _ _ _ n]) (simp add: stubborn_def)
qed

text \<open>
  The backoff overflows. At attempt 36 the shift passes \<open>2^63\<close>, the delay turns negative and the
  random jitter panics: with 37 configured retries (the setting has no upper bound) a platform that
  keeps answering 503 brings the process down, whatever the random numbers are.
\<close>

lemma backoff_overflows:
  "fst (round_trip (stubborn rand) 37 \<lparr>rq_body = False, rq_get_body = False\<rparr> w) = Panicked"
  unfolding round_trip_def by (rule stubborn_panics) (simp_all add: can_retry_def)

section \<open>At a concrete input\<close>

lemma delay_bounded_witness: "\<exists>d. fst (next_delay (stubborn (\<lambda>n w. (0, w))) 5 (Inr unavailable) ()) = Some d \<and> sint d \<le> 7500000000"
  using delay_bounded [of "\<lambda>n w. (0, w)" 5 "stubborn (\<lambda>n w. (0, w))" "Inr unavailable" "()"]
  by (auto simp: rand_lawful_def stubborn_def unavailable_def retry_after_def atoi_def after_sign_def)

theorem retries_bounded_witness:
  "\<exists>out w' outs. round_trip (recorded (stubborn (\<lambda>n w. (0, w)))) 3 \<lparr>rq_body = True, rq_get_body = True\<rparr> ((), []) = (out, (w', outs))
     \<and> 0 < length outs \<and> length outs \<le> 4"
proof -
  obtain out w' outs where run:
      "round_trip (recorded (stubborn (\<lambda>n w. (0, w)))) 3 \<lparr>rq_body = True, rq_get_body = True\<rparr> ((), []) = (out, (w', outs))"
    by (metis surj_pair)
  from retries_bounded [OF this] run show ?thesis by auto
qed

end
