(* ===== verification/Apierrors.thy ===== *)
theory Apierrors
  imports Gonum
begin

text \<open>
  \<open>internal/omni/errors.go\<close>: an answer that is not a success, decoded into an \<open>APIError\<close>, and the
  sentinels the packages branch on with \<open>errors.Is\<close>. The decoding of the JSON body belongs to the
  standard library and is the parameter \<open>decode\<close>.
\<close>

section \<open>Searching\<close>

fun contains :: "string \<Rightarrow> string \<Rightarrow> bool" where
  "contains sub [] \<longleftrightarrow> sub = []"
| "contains sub (c # cs) \<longleftrightarrow> take (length sub) (c # cs) = sub \<or> contains sub cs"

text \<open>
  \<open>strings.ToLower\<close> as far as a search for ASCII letters sees it: besides the ASCII capitals, two runes
  have an ASCII lower case (U+212A, the Kelvin sign, and U+0130); every other rune stays outside ASCII.
\<close>

definition lower_rune :: "nat \<Rightarrow> string \<Rightarrow> string" where
  "lower_rune r bs = (if 65 \<le> r \<and> r \<le> 90 then [char_of (r + 32)] else if r = 8490 then ''k'' else if r = 304 then ''i'' else bs)"

function to_lower :: "string \<Rightarrow> string" where
  "to_lower s = (if s = [] then []
     else (let n = snd (decode_rune s) in lower_rune (fst (decode_rune s)) (take n s) @ to_lower (drop n s)))"
  by pat_completeness auto
termination
  by (relation "measure length") (auto simp: decode_rune_width)

declare to_lower.simps [simp del]

section \<open>The error\<close>

record api_failure =
  ae_status :: int
  ae_code :: string
  ae_title :: string
  ae_detail :: string
  ae_fields :: "(string, string list) gomap"

datatype sentinel =
    ErrUnauthorized | ErrForbidden | ErrStaleGrant | ErrProjectDeny | ErrNoProject | ErrNotFound | ErrValidation
  | PublishNotFound | PublishRejected | SchemaAlreadyExists | IdentityKeyTaken

definition field_text :: "api_failure \<Rightarrow> string \<Rightarrow> string" where
  "field_text e k = ''; '' @ k @ '': '' @ join '', '' (gm_getd [] (ae_fields e) k)"

definition error_text :: "api_failure \<Rightarrow> string" where
  "error_text e = ''omnismith: HTTP '' @ itoa (ae_status e)
     @ (if ae_title e = [] then [] else '' '' @ ae_title e)
     @ (if ae_code e = [] then [] else '' ('' @ ae_code e @ '')'')
     @ (if ae_detail e = [] then [] else '': '' @ ae_detail e)
     @ concat (map (field_text e) (gm_keys (ae_fields e)))"

definition mentions :: "string \<Rightarrow> bool" where
  "mentions m \<longleftrightarrow> contains ''already'' (to_lower m) \<or> contains ''taken'' (to_lower m)"

definition taken_conflict :: "api_failure \<Rightarrow> bool" where
  "taken_conflict e \<longleftrightarrow> ae_status e = 409 \<and> ae_code e \<noteq> ''no_project_selected''"

definition already_exists :: "api_failure \<Rightarrow> bool" where
  "already_exists e \<longleftrightarrow> taken_conflict e
     \<or> (ae_status e = 422 \<and> list_ex (\<lambda>p. list_ex mentions (snd p)) (ae_fields e))"

definition is_error :: "sentinel \<Rightarrow> api_failure \<Rightarrow> bool" where
  "is_error t e = (case t of
       ErrUnauthorized \<Rightarrow> ae_status e = 401
     | ErrStaleGrant \<Rightarrow> ae_status e = 403 \<and> ae_code e = ''stale_project_grant''
     | ErrProjectDeny \<Rightarrow> ae_status e = 403 \<and> ae_code e = ''project_access_denied''
     | ErrForbidden \<Rightarrow> ae_status e = 403
     | ErrNoProject \<Rightarrow> ae_status e = 409 \<and> ae_code e = ''no_project_selected''
     | ErrNotFound \<Rightarrow> ae_status e = 404
     | PublishNotFound \<Rightarrow> ae_status e = 404
     | ErrValidation \<Rightarrow> ae_status e = 422
     | PublishRejected \<Rightarrow> ae_status e = 422
     | SchemaAlreadyExists \<Rightarrow> already_exists e
     | IdentityKeyTaken \<Rightarrow> taken_conflict e)"

definition rejected_fields :: "api_failure \<Rightarrow> (string, string list) gomap" where
  "rejected_fields e = ae_fields e"

section \<open>Decoding an answer\<close>

text \<open>What the SDK returns: an answer that is not a success with its text and body, or a failed transport.\<close>

datatype sdk_error = Generic string string | Transport string

record error_body =
  eb_title :: string
  eb_status :: int
  eb_detail :: string
  eb_code :: string
  eb_errors :: "(string, string list) gomap"

datatype call_error = ApiError string api_failure | CallFailed string string

definition map_err :: "(string \<Rightarrow> error_body option) \<Rightarrow> string \<Rightarrow> int option \<Rightarrow> sdk_error option \<Rightarrow> call_error option" where
  "map_err decode op status err = (case err of
       None \<Rightarrow> None
     | Some (Transport m) \<Rightarrow> Some (CallFailed op m)
     | Some (Generic text body) \<Rightarrow> Some (ApiError op (
         let ae = \<lparr>ae_status = (case status of Some s \<Rightarrow> s | None \<Rightarrow> 0), ae_code = [], ae_title = text, ae_detail = [], ae_fields = []\<rparr>
         in case decode body of
              None \<Rightarrow> ae
            | Some b \<Rightarrow> ae\<lparr>ae_title := (if eb_title b = [] then text else eb_title b),
                ae_status := (if ae_status ae = 0 then eb_status b else ae_status ae),
                ae_detail := eb_detail b, ae_code := eb_code b, ae_fields := eb_errors b\<rparr>)))"

text \<open>
  The platform's answers are told apart. Of the five classes of refusal the program branches on
  (not authorised, forbidden, not found, conflict, invalid) an error belongs to at most one, whatever
  its code and fields; a request without a project is neither a lost race nor a taken key; a taken key
  is always a lost race; and an object that exists is reported by a conflict or by a validation error,
  never by an error of another class.
\<close>

lemma errors_told_apart:
  "length (filter (\<lambda>b. b) [is_error ErrUnauthorized e, is_error ErrForbidden e, is_error ErrNotFound e,
       is_error IdentityKeyTaken e \<or> is_error ErrNoProject e, is_error ErrValidation e]) \<le> 1
   \<and> \<not> (is_error ErrNoProject e \<and> (is_error SchemaAlreadyExists e \<or> is_error IdentityKeyTaken e))
   \<and> {e. is_error IdentityKeyTaken e} \<subseteq> {e. is_error SchemaAlreadyExists e}
   \<and> {e. is_error SchemaAlreadyExists e} \<subseteq> {e. is_error IdentityKeyTaken e \<or> is_error PublishRejected e}
   \<and> {e. is_error ErrStaleGrant e} \<inter> {e. is_error ErrProjectDeny e} = {}"
  by (auto simp: is_error_def already_exists_def taken_conflict_def)

end
