(* ===== verification/Provider.thy ===== *)
theory Provider
  imports Resolved Scheduler Registry
begin

text \<open>
  \<open>internal/module/provider.go\<close>: the contract between a module's provider and the core. A provider
  promises to report only what its manifest declares for the platform; in return the core drops
  nothing it reports.
\<close>

section \<open>What a manifest allows\<close>

definition entity_allowed :: "manifest \<Rightarrow> mattribute \<Rightarrow> obs_entity \<Rightarrow> bool" where
  "entity_allowed mf a e \<longleftrightarrow> (if is_host_entity e then a_template a = []
     else oe_template e = a_template a \<and> a_template a \<in> set (entity_slugs mf) \<and> valid_key (oe_key e) = None)"

definition allows :: "manifest \<Rightarrow> string \<Rightarrow> observation \<Rightarrow> mattribute \<Rightarrow> bool" where
  "allows mf goos ob a \<longleftrightarrow> a_key a = ob_key ob \<and> a_kind a \<noteq> KindReference \<and> collectable (a_platforms a) goos
     \<and> entity_allowed mf a (ob_entity ob)
     \<and> (case validate_value (a_kind a) (a_options a) (ob_value ob) of Inl _ \<Rightarrow> False | Inr _ \<Rightarrow> True)"

definition declares :: "manifest \<Rightarrow> string \<Rightarrow> observation \<Rightarrow> bool" where
  "declares mf goos ob \<longleftrightarrow> list_ex (allows mf goos ob) (m_attributes mf)"

text \<open>A source that the scheduler built for the module from the resolved schema.\<close>

definition runs_module :: "manifest list \<Rightarrow> manifest \<Rightarrow> string \<Rightarrow> source \<Rightarrow> bool" where
  "runs_module ms mf goos src \<longleftrightarrow> mf \<in> set ms \<and> distinct (map m_module ms) \<and> so_module src = m_module mf
     \<and> (\<exists>ov d. resolve ms ov = Inr d \<and> source_matches d goos src)"

lemma declared_observed:
  assumes "runs_module ms mf goos src" "distinct (map a_key (m_attributes mf))" "declares mf goos ob"
  shows "\<exists>s. observe src now ob = Inr s"
proof -
  from assms(1) obtain ov d where run: "mf \<in> set ms" "distinct (map m_module ms)" "so_module src = m_module mf"
      "resolve ms ov = Inr d" "source_matches d goos src" by (auto simp: runs_module_def)
  from assms(3) obtain a where a: "a \<in> set (m_attributes mf)" "allows mf goos ob a" by (auto simp: declares_def list_ex_iff)
  have mine: "(m_module mf, a) \<in> set (all_attrs ms)" using run(1) a(1) by (auto simp: all_attrs_def)
  have only: "b = a" if "(m_module mf, b) \<in> set (all_attrs ms)" "a_key b = ob_key ob" for b
  proof -
    from that(1) obtain mf' where "mf' \<in> set ms" "m_module mf' = m_module mf" "b \<in> set (m_attributes mf')" by (auto simp: all_attrs_def)
    moreover from calculation have "mf' = mf" using run(1,2) by (auto simp: distinct_map inj_on_def)
    ultimately show ?thesis using a assms(2) that(2) by (auto simp: distinct_map inj_on_def allows_def)
  qed
  have from_a: "kept_from (m_module mf) a da" if "da \<in> set (d_attributes d)" "da_module da = m_module mf" "da_key da = ob_key ob" for da
  proof -
    from resolve_attr_from [OF run(4) that(1)] obtain m b where "(m, b) \<in> set (all_attrs ms)" "kept_from m b da" by auto
    then show ?thesis using only [of b] that by (auto simp: kept_from_def)
  qed
  have nolink: "\<not> gm_on (so_links src) (ob_key ob)"
    using run(3,5) from_a a(2) by (fastforce simp: source_matches_def allows_def kept_from_def)
  from resolve_attr_kept [OF run(4) mine] obtain da where "da \<in> set (d_attributes d)" "kept_from (m_module mf) a da" by auto
  then have "gm_has (so_attrs src) (ob_key ob)"
    using run(3,5) a(2) by (auto simp: source_matches_def collects_here_def kept_from_def allows_def image_iff)
  then obtain x where x: "gm_get (so_attrs src) (ob_key ob) = Some x" by (auto simp: gm_has_def)
  then have x': "x \<in> set (d_attributes d)" "da_module x = m_module mf" "da_key x = ob_key ob"
    using run(3,5) by (auto simp: source_matches_def collects_here_def)
  note k = from_a [OF x']
  have ent: "da_entity x = a_template a"
  proof (cases "is_host_entity (ob_entity ob)")
    case True
    then show ?thesis using a(2) k by (auto simp: allows_def entity_allowed_def kept_from_def)
  next
    case False
    then have "a_template a \<in> set (entity_slugs mf)" using a(2) by (auto simp: allows_def entity_allowed_def)
    with x' a run assms(2) show ?thesis by (intro resolve_entity_kept [OF run(2,4) x'(1) run(1) a(1) assms(2)]) (auto simp: allows_def)
  qed
  have "\<exists>t. target_of src x (ob_entity ob) = Inr t \<and> (is_host_target t \<or> valid_key (tg_key t) = None)"
    using a(2) ent by (auto simp: target_of_def allows_def entity_allowed_def is_host_target_def split: if_splits)
  then show ?thesis using nolink x k a(2)
    by (auto simp: observe_def allows_def kept_from_def split: sum.splits)
qed

section \<open>The contract\<close>

text \<open>
  \<open>inv\<close> is what every collection keeps; \<open>fair\<close> is what the host must do in one collection for its observations to be
  in order, beyond that.
\<close>

locale provider =
  fixes mf :: manifest and goos :: string
    and collect :: "'s \<Rightarrow> (string + observation list) \<times> 's"
    and inv :: "'s \<Rightarrow> bool" and fair :: "'s \<Rightarrow> bool"
  assumes keys: "distinct (map a_key (m_attributes mf))"
    and keeps: "inv s \<Longrightarrow> collect s = (r, s') \<Longrightarrow> inv s'"
    and declared: "inv s \<Longrightarrow> fair s \<Longrightarrow> collect s = (Inr obs, s') \<Longrightarrow> ob \<in> set obs \<Longrightarrow> declares mf goos ob"
begin

lemma nothing_dropped:
  assumes "runs_module ms mf goos src" "inv s" "fair s" "collect s = (Inr obs, s')"
  shows "fst (collect_one add src now (Returned obs) st) = Inr ([], length obs)"
proof -
  have "\<exists>x. observe src now ob = Inr x" if "ob \<in> set obs" for ob
    using declared [OF assms(2-4) that] declared_observed [OF assms(1) keys] by blast
  then have "dropped src now obs = [] \<and> length (good_samples src now obs) = length obs"
  proof (induction obs)
    case (Cons ob obs)
    then obtain x where "observe src now ob = Inr x" by fastforce
    then show ?case using Cons by (simp add: dropped_def good_samples_def)
  qed (simp add: dropped_def good_samples_def)
  then show ?thesis by (simp add: collect_one_eq safe_collect_def)
qed

end

section \<open>What the modules' collections share\<close>

text \<open>The observations, the omissions and the number of readings that succeeded, as a collection gathers them.\<close>

record tally =
  ty_obs :: "observation list"
  ty_omitted :: omissions
  ty_read :: nat

definition host_ob :: "string \<Rightarrow> gvalue \<Rightarrow> observation" where
  "host_ob key v = \<lparr>ob_key = key, ob_value = v, ob_entity = host_obs\<rparr>"

definition omit :: "string \<Rightarrow> string \<Rightarrow> tally \<Rightarrow> tally" where
  "omit key e t = t\<lparr>ty_omitted := om_add key e (ty_omitted t)\<rparr>"

definition report :: "observation list \<Rightarrow> tally \<Rightarrow> tally" where
  "report obs t = t\<lparr>ty_obs := ty_obs t @ obs, ty_read := Suc (ty_read t)\<rparr>"

end
