(* ===== verification/Cpu.thy ===== *)
theory Cpu
  imports Provider Gonum
begin

text \<open>
  \<open>internal/module/cpu\<close> and \<open>internal/hostread/cpu.go\<close>: the usage percentage between two readings of
  the kernel's counters, the baseline kept between collections and primed on the first one, and the
  provider's collection. The host is a record of readings over a state \<open>'w\<close> (gopsutil is not part of the
  repository); \<open>runtime.GOOS\<close> and \<open>runtime.GOARCH\<close> are fields of the module.
\<close>

section \<open>Readings\<close>

record cpu_times =
  ti_user :: f64
  ti_nice :: f64
  ti_system :: f64
  ti_idle :: f64
  ti_iowait :: f64
  ti_irq :: f64
  ti_softirq :: f64
  ti_steal :: f64

record cpu_load =
  ld_one :: f64
  ld_five :: f64
  ld_fifteen :: f64

text \<open>What gopsutil reports per CPU; the guest counters are part of user and nice.\<close>

record host_times = cpu_times +
  ti_guest :: f64
  ti_guest_nice :: f64

definition read_times :: "string + host_times list \<Rightarrow> string + cpu_times" where
  "read_times r = (case r of
       Inl e \<Rightarrow> Inl (''cpu times: '' @ e)
     | Inr [] \<Rightarrow> Inl ''cpu times: no aggregate reading''
     | Inr (t # _) \<Rightarrow> Inr \<lparr>ti_user = ti_user t, ti_nice = ti_nice t, ti_system = ti_system t, ti_idle = ti_idle t,
         ti_iowait = ti_iowait t, ti_irq = ti_irq t, ti_softirq = ti_softirq t, ti_steal = ti_steal t\<rparr>)"

definition read_load :: "string + cpu_load option \<Rightarrow> string + cpu_load" where
  "read_load r = (case r of Inl e \<Rightarrow> Inl (''load average: '' @ e) | Inr None \<Rightarrow> Inl ''load average: no reading'' | Inr (Some l) \<Rightarrow> Inr l)"

definition read_counts :: "string + int \<Rightarrow> string + int" where
  "read_counts r = (case r of Inl e \<Rightarrow> Inl (''cpu count: '' @ e)
     | Inr n \<Rightarrow> if n \<le> 0 then Inl (''cpu count: implausible value '' @ itoa n) else Inr n)"

definition no_model :: string where
  "no_model = ''no model reported''"

definition read_model :: "string + string list \<Rightarrow> string + string" where
  "read_model r = (case r of Inl e \<Rightarrow> Inl (''cpu info: '' @ e) | Inr [] \<Rightarrow> Inl no_model | Inr (m # _) \<Rightarrow> Inr m)"

section \<open>Usage\<close>

definition total :: "cpu_times \<Rightarrow> f64" where
  "total t = foldl fadd (ti_user t) [ti_nice t, ti_system t, ti_idle t, ti_iowait t, ti_irq t, ti_softirq t, ti_steal t]"

definition idle_time :: "cpu_times \<Rightarrow> f64" where
  "idle_time t = fadd (ti_idle t) (ti_iowait t)"

definition regressed :: "cpu_times \<Rightarrow> cpu_times \<Rightarrow> bool" where
  "regressed p c \<longleftrightarrow> flt (ti_user c) (ti_user p) \<or> flt (ti_nice c) (ti_nice p) \<or> flt (ti_system c) (ti_system p)
     \<or> flt (ti_idle c) (ti_idle p) \<or> flt (ti_iowait c) (ti_iowait p) \<or> flt (ti_irq c) (ti_irq p)
     \<or> flt (ti_softirq c) (ti_softirq p) \<or> flt (ti_steal c) (ti_steal p)"

definition percent :: "cpu_times \<Rightarrow> cpu_times \<Rightarrow> f64 option" where
  "percent p c = (if regressed p c then None
     else (let t = fsub (total c) (total p) in
       if fle t (Fin 0) then None
       else (let busy = fsub t (fsub (idle_time c) (idle_time p)); pct = fmul (fdiv busy t) (Fin 100) in
         Some (if flt pct (Fin 0) then Fin 0 else if flt (Fin 100) pct then Fin 100 else pct))))"

text \<open>A reading of up to \<open>2^40\<close> units per counter: in seconds, many thousands of CPU years.\<close>

definition counter_ok :: "f64 \<Rightarrow> bool" where
  "counter_ok v \<longleftrightarrow> (case v of Fin r \<Rightarrow> 0 \<le> r \<and> r \<le> 2 ^ 40 | _ \<Rightarrow> False)"

definition times_ok :: "cpu_times \<Rightarrow> bool" where
  "times_ok t \<longleftrightarrow> list_all counter_ok [ti_user t, ti_nice t, ti_system t, ti_idle t, ti_iowait t, ti_irq t, ti_softirq t, ti_steal t]"

definition upto_int :: "int \<Rightarrow> f64 \<Rightarrow> bool" where
  "upto_int k v \<longleftrightarrow> (case v of Fin r \<Rightarrow> 0 \<le> r \<and> r \<le> of_int k | _ \<Rightarrow> False)"

lemma fadd_upto:
  assumes "upto_int k a" "upto_int l b" "k + l \<le> 2 ^ 53"
  shows "upto_int (k + l) (fadd a b)"
proof -
  from assms(1,2) obtain x y where xy: "a = Fin x" "b = Fin y" "0 \<le> x" "x \<le> of_int k" "0 \<le> y" "y \<le> of_int l"
    by (auto simp: upto_int_def split: f64.splits)
  have "of_int 0 \<le> x + y" "x + y \<le> of_int (k + l)" using xy by simp_all
  from rnd_between [OF this _ assms(3)] obtain r where "rnd (x + y) = Fin r" "0 \<le> r" "r \<le> of_int (k + l)" by auto
  then show ?thesis by (simp add: xy upto_int_def)
qed

lemma counter_upto: "counter_ok v \<Longrightarrow> upto_int (2 ^ 40) v"
  by (auto simp: counter_ok_def upto_int_def split: f64.splits)

lemma sums_upto:
  assumes "times_ok t"
  shows "upto_int (2 ^ 43) (total t)" "upto_int (2 ^ 41) (idle_time t)"
proof -
  have fold: "upto_int (k + int (length vs) * 2 ^ 40) (foldl fadd a vs)"
    if "upto_int k a" "list_all counter_ok vs" "k + int (length vs) * 2 ^ 40 \<le> 2 ^ 53" "0 \<le> k" for k a vs
    using that
  proof (induction vs arbitrary: k a)
    case (Cons v vs)
    have le: "k + 2 ^ 40 \<le> 2 ^ 53" using Cons.prems(3) by simp
    have "upto_int (k + 2 ^ 40) (fadd a v)"
      using Cons.prems by (intro fadd_upto counter_upto le) simp_all
    from Cons.IH [OF this] Cons.prems show ?case by (simp add: algebra_simps)
  qed simp
  show "upto_int (2 ^ 43) (total t)"
    using fold [of "2 ^ 40" "ti_user t" "[ti_nice t, ti_system t, ti_idle t, ti_iowait t, ti_irq t, ti_softirq t, ti_steal t]"]
      assms counter_upto by (simp add: total_def times_ok_def)
  show "upto_int (2 ^ 41) (idle_time t)"
    using fadd_upto [of "2 ^ 40" "ti_idle t" "2 ^ 40" "ti_iowait t"] assms counter_upto by (simp add: idle_time_def times_ok_def)
qed

lemma fmul_100_not_NaN: "v \<noteq> NaN \<Longrightarrow> fmul v (Fin 100) \<noteq> NaN"
  by (cases v) (simp_all add: fmul_def inf_sgn_def)

lemma fsub_not_NaN: "v \<noteq> NaN \<Longrightarrow> fsub (Fin a) v \<noteq> NaN"
  by (cases v) (simp_all add: fsub_def)

lemma fsub_Fin: "fsub (Fin a) (Fin b) = rnd (a - b)"
  by (simp add: fsub_def)

lemma percent_range:
  assumes "times_ok p" "times_ok c" "percent p c = Some v"
  shows "\<exists>r. v = Fin r \<and> 0 \<le> r \<and> r \<le> 100"
proof -
  obtain tc tp ic ip where s: "total c = Fin tc" "total p = Fin tp" "tc \<le> 2 ^ 43" "0 \<le> tp" "idle_time c = Fin ic" "idle_time p = Fin ip"
    using sums_upto [OF assms(1)] sums_upto [OF assms(2)] by (auto simp: upto_int_def split: f64.splits)
  have pos: "\<not> fle (rnd (tc - tp)) (Fin 0)" using assms(3) s by (auto simp: percent_def fsub_def Let_def split: if_splits)
  have "0 \<le> tc - tp"
  proof (rule ccontr)
    assume "\<not> 0 \<le> tc - tp"
    then have "fle (rnd (tc - tp)) (rnd 0)" by (intro fle_rnd_mono) simp
    then show False using pos by (simp add: rnd_def)
  qed
  then obtain t where t: "rnd (tc - tp) = Fin t" using rnd_between [of 0 "tc - tp" "2 ^ 43"] s by auto
  then have "0 < t" using pos by simp
  let ?b = "fsub (Fin t) (fsub (Fin ic) (Fin ip))"
  have b: "?b \<noteq> NaN" by (intro fsub_not_NaN) (simp add: fsub_Fin)
  have "fdiv ?b (Fin t) \<noteq> NaN" using b \<open>0 < t\<close> by (cases ?b) (simp_all add: fdiv_def inf_sgn_def)
  then have n: "fmul (fdiv ?b (Fin t)) (Fin 100) \<noteq> NaN" by (rule fmul_100_not_NaN)
  have "v = (let pct = fmul (fdiv ?b (Fin t)) (Fin 100) in if flt pct (Fin 0) then Fin 0 else if flt (Fin 100) pct then Fin 100 else pct)"
    using assms(3) s t by (auto simp: percent_def fsub_def Let_def split: if_splits)
  then show ?thesis using n by (cases "fmul (fdiv ?b (Fin t)) (Fin 100)") (auto simp: flt_def Let_def split: if_splits)
qed

section \<open>The module\<close>

definition load_platforms :: "string list" where
  "load_platforms = [''linux'', ''darwin'']"

definition metric_attr :: "string \<Rightarrow> string \<Rightarrow> string \<Rightarrow> string \<Rightarrow> string list \<Rightarrow> mattribute" where
  "metric_attr key slug name desc platforms = \<lparr>a_key = key, a_name = name, a_slug = slug, a_kind = KindMetric, a_desc = desc,
     a_options = [], a_template = [], a_target = [], a_label = 0, a_platforms = platforms\<rparr>"

definition load_attr :: "string \<Rightarrow> string \<Rightarrow> string \<Rightarrow> string \<Rightarrow> mattribute" where
  "load_attr key slug name window = metric_attr key slug name
     (''Run-queue load averaged over '' @ window @ '', as the operating system reports it'') load_platforms"

definition cpu_manifest :: manifest where
  "cpu_manifest = \<lparr>m_module = ''cpu'', m_templates = [], m_attributes = [
     metric_attr ''usage'' ''cpu_usage_pct'' ''CPU usage'' ''Percent of CPU time that was not idle, aggregated across all logical CPUs'' [],
     load_attr ''load1'' ''load_avg_1'' ''Load average (1m)'' ''1 minute'',
     load_attr ''load5'' ''load_avg_5'' ''Load average (5m)'' ''5 minutes'',
     load_attr ''load15'' ''load_avg_15'' ''Load average (15m)'' ''15 minutes'',
     (metric_attr ''model'' ''cpu_model'' ''CPU model'' ''Model string reported by the operating system'' [])\<lparr>a_kind := KindText\<rparr>,
     (metric_attr ''cores'' ''cpu_cores'' ''CPU cores'' ''Number of logical CPUs usable by the operating system'' [])\<lparr>a_kind := KindNumber\<rparr>,
     (metric_attr ''arch'' ''cpu_arch'' ''CPU architecture'' ''Architecture this build targets'' [])
       \<lparr>a_kind := KindList, a_options := [''amd64'', ''arm64'']\<rparr>]\<rparr>"

text \<open>\<open>cr_left\<close> is the time to the context's deadline, if it has one; \<open>cr_sleep\<close> whether the pause was completed.\<close>

record 'w cpu_reader =
  cr_model :: "'w \<Rightarrow> (string + string) \<times> 'w"
  cr_counts :: "'w \<Rightarrow> (string + int) \<times> 'w"
  cr_load :: "'w \<Rightarrow> (string + cpu_load) \<times> 'w"
  cr_times :: "'w \<Rightarrow> (string + cpu_times) \<times> 'w"
  cr_left :: "'w \<Rightarrow> int option"
  cr_sleep :: "int \<Rightarrow> 'w \<Rightarrow> bool \<times> 'w"

record cpu_module =
  cm_goos :: string
  cm_runtime_goos :: string
  cm_arch :: string
  cm_prime :: int
  cm_last :: "cpu_times option"

definition cpu_interval :: int where
  "cpu_interval = 10000000000"

definition default_prime :: int where
  "default_prime = 250000000"

definition prime_slack :: int where
  "prime_slack = 50000000"

definition cpu_prime :: "cpu_module \<Rightarrow> int" where
  "cpu_prime m = (if 0 < cm_prime m then cm_prime m else default_prime)"

definition cpu_goos :: "cpu_module \<Rightarrow> string" where
  "cpu_goos m = (if cm_goos m \<noteq> [] then cm_goos m else cm_runtime_goos m)"

definition can_prime :: "'w cpu_reader \<Rightarrow> cpu_module \<Rightarrow> 'w \<Rightarrow> bool" where
  "can_prime rd m w = (case cr_left rd w of None \<Rightarrow> True | Some left \<Rightarrow> cpu_prime m + prime_slack \<le> left)"

definition usage :: "'w cpu_reader \<Rightarrow> cpu_module \<Rightarrow> 'w \<Rightarrow> (string + f64 option) \<times> cpu_module \<times> 'w" where
  "usage rd m w = (case cr_times rd w of
       (Inl e, w1) \<Rightarrow> (Inl e, m, w1)
     | (Inr cur, w1) \<Rightarrow> (case cm_last m of
           Some prev \<Rightarrow> (Inr (percent prev cur), m\<lparr>cm_last := Some cur\<rparr>, w1)
         | None \<Rightarrow>
             if \<not> can_prime rd m w1 then (Inr None, m\<lparr>cm_last := Some cur\<rparr>, w1)
             else (case cr_sleep rd (cpu_prime m) w1 of
                 (False, w2) \<Rightarrow> (Inr None, m\<lparr>cm_last := Some cur\<rparr>, w2)
               | (True, w2) \<Rightarrow> (case cr_times rd w2 of
                     (Inl e, w3) \<Rightarrow> (Inr None, m\<lparr>cm_last := Some cur\<rparr>, w3)
                   | (Inr cur2, w3) \<Rightarrow> (Inr (percent cur cur2), m\<lparr>cm_last := Some cur2\<rparr>, w3)))))"

definition times_reader_ok :: "'w cpu_reader \<Rightarrow> bool" where
  "times_reader_ok rd \<longleftrightarrow> (\<forall>w t w'. cr_times rd w = (Inr t, w') \<longrightarrow> times_ok t)"

lemma times_reader: "times_reader_ok rd \<Longrightarrow> cr_times rd w = (Inr t, w') \<Longrightarrow> times_ok t"
  unfolding times_reader_ok_def by blast

lemma usage_fact:
  assumes "usage rd m w = (r, m', w')" "times_reader_ok rd" "pred_option times_ok (cm_last m)"
  shows "(case r of
       Inl e \<Rightarrow> m' = m
     | Inr v \<Rightarrow> (\<exists>cur. m' = m\<lparr>cm_last := Some cur\<rparr> \<and> times_ok cur
         \<and> (\<forall>x. v = Some x \<longrightarrow> (\<exists>prev. (cm_last m = Some prev \<or> cm_last m = None) \<and> percent prev cur = Some x
               \<and> \<not> regressed prev cur \<and> flt (Fin 0) (fsub (total cur) (total prev))) \<and> is_pct (round2 x))))"
proof -
  have fact: "\<not> regressed p c \<and> flt (Fin 0) (fsub (total c) (total p)) \<and> is_pct (round2 x)"
    if "times_ok p" "times_ok c" "percent p c = Some x" for p c x
  proof -
    note pc = that
    from percent_range [OF that] obtain q where "x = Fin q" "0 \<le> q" "q \<le> 100" by blast
    then have "is_pct (round2 x)" by (simp add: round2_pct)
    moreover obtain a b where "total c = Fin a" "total p = Fin b"
      using sums_upto [OF pc(1)] sums_upto [OF pc(2)] by (auto simp: upto_int_def split: f64.splits)
    ultimately show ?thesis using pc(3) by (auto simp: percent_def flt_def fsub_Fin Let_def split: if_splits)
  qed
  show ?thesis
  proof (cases "cr_times rd w")
    case (Pair r1 w1)
    show ?thesis
    proof (cases r1)
      case (Inl e)
      then show ?thesis using assms(1) Pair by (auto simp: usage_def)
    next
      case (Inr cur)
      note ok = times_reader [OF assms(2) Pair [unfolded Inr]]
      show ?thesis
      proof (cases "cm_last m")
        case (Some prev)
        then have "times_ok prev" using assms(3) by simp
        then show ?thesis using assms(1) Pair Inr Some ok fact [of prev cur] by (fastforce simp: usage_def)
      next
        case None
        show ?thesis
        proof (cases "\<exists>w2 cur2 w3. can_prime rd m w1 \<and> cr_sleep rd (cpu_prime m) w1 = (True, w2) \<and> cr_times rd w2 = (Inr cur2, w3)")
          case False
          then have "r = Inr None" "m' = m\<lparr>cm_last := Some cur\<rparr>"
            using assms(1) Pair Inr None by (auto simp: usage_def split: prod.splits bool.splits if_splits sum.splits)
          then show ?thesis using ok by auto
        next
          case True
          then obtain w2 cur2 w3 where two: "can_prime rd m w1" "cr_sleep rd (cpu_prime m) w1 = (True, w2)" "cr_times rd w2 = (Inr cur2, w3)" by blast
          note ok2 = times_reader [OF assms(2) two(3)]
          have "r = Inr (percent cur cur2)" "m' = m\<lparr>cm_last := Some cur2\<rparr>" using assms(1) Pair Inr None two by (simp_all add: usage_def)
          then show ?thesis using None ok2 fact [OF ok ok2] by auto
        qed
      qed
    qed
  qed
qed

text \<open>
  For a reader whose counters are finite, at least 0 and at most 2 to the 40 seconds, a usage percentage lies
  between 0 and 100. A failed reading leaves the baseline alone, any other call leaves a reading within
  those limits as the baseline, and a value is the share that \<open>percent\<close> gives to that reading against an
  earlier one in which no counter was higher.
\<close>

lemma usage_measured:
  assumes "usage rd m w = (r, m', w')" "times_reader_ok rd" "pred_option times_ok (cm_last m)"
  shows "(case r of
       Inl e \<Rightarrow> m' = m
     | Inr v \<Rightarrow> (\<exists>cur. m' = m\<lparr>cm_last := Some cur\<rparr> \<and> times_ok cur
         \<and> (\<forall>x. v = Some x \<longrightarrow> (\<exists>prev. (cm_last m = Some prev \<or> cm_last m = None) \<and> percent prev cur = Some x
               \<and> \<not> regressed prev cur \<and> flt (Fin 0) (fsub (total cur) (total prev))) \<and> is_pct (round2 x))))"
  by (rule usage_fact [OF assms])

section \<open>Collecting\<close>

definition first_line :: "string \<Rightarrow> string" where
  "first_line s = trim_space (case cut_at (char_of (10 :: nat)) s of Some (a, _) \<Rightarrow> a | None \<Rightarrow> s)"

definition add_model :: "string + string \<Rightarrow> tally \<Rightarrow> tally" where
  "add_model r t = (case r of
       Inl e \<Rightarrow> omit ''model'' e t
     | Inr s \<Rightarrow> if first_line s \<noteq> [] then report [host_ob ''model'' (VString (first_line s))] t else omit ''model'' no_model (report [] t))"

definition add_counts :: "string + int \<Rightarrow> tally \<Rightarrow> tally" where
  "add_counts r t = (case r of Inl e \<Rightarrow> omit ''cores'' e t | Inr n \<Rightarrow> report [host_ob ''cores'' (VInt GoInt n)] t)"

definition add_load :: "string + cpu_load \<Rightarrow> tally \<Rightarrow> tally" where
  "add_load r t = (case r of
       Inl e \<Rightarrow> omit ''load1'' e t
     | Inr l \<Rightarrow> report [host_ob ''load1'' (VF64 (ld_one l)), host_ob ''load5'' (VF64 (ld_five l)), host_ob ''load15'' (VF64 (ld_fifteen l))] t)"

definition add_usage :: "string + f64 option \<Rightarrow> tally \<Rightarrow> tally" where
  "add_usage r t = (case r of
       Inl e \<Rightarrow> omit ''usage'' e t
     | Inr (Some x) \<Rightarrow> report [host_ob ''usage'' (VF64 (round2 x))] t
     | Inr None \<Rightarrow> report [] t)"

text \<open>The collection: its answer, the record it logs, the module and the host afterwards.\<close>

definition cpu_collect :: "'w cpu_reader \<Rightarrow> cpu_module \<Rightarrow> 'w \<Rightarrow> (string + observation list) \<times> (string \<times> string) option \<times> cpu_module \<times> 'w" where
  "cpu_collect rd m w = (
     let t0 = \<lparr>ty_obs = [host_ob ''arch'' (VString (cm_arch m))], ty_omitted = no_omissions, ty_read = 0\<rparr>;
         (model, w1) = cr_model rd w;
         t1 = add_model model t0;
         (counts, w2) = cr_counts rd w1;
         t2 = add_counts counts t1;
         (t3, w3) = (if collectable load_platforms (cpu_goos m) then (case cr_load rd w2 of (l, w3) \<Rightarrow> (add_load l t2, w3)) else (t2, w2));
         (u, m', w4) = usage rd m w3;
         t4 = add_usage u t3
     in if ty_read t4 = 0 then (Inl (om_err (ty_omitted t4) ''cpu''), None, m', w4)
        else (Inr (ty_obs t4), om_log (ty_omitted t4), m', w4))"

section \<open>The contract\<close>

definition load_ok :: "cpu_load \<Rightarrow> bool" where
  "load_ok l \<longleftrightarrow> is_fin (ld_one l) \<and> is_fin (ld_five l) \<and> is_fin (ld_fifteen l)"

definition reader_ok :: "'w cpu_reader \<Rightarrow> bool" where
  "reader_ok rd \<longleftrightarrow> times_reader_ok rd
     \<and> (\<forall>w l w'. cr_load rd w = (Inr l, w') \<longrightarrow> load_ok l) \<and> (\<forall>w n w'. cr_counts rd w = (Inr n, w') \<longrightarrow> 0 < n \<and> n \<le> 2 ^ 31)"

text \<open>The provider's state: the host's readings, the module and the host, on a platform and a build that are supported.\<close>

definition cpu_inv :: "string \<Rightarrow> 'w cpu_reader \<times> cpu_module \<times> 'w \<Rightarrow> bool" where
  "cpu_inv goos s \<longleftrightarrow> (case s of (rd, m, w) \<Rightarrow> reader_ok rd \<and> cpu_goos m = goos \<and> cm_arch m \<in> {''amd64'', ''arm64''}
     \<and> pred_option times_ok (cm_last m))"

definition cpu_provider :: "'w cpu_reader \<times> cpu_module \<times> 'w \<Rightarrow> (string + observation list) \<times> ('w cpu_reader \<times> cpu_module \<times> 'w)" where
  "cpu_provider s = (case s of (rd, m, w) \<Rightarrow> (case cpu_collect rd m w of (r, lg, m', w') \<Rightarrow> (r, (rd, m', w'))))"

definition reports :: "string \<Rightarrow> tally \<Rightarrow> bool" where
  "reports goos t \<longleftrightarrow> (\<forall>ob \<in> set (ty_obs t). declares cpu_manifest goos ob)"

lemmas cpu_declares = declares_def allows_def entity_allowed_def is_host_entity_def host_obs_def cpu_manifest_def metric_attr_def load_attr_def
  host_ob_def validate_value_def to_float_def collectable_def

lemma is_fin_nat: "0 \<le> n \<Longrightarrow> n \<le> 2 ^ 53 \<Longrightarrow> is_fin (f_of_int n)"
  using rnd_nonneg_int [of n] by (simp add: f_of_int_def)

lemma is_fin_pct: "is_pct v \<Longrightarrow> is_fin v"
  using is_pct_range by fastforce

lemma cpu_declares_key:
  "declares cpu_manifest goos (host_ob ''usage'' (VF64 v)) \<longleftrightarrow> is_fin v"
  "declares cpu_manifest goos (host_ob ''load1'' (VF64 v)) \<longleftrightarrow> is_fin v \<and> goos \<in> set load_platforms"
  "declares cpu_manifest goos (host_ob ''load5'' (VF64 v)) \<longleftrightarrow> is_fin v \<and> goos \<in> set load_platforms"
  "declares cpu_manifest goos (host_ob ''load15'' (VF64 v)) \<longleftrightarrow> is_fin v \<and> goos \<in> set load_platforms"
  "declares cpu_manifest goos (host_ob ''model'' (VString s))"
  "declares cpu_manifest goos (host_ob ''cores'' (VInt GoInt n)) \<longleftrightarrow> is_fin (f_of_int n)"
  "declares cpu_manifest goos (host_ob ''arch'' (VString s)) \<longleftrightarrow> s = ''amd64'' \<or> s = ''arm64''"
  by (simp_all add: cpu_declares load_platforms_def)

lemma cpu_reports:
  assumes "reports goos t"
  shows "reports goos (add_model r t)"
    and "(\<And>n. c = Inr n \<Longrightarrow> 0 < n \<and> n \<le> 2 ^ 31) \<Longrightarrow> reports goos (add_counts c t)"
    and "goos \<in> set load_platforms \<Longrightarrow> (\<And>x. l = Inr x \<Longrightarrow> load_ok x) \<Longrightarrow> reports goos (add_load l t)"
    and "(\<And>x. u = Inr (Some x) \<Longrightarrow> is_pct (round2 x)) \<Longrightarrow> reports goos (add_usage u t)"
  using assms by (auto simp: reports_def add_model_def add_counts_def add_load_def add_usage_def report_def omit_def load_ok_def
      cpu_declares_key is_fin_nat is_fin_pct split: sum.splits option.splits)

lemma cpu_collect_ok:
  assumes "cpu_inv goos (rd, m, w)" "cpu_collect rd m w = (r, lg, m', w')"
  shows "cpu_inv goos (rd, m', w') \<and> (\<forall>obs. r = Inr obs \<longrightarrow> (\<forall>ob \<in> set obs. declares cpu_manifest goos ob))"
proof -
  from assms(1) have inv: "reader_ok rd" "cpu_goos m = goos" "cm_arch m = ''amd64'' \<or> cm_arch m = ''arm64''" "pred_option times_ok (cm_last m)"
    by (auto simp: cpu_inv_def)
  obtain model w1 where r1: "cr_model rd w = (model, w1)" by (metis surj_pair)
  obtain c w2 where r2: "cr_counts rd w1 = (c, w2)" by (metis surj_pair)
  let ?t0 = "\<lparr>ty_obs = [host_ob ''arch'' (VString (cm_arch m))], ty_omitted = no_omissions, ty_read = 0\<rparr>"
  let ?t2 = "add_counts c (add_model model ?t0)"
  obtain t3 w3 where r3: "(if collectable load_platforms (cpu_goos m) then (case cr_load rd w2 of (l, w3) \<Rightarrow> (add_load l ?t2, w3)) else (?t2, w2)) = (t3, w3)"
    by (metis surj_pair)
  obtain u m2 w4 where r4: "usage rd m w3 = (u, m2, w4)" by (metis prod_cases3)
  have "times_reader_ok rd" using inv(1) by (simp add: reader_ok_def)
  note us = usage_fact [OF r4 this inv(4)]
  have m2: "pred_option times_ok (cm_last m2) \<and> cpu_goos m2 = cpu_goos m \<and> cm_arch m2 = cm_arch m" and pct: "\<And>x. u = Inr (Some x) \<Longrightarrow> is_pct (round2 x)"
    using us inv(4) by (auto simp: cpu_goos_def split: sum.splits)
  have "reports goos ?t0" using inv(3) by (auto simp: reports_def cpu_declares_key)
  moreover have "0 < n \<and> n \<le> 2 ^ 31" if "c = Inr n" for n using that r2 inv(1) unfolding reader_ok_def by blast
  ultimately have t2: "reports goos ?t2" by (intro cpu_reports) auto
  have "reports goos t3"
  proof (cases "collectable load_platforms (cpu_goos m)")
    case True
    then have plat: "goos \<in> set load_platforms" using inv(2) by (simp add: collectable_def load_platforms_def)
    obtain l w3' where l: "cr_load rd w2 = (l, w3')" by (metis surj_pair)
    then have "load_ok x" if "l = Inr x" for x using that inv(1) unfolding reader_ok_def by blast
    then have "reports goos (add_load l ?t2)" by (rule cpu_reports(3) [OF t2 plat])
    then show ?thesis using r3 True l by simp
  next
    case False
    then show ?thesis using r3 t2 by simp
  qed
  then have t4: "reports goos (add_usage u t3)" using pct by (rule cpu_reports(4))
  have "m' = m2 \<and> (\<forall>obs. r = Inr obs \<longrightarrow> obs = ty_obs (add_usage u t3))"
    using assms(2) r1 r2 r3 r4 by (auto simp: cpu_collect_def Let_def split: if_splits)
  then show ?thesis using inv m2 t4 by (auto simp: cpu_inv_def reports_def)
qed

interpretation cpu: provider cpu_manifest goos cpu_provider "cpu_inv goos" "\<lambda>_. True" for goos
proof unfold_locales
  show "distinct (map a_key (m_attributes cpu_manifest))"
    by (simp add: cpu_manifest_def metric_attr_def load_attr_def)
next
  fix s :: "'a cpu_reader \<times> cpu_module \<times> 'a" and r s'
  assume "cpu_inv goos s" "cpu_provider s = (r, s')"
  then show "cpu_inv goos s'" using cpu_collect_ok by (fastforce simp: cpu_provider_def split: prod.splits)
next
  fix s :: "'a cpu_reader \<times> cpu_module \<times> 'a" and obs s' ob
  assume "cpu_inv goos s" "cpu_provider s = (Inr obs, s')" "ob \<in> set obs"
  then show "declares cpu_manifest goos ob" using cpu_collect_ok by (fastforce simp: cpu_provider_def split: prod.splits)
qed

section \<open>At a concrete input\<close>

definition example_times :: "rat \<Rightarrow> rat \<Rightarrow> cpu_times" where
  "example_times user idle = \<lparr>ti_user = Fin user, ti_nice = Fin 0, ti_system = Fin 0, ti_idle = Fin idle, ti_iowait = Fin 0,
     ti_irq = Fin 0, ti_softirq = Fin 0, ti_steal = Fin 0\<rparr>"

definition example_host :: "nat cpu_reader" where
  "example_host = \<lparr>cr_model = (\<lambda>w. (Inr ''cpu'', w)), cr_counts = (\<lambda>w. (Inr 4, w)),
     cr_load = (\<lambda>w. (Inr \<lparr>ld_one = Fin 1, ld_five = Fin 1, ld_fifteen = Fin 1\<rparr>, w)),
     cr_times = (\<lambda>w. (Inr (if w = 0 then example_times 10 30 else example_times 11 33), Suc w)),
     cr_left = (\<lambda>w. None), cr_sleep = (\<lambda>d w. (True, w))\<rparr>"

definition example_module :: cpu_module where
  "example_module = \<lparr>cm_goos = ''linux'', cm_runtime_goos = [], cm_arch = ''amd64'', cm_prime = 0, cm_last = None\<rparr>"

lemma example_host_ok: "reader_ok example_host"
  by (auto simp: reader_ok_def times_reader_ok_def example_host_def times_ok_def example_times_def counter_ok_def load_ok_def split: if_splits)

lemma usage_measured_witness:
  "\<exists>r m' w'. usage example_host example_module 0 = (r, m', w') \<and> r = Inr (percent (example_times 10 30) (example_times 11 33))
     \<and> cm_last m' \<noteq> None \<and> pred_option (\<lambda>x. is_pct (round2 x)) (percent (example_times 10 30) (example_times 11 33))"
proof -
  obtain r m' w' where run: "usage example_host example_module 0 = (r, m', w')" by (metis prod_cases3)
  have r: "r = Inr (percent (example_times 10 30) (example_times 11 33))"
    using run by (simp add: usage_def example_host_def example_module_def can_prime_def)
  have "times_reader_ok example_host" using example_host_ok by (simp add: reader_ok_def)
  from usage_measured [OF run this] show ?thesis using run r
    by (cases "percent (example_times 10 30) (example_times 11 33)") (auto simp: example_module_def)
qed

end
