(* ===== verification/Goword.thy ===== *)
theory Goword
  imports Gofloat "HOL-Library.Word"
begin

text \<open>
  What the modules share of 64-bit counters: their conversion to \<open>float64\<close>, and the bounds that keep the
  quotients they compute finite.
\<close>

type_synonym u64 = "64 word"

definition f_of_word :: "64 word \<Rightarrow> f64" where
  "f_of_word x = f_of_int (uint x)"

lemma f_of_word_upto: "upto_pow 64 (f_of_word x)"
proof -
  have "uint x < 2 ^ 64" using uint_lt2p [of x] by simp
  then have "(of_int (uint x) :: rat) \<le> of_int (2 ^ 64)" by (simp only: of_int_le_iff)
  then have "(of_int (uint x) :: rat) \<le> 2 ^ 64" by (simp only: of_int_power of_int_numeral)
  moreover have "0 \<le> (of_int (uint x) :: rat)" by (simp only: of_int_0_le_iff) simp
  ultimately show ?thesis unfolding f_of_word_def f_of_int_def using upto_pow_rnd [of "of_int (uint x)" 64] by linarith
qed

lemma f_of_word_pos: "x \<noteq> 0 \<Longrightarrow> \<exists>r. f_of_word x = Fin r \<and> 1 \<le> r"
proof -
  assume x: "x \<noteq> 0"
  then have "uint x \<noteq> 0" "0 \<le> uint x" by (simp_all add: uint_0_iff)
  then have "0 < uint x" by linarith
  then have "1 \<le> uint x" by linarith
  then have one: "1 \<le> (of_int (uint x) :: rat)" by (simp only: of_int_1_le_iff)
  obtain r where r: "f_of_word x = Fin r" using f_of_word_upto [of x] by (rule upto_powE)
  then have "rnd (of_int (uint x)) = Fin r" by (simp add: f_of_word_def f_of_int_def)
  then show ?thesis using r rnd_ge_one [OF one] by blast
qed

text \<open>A quotient by a divisor that is not tiny: at most \<open>2^30\<close> times as large.\<close>

lemma rnd_at_least:
  assumes "2 powi (- 30) \<le> x" "x \<le> 1" "rnd x = Fin y"
  shows "2 powi (- 30) \<le> y"
proof -
  have pos: "0 < x" using assms(1) by (rule order.strict_trans2 [rotated]) simp
  have "2 powi (flog2 x) \<le> x" by (rule flog2_bounds(1) [OF pos])
  then have "(2::rat) powi (flog2 x) \<le> 2 powi 0" using assms(2) by simp
  then have "flog2 x \<le> 0" by (simp only: powi2_le_iff)
  then have "2 powi (- 30) \<le> rnd_pos x" by (intro rnd_pos_ge assms(1)) (simp add: ulp_exp_def)
  then show ?thesis using assms(3) pos by (auto simp: rnd_def Let_def split: if_splits)
qed

lemma powi_30: "(2::rat) powi (- 30) = 1 / 2 ^ 30"
proof -
  have "(2::rat) powi (- 30) = inverse (2 powi 30)" by (rule power_int_minus)
  then show ?thesis by (simp add: inverse_eq_divide)
qed

lemma fdiv_upto:
  assumes "upto_pow k v" "2 powi (- 30) \<le> y" "k \<le> 900"
  shows "upto_pow (k + 30) (fdiv v (Fin y))"
proof -
  obtain x where x: "v = Fin x" "0 \<le> x" "x \<le> 2 ^ k" using assms(1) by (rule upto_powE)
  note e = powi_30
  have y: "0 < y" using assms(2) unfolding e by (rule order.strict_trans2 [rotated]) simp
  have "1 \<le> y * 2 ^ 30" using assms(2) unfolding e by (simp add: field_simps)
  then have "x * 1 \<le> x * (y * 2 ^ 30)" using x(2) by (rule mult_left_mono)
  also have "\<dots> \<le> 2 ^ k * (y * 2 ^ 30)" using x(3) y by (intro mult_right_mono) simp_all
  finally have "x \<le> y * 2 ^ (k + 30)" by (simp add: power_add mult.assoc mult.left_commute)
  then have "x / y \<le> 2 ^ (k + 30)" using y by (simp add: field_simps)
  then have "upto_pow (k + 30) (rnd (x / y))" using x(2) y assms(3) by (intro upto_pow_rnd) simp_all
  then show ?thesis using y x(1) by (simp add: fdiv_def)
qed

lemma fdiv_upto_one: "upto_pow k v \<Longrightarrow> 1 \<le> y \<Longrightarrow> k \<le> 900 \<Longrightarrow> upto_pow k (fdiv v (Fin y))"
proof -
  assume a: "upto_pow k v" "1 \<le> y" "k \<le> 900"
  obtain x where x: "v = Fin x" "0 \<le> x" "x \<le> 2 ^ k" using a(1) by (rule upto_powE)
  have "x * 1 \<le> x * y" using a(2) x(2) by (rule mult_left_mono)
  then have "x / y \<le> x" using a(2) by (simp add: divide_le_eq)
  then have "x / y \<le> 2 ^ k" using x(3) by linarith
  moreover have "0 \<le> x / y" using x(2) a(2) by simp
  ultimately have "upto_pow k (rnd (x / y))" using a(3) by (intro upto_pow_rnd) simp_all
  then show ?thesis using x(1) a(2) by (simp add: fdiv_def)
qed

end
