(* ===== verification/Memorymod.thy ===== *)
theory Memorymod
  imports Provider Goword "HOL-Library.Word"
begin

unbundle bit_operations_syntax

text \<open>
  \<open>internal/module/memory\<close> and \<open>internal/hostread/memory.go\<close>: one reading of physical memory, in 64-bit
  byte counts, and the three values derived from it.
\<close>

record memory_reading =
  mr_total :: "64 word"
  mr_available :: "64 word"

definition read_memory :: "string + memory_reading option \<Rightarrow> string + memory_reading" where
  "read_memory r = (case r of Inl e \<Rightarrow> Inl (''virtual memory: '' @ e) | Inr None \<Rightarrow> Inl ''virtual memory: no reading'' | Inr (Some v) \<Rightarrow> Inr v)"

record memory_module =
  mm_goos :: string
  mm_runtime_goos :: string

definition memory_goos :: "memory_module \<Rightarrow> string" where
  "memory_goos m = (if mm_goos m \<noteq> [] then mm_goos m else mm_runtime_goos m)"

definition available_platforms :: "string list" where
  "available_platforms = [''linux'', ''windows'']"

definition mib_shift :: nat where
  "mib_shift = 20"

definition memory_interval :: int where
  "memory_interval = 30000000000"

definition memory_attr :: "string \<Rightarrow> string \<Rightarrow> string \<Rightarrow> kind \<Rightarrow> string \<Rightarrow> string list \<Rightarrow> mattribute" where
  "memory_attr key slug name k desc platforms = \<lparr>a_key = key, a_name = name, a_slug = slug, a_kind = k, a_desc = desc,
     a_options = [], a_template = [], a_target = [], a_label = 0, a_platforms = platforms\<rparr>"

definition memory_manifest :: manifest where
  "memory_manifest = \<lparr>m_module = ''memory'', m_templates = [], m_attributes = [
     memory_attr ''used_pct'' ''mem_used_pct'' ''Memory used'' KindMetric ''Percent of physical memory not available without swapping'' available_platforms,
     memory_attr ''available'' ''mem_available_mib'' ''Memory available'' KindMetric
       ''Memory the operating system estimates can be given to programs without swapping, in MiB'' available_platforms,
     memory_attr ''total'' ''mem_total_mib'' ''Memory total'' KindNumber ''Physical memory the operating system reports, in MiB'' []]\<rparr>"

definition used_pct :: "memory_reading \<Rightarrow> f64" where
  "used_pct r = (let p = fmul (fdiv (f_of_word (mr_total r - mr_available r)) (f_of_word (mr_total r))) (Fin 100) in
     round2 (fmin (fmax p (Fin 0)) (Fin 100)))"

definition uint_value :: "64 word \<Rightarrow> gvalue" where
  "uint_value x = VInt GoUint64 (uint x)"

text \<open>The answer and the omissions it logs.\<close>

definition memory_collect :: "memory_module \<Rightarrow> string + memory_reading \<Rightarrow> (string + observation list) \<times> omissions" where
  "memory_collect m rd = (case rd of
       Inl e \<Rightarrow> (let om = om_add ''total'' e no_omissions in (Inl (om_err om ''memory''), om))
     | Inr r \<Rightarrow>
         if mr_total r = 0 then (let om = om_add ''total'' ''total is zero'' no_omissions in (Inl (om_err om ''memory''), om))
         else (let obs = [host_ob ''total'' (uint_value (drop_bit mib_shift (mr_total r)))] in
           if \<not> collectable available_platforms (memory_goos m) then (Inr obs, no_omissions)
           else if mr_total r < mr_available r
           then (Inr obs, om_add ''available'' ''available exceeds total'' (om_add ''used_pct'' ''available exceeds total'' no_omissions))
           else (Inr (obs @ [host_ob ''used_pct'' (VF64 (used_pct r)), host_ob ''available'' (uint_value (drop_bit mib_shift (mr_available r)))]),
                 no_omissions)))"

section \<open>The contract\<close>

lemma used_pct_pct: "mr_total r \<noteq> 0 \<Longrightarrow> is_pct (used_pct r)"
proof -
  assume "mr_total r \<noteq> 0"
  then obtain y where y: "f_of_word (mr_total r) = Fin y" "1 \<le> y" using f_of_word_pos by blast
  have "f_of_word (mr_total r - mr_available r) \<noteq> NaN" using f_of_word_upto [of "mr_total r - mr_available r"] by (auto elim: upto_powE)
  from pct_of_pct [OF this y(1)] y(2) show ?thesis by (simp add: used_pct_def pct_of_def Let_def)
qed

lemma uint_value_fin: "to_float (uint_value x) = Some (f_of_word x)" "is_fin (f_of_word x)"
  by (simp_all add: uint_value_def to_float_def f_of_word_def upto_pow_fin [OF f_of_word_upto [unfolded f_of_word_def]])

lemma memory_declares_key:
  "declares memory_manifest goos (host_ob ''used_pct'' (VF64 v)) \<longleftrightarrow> is_fin v \<and> goos \<in> set available_platforms"
  "declares memory_manifest goos (host_ob ''available'' (uint_value x)) \<longleftrightarrow> goos \<in> set available_platforms"
  "declares memory_manifest goos (host_ob ''total'' (uint_value x))"
proof -
  have v: "uint_value x \<noteq> VNil" by (simp add: uint_value_def)
  show "declares memory_manifest goos (host_ob ''used_pct'' (VF64 v)) \<longleftrightarrow> is_fin v \<and> goos \<in> set available_platforms"
    "declares memory_manifest goos (host_ob ''available'' (uint_value x)) \<longleftrightarrow> goos \<in> set available_platforms"
    "declares memory_manifest goos (host_ob ''total'' (uint_value x))"
    using v by (simp_all add: declares_def allows_def entity_allowed_def is_host_entity_def host_obs_def memory_manifest_def memory_attr_def host_ob_def
        validate_value_def uint_value_fin collectable_def available_platforms_def) (simp add: to_float_def)
qed

definition memory_provider :: "memory_module \<times> (string + memory_reading) list \<Rightarrow> (string + observation list) \<times> memory_module \<times> (string + memory_reading) list" where
  "memory_provider s = (case s of
       (m, r # rs) \<Rightarrow> (fst (memory_collect m r), m, rs)
     | (m, []) \<Rightarrow> (fst (memory_collect m (Inl ''no reading'')), m, []))"

lemma memory_collect_declared:
  assumes "fst (memory_collect m rd) = Inr obs" "ob \<in> set obs"
  shows "declares memory_manifest (memory_goos m) ob"
proof -
  have "mr_total r \<noteq> 0 \<Longrightarrow> is_fin (used_pct r)" for r using is_pct_range [OF used_pct_pct [of r]] by fastforce
  then show ?thesis using assms
    by (auto simp: memory_collect_def Let_def memory_declares_key collectable_def available_platforms_def split: sum.splits if_splits)
qed

interpretation memory: provider memory_manifest goos memory_provider "\<lambda>s. memory_goos (fst s) = goos" "\<lambda>_. True" for goos
proof unfold_locales
  show "distinct (map a_key (m_attributes memory_manifest))" by (simp add: memory_manifest_def memory_attr_def)
next
  fix s :: "memory_module \<times> (string + memory_reading) list" and r s'
  assume "memory_goos (fst s) = goos" "memory_provider s = (r, s')"
  then show "memory_goos (fst s') = goos" by (auto simp: memory_provider_def split: prod.splits list.splits)
next
  fix s :: "memory_module \<times> (string + memory_reading) list" and obs s' ob
  assume "memory_goos (fst s) = goos" "memory_provider s = (Inr obs, s')" "ob \<in> set obs"
  then show "declares memory_manifest goos ob"
    using memory_collect_declared by (fastforce simp: memory_provider_def split: prod.splits list.splits)
qed

text \<open>
  The memory values of a reading are consistent. Every collection of a host with memory reports the
  total in whole MiB rounded down; where the platform maintains an estimate and it does not exceed the
  total, it also reports the available MiB, which are at most the total, and the used share, a
  percentage; an estimate that exceeds the total costs both and is recorded as an omission of each.
\<close>

lemma memory_consistent:
  "memory_collect m (Inr r) = (
     if uint (mr_total r) = 0 then (Inl ''memory: nothing could be read: total: total is zero'', \<lparr>om_keys = [''total''], om_reasons = [''total: total is zero'']\<rparr>)
     else let total = host_ob ''total'' (VInt GoUint64 (uint (mr_total r) div 1048576)) in
       if memory_goos m \<notin> {''linux'', ''windows''} then (Inr [total], no_omissions)
       else if uint (mr_total r) < uint (mr_available r)
       then (Inr [total], \<lparr>om_keys = [''used_pct'', ''available''], om_reasons = [''used_pct: available exceeds total'', ''available: available exceeds total'']\<rparr>)
       else (Inr [total, host_ob ''used_pct'' (VF64 (used_pct r)), host_ob ''available'' (VInt GoUint64 (uint (mr_available r) div 1048576))], no_omissions))
   \<and> (uint (mr_total r) = 0 \<or> is_pct (used_pct r))"
proof -
  have z: "mr_total r = 0 \<longleftrightarrow> uint (mr_total r) = 0" by (simp add: uint_0_iff)
  have t: "take_bit 64 (uint x) = uint x" for x :: "64 word" by transfer simp
  have d: "uint (drop_bit 20 x) = uint x div 1048576" for x :: "64 word" by (simp only: unsigned_drop_bit_eq) (simp add: drop_bit_eq_div t)
  show ?thesis using used_pct_pct [of r]
    by (auto simp: memory_collect_def z d mib_shift_def uint_value_def collectable_def available_platforms_def om_add_def om_err_def
        no_omissions_def word_less_def Let_def)
qed

end
