(* ===== verification/Disk.thy ===== *)
theory Disk
  imports Provider Goword Gotime
begin

text \<open>
  \<open>internal/module/disk\<close> and the disk half of \<open>internal/hostread\<close>: the system volume's space and inodes,
  and the throughput, operation rates and busy share of the physical disks between two readings of
  cumulative counters. gopsutil, the clock, the deadline, the pause and \<open>%q\<close> are the fields of the reader.
\<close>

unbundle bit_operations_syntax

section \<open>Readings\<close>

record volume_usage =
  vu_path :: string
  vu_total :: u64
  vu_used :: u64
  vu_available :: u64
  vu_inodes_total :: u64
  vu_inodes_free :: u64

datatype device_kind = KindDisk | KindPartition | KindVirtual | KindVolume

record disk_counters =
  io_name :: string
  io_kind :: device_kind
  io_read_bytes :: u64
  io_write_bytes :: u64
  io_read_ops :: u64
  io_write_ops :: u64
  io_busy :: u64

text \<open>\<open>hostread.Disk\<close> over gopsutil's answers; \<open>dir\<close> tells whether a path of \<open>/sys/block\<close> exists.\<close>

definition classify_linux :: "(string \<Rightarrow> bool) \<Rightarrow> string \<Rightarrow> device_kind" where
  "classify_linux dir name = (if \<not> dir name then KindPartition
     else if dir (name @ ''/device'') then KindDisk else KindVirtual)"

definition read_usage :: "string \<Rightarrow> string + volume_usage option \<Rightarrow> string + volume_usage" where
  "read_usage path r = (case r of
       Inl e \<Rightarrow> Inl (''usage of '' @ path @ '': '' @ e)
     | Inr None \<Rightarrow> Inl (''usage of '' @ path @ '': no reading'')
     | Inr (Some u) \<Rightarrow> Inr (u\<lparr>vu_path := path\<rparr>))"

definition read_counters :: "(string \<Rightarrow> device_kind) \<Rightarrow> string + (string, disk_counters) gomap \<Rightarrow> string + disk_counters list" where
  "read_counters kind r = (case r of
       Inl e \<Rightarrow> Inl (''disk counters: '' @ e)
     | Inr m \<Rightarrow> Inr (sort_key io_name (map (\<lambda>(name, c). c\<lparr>io_name := name, io_kind := kind name\<rparr>) m)))"

record 'w disk_reader =
  dk_usage :: "string \<Rightarrow> 'w \<Rightarrow> (string + volume_usage) \<times> 'w"
  dk_counters :: "'w \<Rightarrow> (string + disk_counters list) \<times> 'w"
  dk_windows_dir :: "'w \<Rightarrow> (string + string) \<times> 'w"
  dk_dir_exists :: "string \<Rightarrow> 'w \<Rightarrow> bool \<times> 'w"
  dk_now :: "'w \<Rightarrow> int"
  dk_left :: "'w \<Rightarrow> int option"
  dk_sleep :: "int \<Rightarrow> 'w \<Rightarrow> bool \<times> 'w"
  dk_quote :: "string \<Rightarrow> string"

section \<open>The module\<close>

definition linux_only :: "string list" where
  "linux_only = [''linux'']"

record io_reading =
  rd_at :: int
  rd_dev :: "(string, disk_counters) gomap"

record disk_module =
  dkm_goos :: string
  dkm_runtime_goos :: string
  dkm_prime :: int
  dkm_last :: "io_reading option"
  dkm_noticed :: bool

definition disk_interval :: int where
  "disk_interval = 30 * nano"

definition disk_default_prime :: int where
  "disk_default_prime = 250000000"

definition disk_prime_slack :: int where
  "disk_prime_slack = 50000000"

definition disk_prime :: "disk_module \<Rightarrow> int" where
  "disk_prime m = (if 0 < dkm_prime m then dkm_prime m else disk_default_prime)"

definition disk_goos :: "disk_module \<Rightarrow> string" where
  "disk_goos m = (if dkm_goos m \<noteq> [] then dkm_goos m else dkm_runtime_goos m)"

definition disk_attr :: "string \<Rightarrow> string \<Rightarrow> string \<Rightarrow> kind \<Rightarrow> string \<Rightarrow> string list \<Rightarrow> mattribute" where
  "disk_attr key slug name k desc platforms = \<lparr>a_key = key, a_name = name, a_slug = slug, a_kind = k, a_desc = desc,
     a_options = [], a_template = [], a_target = [], a_label = 0, a_platforms = platforms\<rparr>"

definition disk_manifest :: manifest where
  "disk_manifest = \<lparr>m_module = ''disk'', m_templates = [], m_attributes = [
     disk_attr ''root_used_pct'' ''disk_root_used_pct'' ''System volume used'' KindMetric
       ''Percent of the system volume in use, as df computes it'' [],
     disk_attr ''root_available'' ''disk_root_available_gib'' ''System volume available'' KindMetric
       ''Space on the system volume an unprivileged program can still write, in GiB'' [],
     disk_attr ''root_total'' ''disk_root_total_gib'' ''System volume size'' KindNumber ''Size of the system volume, in GiB'' [],
     disk_attr ''root_inodes_used_pct'' ''disk_root_inodes_used_pct'' ''System volume inodes used'' KindMetric
       ''Percent of the system volume's inodes in use'' linux_only,
     disk_attr ''read_mibps'' ''disk_read_mibps'' ''Disk read throughput'' KindMetric
       ''Bytes read from the physical disks per second, in MiB/s'' [],
     disk_attr ''write_mibps'' ''disk_write_mibps'' ''Disk write throughput'' KindMetric
       ''Bytes written to the physical disks per second, in MiB/s'' [],
     disk_attr ''read_iops'' ''disk_read_iops'' ''Disk read operations'' KindMetric
       ''Read operations completed by the physical disks per second'' [],
     disk_attr ''write_iops'' ''disk_write_iops'' ''Disk write operations'' KindMetric
       ''Write operations completed by the physical disks per second'' [],
     disk_attr ''busy_pct'' ''disk_busy_pct'' ''Busiest disk utilisation'' KindMetric
       ''Percent of wall time the busiest physical disk had I/O in progress'' linux_only]\<rparr>"

definition space_keys :: "bool \<Rightarrow> string list" where
  "space_keys with_inodes = [''root_used_pct'', ''root_available'', ''root_total''] @ (if with_inodes then [''root_inodes_used_pct''] else [])"

definition io_keys :: "bool \<Rightarrow> string list" where
  "io_keys with_busy = [''read_mibps'', ''write_mibps'', ''read_iops'', ''write_iops''] @ (if with_busy then [''busy_pct''] else [])"

definition add_all :: "string \<Rightarrow> string list \<Rightarrow> omissions \<Rightarrow> omissions" where
  "add_all e keys om = foldl (\<lambda>om k. om_add k e om) om keys"

section \<open>Space\<close>

definition mac_data_volume :: string where
  "mac_data_volume = ''/System/Volumes/Data''"

definition err_no_drive :: string where "err_no_drive = ''no drive letter''"

definition err_empty_volume :: string where "err_empty_volume = ''volume reports no size''"

definition err_inodes_inconsistent :: string where "err_inodes_inconsistent = ''free inodes exceed total''"

definition err_no_devices :: string where "err_no_devices = ''no disk counters to count''"

definition drive_root :: "(string \<Rightarrow> string) \<Rightarrow> string \<Rightarrow> string + string" where
  "drive_root quote dir = (case dir of
       c # d # _ \<Rightarrow> if d = CHR '':'' \<and> 97 \<le> (byte c OR 32) \<and> (byte c OR 32) \<le> 122 then Inr [upper_byte c, CHR '':'', CHR 0x5C]
                   else Inl (''windows directory '' @ quote dir @ '': '' @ err_no_drive)
     | _ \<Rightarrow> Inl (''windows directory '' @ quote dir @ '': '' @ err_no_drive))"

definition system_volume :: "'w disk_reader \<Rightarrow> string \<Rightarrow> 'w \<Rightarrow> (string + string) \<times> 'w" where
  "system_volume rd goos w = (
     if goos = ''windows'' then (case dk_windows_dir rd w of
         (Inl e, w1) \<Rightarrow> (Inl e, w1)
       | (Inr dir, w1) \<Rightarrow> (drive_root (dk_quote rd) dir, w1))
     else if goos = ''darwin'' then (case dk_dir_exists rd mac_data_volume w of
         (ex, w1) \<Rightarrow> (Inr (if ex then mac_data_volume else ''/''), w1))
     else (Inr ''/'', w))"

definition hundredths :: "u64 \<Rightarrow> u64" where
  "hundredths b = (b div 1073741824) * 100 + (b mod 1073741824) * 100 div 1073741824"

definition floor_gib2 :: "u64 \<Rightarrow> f64" where
  "floor_gib2 b = fdiv (f_of_word (hundredths b)) (Fin 100)"

definition disk_pct :: "f64 \<Rightarrow> f64 \<Rightarrow> f64" where
  "disk_pct part whole = round2 (fmin (fmax (fmul (fdiv part whole) (Fin 100)) (Fin 0)) (Fin 100))"

text \<open>The observations, the omissions and the module, whose notice about inodes is given once.\<close>

definition space :: "volume_usage \<Rightarrow> bool \<Rightarrow> omissions \<Rightarrow> disk_module \<Rightarrow> observation list \<times> omissions \<times> disk_module" where
  "space u with_inodes om m = (
     let empty = (vu_total u = 0 \<or> vu_used u + vu_available u = 0);
         obs = (if empty then [] else [
           host_ob ''root_used_pct'' (VF64 (disk_pct (f_of_word (vu_used u)) (f_of_word (vu_used u + vu_available u)))),
           host_ob ''root_available'' (VF64 (floor_gib2 (vu_available u))),
           host_ob ''root_total'' (VF64 (floor_gib2 (vu_total u)))]);
         om1 = (if empty then add_all err_empty_volume (space_keys False) om else om)
     in if \<not> with_inodes then (obs, om1, m)
        else if vu_inodes_total u = 0 then (obs, om1, m\<lparr>dkm_noticed := True\<rparr>)
        else if vu_inodes_total u < vu_inodes_free u then (obs, om_add ''root_inodes_used_pct'' err_inodes_inconsistent om1, m)
        else (obs @ [host_ob ''root_inodes_used_pct''
                (VF64 (disk_pct (f_of_word (vu_inodes_total u - vu_inodes_free u)) (f_of_word (vu_inodes_total u))))], om1, m))"

section \<open>Rates\<close>

definition counted :: "device_kind \<Rightarrow> bool" where
  "counted k \<longleftrightarrow> k = KindDisk \<or> k = KindVolume"

definition read_io :: "'w disk_reader \<Rightarrow> 'w \<Rightarrow> (string + io_reading) \<times> 'w" where
  "read_io rd w = (case dk_counters rd w of
       (Inl e, w1) \<Rightarrow> (Inl e, w1)
     | (Inr cs, w1) \<Rightarrow> (Inr \<lparr>rd_at = dk_now rd w1,
         rd_dev = foldl (\<lambda>m c. if counted (io_kind c) then gm_put (io_name c) c m else m) [] cs\<rparr>, w1))"

definition common :: "io_reading \<Rightarrow> io_reading \<Rightarrow> (disk_counters \<times> disk_counters) list" where
  "common prev cur = concat (map (\<lambda>(name, c). case gm_get (rd_dev prev) name of None \<Rightarrow> [] | Some p \<Rightarrow> [(p, c)]) (rd_dev cur))"

text \<open>The increase of one counter over the devices, in 64 bits, unless it went backwards on one of them.\<close>

definition delta :: "(disk_counters \<times> disk_counters) list \<Rightarrow> (disk_counters \<Rightarrow> u64) \<Rightarrow> u64 option" where
  "delta ds f = (if list_ex (\<lambda>(p, c). f c < f p) ds then None else Some (sum_list (map (\<lambda>(p, c). f c - f p) ds)))"

definition secs_of :: "int \<Rightarrow> f64" where
  "secs_of d = fadd (f_of_int (d div nano)) (fdiv (f_of_int (d mod nano)) (Fin 1000000000))"

definition rate_ob :: "(disk_counters \<times> disk_counters) list \<Rightarrow> f64 \<Rightarrow> string \<Rightarrow> (disk_counters \<Rightarrow> u64) \<Rightarrow> rat \<Rightarrow> observation list" where
  "rate_ob ds secs key f scale = (case delta ds f of
       None \<Rightarrow> []
     | Some d \<Rightarrow> [host_ob key (VF64 (round2 (fdiv (fdiv (f_of_word d) (Fin scale)) secs)))])"

definition busiest :: "(disk_counters \<times> disk_counters) list \<Rightarrow> u64 option" where
  "busiest ds = (if list_ex (\<lambda>(p, c). io_busy c < io_busy p) ds then None
     else Some (foldl (\<lambda>b (p, c). max b (io_busy c - io_busy p)) 0 ds))"

definition busy_ob :: "(disk_counters \<times> disk_counters) list \<Rightarrow> int \<Rightarrow> observation list" where
  "busy_ob ds elapsed = (case busiest ds of
       None \<Rightarrow> []
     | Some b \<Rightarrow> [host_ob ''busy_pct'' (VF64 (disk_pct (f_of_word b) (f_of_int (elapsed div 1000000))))])"

text \<open>\<open>Time.Sub\<close> saturates at the range of a duration.\<close>

definition time_sub :: "int \<Rightarrow> int \<Rightarrow> int" where
  "time_sub a b = max (- (2 ^ 63)) (min (2 ^ 63 - 1) (a - b))"

definition rates :: "io_reading \<Rightarrow> io_reading \<Rightarrow> bool \<Rightarrow> string + observation list" where
  "rates prev cur with_busy = (let ds = common prev cur; elapsed = time_sub (rd_at cur) (rd_at prev); secs = secs_of elapsed in
     if ds = [] then Inl err_no_devices
     else if elapsed \<le> 0 then Inr []
     else Inr (rate_ob ds secs ''read_mibps'' io_read_bytes 1048576 @ rate_ob ds secs ''write_mibps'' io_write_bytes 1048576
       @ rate_ob ds secs ''read_iops'' io_read_ops 1 @ rate_ob ds secs ''write_iops'' io_write_ops 1
       @ (if with_busy then busy_ob ds elapsed else [])))"

definition disk_can_prime :: "'w disk_reader \<Rightarrow> disk_module \<Rightarrow> 'w \<Rightarrow> bool" where
  "disk_can_prime rd m w = (case dk_left rd w of None \<Rightarrow> True | Some left \<Rightarrow> disk_prime m + disk_prime_slack \<le> left)"

definition device_names :: "io_reading \<Rightarrow> string list" where
  "device_names r = gm_keys (rd_dev r)"

definition disk_io :: "'w disk_reader \<Rightarrow> disk_module \<Rightarrow> bool \<Rightarrow> 'w \<Rightarrow> (string + observation list) \<times> string list \<times> disk_module \<times> 'w" where
  "disk_io rd m with_busy w = (case read_io rd w of
       (Inl e, w1) \<Rightarrow> (Inl e, [], m, w1)
     | (Inr cur, w1) \<Rightarrow> (case dkm_last m of
           Some prev \<Rightarrow> (rates prev cur with_busy, device_names cur, m\<lparr>dkm_last := Some cur\<rparr>, w1)
         | None \<Rightarrow>
             if \<not> disk_can_prime rd m w1 then (Inr [], device_names cur, m\<lparr>dkm_last := Some cur\<rparr>, w1)
             else (case dk_sleep rd (disk_prime m) w1 of
                 (False, w2) \<Rightarrow> (Inr [], device_names cur, m\<lparr>dkm_last := Some cur\<rparr>, w2)
               | (True, w2) \<Rightarrow> (case read_io rd w2 of
                     (Inl e, w3) \<Rightarrow> (Inr [], device_names cur, m\<lparr>dkm_last := Some cur\<rparr>, w3)
                   | (Inr next, w3) \<Rightarrow> (rates cur next with_busy, device_names next, m\<lparr>dkm_last := Some next\<rparr>, w3)))))"

section \<open>Collecting\<close>

definition disk_collect :: "'w disk_reader \<Rightarrow> disk_module \<Rightarrow> 'w \<Rightarrow> (string + observation list) \<times> omissions \<times> disk_module \<times> 'w" where
  "disk_collect rd m w = (
     let goos = disk_goos m; with_linux = collectable linux_only goos;
         (path, w1) = system_volume rd goos w;
         (u, w2) = (case path of Inl e \<Rightarrow> (Inl e, w1) | Inr p \<Rightarrow> dk_usage rd p w1);
         (obs, om, m1) = (case u of
             Inl e \<Rightarrow> ([], add_all e (space_keys with_linux) no_omissions, m)
           | Inr v \<Rightarrow> space v with_linux no_omissions m);
         (r, devices, m2, w3) = disk_io rd m1 with_linux w2;
         obs2 = obs @ (case r of Inl e \<Rightarrow> [] | Inr os \<Rightarrow> os);
         om2 = (case r of Inl e \<Rightarrow> add_all e (io_keys with_linux) om | Inr os \<Rightarrow> om)
     in (if obs2 = [] then Inl (om_err om2 ''disk'') else Inr obs2, om2, m2, w3))"

section \<open>Values in range\<close>

lemma seconds_pos:
  assumes "0 < d" "d < 2 ^ 63"
  shows "\<exists>y. secs_of d = Fin y \<and> 2 powi (- 30) \<le> y"
proof -
  define s where "s = d div nano"
  define n where "n = d mod nano"
  have d: "d = s * nano + n" "0 \<le> n" "n < nano" "0 \<le> s" using assms(1) by (simp_all add: s_def n_def nano_def pos_imp_zdiv_nonneg_iff)
  note e = powi_30
  have "s \<le> d" using d by (simp add: nano_def)
  then have s63: "s \<le> 2 ^ 53" using assms d(1,2) unfolding nano_def by simp
  have fs: "f_of_int s = Fin (of_int s)" using rnd_nonneg_int [OF d(4) s63] by (simp add: f_of_int_def)
  have fn: "f_of_int n = Fin (of_int n)" using rnd_nonneg_int [OF d(2)] d(3) by (simp add: f_of_int_def nano_def)
  let ?q = "of_int n / 1000000000 :: rat"
  have q: "0 \<le> ?q" "?q \<le> 2 ^ 0" using d(2,3) by (simp_all add: nano_def)
  obtain r where r: "rnd ?q = Fin r" "0 \<le> r" "r \<le> 1" using rnd_upto [OF q] by auto
  have secs: "secs_of d = rnd (of_int s + r)" by (simp add: secs_of_def s_def [symmetric] n_def [symmetric] fs fn fdiv_def r)
  show ?thesis
  proof (cases "s = 0")
    case True
    then have "1 \<le> n" using assms(1) d by simp
    then have "2 powi (- 30) \<le> ?q" unfolding e by (simp add: field_simps)
    then have r30: "2 powi (- 30) \<le> r" using rnd_at_least [OF _ _ r(1)] q(2) by simp
    obtain y where y: "rnd r = Fin y" using rnd_upto [of r 0] r by auto
    have "2 powi (- 30) \<le> y" by (rule rnd_at_least [OF r30 r(3) y])
    then show ?thesis using y secs True by simp
  next
    case False
    then have one: "1 \<le> of_int s + r" using d(4) r(2) by (simp add: add_increasing2)
    have "(of_int s :: rat) \<le> of_int (2 ^ 53)" using s63 by (simp only: of_int_le_iff)
    then have "of_int s + r \<le> 2 ^ 54" using r(3) by simp
    then obtain y where y: "rnd (of_int s + r) = Fin y" using rnd_upto [of "of_int s + r" 54] one by auto
    have "1 \<le> y" by (rule rnd_ge_one [OF one y])
    then show ?thesis using y secs unfolding e by (intro exI [of _ y]) (simp add: order_trans [of _ 1])
  qed
qed

lemma rate_fin:
  assumes "0 < d" "d < 2 ^ 63" "1 \<le> scale" "ob \<in> set (rate_ob ds (secs_of d) key f scale)"
  shows "\<exists>v. ob = host_ob key (VF64 v) \<and> is_fin v"
proof -
  obtain y where y: "secs_of d = Fin y" "2 powi (- 30) \<le> y" using seconds_pos [OF assms(1,2)] by blast
  have "is_fin (round2 (fdiv (fdiv (f_of_word x) (Fin scale)) (Fin y)))" for x
    by (rule round2_upto [OF fdiv_upto [OF fdiv_upto_one [OF f_of_word_upto assms(3)] y(2)]]) simp_all
  then show ?thesis using assms(4) y(1) by (auto simp: rate_ob_def split: option.splits)
qed

lemma disk_pct_of: "disk_pct = pct_of"
  by (intro ext) (simp add: disk_pct_def pct_of_def)

lemma disk_pct_ok: "whole = Fin y \<Longrightarrow> y \<noteq> 0 \<Longrightarrow> is_pct (disk_pct (f_of_word x) whole)"
  unfolding disk_pct_of using f_of_word_upto [of x] by (intro pct_of_pct) (auto simp: upto_pow_def)

lemma busy_pct:
  assumes "1000000 \<le> d" "d < 2 ^ 63" "ob \<in> set (busy_ob ds d)"
  shows "\<exists>v. ob = host_ob ''busy_pct'' (VF64 v) \<and> is_pct v"
proof -
  have one: "1 \<le> d div 1000000" using zdiv_mono1 [of 1000000 d 1000000] assms(1) by simp
  have "d div 1000000 \<le> 2 ^ 63 div 1000000" using assms(2) by (intro zdiv_mono1) simp_all
  then have "d div 1000000 \<le> 2 ^ 53" by simp
  with one have "f_of_int (d div 1000000) = Fin (of_int (d div 1000000))" using rnd_nonneg_int [of "d div 1000000"] by (simp add: f_of_int_def)
  moreover have "(of_int (d div 1000000) :: rat) \<noteq> 0" using one by (simp only: of_int_eq_0_iff)
  ultimately have "is_pct (disk_pct (f_of_word b) (f_of_int (d div 1000000)))" for b by (rule disk_pct_ok)
  then show ?thesis using assms(3) by (auto simp: busy_ob_def split: option.splits)
qed

text \<open>A busy share over less than a millisecond divides by zero.\<close>

lemma busy_under_a_millisecond:
  assumes "0 < d" "d < 1000000" "io_busy c = io_busy p"
  shows "busy_ob [(p, c)] d = [host_ob ''busy_pct'' (VF64 NaN)]"
proof -
  have "d div 1000000 = 0" using assms by simp
  then show ?thesis using assms(3)
    by (simp add: busy_ob_def busiest_def disk_pct_def f_of_word_def f_of_int_def fdiv_def inf_sgn_def fmul_def fmax_def fmin_def round2_def math_round_def)
qed

text \<open>
  Sizes are rounded down exactly. For every byte count the 64-bit arithmetic does not wrap and gives the
  hundredths of a GiB below it: no size is shown larger than it is, and less than a hundredth of a GiB
  is lost.\<close>

lemma gib_exact: "uint (hundredths b) = (uint b * 100) div 2 ^ 30 \<and> uint (hundredths b) * 2 ^ 30 \<le> uint b * 100
  \<and> uint b * 100 < (uint (hundredths b) + 1) * 2 ^ 30"
proof -
  let ?q = "uint b div 1073741824" and ?r = "uint b mod 1073741824"
  have b: "0 \<le> uint b" "uint b < 2 ^ 64" using uint_lt2p [of b] by simp_all
  have "?q \<le> (2 ^ 64 - 1) div 1073741824" using b by (intro zdiv_mono1) simp_all
  then have q: "0 \<le> ?q" "?q < 17179869184" "0 \<le> ?r" "?r < 1073741824"
    using pos_imp_zdiv_nonneg_iff [of 1073741824 "uint b"] b by simp_all
  have n: "uint (1073741824 :: u64) = 1073741824" "uint (100 :: u64) = 100" by simp_all
  have small: "x mod 2 ^ 64 = x" if "0 \<le> x" "x < 2 ^ 64" for x :: int using that by simp
  have q1: "uint (b div 1073741824 * 100) = ?q * 100"
    using q by (simp add: uint_word_ariths uint_div n small)
  have r1: "uint (b mod 1073741824 * 100) = ?r * 100"
    using q by (simp add: uint_word_ariths uint_mod n small)
  have "?r * 100 div 1073741824 \<le> (1073741824 * 100) div 1073741824" using q by (intro zdiv_mono1) simp_all
  then have "0 \<le> ?r * 100 div 1073741824" "?r * 100 div 1073741824 \<le> 100"
    using pos_imp_zdiv_nonneg_iff [of 1073741824 "?r * 100"] q by simp_all
  then have h: "uint (hundredths b) = ?q * 100 + ?r * 100 div 1073741824"
    using q by (simp add: hundredths_def uint_word_ariths(1) q1 uint_div r1 n small)
  have "uint b * 100 = ?q * 100 * 1073741824 + ?r * 100" using mult_div_mod_eq [of 1073741824 "uint b"] by linarith
  then have "uint b * 100 div 1073741824 = ?q * 100 + ?r * 100 div 1073741824" by simp
  then have e: "uint (hundredths b) = uint b * 100 div 1073741824" using h by simp
  have "k * (x div k) \<le> x \<and> x < k * (x div k) + k" if "0 < k" for x k :: int
    using pos_mod_bound [OF that, of x] pos_mod_sign [OF that, of x] mult_div_mod_eq [of k x] by (intro conjI) linarith+
  note between = this [of 1073741824 "uint b * 100"]
  define x where "x = uint b * 100"
  have p: "(2::int) ^ 30 = 1073741824" by simp
  have "1073741824 * (x div 1073741824) \<le> x \<and> x < 1073741824 * (x div 1073741824) + 1073741824" using between by (simp add: x_def)
  moreover have "(q + 1) * (1073741824 :: int) = 1073741824 * q + 1073741824" for q by simp
  ultimately have "(x div 1073741824) * 1073741824 \<le> x \<and> x < (x div 1073741824 + 1) * 1073741824"
    by (metis mult.commute)
  then show ?thesis unfolding e p x_def [symmetric] by blast
qed

section \<open>The baseline\<close>

definition devices_ok :: "(string, disk_counters) gomap \<Rightarrow> bool" where
  "devices_ok m \<longleftrightarrow> gm_ok m \<and> (\<forall>n c. gm_get m n = Some c \<longrightarrow> io_name c = n \<and> counted (io_kind c))"

lemma devices_ok_put: "devices_ok m \<Longrightarrow> devices_ok (if counted (io_kind c) then gm_put (io_name c) c m else m)"
  by (simp add: devices_ok_def)

lemma devices_ok_fold: "devices_ok m \<Longrightarrow> devices_ok (foldl (\<lambda>m c. if counted (io_kind c) then gm_put (io_name c) c m else m) m cs)"
  by (induction cs arbitrary: m) (simp_all only: foldl.simps devices_ok_put)

definition reading_ok :: "io_reading \<Rightarrow> bool" where
  "reading_ok r \<longleftrightarrow> devices_ok (rd_dev r)"

lemma read_io_ok: "read_io rd w = (Inr r, w') \<Longrightarrow> reading_ok r"
proof -
  assume r: "read_io rd w = (Inr r, w')"
  obtain cs where "rd_dev r = foldl (\<lambda>m c. if counted (io_kind c) then gm_put (io_name c) c m else m) [] cs"
    using r by (auto simp: read_io_def split: prod.splits sum.splits)
  moreover have "devices_ok []" by (simp add: devices_ok_def)
  ultimately show ?thesis by (simp add: reading_ok_def devices_ok_fold)
qed

text \<open>The time between the two readings whose rates a call reports, if it takes two.\<close>

definition disk_window :: "'w disk_reader \<Rightarrow> disk_module \<Rightarrow> 'w \<Rightarrow> int option" where
  "disk_window rd m w = (case read_io rd w of
       (Inl e, w1) \<Rightarrow> None
     | (Inr cur, w1) \<Rightarrow> (case dkm_last m of
           Some prev \<Rightarrow> Some (rd_at cur - rd_at prev)
         | None \<Rightarrow> if \<not> disk_can_prime rd m w1 then None
             else (case dk_sleep rd (disk_prime m) w1 of
                 (False, w2) \<Rightarrow> None
               | (True, w2) \<Rightarrow> (case read_io rd w2 of (Inl e, w3) \<Rightarrow> None | (Inr nxt, w3) \<Rightarrow> Some (rd_at nxt - rd_at cur)))))"

text \<open>What the two readings must agree on for their rates to be reported, and what is reported then.\<close>

definition io_value_ok :: "int \<Rightarrow> bool \<Rightarrow> observation \<Rightarrow> bool" where
  "io_value_ok elapsed with_busy ob \<longleftrightarrow> (\<exists>v. (\<exists>key \<in> {''read_mibps'', ''write_mibps'', ''read_iops'', ''write_iops''}. ob = host_ob key (VF64 v)) \<and> is_fin v
     \<or> with_busy \<and> ob = host_ob ''busy_pct'' (VF64 v) \<and> (1000000 \<le> elapsed \<longrightarrow> is_pct v))"

lemma busy_ob_shape: "ob \<in> set (busy_ob ds d) \<Longrightarrow> \<exists>v. ob = host_ob ''busy_pct'' (VF64 v)"
  by (auto simp: busy_ob_def split: option.splits)

lemma rates_ok:
  assumes "rates prev cur with_busy = Inr obs"
  shows "common prev cur \<noteq> [] \<and> (obs \<noteq> [] \<longrightarrow> rd_at prev < rd_at cur) \<and> (\<forall>ob \<in> set obs. io_value_ok (rd_at cur - rd_at prev) with_busy ob)"
proof (cases "rd_at prev < rd_at cur")
  case False
  then have "time_sub (rd_at cur) (rd_at prev) \<le> 0" by (simp add: time_sub_def)
  then show ?thesis using assms by (auto simp: rates_def Let_def split: if_splits)
next
  case True
  let ?d = "time_sub (rd_at cur) (rd_at prev)"
  have d: "0 < ?d" "?d < 2 ^ 63" using True by (simp_all add: time_sub_def)
  have busy: "\<exists>v. ob = host_ob ''busy_pct'' (VF64 v) \<and> (1000000 \<le> rd_at cur - rd_at prev \<longrightarrow> is_pct v)"
    if o: "ob \<in> set (busy_ob (common prev cur) ?d)" for ob
  proof (cases "1000000 \<le> rd_at cur - rd_at prev")
    case True
    then have "1000000 \<le> ?d" by (simp add: time_sub_def)
    then show ?thesis using busy_pct [OF _ d(2) o] by blast
  next
    case False
    then show ?thesis using busy_ob_shape [OF o] by blast
  qed
  let ?rate = "rate_ob (common prev cur) (secs_of ?d)"
  have rate: "io_value_ok (rd_at cur - rd_at prev) with_busy ob"
    if o: "ob \<in> set (?rate key f scale)" and "1 \<le> scale" "key \<in> {''read_mibps'', ''write_mibps'', ''read_iops'', ''write_iops''}" for ob key f scale
    using rate_fin [OF d that(2) o] that(3) unfolding io_value_ok_def by blast
  have obs: "obs = ?rate ''read_mibps'' io_read_bytes 1048576 @ ?rate ''write_mibps'' io_write_bytes 1048576
       @ ?rate ''read_iops'' io_read_ops 1 @ ?rate ''write_iops'' io_write_ops 1
       @ (if with_busy then busy_ob (common prev cur) ?d else [])"
    using assms d(1) by (auto simp: rates_def Let_def split: if_splits)
  have "io_value_ok (rd_at cur - rd_at prev) with_busy ob" if "ob \<in> set obs" for ob
  proof -
    from that obs consider "ob \<in> set (?rate ''read_mibps'' io_read_bytes 1048576)" | "ob \<in> set (?rate ''write_mibps'' io_write_bytes 1048576)"
      | "ob \<in> set (?rate ''read_iops'' io_read_ops 1)" | "ob \<in> set (?rate ''write_iops'' io_write_ops 1)"
      | (share) "with_busy" "ob \<in> set (busy_ob (common prev cur) ?d)"
      by (auto split: if_splits)
    then show ?thesis
    proof cases
      case share
      then show ?thesis using busy [OF share(2)] unfolding io_value_ok_def by blast
    qed (erule rate, simp, simp)+
  qed
  moreover have "common prev cur \<noteq> []" using assms by (auto simp: rates_def Let_def)
  ultimately show ?thesis using True by blast
qed

text \<open>
  The rates of the disks are measured between two readings. A failed reading leaves the baseline alone and
  any other call makes the newest reading the baseline, with nothing but whole disks and Windows volumes
  in it; what it reports are the rates between that reading and the one before it, taken later than it,
  over devices that both hold; every rate is a finite number, and the busy share is a percentage when the
  readings are at least a millisecond apart.\<close>

lemma disk_measured:
  assumes "disk_io rd m with_busy w = (r, devs, m', w')" "pred_option reading_ok (dkm_last m)"
  shows "m' = m \<and> (\<exists>e. r = Inl e) \<or> (\<exists>cur. m' = m\<lparr>dkm_last := Some cur\<rparr> \<and> devs = device_names cur \<and> reading_ok cur
        \<and> (\<forall>obs. r = Inr obs \<longrightarrow> obs \<noteq> [] \<longrightarrow> (\<exists>prev. (dkm_last m = Some prev \<or> dkm_last m = None) \<and> reading_ok prev \<and> rates prev cur with_busy = Inr obs
              \<and> disk_window rd m w = Some (rd_at cur - rd_at prev)
              \<and> rd_at prev < rd_at cur \<and> (\<forall>ob \<in> set obs. io_value_ok (rd_at cur - rd_at prev) with_busy ob))))"
proof -
  have made: ?thesis if m': "m' = m\<lparr>dkm_last := Some c\<rparr>" and d: "devs = device_names c" and c: "reading_ok c"
      and rs: "\<And>obs. r = Inr obs \<Longrightarrow> obs \<noteq> [] \<Longrightarrow> (dkm_last m = Some p \<or> dkm_last m = None) \<and> reading_ok p \<and> rates p c with_busy = Inr obs
        \<and> disk_window rd m w = Some (rd_at c - rd_at p)" for c p
  proof -
    have "\<forall>obs. r = Inr obs \<longrightarrow> obs \<noteq> [] \<longrightarrow> (\<exists>prev. (dkm_last m = Some prev \<or> dkm_last m = None) \<and> reading_ok prev
        \<and> rates prev c with_busy = Inr obs \<and> disk_window rd m w = Some (rd_at c - rd_at prev)
        \<and> rd_at prev < rd_at c \<and> (\<forall>ob \<in> set obs. io_value_ok (rd_at c - rd_at prev) with_busy ob))"
      using rs rates_ok by blast
    then show ?thesis using m' d c by blast
  qed
  obtain r1 w1 where one: "read_io rd w = (r1, w1)" by (metis surj_pair)
  show ?thesis
  proof (cases r1)
    case (Inl e)
    then show ?thesis using assms(1) one by (auto simp: disk_io_def)
  next
    case (Inr cur)
    note ok = read_io_ok [OF one [unfolded Inr]]
    show ?thesis
    proof (cases "dkm_last m")
      case (Some prev)
      then have p: "reading_ok prev" using assms(2) by simp
      show ?thesis using assms(1) one Inr Some ok p by (intro made [of cur prev]) (auto simp: disk_io_def disk_window_def)
    next
      case None
      show ?thesis
      proof (cases "\<exists>w2 next w3. disk_can_prime rd m w1 \<and> dk_sleep rd (disk_prime m) w1 = (True, w2) \<and> read_io rd w2 = (Inr next, w3)")
        case False
        then have "r = Inr []" "m' = m\<lparr>dkm_last := Some cur\<rparr>" "devs = device_names cur"
          using assms(1) one Inr None by (auto simp: disk_io_def split: prod.splits bool.splits if_splits sum.splits)
        then show ?thesis using ok by (intro made [of cur cur]) simp_all
      next
        case True
        then obtain w2 nxt w3 where two: "disk_can_prime rd m w1" "dk_sleep rd (disk_prime m) w1 = (True, w2)" "read_io rd w2 = (Inr nxt, w3)" by blast
        note ok2 = read_io_ok [OF two(3)]
        have "r = rates cur nxt with_busy" "m' = m\<lparr>dkm_last := Some nxt\<rparr>" "devs = device_names nxt"
            "disk_window rd m w = Some (rd_at nxt - rd_at cur)"
          using assms(1) one Inr None two by (simp_all add: disk_io_def disk_window_def)
        then show ?thesis using None ok ok2 by (intro made [of nxt cur]) simp_all
      qed
    qed
  qed
qed

section \<open>The contract\<close>

lemmas disk_declares = declares_def allows_def entity_allowed_def is_host_entity_def host_obs_def disk_manifest_def disk_attr_def
  host_ob_def validate_value_def to_float_def collectable_def linux_only_def

lemma disk_declares_key:
  "declares disk_manifest goos (host_ob ''root_used_pct'' (VF64 v)) \<longleftrightarrow> is_fin v"
  "declares disk_manifest goos (host_ob ''root_available'' (VF64 v)) \<longleftrightarrow> is_fin v"
  "declares disk_manifest goos (host_ob ''root_total'' (VF64 v)) \<longleftrightarrow> is_fin v"
  "declares disk_manifest goos (host_ob ''root_inodes_used_pct'' (VF64 v)) \<longleftrightarrow> is_fin v \<and> goos = ''linux''"
  "declares disk_manifest goos (host_ob ''read_mibps'' (VF64 v)) \<longleftrightarrow> is_fin v"
  "declares disk_manifest goos (host_ob ''write_mibps'' (VF64 v)) \<longleftrightarrow> is_fin v"
  "declares disk_manifest goos (host_ob ''read_iops'' (VF64 v)) \<longleftrightarrow> is_fin v"
  "declares disk_manifest goos (host_ob ''write_iops'' (VF64 v)) \<longleftrightarrow> is_fin v"
  "declares disk_manifest goos (host_ob ''busy_pct'' (VF64 v)) \<longleftrightarrow> is_fin v \<and> goos = ''linux''"
  by (simp_all add: disk_declares)

lemma is_pct_fin: "is_pct v \<Longrightarrow> is_fin v"
  using is_pct_range by fastforce

lemma floor_gib2_fin: "is_fin (floor_gib2 b)"
  unfolding floor_gib2_def by (rule upto_pow_fin [OF fdiv_upto_one [OF f_of_word_upto]]) simp_all

lemma word_pct_fin: "x \<noteq> 0 \<Longrightarrow> is_fin (disk_pct (f_of_word y) (f_of_word x))"
  using f_of_word_pos [of x] disk_pct_ok [of "f_of_word x" _ y] by (fastforce intro: is_pct_fin)

lemma space_declared:
  assumes "space u (collectable linux_only goos) om m = (obs, om', m')" "ob \<in> set obs"
  shows "declares disk_manifest goos ob"
  using assms by (auto simp: space_def Let_def disk_declares_key floor_gib2_fin word_pct_fin collectable_def linux_only_def split: if_splits)

lemma space_module: "space u b om m = (obs, om', m') \<Longrightarrow> disk_goos m' = disk_goos m \<and> dkm_last m' = dkm_last m \<and> dkm_prime m' = dkm_prime m"
  by (auto simp: space_def Let_def disk_goos_def split: if_splits)

lemma window_same: "dkm_last m' = dkm_last m \<Longrightarrow> dkm_prime m' = dkm_prime m \<Longrightarrow> disk_window rd m' w = disk_window rd m w"
proof -
  assume a: "dkm_last m' = dkm_last m" "dkm_prime m' = dkm_prime m"
  then have p: "disk_prime m' = disk_prime m" by (simp add: disk_prime_def)
  then have "disk_can_prime rd m' = disk_can_prime rd m" by (intro ext) (simp only: disk_can_prime_def)
  then show ?thesis by (simp only: disk_window_def a p)
qed

text \<open>
  A busy share is counted in whole milliseconds. Where it is reported at all, the two readings of the collection have to be a
  millisecond apart, or the share is no finite number (\<open>busy_under_a_millisecond\<close>). The readings come after the volume's.
\<close>

definition window_ok :: "string \<Rightarrow> int option \<Rightarrow> bool" where
  "window_ok goos d \<longleftrightarrow> collectable linux_only goos \<longrightarrow> pred_option (\<lambda>d. d \<le> 0 \<or> 1000000 \<le> d) d"

definition after_usage :: "'w disk_reader \<Rightarrow> string \<Rightarrow> 'w \<Rightarrow> 'w" where
  "after_usage rd goos w = (case system_volume rd goos w of (Inl e, w1) \<Rightarrow> w1 | (Inr p, w1) \<Rightarrow> snd (dk_usage rd p w1))"

definition disk_fair :: "'w disk_reader \<times> disk_module \<times> 'w \<Rightarrow> bool" where
  "disk_fair s \<longleftrightarrow> (case s of (rd, m, w) \<Rightarrow> window_ok (disk_goos m) (disk_window rd m (after_usage rd (disk_goos m) w)))"

lemma io_declared:
  assumes "0 < d" "window_ok goos (Some d)" "io_value_ok d (collectable linux_only goos) ob"
  shows "declares disk_manifest goos ob"
  using assms by (auto simp: io_value_ok_def disk_declares_key window_ok_def collectable_def linux_only_def is_pct_fin)

definition disk_inv :: "string \<Rightarrow> 'w disk_reader \<times> disk_module \<times> 'w \<Rightarrow> bool" where
  "disk_inv goos s \<longleftrightarrow> (case s of (rd, m, w) \<Rightarrow> disk_goos m = goos \<and> pred_option reading_ok (dkm_last m))"

definition disk_provider :: "'w disk_reader \<times> disk_module \<times> 'w \<Rightarrow> (string + observation list) \<times> ('w disk_reader \<times> disk_module \<times> 'w)" where
  "disk_provider s = (case s of (rd, m, w) \<Rightarrow> (case disk_collect rd m w of (r, om, m', w') \<Rightarrow> (r, (rd, m', w'))))"

lemma disk_collect_ok:
  assumes "disk_inv goos (rd, m, w)" "disk_collect rd m w = (r, om, m', w')"
  shows "disk_inv goos (rd, m', w') \<and> (disk_fair (rd, m, w) \<longrightarrow> (\<forall>obs. r = Inr obs \<longrightarrow> (\<forall>ob \<in> set obs. declares disk_manifest goos ob)))"
proof -
  from assms(1) have inv: "disk_goos m = goos" "pred_option reading_ok (dkm_last m)" by (auto simp: disk_inv_def)
  let ?l = "collectable linux_only goos"
  obtain path w1 where p: "system_volume rd goos w = (path, w1)" by (metis surj_pair)
  obtain u w2 where u: "(case path of Inl e \<Rightarrow> (Inl e, w1) | Inr p \<Rightarrow> dk_usage rd p w1) = (u, w2)" by (metis surj_pair)
  obtain obs om1 m1 where sp: "(case u of Inl e \<Rightarrow> ([], add_all e (space_keys ?l) no_omissions, m) | Inr v \<Rightarrow> space v ?l no_omissions m) = (obs, om1, m1)"
    by (metis prod_cases3)
  obtain io devs m2 w3 where io: "disk_io rd m1 ?l w2 = (io, devs, m2, w3)" by (metis prod_cases4)
  have m1: "disk_goos m1 = goos" "dkm_last m1 = dkm_last m" "dkm_prime m1 = dkm_prime m" "\<forall>ob \<in> set obs. declares disk_manifest goos ob"
    using sp inv(1) space_module space_declared by (auto split: sum.splits)
  have w2: "w2 = after_usage rd goos w" using p u by (auto simp: after_usage_def split: sum.splits)
  note f = disk_measured [OF io]
  have m2: "disk_goos m2 = goos" "pred_option reading_ok (dkm_last m2)" using f m1(1,2) inv(2) by (auto simp: disk_goos_def)
  have ios: "declares disk_manifest goos ob" if "disk_fair (rd, m, w)" "io = Inr os" "ob \<in> set os" for os ob
  proof -
    note h = that
    have "os \<noteq> []" using h by auto
    then obtain d where d: "disk_window rd m1 w2 = Some d" "0 < d" "\<forall>ob \<in> set os. io_value_ok d ?l ob"
      using f m1(2) inv(2) h(2) by auto
    then have "window_ok goos (Some d)" using h(1) w2 inv(1) window_same [OF m1(2,3), of rd w2] by (simp add: disk_fair_def)
    then show ?thesis using io_declared [OF d(2)] d(3) h(3) by blast
  qed
  have "m' = m2 \<and> (\<forall>x. r = Inr x \<longrightarrow> x = obs @ (case io of Inl e \<Rightarrow> [] | Inr os \<Rightarrow> os))"
    using assms(2) p u sp io inv(1) by (auto simp: disk_collect_def Let_def split: if_splits)
  then show ?thesis using m2 m1(4) ios by (auto simp: disk_inv_def split: sum.splits)
qed

interpretation disk: provider disk_manifest goos disk_provider "disk_inv goos" disk_fair for goos
proof unfold_locales
  show "distinct (map a_key (m_attributes disk_manifest))" by (simp add: disk_manifest_def disk_attr_def)
next
  fix s :: "'a disk_reader \<times> disk_module \<times> 'a" and r s'
  assume "disk_inv goos s" "disk_provider s = (r, s')"
  then show "disk_inv goos s'" using disk_collect_ok by (fastforce simp: disk_provider_def split: prod.splits)
next
  fix s :: "'a disk_reader \<times> disk_module \<times> 'a" and obs s' ob
  assume "disk_inv goos s" "disk_fair s" "disk_provider s = (Inr obs, s')" "ob \<in> set obs"
  then show "declares disk_manifest goos ob" using disk_collect_ok by (fastforce simp: disk_provider_def split: prod.splits)
qed

section \<open>At a concrete input\<close>

definition example_disk :: "u64 \<Rightarrow> disk_counters" where
  "example_disk n = \<lparr>io_name = ''sda'', io_kind = KindDisk, io_read_bytes = n, io_write_bytes = n, io_read_ops = n, io_write_ops = n, io_busy = 0\<rparr>"

definition example_disks :: "nat disk_reader" where
  "example_disks = \<lparr>dk_usage = (\<lambda>p w. (Inl ''down'', w)), dk_counters = (\<lambda>w. (Inr [example_disk (word_of_nat w)], Suc w)),
     dk_windows_dir = (\<lambda>w. (Inl ''none'', w)), dk_dir_exists = (\<lambda>p w. (False, w)), dk_now = (\<lambda>w. int w * 1000000007), dk_left = (\<lambda>w. None),
     dk_sleep = (\<lambda>d w. (True, w)), dk_quote = (\<lambda>s. s)\<rparr>"

definition example_disk_module :: disk_module where
  "example_disk_module = \<lparr>dkm_goos = ''linux'', dkm_runtime_goos = [], dkm_prime = 0, dkm_last = None, dkm_noticed = False\<rparr>"

lemma disk_measured_witness:
  "\<exists>r devs m' w' cur. disk_io example_disks example_disk_module True 0 = (r, devs, m', w') \<and> dkm_last m' = Some cur \<and> reading_ok cur"
proof -
  obtain r devs m' w' where run: "disk_io example_disks example_disk_module True 0 = (r, devs, m', w')" by (metis prod_cases4)
  have "\<not> (\<exists>e. r = Inl e)" using run
    by (auto simp: disk_io_def read_io_def example_disks_def example_disk_module_def disk_can_prime_def example_disk_def counted_def
        rates_def common_def gm_get_def gm_put_def time_sub_def nano_def Let_def)
  then show ?thesis using disk_measured [OF run] run by (auto simp: example_disk_module_def)
qed

end
