(* ===== verification/Hostname.thy ===== *)
theory Hostname
  imports Provider Gotime
begin

text \<open>
  \<open>internal/module/hostname\<close>: the reference value module, whose \<open>os.Hostname\<close> is an argument of the
  collection.
\<close>

definition hostname_manifest :: manifest where
  "hostname_manifest = \<lparr>m_module = ''hostname'', m_templates = [],
     m_attributes = [\<lparr>a_key = ''hostname'', a_name = ''Hostname'', a_slug = ''hostname'', a_kind = KindText,
       a_desc = ''Hostname reported by the operating system'',
       a_options = [], a_template = [], a_target = [], a_label = 2, a_platforms = []\<rparr>]\<rparr>"

definition hostname_interval :: int where
  "hostname_interval = 300 * nano"

definition hostname_collect :: "string + string \<Rightarrow> string + observation list" where
  "hostname_collect h = (case h of
       Inl e \<Rightarrow> Inl (''hostname: '' @ e)
     | Inr v \<Rightarrow> (let t = trim_space v in
         if t = [] then Inl ''hostname: hostname is empty'' else Inr [host_ob ''hostname'' (VString t)]))"

text \<open>The provider over the answers the operating system will give.\<close>

definition hostname_provider :: "(string + string) list \<Rightarrow> (string + observation list) \<times> (string + string) list" where
  "hostname_provider s = (case s of [] \<Rightarrow> (hostname_collect (Inl ''no answer''), []) | h # hs \<Rightarrow> (hostname_collect h, hs))"

lemma hostname_declared: "hostname_collect h = Inr obs \<Longrightarrow> ob \<in> set obs \<Longrightarrow> declares hostname_manifest goos ob"
  by (auto simp: hostname_collect_def declares_def hostname_manifest_def allows_def entity_allowed_def is_host_entity_def host_obs_def host_ob_def
      collectable_def validate_value_def Let_def split: sum.splits if_splits)

interpretation hostname: provider hostname_manifest goos hostname_provider "\<lambda>_. True" "\<lambda>_. True" for goos
proof unfold_locales
  show "distinct (map a_key (m_attributes hostname_manifest))" by (simp add: hostname_manifest_def)
next
  fix s obs s' ob
  assume "hostname_provider s = (Inr obs, s')" "ob \<in> set obs"
  then show "declares hostname_manifest goos ob"
    using hostname_declared by (auto simp: hostname_provider_def split: list.splits)
qed simp

end
