(* ===== verification/Netread.thy ===== *)
theory Netread
  imports Goword Gosha Gonum Registry
begin

text \<open>
  \<open>internal/hostread\<close> net.go, net_linux.go, net_windows.go, net_other.go: the host's network counters, read from
  the kernel's text files on Linux and from the IP Helper tables on Windows. gopsutil, the files, links
  and Win32 calls are the fields of a host record; the parsers, the classification of interfaces and the
  sums are written out.
\<close>

unbundle bit_operations_syntax

section \<open>Errors and counters\<close>

text \<open>An error is its text and what \<open>errors.Is\<close> finds in its chain.\<close>

datatype error_kind = NotExist | NoConntrack | NotSupported | PlainError

type_synonym read_error = "error_kind \<times> string"

definition wrap :: "string \<Rightarrow> read_error \<Rightarrow> read_error" where
  "wrap what e = (fst e, what @ '': '' @ snd e)"

definition plain :: "string \<Rightarrow> read_error" where
  "plain text = (PlainError, text)"

definition wrapped :: "string \<Rightarrow> (read_error + 'a) \<times> 'w \<Rightarrow> (read_error + 'a) \<times> 'w" where
  "wrapped what r = (case r of (Inl e, w) \<Rightarrow> (Inl (wrap what e), w) | (Inr x, w) \<Rightarrow> (Inr x, w))"

definition unsupported :: read_error where
  "unsupported = plain ''unsupported operation''"

record iface_counters =
  if_id :: string
  if_name :: string
  if_physical :: bool
  if_rx_bytes :: u64
  if_tx_bytes :: u64
  if_rx_packets :: u64
  if_tx_packets :: u64
  if_rx_errors :: u64
  if_tx_errors :: u64
  if_rx_drops :: u64
  if_tx_drops :: u64

record stack_counters =
  sk_established :: u64
  sk_out_segs :: u64
  sk_retrans :: u64
  sk_out_rsts :: u64
  sk_udp_errors :: u64

definition no_stack :: stack_counters where
  "no_stack = \<lparr>sk_established = 0, sk_out_segs = 0, sk_retrans = 0, sk_out_rsts = 0, sk_udp_errors = 0\<rparr>"

record conntrack =
  ct_count :: u64
  ct_max :: u64

definition err_no_conntrack :: read_error where
  "err_no_conntrack = (NoConntrack, ''connection tracking not loaded'')"

text \<open>\<open>hostread.Net\<close>: the five readings, as the module's \<open>Reader\<close> names them.\<close>

record 'w net_reader =
  nt_interfaces :: "'w \<Rightarrow> (read_error + iface_counters list) \<times> 'w"
  nt_stack :: "'w \<Rightarrow> (read_error + stack_counters) \<times> 'w"
  nt_listen_drops :: "'w \<Rightarrow> (read_error + u64) \<times> 'w"
  nt_time_wait :: "'w \<Rightarrow> (read_error + u64) \<times> 'w"
  nt_conntrack :: "'w \<Rightarrow> (read_error + conntrack) \<times> 'w"

text \<open>What the exported methods add to a platform's readings: the order of the interfaces, and a prefix to errors.\<close>

definition hostread_net :: "'w net_reader \<Rightarrow> 'w net_reader" where
  "hostread_net os = \<lparr>
     nt_interfaces = (\<lambda>w. case wrapped ''network interfaces'' (nt_interfaces os w) of
         (Inl e, w1) \<Rightarrow> (Inl e, w1) | (Inr cs, w1) \<Rightarrow> (Inr (sort_key if_id cs), w1)),
     nt_stack = (\<lambda>w. wrapped ''tcp/udp counters'' (nt_stack os w)),
     nt_listen_drops = (\<lambda>w. wrapped ''listen drops'' (nt_listen_drops os w)),
     nt_time_wait = (\<lambda>w. wrapped ''time-wait sockets'' (nt_time_wait os w)),
     nt_conntrack = (\<lambda>w. wrapped ''connection tracking'' (nt_conntrack os w))\<rparr>"

section \<open>The kernel's text files\<close>

text \<open>\<open>strconv.ParseUint\<close> in base 10 and 64 bits.\<close>

definition num_error :: "(string \<Rightarrow> string) \<Rightarrow> string \<Rightarrow> string \<Rightarrow> read_error" where
  "num_error quote s what = plain (''strconv.ParseUint: parsing '' @ quote s @ '': '' @ what)"

fun uint_digits :: "nat \<Rightarrow> string \<Rightarrow> string + nat" where
  "uint_digits n [] = Inr n"
| "uint_digits n (c # cs) = (if \<not> is_digit c then Inl ''invalid syntax''
     else if 2 ^ 64 \<le> n * 10 + digit_value c then Inl ''value out of range''
     else uint_digits (n * 10 + digit_value c) cs)"

definition parse_uint :: "(string \<Rightarrow> string) \<Rightarrow> string \<Rightarrow> read_error + u64" where
  "parse_uint quote s = (if s = [] then Inl (num_error quote s ''invalid syntax'')
     else (case uint_digits 0 s of Inl e \<Rightarrow> Inl (num_error quote s e) | Inr n \<Rightarrow> Inr (word_of_nat n)))"

text \<open>An open file is what can be read from it and the error after that, if it is not the end; a scanner gives
  its lines and the error after them.\<close>

type_synonym text_file = "string \<times> read_error option"

definition err_too_long :: read_error where
  "err_too_long = plain ''bufio.Scanner: token too long''"

definition scanned :: "nat \<Rightarrow> text_file \<Rightarrow> string list \<times> read_error option" where
  "scanned limit f = (case scan_upto limit (fst f) of (ls, long) \<Rightarrow> (ls, if long then Some err_too_long else snd f))"

definition scan_end :: "string \<Rightarrow> read_error option \<Rightarrow> read_error + u64" where
  "scan_end missing e = (case e of Some err \<Rightarrow> Inl err | None \<Rightarrow> Inl (plain missing))"

fun snmp6_lines :: "(string \<Rightarrow> string) \<Rightarrow> read_error option \<Rightarrow> string list \<Rightarrow> read_error + u64" where
  "snmp6_lines quote e [] = scan_end ''no Udp6InErrors'' e"
| "snmp6_lines quote e (l # ls) = (let f = go_fields l in
     if length f = 2 \<and> f ! 0 = ''Udp6InErrors'' then parse_uint quote (f ! 1) else snmp6_lines quote e ls)"

definition parse_snmp6 :: "(string \<Rightarrow> string) \<Rightarrow> text_file \<Rightarrow> read_error + u64" where
  "parse_snmp6 quote file = (case scanned 65536 file of (ls, e) \<Rightarrow> snmp6_lines quote e ls)"

text \<open>The column of \<open>ListenDrops\<close>, found by its name, in the line of values that follows.\<close>

fun listen_column :: "(string \<Rightarrow> string) \<Rightarrow> string list \<Rightarrow> string list \<Rightarrow> read_error + u64" where
  "listen_column quote [] vs = Inl (plain ''no TcpExt ListenDrops'')"
| "listen_column quote (n # ns) vs = (if n \<noteq> ''ListenDrops'' then listen_column quote ns (drop 1 vs)
     else case vs of [] \<Rightarrow> Inl (plain ''TcpExt values line too short'') | v # _ \<Rightarrow> parse_uint quote v)"

fun netstat_lines :: "(string \<Rightarrow> string) \<Rightarrow> read_error option \<Rightarrow> string list \<Rightarrow> read_error + u64" where
  "netstat_lines quote e [] = scan_end ''no TcpExt values'' e"
| "netstat_lines quote e (l # ls) = (let ns = go_fields l in
     if ns = [] \<or> hd ns \<noteq> ''TcpExt:'' then netstat_lines quote e ls
     else case ls of [] \<Rightarrow> scan_end ''no TcpExt values'' e | vs # _ \<Rightarrow> listen_column quote ns (go_fields vs))"

definition parse_netstat :: "(string \<Rightarrow> string) \<Rightarrow> text_file \<Rightarrow> read_error + u64" where
  "parse_netstat quote file = (case scanned 1048576 file of (ls, e) \<Rightarrow> netstat_lines quote e ls)"

fun tw_field :: "(string \<Rightarrow> string) \<Rightarrow> string list \<Rightarrow> read_error + u64" where
  "tw_field quote (k # v # fs) = (if k = ''tw'' then parse_uint quote v else tw_field quote (v # fs))"
| "tw_field quote _ = Inl (plain ''no tw field'')"

fun sockstat_lines :: "(string \<Rightarrow> string) \<Rightarrow> read_error option \<Rightarrow> string list \<Rightarrow> read_error + u64" where
  "sockstat_lines quote e [] = scan_end ''no TCP line'' e"
| "sockstat_lines quote e (l # ls) = (let f = go_fields l in
     if f = [] \<or> hd f \<noteq> ''TCP:'' then sockstat_lines quote e ls else tw_field quote (tl f))"

definition parse_sockstat :: "(string \<Rightarrow> string) \<Rightarrow> text_file \<Rightarrow> read_error + u64" where
  "parse_sockstat quote file = (case scanned 65536 file of (ls, e) \<Rightarrow> sockstat_lines quote e ls)"

definition parse_uint_file :: "(string \<Rightarrow> string) \<Rightarrow> text_file \<Rightarrow> read_error + u64" where
  "parse_uint_file quote file = (case snd file of Some e \<Rightarrow> Inl e | None \<Rightarrow> parse_uint quote (trim_space (fst file)))"

section \<open>Linux\<close>

text \<open>gopsutil's interface counters and protocol statistics.\<close>

record io_stat =
  is_name :: string
  is_bytes_sent :: u64
  is_bytes_recv :: u64
  is_packets_sent :: u64
  is_packets_recv :: u64
  is_errin :: u64
  is_errout :: u64
  is_dropin :: u64
  is_dropout :: u64

record proto_stat =
  ps_protocol :: string
  ps_stats :: "(string, int) gomap"

record 'w linux_host =
  lh_io :: "'w \<Rightarrow> (read_error + io_stat list) \<times> 'w"
  lh_protos :: "string list \<Rightarrow> 'w \<Rightarrow> (read_error + proto_stat list) \<times> 'w"
  lh_open :: "string \<Rightarrow> 'w \<Rightarrow> (read_error + text_file) \<times> 'w"
  lh_exists :: "string \<Rightarrow> 'w \<Rightarrow> bool \<times> 'w"
  lh_resolve :: "string \<Rightarrow> 'w \<Rightarrow> string option \<times> 'w"
  lh_quote :: "string \<Rightarrow> string"

definition sys_class_net :: string where
  "sys_class_net = ''/sys/class/net''"

definition proc_snmp6 :: string where "proc_snmp6 = ''/proc/net/snmp6''"

definition proc_netstat :: string where "proc_netstat = ''/proc/net/netstat''"

definition proc_sockstat :: string where "proc_sockstat = ''/proc/net/sockstat''"

definition proc_conntrack :: string where "proc_conntrack = ''/proc/sys/net/netfilter/nf_conntrack_count''"

definition proc_conntrack_max :: string where "proc_conntrack_max = ''/proc/sys/net/netfilter/nf_conntrack_max''"

text \<open>The name of an interface holds no slash and is neither empty, \<open>.\<close> nor \<open>..\<close>: the kernel refuses such names.\<close>

definition classify_net :: "'w linux_host \<Rightarrow> string \<Rightarrow> string \<Rightarrow> 'w \<Rightarrow> bool \<times> 'w" where
  "classify_net h base name w = (let dir = base @ ''/'' @ name in
     case lh_exists h (dir @ ''/device'') w of
       (False, w1) \<Rightarrow> (False, w1)
     | (True, w1) \<Rightarrow> (case lh_resolve h (dir @ ''/master'') w1 of
           (None, w2) \<Rightarrow> (True, w2)
         | (Some master, w2) \<Rightarrow> (case lh_exists h (master @ ''/device'') w2 of (ex, w3) \<Rightarrow> (\<not> ex, w3))))"

definition iface_of :: "io_stat \<Rightarrow> bool \<Rightarrow> iface_counters" where
  "iface_of c physical = \<lparr>if_id = is_name c, if_name = is_name c, if_physical = physical, if_rx_bytes = is_bytes_recv c,
     if_tx_bytes = is_bytes_sent c, if_rx_packets = is_packets_recv c, if_tx_packets = is_packets_sent c,
     if_rx_errors = is_errin c, if_tx_errors = is_errout c, if_rx_drops = is_dropin c, if_tx_drops = is_dropout c\<rparr>"

fun classify_all :: "'w linux_host \<Rightarrow> io_stat list \<Rightarrow> 'w \<Rightarrow> iface_counters list \<times> 'w" where
  "classify_all h [] w = ([], w)"
| "classify_all h (c # cs) w = (case classify_net h sys_class_net (is_name c) w of (p, w1) \<Rightarrow>
     (case classify_all h cs w1 of (out, w2) \<Rightarrow> (iface_of c p # out, w2)))"

definition linux_interfaces :: "'w linux_host \<Rightarrow> 'w \<Rightarrow> (read_error + iface_counters list) \<times> 'w" where
  "linux_interfaces h w = (case lh_io h w of
       (Inl e, w1) \<Rightarrow> (Inl e, w1)
     | (Inr cs, w1) \<Rightarrow> (case classify_all h cs w1 of (out, w2) \<Rightarrow> (Inr out, w2)))"

definition stat_of :: "(string, int) gomap \<Rightarrow> string \<Rightarrow> string \<Rightarrow> read_error + u64" where
  "stat_of m proto key = (case gm_get m key of
       None \<Rightarrow> Inl (plain (''no '' @ proto @ '' '' @ key))
     | Some v \<Rightarrow> (if v < 0 then Inl (plain (proto @ '' '' @ key @ '' is negative: '' @ itoa v)) else Inr (word_of_int v)))"

text \<open>The counters of the TCP line and where each goes. The code walks them in no particular order, which shows
  only in which of several missing ones an error names.\<close>

definition tcp_counters :: "(string \<times> (u64 \<Rightarrow> stack_counters \<Rightarrow> stack_counters)) list" where
  "tcp_counters = [(''CurrEstab'', \<lambda>v s. s\<lparr>sk_established := v\<rparr>), (''OutSegs'', \<lambda>v s. s\<lparr>sk_out_segs := v\<rparr>),
     (''RetransSegs'', \<lambda>v s. s\<lparr>sk_retrans := v\<rparr>), (''OutRsts'', \<lambda>v s. s\<lparr>sk_out_rsts := v\<rparr>)]"

fun read_stats :: "(string, int) gomap \<Rightarrow> string \<Rightarrow> (string \<times> (u64 \<Rightarrow> stack_counters \<Rightarrow> stack_counters)) list
    \<Rightarrow> stack_counters \<Rightarrow> read_error + stack_counters" where
  "read_stats m proto [] s = Inr s"
| "read_stats m proto ((key, put) # ks) s = (case stat_of m proto key of Inl e \<Rightarrow> Inl e | Inr v \<Rightarrow> read_stats m proto ks (put v s))"

fun read_protos :: "proto_stat list \<Rightarrow> stack_counters \<Rightarrow> bool \<Rightarrow> bool \<Rightarrow> read_error + stack_counters \<times> bool \<times> bool" where
  "read_protos [] s tcp udp = Inr (s, tcp, udp)"
| "read_protos (p # ps) s tcp udp = (
     if ps_protocol p = ''tcp'' then (case read_stats (ps_stats p) ''Tcp'' tcp_counters s of
         Inl e \<Rightarrow> Inl e | Inr s1 \<Rightarrow> read_protos ps s1 True udp)
     else if ps_protocol p = ''udp'' then (case read_stats (ps_stats p) ''Udp'' [(''InErrors'', \<lambda>v s. s\<lparr>sk_udp_errors := v\<rparr>)] s of
         Inl e \<Rightarrow> Inl e | Inr s1 \<Rightarrow> read_protos ps s1 tcp True)
     else read_protos ps s tcp udp)"

definition read_file :: "'w linux_host \<Rightarrow> string \<Rightarrow> ((string \<Rightarrow> string) \<Rightarrow> text_file \<Rightarrow> read_error + u64) \<Rightarrow> 'w \<Rightarrow> (read_error + u64) \<times> 'w" where
  "read_file h path parse w = (case lh_open h path w of
       (Inl e, w1) \<Rightarrow> (Inl e, w1)
     | (Inr f, w1) \<Rightarrow> (case parse (lh_quote h) f of Inl e \<Rightarrow> (Inl (wrap path e), w1) | Inr v \<Rightarrow> (Inr v, w1)))"

definition linux_stack :: "'w linux_host \<Rightarrow> 'w \<Rightarrow> (read_error + stack_counters) \<times> 'w" where
  "linux_stack h w = (case lh_protos h [''tcp'', ''udp''] w of
       (Inl e, w1) \<Rightarrow> (Inl e, w1)
     | (Inr ps, w1) \<Rightarrow> (case read_protos ps no_stack False False of
           Inl e \<Rightarrow> (Inl e, w1)
         | Inr (s, tcp, udp) \<Rightarrow>
             if \<not> tcp \<or> \<not> udp then (Inl (plain ''no Tcp or Udp line in /proc/net/snmp''), w1)
             else (case read_file h proc_snmp6 parse_snmp6 w1 of
                 (Inl (NotExist, _), w2) \<Rightarrow> (Inr s, w2)
               | (Inl e, w2) \<Rightarrow> (Inl e, w2)
               | (Inr v6, w2) \<Rightarrow> (Inr (s\<lparr>sk_udp_errors := sk_udp_errors s + v6\<rparr>), w2))))"

definition linux_conntrack :: "'w linux_host \<Rightarrow> 'w \<Rightarrow> (read_error + conntrack) \<times> 'w" where
  "linux_conntrack h w = (case read_file h proc_conntrack parse_uint_file w of
       (Inl (NotExist, _), w1) \<Rightarrow> (Inl err_no_conntrack, w1)
     | (Inl e, w1) \<Rightarrow> (Inl e, w1)
     | (Inr count, w1) \<Rightarrow> (case read_file h proc_conntrack_max parse_uint_file w1 of
           (Inl (NotExist, _), w2) \<Rightarrow> (Inl err_no_conntrack, w2)
         | (Inl e, w2) \<Rightarrow> (Inl e, w2)
         | (Inr limit, w2) \<Rightarrow> (Inr \<lparr>ct_count = count, ct_max = limit\<rparr>, w2)))"

definition linux_net :: "'w linux_host \<Rightarrow> 'w net_reader" where
  "linux_net h = \<lparr>nt_interfaces = linux_interfaces h, nt_stack = linux_stack h,
     nt_listen_drops = read_file h proc_netstat parse_netstat, nt_time_wait = read_file h proc_sockstat parse_sockstat,
     nt_conntrack = linux_conntrack h\<rparr>"

section \<open>Windows\<close>

text \<open>A row of the interface table, its alias decoded; the statistics calls give a structure or a Win32 error.\<close>

record win_row =
  wr_luid :: u64
  wr_alias :: string
  wr_flags :: "8 word"
  wr_type :: "32 word"
  wr_in_octets :: u64
  wr_out_octets :: u64
  wr_in_ucast :: u64
  wr_in_nucast :: u64
  wr_out_ucast :: u64
  wr_out_nucast :: u64
  wr_in_errors :: u64
  wr_out_errors :: u64
  wr_in_discards :: u64
  wr_out_discards :: u64

record tcp_stats2 =
  t2_established :: "32 word"
  t2_out_segs :: u64
  t2_retrans :: "32 word"
  t2_out_rsts :: "32 word"

record tcp_stats =
  t1_established :: "32 word"
  t1_out_segs :: "32 word"
  t1_retrans :: "32 word"
  t1_out_rsts :: "32 word"

record 'w win_net =
  wh_table_proc :: "read_error option"
  wh_table :: "'w \<Rightarrow> (read_error + win_row list) \<times> 'w"
  wh_tcp2_found :: bool
  wh_tcp2 :: "nat \<Rightarrow> 'w \<Rightarrow> (read_error + tcp_stats2) \<times> 'w"
  wh_tcp :: "nat \<Rightarrow> 'w \<Rightarrow> (read_error + tcp_stats) \<times> 'w"
  wh_udp :: "nat \<Rightarrow> 'w \<Rightarrow> (read_error + 32 word) \<times> 'w"

definition windows_physical :: "8 word \<Rightarrow> 32 word \<Rightarrow> bool" where
  "windows_physical flags ty \<longleftrightarrow> flags AND 1 \<noteq> 0 \<and> flags AND 2 = 0 \<and> ty \<noteq> 24"

definition hex16 :: "u64 \<Rightarrow> string" where
  "hex16 x = map (\<lambda>i. hex_digit (unat x div 16 ^ (15 - i) mod 16)) [0..<16]"

definition iface_of_row :: "win_row \<Rightarrow> iface_counters" where
  "iface_of_row r = \<lparr>if_id = hex16 (wr_luid r), if_name = wr_alias r, if_physical = windows_physical (wr_flags r) (wr_type r),
     if_rx_bytes = wr_in_octets r, if_tx_bytes = wr_out_octets r,
     if_rx_packets = wr_in_ucast r + wr_in_nucast r, if_tx_packets = wr_out_ucast r + wr_out_nucast r,
     if_rx_errors = wr_in_errors r, if_tx_errors = wr_out_errors r, if_rx_drops = wr_in_discards r, if_tx_drops = wr_out_discards r\<rparr>"

definition windows_interfaces :: "'w win_net \<Rightarrow> 'w \<Rightarrow> (read_error + iface_counters list) \<times> 'w" where
  "windows_interfaces h w = (case wh_table_proc h of
       Some e \<Rightarrow> (Inl e, w)
     | None \<Rightarrow> (case wh_table h w of
           (Inl e, w1) \<Rightarrow> (Inl (wrap ''GetIfTable2'' e), w1)
         | (Inr rows, w1) \<Rightarrow> (Inr (map iface_of_row rows), w1)))"

text \<open>\<open>AF_INET\<close> and \<open>AF_INET6\<close>: their counters are added, and a family the system does not support adds nothing.\<close>

definition families :: "nat list" where
  "families = [2, 23]"

fun sum_families :: "string \<Rightarrow> (nat \<Rightarrow> 'w \<Rightarrow> (read_error + 'a) \<times> 'w) \<Rightarrow> ('a \<Rightarrow> stack_counters \<Rightarrow> stack_counters)
    \<Rightarrow> nat list \<Rightarrow> stack_counters \<Rightarrow> 'w \<Rightarrow> (read_error + stack_counters) \<times> 'w" where
  "sum_families what call add [] s w = (Inr s, w)"
| "sum_families what call add (fam # fams) s w = (case call fam w of
       (Inl (NotSupported, _), w1) \<Rightarrow> sum_families what call add fams s w1
     | (Inl e, w1) \<Rightarrow> (Inl (wrap what e), w1)
     | (Inr t, w1) \<Rightarrow> sum_families what call add fams (add t s) w1)"

definition add_tcp2 :: "tcp_stats2 \<Rightarrow> stack_counters \<Rightarrow> stack_counters" where
  "add_tcp2 t s = s\<lparr>sk_established := sk_established s + ucast (t2_established t), sk_out_segs := sk_out_segs s + t2_out_segs t,
     sk_retrans := sk_retrans s + ucast (t2_retrans t), sk_out_rsts := sk_out_rsts s + ucast (t2_out_rsts t)\<rparr>"

definition add_tcp :: "tcp_stats \<Rightarrow> stack_counters \<Rightarrow> stack_counters" where
  "add_tcp t s = s\<lparr>sk_established := sk_established s + ucast (t1_established t), sk_out_segs := sk_out_segs s + ucast (t1_out_segs t),
     sk_retrans := sk_retrans s + ucast (t1_retrans t), sk_out_rsts := sk_out_rsts s + ucast (t1_out_rsts t)\<rparr>"

definition add_udp :: "32 word \<Rightarrow> stack_counters \<Rightarrow> stack_counters" where
  "add_udp u s = s\<lparr>sk_udp_errors := sk_udp_errors s + ucast u\<rparr>"

definition windows_stack :: "'w win_net \<Rightarrow> 'w \<Rightarrow> (read_error + stack_counters) \<times> 'w" where
  "windows_stack h w = (case (if wh_tcp2_found h then sum_families ''GetTcpStatisticsEx2'' (wh_tcp2 h) add_tcp2 families no_stack w
       else sum_families ''GetTcpStatisticsEx'' (wh_tcp h) add_tcp families no_stack w) of
       (Inl e, w1) \<Rightarrow> (Inl e, w1)
     | (Inr s, w1) \<Rightarrow> sum_families ''GetUdpStatisticsEx'' (wh_udp h) add_udp families s w1)"

definition windows_net :: "'w win_net \<Rightarrow> 'w net_reader" where
  "windows_net h = \<lparr>nt_interfaces = windows_interfaces h, nt_stack = windows_stack h,
     nt_listen_drops = (\<lambda>w. (Inl unsupported, w)), nt_time_wait = (\<lambda>w. (Inl unsupported, w)), nt_conntrack = (\<lambda>w. (Inl unsupported, w))\<rparr>"

definition other_net :: "'w net_reader" where
  "other_net = \<lparr>nt_interfaces = (\<lambda>w. (Inl unsupported, w)), nt_stack = (\<lambda>w. (Inl unsupported, w)),
     nt_listen_drops = (\<lambda>w. (Inl unsupported, w)), nt_time_wait = (\<lambda>w. (Inl unsupported, w)), nt_conntrack = (\<lambda>w. (Inl unsupported, w))\<rparr>"

end
