(* ===== verification/Network.thy ===== *)
theory Network
  imports Disk Netread
begin

text \<open>
  \<open>internal/module/network\<close>: the rates of the physical interfaces and of the TCP/IP stack between two readings,
  and the values that need no baseline. The clock, the deadline and the pause are fields of the host
  record; the readings come through \<open>net_reader\<close>.
\<close>

section \<open>The module\<close>

record 'w net_host =
  nh_reader :: "'w net_reader"
  nh_now :: "'w \<Rightarrow> int"
  nh_left :: "'w \<Rightarrow> int option"
  nh_sleep :: "int \<Rightarrow> 'w \<Rightarrow> bool \<times> 'w"

record net_reading =
  nr_at :: int
  nr_ifaces :: "(string, iface_counters) gomap option"
  nr_stack :: "stack_counters option"
  nr_listen :: "u64 option"

record read_errs =
  re_ifaces :: "read_error option"
  re_stack :: "read_error option"
  re_listen :: "read_error option"

text \<open>\<open>ntm_last\<close> is the baseline; the two notices are given once, as \<open>sync.Once\<close> makes sure.\<close>

record net_module =
  ntm_goos :: string
  ntm_runtime_goos :: string
  ntm_prime :: int
  ntm_last :: "net_reading option"
  ntm_no_iface :: bool
  ntm_no_conntrack :: bool

definition net_interval :: int where
  "net_interval = 30 * nano"

definition net_default_prime :: int where
  "net_default_prime = 250000000"

definition net_prime_slack :: int where
  "net_prime_slack = 50000000"

definition net_prime :: "net_module \<Rightarrow> int" where
  "net_prime m = (if 0 < ntm_prime m then ntm_prime m else net_default_prime)"

definition net_goos :: "net_module \<Rightarrow> string" where
  "net_goos m = (if ntm_goos m \<noteq> [] then ntm_goos m else ntm_runtime_goos m)"

definition net_linux_windows :: "string list" where
  "net_linux_windows = [''linux'', ''windows'']"

definition net_linux_only :: "string list" where
  "net_linux_only = [''linux'']"

definition net_metric :: "string \<Rightarrow> string \<Rightarrow> string \<Rightarrow> string \<Rightarrow> string list \<Rightarrow> mattribute" where
  "net_metric key slug name desc platforms = \<lparr>a_key = key, a_name = name, a_slug = slug, a_kind = KindMetric, a_desc = desc,
     a_options = [], a_template = [], a_target = [], a_label = 0, a_platforms = platforms\<rparr>"

definition net_manifest :: manifest where
  "net_manifest = \<lparr>m_module = ''net'', m_templates = [], m_attributes = [
     net_metric ''rx_mbps'' ''net_rx_mbps'' ''Network receive throughput''
       ''Bits received by the physical interfaces per second, in Mbit/s (10^6 bits)'' net_linux_windows,
     net_metric ''tx_mbps'' ''net_tx_mbps'' ''Network transmit throughput''
       ''Bits sent by the physical interfaces per second, in Mbit/s (10^6 bits)'' net_linux_windows,
     net_metric ''rx_pps'' ''net_rx_pps'' ''Packets received''
       ''Packets received by the physical interfaces per second'' net_linux_windows,
     net_metric ''tx_pps'' ''net_tx_pps'' ''Packets sent''
       ''Packets sent by the physical interfaces per second'' net_linux_windows,
     net_metric ''rx_errors_ps'' ''net_rx_errors_ps'' ''Receive errors''
       ''Received packets the physical interfaces found faulty, per second'' net_linux_windows,
     net_metric ''tx_errors_ps'' ''net_tx_errors_ps'' ''Transmit errors''
       ''Packets the physical interfaces failed to send, per second'' net_linux_windows,
     net_metric ''rx_drops_ps'' ''net_rx_drops_ps'' ''Receive drops''
       ''Received packets discarded before reaching the network stack, per second'' net_linux_windows,
     net_metric ''tx_drops_ps'' ''net_tx_drops_ps'' ''Transmit drops''
       ''Outgoing packets discarded before transmission, per second'' net_linux_windows,
     net_metric ''tcp_established'' ''net_tcp_established'' ''TCP connections established''
       ''TCP connections currently established, as the OS's TCP MIB counts them'' net_linux_windows,
     net_metric ''tcp_retrans_pct'' ''net_tcp_retrans_pct'' ''TCP retransmitted''
       ''Percent of the TCP segments sent that were retransmissions'' net_linux_windows,
     net_metric ''tcp_resets_ps'' ''net_tcp_resets_ps'' ''TCP resets sent''
       ''TCP segments sent with the reset flag, per second'' net_linux_windows,
     net_metric ''tcp_listen_drops_ps'' ''net_tcp_listen_drops_ps'' ''TCP listen drops''
       ''Incoming connections dropped at listening sockets, per second'' net_linux_only,
     net_metric ''tcp_time_wait'' ''net_tcp_time_wait'' ''TCP sockets in TIME_WAIT''
       ''TCP sockets currently in TIME_WAIT'' net_linux_only,
     net_metric ''udp_errors_ps'' ''net_udp_errors_ps'' ''UDP receive errors''
       ''Received UDP datagrams that could not be delivered to an application for a reason other than no listener, per second'' net_linux_windows,
     net_metric ''conntrack_used_pct'' ''net_conntrack_used_pct'' ''Connection tracking used''
       ''Percent of the connection-tracking table's limit in use'' net_linux_only]\<rparr>"

definition iface_keys :: "string list" where
  "iface_keys = [''rx_mbps'', ''tx_mbps'', ''rx_pps'', ''tx_pps'', ''rx_errors_ps'', ''tx_errors_ps'', ''rx_drops_ps'', ''tx_drops_ps'']"

definition stack_keys :: "string list" where
  "stack_keys = [''tcp_established'', ''tcp_retrans_pct'', ''tcp_resets_ps'', ''udp_errors_ps'']"

definition net_add_all :: "read_error option \<Rightarrow> string list \<Rightarrow> omissions \<Rightarrow> omissions" where
  "net_add_all err keys om = (case err of None \<Rightarrow> om | Some e \<Rightarrow> foldl (\<lambda>om k. om_add k (snd e) om) om keys)"

definition net_pct :: "f64 \<Rightarrow> f64 \<Rightarrow> f64" where
  "net_pct part whole = round2 (fmin (fmax (fmul (fdiv part whole) (Fin 100)) (Fin 0)) (Fin 100))"

section \<open>Readings\<close>

definition physical_ifaces :: "iface_counters list \<Rightarrow> (string, iface_counters) gomap" where
  "physical_ifaces cs = foldl (\<lambda>m c. if if_physical c then gm_put (if_id c) c m else m) [] cs"

definition iface_names :: "net_reading \<Rightarrow> string list" where
  "iface_names r = sort (map (\<lambda>(_, c). if_name c) (case nr_ifaces r of None \<Rightarrow> [] | Some m \<Rightarrow> m))"

definition succeeded :: "('e + 'a) \<Rightarrow> 'a option" where
  "succeeded r = (case r of Inl _ \<Rightarrow> None | Inr x \<Rightarrow> Some x)"

definition failed :: "('e + 'a) \<Rightarrow> 'e option" where
  "failed r = (case r of Inl e \<Rightarrow> Some e | Inr _ \<Rightarrow> None)"

definition net_read :: "'w net_host \<Rightarrow> bool \<Rightarrow> 'w \<Rightarrow> net_reading \<times> read_errs \<times> 'w" where
  "net_read h linux w = (
     let (cs, w1) = nt_interfaces (nh_reader h) w;
         (s, w2) = nt_stack (nh_reader h) w1;
         (n, w3) = (if linux then (case nt_listen_drops (nh_reader h) w2 of (r, w3) \<Rightarrow> (Some r, w3)) else (None, w2))
     in (\<lparr>nr_at = nh_now h w3, nr_ifaces = map_option physical_ifaces (succeeded cs), nr_stack = succeeded s,
           nr_listen = Option.bind n succeeded\<rparr>,
         \<lparr>re_ifaces = failed cs, re_stack = failed s, re_listen = Option.bind n failed\<rparr>, w3))"

section \<open>Rates\<close>

definition common_ifaces :: "net_reading \<Rightarrow> net_reading \<Rightarrow> (iface_counters \<times> iface_counters) list" where
  "common_ifaces prev cur = (case (nr_ifaces prev, nr_ifaces cur) of
       (Some p, Some c) \<Rightarrow> concat (map (\<lambda>(k, x). case gm_get p k of None \<Rightarrow> [] | Some y \<Rightarrow> [(y, x)]) c)
     | _ \<Rightarrow> [])"

definition iface_delta :: "(iface_counters \<times> iface_counters) list \<Rightarrow> (iface_counters \<Rightarrow> u64) \<Rightarrow> u64 option" where
  "iface_delta ds f = (if list_ex (\<lambda>(p, c). f c < f p) ds then None else Some (sum_list (map (\<lambda>(p, c). f c - f p) ds)))"

definition iface_quantities :: "(string \<times> (iface_counters \<Rightarrow> u64) \<times> rat \<times> rat) list" where
  "iface_quantities = [(''rx_mbps'', if_rx_bytes, 8, 1000000), (''tx_mbps'', if_tx_bytes, 8, 1000000),
     (''rx_pps'', if_rx_packets, 1, 1), (''tx_pps'', if_tx_packets, 1, 1), (''rx_errors_ps'', if_rx_errors, 1, 1),
     (''tx_errors_ps'', if_tx_errors, 1, 1), (''rx_drops_ps'', if_rx_drops, 1, 1), (''tx_drops_ps'', if_tx_drops, 1, 1)]"

definition iface_value :: "u64 \<Rightarrow> rat \<Rightarrow> rat \<Rightarrow> f64 \<Rightarrow> f64" where
  "iface_value d mul per secs = round2 (fdiv (fdiv (fmul (f_of_word d) (Fin mul)) (Fin per)) secs)"

definition iface_rates :: "net_reading \<Rightarrow> net_reading \<Rightarrow> f64 \<Rightarrow> observation list" where
  "iface_rates prev cur secs = (let ds = common_ifaces prev cur in
     if ds = [] then [] else concat (map (\<lambda>(key, f, mul, per). case iface_delta ds f of
         None \<Rightarrow> [] | Some d \<Rightarrow> [host_ob key (VF64 (iface_value d mul per secs))]) iface_quantities))"

definition net_rate :: "string \<Rightarrow> u64 \<Rightarrow> u64 \<Rightarrow> f64 \<Rightarrow> observation list" where
  "net_rate key p c secs = (if p \<le> c then [host_ob key (VF64 (round2 (fdiv (f_of_word (c - p)) secs)))] else [])"

definition retrans_share :: "stack_counters \<Rightarrow> stack_counters \<Rightarrow> observation list" where
  "retrans_share p c = (if sk_out_segs p \<le> sk_out_segs c \<and> sk_retrans p \<le> sk_retrans c
     then let out = sk_out_segs c - sk_out_segs p; again = sk_retrans c - sk_retrans p in
       if 0 < out + again then [host_ob ''tcp_retrans_pct'' (VF64 (net_pct (f_of_word again) (f_of_word (out + again))))] else []
     else [])"

definition stack_rates :: "net_reading \<Rightarrow> net_reading \<Rightarrow> f64 \<Rightarrow> observation list" where
  "stack_rates prev cur secs = (case (nr_stack prev, nr_stack cur) of
       (Some p, Some c) \<Rightarrow> retrans_share p c @ net_rate ''tcp_resets_ps'' (sk_out_rsts p) (sk_out_rsts c) secs
         @ net_rate ''udp_errors_ps'' (sk_udp_errors p) (sk_udp_errors c) secs
     | _ \<Rightarrow> []) @ (case (nr_listen prev, nr_listen cur) of
       (Some p, Some c) \<Rightarrow> net_rate ''tcp_listen_drops_ps'' p c secs | _ \<Rightarrow> [])"

definition net_can_prime :: "'w net_host \<Rightarrow> net_module \<Rightarrow> 'w \<Rightarrow> bool" where
  "net_can_prime h m w = (case nh_left h w of None \<Rightarrow> True | Some left \<Rightarrow> net_prime m + net_prime_slack \<le> left)"

text \<open>The reading the collection ends at, its errors, and the reading before it.\<close>

definition net_readings :: "'w net_host \<Rightarrow> net_module \<Rightarrow> bool \<Rightarrow> 'w \<Rightarrow> net_reading \<times> read_errs \<times> net_reading option \<times> 'w" where
  "net_readings h m linux w = (case net_read h linux w of (cur, errs, w1) \<Rightarrow>
     (if ntm_last m = None \<and> net_can_prime h m w1 then (case nh_sleep h (net_prime m) w1 of
           (False, w2) \<Rightarrow> (cur, errs, None, w2)
         | (True, w2) \<Rightarrow> (case net_read h linux w2 of (cur2, errs2, w3) \<Rightarrow> (cur2, errs2, Some cur, w3)))
      else (cur, errs, ntm_last m, w1)))"

definition between :: "net_reading option \<Rightarrow> net_reading \<Rightarrow> observation list" where
  "between prev cur = (case prev of
       None \<Rightarrow> []
     | Some p \<Rightarrow> (let elapsed = time_sub (nr_at cur) (nr_at p) in
         if elapsed \<le> 0 then [] else iface_rates p cur (secs_of elapsed) @ stack_rates p cur (secs_of elapsed)))"

definition net_rates :: "'w net_host \<Rightarrow> net_module \<Rightarrow> bool \<Rightarrow> omissions \<Rightarrow> 'w
    \<Rightarrow> observation list \<times> net_reading \<times> omissions \<times> net_module \<times> 'w" where
  "net_rates h m linux om w = (case net_readings h m linux w of (cur, errs, prev, w1) \<Rightarrow>
     (between prev cur, cur,
      net_add_all (re_listen errs) [''tcp_listen_drops_ps''] (net_add_all (re_stack errs) stack_keys (net_add_all (re_ifaces errs) iface_keys om)),
      m\<lparr>ntm_last := Some cur, ntm_no_iface := (ntm_no_iface m \<or> nr_ifaces cur = Some [])\<rparr>, w1))"

section \<open>Gauges\<close>

definition net_gauges :: "'w net_host \<Rightarrow> net_module \<Rightarrow> net_reading \<Rightarrow> bool \<Rightarrow> omissions \<Rightarrow> 'w
    \<Rightarrow> observation list \<times> omissions \<times> net_module \<times> 'w" where
  "net_gauges h m cur linux om w = (
     let obs = (case nr_stack cur of None \<Rightarrow> [] | Some s \<Rightarrow> [host_ob ''tcp_established'' (VF64 (f_of_word (sk_established s)))])
     in if \<not> linux then (obs, om, m, w)
        else let (tw, w1) = nt_time_wait (nh_reader h) w;
               obs1 = obs @ (case tw of Inl _ \<Rightarrow> [] | Inr n \<Rightarrow> [host_ob ''tcp_time_wait'' (VF64 (f_of_word n))]);
               om1 = (case tw of Inl e \<Rightarrow> om_add ''tcp_time_wait'' (snd e) om | Inr _ \<Rightarrow> om)
             in (case nt_conntrack (nh_reader h) w1 of
                 (Inl e, w2) \<Rightarrow> if fst e = NoConntrack then (obs1, om1, m\<lparr>ntm_no_conntrack := True\<rparr>, w2)
                   else (obs1, om_add ''conntrack_used_pct'' (snd e) om1, m, w2)
               | (Inr ct, w2) \<Rightarrow> if ct_max ct = 0 then (obs1, om1, m\<lparr>ntm_no_conntrack := True\<rparr>, w2)
                   else (obs1 @ [host_ob ''conntrack_used_pct'' (VF64 (net_pct (f_of_word (ct_count ct)) (f_of_word (ct_max ct))))], om1, m, w2)))"

text \<open>A collection: what it returns, the omissions (logged when it returns observations), and the interfaces the
  debug record names.\<close>

definition net_collect :: "'w net_host \<Rightarrow> net_module \<Rightarrow> 'w \<Rightarrow> (string + observation list) \<times> omissions \<times> string list \<times> net_module \<times> 'w" where
  "net_collect h m w = (
     let linux = collectable net_linux_only (net_goos m);
         (obs, cur, om, m1, w1) = net_rates h m linux no_omissions w;
         (gs, om1, m2, w2) = net_gauges h m1 cur linux om w1;
         all = obs @ gs
     in (if all = [] \<and> om_keys om1 \<noteq> [] then Inl (om_err om1 ''net'') else Inr all, om1, iface_names cur, m2, w2))"

section \<open>Values in range\<close>

lemma fmul_upto:
  assumes "upto_pow k v" "0 \<le> y" "y \<le> 2 ^ j" "k + j \<le> 900"
  shows "upto_pow (k + j) (fmul v (Fin y))"
proof -
  obtain x where x: "v = Fin x" "0 \<le> x" "x \<le> 2 ^ k" using assms(1) by (rule upto_powE)
  have "x * y \<le> 2 ^ k * 2 ^ j" using x assms(2,3) by (intro mult_mono) simp_all
  then have "upto_pow (k + j) (rnd (x * y))" using x(2) assms(2,4) by (intro upto_pow_rnd) (simp_all add: power_add)
  then show ?thesis using x(1) by (simp add: fmul_def)
qed

lemma iface_value_fin:
  assumes "0 < d" "d < 2 ^ 63" "0 \<le> mul" "mul \<le> 8" "1 \<le> per"
  shows "is_fin (iface_value x mul per (secs_of d))"
proof -
  obtain y where y: "secs_of d = Fin y" "2 powi (- 30) \<le> y" using seconds_pos [OF assms(1,2)] by blast
  have u: "upto_pow (64 + 3) (fmul (f_of_word x) (Fin mul))" by (rule fmul_upto [OF f_of_word_upto assms(3)]) (use assms(4) in simp_all)
  show ?thesis unfolding iface_value_def y(1)
    by (rule round2_upto [OF fdiv_upto [OF fdiv_upto_one [OF u assms(5)] y(2)]]) simp_all
qed

lemma net_rate_fin:
  assumes "0 < d" "d < 2 ^ 63" "ob \<in> set (net_rate key p c (secs_of d))"
  shows "\<exists>v. ob = host_ob key (VF64 v) \<and> is_fin v"
proof -
  obtain y where y: "secs_of d = Fin y" "2 powi (- 30) \<le> y" using seconds_pos [OF assms(1,2)] by blast
  have "is_fin (round2 (fdiv (f_of_word x) (Fin y)))" for x
    by (rule round2_upto [OF fdiv_upto [OF f_of_word_upto y(2)]]) simp_all
  then show ?thesis using assms(3) y(1) by (auto simp: net_rate_def split: if_splits)
qed

lemma net_pct_of: "net_pct = pct_of"
  by (intro ext) (simp add: net_pct_def pct_of_def)

lemma net_pct_ok: "x \<noteq> 0 \<Longrightarrow> is_pct (net_pct (f_of_word y) (f_of_word x))"
proof -
  assume "x \<noteq> 0"
  then obtain r where r: "f_of_word x = Fin r" "1 \<le> r" using f_of_word_pos by blast
  have "f_of_word y \<noteq> NaN" using f_of_word_upto [of y] by (auto simp: upto_pow_def)
  then show ?thesis unfolding net_pct_of using r by (intro pct_of_pct) auto
qed

lemma retrans_pct: "ob \<in> set (retrans_share p c) \<Longrightarrow> \<exists>v. ob = host_ob ''tcp_retrans_pct'' (VF64 v) \<and> is_pct v"
  by (auto simp: retrans_share_def Let_def net_pct_ok split: if_splits)

section \<open>The baseline\<close>

definition physical_map :: "(string, iface_counters) gomap \<Rightarrow> bool" where
  "physical_map m \<longleftrightarrow> gm_ok m \<and> (\<forall>k c. gm_get m k = Some c \<longrightarrow> if_id c = k \<and> if_physical c)"

lemma physical_put: "physical_map m \<Longrightarrow> physical_map (if if_physical c then gm_put (if_id c) c m else m)"
  by (simp add: physical_map_def)

lemma physical_fold: "physical_map m \<Longrightarrow> physical_map (foldl (\<lambda>m c. if if_physical c then gm_put (if_id c) c m else m) m cs)"
  by (induction cs arbitrary: m) (simp_all only: foldl.simps physical_put)

definition physical_only :: "net_reading \<Rightarrow> bool" where
  "physical_only r \<longleftrightarrow> pred_option physical_map (nr_ifaces r)"

text \<open>What each area of a reading that failed, or was not made, leaves out.\<close>

definition missing_keys :: "bool \<Rightarrow> net_reading \<Rightarrow> string list" where
  "missing_keys linux r = (if nr_ifaces r = None then iface_keys else []) @ (if nr_stack r = None then stack_keys else [])
     @ (if linux \<and> nr_listen r = None then [''tcp_listen_drops_ps''] else [])"

definition errs_of :: "bool \<Rightarrow> net_reading \<Rightarrow> read_errs \<Rightarrow> bool" where
  "errs_of linux r e \<longleftrightarrow> (re_ifaces e = None) = (nr_ifaces r \<noteq> None) \<and> (re_stack e = None) = (nr_stack r \<noteq> None)
     \<and> (re_listen e = None) = (\<not> linux \<or> nr_listen r \<noteq> None) \<and> (linux \<or> nr_listen r = None)"

lemma net_read_ok:
  assumes "net_read h linux w = (r, e, w')"
  shows "physical_only r \<and> errs_of linux r e"
proof -
  have map: "physical_map (physical_ifaces cs)" for cs
    unfolding physical_ifaces_def by (rule physical_fold) (simp add: physical_map_def)
  obtain cs w1 where 1: "nt_interfaces (nh_reader h) w = (cs, w1)" by (metis surj_pair)
  obtain s w2 where 2: "nt_stack (nh_reader h) w1 = (s, w2)" by (metis surj_pair)
  obtain n w3 where 3: "nt_listen_drops (nh_reader h) w2 = (n, w3)" by (metis surj_pair)
  show ?thesis using assms map
    by (cases cs; cases s; cases n; cases linux) (auto simp: net_read_def 1 2 3 physical_only_def errs_of_def succeeded_def failed_def)
qed

lemma net_readings_ok:
  assumes "net_readings h m linux w = (cur, e, prev, w')" "pred_option physical_only (ntm_last m)"
  shows "physical_only cur \<and> errs_of linux cur e \<and> pred_option physical_only prev \<and> (ntm_last m \<noteq> None \<longrightarrow> prev = ntm_last m)"
proof -
  obtain c1 e1 w1 where one: "net_read h linux w = (c1, e1, w1)" by (metis prod_cases3)
  note ok1 = net_read_ok [OF one]
  show ?thesis
  proof (cases "ntm_last m = None \<and> net_can_prime h m w1 \<and> fst (nh_sleep h (net_prime m) w1)")
    case True
    then obtain w2 where s: "nh_sleep h (net_prime m) w1 = (True, w2)" by (metis prod.collapse)
    obtain c2 e2 w3 where two: "net_read h linux w2 = (c2, e2, w3)" by (metis prod_cases3)
    have "cur = c2" "e = e2" "prev = Some c1" using assms(1) one two s True by (simp_all add: net_readings_def)
    then show ?thesis using ok1 net_read_ok [OF two] True by simp
  next
    case False
    then have "cur = c1" "e = e1" "prev = ntm_last m"
      using assms(1) one by (auto simp: net_readings_def split: if_splits prod.splits bool.splits)
    then show ?thesis using ok1 assms(2) by simp
  qed
qed

lemma om_keys_net_add_all: "om_keys (net_add_all err keys om) = om_keys om @ (if err = None then [] else keys)"
proof -
  have "om_keys (foldl (\<lambda>om k. om_add k t om) om keys) = om_keys om @ keys" for t
    by (induction keys arbitrary: om) (simp_all add: om_add_def)
  then show ?thesis by (auto simp: net_add_all_def split: option.splits)
qed

text \<open>A rate is reported for an area that both readings hold.\<close>

definition net_ob_ok :: "net_reading \<Rightarrow> net_reading \<Rightarrow> observation \<Rightarrow> bool" where
  "net_ob_ok prev cur ob \<longleftrightarrow> (\<exists>v. is_fin v \<and>
     ((\<exists>key \<in> set iface_keys. ob = host_ob key (VF64 v)) \<and> common_ifaces prev cur \<noteq> []
      \<or> ob = host_ob ''tcp_retrans_pct'' (VF64 v) \<and> is_pct v \<and> nr_stack prev \<noteq> None \<and> nr_stack cur \<noteq> None
      \<or> (\<exists>key \<in> {''tcp_resets_ps'', ''udp_errors_ps''}. ob = host_ob key (VF64 v)) \<and> nr_stack prev \<noteq> None \<and> nr_stack cur \<noteq> None
      \<or> ob = host_ob ''tcp_listen_drops_ps'' (VF64 v) \<and> nr_listen prev \<noteq> None \<and> nr_listen cur \<noteq> None))"

lemma iface_rates_ok:
  assumes "0 < d" "d < 2 ^ 63" "ob \<in> set (iface_rates prev cur (secs_of d))"
  shows "net_ob_ok prev cur ob"
proof -
  have fin: "is_fin (iface_value x mul per (secs_of d))" "key \<in> set iface_keys" if "(key, f, mul, per) \<in> set iface_quantities" for key f mul per x
    using that by (auto simp: iface_quantities_def iface_keys_def intro!: iface_value_fin [OF assms(1,2)])
  obtain key f mul per x where "(key, f, mul, per) \<in> set iface_quantities" "ob = host_ob key (VF64 (iface_value x mul per (secs_of d)))"
      "common_ifaces prev cur \<noteq> []"
    using assms(3) by (auto simp: iface_rates_def Let_def split: if_splits option.splits)
  then show ?thesis using fin unfolding net_ob_ok_def by blast
qed

lemma stack_rates_ok:
  assumes "0 < d" "d < 2 ^ 63" "ob \<in> set (stack_rates prev cur (secs_of d))"
  shows "net_ob_ok prev cur ob"
proof -
  note rate = net_rate_fin [OF assms(1,2)]
  consider (stack) p c where "nr_stack prev = Some p" "nr_stack cur = Some c" "ob \<in> set (retrans_share p c)
        \<or> ob \<in> set (net_rate ''tcp_resets_ps'' (sk_out_rsts p) (sk_out_rsts c) (secs_of d))
        \<or> ob \<in> set (net_rate ''udp_errors_ps'' (sk_udp_errors p) (sk_udp_errors c) (secs_of d))"
    | (listen) p c where "nr_listen prev = Some p" "nr_listen cur = Some c" "ob \<in> set (net_rate ''tcp_listen_drops_ps'' p c (secs_of d))"
    using assms(3) by (cases "nr_stack prev"; cases "nr_stack cur"; cases "nr_listen prev"; cases "nr_listen cur") (auto simp: stack_rates_def)
  then show ?thesis
  proof cases
    case stack
    from stack(3) have "(\<exists>v. ob = host_ob ''tcp_retrans_pct'' (VF64 v) \<and> is_pct v)
        \<or> (\<exists>v. ob = host_ob ''tcp_resets_ps'' (VF64 v) \<and> is_fin v) \<or> (\<exists>v. ob = host_ob ''udp_errors_ps'' (VF64 v) \<and> is_fin v)"
      using retrans_pct rate by blast
    moreover have "is_pct v \<Longrightarrow> is_fin v" for v using is_pct_range by fastforce
    ultimately show ?thesis using stack(1,2) unfolding net_ob_ok_def by blast
  next
    case listen
    then show ?thesis using rate unfolding net_ob_ok_def by blast
  qed
qed

lemma between_ok:
  assumes "between prev cur \<noteq> []"
  shows "\<exists>p. prev = Some p \<and> nr_at p < nr_at cur \<and> (\<forall>ob \<in> set (between prev cur). net_ob_ok p cur ob)"
proof -
  obtain p where p: "prev = Some p" using assms by (auto simp: between_def split: option.splits)
  let ?d = "time_sub (nr_at cur) (nr_at p)"
  have d: "0 < ?d" using assms p by (auto simp: between_def Let_def split: if_splits)
  then have "?d < 2 ^ 63" "nr_at p < nr_at cur" by (simp_all add: time_sub_def)
  then show ?thesis using p d iface_rates_ok [OF d] stack_rates_ok [OF d] by (auto simp: between_def Let_def)
qed

text \<open>An interface that the earlier reading does not hold changes nothing: its lifetime counters are no spike.\<close>

lemma hotplug_no_spike:
  assumes "nr_ifaces prev = Some p" "gm_get p (if_id x) = None" "nr_ifaces cur = Some c" "gm_get c (if_id x) = None"
  shows "between (Some prev) (cur\<lparr>nr_ifaces := Some (gm_put (if_id x) x c)\<rparr>) = between (Some prev) cur"
proof -
  have "common_ifaces prev (cur\<lparr>nr_ifaces := Some (gm_put (if_id x) x c)\<rparr>) = common_ifaces prev cur"
    using assms gm_put_new [of c "if_id x" x] by (auto simp: common_ifaces_def gm_has_def)
  then show ?thesis by (simp add: between_def Let_def iface_rates_def stack_rates_def)
qed

lemma net_rates_ok:
  assumes "net_rates h m linux om w = (obs, cur, om', m', w')" "pred_option physical_only (ntm_last m)"
  shows "ntm_last m' = Some cur \<and> physical_only cur \<and> om_keys om' = om_keys om @ missing_keys linux cur \<and> (linux \<or> nr_listen cur = None)
    \<and> (obs \<noteq> [] \<longrightarrow> (\<exists>prev. (ntm_last m = Some prev \<or> ntm_last m = None) \<and> physical_only prev \<and> nr_at prev < nr_at cur
          \<and> (\<forall>ob \<in> set obs. net_ob_ok prev cur ob)))"
proof -
  obtain c e prev w1 where r: "net_readings h m linux w = (c, e, prev, w1)" by (metis prod_cases4)
  note ok = net_readings_ok [OF r assms(2)]
  from r assms(1) have eq: "cur = c" "obs = between prev c" "ntm_last m' = Some c"
      "om' = net_add_all (re_listen e) [''tcp_listen_drops_ps''] (net_add_all (re_stack e) stack_keys (net_add_all (re_ifaces e) iface_keys om))"
    by (auto simp: net_rates_def)
  have "om_keys om' = om_keys om @ missing_keys linux cur"
    using ok by (auto simp: eq om_keys_net_add_all missing_keys_def errs_of_def)
  moreover have "linux \<or> nr_listen cur = None" using ok eq(1) by (simp add: errs_of_def)
  moreover have "\<exists>p. (ntm_last m = Some p \<or> ntm_last m = None) \<and> physical_only p \<and> nr_at p < nr_at cur \<and> (\<forall>ob \<in> set obs. net_ob_ok p cur ob)"
    if ne: "obs \<noteq> []"
  proof -
    from between_ok [OF ne [unfolded eq(2)]] obtain p where p: "prev = Some p" "nr_at p < nr_at c" "\<forall>ob \<in> set obs. net_ob_ok p c ob"
      using eq(2) by blast
    then show ?thesis using ok eq(1) by (cases "ntm_last m") auto
  qed
  ultimately show ?thesis using ok eq(1,3) by blast
qed

section \<open>What the rates measure\<close>

text \<open>
  How much a counter grew from one reading to the other: summed over the interfaces that both hold, as long as
  it went backwards on none of them.
\<close>

definition shared_ifaces :: "net_reading \<Rightarrow> net_reading \<Rightarrow> string list" where
  "shared_ifaces prev cur = (case (nr_ifaces prev, nr_ifaces cur) of
       (Some p, Some c) \<Rightarrow> filter (gm_has p) (map fst c) | _ \<Rightarrow> [])"

definition iface_at :: "net_reading \<Rightarrow> (iface_counters \<Rightarrow> u64) \<Rightarrow> string \<Rightarrow> nat" where
  "iface_at r f k = unat (f (the (gm_get (the (nr_ifaces r)) k)))"

definition iface_growth :: "(iface_counters \<Rightarrow> u64) \<Rightarrow> net_reading \<Rightarrow> net_reading \<Rightarrow> u64 option" where
  "iface_growth f prev cur = (if shared_ifaces prev cur = [] \<or> list_ex (\<lambda>k. iface_at cur f k < iface_at prev f k) (shared_ifaces prev cur)
     then None else Some (of_nat (\<Sum>k\<leftarrow>shared_ifaces prev cur. iface_at cur f k - iface_at prev f k)))"

definition growth :: "u64 option \<Rightarrow> u64 option \<Rightarrow> u64 option" where
  "growth prev cur = (case (prev, cur) of
       (Some p, Some c) \<Rightarrow> if unat c < unat p then None else Some (of_nat (unat c - unat p)) | _ \<Rightarrow> None)"

definition stack_growth :: "(stack_counters \<Rightarrow> u64) \<Rightarrow> net_reading \<Rightarrow> net_reading \<Rightarrow> u64 option" where
  "stack_growth f prev cur = growth (map_option f (nr_stack prev)) (map_option f (nr_stack cur))"

text \<open>The value of every key, from the growth of its counter and the seconds between the readings.\<close>

definition rates_between :: "net_reading \<Rightarrow> net_reading \<Rightarrow> (string \<times> f64 option) list" where
  "rates_between prev cur = (
     let secs = secs_of (time_sub (nr_at cur) (nr_at prev));
         megabits = (\<lambda>f. map_option (\<lambda>d. round2 (fdiv (fdiv (fmul (f_of_word d) (Fin 8)) (Fin 1000000)) secs)) (iface_growth f prev cur));
         events = (\<lambda>f. map_option (\<lambda>d. round2 (fdiv (fdiv (fmul (f_of_word d) (Fin 1)) (Fin 1)) secs)) (iface_growth f prev cur));
         counted = map_option (\<lambda>d. round2 (fdiv (f_of_word d) secs));
         share = (case (stack_growth sk_out_segs prev cur, stack_growth sk_retrans prev cur) of
             (Some out, Some again) \<Rightarrow> if out + again = 0 then None
               else Some (round2 (fmin (fmax (fmul (fdiv (f_of_word again) (f_of_word (out + again))) (Fin 100)) (Fin 0)) (Fin 100)))
           | _ \<Rightarrow> None)
     in [(''rx_mbps'', megabits if_rx_bytes), (''tx_mbps'', megabits if_tx_bytes), (''rx_pps'', events if_rx_packets),
         (''tx_pps'', events if_tx_packets), (''rx_errors_ps'', events if_rx_errors), (''tx_errors_ps'', events if_tx_errors),
         (''rx_drops_ps'', events if_rx_drops), (''tx_drops_ps'', events if_tx_drops), (''tcp_retrans_pct'', share),
         (''tcp_resets_ps'', counted (stack_growth sk_out_rsts prev cur)), (''udp_errors_ps'', counted (stack_growth sk_udp_errors prev cur)),
         (''tcp_listen_drops_ps'', counted (growth (nr_listen prev) (nr_listen cur)))])"

definition one_rate :: "string \<times> f64 option \<Rightarrow> observation list" where
  "one_rate kv = (case snd kv of None \<Rightarrow> [] | Some x \<Rightarrow> [host_ob (fst kv) (VF64 x)])"

definition as_reported :: "(string \<times> f64 option) list \<Rightarrow> observation list" where
  "as_reported kvs = concat (map one_rate kvs)"

text \<open>The readings of a collection: the retained one and a new one, or the two around the pause of a first collection.\<close>

definition readings_taken :: "'w net_host \<Rightarrow> net_module \<Rightarrow> bool \<Rightarrow> 'w \<Rightarrow> net_reading option \<Rightarrow> net_reading \<Rightarrow> bool" where
  "readings_taken h m linux w prev cur \<longleftrightarrow> (case net_read h linux w of (first, _, w1) \<Rightarrow> (case ntm_last m of
       Some p \<Rightarrow> prev = Some p \<and> cur = first
     | None \<Rightarrow> if net_can_prime h m w1 \<and> fst (nh_sleep h (net_prime m) w1)
         then prev = Some first \<and> cur = fst (net_read h linux (snd (nh_sleep h (net_prime m) w1)))
         else prev = None \<and> cur = first))"

lemma net_readings_taken:
  assumes "net_readings h m linux w = (cur, e, prev, w')"
  shows "readings_taken h m linux w prev cur"
proof -
  obtain c1 e1 w1 where one: "net_read h linux w = (c1, e1, w1)" by (metis prod_cases3)
  obtain ok w2 where s: "nh_sleep h (net_prime m) w1 = (ok, w2)" by fastforce
  obtain c2 e2 w3 where two: "net_read h linux w2 = (c2, e2, w3)" by (metis prod_cases3)
  show ?thesis
  proof (cases "ntm_last m")
    case None
    then show ?thesis using assms by (cases ok) (auto simp: net_readings_def readings_taken_def one s two split: if_splits)
  next
    case (Some p)
    then show ?thesis using assms unfolding net_readings_def readings_taken_def one by (clarsimp simp: Some)
  qed
qed

lemma word_growth: "(p :: u64) \<le> c \<Longrightarrow> of_nat (unat c - unat p) = c - p"
  by (simp add: word_le_nat_alt of_nat_diff)

lemma growth_word: "growth (Some p) (Some c) = (if p \<le> c then Some (c - p) else None)"
proof (cases "p \<le> c")
  case True
  then have "\<not> unat c < unat p" by (simp add: word_le_nat_alt)
  then show ?thesis using True word_growth [OF True] by (simp add: growth_def)
next
  case False
  then have "unat c < unat p" by (simp add: word_less_nat_alt [symmetric] not_le)
  then show ?thesis using False by (simp add: growth_def)
qed

lemma growth_none: "growth None c = None" "growth p None = None"
  by (simp_all add: growth_def split: option.split)

lemma common_shared:
  assumes "physical_only cur"
  shows "common_ifaces prev cur = map (\<lambda>k. (the (gm_get (the (nr_ifaces prev)) k), the (gm_get (the (nr_ifaces cur)) k))) (shared_ifaces prev cur)"
proof (cases "nr_ifaces prev = None \<or> nr_ifaces cur = None")
  case True
  then show ?thesis by (auto simp: common_ifaces_def shared_ifaces_def split: option.splits)
next
  case False
  then obtain p c where pc: "nr_ifaces prev = Some p" "nr_ifaces cur = Some c" by auto
  have ok: "gm_ok c" using assms pc(2) by (simp add: physical_only_def physical_map_def)
  have "concat (map (\<lambda>(k, x). case gm_get p k of None \<Rightarrow> [] | Some y \<Rightarrow> [(y, x)]) xs)
      = map (\<lambda>k. (the (gm_get p k), the (gm_get c k))) (filter (gm_has p) (map fst xs))" if "set xs \<subseteq> set c" for xs
    using that
  proof (induction xs)
    case (Cons kx xs)
    obtain k x where kx: "kx = (k, x)" by fastforce
    then have "gm_get c k = Some x" using Cons.prems ok by (simp add: gm_get_def gm_ok_def)
    then show ?case using Cons kx by (auto simp: gm_has_def split: option.splits)
  qed simp
  then show ?thesis using pc by (simp add: common_ifaces_def shared_ifaces_def)
qed

lemma iface_delta_growth:
  assumes "physical_only cur" "common_ifaces prev cur \<noteq> []"
  shows "iface_delta (common_ifaces prev cur) f = iface_growth f prev cur"
proof -
  let ?ks = "shared_ifaces prev cur"
  let ?p = "\<lambda>k. f (the (gm_get (the (nr_ifaces prev)) k))" and ?c = "\<lambda>k. f (the (gm_get (the (nr_ifaces cur)) k))"
  have ne: "?ks \<noteq> []" using assms common_shared [OF assms(1), of prev] by auto
  have less: "list_ex (\<lambda>k. ?c k < ?p k) ?ks = list_ex (\<lambda>k. iface_at cur f k < iface_at prev f k) ?ks"
    by (simp add: iface_at_def word_less_nat_alt)
  have "(\<Sum>k\<leftarrow>ks. ?c k - ?p k) = of_nat (\<Sum>k\<leftarrow>ks. iface_at cur f k - iface_at prev f k)" if "\<forall>k\<in>set ks. ?p k \<le> ?c k" for ks
    using that by (induction ks) (simp_all add: iface_at_def word_growth)
  then have "(\<Sum>k\<leftarrow>?ks. ?c k - ?p k) = of_nat (\<Sum>k\<leftarrow>?ks. iface_at cur f k - iface_at prev f k)" if "\<not> list_ex (\<lambda>k. ?c k < ?p k) ?ks"
    using that by (auto simp: list_ex_iff not_less)
  then show ?thesis using ne less
    by (cases "list_ex (\<lambda>k. ?c k < ?p k) ?ks")
      (simp_all add: iface_delta_def iface_growth_def common_shared [OF assms(1)] list_ex_iff comp_def case_prod_beta)
qed

lemma iface_rates_between:
  assumes "physical_only cur"
  shows "iface_rates prev cur (secs_of (time_sub (nr_at cur) (nr_at prev))) = as_reported (take 8 (rates_between prev cur))"
proof (cases "common_ifaces prev cur = []")
  case True
  then have "shared_ifaces prev cur = []" using common_shared [OF assms, of prev] by simp
  then show ?thesis using True by (simp add: iface_rates_def as_reported_def rates_between_def iface_growth_def one_rate_def Let_def)
next
  case False
  let ?s = "secs_of (time_sub (nr_at cur) (nr_at prev))"
  have each: "(case iface_delta (common_ifaces prev cur) f of None \<Rightarrow> [] | Some d \<Rightarrow> [host_ob key (VF64 (iface_value d mul per ?s))])
      = one_rate (key, map_option (\<lambda>d. iface_value d mul per ?s) (iface_growth f prev cur))" for key f mul per
    unfolding iface_delta_growth [OF assms False] by (simp add: one_rate_def split: option.split)
  have "take 8 (rates_between prev cur)
      = map (\<lambda>(key, f, mul, per). (key, map_option (\<lambda>d. iface_value d mul per ?s) (iface_growth f prev cur))) iface_quantities"
    by (simp add: rates_between_def iface_quantities_def iface_value_def Let_def)
  then show ?thesis using False by (simp add: iface_rates_def each as_reported_def Let_def comp_def case_prod_unfold)
qed

lemma net_rate_growth: "(case (p, c) of (Some p, Some c) \<Rightarrow> net_rate key p c secs | _ \<Rightarrow> [])
    = one_rate (key, map_option (\<lambda>d. round2 (fdiv (f_of_word d) secs)) (growth p c))"
  by (cases p; cases c) (simp_all add: net_rate_def one_rate_def growth_word growth_none)

lemma retrans_growth: "(case (nr_stack prev, nr_stack cur) of (Some p, Some c) \<Rightarrow> retrans_share p c | _ \<Rightarrow> [])
    = one_rate (rates_between prev cur ! 8)"
proof -
  have pos: "0 < x \<longleftrightarrow> x \<noteq> 0" for x :: u64 by (simp add: word_neq_0_conv)
  show ?thesis
    by (cases "nr_stack prev"; cases "nr_stack cur")
      (simp_all add: retrans_share_def one_rate_def rates_between_def stack_growth_def growth_word growth_none net_pct_def Let_def pos)
qed

lemma stack_rates_between:
  "stack_rates prev cur (secs_of (time_sub (nr_at cur) (nr_at prev))) = as_reported (drop 8 (rates_between prev cur))"
proof -
  let ?s = "secs_of (time_sub (nr_at cur) (nr_at prev))"
  have "stack_rates prev cur ?s = one_rate (rates_between prev cur ! 8) @ one_rate (rates_between prev cur ! 9)
      @ one_rate (rates_between prev cur ! 10) @ one_rate (rates_between prev cur ! 11)"
    unfolding retrans_growth [symmetric]
    using net_rate_growth [where p = "nr_listen prev" and c = "nr_listen cur" and key = "''tcp_listen_drops_ps''" and secs = ?s]
      net_rate_growth [where p = "map_option sk_out_rsts (nr_stack prev)" and c = "map_option sk_out_rsts (nr_stack cur)" and key = "''tcp_resets_ps''" and secs = ?s]
      net_rate_growth [where p = "map_option sk_udp_errors (nr_stack prev)" and c = "map_option sk_udp_errors (nr_stack cur)" and key = "''udp_errors_ps''" and secs = ?s]
    by (cases "nr_stack prev"; cases "nr_stack cur") (simp_all add: stack_rates_def rates_between_def stack_growth_def growth_none one_rate_def Let_def)
  then show ?thesis by (simp add: as_reported_def rates_between_def Let_def)
qed

lemma between_rates:
  assumes "physical_only cur"
  shows "between prev cur = (case prev of None \<Rightarrow> [] | Some p \<Rightarrow> if nr_at p < nr_at cur then as_reported (rates_between p cur) else [])"
proof (cases prev)
  case (Some p)
  have pos: "(time_sub (nr_at cur) (nr_at p) \<le> 0) = (\<not> nr_at p < nr_at cur)" by (auto simp: time_sub_def)
  have "as_reported (take 8 xs) @ as_reported (drop 8 xs) = as_reported xs" for xs
    by (simp add: as_reported_def flip: concat_append map_append)
  then show ?thesis using Some pos iface_rates_between [OF assms] stack_rates_between by (simp add: between_def Let_def)
qed (simp add: between_def)

text \<open>
  C38: the network rates are measured between two readings: the one that an earlier collection retained and the
  one made now, or in a first collection the two around its pause, when there is time for one. Each value is
  the growth of its counter from the one to the other, summed over the physical interfaces that both hold,
  divided by the seconds between them, in decimal megabits for traffic, and rounded; the retransmitted share
  is a percentage of all segments sent in between. A counter that went backwards, an area that either
  reading lacks, or a clock that did not move forward leaves its value out, and nothing else is reported.
  Every value is a finite number, the share one from 0 to 100. Whatever areas fail, the newest reading is the
  baseline of the next collection, with physical interfaces only in it, and every key that an area missing
  from it would have given is named among the omissions, once; off Linux no listen drops are read.
\<close>

theorem network_measured:
  assumes "net_rates h m linux om w = (obs, cur, om', m', w')" "pred_option physical_only (ntm_last m)"
  shows "ntm_last m' = Some cur \<and> physical_only cur \<and> om_keys om' = om_keys om @ missing_keys linux cur \<and> (linux \<or> nr_listen cur = None)
    \<and> (\<exists>prev. readings_taken h m linux w prev cur
        \<and> obs = (case prev of None \<Rightarrow> [] | Some p \<Rightarrow> if nr_at p < nr_at cur then as_reported (rates_between p cur) else [])
        \<and> (\<forall>ob \<in> set obs. net_ob_ok (the prev) cur ob))"
proof -
  obtain c e prev w1 where r: "net_readings h m linux w = (c, e, prev, w1)" by (metis prod_cases4)
  from r assms(1) have eq: "cur = c" "obs = between prev c" by (auto simp: net_rates_def)
  note ok = net_rates_ok [OF assms]
  have "\<forall>ob \<in> set obs. net_ob_ok (the prev) cur ob"
  proof (cases "obs = []")
    case False
    then show ?thesis using between_ok [of prev c] eq by auto
  qed simp
  then have "\<exists>prev. readings_taken h m linux w prev cur
        \<and> obs = (case prev of None \<Rightarrow> [] | Some p \<Rightarrow> if nr_at p < nr_at cur then as_reported (rates_between p cur) else [])
        \<and> (\<forall>ob \<in> set obs. net_ob_ok (the prev) cur ob)"
    using net_readings_taken [OF r] between_rates [OF conjunct1 [OF conjunct2 [OF ok]], of prev] eq by (intro exI [of _ prev]) simp
  then show ?thesis using ok by (elim conjE) (intro conjI; assumption)
qed

section \<open>The contract\<close>

lemmas net_declares = declares_def allows_def entity_allowed_def is_host_entity_def host_obs_def net_manifest_def net_metric_def
  host_ob_def validate_value_def to_float_def collectable_def net_linux_only_def net_linux_windows_def

lemma net_declares_both:
  assumes "key \<in> set (iface_keys @ stack_keys)" "goos \<in> {''linux'', ''windows''}"
  shows "declares net_manifest goos (host_ob key (VF64 v)) \<longleftrightarrow> is_fin v"
proof -
  have "list_all (\<lambda>k. declares net_manifest goos (host_ob k (VF64 v)) \<longleftrightarrow> is_fin v) (iface_keys @ stack_keys)"
    using assms(2) by (elim insertE emptyE) (simp_all add: iface_keys_def stack_keys_def net_declares)
  then show ?thesis using assms(1) by (simp only: list_all_iff)
qed

lemma net_declares_linux:
  assumes "key \<in> {''tcp_listen_drops_ps'', ''tcp_time_wait'', ''conntrack_used_pct''}"
  shows "declares net_manifest ''linux'' (host_ob key (VF64 v)) \<longleftrightarrow> is_fin v"
  using assms by (elim insertE emptyE; simp add: net_declares)

definition net_inv :: "string \<Rightarrow> 'w net_host \<times> net_module \<times> 'w \<Rightarrow> bool" where
  "net_inv goos s \<longleftrightarrow> (case s of (h, m, w) \<Rightarrow> net_goos m = goos \<and> goos \<in> {''linux'', ''windows''} \<and> pred_option physical_only (ntm_last m))"

definition net_provider :: "'w net_host \<times> net_module \<times> 'w \<Rightarrow> (string + observation list) \<times> ('w net_host \<times> net_module \<times> 'w)" where
  "net_provider s = (case s of (h, m, w) \<Rightarrow> (case net_collect h m w of (r, om, ns, m', w') \<Rightarrow> (r, (h, m', w'))))"

lemma net_ob_declared:
  assumes "net_ob_ok prev cur ob" "goos \<in> {''linux'', ''windows''}" "goos = ''linux'' \<or> nr_listen cur = None"
  shows "declares net_manifest goos ob"
proof -
  obtain v where v: "is_fin v" and shapes: "(\<exists>key \<in> set iface_keys. ob = host_ob key (VF64 v))
      \<or> ob = host_ob ''tcp_retrans_pct'' (VF64 v) \<or> (\<exists>key \<in> {''tcp_resets_ps'', ''udp_errors_ps''}. ob = host_ob key (VF64 v))
      \<or> ob = host_ob ''tcp_listen_drops_ps'' (VF64 v) \<and> nr_listen cur \<noteq> None"
    using assms(1) unfolding net_ob_ok_def by blast
  have both: "declares net_manifest goos (host_ob key (VF64 v))" if "key \<in> set (iface_keys @ stack_keys)" for key
    using net_declares_both [OF that assms(2)] v by simp
  have stack: "''tcp_retrans_pct'' \<in> set (iface_keys @ stack_keys)" "{''tcp_resets_ps'', ''udp_errors_ps''} \<subseteq> set (iface_keys @ stack_keys)"
    by (simp_all add: stack_keys_def)
  from shapes show ?thesis
  proof (elim disjE conjE bexE)
    fix key assume "key \<in> set iface_keys" "ob = host_ob key (VF64 v)"
    then show ?thesis using both [of key] by simp
  next
    assume "ob = host_ob ''tcp_retrans_pct'' (VF64 v)"
    then show ?thesis using both [OF stack(1)] by simp
  next
    fix key assume "key \<in> {''tcp_resets_ps'', ''udp_errors_ps''}" "ob = host_ob key (VF64 v)"
    then show ?thesis using both [OF subsetD [OF stack(2)]] by simp
  next
    assume "ob = host_ob ''tcp_listen_drops_ps'' (VF64 v)" "nr_listen cur \<noteq> None"
    then have "goos = ''linux''" using disjE [OF assms(3)] by metis
    then show ?thesis using \<open>ob = _\<close> net_declares_linux [of "''tcp_listen_drops_ps''" v] v by simp
  qed
qed

lemma f_of_word_fin: "is_fin (f_of_word x)"
  by (rule upto_pow_fin [OF f_of_word_upto])

lemma net_gauges_ok:
  assumes "net_gauges h m cur (collectable net_linux_only goos) om w = (obs, om', m', w')" "goos \<in> {''linux'', ''windows''}"
  shows "net_goos m' = net_goos m \<and> ntm_last m' = ntm_last m \<and> (\<forall>ob \<in> set obs. declares net_manifest goos ob)"
proof -
  obtain tw w1 where t: "nt_time_wait (nh_reader h) w = (tw, w1)" by (metis surj_pair)
  obtain ct w2 where c: "nt_conntrack (nh_reader h) w1 = (ct, w2)" by (metis surj_pair)
  have est: "declares net_manifest goos (host_ob ''tcp_established'' (VF64 (f_of_word x)))" for x
    using net_declares_both [of "''tcp_established''" goos] assms(2) by (simp add: stack_keys_def f_of_word_fin)
  have pct: "is_fin (net_pct (f_of_word y) (f_of_word x))" if "x \<noteq> 0" for x y
    using is_pct_fin [OF net_pct_ok [OF that]] .
  have lin: "collectable net_linux_only goos \<longleftrightarrow> goos = ''linux''" by (auto simp: collectable_def net_linux_only_def)
  have m': "m' = m \<or> m' = m\<lparr>ntm_no_conntrack := True\<rparr>"
    using assms(1) by (auto simp: net_gauges_def Let_def t c split: if_splits sum.splits)
  have "\<forall>ob \<in> set obs. declares net_manifest goos ob"
    using assms(1) est pct
    by (cases tw; cases ct) (auto simp: net_gauges_def Let_def t c lin net_declares_linux f_of_word_fin split: if_splits option.splits)
  then show ?thesis using m' by (auto simp: net_goos_def)
qed

lemma net_collect_ok:
  assumes "net_inv goos (h, m, w)" "net_collect h m w = (r, om, ns, m', w')"
  shows "net_inv goos (h, m', w') \<and> (\<forall>obs. r = Inr obs \<longrightarrow> (\<forall>ob \<in> set obs. declares net_manifest goos ob))"
proof -
  from assms(1) have inv: "net_goos m = goos" "goos \<in> {''linux'', ''windows''}" "pred_option physical_only (ntm_last m)" by (auto simp: net_inv_def)
  let ?l = "collectable net_linux_only goos"
  obtain obs cur om1 m1 w1 where r: "net_rates h m ?l no_omissions w = (obs, cur, om1, m1, w1)" by (metis prod_cases5)
  obtain gs om2 m2 w2 where g: "net_gauges h m1 cur ?l om1 w1 = (gs, om2, m2, w2)" by (metis prod_cases4)
  note f = net_rates_ok [OF r inv(3)] and gk = net_gauges_ok [OF g inv(2)]
  have lin: "?l \<longleftrightarrow> goos = ''linux''" by (auto simp: collectable_def net_linux_only_def)
  have m1: "net_goos m1 = goos" using r inv(1) by (auto simp: net_rates_def net_goos_def split: prod.splits)
  have "\<forall>ob \<in> set obs. declares net_manifest goos ob"
  proof (cases "obs = []")
    case False
    then obtain prev where "\<forall>ob \<in> set obs. net_ob_ok prev cur ob" using f by blast
    then show ?thesis using f lin inv(2) net_ob_declared by blast
  qed simp
  then have "\<forall>ob \<in> set (obs @ gs). declares net_manifest goos ob" using gk by auto
  moreover have "m' = m2" "\<And>x. r = Inr x \<Longrightarrow> x = obs @ gs"
    using assms(2) r g inv(1) by (auto simp: net_collect_def Let_def split: if_splits)
  ultimately show ?thesis using gk m1 f inv(2) by (auto simp: net_inv_def)
qed

interpretation net: provider net_manifest goos net_provider "net_inv goos" "\<lambda>_. True" for goos
proof unfold_locales
  show "distinct (map a_key (m_attributes net_manifest))" by (simp add: net_manifest_def net_metric_def)
next
  fix s :: "'a net_host \<times> net_module \<times> 'a" and r s'
  assume "net_inv goos s" "net_provider s = (r, s')"
  then show "net_inv goos s'" using net_collect_ok by (fastforce simp: net_provider_def split: prod.splits)
next
  fix s :: "'a net_host \<times> net_module \<times> 'a" and obs s' ob
  assume "net_inv goos s" "net_provider s = (Inr obs, s')" "ob \<in> set obs"
  then show "declares net_manifest goos ob" using net_collect_ok by (fastforce simp: net_provider_def split: prod.splits)
qed

section \<open>At a concrete input\<close>

text \<open>A host whose interfaces cannot be read; it sends one reset a second, and the other counters stand still.\<close>

definition example_net :: "nat net_reader" where
  "example_net = \<lparr>nt_interfaces = (\<lambda>w. (Inl (plain ''down''), w)), nt_stack = (\<lambda>w. (Inr (no_stack\<lparr>sk_out_rsts := of_nat w\<rparr>), Suc w)), nt_listen_drops = (\<lambda>w. (Inr 0, w)),
     nt_time_wait = (\<lambda>w. (Inr 0, w)), nt_conntrack = (\<lambda>w. (Inl err_no_conntrack, w))\<rparr>"

definition example_net_host :: "nat net_host" where
  "example_net_host = \<lparr>nh_reader = example_net, nh_now = (\<lambda>w. int w * nano), nh_left = (\<lambda>w. None), nh_sleep = (\<lambda>d w. (True, w))\<rparr>"

definition example_net_module :: net_module where
  "example_net_module = \<lparr>ntm_goos = ''linux'', ntm_runtime_goos = [], ntm_prime = 0, ntm_last = None, ntm_no_iface = False, ntm_no_conntrack = False\<rparr>"

theorem network_measured_witness:
  "\<exists>obs cur om' m' w' prev. net_rates example_net_host example_net_module True no_omissions 0 = (obs, cur, om', m', w')
     \<and> om_keys om' = iface_keys \<and> ntm_last m' = Some cur \<and> nr_at prev = nano \<and> nr_at cur = 2 * nano
     \<and> obs = as_reported (rates_between prev cur) \<and> stack_growth sk_out_rsts prev cur = Some 1 \<and> stack_growth sk_udp_errors prev cur = Some 0"
proof -
  obtain obs cur om' m' w' where run: "net_rates example_net_host example_net_module True no_omissions 0 = (obs, cur, om', m', w')" by (metis prod_cases5)
  have "pred_option physical_only (ntm_last example_net_module)" by (simp add: example_net_module_def)
  from network_measured [OF run this] obtain prev where t: "readings_taken example_net_host example_net_module True 0 prev cur"
      "obs = (case prev of None \<Rightarrow> [] | Some p \<Rightarrow> if nr_at p < nr_at cur then as_reported (rates_between p cur) else [])"
      and rest: "ntm_last m' = Some cur" "om_keys om' = om_keys no_omissions @ missing_keys True cur" by blast
  from t(1) obtain p where p: "prev = Some p" "nr_at p = nano" "nr_at cur = 2 * nano" "nr_ifaces cur = None" "nr_listen cur \<noteq> None"
      "nr_stack p = Some (no_stack\<lparr>sk_out_rsts := 0\<rparr>)" "nr_stack cur = Some (no_stack\<lparr>sk_out_rsts := 1\<rparr>)"
    by (auto simp: readings_taken_def net_read_def example_net_host_def example_net_def example_net_module_def net_can_prime_def Let_def succeeded_def)
  have "stack_growth sk_out_rsts p cur = Some 1" "stack_growth sk_udp_errors p cur = Some 0"
    using p by (simp_all add: stack_growth_def growth_def no_stack_def)
  moreover have "om_keys om' = iface_keys" using p rest(2) by (simp add: missing_keys_def no_omissions_def)
  moreover have "obs = as_reported (rates_between p cur)" using t(2) p by (simp add: nano_def)
  ultimately show ?thesis using run rest(1) p(2,3) by blast
qed

end
