(* ===== verification/Goparse.thy ===== *)
theory Goparse
  imports Gonum Gofloat
begin

text \<open>
  The parsers of Go's standard library that the UPS module uses: \<open>strconv.ParseFloat\<close>, the hexadecimal
  \<open>ParseUint\<close>, \<open>time.Parse\<close> for numeric layouts, and \<open>net.SplitHostPort\<close>.
\<close>

section \<open>Floating-point numbers\<close>

definition is_hex_digit :: "char \<Rightarrow> bool" where
  "is_hex_digit c \<longleftrightarrow> is_digit c \<or> (97 \<le> byte (lower_byte c) \<and> byte (lower_byte c) \<le> 102)"

definition hex_value :: "char \<Rightarrow> nat" where
  "hex_value c = (if is_digit c then digit_value c else byte (lower_byte c) - 87)"

definition value_in :: "nat \<Rightarrow> string \<Rightarrow> nat" where
  "value_in base s = foldl (\<lambda>n c. n * base + hex_value c) 0 s"

definition lower :: "string \<Rightarrow> string" where
  "lower s = map lower_byte s"

definition float_special :: "string \<Rightarrow> f64 option" where
  "float_special s = (let l = lower s; r = after_sign l in
     if r \<in> {''inf'', ''infinity''} then Some (if take 1 s = ''-'' then NInf else PInf)
     else if l = ''nan'' then Some NaN else None)"

text \<open>Underscores only between digits, or after the prefix that names the base.\<close>

datatype underscore_state = AtStart | AfterDigit | AfterUnderscore | AfterOther

fun underscores_from :: "bool \<Rightarrow> underscore_state \<Rightarrow> string \<Rightarrow> bool" where
  "underscores_from hex st [] = (st \<noteq> AfterUnderscore)"
| "underscores_from hex st (c # cs) = (
     if is_digit c \<or> (hex \<and> is_hex_digit c) then underscores_from hex AfterDigit cs
     else if c = CHR ''_'' then st = AfterDigit \<and> underscores_from hex AfterUnderscore cs
     else st \<noteq> AfterUnderscore \<and> underscores_from hex AfterOther cs)"

definition base_prefix :: "string \<Rightarrow> bool" where
  "base_prefix s \<longleftrightarrow> (case lower s of a # b # _ \<Rightarrow> a = CHR ''0'' \<and> b \<in> {CHR ''b'', CHR ''o'', CHR ''x''} | _ \<Rightarrow> False)"

definition hex_prefix :: "string \<Rightarrow> bool" where
  "hex_prefix s \<longleftrightarrow> take 2 (lower s) = ''0x''"

definition underscores_ok :: "string \<Rightarrow> bool" where
  "underscores_ok s = (let r = after_sign s in
     if base_prefix r then underscores_from (hex_prefix r) AfterDigit (drop 2 r) else underscores_from False AtStart r)"

text \<open>The exponent that follows the mantissa: its digits count up to five of them.\<close>

definition exp_value :: "string \<Rightarrow> int" where
  "exp_value ds = foldl (\<lambda>e c. if c = CHR ''_'' \<or> 10000 \<le> e then e else e * 10 + int (digit_value c)) 0 ds"

definition float_exp :: "char \<Rightarrow> string \<Rightarrow> int option" where
  "float_exp mark s = (case s of
       [] \<Rightarrow> None
     | c # r \<Rightarrow> (let ds = after_sign r in
         if lower_byte c = mark \<and> ds \<noteq> [] \<and> is_digit (hd ds) \<and> list_all (\<lambda>d. is_digit d \<or> d = CHR ''_'') ds
         then Some (if take 1 r = ''-'' then - exp_value ds else exp_value ds) else None))"

definition float_value :: "string \<Rightarrow> rat option" where
  "float_value s = (let u = after_sign s; hex = (hex_prefix u \<and> 2 < length u); b = (if hex then drop 2 u else u);
       mant = takeWhile (\<lambda>c. is_digit c \<or> (hex \<and> is_hex_digit c) \<or> c = CHR ''_'' \<or> c = CHR ''.'') b;
       rest = drop (length mant) b;
       ds = filter (\<lambda>c. c \<noteq> CHR ''_'' \<and> c \<noteq> CHR ''.'') mant;
       places = int (length (filter (\<lambda>c. c \<noteq> CHR ''_'' \<and> c \<noteq> CHR ''.'') (dropWhile (\<lambda>c. c \<noteq> CHR ''.'') mant)));
       sgn = (if take 1 s = ''-'' then - 1 else 1);
       ex = (if rest = [] then (if hex then None else Some 0) else float_exp (if hex then CHR ''p'' else CHR ''e'') rest)
     in if ds = [] \<or> 1 < length (filter (\<lambda>c. c = CHR ''.'') mant) \<or> \<not> underscores_ok s then None
        else (case ex of
            None \<Rightarrow> None
          | Some e \<Rightarrow> Some (sgn * (if hex then of_nat (value_in 16 ds) * 2 powi (e - 4 * places) else of_nat (value_in 10 ds) * 10 powi (e - places)))))"

definition parse_float :: "string \<Rightarrow> f64 option" where
  "parse_float s = (case float_special s of
       Some v \<Rightarrow> Some v
     | None \<Rightarrow> (case float_value s of
         None \<Rightarrow> None
       | Some q \<Rightarrow> (case rnd q of Fin x \<Rightarrow> Some (Fin x) | _ \<Rightarrow> None)))"

section \<open>Unsigned integers\<close>

definition parse_hex32 :: "string \<Rightarrow> nat option" where
  "parse_hex32 s = (if s \<noteq> [] \<and> list_all is_hex_digit s \<and> value_in 16 s < 2 ^ 32 then Some (value_in 16 s) else None)"

section \<open>Times\<close>

text \<open>Days since 1970-01-01 of a date of the proleptic Gregorian calendar, and the days of a month.\<close>

definition days_of :: "int \<Rightarrow> int \<Rightarrow> int \<Rightarrow> int" where
  "days_of y m d = (let y' = (if m \<le> 2 then y - 1 else y); era = y' div 400; yoe = y' mod 400;
       mp = (if 2 < m then m - 3 else m + 9); doy = (153 * mp + 2) div 5 + d - 1;
       doe = yoe * 365 + yoe div 4 - yoe div 100 + doy
     in era * 146097 + doe - 719468)"

definition leap_year :: "int \<Rightarrow> bool" where
  "leap_year y \<longleftrightarrow> y mod 4 = 0 \<and> (y mod 100 \<noteq> 0 \<or> y mod 400 = 0)"

definition month_days :: "int \<Rightarrow> int \<Rightarrow> int" where
  "month_days y m = (if m = 2 then (if leap_year y then 29 else 28) else if m \<in> {4, 6, 9, 11} then 30 else 31)"

lemma days_of_examples: "days_of 1970 1 1 = 0 \<and> days_of 2024 2 29 = 19782 \<and> days_of 1 1 1 = - 719162"
  by code_simp

datatype chunk = Lit string | Year4 | Year2 | Month2 | Day2 | Hour2 | Minute2 | Second2 | Zone

record clock_parts =
  cp_year :: int
  cp_month :: int
  cp_day :: int
  cp_hour :: int
  cp_minute :: int
  cp_second :: int
  cp_nanos :: int
  cp_offset :: int

definition no_clock :: clock_parts where
  "no_clock = \<lparr>cp_year = 0, cp_month = 1, cp_day = 1, cp_hour = 0, cp_minute = 0, cp_second = 0, cp_nanos = 0, cp_offset = 0\<rparr>"

text \<open>One or two digits, as \<open>getnum\<close> takes them.\<close>

definition getnum :: "bool \<Rightarrow> string \<Rightarrow> (int \<times> string) option" where
  "getnum fixed s = (case s of
       a # r \<Rightarrow> if \<not> is_digit a then None
         else (case r of
             b # r' \<Rightarrow> if is_digit b then Some (int (digits_value [a, b]), r')
                        else if fixed then None else Some (int (digit_value a), r)
           | [] \<Rightarrow> if fixed then None else Some (int (digit_value a), []))
     | [] \<Rightarrow> None)"

definition cutspace :: "string \<Rightarrow> string" where
  "cutspace s = dropWhile (\<lambda>c. c = CHR '' '') s"

function skip_literal :: "string \<Rightarrow> string \<Rightarrow> string option" where
  "skip_literal [] v = Some v"
| "skip_literal (c # p) v = (
     if c = CHR '' '' then (if v \<noteq> [] \<and> hd v \<noteq> CHR '' '' then None else skip_literal (cutspace p) (cutspace v))
     else (case v of [] \<Rightarrow> None | d # v' \<Rightarrow> if c = d then skip_literal p v' else None))"
  by pat_completeness auto
termination
  by (relation "measure (\<lambda>(p, v). length p)") (auto simp: cutspace_def le_imp_less_Suc length_dropWhile_le)

text \<open>A fraction of a second that the layout does not name: nine digits of it count.\<close>

definition fraction :: "string \<Rightarrow> int \<times> string" where
  "fraction v = (case v of
       c # d # r \<Rightarrow> if (c = CHR ''.'' \<or> c = CHR '','') \<and> is_digit d
         then (let ds = takeWhile is_digit (d # r); t = take 9 ds in
           (int (digits_value t) * 10 ^ (9 - length t), drop (length ds) (d # r)))
         else (0, v)
     | _ \<Rightarrow> (0, v))"

definition zone_offset :: "string \<Rightarrow> (int \<times> string) option" where
  "zone_offset v = (case v of
       s # a # b # c # d # r \<Rightarrow> (case (getnum True [a, b], getnum True [c, d]) of
           (Some (h, _), Some (m, _)) \<Rightarrow>
             if 24 < h \<or> 60 < m \<or> s \<notin> {CHR ''+'', CHR ''-''} then None
             else Some ((if s = CHR ''-'' then - 1 else 1) * ((h * 60 + m) * 60), r)
         | _ \<Rightarrow> None)
     | _ \<Rightarrow> None)"

definition parse_year :: "nat \<Rightarrow> string \<Rightarrow> (int \<times> string) option" where
  "parse_year n v = (if length v < n then None
     else (case atoi (take n v) of
         None \<Rightarrow> None
       | Some y \<Rightarrow> if n = 2 then Some (if 69 \<le> y then y + 1900 else y + 2000, drop 2 v)
           else if is_digit (hd v) then Some (y, drop n v) else None))"

definition in_range :: "int \<Rightarrow> int \<Rightarrow> (int \<times> string) option \<Rightarrow> (int \<times> string) option" where
  "in_range lo hi r = (case r of Some (x, v) \<Rightarrow> if lo \<le> x \<and> x \<le> hi then Some (x, v) else None | None \<Rightarrow> None)"

definition parse_chunk :: "chunk \<Rightarrow> clock_parts \<Rightarrow> string \<Rightarrow> (clock_parts \<times> string) option" where
  "parse_chunk ch cp v = (case ch of
       Lit p \<Rightarrow> map_option (\<lambda>r. (cp, r)) (skip_literal p v)
     | Year4 \<Rightarrow> map_option (\<lambda>(x, r). (cp\<lparr>cp_year := x\<rparr>, r)) (parse_year 4 v)
     | Year2 \<Rightarrow> map_option (\<lambda>(x, r). (cp\<lparr>cp_year := x\<rparr>, r)) (parse_year 2 v)
     | Month2 \<Rightarrow> map_option (\<lambda>(x, r). (cp\<lparr>cp_month := x\<rparr>, r)) (in_range 1 12 (getnum True v))
     | Day2 \<Rightarrow> map_option (\<lambda>(x, r). (cp\<lparr>cp_day := x\<rparr>, r)) (getnum True v)
     | Hour2 \<Rightarrow> map_option (\<lambda>(x, r). (cp\<lparr>cp_hour := x\<rparr>, r)) (in_range 0 23 (getnum False v))
     | Minute2 \<Rightarrow> map_option (\<lambda>(x, r). (cp\<lparr>cp_minute := x\<rparr>, r)) (in_range 0 59 (getnum True v))
     | Second2 \<Rightarrow> map_option (\<lambda>(x, r). (case fraction r of (ns, r') \<Rightarrow> (cp\<lparr>cp_second := x, cp_nanos := ns\<rparr>, r'))) (in_range 0 59 (getnum True v))
     | Zone \<Rightarrow> map_option (\<lambda>(x, r). (cp\<lparr>cp_offset := x\<rparr>, r)) (zone_offset v))"

fun parse_layout :: "chunk list \<Rightarrow> clock_parts \<Rightarrow> string \<Rightarrow> clock_parts option" where
  "parse_layout [] cp v = (if v = [] then Some cp else None)"
| "parse_layout (ch # cs) cp v = (case parse_chunk ch cp v of None \<Rightarrow> None | Some (cp', r) \<Rightarrow> parse_layout cs cp' r)"

definition instant_of :: "clock_parts \<Rightarrow> int" where
  "instant_of cp = (days_of (cp_year cp) (cp_month cp) (cp_day cp) * 86400 + cp_hour cp * 3600 + cp_minute cp * 60 + cp_second cp
     - cp_offset cp) * nano + cp_nanos cp"

definition parse_time :: "chunk list \<Rightarrow> string \<Rightarrow> int option" where
  "parse_time layout s = (case parse_layout layout no_clock s of
       None \<Rightarrow> None
     | Some cp \<Rightarrow> if 1 \<le> cp_day cp \<and> cp_day cp \<le> month_days (cp_year cp) (cp_month cp) then Some (instant_of cp) else None)"

section \<open>Addresses\<close>

definition split_host_port :: "string \<Rightarrow> (string \<times> string) option" where
  "split_host_port s = (let cs = split_at (CHR '':'') s; port = last cs; before = join '':'' (butlast cs) in
     if length cs < 2 then None
     else if hd s = CHR ''['' then (case cut_at (CHR '']'') s of
         None \<Rightarrow> None
       | Some (a, b) \<Rightarrow> if a @ '']'' \<noteq> before then None
           else if CHR ''['' \<in> set (drop 1 s) \<or> CHR '']'' \<in> set b then None else Some (drop 1 a, port))
     else if CHR '':'' \<in> set before \<or> CHR ''['' \<in> set s \<or> CHR '']'' \<in> set s then None
     else Some (before, port))"

end
