(* ===== verification/Nis.thy ===== *)
theory Nis
  imports Goparse Prelude
begin

text \<open>
  \<open>internal/module/ups\<close> (nis.go, status.go): one exchange with apcupsd's Network Information Server and the
  fields of the status it answers. The connection is a parameter: what it accepts, the bytes that arrive
  and how they end.
\<close>

section \<open>The exchange\<close>

definition max_frame :: nat where "max_frame = 1024"

definition max_lines :: nat where "max_lines = 512"

definition max_reply :: nat where "max_reply = 65536"

text \<open>The bytes end with the other side's close, or with an error; the context's reason, if any, is in its text.\<close>

record nis_conn =
  nc_deadline :: "string option"
  nc_write :: "string \<Rightarrow> string option"
  nc_bytes :: string
  nc_end :: "string option"

datatype nis_error = DialFailed string | NoDeadline string | SendFailed string | ClosedEarly | ClosedInFrame | ReadBroken string
  | FrameTooLong nat | ReplyTooLong

text \<open>One message: its length in two bytes, the higher first, and its bytes.\<close>

definition nis_frame :: "string \<Rightarrow> string" where
  "nis_frame s = [char_of (length s div 256 mod 256), char_of (length s mod 256)] @ s"

definition trim_frame :: "string \<Rightarrow> string" where
  "trim_frame s = rev (dropWhile (\<lambda>c. c \<in> {CHR 0x0D, CHR 0x0A, CHR 0x00}) (rev s))"

definition ended :: "nis_error \<Rightarrow> string option \<Rightarrow> nis_error" where
  "ended eof stop = (case stop of None \<Rightarrow> eof | Some e \<Rightarrow> ReadBroken e)"

function read_frames :: "string option \<Rightarrow> string \<Rightarrow> nat \<Rightarrow> string list \<Rightarrow> nis_error + string list" where
  "read_frames stop s got ls = (case s of
       a # b # r \<Rightarrow> (let n = byte a * 256 + byte b in
         if n = 0 then Inr ls
         else if max_frame < n then Inl (FrameTooLong n)
         else if max_reply < got + n \<or> max_lines \<le> length ls then Inl ReplyTooLong
         else if length r < n then Inl (ended ClosedInFrame stop)
         else read_frames stop (drop n r) (got + n) (ls @ [trim_frame (take n r)]))
     | _ \<Rightarrow> Inl (ended ClosedEarly stop))"
  by pat_completeness auto
termination
  by (relation "measure (\<lambda>(stop, s, got, ls). length s)") auto

declare read_frames.simps [simp del]

definition read_status :: "(string \<Rightarrow> string + nis_conn) \<Rightarrow> string \<Rightarrow> nis_error + string list" where
  "read_status dial address = (case dial address of
       Inl e \<Rightarrow> Inl (DialFailed e)
     | Inr cn \<Rightarrow> (case nc_deadline cn of
         Some e \<Rightarrow> Inl (NoDeadline e)
       | None \<Rightarrow> (case nc_write cn (nis_frame ''status'') of
           Some e \<Rightarrow> Inl (SendFailed e)
         | None \<Rightarrow> read_frames (nc_end cn) (nc_bytes cn) 0 [])))"

section \<open>The status\<close>

type_synonym ups_status = "(string, string) gomap"

datatype status_error = AnsweredText string | EmptyReply | NotAStatus

fun status_lines :: "string list \<Rightarrow> ups_status \<Rightarrow> string list \<Rightarrow> ups_status \<times> string list" where
  "status_lines [] st other = (st, other)"
| "status_lines (l # ls) st other = (case cut_at (CHR '':'') l of
       None \<Rightarrow> status_lines ls st (if trim_space l \<noteq> [] then other @ [trim_space l] else other)
     | Some (k, v) \<Rightarrow> if trim_space k = [] then status_lines ls st (if trim_space l \<noteq> [] then other @ [trim_space l] else other)
         else status_lines ls (gm_put (trim_space k) (trim_space v) st) other)"

definition parse_status :: "string list \<Rightarrow> status_error + ups_status" where
  "parse_status ls = (case status_lines ls [] [] of (st, other) \<Rightarrow>
     if st = [] then (if other \<noteq> [] then Inl (AnsweredText (join '' '' other)) else Inl EmptyReply)
     else if \<not> gm_has st ''STATFLAG'' \<and> \<not> gm_has st ''STATUS'' then Inl NotAStatus
     else Inr st)"

section \<open>The fields\<close>

definition status_text :: "ups_status \<Rightarrow> string \<Rightarrow> string option" where
  "status_text st key = (case gm_get st key of None \<Rightarrow> None | Some v \<Rightarrow> if v \<noteq> [] then Some v else None)"

datatype field_error = NoUnit string string string | WrongUnit string string string | NotANumber string string
  | NotHexadecimal string | NotADateTime string string | NotADate string string | UnknownSelftest string | NoStatflag

text \<open>A field is absent (None), or present with an error or a value.\<close>

definition field_number :: "ups_status \<Rightarrow> string \<Rightarrow> string \<Rightarrow> (field_error + f64) option" where
  "field_number st key unit = (case status_text st key of
       None \<Rightarrow> None
     | Some v \<Rightarrow> Some (case go_fields v of
         x # u # _ \<Rightarrow> if u \<noteq> unit then Inl (WrongUnit key v unit)
             else (case parse_float x of None \<Rightarrow> Inl (NotANumber key v) | Some f \<Rightarrow> Inr f)
       | _ \<Rightarrow> Inl (NoUnit key v unit)))"

definition field_flags :: "ups_status \<Rightarrow> (field_error + nat) option" where
  "field_flags st = (case status_text st ''STATFLAG'' of
       None \<Rightarrow> None
     | Some v \<Rightarrow> Some (case parse_hex32 (trim_prefix ''0x'' (lower v)) of None \<Rightarrow> Inl (NotHexadecimal v) | Some n \<Rightarrow> Inr n))"

definition instant_layout :: "chunk list" where
  "instant_layout = [Year4, Lit ''-'', Month2, Lit ''-'', Day2, Lit '' '', Hour2, Lit '':'', Minute2, Lit '':'', Second2, Lit '' '', Zone]"

definition date_layouts :: "chunk list list" where
  "date_layouts = [[Year4, Lit ''-'', Month2, Lit ''-'', Day2], [Month2, Lit ''/'', Day2, Lit ''/'', Year2], [Month2, Lit ''/'', Day2, Lit ''/'', Year4]]"

definition field_instant :: "ups_status \<Rightarrow> string \<Rightarrow> (field_error + int) option" where
  "field_instant st key = (case status_text st key of
       None \<Rightarrow> None
     | Some v \<Rightarrow> if v = ''N/A'' then None
         else Some (case parse_time instant_layout v of None \<Rightarrow> Inl (NotADateTime key v) | Some t \<Rightarrow> Inr t))"

fun first_time :: "chunk list list \<Rightarrow> string \<Rightarrow> int option" where
  "first_time [] v = None"
| "first_time (l # ls) v = (case parse_time l v of Some t \<Rightarrow> Some t | None \<Rightarrow> first_time ls v)"

definition field_date :: "ups_status \<Rightarrow> string \<Rightarrow> (field_error + int) option" where
  "field_date st key = (case status_text st key of
       None \<Rightarrow> None
     | Some v \<Rightarrow> if v = ''N/A'' then None
         else Some (case first_time date_layouts v of None \<Rightarrow> Inl (NotADate key v) | Some t \<Rightarrow> Inr t))"

definition selftest_options :: "(string, string) gomap" where
  "selftest_options = [(''OK'', ''passed''), (''BT'', ''failed_capacity''), (''NG'', ''failed''), (''WN'', ''warning''), (''IP'', ''in_progress'')]"

text \<open>Present with nothing to publish is \<open>Inr None\<close>.\<close>

definition field_selftest :: "ups_status \<Rightarrow> (field_error + string option) option" where
  "field_selftest st = (case status_text st ''SELFTEST'' of
       None \<Rightarrow> None
     | Some v \<Rightarrow> Some (if v = ''NO'' \<or> v = ''??'' then Inr None
         else (case gm_get selftest_options v of Some opt \<Rightarrow> Inr (Some opt) | None \<Rightarrow> Inl (UnknownSelftest v))))"

section \<open>A reply is read back, within its limits\<close>

lemma byte_char_of: "byte (char_of n) = n mod 256"
  by (simp add: byte_def)

lemma nis_frame_parts:
  assumes "length s < 65536"
  obtains a b where "nis_frame s = a # b # s" "byte a * 256 + byte b = length s"
proof (rule that)
  show "nis_frame s = char_of (length s div 256 mod 256) # char_of (length s mod 256) # s" by (simp add: nis_frame_def)
  have "length s div 256 < 256" using assms by (simp add: less_mult_imp_div_less)
  then show "byte (char_of (length s div 256 mod 256)) * 256 + byte (char_of (length s mod 256)) = length s"
    by (simp only: byte_char_of mod_mod_trivial mod_less div_mult_mod_eq)
qed

lemma read_step: "read_frames stop (a # b # r) got ls = (let n = byte a * 256 + byte b in
     if n = 0 then Inr ls
     else if max_frame < n then Inl (FrameTooLong n)
     else if max_reply < got + n \<or> max_lines \<le> length ls then Inl ReplyTooLong
     else if length r < n then Inl (ended ClosedInFrame stop)
     else read_frames stop (drop n r) (got + n) (ls @ [trim_frame (take n r)]))"
  by (subst read_frames.simps) simp

lemma read_one:
  assumes "0 < length l" "length l \<le> max_frame" "got + length l \<le> max_reply" "length ls < max_lines"
  shows "read_frames stop (nis_frame l @ rest) got ls = read_frames stop rest (got + length l) (ls @ [trim_frame l])"
proof -
  obtain a b where n: "nis_frame l = a # b # l" "byte a * 256 + byte b = length l"
    using nis_frame_parts [of l] assms(2) by (auto simp: max_frame_def)
  show ?thesis using assms unfolding n(1) append_Cons read_step n(2) by simp
qed

lemma read_all:
  assumes "\<forall>l \<in> set msgs. 0 < length l \<and> length l \<le> max_frame" "got + sum_list (map length msgs) \<le> max_reply"
    "length ls + length msgs \<le> max_lines"
  shows "read_frames stop (concat (map nis_frame msgs) @ nis_frame [] @ rest) got ls = Inr (ls @ map trim_frame msgs)"
  using assms
proof (induction msgs arbitrary: got ls)
  case Nil
  obtain a b where n: "nis_frame [] = a # b # []" "byte a * 256 + byte b = 0" using nis_frame_parts [of "[]"] by auto
  show ?case unfolding list.map concat.simps append_Nil n(1) append_Cons read_step n(2) by simp
next
  case (Cons l msgs)
  then show ?case using read_one [of l got ls stop "concat (map nis_frame msgs) @ nis_frame [] @ rest"] by simp
qed

lemma trim_frame_length: "length (trim_frame s) \<le> length s"
  using length_dropWhile_le [of _ "rev s"] by (simp add: trim_frame_def)

lemma read_within:
  assumes "read_frames stop s got ls = Inr ls'" "length ls \<le> max_lines" "got \<le> max_reply"
    "\<forall>l \<in> set ls. length l \<le> max_frame" "sum_list (map length ls) \<le> got"
  shows "length ls' \<le> max_lines \<and> sum_list (map length ls') \<le> max_reply \<and> (\<forall>l \<in> set ls'. length l \<le> max_frame)"
  using assms
proof (induction stop s got ls rule: read_frames.induct)
  case (1 stop s got ls)
  show ?case
  proof (cases s)
    case Nil
    then show ?thesis using "1.prems"(1) by (simp add: read_frames.simps [of stop "[]"])
  next
    case (Cons a s1)
    show ?thesis
    proof (cases s1)
      case Nil
      then show ?thesis using "1.prems"(1) Cons by (simp add: read_frames.simps [of stop "[a]"])
    next
      case (Cons b r)
      note s = \<open>s = a # s1\<close> Cons
      let ?n = "byte a * 256 + byte b"
      show ?thesis
      proof (cases "?n = 0")
        case True
        then have "ls' = ls" using "1.prems"(1) unfolding s read_step by (simp add: Let_def)
        then show ?thesis using "1.prems" by simp
      next
        case False
        then have c: "\<not> max_frame < ?n" "\<not> (max_reply < got + ?n \<or> max_lines \<le> length ls)" "\<not> length r < ?n"
          and rest: "read_frames stop (drop ?n r) (got + ?n) (ls @ [trim_frame (take ?n r)]) = Inr ls'"
          using "1.prems"(1) unfolding s read_step by (auto simp: Let_def split: if_splits)
        have t: "length (trim_frame (take ?n r)) \<le> ?n" using trim_frame_length [of "take ?n r"] by simp
        show ?thesis
          by (rule "1.IH" [OF s(1) s(2) refl False c rest]) (use c t "1.prems" in auto)
      qed
    qed
  qed
qed

text \<open>
  C21: a reply is read back exactly, and no reply exceeds the limits. When apcupsd accepts the request and answers
  the frames of some messages (none empty, within the limits on their sizes, their number and their total) and the empty frame
  that ends them, the lines read are those messages without their line ends, whatever follows. And whatever
  bytes arrive, the lines read are at most 512, each at most 1024 bytes long and together at most 64 KiB.
\<close>

theorem nis_reply_read:
  assumes "dial address = Inr cn" "nc_deadline cn = None" "nc_write cn (nis_frame ''status'') = None"
  shows "(\<forall>msgs rest. nc_bytes cn = concat (map nis_frame msgs) @ nis_frame [] @ rest \<and> (\<forall>l \<in> set msgs. 0 < length l \<and> length l \<le> max_frame)
      \<and> sum_list (map length msgs) \<le> max_reply \<and> length msgs \<le> max_lines \<longrightarrow> read_status dial address = Inr (map trim_frame msgs))
    \<and> (\<forall>ls. read_status dial address = Inr ls
      \<longrightarrow> length ls \<le> max_lines \<and> sum_list (map length ls) \<le> max_reply \<and> (\<forall>l \<in> set ls. length l \<le> max_frame))"
proof (rule conjI)
  have run: "read_status dial address = read_frames (nc_end cn) (nc_bytes cn) 0 []"
    using assms by (simp add: read_status_def)
  show "\<forall>msgs rest. nc_bytes cn = concat (map nis_frame msgs) @ nis_frame [] @ rest \<and> (\<forall>l \<in> set msgs. 0 < length l \<and> length l \<le> max_frame)
      \<and> sum_list (map length msgs) \<le> max_reply \<and> length msgs \<le> max_lines \<longrightarrow> read_status dial address = Inr (map trim_frame msgs)"
    using read_all [of _ 0 "[]" "nc_end cn"] by (simp add: run)
  show "\<forall>ls. read_status dial address = Inr ls
      \<longrightarrow> length ls \<le> max_lines \<and> sum_list (map length ls) \<le> max_reply \<and> (\<forall>l \<in> set ls. length l \<le> max_frame)"
    using read_within [of "nc_end cn" "nc_bytes cn" 0 "[]"] by (simp add: run)
qed

definition example_conn :: "string list \<Rightarrow> nis_conn" where
  "example_conn msgs = \<lparr>nc_deadline = None, nc_write = (\<lambda>s. None), nc_bytes = concat (map nis_frame msgs) @ nis_frame [], nc_end = None\<rparr>"

theorem nis_reply_read_witness:
  "read_status (\<lambda>a. Inr (example_conn [''STATUS   : ONLINE'' @ [nl]])) ''h:1'' = Inr [''STATUS   : ONLINE'']"
proof -
  have t: "trim_frame (''STATUS   : ONLINE'' @ [nl]) = ''STATUS   : ONLINE''" by (simp add: trim_frame_def)
  show ?thesis
    using nis_reply_read [THEN conjunct1, of "\<lambda>a. Inr (example_conn [''STATUS   : ONLINE'' @ [nl]])" "''h:1''" "example_conn [''STATUS   : ONLINE'' @ [nl]]",
        rule_format, of "[''STATUS   : ONLINE'' @ [nl]]" "[]"] t
    by (simp add: example_conn_def max_frame_def max_reply_def max_lines_def)
qed

end
