(* ===== verification/Ups.thy ===== *)
theory Ups
  imports Nis Provider "HOL-Library.Sublist"
begin

text \<open>
  \<open>internal/module/ups/ups.go\<close>: the module that reads a UPS from apcupsd and publishes it as an entity of
  its own. The connection and \<open>%q\<close> are parameters; what the module logs is part of its result.
\<close>

unbundle bit_operations_syntax

section \<open>The module\<close>

definition ups_default_address :: string where
  "ups_default_address = ''127.0.0.1:3551''"

definition ups_interval :: int where
  "ups_interval = 10 * nano"

record ups_module =
  um_address :: string
  um_identity :: string
  um_missing :: string
  um_greeted :: bool

definition new_ups :: ups_module where
  "new_ups = \<lparr>um_address = ups_default_address, um_identity = [], um_missing = [], um_greeted = False\<rparr>"

definition ups_template :: mtemplate where
  "ups_template = \<lparr>t_slug = ''ups'', t_name = ''UPS'',
     t_desc = ''An uninterruptible power supply, read through apcupsd by the host it is linked to'', t_entity = True\<rparr>"

definition ups_attr :: "string \<Rightarrow> string \<Rightarrow> kind \<Rightarrow> string \<Rightarrow> string \<Rightarrow> mattribute" where
  "ups_attr key slug k name desc = \<lparr>a_key = key, a_name = name, a_slug = slug, a_kind = k, a_desc = desc,
     a_options = [], a_template = ''ups'', a_target = [], a_label = 0, a_platforms = [''linux'']\<rparr>"

definition ups_host_attr :: mattribute where
  "ups_host_attr = \<lparr>a_key = ''host'', a_name = ''Managed by'', a_slug = ''ups_host'', a_kind = KindReference,
     a_desc = ''The host whose omnistat reads this UPS'', a_options = [], a_template = ''ups'', a_target = host_template, a_label = 0, a_platforms = []\<rparr>"

definition ups_selftest_attr :: mattribute where
  "ups_selftest_attr = (ups_attr ''selftest'' ''ups_selftest'' KindList ''Self-test result''
     ''Result of the UPS's most recent self-test, as apcupsd reports it'')
     \<lparr>a_options := [''passed'', ''failed_capacity'', ''failed'', ''warning'', ''in_progress'']\<rparr>"

definition degrees :: string where
  "degrees = [CHR 0xC2, CHR 0xB0]"

definition times_sign :: string where
  "times_sign = [CHR 0xC3, CHR 0x97]"

definition ups_manifest :: manifest where
  "ups_manifest = \<lparr>m_module = ''ups'', m_templates = [ups_template], m_attributes = [ups_host_attr,
     ups_attr ''name'' ''ups_name'' KindText ''UPS name'' ''The name stored in the UPS or set in apcupsd's configuration'',
     ups_attr ''model'' ''ups_model'' KindText ''Model'' ''The UPS model'',
     ups_attr ''serial'' ''ups_serial'' KindText ''Serial number'' ''The serial number the UPS reports'',
     ups_attr ''battery_date'' ''ups_battery_date'' KindDate ''Battery date''
       ''The battery date the UPS reports (replacement or manufacture date, depending on the model)'',
     ups_attr ''on_battery'' ''ups_on_battery'' KindBoolean ''On battery'' ''The UPS is supplying its load from the battery'',
     ups_attr ''battery_low'' ''ups_battery_low'' KindBoolean ''Battery low'' ''The UPS reports its battery as low'',
     ups_attr ''replace_battery'' ''ups_replace_battery'' KindBoolean ''Replace battery'' ''The UPS reports that its battery needs replacing'',
     ups_attr ''comm_lost'' ''ups_comm_lost'' KindBoolean ''Communication lost'' ''apcupsd has lost communication with the UPS'',
     ups_attr ''overload'' ''ups_overload'' KindBoolean ''Overload'' ''The UPS reports its load above its capacity'',
     ups_attr ''last_transfer_at'' ''ups_last_transfer_at'' KindDatetime ''Last transfer to battery'' ''When the UPS last switched to battery'',
     ups_attr ''last_transfer_reason'' ''ups_last_transfer_reason'' KindText ''Last transfer reason''
       ''apcupsd's reason for the last transfer to battery (e.g. low line voltage, self-test)'',
     ups_selftest_attr,
     ups_attr ''battery_charge_pct'' ''ups_battery_charge_pct'' KindMetric ''Battery charge'' ''Battery charge, in percent'',
     ups_attr ''runtime_min'' ''ups_runtime_min'' KindMetric ''Runtime left''
       ''Runtime on battery at the current load, as the UPS estimates it, in minutes'',
     ups_attr ''load_pct'' ''ups_load_pct'' KindMetric ''Load'' ''Load, in percent of the UPS's capacity'',
     ups_attr ''load_w'' ''ups_load_w'' KindMetric ''Load (estimated watts)''
       (''Estimated load in watts: load percentage '' @ times_sign @ '' the UPS's nominal power; an estimate, not a measurement''),
     ups_attr ''input_v'' ''ups_input_v'' KindMetric ''Input voltage'' ''Line (input) voltage, in volts'',
     ups_attr ''output_v'' ''ups_output_v'' KindMetric ''Output voltage'' ''Output voltage, in volts'',
     ups_attr ''battery_v'' ''ups_battery_v'' KindMetric ''Battery voltage'' ''Battery voltage, in volts'',
     ups_attr ''temp_c'' ''ups_temp_c'' KindMetric ''Internal temperature'' (''Temperature inside the UPS, in '' @ degrees @ ''C''),
     ups_attr ''input_hz'' ''ups_input_hz'' KindMetric ''Input frequency'' ''Line frequency, in Hz'']\<rparr>"

section \<open>Its settings\<close>

datatype identity_problem = IdentityEmpty | IdentityTooLong | IdentityControl

definition ups_identity_problem :: "string \<Rightarrow> identity_problem option" where
  "ups_identity_problem v = (let t = trim_space v in
     if t = [] then Some IdentityEmpty
     else if 128 < length (runes t) then Some IdentityTooLong
     else if list_ex is_control (runes t) then Some IdentityControl
     else None)"

datatype address_problem = NotHostPort string | NoHostName string | BadPort string

definition ups_address_problem :: "string \<Rightarrow> address_problem option" where
  "ups_address_problem v = (case split_host_port v of
       None \<Rightarrow> Some (NotHostPort v)
     | Some (host, port) \<Rightarrow>
         if host = [] then Some (NoHostName v)
         else (case atoi port of
             None \<Rightarrow> Some (BadPort v)
           | Some p \<Rightarrow> if p < 1 \<or> 65535 < p then Some (BadPort v) else None))"

datatype ups_settings_error = AddressError address_problem | IdentityError identity_problem

definition ups_settings :: "string list" where
  "ups_settings = [''address'', ''identity'']"

definition ups_configure :: "(string, string) gomap \<Rightarrow> ups_module \<Rightarrow> ups_settings_error option \<times> ups_module" where
  "ups_configure s m = (
     case (case gm_get s ''address'' of None \<Rightarrow> None | Some v \<Rightarrow> ups_address_problem v) of
       Some e \<Rightarrow> (Some (AddressError e), m)
     | None \<Rightarrow> (case (case gm_get s ''identity'' of None \<Rightarrow> None | Some v \<Rightarrow> ups_identity_problem v) of
         Some e \<Rightarrow> (Some (IdentityError e), m)
       | None \<Rightarrow> (None, m\<lparr>um_address := gm_getd ups_default_address s ''address'', um_identity := trim_space (gm_getd [] s ''identity'')\<rparr>)))"

definition ups_describe :: "ups_module \<Rightarrow> (string \<times> string) list" where
  "ups_describe m = [(''address'', um_address m)]"

section \<open>One collection\<close>

record collection =
  uc_key :: string
  uc_obs :: "observation list"
  uc_omitted :: omissions
  uc_missing :: "string list"
  uc_model :: string
  uc_serial :: string

definition uc_add :: "string \<Rightarrow> gvalue \<Rightarrow> collection \<Rightarrow> collection" where
  "uc_add key v c = (let s = (case v of VString s \<Rightarrow> s | _ \<Rightarrow> []) in
     c\<lparr>uc_obs := uc_obs c @ [\<lparr>ob_key = key, ob_value = v, ob_entity = \<lparr>oe_template = ''ups'', oe_key = uc_key c\<rparr>\<rparr>],
       uc_model := (if key = ''model'' then s else uc_model c), uc_serial := (if key = ''serial'' then s else uc_serial c)\<rparr>)"

definition uc_omit :: "string \<Rightarrow> string \<Rightarrow> collection \<Rightarrow> collection" where
  "uc_omit key e c = c\<lparr>uc_omitted := om_add key e (uc_omitted c)\<rparr>"

definition uc_miss :: "string \<Rightarrow> collection \<Rightarrow> collection" where
  "uc_miss key c = c\<lparr>uc_missing := uc_missing c @ [key]\<rparr>"

definition uc_text :: "ups_status \<Rightarrow> string \<Rightarrow> string \<Rightarrow> collection \<Rightarrow> collection" where
  "uc_text st key field c = (case status_text st field of Some v \<Rightarrow> uc_add key (VString v) c | None \<Rightarrow> uc_miss key c)"

text \<open>The text of a field's error, with \<open>%q\<close> as a parameter.\<close>

definition say_field :: "(string \<Rightarrow> string) \<Rightarrow> field_error \<Rightarrow> string" where
  "say_field q e = (case e of
       NoUnit key v unit \<Rightarrow> key @ '' '' @ q v @ '' has no unit (want '' @ unit @ '')''
     | WrongUnit key v unit \<Rightarrow> key @ '' '' @ q v @ '' is not in '' @ unit
     | NotANumber key v \<Rightarrow> key @ '' '' @ q v @ '' is not a number''
     | NotHexadecimal v \<Rightarrow> ''STATFLAG '' @ q v @ '' is not a hexadecimal number''
     | NotADateTime key v \<Rightarrow> key @ '' '' @ q v @ '' is not a date and time''
     | NotADate key v \<Rightarrow> key @ '' '' @ q v @ '' is not a date''
     | UnknownSelftest v \<Rightarrow> ''SELFTEST code '' @ q v @ '' is unknown''
     | NoStatflag \<Rightarrow> ''STATFLAG missing'')"

definition uc_number :: "(string \<Rightarrow> string) \<Rightarrow> ups_status \<Rightarrow> string \<times> string \<times> string \<Rightarrow> collection \<Rightarrow> collection" where
  "uc_number q st r c = (case r of (key, field, unit) \<Rightarrow> (case field_number st field unit of
       Some (Inl e) \<Rightarrow> uc_omit key (say_field q e) c
     | Some (Inr v) \<Rightarrow> uc_add key (VF64 v) c
     | None \<Rightarrow> uc_miss key c))"

definition uc_date :: "(string \<Rightarrow> string) \<Rightarrow> ups_status \<Rightarrow> collection \<Rightarrow> collection" where
  "uc_date q st c = (case field_date st ''BATTDATE'' of
       Some (Inl e) \<Rightarrow> uc_omit ''battery_date'' (say_field q e) c
     | Some (Inr d) \<Rightarrow> uc_add ''battery_date'' (VTime d) c
     | None \<Rightarrow> uc_miss ''battery_date'' c)"

definition flag_on_battery :: nat where "flag_on_battery = 16"
definition flag_overload :: nat where "flag_overload = 32"
definition flag_battery_low :: nat where "flag_battery_low = 64"
definition flag_replace :: nat where "flag_replace = 128"
definition flag_comm_lost :: nat where "flag_comm_lost = 256"

definition flag_set :: "nat \<Rightarrow> nat \<Rightarrow> bool" where
  "flag_set n flag \<longleftrightarrow> n AND flag \<noteq> 0"

text \<open>The flags, and whether the communication with the UPS is lost: then nothing else is read.\<close>

definition uc_flags :: "(string \<Rightarrow> string) \<Rightarrow> ups_status \<Rightarrow> collection \<Rightarrow> collection \<times> bool" where
  "uc_flags q st c = (case field_flags st of
       Some (Inl e) \<Rightarrow> (uc_omit ''comm_lost'' (say_field q e) c, False)
     | None \<Rightarrow> (uc_omit ''comm_lost'' (say_field q NoStatflag) c, False)
     | Some (Inr n) \<Rightarrow>
         if flag_set n flag_comm_lost then (uc_add ''comm_lost'' (VBool True) c, True)
         else (uc_add ''overload'' (VBool (flag_set n flag_overload)) (uc_add ''replace_battery'' (VBool (flag_set n flag_replace))
           (uc_add ''battery_low'' (VBool (flag_set n flag_battery_low)) (uc_add ''on_battery'' (VBool (flag_set n flag_on_battery))
           (uc_add ''comm_lost'' (VBool False) c)))), False))"

definition uc_transfer :: "(string \<Rightarrow> string) \<Rightarrow> ups_status \<Rightarrow> collection \<Rightarrow> collection" where
  "uc_transfer q st c = (case field_instant st ''XONBATT'' of
       Some (Inl e) \<Rightarrow> uc_omit ''last_transfer_at'' (say_field q e) c
     | Some (Inr t) \<Rightarrow> (case status_text st ''LASTXFER'' of
           Some reason \<Rightarrow> uc_add ''last_transfer_reason'' (VString reason) (uc_add ''last_transfer_at'' (VTime t) c)
         | None \<Rightarrow> uc_miss ''last_transfer_reason'' c)
     | None \<Rightarrow> c)"

definition uc_selftest :: "(string \<Rightarrow> string) \<Rightarrow> ups_status \<Rightarrow> collection \<Rightarrow> collection" where
  "uc_selftest q st c = (case field_selftest st of
       Some (Inl e) \<Rightarrow> uc_omit ''selftest'' (say_field q e) c
     | None \<Rightarrow> uc_miss ''selftest'' c
     | Some (Inr (Some opt)) \<Rightarrow> uc_add ''selftest'' (VString opt) c
     | Some (Inr None) \<Rightarrow> c)"

definition ups_readings :: "(string \<times> string \<times> string) list" where
  "ups_readings = [(''battery_charge_pct'', ''BCHARGE'', ''Percent''), (''runtime_min'', ''TIMELEFT'', ''Minutes''), (''load_pct'', ''LOADPCT'', ''Percent''),
     (''input_v'', ''LINEV'', ''Volts''), (''output_v'', ''OUTPUTV'', ''Volts''), (''battery_v'', ''BATTV'', ''Volts''), (''temp_c'', ''ITEMP'', ''C''),
     (''input_hz'', ''LINEFREQ'', ''Hz'')]"

text \<open>\<open>errors.Join\<close> puts each error on a line of its own.\<close>

definition uc_load :: "(string \<Rightarrow> string) \<Rightarrow> ups_status \<Rightarrow> collection \<Rightarrow> collection" where
  "uc_load q st c = (let load = field_number st ''LOADPCT'' ''Percent''; nominal = field_number st ''NOMPOWER'' ''Watts'';
       errs = concat (map (\<lambda>r. case r of Some (Inl e) \<Rightarrow> [say_field q e] | _ \<Rightarrow> []) [load, nominal])
     in if errs \<noteq> [] then uc_omit ''load_w'' (join [nl] errs) c
        else (case (load, nominal) of
            (Some (Inr l), Some (Inr n)) \<Rightarrow> uc_add ''load_w'' (VF64 (math_round (fdiv (fmul l n) (Fin 100)))) c
          | _ \<Rightarrow> uc_miss ''load_w'' c))"

datatype ups_error = NisFailed string nis_error | StatusFailed string status_error | NoSerial | BadSerial identity_problem | NothingRead string

datatype ups_log = Omitted string string | NotReported string | UpsFound string string string string string

text \<open>\<open>finish\<close>: what is logged, what the module remembers, and the observations.\<close>

definition ups_finish :: "ups_module \<Rightarrow> collection \<Rightarrow> (ups_error + observation list) \<times> ups_log list \<times> ups_module" where
  "ups_finish m c = (let miss = join '','' (sort (uc_missing c)); greet = (\<not> um_greeted m \<and> uc_obs c \<noteq> []) in
     (if uc_obs c = [] then Inl (NothingRead (om_err (uc_omitted c) ''ups'')) else Inr (uc_obs c),
      (case om_log (uc_omitted c) of None \<Rightarrow> [] | Some (ks, rs) \<Rightarrow> [Omitted ks rs])
      @ (if miss \<noteq> um_missing m \<and> miss \<noteq> [] then [NotReported miss] else [])
      @ (if greet then [UpsFound (um_address m) (uc_model c) (uc_serial c) (uc_key c)
           (if um_identity m \<noteq> [] then ''modules.ups.identity'' else ''serial number'')] else []),
      m\<lparr>um_missing := miss, um_greeted := um_greeted m \<or> greet\<rparr>))"

definition ups_key :: "string \<Rightarrow> string option \<Rightarrow> ups_error + string" where
  "ups_key static serial = (if static \<noteq> [] then Inr static
     else (case serial of
         None \<Rightarrow> Inl NoSerial
       | Some s \<Rightarrow> (case ups_identity_problem s of Some e \<Rightarrow> Inl (BadSerial e) | None \<Rightarrow> Inr s)))"

definition ups_start :: "(string \<Rightarrow> string) \<Rightarrow> ups_status \<Rightarrow> string \<Rightarrow> collection" where
  "ups_start q st key = (let c = \<lparr>uc_key = key, uc_obs = [], uc_omitted = no_omissions, uc_missing = [], uc_model = [], uc_serial = []\<rparr>;
       c1 = uc_text st ''model'' ''MODEL'' (uc_text st ''name'' ''UPSNAME'' c)
     in uc_date q st (case status_text st ''SERIALNO'' of Some s \<Rightarrow> uc_add ''serial'' (VString s) c1 | None \<Rightarrow> c1))"

definition ups_gather :: "(string \<Rightarrow> string) \<Rightarrow> ups_status \<Rightarrow> string \<Rightarrow> collection" where
  "ups_gather q st key = (case uc_flags q st (ups_start q st key) of
       (c, True) \<Rightarrow> c
     | (c, False) \<Rightarrow> uc_load q st (foldl (\<lambda>c r. uc_number q st r c) (uc_selftest q st (uc_transfer q st c)) ups_readings))"

definition ups_collect :: "(string \<Rightarrow> string) \<Rightarrow> (string \<Rightarrow> string + nis_conn) \<Rightarrow> ups_module
    \<Rightarrow> (ups_error + observation list) \<times> ups_log list \<times> ups_module" where
  "ups_collect q dial m = (case read_status dial (um_address m) of
       Inl e \<Rightarrow> (Inl (NisFailed (um_address m) e), [], m)
     | Inr ls \<Rightarrow> (case parse_status ls of
         Inl e \<Rightarrow> (Inl (StatusFailed (um_address m) e), [], m)
       | Inr st \<Rightarrow> (case ups_key (um_identity m) (status_text st ''SERIALNO'') of
           Inl e \<Rightarrow> (Inl e, [], m)
         | Inr key \<Rightarrow> ups_finish m (ups_gather q st key))))"

section \<open>What a collection reports\<close>

definition ups_kinds :: "(string \<times> kind) list" where
  "ups_kinds = [(''name'', KindText), (''model'', KindText), (''serial'', KindText), (''battery_date'', KindDate), (''comm_lost'', KindBoolean),
     (''on_battery'', KindBoolean), (''battery_low'', KindBoolean), (''replace_battery'', KindBoolean), (''overload'', KindBoolean),
     (''last_transfer_at'', KindDatetime), (''last_transfer_reason'', KindText), (''selftest'', KindList),
     (''battery_charge_pct'', KindMetric), (''runtime_min'', KindMetric), (''load_pct'', KindMetric), (''input_v'', KindMetric), (''output_v'', KindMetric),
     (''battery_v'', KindMetric), (''temp_c'', KindMetric), (''input_hz'', KindMetric), (''load_w'', KindMetric)]"

fun fits :: "kind \<Rightarrow> gvalue \<Rightarrow> bool" where
  "fits KindText (VString s) = True"
| "fits KindList (VString s) = (s \<in> set (a_options ups_selftest_attr))"
| "fits KindMetric (VF64 f) = True"
| "fits KindBoolean (VBool b) = True"
| "fits KindDate (VTime t) = True"
| "fits KindDatetime (VTime t) = True"
| "fits k v = False"

lemma ups_declared:
  assumes "(key, k) \<in> set ups_kinds"
  shows "\<exists>a \<in> set (m_attributes ups_manifest). a_key a = key \<and> a_kind a = k \<and> a_template a = ''ups'' \<and> a_platforms a = [''linux'']
    \<and> (k = KindList \<longrightarrow> a_options a = a_options ups_selftest_attr)"
proof -
  have "list_all (\<lambda>(key, k). list_ex (\<lambda>a. a_key a = key \<and> a_kind a = k \<and> a_template a = ''ups'' \<and> a_platforms a = [''linux'']
      \<and> (k = KindList \<longrightarrow> a_options a = a_options ups_selftest_attr)) (m_attributes ups_manifest)) ups_kinds" by code_simp
  then show ?thesis using assms by (fastforce simp: list_all_iff list_ex_iff)
qed

text \<open>A part of the collection adds observations for its keys, in their order, each of its attribute's kind.\<close>

definition adds_for :: "string list \<Rightarrow> collection \<Rightarrow> collection \<Rightarrow> bool" where
  "adds_for ks c c' \<longleftrightarrow> uc_key c' = uc_key c \<and> (\<exists>os. uc_obs c' = uc_obs c @ os \<and> subseq (map ob_key os) ks
     \<and> (\<forall>ob \<in> set os. ob_entity ob = \<lparr>oe_template = ''ups'', oe_key = uc_key c\<rparr> \<and> (\<exists>k. (ob_key ob, k) \<in> set ups_kinds \<and> fits k (ob_value ob))))"

named_theorems adding

lemma adds_none [adding]: "adds_for ks c c" "adds_for ks c (uc_omit key e c)" "adds_for ks c (uc_miss key c)"
  by (auto simp: adds_for_def uc_omit_def uc_miss_def)

lemma adds_one [adding]: "(key, k) \<in> set ups_kinds \<Longrightarrow> fits k v \<Longrightarrow> adds_for [key] c (uc_add key v c)"
  by (auto simp: adds_for_def uc_add_def Let_def)

lemma adds_then:
  assumes "adds_for ks c c1" "adds_for ks' c1 c2"
  shows "adds_for (ks @ ks') c c2"
proof -
  obtain os where os: "uc_obs c1 = uc_obs c @ os" "subseq (map ob_key os) ks" "uc_key c1 = uc_key c"
    "\<forall>ob \<in> set os. ob_entity ob = \<lparr>oe_template = ''ups'', oe_key = uc_key c\<rparr> \<and> (\<exists>k. (ob_key ob, k) \<in> set ups_kinds \<and> fits k (ob_value ob))"
    using assms(1) unfolding adds_for_def by blast
  obtain os' where os': "uc_obs c2 = uc_obs c1 @ os'" "subseq (map ob_key os') ks'" "uc_key c2 = uc_key c1"
    "\<forall>ob \<in> set os'. ob_entity ob = \<lparr>oe_template = ''ups'', oe_key = uc_key c1\<rparr> \<and> (\<exists>k. (ob_key ob, k) \<in> set ups_kinds \<and> fits k (ob_value ob))"
    using assms(2) unfolding adds_for_def by blast
  show ?thesis unfolding adds_for_def
    using os os' list_emb_append_mono [OF os(2) os'(2)] by (intro conjI exI [of _ "os @ os'"]) auto
qed

lemma adds_text: "(key, KindText) \<in> set ups_kinds \<Longrightarrow> adds_for [key] c (uc_text st key field c)"
  by (auto simp: uc_text_def intro!: adding split: option.splits)

lemma adds_number: "(key, KindMetric) \<in> set ups_kinds \<Longrightarrow> adds_for [key] c (uc_number q st (key, field, unit) c)"
  by (auto simp: uc_number_def intro!: adding split: option.splits sum.splits)

lemma adds_date: "adds_for [''battery_date''] c (uc_date q st c)"
  by (auto simp: uc_date_def ups_kinds_def intro!: adding split: option.splits sum.splits)

lemma adds_selftest: "adds_for [''selftest''] c (uc_selftest q st c)"
proof -
  have "opt \<in> set (a_options ups_selftest_attr)" if "gm_get selftest_options v = Some opt" for v opt
    using that by (auto simp: gm_get_def selftest_options_def ups_selftest_attr_def split: if_splits)
  then have "opt \<in> set (a_options ups_selftest_attr)" if "field_selftest st = Some (Inr (Some opt))" for opt
    using that by (auto simp: field_selftest_def split: option.splits if_splits)
  then show ?thesis
    by (auto simp: uc_selftest_def ups_kinds_def intro!: adding split: option.splits sum.splits)
qed

lemma adds_load: "adds_for [''load_w''] c (uc_load q st c)"
  by (auto simp: uc_load_def ups_kinds_def Let_def intro!: adding split: option.splits sum.splits)

lemma adds_transfer: "adds_for [''last_transfer_at'', ''last_transfer_reason''] c (uc_transfer q st c)"
proof -
  have "adds_for ([''last_transfer_at''] @ [''last_transfer_reason'']) c (uc_add ''last_transfer_reason'' (VString r) (uc_add ''last_transfer_at'' (VTime t) c))" for r t
    by (rule adds_then; rule adds_one) (auto simp: ups_kinds_def)
  then show ?thesis by (auto simp: uc_transfer_def intro!: adding split: option.splits sum.splits)
qed

lemma adds_bool: "adds_for ks c0 c \<Longrightarrow> (key, KindBoolean) \<in> set ups_kinds \<Longrightarrow> adds_for (ks @ [key]) c0 (uc_add key (VBool b) c)"
  by (rule adds_then, assumption, rule adds_one, assumption, simp)

lemma adds_flags: "adds_for [''comm_lost'', ''on_battery'', ''battery_low'', ''replace_battery'', ''overload''] c (fst (uc_flags q st c))"
proof -
  have "adds_for ((((([] @ [''comm_lost'']) @ [''on_battery'']) @ [''battery_low'']) @ [''replace_battery'']) @ [''overload'']) c
      (uc_add ''overload'' (VBool v) (uc_add ''replace_battery'' (VBool w) (uc_add ''battery_low'' (VBool x) (uc_add ''on_battery'' (VBool y) (uc_add ''comm_lost'' (VBool z) c)))))"
    for v w x y z
    by (intro adds_bool adds_none) (simp_all add: ups_kinds_def)
  moreover have "adds_for ([''comm_lost''] @ [''on_battery'', ''battery_low'', ''replace_battery'', ''overload'']) c (uc_add ''comm_lost'' (VBool b) c)" for b
    by (rule adds_then [OF adds_one adds_none(1)]) (auto simp: ups_kinds_def)
  ultimately show ?thesis by (auto simp: uc_flags_def intro!: adding split: option.splits sum.splits)
qed

lemma adds_start: "adds_for [''name'', ''model'', ''serial'', ''battery_date''] \<lparr>uc_key = key, uc_obs = [], uc_omitted = no_omissions, uc_missing = [],
    uc_model = [], uc_serial = []\<rparr> (ups_start q st key)"
proof -
  let ?c = "\<lparr>uc_key = key, uc_obs = [], uc_omitted = no_omissions, uc_missing = [], uc_model = [], uc_serial = []\<rparr>"
  let ?c1 = "uc_text st ''model'' ''MODEL'' (uc_text st ''name'' ''UPSNAME'' ?c)"
  have "adds_for [''name''] ?c (uc_text st ''name'' ''UPSNAME'' ?c)" "adds_for [''model''] (uc_text st ''name'' ''UPSNAME'' ?c) ?c1"
    by (rule adds_text, simp add: ups_kinds_def)+
  then have "adds_for ([''name''] @ [''model'']) ?c ?c1" by (rule adds_then)
  moreover have "adds_for [''serial''] ?c1 (case status_text st ''SERIALNO'' of Some s \<Rightarrow> uc_add ''serial'' (VString s) ?c1 | None \<Rightarrow> ?c1)"
    by (auto simp: ups_kinds_def intro!: adding split: option.splits)
  ultimately have "adds_for (([''name''] @ [''model'']) @ [''serial'']) ?c (case status_text st ''SERIALNO'' of Some s \<Rightarrow> uc_add ''serial'' (VString s) ?c1 | None \<Rightarrow> ?c1)"
    by (rule adds_then)
  from adds_then [OF this adds_date [of _ q st]] show ?thesis by (simp add: ups_start_def Let_def)
qed

lemma adds_readings: "set (map (\<lambda>r. (fst r, KindMetric)) rs) \<subseteq> set ups_kinds \<Longrightarrow> adds_for (map fst rs) c (foldl (\<lambda>c r. uc_number q st r c) c rs)"
proof (induction rs arbitrary: c)
  case (Cons r rs)
  obtain key field unit where r: "r = (key, field, unit)" by (metis prod_cases3)
  have "adds_for [key] c (uc_number q st r c)" using Cons.prems adds_number by (simp add: r)
  moreover have "adds_for (map fst rs) (uc_number q st r c) (foldl (\<lambda>c r. uc_number q st r c) (uc_number q st r c) rs)"
    using Cons by simp
  ultimately show ?case using adds_then [of "[key]"] by (simp add: r)
qed (simp add: adds_none)

definition before_flags :: "string list" where
  "before_flags = [''name'', ''model'', ''serial'', ''battery_date'']"

definition flag_keys :: "string list" where
  "flag_keys = [''comm_lost'', ''on_battery'', ''battery_low'', ''replace_battery'', ''overload'']"

definition after_transfer :: "string list" where
  "after_transfer = [''selftest''] @ map fst ups_readings @ [''load_w'']"

lemma adds_after: "adds_for after_transfer c (uc_load q st (foldl (\<lambda>c r. uc_number q st r c) (uc_selftest q st c) ups_readings))"
  unfolding after_transfer_def
  by (intro adds_then [OF adds_selftest adds_then [OF adds_readings adds_load]]) (simp add: ups_readings_def ups_kinds_def)

lemma uc_obs_simps [simp]:
  "uc_obs (uc_omit key e c) = uc_obs c" "uc_obs (uc_miss key c) = uc_obs c"
  "uc_obs (uc_add key v c) = uc_obs c @ [\<lparr>ob_key = key, ob_value = v, ob_entity = \<lparr>oe_template = ''ups'', oe_key = uc_key c\<rparr>\<rparr>]"
  "uc_key (uc_add key v c) = uc_key c" "uc_key (uc_omit key e c) = uc_key c" "uc_key (uc_miss key c) = uc_key c"
  by (simp_all add: uc_omit_def uc_miss_def uc_add_def Let_def)

lemma transfer_pair: "\<exists>os. uc_obs (uc_transfer q st c) = uc_obs c @ os \<and> (os = [] \<or> map ob_key os = [''last_transfer_at'', ''last_transfer_reason''])"
proof (cases "\<exists>t r. field_instant st ''XONBATT'' = Some (Inr t) \<and> status_text st ''LASTXFER'' = Some r")
  case True
  then show ?thesis by (auto simp: uc_transfer_def)
next
  case False
  then have "uc_obs (uc_transfer q st c) = uc_obs c" by (auto simp: uc_transfer_def split: option.split sum.split)
  then show ?thesis by simp
qed

lemma subseq_keys: "subseq xs ys \<Longrightarrow> set xs \<subseteq> set ys"
proof
  fix x
  assume s: "subseq xs ys" and x: "x \<in> set xs"
  obtain y where "y \<in> set ys" "x = y" using list_emb_set [OF s x] by blast
  then show "x \<in> set ys" by simp
qed

definition ups_empty :: "string \<Rightarrow> collection" where
  "ups_empty key = \<lparr>uc_key = key, uc_obs = [], uc_omitted = no_omissions, uc_missing = [], uc_model = [], uc_serial = []\<rparr>"

definition comm_lost :: "ups_status \<Rightarrow> bool" where
  "comm_lost st \<longleftrightarrow> (\<exists>n. field_flags st = Some (Inr n) \<and> flag_set n flag_comm_lost)"

definition transfer_keys :: "string list" where
  "transfer_keys = [''last_transfer_at'', ''last_transfer_reason'']"

lemma adds_weaken: "adds_for ks c c' \<Longrightarrow> adds_for (ks @ ks') c c'"
  by (rule adds_then [OF _ adds_none(1)])

lemma gather_lost:
  assumes "comm_lost st"
  shows "adds_for (before_flags @ [''comm_lost'']) (ups_empty key) (ups_gather q st key)"
proof -
  have "ups_gather q st key = uc_add ''comm_lost'' (VBool True) (ups_start q st key)"
    using assms by (auto simp: comm_lost_def ups_gather_def uc_flags_def)
  moreover have "adds_for before_flags (ups_empty key) (ups_start q st key)"
    using adds_start by (simp add: before_flags_def ups_empty_def)
  ultimately show ?thesis by (simp only:) (rule adds_bool, assumption, simp add: ups_kinds_def)
qed

lemma gather_read:
  assumes "\<not> comm_lost st"
  obtains c where "adds_for (before_flags @ flag_keys) (ups_empty key) c"
    "adds_for after_transfer (uc_transfer q st c) (ups_gather q st key)"
proof -
  obtain c lost where c: "uc_flags q st (ups_start q st key) = (c, lost)" by fastforce
  have "\<not> lost" using assms c by (auto simp: uc_flags_def comm_lost_def split: option.splits sum.splits if_splits)
  then have g: "ups_gather q st key = uc_load q st (foldl (\<lambda>c r. uc_number q st r c) (uc_selftest q st (uc_transfer q st c)) ups_readings)"
    by (simp add: ups_gather_def c)
  have "adds_for (before_flags @ flag_keys) (ups_empty key) c"
    using adds_then [OF adds_start adds_flags, of key q st q st] by (simp add: before_flags_def flag_keys_def ups_empty_def c)
  then show thesis using that [of c] adds_after by (simp only: g)
qed

lemma gather_adds: "adds_for (before_flags @ flag_keys @ transfer_keys @ after_transfer) (ups_empty key) (ups_gather q st key)"
proof (cases "comm_lost st")
  case True
  from adds_weaken [OF gather_lost [OF this], of "tl flag_keys @ transfer_keys @ after_transfer"] show ?thesis
    by (simp add: flag_keys_def)
next
  case False
  then obtain c where c: "adds_for (before_flags @ flag_keys) (ups_empty key) c" "adds_for after_transfer (uc_transfer q st c) (ups_gather q st key)"
    by (rule gather_read)
  have "adds_for transfer_keys c (uc_transfer q st c)" using adds_transfer by (simp add: transfer_keys_def)
  from adds_then [OF adds_then [OF c(1) this] c(2)] show ?thesis by simp
qed

lemma adds_keys: "adds_for ks c c' \<Longrightarrow> ob \<in> set (uc_obs c') \<Longrightarrow> ob \<in> set (uc_obs c) \<or> ob_key ob \<in> set ks"
  unfolding adds_for_def using subseq_keys by fastforce

lemma gather_pair:
  "(''last_transfer_at'' \<in> ob_key ` set (uc_obs (ups_gather q st key))) = (''last_transfer_reason'' \<in> ob_key ` set (uc_obs (ups_gather q st key)))"
proof (cases "comm_lost st")
  case True
  have "ob_key ` set (uc_obs (ups_gather q st key)) \<subseteq> set (before_flags @ [''comm_lost''])"
    using adds_keys [OF gather_lost [OF True, of key q]] by (auto simp: ups_empty_def)
  moreover have "''last_transfer_at'' \<notin> set (before_flags @ [''comm_lost''])" "''last_transfer_reason'' \<notin> set (before_flags @ [''comm_lost''])"
    by (simp_all add: before_flags_def)
  ultimately show ?thesis by blast
next
  case False
  then obtain c where c: "adds_for (before_flags @ flag_keys) (ups_empty key) c" "adds_for after_transfer (uc_transfer q st c) (ups_gather q st key)"
    by (rule gather_read)
  obtain os where os: "uc_obs (uc_transfer q st c) = uc_obs c @ os" "os = [] \<or> map ob_key os = transfer_keys"
    using transfer_pair [of q st c, folded transfer_keys_def] by blast
  obtain rest where rest: "uc_obs (ups_gather q st key) = uc_obs (uc_transfer q st c) @ rest" "subseq (map ob_key rest) after_transfer"
    using c(2) unfolding adds_for_def by blast
  have before: "ob_key ` set (uc_obs c) \<subseteq> set (before_flags @ flag_keys)"
    using adds_keys [OF c(1)] by (auto simp: ups_empty_def)
  have after: "ob_key ` set rest \<subseteq> set after_transfer" using subseq_keys [OF rest(2)] by simp
  have none: "list_all (\<lambda>x. x \<notin> set (before_flags @ flag_keys) \<and> x \<notin> set after_transfer) transfer_keys" by code_simp
  have k: "x \<notin> set (before_flags @ flag_keys)" "x \<notin> set after_transfer" if "x \<in> set transfer_keys" for x
    using bspec [OF none [unfolded list_all_iff] that] by blast+
  have "x \<in> ob_key ` set (uc_obs (ups_gather q st key)) \<longleftrightarrow> x \<in> set (map ob_key os)" if "x \<in> set transfer_keys" for x
    using k [OF that] before after by (auto simp: rest(1) os(1))
  from this [of "''last_transfer_at''"] this [of "''last_transfer_reason''"] show ?thesis
    using os(2) by (elim disjE) (simp_all add: transfer_keys_def)
qed

definition ups_ready :: "ups_module \<Rightarrow> bool" where
  "ups_ready m \<longleftrightarrow> um_identity m = [] \<or> valid_key (um_identity m) = None"

lemma identity_key: "ups_identity_problem v = None \<longleftrightarrow> valid_key (trim_space v) = None"
  by (simp add: ups_identity_problem_def valid_key_def max_key_len_def Let_def)

lemma configure_ready: "ups_configure s m = (None, m') \<Longrightarrow> ups_ready m'"
  using identity_key by (auto simp: ups_configure_def ups_ready_def gm_getd_def split: option.splits if_splits)

text \<open>Every field of a status is trimmed.\<close>

definition trimmed_fields :: "ups_status \<Rightarrow> bool" where
  "trimmed_fields st \<longleftrightarrow> (\<forall>k v. gm_get st k = Some v \<longrightarrow> trim_space v = v)"

lemma trimmed_put: "trimmed_fields st \<Longrightarrow> trimmed_fields (gm_put k (trim_space v) st)"
  unfolding trimmed_fields_def by (metis gm_get_put option.inject trim_space_idem)

lemma status_lines_trimmed: "trimmed_fields st \<Longrightarrow> trimmed_fields (fst (status_lines ls st other))"
  by (induction ls st other rule: status_lines.induct) (auto simp: trimmed_put split: option.splits)

lemma field_trimmed: "parse_status ls = Inr st \<Longrightarrow> status_text st key = Some v \<Longrightarrow> trim_space v = v"
proof -
  assume p: "parse_status ls = Inr st" and f: "status_text st key = Some v"
  have "trimmed_fields []" by (simp add: trimmed_fields_def gm_get_def)
  then have "trimmed_fields (fst (status_lines ls [] []))" by (rule status_lines_trimmed)
  moreover have "st = fst (status_lines ls [] [])" using p by (auto simp: parse_status_def split: prod.splits if_splits)
  moreover have "gm_get st key = Some v" using f by (auto simp: status_text_def split: option.splits if_splits)
  ultimately show ?thesis unfolding trimmed_fields_def by blast
qed

lemma fits_declares:
  assumes "(ob_key ob, k) \<in> set ups_kinds" "fits k (ob_value ob)" "ob_entity ob = \<lparr>oe_template = ''ups'', oe_key = key\<rparr>" "valid_key key = None"
  shows "declares ups_manifest ''linux'' ob \<or> (\<exists>f. ob_value ob = VF64 f \<and> \<not> is_fin f) \<or> ob_value ob = VTime zero_time"
proof -
  obtain a where a: "a \<in> set (m_attributes ups_manifest)" "a_key a = ob_key ob" "a_kind a = k" "a_template a = ''ups''" "a_platforms a = [''linux'']"
    "k = KindList \<longrightarrow> a_options a = a_options ups_selftest_attr" using ups_declared [OF assms(1)] by blast
  have "''ups'' \<in> set (entity_slugs ups_manifest)" by code_simp
  moreover have "k \<noteq> KindReference" using assms(1) by (auto simp: ups_kinds_def)
  moreover have "key \<noteq> []" using assms(4) by (auto simp: valid_key_def)
  moreover have "(\<exists>c. validate_value k (a_options a) (ob_value ob) = Inr c) \<or> (\<exists>f. ob_value ob = VF64 f \<and> \<not> is_fin f) \<or> ob_value ob = VTime zero_time"
    using assms(2) a(6) by (cases "(k, ob_value ob)" rule: fits.cases) (auto simp: validate_value_def to_float_def)
  ultimately show ?thesis using a assms(3,4)
    by (fastforce simp: declares_def list_ex_iff allows_def entity_allowed_def is_host_entity_def collectable_def split: sum.splits)
qed

lemma code_distinct: "distinct (before_flags @ flag_keys @ transfer_keys @ after_transfer)"
  by code_simp

text \<open>
  C20: a UPS's observations are its own, and each has its place. From a reply that is a status, whatever is in its fields: every
  observation belongs to the one entity keyed by the configured identity or the serial number, with a key the
  platform takes; no key is reported twice, and their order is fixed; each value is one the manifest declares, so the core keeps it, unless it is a
  number that is not finite or the zero time; the last transfer comes with its reason or not at all; and while the communication with the UPS
  is lost only what identifies it and that flag are reported, never a stale reading.
\<close>

theorem ups_reports:
  assumes "ups_ready m" "read_status dial (um_address m) = Inr ls" "parse_status ls = Inr st" "ups_collect q dial m = (Inr obs, logs, m')"
  shows "(\<exists>key. ups_key (um_identity m) (status_text st ''SERIALNO'') = Inr key \<and> valid_key key = None
      \<and> (\<forall>ob \<in> set obs. ob_entity ob = \<lparr>oe_template = ''ups'', oe_key = key\<rparr>))
    \<and> (distinct (map ob_key obs) \<and> subseq (map ob_key obs) (before_flags @ flag_keys @ transfer_keys @ after_transfer))
    \<and> (\<forall>ob \<in> set obs. declares ups_manifest ''linux'' ob \<or> (\<exists>f. ob_value ob = VF64 f \<and> \<not> is_fin f) \<or> ob_value ob = VTime zero_time)
    \<and> ((''last_transfer_at'' \<in> ob_key ` set obs) = (''last_transfer_reason'' \<in> ob_key ` set obs))
    \<and> (comm_lost st \<longrightarrow> ob_key ` set obs \<subseteq> set (before_flags @ [''comm_lost'']))"
proof -
  obtain key where key: "ups_key (um_identity m) (status_text st ''SERIALNO'') = Inr key"
    and fin: "ups_finish m (ups_gather q st key) = (Inr obs, logs, m')"
    using assms(2-4) by (auto simp: ups_collect_def split: sum.splits)
  have obs: "obs = uc_obs (ups_gather q st key)" using fin by (auto simp: ups_finish_def Let_def split: if_splits)
  have ok: "valid_key key = None"
    using key assms(1) field_trimmed [OF assms(3)]
    by (auto simp: ups_key_def ups_ready_def identity_key split: if_splits option.splits)
  have all: "subseq (map ob_key obs) (before_flags @ flag_keys @ transfer_keys @ after_transfer)"
    "\<forall>ob \<in> set obs. ob_entity ob = \<lparr>oe_template = ''ups'', oe_key = key\<rparr> \<and> (\<exists>k. (ob_key ob, k) \<in> set ups_kinds \<and> fits k (ob_value ob))"
    using gather_adds [of key q st] by (auto simp: adds_for_def ups_empty_def obs)
  have a: "\<exists>key. ups_key (um_identity m) (status_text st ''SERIALNO'') = Inr key \<and> valid_key key = None
      \<and> (\<forall>ob \<in> set obs. ob_entity ob = \<lparr>oe_template = ''ups'', oe_key = key\<rparr>)"
    using key ok all(2) by blast
  have b: "distinct (map ob_key obs) \<and> subseq (map ob_key obs) (before_flags @ flag_keys @ transfer_keys @ after_transfer)"
    using all(1) code_distinct distinct_nthsI by (auto simp only: subseq_conv_nths)
  have c: "\<forall>ob \<in> set obs. declares ups_manifest ''linux'' ob \<or> (\<exists>f. ob_value ob = VF64 f \<and> \<not> is_fin f) \<or> ob_value ob = VTime zero_time"
    using all(2) fits_declares ok by blast
  have d: "(''last_transfer_at'' \<in> ob_key ` set obs) = (''last_transfer_reason'' \<in> ob_key ` set obs)"
    unfolding obs by (rule gather_pair)
  have e: "comm_lost st \<longrightarrow> ob_key ` set obs \<subseteq> set (before_flags @ [''comm_lost''])"
  proof (rule impI, rule subsetI, elim imageE)
    fix x ob assume l: "comm_lost st" and "x = ob_key ob" "ob \<in> set obs"
    then show "x \<in> set (before_flags @ [''comm_lost''])"
      using adds_keys [OF gather_lost [OF l, of key q], of ob] by (simp add: ups_empty_def obs)
  qed
  show ?thesis by (rule conjI [OF a conjI [OF b conjI [OF c conjI [OF d e]]]])
qed

section \<open>A UPS that is out of reach\<close>

definition example_ups :: ups_module where
  "example_ups = new_ups\<lparr>um_identity := ''u''\<rparr>"

definition example_nis :: "string \<Rightarrow> string + nis_conn" where
  "example_nis a = Inr (example_conn [''STATFLAG:0x100''])"

lemma example_status: "read_status example_nis (um_address example_ups) = Inr [''STATFLAG:0x100'']"
  "parse_status [''STATFLAG:0x100''] = Inr [(''STATFLAG'', ''0x100'')]"
proof -
  have "trim_frame ''STATFLAG:0x100'' = ''STATFLAG:0x100''" by (simp add: trim_frame_def)
  then show "read_status example_nis (um_address example_ups) = Inr [''STATFLAG:0x100'']"
    using read_all [of "[''STATFLAG:0x100'']" 0 "[]" None "[]"]
    by (simp add: read_status_def example_nis_def example_conn_def max_frame_def max_reply_def max_lines_def)
  have "trim_space ''STATFLAG'' = ''STATFLAG''" "trim_space ''0x100'' = ''0x100''"
    by (rule trim_space_ascii, simp_all add: byte_def is_space_def)+
  then show "parse_status [''STATFLAG:0x100''] = Inr [(''STATFLAG'', ''0x100'')]"
    by (simp add: parse_status_def gm_put_def gm_has_def gm_get_def)
qed

lemma example_flags: "field_flags [(''STATFLAG'', ''0x100'')] = Some (Inr 256)" "flag_set 256 flag_comm_lost"
proof -
  have "lower ''0x100'' = ''0x100''" by (simp add: lower_def lower_byte_def byte_def)
  moreover have "parse_hex32 ''100'' = Some 256"
    by (simp add: parse_hex32_def value_in_def is_hex_digit_def hex_value_def is_digit_def digit_value_def byte_def)
  ultimately show "field_flags [(''STATFLAG'', ''0x100'')] = Some (Inr 256)"
    by (simp add: field_flags_def status_text_def gm_get_def trim_prefix_def)
  show "flag_set 256 flag_comm_lost" by (simp add: flag_set_def flag_comm_lost_def)
qed

lemma example_collected:
  "\<exists>logs m'. ups_collect (\<lambda>s. s) example_nis example_ups
     = (Inr [\<lparr>ob_key = ''comm_lost'', ob_value = VBool True, ob_entity = \<lparr>oe_template = ''ups'', oe_key = ''u''\<rparr>\<rparr>], logs, m')"
proof -
  have "um_identity example_ups = ''u''" by (simp add: example_ups_def)
  then show ?thesis
    by (simp add: ups_collect_def example_status ups_key_def ups_gather_def uc_flags_def example_flags ups_start_def uc_text_def uc_date_def
        status_text_def field_date_def gm_get_def ups_finish_def Let_def)
qed

theorem ups_reports_witness:
  "comm_lost [(''STATFLAG'', ''0x100'')] \<and> ob_key ` {\<lparr>ob_key = ''comm_lost'', ob_value = VBool True, ob_entity = \<lparr>oe_template = ''ups'', oe_key = ''u''\<rparr>\<rparr>}
     \<subseteq> set (before_flags @ [''comm_lost''])"
proof -
  obtain logs m' where c: "ups_collect (\<lambda>s. s) example_nis example_ups
     = (Inr [\<lparr>ob_key = ''comm_lost'', ob_value = VBool True, ob_entity = \<lparr>oe_template = ''ups'', oe_key = ''u''\<rparr>\<rparr>], logs, m')"
    using example_collected by blast
  have "trim_space ''u'' = ''u''" by (rule trim_space_ascii) (simp_all add: byte_def is_space_def)
  moreover have "runes ''u'' = [117]" by (simp add: runes.simps decode_rune_ascii byte_def)
  ultimately have r: "ups_ready example_ups" by (simp add: ups_ready_def example_ups_def valid_key_def max_key_len_def is_control_def)
  have "comm_lost [(''STATFLAG'', ''0x100'')]" using example_flags by (simp add: comm_lost_def)
  then show ?thesis using ups_reports [OF r example_status c] by simp
qed

end
