(* ===== verification/Bundled.thy ===== *)
theory Bundled
  imports Machineid Cpu Memorymod Disk Hostname Network Ups
begin

text \<open>
  The bundled modules together, as \<open>cmd/omnistat/main.go\<close> registers them: what they report is never
  dropped by the core.
\<close>

section \<open>The registry\<close>

text \<open>\<open>registry\<close>, where \<open>texts\<close> prints the errors of the UPS module's settings; and the version of a build.\<close>

definition ups_go_module :: "(ups_settings_error \<Rightarrow> string) \<Rightarrow> go_module" where
  "ups_go_module texts = (static_module ups_manifest)\<lparr>mod_settings :=
     Some ([''address'', ''identity''], \<lambda>s. map_option texts (fst (ups_configure s new_ups)))\<rparr>"

definition bundled_modules :: "(ups_settings_error \<Rightarrow> string) \<Rightarrow> (go_module \<times> reg_option list) list" where
  "bundled_modules texts = [(static_module machineid_manifest, [Required]), (static_module hostname_manifest, []),
     (static_module cpu_manifest, []), (static_module memory_manifest, []), (static_module disk_manifest, []),
     (static_module net_manifest, []), (ups_go_module texts, [DisabledByDefault])]"

definition bundled_registry :: "(ups_settings_error \<Rightarrow> string) \<Rightarrow> registry option" where
  "bundled_registry texts = foldl (\<lambda>r (m, opts). Option.bind r (register m opts)) (Some new_registry) (bundled_modules texts)"

definition resolve_version :: "string \<Rightarrow> string option \<Rightarrow> string" where
  "resolve_version version info = (if version \<noteq> ''dev'' then version
     else case info of None \<Rightarrow> version | Some v \<Rightarrow> if v \<noteq> [] \<and> v \<noteq> ''(devel)'' then v else version)"

lemmas manifest_names = machineid_manifest_def hostname_manifest_def cpu_manifest_def memory_manifest_def disk_manifest_def net_manifest_def ups_manifest_def

text \<open>No module is registered twice, and without switches every module runs but the UPS.\<close>

lemma bundled_defaults:
  "\<exists>r. bundled_registry texts = Some r \<and> enabled r [] = Inr (map fst (butlast (bundled_modules texts)))
     \<and> enabled r [(''ups'', True)] = Inr (map fst (bundled_modules texts)) \<and> enabled r [(''machine-id'', False)] = Inl [RequiredOff ''machine-id'']"
  by (simp add: bundled_registry_def bundled_modules_def ups_go_module_def register_def new_registry_def static_module_def manifest_names
      gm_has_def gm_get_def gm_put_def apply_option_def enabled_def switched_on_def gm_getd_def)

section \<open>Nothing is dropped\<close>

definition drops_nothing :: "source \<Rightarrow> gtime \<Rightarrow> observation list \<Rightarrow> bool" where
  "drops_nothing src now obs \<longleftrightarrow> fst (collect_one buffers_add src now (Returned obs) (new_buffers 0)) = Inr ([], length obs)"

text \<open>
  C11: the bundled modules keep their side of the contract. For a source the scheduler built for the
  module from any resolved schema, whatever its overrides and the other modules, every observation
  that the processor, memory, disk, network and hostname modules return is accepted by the core, none is dropped
  as undeclared, of the wrong type, not a finite number, or not available on the platform. Of the host it is assumed:
  for the processor a build for amd64 or arm64, time counters that are finite and between 0 and \<open>2^40\<close>, finite load averages and between 1 and \<open>2^31\<close> CPUs
  (\<open>cpu_inv\<close>); for the network Linux or Windows; and for the disk, on Linux only and of the collection at hand only, that the two readings its rates
  are computed from, if it has two, are a millisecond apart or not apart at all (\<open>disk_fair\<close>). The last is needed: readings less
  than a millisecond apart make the busy share a division by zero, whose result the core drops.\<close>

theorem modules_never_dropped:
  assumes "runs_module ms mf goos src"
    and "mf = cpu_manifest \<and> cpu_inv goos c \<and> fst (cpu_provider c) = Inr obs
      \<or> mf = memory_manifest \<and> memory_goos (fst m) = goos \<and> fst (memory_provider m) = Inr obs
      \<or> mf = disk_manifest \<and> disk_inv goos d \<and> disk_fair d \<and> fst (disk_provider d) = Inr obs
      \<or> mf = net_manifest \<and> net_inv goos n \<and> fst (net_provider n) = Inr obs
      \<or> mf = hostname_manifest \<and> fst (hostname_provider h) = Inr obs"
  shows "drops_nothing src now obs"
proof -
  note kept = cpu.nothing_dropped [of ms goos src c obs "snd (cpu_provider c)"] memory.nothing_dropped [of ms goos src m obs "snd (memory_provider m)"]
    disk.nothing_dropped [of ms goos src d obs "snd (disk_provider d)"]
    net.nothing_dropped [of ms goos src n obs "snd (net_provider n)"] hostname.nothing_dropped [of ms goos src h obs "snd (hostname_provider h)"]
  from assms(2) show ?thesis unfolding drops_nothing_def
    by (elim disjE conjE) (use assms(1) kept in \<open>simp_all add: prod_eq_iff\<close>)
qed

section \<open>At a concrete input\<close>

definition no_overrides :: overrides where
  "no_overrides = \<lparr>ov_host = [], ov_modules = []\<rparr>"

definition bundled :: "manifest list" where
  "bundled = [hostname_manifest, cpu_manifest, memory_manifest, disk_manifest]"

lemma bundled_resolves: "\<exists>d. resolve bundled no_overrides = Inr d"
proof -
  have "(case resolve bundled no_overrides of Inl _ \<Rightarrow> False | Inr _ \<Rightarrow> True)" by code_simp
  then show ?thesis by (auto split: sum.splits)
qed

text \<open>The source the scheduler builds for a bundled module on Linux.\<close>

definition bundled_plan :: "string \<Rightarrow> source_error + source list \<times> skipped list" where
  "bundled_plan name = (case resolve bundled no_overrides of
       Inl _ \<Rightarrow> Inr ([], []) | Inr d \<Rightarrow> sources d [(name, Some 60)] [] ''linux'')"

lemma bundled_runs:
  assumes "bundled_plan (m_module mf) = Inr ([src], sk)" "mf \<in> set bundled"
  shows "runs_module bundled mf ''linux'' src"
proof -
  from bundled_resolves obtain d where d: "resolve bundled no_overrides = Inr d" by blast
  then have "sources_loop d [] ''linux'' [(m_module mf, Some 60)] [] [] [] = Inr ([src], sk)"
    using assms(1) by (simp add: bundled_plan_def sources_def)
  from sources_loop_ok [OF this] have "so_module src = m_module mf" "source_matches d ''linux'' src"
    by (auto simp: scheduled_def split: if_splits)
  moreover have "distinct (map m_module bundled)"
    by (simp add: bundled_def manifest_names)
  ultimately show ?thesis using assms(2) d by (auto simp: runs_module_def)
qed

lemma bundled_source:
  assumes "mf \<in> {hostname_manifest, cpu_manifest, disk_manifest}"
  shows "\<exists>src. runs_module bundled mf ''linux'' src"
proof -
  have one: "(case bundled_plan ''hostname'' of Inl _ \<Rightarrow> False | Inr (srcs, _) \<Rightarrow> length srcs = 1)"
      "(case bundled_plan ''cpu'' of Inl _ \<Rightarrow> False | Inr (srcs, _) \<Rightarrow> length srcs = 1)"
      "(case bundled_plan ''disk'' of Inl _ \<Rightarrow> False | Inr (srcs, _) \<Rightarrow> length srcs = 1)" by code_simp+
  have m: "m_module hostname_manifest = ''hostname''" "m_module cpu_manifest = ''cpu''" "m_module disk_manifest = ''disk''"
    by (simp_all add: manifest_names)
  have "case bundled_plan (m_module mf) of Inl _ \<Rightarrow> False | Inr (srcs, _) \<Rightarrow> length srcs = 1" using assms one m by auto
  then have "\<exists>src sk. bundled_plan (m_module mf) = Inr ([src], sk)" by (auto simp: length_Suc_conv split: sum.splits)
  then show ?thesis using bundled_runs [of mf] assms by (auto simp: bundled_def)
qed

text \<open>A host name, a processor with two readings, and a disk whose readings are just over a second apart, on no whole millisecond.\<close>

theorem modules_never_dropped_witness:
  "(\<exists>src obs. obs \<noteq> [] \<and> fst (hostname_provider [Inr ''web'']) = Inr obs \<and> drops_nothing src 7 obs)
   \<and> (\<exists>src obs. obs \<noteq> [] \<and> fst (cpu_provider (example_host, example_module, 0)) = Inr obs \<and> drops_nothing src 7 obs)
   \<and> (\<exists>src obs. obs \<noteq> [] \<and> fst (disk_provider (example_disks, example_disk_module, 0)) = Inr obs \<and> drops_nothing src 7 obs)"
proof (intro conjI)
  obtain src where runs: "runs_module bundled hostname_manifest ''linux'' src" using bundled_source by blast
  have t: "trim_space ''web'' = ''web''" by (rule trim_space_ascii) (simp_all add: byte_def is_space_def)
  have rep: "fst (hostname_provider [Inr ''web'']) = Inr [host_ob ''hostname'' (VString ''web'')]"
    by (simp add: hostname_provider_def hostname_collect_def t)
  show "\<exists>src obs. obs \<noteq> [] \<and> fst (hostname_provider [Inr ''web'']) = Inr obs \<and> drops_nothing src 7 obs"
    using modules_never_dropped [OF runs, where obs = "[host_ob ''hostname'' (VString ''web'')]" and h = "[Inr ''web'']"] rep by fastforce
next
  obtain src where runs: "runs_module bundled cpu_manifest ''linux'' src" using bundled_source by blast
  have host: "cr_model example_host k = (Inr ''cpu'', k)" "cr_counts example_host k = (Inr 4, k)"
      "cr_load example_host k = (Inr \<lparr>ld_one = Fin 1, ld_five = Fin 1, ld_fifteen = Fin 1\<rparr>, k)" "cpu_goos example_module = ''linux''" for k
    by (simp_all add: example_host_def cpu_goos_def example_module_def)
  obtain v m' w' where u: "usage example_host example_module 0 = (Inr v, m', w')"
    by (simp add: usage_def example_host_def example_module_def can_prime_def)
  have "\<exists>obs. fst (cpu_provider (example_host, example_module, 0)) = Inr obs \<and> obs \<noteq> []"
    by (cases v) (simp_all add: cpu_provider_def cpu_collect_def Let_def host u add_model_def add_counts_def add_load_def add_usage_def
        report_def omit_def collectable_def load_platforms_def)
  then obtain obs where rep: "fst (cpu_provider (example_host, example_module, 0)) = Inr obs" "obs \<noteq> []" by blast
  have "cpu_inv ''linux'' (example_host, example_module, 0)" using example_host_ok by (simp add: cpu_inv_def cpu_goos_def example_module_def)
  then show "\<exists>src obs. obs \<noteq> [] \<and> fst (cpu_provider (example_host, example_module, 0)) = Inr obs \<and> drops_nothing src 7 obs"
    using modules_never_dropped [OF runs, where obs = obs and c = "(example_host, example_module, 0)"] rep by fastforce
next
  obtain src where runs: "runs_module bundled disk_manifest ''linux'' src" using bundled_source by blast
  let ?s = "(example_disks, example_disk_module, 0 :: nat)"
  have read: "read_io example_disks k = (Inr \<lparr>rd_at = int (Suc k) * 1000000007, rd_dev = [(''sda'', example_disk (word_of_nat k))]\<rparr>, Suc k)" for k
    by (simp add: read_io_def example_disks_def example_disk_def counted_def gm_put_def)
  have prime: "disk_can_prime example_disks example_disk_module k" "dk_sleep example_disks d k = (True, k)" "dkm_last example_disk_module = None" for k d
    by (simp_all add: disk_can_prime_def example_disks_def example_disk_module_def)
  have fair: "disk_inv ''linux'' ?s" "disk_fair ?s"
    by (simp_all add: disk_inv_def disk_fair_def window_ok_def disk_window_def read prime disk_goos_def) (simp add: example_disk_module_def)
  have vol: "system_volume example_disks ''linux'' 0 = (Inr ''/'', 0)" "dk_usage example_disks ''/'' 0 = (Inl ''down'', 0)"
    by (simp_all add: system_volume_def example_disks_def)
  have goos: "disk_goos example_disk_module = ''linux''" by (simp add: disk_goos_def example_disk_module_def)
  have "\<exists>obs. fst (disk_io example_disks example_disk_module b 0) = Inr obs \<and> obs \<noteq> []" for b
    by (simp add: disk_io_def read prime rates_def common_def gm_get_def time_sub_def Let_def rate_ob_def delta_def example_disk_def)
  then obtain os devs m' w' where io: "disk_io example_disks example_disk_module True 0 = (Inr os, devs, m', w')" "os \<noteq> []"
    by (metis prod_cases4 fst_conv)
  have "collectable linux_only ''linux''" by (simp add: collectable_def linux_only_def)
  then have rep: "fst (disk_provider ?s) = Inr os" "os \<noteq> []"
    using io by (simp_all add: disk_provider_def disk_collect_def goos vol Let_def)
  show "\<exists>src obs. obs \<noteq> [] \<and> fst (disk_provider ?s) = Inr obs \<and> drops_nothing src 7 obs"
    using modules_never_dropped [OF runs, where obs = os and d = ?s] fair rep by fastforce
qed

end
