(* ===== verification/Version.thy ===== *)
theory Version
  imports Gonum "HOL-Library.Product_Lexorder"
begin

text \<open>
  \<open>internal/upgrade/version.go\<close>: release versions, which tags they accept, how they print and which is
  newer. The two regular expressions are written out over the parts they separate. The lemmas show
  the round trip with the tag and that \<open>Compare\<close> is the order of a key.
\<close>

record version =
  v_major :: int
  v_minor :: int
  v_patch :: int
  v_pre :: string

section \<open>Parsing\<close>

text \<open>\<open>0|[1-9]\<close> with any digits after, and an identifier of a pre-release.\<close>

definition numeral_ok :: "string \<Rightarrow> bool" where
  "numeral_ok s \<longleftrightarrow> s = ''0'' \<or> (s \<noteq> [] \<and> hd s \<noteq> CHR ''0'' \<and> list_all is_digit s)"

definition pre_char :: "char \<Rightarrow> bool" where
  "pre_char c \<longleftrightarrow> is_digit c \<or> is_lower c \<or> (65 \<le> byte c \<and> byte c \<le> 90) \<or> c = CHR ''-''"

definition pre_ok :: "string \<Rightarrow> bool" where
  "pre_ok p \<longleftrightarrow> list_all (\<lambda>i. i \<noteq> [] \<and> list_all pre_char i) (split_at (CHR ''.'') p)"

text \<open>\<open>semverRE\<close>: a core has no hyphen, so the first hyphen opens the pre-release.\<close>

definition strip_v :: "string \<Rightarrow> string" where
  "strip_v s = (case cut_prefix ''v'' s of None \<Rightarrow> s | Some r \<Rightarrow> r)"

definition split_pre :: "string \<Rightarrow> string \<times> string option" where
  "split_pre t = (case cut_at (CHR ''-'') t of None \<Rightarrow> (t, None) | Some (a, b) \<Rightarrow> (a, Some b))"

definition match_parts :: "string list \<Rightarrow> string option \<Rightarrow> (string \<times> string \<times> string \<times> string) option" where
  "match_parts ns pre = (case ns of
       [a, b, c] \<Rightarrow> if list_all numeral_ok [a, b, c] \<and> pred_option pre_ok pre
         then Some (a, b, c, case pre of None \<Rightarrow> [] | Some p \<Rightarrow> p) else None
     | _ \<Rightarrow> None)"

definition semver_match :: "string \<Rightarrow> (string \<times> string \<times> string \<times> string) option" where
  "semver_match s = (case split_pre (strip_v s) of (core, pre) \<Rightarrow> match_parts (split_at (CHR ''.'') core) pre)"

text \<open>\<open>describeRE\<close>: the pre-release ends in \<open>dirty\<close>, or in a count and an abbreviated hash, after a hyphen or alone.\<close>

definition lower_hex :: "char \<Rightarrow> bool" where
  "lower_hex c \<longleftrightarrow> is_digit c \<or> (97 \<le> byte c \<and> byte c \<le> 102)"

definition hash_part :: "string \<Rightarrow> bool" where
  "hash_part s \<longleftrightarrow> (case s of c # h \<Rightarrow> c = CHR ''g'' \<and> 4 \<le> length h \<and> list_all lower_hex h | [] \<Rightarrow> False)"

definition describe_parts :: "string list \<Rightarrow> bool" where
  "describe_parts ps \<longleftrightarrow> (case ps of h # n # _ \<Rightarrow> hash_part h \<and> n \<noteq> [] \<and> list_all is_digit n | _ \<Rightarrow> False)"

definition described :: "string \<Rightarrow> bool" where
  "described p \<longleftrightarrow> (let ps = rev (split_at (CHR ''-'') p) in describe_parts ps \<or> hd ps = ''dirty'')"

text \<open>\<open>strconv.Atoi\<close> of digits whose error is dropped: out of range it leaves the largest integer.\<close>

definition atoi_clamped :: "string \<Rightarrow> int" where
  "atoi_clamped s = min (int (digits_value s)) (2 ^ 63 - 1)"

definition parse_version :: "string \<Rightarrow> version option" where
  "parse_version s = (case semver_match (trim_space s) of
       None \<Rightarrow> None
     | Some (a, b, c, p) \<Rightarrow> if described p then None
         else Some \<lparr>v_major = atoi_clamped a, v_minor = atoi_clamped b, v_patch = atoi_clamped c, v_pre = p\<rparr>)"

section \<open>Printing\<close>

definition version_number :: "version \<Rightarrow> string" where
  "version_number v = itoa (v_major v) @ ''.'' @ itoa (v_minor v) @ ''.'' @ itoa (v_patch v)
     @ (if v_pre v \<noteq> [] then ''-'' @ v_pre v else [])"

definition version_tag :: "version \<Rightarrow> string" where
  "version_tag v = ''v'' @ version_number v"

section \<open>Comparing\<close>

definition cmp3 :: "'a :: linorder \<Rightarrow> 'a \<Rightarrow> int" where
  "cmp3 a b = (if a < b then - 1 else if b < a then 1 else 0)"

definition compare_pre :: "string \<Rightarrow> string \<Rightarrow> int" where
  "compare_pre a b = (case (atoi a, atoi b) of
       (Some m, Some n) \<Rightarrow> cmp3 m n
     | (Some _, None) \<Rightarrow> - 1
     | (None, Some _) \<Rightarrow> 1
     | (None, None) \<Rightarrow> cmp3 a b)"

fun compare_ids :: "string list \<Rightarrow> string list \<Rightarrow> int" where
  "compare_ids (a # as) (b # bs) = (if compare_pre a b \<noteq> 0 then compare_pre a b else compare_ids as bs)"
| "compare_ids as bs = cmp3 (length as) (length bs)"

fun compare_core :: "(int \<times> int) list \<Rightarrow> int" where
  "compare_core [] = 0"
| "compare_core ((a, b) # ds) = (if cmp3 a b \<noteq> 0 then cmp3 a b else compare_core ds)"

definition compare_versions :: "version \<Rightarrow> version \<Rightarrow> int" where
  "compare_versions a b = (
     let c = compare_core [(v_major a, v_major b), (v_minor a, v_minor b), (v_patch a, v_patch b)] in
     if c \<noteq> 0 then c
     else if v_pre a = v_pre b then 0
     else if v_pre a = [] then 1
     else if v_pre b = [] then - 1
     else compare_ids (split_at (CHR ''.'') (v_pre a)) (split_at (CHR ''.'') (v_pre b)))"

section \<open>The order\<close>

definition id_key :: "string \<Rightarrow> nat \<times> int \<times> string" where
  "id_key s = (case atoi s of Some n \<Rightarrow> (0, n, []) | None \<Rightarrow> (1, 0, s))"

definition version_key :: "version \<Rightarrow> int \<times> int \<times> int \<times> nat \<times> (nat \<times> int \<times> string) list" where
  "version_key v = (v_major v, v_minor v, v_patch v,
     if v_pre v = [] then (1, []) else (0, map id_key (split_at (CHR ''.'') (v_pre v))))"

lemma cmp3_zero [simp]: "cmp3 a b = 0 \<longleftrightarrow> a = b"
  by (auto simp: cmp3_def)

lemma cmp3_same [simp]: "cmp3 a a = 0"
  by simp

lemma cmp3_pair: "cmp3 (a, x) (b, y) = (if cmp3 a b \<noteq> 0 then cmp3 a b else cmp3 x y)"
  by (auto simp: cmp3_def)

lemma cmp3_Cons: "cmp3 (a # x) (b # y) = (if cmp3 a b \<noteq> 0 then cmp3 a b else cmp3 x y)"
  by (auto simp: cmp3_def)

lemma compare_pre_key: "compare_pre a b = cmp3 (id_key a) (id_key b)"
  by (auto simp: compare_pre_def id_key_def cmp3_pair split: option.splits) (auto simp: cmp3_def)

lemma nil_less_map: "xs \<noteq> [] \<Longrightarrow> ([] :: 'a :: linorder list) < map f xs"
  by (cases xs) simp_all

lemma compare_ids_key: "compare_ids as bs = cmp3 (map id_key as) (map id_key bs)"
proof (induction as bs rule: compare_ids.induct)
  case (1 a as b bs)
  then show ?case by (simp add: compare_pre_key cmp3_Cons)
qed (auto simp: cmp3_def nil_less_map)

lemma cmp3_trans: "cmp3 a b \<le> 0 \<Longrightarrow> cmp3 b c \<le> 0 \<Longrightarrow> cmp3 a c \<le> 0"
  by (auto simp: cmp3_def split: if_splits)

text \<open>SemVer makes \<open>-1\<close> a word, newer than any number.\<close>

lemma negative_identifier: "compare_pre ''-1'' ''0'' = - 1"
  by code_simp

text \<open>
  \<open>Compare\<close> is a total preorder of versions: it is the comparison of one key, the core numbers, then a
  release after its pre-releases, then the pre-release identifiers in turn, what \<open>Atoi\<close> reads as an \<open>int\<close> by
  value and before the other words, a prefix before what extends it. Hence it is antisymmetric and
  transitive. It is the precedence of SemVer but for the identifiers that \<open>Atoi\<close> and SemVer read
  differently: a hyphen before digits, leading zeros and numbers beyond 64 bits.\<close>

lemma compare_orders:
  "compare_versions a b = cmp3 (version_key a) (version_key b)
    \<and> compare_versions b a = - compare_versions a b
    \<and> (compare_versions a b \<le> 0 \<and> compare_versions b c \<le> 0 \<longrightarrow> compare_versions a c \<le> 0)"
proof -
  have key: "compare_versions x y = cmp3 (version_key x) (version_key y)" for x y
    by (auto simp: compare_versions_def version_key_def cmp3_pair compare_ids_key Let_def) (auto simp: cmp3_def)
  have "cmp3 (version_key b) (version_key a) = - cmp3 (version_key a) (version_key b)" by (auto simp: cmp3_def)
  then show ?thesis using cmp3_trans unfolding key by blast
qed

section \<open>The round trip\<close>

lemma digit_char: "is_digit c \<Longrightarrow> c \<noteq> CHR ''.'' \<and> c \<noteq> CHR ''-'' \<and> c \<noteq> CHR ''v'' \<and> byte c < 128 \<and> \<not> is_space (byte c)"
  by (auto simp: is_digit_def byte_def is_space_def)

lemma numeral_digits: "numeral_ok s \<Longrightarrow> s \<noteq> [] \<and> list_all is_digit s"
  by (auto simp: numeral_ok_def is_digit_def byte_def)

lemma nat_digits_head: "hd (nat_digits (width n) n) = CHR ''0'' \<Longrightarrow> n = 0"
proof (induction n rule: width.induct)
  case (1 n)
  show ?case
  proof (cases "n < 10")
    case True
    then have "digit n = CHR ''0''" using 1(2) by (simp add: width.simps [of n])
    then have "digit_value (digit n) = 0" by (simp add: digit_value_def byte_def)
    then show ?thesis using True by simp
  next
    case False
    have "nat_digits (width (n div 10)) (n div 10) \<noteq> []" using width_pos [of "n div 10"] by (simp flip: length_greater_0_conv)
    then have "hd (nat_digits (width (n div 10)) (n div 10)) = CHR ''0''" using 1(2) False by (simp add: width.simps [of n])
    then show ?thesis using 1(1) False by simp
  qed
qed

lemma itoa_nonneg: "0 \<le> i \<Longrightarrow> itoa i = nat_digits (width (nat i)) (nat i)"
  using width_pos [of "nat i"] by (simp add: itoa_def pad_def max_def Let_def)

lemma itoa_numeral: "0 \<le> i \<Longrightarrow> numeral_ok (itoa i)"
proof (cases "i = 0")
  case True
  have "itoa 0 = ''0''" by code_simp
  then show ?thesis using True by (simp add: numeral_ok_def)
next
  case False
  assume i: "0 \<le> i"
  let ?ds = "nat_digits (width (nat i)) (nat i)"
  have "?ds \<noteq> []" using width_pos [of "nat i"] by (simp flip: length_greater_0_conv)
  moreover have "hd ?ds \<noteq> CHR ''0''" using nat_digits_head [of "nat i"] i False by auto
  ultimately show ?thesis unfolding numeral_ok_def itoa_nonneg [OF i] by simp
qed

lemma atoi_clamped_range: "0 \<le> atoi_clamped s \<and> atoi_clamped s < 2 ^ 63"
  by (simp add: atoi_clamped_def min_def)

lemma itoa_clamped: "0 \<le> i \<Longrightarrow> i < 2 ^ 63 \<Longrightarrow> atoi_clamped (itoa i) = i"
  by (simp add: atoi_clamped_def itoa_nonneg nat_digits_value width_enough)

definition version_ok :: "version \<Rightarrow> bool" where
  "version_ok v \<longleftrightarrow> list_all (\<lambda>n. 0 \<le> n \<and> n < 2 ^ 63) [v_major v, v_minor v, v_patch v]
     \<and> (v_pre v \<noteq> [] \<longrightarrow> pre_ok (v_pre v)) \<and> \<not> described (v_pre v)"

lemma split_core: "list_all numeral_ok [a, b, c] \<Longrightarrow> split_at (CHR ''.'') (a @ ''.'' @ b @ ''.'' @ c) = [a, b, c] \<and> CHR ''-'' \<notin> set (a @ ''.'' @ b @ ''.'' @ c)"
proof -
  assume "list_all numeral_ok [a, b, c]"
  then have "list_all is_digit a" "list_all is_digit b" "list_all is_digit c" using numeral_digits by simp_all
  then have "x \<noteq> CHR ''.'' \<and> x \<noteq> CHR ''-''" if "x \<in> set a \<union> set b \<union> set c" for x
    using that digit_char by (auto simp: list_all_iff)
  then have no: "CHR ''.'' \<notin> set a" "CHR ''.'' \<notin> set b" "CHR ''.'' \<notin> set c" "CHR ''-'' \<notin> set a" "CHR ''-'' \<notin> set b" "CHR ''-'' \<notin> set c"
    by blast+
  show ?thesis using split_at_first [OF no(1)] split_at_first [OF no(2)] split_at_none [OF no(3)] no(4-6) by simp
qed

lemma semver_match_parts:
  assumes "list_all numeral_ok [a, b, c]" "p \<noteq> [] \<longrightarrow> pre_ok p" "t = [] \<or> t = ''v''"
  shows "semver_match (t @ a @ ''.'' @ b @ ''.'' @ c @ (if p \<noteq> [] then ''-'' @ p else [])) = Some (a, b, c, p)"
proof -
  let ?core = "a @ ''.'' @ b @ ''.'' @ c"
  note core = split_core [OF assms(1)]
  obtain x xs where a: "a = x # xs" "is_digit x" using assms(1) numeral_digits [of a] by (cases a) auto
  then have strip: "strip_v (t @ ?core @ q) = ?core @ q" for q
    using assms(3) digit_char [OF a(2)] by (auto simp: strip_v_def split: if_splits)
  have "split_pre (?core @ (if p \<noteq> [] then ''-'' @ p else [])) = (?core, if p \<noteq> [] then Some p else None)"
  proof (cases "p = []")
    case True
    have "cut_at (CHR ''-'') ?core = None" using core by (simp add: cut_at_none)
    then show ?thesis using True by (simp add: split_pre_def)
  next
    case False
    have "cut_at (CHR ''-'') (?core @ CHR ''-'' # p) = Some (?core, p)" using core by (intro cut_at_append) simp
    then show ?thesis using False by (simp add: split_pre_def)
  qed
  then have "semver_match (t @ ?core @ (if p \<noteq> [] then ''-'' @ p else [])) = match_parts [a, b, c] (if p \<noteq> [] then Some p else None)"
    using core strip by (simp add: semver_match_def)
  then show ?thesis using assms(1,2) by (cases "p = []") (simp_all add: match_parts_def)
qed

lemma pre_char_ascii: "pre_char c \<Longrightarrow> byte c < 128 \<and> \<not> is_space (byte c)"
  by (auto simp: pre_char_def is_digit_def is_lower_def is_space_def byte_def)

lemma pre_ok_ascii: "pre_ok p \<Longrightarrow> x \<in> set p \<Longrightarrow> byte x < 128 \<and> \<not> is_space (byte x)"
  using split_at_members [of x p "CHR ''.''"] pre_char_ascii by (auto simp: pre_ok_def list_all_iff byte_def is_space_def)

lemma trim_version: "list_all numeral_ok [a, b, c] \<Longrightarrow> p \<noteq> [] \<longrightarrow> pre_ok p \<Longrightarrow> t = [] \<or> t = ''v'' \<Longrightarrow>
    trim_space (t @ a @ ''.'' @ b @ ''.'' @ c @ (if p \<noteq> [] then ''-'' @ p else [])) = t @ a @ ''.'' @ b @ ''.'' @ c @ (if p \<noteq> [] then ''-'' @ p else [])"
proof -
  assume h: "list_all numeral_ok [a, b, c]" "p \<noteq> [] \<longrightarrow> pre_ok p" "t = [] \<or> t = ''v''"
  let ?s = "t @ a @ ''.'' @ b @ ''.'' @ c @ (if p \<noteq> [] then ''-'' @ p else [])"
  have ok: "byte x < 128 \<and> \<not> is_space (byte x)" if "x \<in> set ?s" for x
  proof -
    have "(x \<in> set a \<union> set b \<union> set c \<longrightarrow> is_digit x) \<and> (x \<in> set p \<longrightarrow> byte x < 128 \<and> \<not> is_space (byte x))"
      using h(1,2) numeral_digits pre_ok_ascii [of p x] by (auto simp: list_all_iff)
    moreover have "x \<in> set a \<union> set b \<union> set c \<or> x \<in> set p \<or> x \<in> {CHR ''.'', CHR ''-'', CHR ''v''}"
      using that h(3) by (auto split: if_splits)
    moreover have "byte x < 128 \<and> \<not> is_space (byte x)" if "is_digit x"
      using digit_char [OF that] by (simp add: is_space_def)
    moreover have "byte x < 128 \<and> \<not> is_space (byte x)" if "x \<in> {CHR ''.'', CHR ''-'', CHR ''v''}"
      using that by (auto simp: byte_def is_space_def)
    ultimately show ?thesis by blast
  qed
  have ne: "?s \<noteq> []" by simp
  show ?thesis using ok [OF hd_in_set [OF ne]] ok [OF last_in_set [OF ne]] by (intro trim_space_ascii [OF ne]) simp_all
qed

lemma parse_printed:
  assumes "version_ok v" "t = [] \<or> t = ''v''"
  shows "parse_version (t @ version_number v) = Some v"
proof -
  let ?n = "[itoa (v_major v), itoa (v_minor v), itoa (v_patch v)]"
  have n: "list_all numeral_ok ?n" and p: "v_pre v \<noteq> [] \<longrightarrow> pre_ok (v_pre v)"
    using assms(1) by (simp_all add: version_ok_def itoa_numeral)
  show ?thesis unfolding version_number_def
    using assms by (simp add: parse_version_def trim_version [OF n p assms(2), simplified] semver_match_parts [OF n p assms(2), simplified] itoa_clamped version_ok_def)
qed

lemma parse_version_ok: "parse_version s = Some v \<Longrightarrow> version_ok v"
proof -
  assume r: "parse_version s = Some v"
  then obtain a b c p where m: "semver_match (trim_space s) = Some (a, b, c, p)" "\<not> described p"
      "v = \<lparr>v_major = atoi_clamped a, v_minor = atoi_clamped b, v_patch = atoi_clamped c, v_pre = p\<rparr>"
    by (auto simp: parse_version_def split: option.splits if_splits)
  from m(1) have "p \<noteq> [] \<longrightarrow> pre_ok p"
    by (auto simp: semver_match_def match_parts_def split: prod.splits list.splits option.splits if_splits)
  then show ?thesis using m(2,3) atoi_clamped_range by (simp add: version_ok_def)
qed

text \<open>
  C27: release versions survive the round trip. Every version that parses, whatever it was read from, is one
  whose tag and whose number parse back to it; and the versions with that property are exactly those
  with core numbers of 63 bits and a well-formed pre-release that is no development build's.\<close>

theorem version_roundtrip:
  "(parse_version s = Some v \<longrightarrow> parse_version (version_tag v) = Some v \<and> parse_version (version_number v) = Some v)
    \<and> (parse_version (version_tag v) = Some v \<longleftrightarrow> version_ok v)"
  using parse_printed [of v "''v''"] parse_printed [of v "[]"] parse_version_ok by (auto simp: version_tag_def)

theorem version_roundtrip_witness:
  "parse_version ''v1.2.3-rc.1'' = Some \<lparr>v_major = 1, v_minor = 2, v_patch = 3, v_pre = ''rc.1''\<rparr>"
proof -
  let ?v = "\<lparr>v_major = 1, v_minor = 2, v_patch = 3, v_pre = ''rc.1''\<rparr>"
  have "version_tag ?v = ''v1.2.3-rc.1''" by code_simp
  moreover have "version_ok ?v" by code_simp
  ultimately show ?thesis using version_roundtrip [of _ ?v] by simp
qed

lemma compare_orders_witness: "compare_versions \<lparr>v_major = 0, v_minor = 5, v_patch = 0, v_pre = ''rc.2''\<rparr> \<lparr>v_major = 0, v_minor = 5, v_patch = 0, v_pre = ''rc.10''\<rparr> = - 1"
proof -
  let ?a = "\<lparr>v_major = 0, v_minor = 5, v_patch = 0, v_pre = ''rc.2''\<rparr>" and ?b = "\<lparr>v_major = 0, v_minor = 5, v_patch = 0, v_pre = ''rc.10''\<rparr>"
  have "compare_versions ?b ?a = 1" by code_simp
  then show ?thesis using compare_orders [of ?b ?a] by simp
qed

end
