(* ===== verification/Release.thy ===== *)
theory Release
  imports Version Gosha
begin

text \<open>
  \<open>internal/upgrade\<close> (release.go, client.go, fetch.go): where releases are, which archive is installed and how
  its bytes are verified. The network, URL parsing, the archive formats and the staging directory are
  parameters; checksums, limits and SHA-256 are written out.
\<close>

section \<open>Downloads\<close>

text \<open>An answer: its status, the announced length, the body, and the error that cut it short, if any.\<close>

record http_reply =
  hr_status :: int
  hr_text :: string
  hr_length :: int
  hr_body :: string
  hr_broken :: "string option"

type_synonym 'w http = "string \<Rightarrow> 'w \<Rightarrow> (string + http_reply) \<times> 'w"

datatype get_error = RequestFailed string | NotFound string | BadStatus string string | TooLarge string int int

text \<open>\<open>limitedBody\<close>: what can be read, and the error after it. At the limit itself a read only looks for one more byte.\<close>

definition larger_than_allowed :: string where
  "larger_than_allowed = ''larger than allowed''"

definition limited_body :: "nat \<Rightarrow> http_reply \<Rightarrow> string \<times> string option" where
  "limited_body limit r = (take limit (hr_body r),
     if limit < length (hr_body r) then Some larger_than_allowed
     else if length (hr_body r) = limit then None
     else hr_broken r)"

definition get_body :: "'w http \<Rightarrow> string \<Rightarrow> nat \<Rightarrow> 'w \<Rightarrow> (get_error + string \<times> string option) \<times> 'w" where
  "get_body http url limit w = (case http url w of
       (Inl e, w1) \<Rightarrow> (Inl (RequestFailed e), w1)
     | (Inr r, w1) \<Rightarrow> (if hr_status r = 404 then Inl (NotFound url)
         else if hr_status r \<noteq> 200 then Inl (BadStatus url (hr_text r))
         else if int limit < hr_length r then Inl (TooLarge url (hr_length r) (int limit))
         else Inr (limited_body limit r), w1))"

text \<open>The redirects the client follows, by the scheme of the request and of those before it.\<close>

datatype redirect = Follow | TooManyRedirects | InsecureRedirect

definition check_redirect :: "string \<Rightarrow> string list \<Rightarrow> redirect" where
  "check_redirect scheme via = (if 10 \<le> length via then TooManyRedirects
     else if scheme \<noteq> ''https'' \<and> last via = ''https'' then InsecureRedirect else Follow)"

section \<open>The proxy and the location\<close>

definition proxy_names :: "(string \<times> string) list" where
  "proxy_names = [(''HTTPS_PROXY'', ''https_proxy''), (''HTTP_PROXY'', ''http_proxy''), (''NO_PROXY'', ''no_proxy'')]"

definition proxy_settings :: "(string \<Rightarrow> string) \<Rightarrow> (string, string) gomap \<Rightarrow> string list" where
  "proxy_settings getenv stored = (
     let src = (if list_ex (\<lambda>(a, b). getenv a \<noteq> [] \<or> getenv b \<noteq> []) proxy_names then getenv else gm_getd [] stored)
     in map (\<lambda>(a, b). let v = trim_space (src a) in if v \<noteq> [] then v else trim_space (src b)) proxy_names)"

definition default_releases_url :: string where
  "default_releases_url = ''https://github.com/omnismith-apps/omnistat/releases''"

definition env_releases_url :: string where
  "env_releases_url = ''OMNISTAT_RELEASES_URL''"

record url_parts =
  up_scheme :: string
  up_host :: string
  up_hostname :: string
  up_user :: bool
  up_query :: string
  up_fragment :: string
  up_text :: string

datatype url_error = UnusableURL string | InsecureURL string

definition loopback :: "(string \<Rightarrow> bool) \<Rightarrow> string \<Rightarrow> bool" where
  "loopback loopback_ip host \<longleftrightarrow> host = ''localhost'' \<or> loopback_ip host"

definition trim_slashes :: "string \<Rightarrow> string" where
  "trim_slashes s = rev (dropWhile (\<lambda>c. c = CHR ''/'') (rev s))"

definition releases_url :: "(string \<Rightarrow> url_parts option) \<Rightarrow> (string \<Rightarrow> bool) \<Rightarrow> (string \<Rightarrow> string) \<Rightarrow> url_error + string" where
  "releases_url parse loopback_ip getenv = (let raw = trim_space (getenv env_releases_url) in
     if raw = [] then Inr default_releases_url
     else (case parse raw of
         None \<Rightarrow> Inl (UnusableURL raw)
       | Some u \<Rightarrow>
           if up_host u = [] \<or> up_user u \<or> up_query u \<noteq> [] \<or> up_fragment u \<noteq> [] then Inl (UnusableURL raw)
           else if up_scheme u = ''https'' \<or> (up_scheme u = ''http'' \<and> loopback loopback_ip (up_hostname u))
             then Inr (trim_slashes (up_text u))
           else Inl (InsecureURL raw)))"

section \<open>The checksums\<close>

definition checksums_limit :: nat where
  "checksums_limit = 1048576"

definition scan_limit :: nat where
  "scan_limit = 65536"

text \<open>\<open>bufio.Scanner\<close>: the lines up to the first that does not fit its buffer, and whether there is one.\<close>

definition scan_lines :: "string \<Rightarrow> string list \<times> bool" where
  "scan_lines s = scan_upto scan_limit s"

definition hex_char :: "char \<Rightarrow> bool" where
  "hex_char c \<longleftrightarrow> lower_hex (lower_byte c)"

datatype sums_error = SumsGet get_error | BadSumLine nat | BadSumHash nat | ListedTwice string | SumsRead string

fun parse_sums :: "nat \<Rightarrow> string list \<Rightarrow> (string, string) gomap \<Rightarrow> sums_error + (string, string) gomap" where
  "parse_sums n [] sums = Inr sums"
| "parse_sums n (l # ls) sums = (let t = trim_space l in
     if t = [] then parse_sums (Suc n) ls sums
     else (case go_fields t of
         [h, f] \<Rightarrow>
           if length h \<noteq> 64 then Inl (BadSumLine n)
           else if \<not> list_all hex_char h then Inl (BadSumHash n)
           else (let name = trim_prefix ''*'' f; hash = map lower_byte h in
             if gm_has sums name \<and> gm_getd [] sums name \<noteq> hash then Inl (ListedTwice name)
             else parse_sums (Suc n) ls (gm_put name hash sums))
       | _ \<Rightarrow> Inl (BadSumLine n)))"

definition fetch_checksums :: "'w http \<Rightarrow> string \<Rightarrow> 'w \<Rightarrow> (sums_error + (string, string) gomap) \<times> 'w" where
  "fetch_checksums http url w = (case get_body http url checksums_limit w of
       (Inl e, w1) \<Rightarrow> (Inl (SumsGet e), w1)
     | (Inr (body, broken), w1) \<Rightarrow> (case scan_lines body of (ls, long) \<Rightarrow>
         (case parse_sums 1 ls [] of
            Inl e \<Rightarrow> Inl e
          | Inr sums \<Rightarrow> if long then Inl (SumsRead ''token too long'')
              else (case broken of Some e \<Rightarrow> Inl (SumsRead e) | None \<Rightarrow> Inr sums)), w1))"

section \<open>The release\<close>

record release =
  rl_version :: version
  rl_asset :: string
  rl_sha :: string
  rl_url :: string
  rl_sums_url :: string

definition archive_ext :: "string \<Rightarrow> string" where
  "archive_ext goos = (if goos = ''windows'' then ''.zip'' else ''.tar.gz'')"

definition asset_suffix :: "string \<Rightarrow> string \<Rightarrow> string" where
  "asset_suffix goos goarch = ''_'' @ goos @ ''_'' @ goarch @ archive_ext goos"

definition asset_name :: "version \<Rightarrow> string \<Rightarrow> string \<Rightarrow> string" where
  "asset_name v goos goarch = ''omnistat_'' @ version_number v @ asset_suffix goos goarch"

datatype release_error = NotAVersion string | NoSuchRelease version get_error | SumsFailed sums_error
  | NoArchive "version option" string | ManyArchives string

text \<open>The version an archive's name stands for on this platform, if it is one the release may have.\<close>

definition asset_version :: "string \<Rightarrow> string \<Rightarrow> version option \<Rightarrow> string \<Rightarrow> version option" where
  "asset_version goos goarch pinned name = (case cut_prefix ''omnistat_'' name of
       None \<Rightarrow> None
     | Some r \<Rightarrow> (case cut_suffix (asset_suffix goos goarch) r of
         None \<Rightarrow> None
       | Some num \<Rightarrow> (case parse_version num of
           None \<Rightarrow> None
         | Some v \<Rightarrow> if version_number v = num \<and> pred_option (\<lambda>p. compare_versions v p = 0) pinned then Some v else None)))"

definition found_release :: "string \<Rightarrow> string \<Rightarrow> string \<times> string \<Rightarrow> version \<Rightarrow> release" where
  "found_release base sums_url ns v = \<lparr>rl_version = v, rl_asset = fst ns, rl_sha = snd ns,
     rl_url = base @ ''/download/'' @ version_tag v @ ''/'' @ fst ns, rl_sums_url = sums_url\<rparr>"

definition found_releases :: "string \<Rightarrow> string \<Rightarrow> string \<Rightarrow> string \<Rightarrow> version option \<Rightarrow> (string, string) gomap \<Rightarrow> release list" where
  "found_releases base sums_url goos goarch pinned sums = concat (map (\<lambda>ns. case asset_version goos goarch pinned (fst ns) of
     None \<Rightarrow> [] | Some v \<Rightarrow> [found_release base sums_url ns v]) sums)"

definition sums_url_for :: "string \<Rightarrow> version option \<Rightarrow> string" where
  "sums_url_for base pinned = (case pinned of None \<Rightarrow> base @ ''/latest/download/checksums.txt''
     | Some v \<Rightarrow> base @ ''/download/'' @ version_tag v @ ''/checksums.txt'')"

definition resolve_pinned :: "'w http \<Rightarrow> string \<Rightarrow> version option \<Rightarrow> string \<Rightarrow> string \<Rightarrow> 'w \<Rightarrow> (release_error + release) \<times> 'w" where
  "resolve_pinned http base pinned goos goarch w = (
     let url = sums_url_for base pinned
     in case fetch_checksums http url w of
          (Inl e, w1) \<Rightarrow> (Inl (case (e, pinned) of (SumsGet (NotFound u), Some v) \<Rightarrow> NoSuchRelease v (NotFound u) | _ \<Rightarrow> SumsFailed e), w1)
        | (Inr sums, w1) \<Rightarrow> (case found_releases base url goos goarch pinned sums of
              [] \<Rightarrow> Inl (NoArchive pinned url) | [r] \<Rightarrow> Inr r | _ \<Rightarrow> Inl (ManyArchives url), w1))"

definition resolve_release :: "'w http \<Rightarrow> string \<Rightarrow> string \<Rightarrow> string \<Rightarrow> string \<Rightarrow> 'w \<Rightarrow> (release_error + release) \<times> 'w" where
  "resolve_release http base want goos goarch w = (if want = [] then resolve_pinned http base None goos goarch w
     else (case parse_version want of None \<Rightarrow> (Inl (NotAVersion want), w) | Some v \<Rightarrow> resolve_pinned http base (Some v) goos goarch w))"

section \<open>The archive\<close>

definition archive_limit :: nat where
  "archive_limit = 256 * 1024 * 1024"

definition binary_limit :: nat where
  "binary_limit = 256 * 1024 * 1024"

definition binary_name :: "string \<Rightarrow> string" where
  "binary_name goos = (if goos = ''windows'' then ''omnistat.exe'' else ''omnistat'')"

text \<open>
  An entry of an archive: its name as it is compared (cleaned in a tar, as it is in a zip), whether it is a regular
  file, the error of opening it, its content and the error that reading it ends in. The archive reader of a
  platform yields entries until the end or an error. Paths are joined the platform's way; a file holds what was written to it.
\<close>

record archive_entry =
  ae_name :: string
  ae_regular :: bool
  ae_open :: "string option"
  ae_content :: string
  ae_cut :: "string option"

record 'w staging =
  sg_join :: "string \<Rightarrow> string \<Rightarrow> string"
  sg_create :: "string \<Rightarrow> 'w \<Rightarrow> string option \<times> 'w"
  sg_write :: "string \<Rightarrow> string \<Rightarrow> 'w \<Rightarrow> string option \<times> 'w"
  sg_remove :: "string \<Rightarrow> 'w \<Rightarrow> 'w"
  sg_entries :: "string \<Rightarrow> string \<Rightarrow> archive_entry list \<times> string option"

datatype fetch_error = DownloadGet get_error | DownloadFile string | DownloadBroken string | ChecksumMismatch string
  | Unpacking string | NoBinary

definition sha_hex :: "string \<Rightarrow> string" where
  "sha_hex s = hex_encode (sha256 (map byte s))"

definition download :: "'w http \<Rightarrow> 'w staging \<Rightarrow> release \<Rightarrow> string \<Rightarrow> 'w \<Rightarrow> (fetch_error + string) \<times> 'w" where
  "download http sg rel path w = (case get_body http (rl_url rel) archive_limit w of
       (Inl e, w1) \<Rightarrow> (Inl (DownloadGet e), w1)
     | (Inr (body, broken), w1) \<Rightarrow> (case sg_create sg path w1 of
         (Some e, w2) \<Rightarrow> (Inl (DownloadFile e), w2)
       | (None, w2) \<Rightarrow> (case sg_write sg path body w2 of
           (Some e, w3) \<Rightarrow> (Inl (DownloadBroken e), w3)
         | (None, w3) \<Rightarrow> (case broken of
             Some e \<Rightarrow> (Inl (DownloadBroken e), w3)
           | None \<Rightarrow> (if sha_hex body = rl_sha rel then Inr body else Inl (ChecksumMismatch (sha_hex body)), w3)))))"

definition write_binary :: "'w staging \<Rightarrow> string \<Rightarrow> archive_entry \<Rightarrow> 'w \<Rightarrow> fetch_error option \<times> 'w" where
  "write_binary sg dst e w = (case sg_create sg dst w of
       (Some x, w1) \<Rightarrow> (Some (Unpacking x), w1)
     | (None, w1) \<Rightarrow> (case sg_write sg dst (take (Suc binary_limit) (ae_content e)) w1 of
         (Some x, w2) \<Rightarrow> (Some (Unpacking x), w2)
       | (None, w2) \<Rightarrow> (if binary_limit < length (ae_content e) then Some (Unpacking ''the binary is too large'')
           else map_option Unpacking (ae_cut e), w2)))"

text \<open>The first entry that is the binary; the error of the archive counts when there is none.\<close>

definition unpack :: "'w staging \<Rightarrow> string \<Rightarrow> string \<Rightarrow> string \<Rightarrow> 'w \<Rightarrow> fetch_error option \<times> 'w" where
  "unpack sg goos data dst w = (case sg_entries sg goos data of (es, broken) \<Rightarrow>
     (case find (\<lambda>e. ae_regular e \<and> ae_name e = binary_name goos) es of
        None \<Rightarrow> (Some (case broken of Some e \<Rightarrow> Unpacking e | None \<Rightarrow> NoBinary), w)
      | Some e \<Rightarrow> (case ae_open e of Some x \<Rightarrow> (Some (Unpacking x), w) | None \<Rightarrow> write_binary sg dst e w)))"

definition fetch :: "'w http \<Rightarrow> 'w staging \<Rightarrow> release \<Rightarrow> string \<Rightarrow> string \<Rightarrow> 'w \<Rightarrow> (fetch_error + string) \<times> 'w" where
  "fetch http sg rel dir goos w = (
     let archive = sg_join sg dir (rl_asset rel); bin = sg_join sg dir (binary_name goos) in
     case download http sg rel archive w of
       (Inl e, w1) \<Rightarrow> (Inl e, sg_remove sg archive w1)
     | (Inr data, w1) \<Rightarrow> (case unpack sg goos data bin w1 of
         (Some e, w2) \<Rightarrow> (Inl e, sg_remove sg archive (sg_remove sg bin w2))
       | (None, w2) \<Rightarrow> (Inr bin, sg_remove sg archive w2)))"

section \<open>What is installed is what was listed\<close>

lemma parse_sums_ok:
  assumes "parse_sums n ls sums = Inr sums'" "gm_ok sums" "\<forall>k h. gm_get sums k = Some h \<longrightarrow> length h = 64"
  shows "gm_ok sums' \<and> (\<forall>k h. gm_get sums' k = Some h \<longrightarrow> length h = 64)"
  using assms
proof (induction n ls sums rule: parse_sums.induct)
  case (2 n l ls sums)
  show ?case
  proof (cases "trim_space l = []")
    case True
    then show ?thesis using 2 by simp
  next
    case False
    obtain h f where f: "go_fields (trim_space l) = [h, f]"
      using 2(3) False by (simp add: Let_def split: list.splits)
    have h: "length h = 64"
      using 2(3) False f by (simp add: Let_def split: if_splits)
    have rest: "parse_sums (Suc n) ls (gm_put (trim_prefix ''*'' f) (map lower_byte h) sums) = Inr sums'"
      using 2(3) False f by (simp add: Let_def split: if_splits)
    have put: "\<forall>k x. gm_get (gm_put (trim_prefix ''*'' f) (map lower_byte h) sums) k = Some x \<longrightarrow> length x = 64"
      using 2(5) h by simp
    show ?thesis
      using 2(3) False f 2(2) [OF refl False f refl refl _ _ refl refl _ rest _ put] 2(4) by (simp add: Let_def split: if_splits)
  qed
qed simp

lemma asset_version_name:
  assumes "asset_version goos goarch pinned name = Some v"
  shows "name = asset_name v goos goarch \<and> pred_option (\<lambda>p. compare_versions v p = 0) pinned \<and> version_ok v"
  using assms parse_version_ok
  by (auto simp: asset_version_def asset_name_def cut_prefix_iff cut_suffix_iff split: option.splits if_splits)

lemma asset_version_of:
  assumes "version_ok v" "pred_option (\<lambda>p. compare_versions v p = 0) pinned"
  shows "asset_version goos goarch pinned (asset_name v goos goarch) = Some v"
proof -
  have "cut_prefix ''omnistat_'' (asset_name v goos goarch) = Some (version_number v @ asset_suffix goos goarch)"
    by (simp add: cut_prefix_iff asset_name_def)
  moreover have "cut_suffix (asset_suffix goos goarch) (version_number v @ asset_suffix goos goarch) = Some (version_number v)"
    by (simp add: cut_suffix_iff)
  moreover have "parse_version (version_number v) = Some v" using parse_printed [OF assms(1), of "[]"] by simp
  ultimately show ?thesis using assms(2) by (simp add: asset_version_def)
qed

lemma found_releases_one:
  assumes "found_releases base url goos goarch pinned sums = [r]" "gm_ok sums"
  shows "gm_get sums (rl_asset r) = Some (rl_sha r) \<and> rl_asset r = asset_name (rl_version r) goos goarch
    \<and> rl_url r = base @ ''/download/'' @ version_tag (rl_version r) @ ''/'' @ rl_asset r \<and> rl_sums_url r = url
    \<and> pred_option (\<lambda>p. compare_versions (rl_version r) p = 0) pinned \<and> version_ok (rl_version r)
    \<and> (\<forall>v. version_ok v \<and> pred_option (\<lambda>p. compare_versions v p = 0) pinned \<and> gm_has sums (asset_name v goos goarch) \<longrightarrow> v = rl_version r)"
proof -
  let ?f = "\<lambda>ns. case asset_version goos goarch pinned (fst ns) of None \<Rightarrow> [] | Some v \<Rightarrow> [found_release base url ns v]"
  have "r \<in> set (concat (map ?f sums))" using assms(1) by (simp add: found_releases_def)
  then obtain ns where ns: "ns \<in> set sums" "r \<in> set (?f ns)" by (simp only: set_concat set_map UN_iff image_iff) blast
  obtain v where v: "asset_version goos goarch pinned (fst ns) = Some v" "r = found_release base url ns v"
    using ns(2) by (cases "asset_version goos goarch pinned (fst ns)") simp_all
  obtain n h where "ns = (n, h)" by (cases ns)
  with ns v have nh: "(n, h) \<in> set sums" "asset_version goos goarch pinned n = Some v" "r = found_release base url (n, h) v" by simp_all
  have only: "v' = v" if v': "version_ok v'" "pred_option (\<lambda>p. compare_versions v' p = 0) pinned" "gm_has sums (asset_name v' goos goarch)" for v'
  proof -
    obtain h' where "(asset_name v' goos goarch, h') \<in> set sums" using v'(3) by (auto simp: gm_has_iff)
    then have "?f (asset_name v' goos goarch, h') \<in> ?f ` set sums" by (rule imageI)
    then have "[found_release base url (asset_name v' goos goarch, h') v'] \<in> ?f ` set sums"
      using asset_version_of [OF v'(1,2), of goos goarch] by simp
    then have "found_release base url (asset_name v' goos goarch, h') v' \<in> set (found_releases base url goos goarch pinned sums)"
      unfolding found_releases_def set_concat set_map by (rule UnionI [OF imageI]) simp_all
    then have "found_release base url (asset_name v' goos goarch, h') v' = r" using assms(1) by simp
    then show ?thesis by (simp add: nh(3) found_release_def)
  qed
  show ?thesis using asset_version_name [OF nh(2)] gm_in_get [OF assms(2) nh(1)] only by (simp add: nh(3) found_release_def)
qed

lemma fetch_checksums_ok:
  assumes "fetch_checksums http url w = (Inr sums, w')"
  shows "gm_ok sums \<and> (\<forall>k h. gm_get sums k = Some h \<longrightarrow> length h = 64)"
  using assms parse_sums_ok [of 1 _ "[]" sums]
  by (auto simp: fetch_checksums_def gm_get_def split: prod.splits sum.splits if_splits option.splits)

definition pinned_version :: "string \<Rightarrow> version option" where
  "pinned_version want = (if want = [] then None else parse_version want)"

text \<open>
  C25: the release that is chosen is the one its checksum file lists. A resolved release was read from the file of the
  version named (\<open>resolve_release\<close> fails for a name that is no version) or of the latest; its archive is that file's
  entry for this platform and its version, under the URL of that version; the checksum to verify against is that
  entry's, 64 characters long; the version compares equal to the one named; and no other version on this
  platform is listed.
\<close>

theorem release_listed:
  assumes "resolve_release http base want goos goarch w = (Inr r, w')"
  shows "(want = [] \<or> pinned_version want \<noteq> None)
    \<and> (\<exists>sums. fetch_checksums http (sums_url_for base (pinned_version want)) w = (Inr sums, w')
      \<and> gm_get sums (rl_asset r) = Some (rl_sha r) \<and> length (rl_sha r) = 64
      \<and> (\<forall>v. version_ok v \<and> pred_option (\<lambda>p. compare_versions v p = 0) (pinned_version want)
           \<and> gm_has sums (asset_name v goos goarch) \<longrightarrow> v = rl_version r))
    \<and> rl_asset r = asset_name (rl_version r) goos goarch
    \<and> rl_url r = base @ ''/download/'' @ version_tag (rl_version r) @ ''/'' @ rl_asset r
    \<and> pred_option (\<lambda>p. compare_versions (rl_version r) p = 0) (pinned_version want)"
proof -
  have named: "want = [] \<or> pinned_version want \<noteq> None"
    using assms by (auto simp: resolve_release_def pinned_version_def split: if_splits option.splits)
  have "resolve_pinned http base (pinned_version want) goos goarch w = (Inr r, w')"
    using assms by (auto simp: resolve_release_def pinned_version_def split: if_splits option.splits)
  then obtain sums where sums: "fetch_checksums http (sums_url_for base (pinned_version want)) w = (Inr sums, w')"
    and one: "found_releases base (sums_url_for base (pinned_version want)) goos goarch (pinned_version want) sums = [r]"
    by (auto simp: resolve_pinned_def Let_def split: prod.splits sum.splits list.splits)
  note ok = fetch_checksums_ok [OF sums] and found = found_releases_one [OF one]
  have listed: "\<exists>sums. fetch_checksums http (sums_url_for base (pinned_version want)) w = (Inr sums, w')
      \<and> gm_get sums (rl_asset r) = Some (rl_sha r) \<and> length (rl_sha r) = 64
      \<and> (\<forall>v. version_ok v \<and> pred_option (\<lambda>p. compare_versions v p = 0) (pinned_version want)
           \<and> gm_has sums (asset_name v goos goarch) \<longrightarrow> v = rl_version r)"
    using sums ok found by blast
  have "rl_asset r = asset_name (rl_version r) goos goarch"
    "rl_url r = base @ ''/download/'' @ version_tag (rl_version r) @ ''/'' @ rl_asset r"
    "pred_option (\<lambda>p. compare_versions (rl_version r) p = 0) (pinned_version want)"
    using ok found by blast+
  with named listed show ?thesis by blast
qed

text \<open>An answer with the whole body of a file.\<close>

definition whole_answer :: "'w http \<Rightarrow> string \<Rightarrow> nat \<Rightarrow> 'w \<Rightarrow> string \<Rightarrow> bool" where
  "whole_answer http url limit w data \<longleftrightarrow> (case fst (http url w) of
       Inl _ \<Rightarrow> False
     | Inr r \<Rightarrow> hr_status r = 200 \<and> data = hr_body r \<and> length data \<le> limit \<and> (hr_broken r = None \<or> length data = limit))"

definition binary_entry :: "string \<Rightarrow> archive_entry \<Rightarrow> bool" where
  "binary_entry goos e \<longleftrightarrow> ae_regular e \<and> ae_name e = binary_name goos \<and> ae_open e = None \<and> ae_cut e = None
     \<and> length (ae_content e) \<le> binary_limit"

lemma get_body_whole: "get_body http url limit w = (Inr (data, None), w') \<Longrightarrow> whole_answer http url limit w data \<and> w' = snd (http url w)"
  by (auto simp: get_body_def whole_answer_def limited_body_def split: prod.splits sum.splits if_splits)

lemma download_whole:
  assumes "download http sg rel path w = (Inr data, w')"
  shows "whole_answer http (rl_url rel) archive_limit w data \<and> sha_hex data = rl_sha rel"
  using assms get_body_whole [of http "rl_url rel" archive_limit w]
  by (auto simp: download_def split: prod.splits sum.splits option.splits if_splits)

lemma write_binary_whole:
  assumes "write_binary sg dst e w = (None, w')"
  shows "length (ae_content e) \<le> binary_limit \<and> ae_cut e = None
    \<and> (\<exists>w1. sg_create sg dst w = (None, w1) \<and> sg_write sg dst (ae_content e) w1 = (None, w'))"
  using assms by (auto simp: write_binary_def split: prod.splits option.splits if_splits)

lemma unpack_whole:
  assumes "unpack sg goos data dst w = (None, w')"
  shows "\<exists>e w1. e \<in> set (fst (sg_entries sg goos data)) \<and> binary_entry goos e
    \<and> sg_create sg dst w = (None, w1) \<and> sg_write sg dst (ae_content e) w1 = (None, w')"
proof -
  obtain es broken where es: "sg_entries sg goos data = (es, broken)" by fastforce
  obtain e where e: "find (\<lambda>e. ae_regular e \<and> ae_name e = binary_name goos) es = Some e" "ae_open e = None"
    "write_binary sg dst e w = (None, w')"
    using assms by (auto simp: unpack_def es split: option.splits)
  show ?thesis using find_SomeD [OF e(1)] e(2) write_binary_whole [OF e(3)] by (auto simp: es binary_entry_def)
qed

text \<open>
  The worlds a failed download may end in: the answer was asked for, and at most the archive's file was created and written.
\<close>

definition download_error :: "fetch_error \<Rightarrow> bool" where
  "download_error e \<longleftrightarrow> (case e of Unpacking x \<Rightarrow> False | NoBinary \<Rightarrow> False | _ \<Rightarrow> True)"

definition archive_only :: "'w http \<Rightarrow> 'w staging \<Rightarrow> release \<Rightarrow> string \<Rightarrow> 'w \<Rightarrow> 'w \<Rightarrow> bool" where
  "archive_only http sg rel path w w' \<longleftrightarrow> (let w1 = snd (http (rl_url rel) w); w2 = snd (sg_create sg path w1) in
     w' = w1 \<or> w' = w2 \<or> (\<exists>body. w' = snd (sg_write sg path body w2)))"

lemma download_failed:
  assumes "download http sg rel path w = (r, w')"
  shows "archive_only http sg rel path w w' \<and> (\<forall>e. r = Inl e \<longrightarrow> download_error e) \<and> r \<noteq> Inl (ChecksumMismatch (rl_sha rel))"
proof -
  have body: "get_body http (rl_url rel) archive_limit w = (x, w1) \<Longrightarrow> w1 = snd (http (rl_url rel) w)" for x w1
    by (auto simp: get_body_def split: prod.splits sum.splits)
  obtain x w1 where x: "get_body http (rl_url rel) archive_limit w = (x, w1)" by (metis surj_pair)
  note w1 = body [OF x]
  show ?thesis
  proof (cases x)
    case (Inl e)
    then show ?thesis using assms x w1 by (auto simp: download_def archive_only_def download_error_def Let_def)
  next
    case (Inr b)
    obtain data broken where b: "b = (data, broken)" by (metis surj_pair)
    obtain c w2 where c: "sg_create sg path w1 = (c, w2)" by (metis surj_pair)
    obtain d w3 where d: "sg_write sg path data w2 = (d, w3)" by (metis surj_pair)
    have "w2 = snd (sg_create sg path w1)" "w3 = snd (sg_write sg path data w2)" using c d by simp_all
    then have ar: "archive_only http sg rel path w w1" "archive_only http sg rel path w w2" "archive_only http sg rel path w w3"
      unfolding archive_only_def Let_def w1 by blast+
    show ?thesis using assms x [unfolded Inr b] c d ar
      by (auto simp: download_def download_error_def split: option.splits if_splits)
  qed
qed

lemma unpack_failed: "unpack sg goos data dst w = (Some e, w') \<Longrightarrow> \<not> download_error e"
  by (auto simp: unpack_def write_binary_def download_error_def split: prod.splits option.splits if_splits)

text \<open>
  C22: a fetched binary is verified. It was unpacked from exactly the bytes of a complete answer (status 200, within the
  limit, not cut short) to the release's URL, and those bytes have the SHA-256 the release lists; the binary
  holds the whole content of the archive's regular file of that name, within its limit; and the archive itself
  is removed. A download that fails, because there is no good answer, the file cannot be written, the answer is cut short or it has another checksum,
  ends with the archive's removal and has created and written no other file: there is no binary. When the unpacking
  fails, the download was verified, and what was unpacked and the archive are both removed.
\<close>

theorem fetch_verified:
  fixes http :: "'w http"
  assumes "fetch http sg rel dir goos w = (res, w')"
  shows "case res of
      Inr bin \<Rightarrow> bin = sg_join sg dir (binary_name goos) \<and> (\<exists>data e w1 w2 w3.
        whole_answer http (rl_url rel) archive_limit w data \<and> sha_hex data = rl_sha rel
        \<and> download http sg rel (sg_join sg dir (rl_asset rel)) w = (Inr data, w1)
        \<and> e \<in> set (fst (sg_entries sg goos data)) \<and> binary_entry goos e
        \<and> sg_create sg bin w1 = (None, w2) \<and> sg_write sg bin (ae_content e) w2 = (None, w3)
        \<and> w' = sg_remove sg (sg_join sg dir (rl_asset rel)) w3)
    | Inl e \<Rightarrow> e \<noteq> ChecksumMismatch (rl_sha rel)
        \<and> (if download_error e
           then (\<exists>w1. archive_only http sg rel (sg_join sg dir (rl_asset rel)) w w1 \<and> w' = sg_remove sg (sg_join sg dir (rl_asset rel)) w1)
           else (\<exists>data w1. whole_answer http (rl_url rel) archive_limit w data \<and> sha_hex data = rl_sha rel
             \<and> w' = sg_remove sg (sg_join sg dir (rl_asset rel)) (sg_remove sg (sg_join sg dir (binary_name goos)) w1)))"
proof -
  let ?ar = "sg_join sg dir (rl_asset rel)" and ?bin = "sg_join sg dir (binary_name goos)"
  obtain d w1 where d: "download http sg rel ?ar w = (d, w1)" by fastforce
  note failed = download_failed [OF d]
  show ?thesis
  proof (cases d)
    case (Inl e)
    then show ?thesis using assms d failed by (auto simp: fetch_def)
  next
    case (Inr data)
    obtain u w2 where u: "unpack sg goos data ?bin w1 = (u, w2)" by fastforce
    note whole = download_whole [OF d [unfolded Inr]]
    show ?thesis
    proof (cases u)
      case None
      then show ?thesis
        using assms d u unpack_whole [of sg goos data ?bin w1 w2] whole
        by (fastforce simp: fetch_def Inr)
    next
      case (Some e)
      have "\<not> download_error e" using unpack_failed [OF u [unfolded Some]] .
      moreover from this have "e \<noteq> ChecksumMismatch h" for h by (auto simp: download_error_def)
      moreover have "res = Inl e" "w' = sg_remove sg ?ar (sg_remove sg ?bin w2)" using assms d u Some by (simp_all add: fetch_def Inr)
      ultimately show ?thesis using whole by auto
    qed
  qed
qed

section \<open>A release of its own\<close>

definition example_version :: version where
  "example_version = \<lparr>v_major = 1, v_minor = 2, v_patch = 3, v_pre = []\<rparr>"

definition example_listing :: "string \<Rightarrow> string" where
  "example_listing sha = sha @ ''  omnistat_1.2.3_linux_amd64.tar.gz'' @ [nl]"

definition example_reply :: "string \<Rightarrow> http_reply" where
  "example_reply body = \<lparr>hr_status = 200, hr_text = ''200 OK'', hr_length = int (length body), hr_body = body, hr_broken = None\<rparr>"

text \<open>A site that lists one archive, which holds \<open>x\<close>, with its checksum.\<close>

definition example_sha :: string where
  "example_sha = sha_hex ''x''"

definition example_site :: "'w http" where
  "example_site url w = (Inr (example_reply (if url = ''https://h/latest/download/checksums.txt'' then example_listing example_sha else ''x'')), w)"

definition example_release :: release where
  "example_release = found_release ''https://h'' ''https://h/latest/download/checksums.txt''
     (''omnistat_1.2.3_linux_amd64.tar.gz'', example_sha) example_version"

lemma example_sha_hex: "length example_sha = 64" "list_all is_hex example_sha"
  using sha256_bytes by (simp_all add: example_sha_def sha_hex_def length_hex_encode length_sha256 hex_encode_hex)

lemma is_hex_chars:
  assumes "is_hex c"
  shows "word_char c \<and> hex_char c \<and> lower_byte c = c \<and> c \<noteq> nl"
proof -
  have "byte c < 128 \<and> \<not> is_space (byte c) \<and> \<not> (65 \<le> byte c \<and> byte c \<le> 90) \<and> byte c \<noteq> 10"
    using assms by (auto simp: is_hex_def is_digit_def byte_def is_space_def)
  moreover have "byte nl = 10" by (simp add: byte_def)
  ultimately show ?thesis using assms by (auto simp: word_char_def hex_char_def lower_byte_def lower_hex_def is_hex_def)
qed

lemma example_asset: "asset_version ''linux'' ''amd64'' None ''omnistat_1.2.3_linux_amd64.tar.gz'' = Some example_version"
proof -
  have n: "asset_name example_version ''linux'' ''amd64'' = ''omnistat_1.2.3_linux_amd64.tar.gz''" by code_simp
  have "version_ok example_version" by code_simp
  then show ?thesis using asset_version_of [of example_version None "''linux''" "''amd64''"] by (simp add: n)
qed

text \<open>A file that lists one archive is read as that list.\<close>

lemma parse_listing:
  assumes "length sha = 64" "list_all is_hex sha"
  shows "fst (scan_lines (example_listing sha)) = [sha @ ''  omnistat_1.2.3_linux_amd64.tar.gz''] \<and> \<not> snd (scan_lines (example_listing sha))
    \<and> parse_sums 1 [sha @ ''  omnistat_1.2.3_linux_amd64.tar.gz''] [] = Inr [(''omnistat_1.2.3_linux_amd64.tar.gz'', sha)]"
proof -
  let ?line = "sha @ ''  omnistat_1.2.3_linux_amd64.tar.gz''"
  have blank: "byte (CHR '' '') < 128 \<and> is_space (byte (CHR '' ''))" by (simp add: byte_def is_space_def)
  have word: "list_all word_char ''omnistat_1.2.3_linux_amd64.tar.gz''" by (simp add: word_char_def byte_def is_space_def)
  have all: "list_all word_char sha" "list_all hex_char sha" "map lower_byte sha = sha" "nl \<notin> set sha"
    using assms(2) is_hex_chars by (auto simp: list_all_iff intro: map_idI)
  have sne: "sha \<noteq> []" using assms(1) by auto
  have first: "word_char (hd ?line)" "word_char (last ?line)"
    using all(1) sne word by (simp_all add: list_all_iff)
  have trim: "trim_space ?line = ?line"
    using first by (intro trim_space_ascii) (simp_all add: word_char_def)
  have split: "split_at nl (example_listing sha) = [?line, []]"
    using split_at_first [of nl ?line "[]"] all(4) by (simp add: example_listing_def)
  have cr: "drop_cr ?line = ?line" by (simp add: drop_cr_def)
  have scan: "scan_lines (example_listing sha) = ([?line], False)"
    using assms(1) by (simp add: scan_lines_def scan_upto_def split scan_limit_def cr)
  have fields: "go_fields ?line = [sha, ''omnistat_1.2.3_linux_amd64.tar.gz'']"
    using go_fields_word [OF sne all(1), of "''  omnistat_1.2.3_linux_amd64.tar.gz''" 0]
      go_fields_word [of "''omnistat_1.2.3_linux_amd64.tar.gz''" "[]" 2] word blank by (simp add: numeral_2_eq_2)
  have "parse_sums 1 [?line] [] = Inr [(''omnistat_1.2.3_linux_amd64.tar.gz'', sha)]"
    using all assms(1) by (simp add: trim fields trim_prefix_def gm_put_def gm_has_def gm_get_def Let_def)
  then show ?thesis by (simp add: scan)
qed

lemma example_resolved: "resolve_release example_site ''https://h'' [] ''linux'' ''amd64'' w = (Inr example_release, w)"
proof -
  let ?url = "''https://h/latest/download/checksums.txt''"
  obtain ls long where scan: "scan_lines (example_listing example_sha) = (ls, long)" by fastforce
  note p = parse_listing [OF example_sha_hex, unfolded scan fst_conv snd_conv]
  have "length (example_listing example_sha) = 100" by (simp add: example_listing_def example_sha_hex)
  then have body: "get_body example_site ?url checksums_limit w = (Inr (example_listing example_sha, None), w)"
    by (simp add: get_body_def example_site_def example_reply_def limited_body_def checksums_limit_def)
  have "fetch_checksums example_site ?url w = (Inr [(''omnistat_1.2.3_linux_amd64.tar.gz'', example_sha)], w)"
    using p by (simp only: fetch_checksums_def body scan prod.case sum.case option.case if_False)
  then show ?thesis
    by (simp add: resolve_release_def resolve_pinned_def found_releases_def example_asset example_release_def sums_url_for_def)
qed

theorem release_listed_witness:
  "\<exists>sums. fetch_checksums example_site (sums_url_for ''https://h'' (pinned_version [])) () = (Inr sums, ())
    \<and> gm_get sums (rl_asset example_release) = Some (rl_sha example_release)"
  by (rule exE [OF release_listed [OF example_resolved [of "()"], THEN conjunct2, THEN conjunct1]]) (elim conjE, intro exI conjI, assumption+)

definition example_archive :: "string staging" where
  "example_archive = \<lparr>sg_join = (\<lambda>d n. d @ ''/'' @ n), sg_create = (\<lambda>p w. (None, w)), sg_write = (\<lambda>p d w. (None, w @ d)), sg_remove = (\<lambda>p w. w),
     sg_entries = (\<lambda>g d. ([\<lparr>ae_name = ''omnistat'', ae_regular = True, ae_open = None, ae_content = d, ae_cut = None\<rparr>], None))\<rparr>"

lemma example_download: "get_body example_site (rl_url example_release) archive_limit w = (Inr (''x'', None), w)"
  "sha_hex ''x'' = rl_sha example_release"
proof -
  have "rl_url example_release \<noteq> ''https://h/latest/download/checksums.txt''" by (simp add: example_release_def found_release_def)
  then show "get_body example_site (rl_url example_release) archive_limit w = (Inr (''x'', None), w)"
    by (simp add: get_body_def limited_body_def example_site_def example_reply_def archive_limit_def)
  show "sha_hex ''x'' = rl_sha example_release" by (simp add: example_release_def found_release_def example_sha_def)
qed

lemma example_fetched: "fetch example_site example_archive example_release ''/d'' ''linux'' [] = (Inr ''/d/omnistat'', ''xx'')"
  by (simp add: example_download fetch_def download_def unpack_def write_binary_def example_archive_def binary_limit_def binary_name_def)

theorem fetch_verified_witness:
  "''/d/omnistat'' = sg_join example_archive ''/d'' (binary_name ''linux'')
    \<and> (\<exists>data. whole_answer example_site (rl_url example_release) archive_limit ([] :: string) data \<and> sha_hex data = rl_sha example_release)"
  using fetch_verified [OF example_fetched] by (simp only: sum.case) blast

end
