(* ===== verification/Service.thy ===== *)
theory Service
  imports Config
begin

text \<open>
  \<open>internal/service\<close>: what installing and uninstalling the service share on every platform: the plan
  whose steps the dry run prints and the real run applies, the settings stored for the service with the
  prompts that complete them, and the watch after the start. The terminal, the clock and the steps'
  effects are parameters over a world \<open>'w\<close>.
\<close>

section \<open>The plan\<close>

text \<open>A step's effect is None when it never returns, else an error or a note.\<close>

record 'w step =
  sp_desc :: string
  sp_detail :: string
  sp_apply :: "'w \<Rightarrow> ((string + string) \<times> 'w) option"

record checked =
  ck_identity :: string
  ck_source :: string
  ck_entity :: string
  ck_would_create :: bool
  ck_schema_pending :: bool

record 'w splan =
  pn_steps :: "'w step list"
  pn_keep :: "string list"
  pn_not_installed :: bool
  pn_upgrade :: bool
  pn_binary :: string
  pn_config :: string
  pn_unit :: string
  pn_config_present :: bool
  pn_log_hint :: string
  pn_stored :: "string list"
  pn_checked :: checked

definition nothing_checked :: checked where
  "nothing_checked = \<lparr>ck_identity = [], ck_source = [], ck_entity = [], ck_would_create = False, ck_schema_pending = False\<rparr>"

definition new_plan :: "'w splan" where
  "new_plan = \<lparr>pn_steps = [], pn_keep = [], pn_not_installed = False, pn_upgrade = False, pn_binary = [], pn_config = [],
     pn_unit = [], pn_config_present = False, pn_log_hint = [], pn_stored = [], pn_checked = nothing_checked\<rparr>"

definition add_detailed :: "string \<Rightarrow> string \<Rightarrow> ('w \<Rightarrow> ((string + string) \<times> 'w) option) \<Rightarrow> 'w splan \<Rightarrow> 'w splan" where
  "add_detailed desc detail act p = p\<lparr>pn_steps := pn_steps p @ [\<lparr>sp_desc = desc, sp_detail = detail, sp_apply = act\<rparr>]\<rparr>"

definition add_step :: "string \<Rightarrow> ('w \<Rightarrow> ((string + string) \<times> 'w) option) \<Rightarrow> 'w splan \<Rightarrow> 'w splan" where
  "add_step desc act p = add_detailed desc [] act p"

definition note_if :: "bool \<Rightarrow> string \<Rightarrow> string" where
  "note_if c note = (if c then note else [])"

text \<open>The lines of the dry run, and of the real run with its outcome and the world it leaves.\<close>

definition trim_newlines :: "string \<Rightarrow> string" where
  "trim_newlines s = rev (dropWhile (\<lambda>c. c = CHR 0x0A) (rev s))"

definition describe_step :: "'w step \<Rightarrow> string list" where
  "describe_step s = (''  would '' @ sp_desc s) # (if sp_detail s \<noteq> []
     then map (\<lambda>l. ''      '' @ l) (split_at (CHR 0x0A) (trim_newlines (sp_detail s))) else [])"

definition describe_plan :: "'w splan \<Rightarrow> string list" where
  "describe_plan p = concat (map describe_step (pn_steps p)) @ map (\<lambda>k. ''  would keep '' @ k) (pn_keep p)"

fun apply_steps :: "'w step list \<Rightarrow> 'w \<Rightarrow> ((string \<times> string) option \<times> string list \<times> 'w) option" where
  "apply_steps [] w = Some (None, [], w)"
| "apply_steps (s # ss) w = (case sp_apply s w of
       None \<Rightarrow> None
     | Some (Inl e, w1) \<Rightarrow> Some (Some (sp_desc s, e), [], w1)
     | Some (Inr note, w1) \<Rightarrow> (case apply_steps ss w1 of
         None \<Rightarrow> None
       | Some (r, ls, w2) \<Rightarrow> Some (r, [''  done: '' @ sp_desc s] @ (if note \<noteq> [] then [''        '' @ note] else []) @ ls, w2)))"

definition apply_plan :: "'w splan \<Rightarrow> 'w \<Rightarrow> ((string \<times> string) option \<times> string list \<times> 'w) option" where
  "apply_plan p w = (case apply_steps (pn_steps p) w of
       None \<Rightarrow> None
     | Some (Some e, ls, w1) \<Rightarrow> Some (Some e, ls, w1)
     | Some (None, ls, w1) \<Rightarrow> Some (None, ls @ map (\<lambda>k. ''  kept '' @ k) (pn_keep p), w1))"

section \<open>The settings\<close>

datatype prompt_error = NotInteractive | PromptFailed string

record 'w prompter =
  pm_secret :: "string \<Rightarrow> 'w \<Rightarrow> (prompt_error + string) \<times> 'w"
  pm_line :: "string \<Rightarrow> 'w \<Rightarrow> (prompt_error + string) \<times> 'w"

definition captured :: "string list" where
  "captured = [env_token, env_project_id, env_base_url, env_identity, ''HTTPS_PROXY'', ''HTTP_PROXY'', ''NO_PROXY'']"

record settings_options =
  sx_stored :: "(string, string) gomap"
  sx_getenv :: "string \<Rightarrow> string"
  sx_names :: "string list"
  sx_replace :: bool
  sx_config :: string

datatype settings_error = NoToken | TokenPrompt string | ProjectPrompt string

definition capture_env :: "(string \<Rightarrow> string) \<Rightarrow> (string, string) gomap \<Rightarrow> string list \<Rightarrow> (string, string) gomap" where
  "capture_env getenv env ks = foldl (\<lambda>m k. let v = trim_space (getenv k) in if v \<noteq> [] then gm_put k v m else m) env ks"

text \<open>\<open>cfg\<close> is \<open>LoadWithDefault\<close> of the service's config file, given its environment.\<close>

definition ask_project :: "(string \<Rightarrow> (string \<Rightarrow> string) \<Rightarrow> config_error + config_settings) \<Rightarrow> 'w prompter \<Rightarrow> settings_options
    \<Rightarrow> (string, string) gomap \<Rightarrow> 'w \<Rightarrow> (settings_error + (string, string) gomap) \<times> 'w" where
  "ask_project cfg pm so env w = (
     if gm_getd [] env env_project_id \<noteq> [] then (Inr env, w)
     else (case cfg (sx_config so) (\<lambda>k. gm_getd [] env k) of
         Inl _ \<Rightarrow> (Inr env, w)
       | Inr s \<Rightarrow> if cs_project s \<noteq> [] then (Inr env, w)
           else (case pm_line pm ''Omnismith project id: '' w of
               (Inl NotInteractive, w1) \<Rightarrow> (Inr env, w1)
             | (Inl (PromptFailed e), w1) \<Rightarrow> (Inl (ProjectPrompt e), w1)
             | (Inr v, w1) \<Rightarrow> (Inr (if trim_space v \<noteq> [] then gm_put env_project_id (trim_space v) env else env), w1))))"

definition resolve_settings :: "(string \<Rightarrow> (string \<Rightarrow> string) \<Rightarrow> config_error + config_settings) \<Rightarrow> 'w prompter \<Rightarrow> settings_options
    \<Rightarrow> 'w \<Rightarrow> (settings_error + (string, string) gomap) \<times> 'w" where
  "resolve_settings cfg pm so w = (case ask_project cfg pm so (capture_env (sx_getenv so) (sx_stored so) (sx_names so)) w of
       (Inl e, w1) \<Rightarrow> (Inl e, w1)
     | (Inr env, w1) \<Rightarrow>
         if trim_space (sx_getenv so env_token) = [] \<and> (sx_replace so \<or> gm_getd [] env env_token = [])
         then (case pm_secret pm ''Omnismith access token (input hidden): '' w1 of
             (Inl NotInteractive, w2) \<Rightarrow> (Inl NoToken, w2)
           | (Inl (PromptFailed e), w2) \<Rightarrow> (Inl (TokenPrompt e), w2)
           | (Inr v, w2) \<Rightarrow> if trim_space v = [] then (Inl NoToken, w2) else (Inr (gm_put env_token (trim_space v) env), w2))
         else (Inr env, w1))"

lemma capture_env_get: "gm_get (capture_env getenv env ks) k
    = (if k \<in> set ks \<and> trim_space (getenv k) \<noteq> [] then Some (trim_space (getenv k)) else gm_get env k)"
  unfolding capture_env_def by (induction ks arbitrary: env) (auto simp: Let_def)

lemma capture_env_ok: "gm_ok env \<Longrightarrow> gm_ok (capture_env getenv env ks)"
  unfolding capture_env_def by (induction ks arbitrary: env) (auto simp: Let_def)

lemma ask_project_ok:
  assumes "ask_project cfg pm so env w = (Inr env', w')"
  shows "(gm_ok env \<longrightarrow> gm_ok env') \<and> (\<forall>k. k \<noteq> env_project_id \<longrightarrow> gm_get env' k = gm_get env k)
    \<and> (gm_getd [] env env_project_id \<noteq> [] \<longrightarrow> env' = env)"
  using assms by (auto simp: ask_project_def split: if_splits sum.splits prod.splits prompt_error.splits)

lemma names_differ: "env_project_id \<noteq> env_token"
  by (simp add: env_project_id_def env_token_def)

lemma settings_facts:
  assumes "resolve_settings cfg pm so w = (Inr env, w')" "env_token \<in> set (sx_names so)"
  shows "gm_getd [] env env_token \<noteq> []
    \<and> (\<forall>k \<in> set (sx_names so). trim_space (sx_getenv so k) \<noteq> [] \<longrightarrow> gm_get env k = Some (trim_space (sx_getenv so k)))
    \<and> (\<forall>k. k \<notin> {env_token, env_project_id} \<longrightarrow> k \<notin> set (sx_names so) \<or> trim_space (sx_getenv so k) = [] \<longrightarrow> gm_get env k = gm_get (sx_stored so) k)
    \<and> (gm_ok (sx_stored so) \<longrightarrow> gm_ok env)"
proof -
  let ?env0 = "capture_env (sx_getenv so) (sx_stored so) (sx_names so)"
  obtain r w1 where ask: "ask_project cfg pm so ?env0 w = (r, w1)" by (metis surj_pair)
  from assms(1) obtain env1 where r: "r = Inr env1" by (cases r) (simp_all add: resolve_settings_def ask)
  note a = ask_project_ok [OF ask [unfolded r]]
  let ?t = "trim_space (sx_getenv so env_token)"
  have env: "?t = [] \<and> (\<exists>v. v \<noteq> [] \<and> env = gm_put env_token v env1) \<or> env = env1 \<and> (?t \<noteq> [] \<or> gm_getd [] env1 env_token \<noteq> [])"
    using assms(1) by (auto simp: resolve_settings_def ask r split: if_splits sum.splits prod.splits prompt_error.splits)
  have proj: "gm_get env1 env_project_id = gm_get ?env0 env_project_id" if "gm_getd [] ?env0 env_project_id \<noteq> []" using a that by simp
  have set_in: "gm_get env1 k = Some (trim_space (sx_getenv so k))" if "k \<in> set (sx_names so)" "trim_space (sx_getenv so k) \<noteq> []" for k
  proof (cases "k = env_project_id")
    case True
    have "gm_getd [] ?env0 env_project_id \<noteq> []" using that True by (simp add: gm_getd_def capture_env_get)
    then show ?thesis using proj that True by (simp add: capture_env_get)
  next
    case False
    then show ?thesis using a that by (simp add: capture_env_get)
  qed
  have tok: "gm_getd [] env env_token \<noteq> []"
    using env set_in [OF assms(2)] by (auto simp: gm_getd_def)
  have keep: "gm_get env k = gm_get env1 k" if "k \<noteq> env_token \<or> ?t \<noteq> []" for k using env that by auto
  have ok: "gm_ok (sx_stored so) \<longrightarrow> gm_ok env" using env a capture_env_ok by auto
  show ?thesis
  proof (intro conjI ballI allI impI)
    fix k assume "k \<in> set (sx_names so)" "trim_space (sx_getenv so k) \<noteq> []"
    then show "gm_get env k = Some (trim_space (sx_getenv so k))" using set_in keep [of k] by auto
  next
    fix k assume k: "k \<notin> {env_token, env_project_id}" "k \<notin> set (sx_names so) \<or> trim_space (sx_getenv so k) = []"
    then have "gm_get env k = gm_get ?env0 k" using keep [of k] a by simp
    then show "gm_get env k = gm_get (sx_stored so) k" using k(2) by (auto simp: capture_env_get)
  qed (use tok ok in simp_all)
qed

text \<open>
  C28: the settings stored for the service are the installer's. When they resolve there is an access token; every
  captured variable that is set in the installer's environment has its value without surrounding space;
  and apart from the token and the project id, which may be asked for, a variable that is not set keeps
  what was stored and nothing else appears.\<close>

theorem settings_resolved:
  assumes "resolve_settings cfg pm so w = (Inr env, w')" "env_token \<in> set (sx_names so)"
  shows "gm_getd [] env env_token \<noteq> []
    \<and> (\<forall>k \<in> set (sx_names so). trim_space (sx_getenv so k) \<noteq> [] \<longrightarrow> gm_get env k = Some (trim_space (sx_getenv so k)))
    \<and> (\<forall>k. k \<notin> {env_token, env_project_id} \<longrightarrow> k \<notin> set (sx_names so) \<or> trim_space (sx_getenv so k) = [] \<longrightarrow> gm_get env k = gm_get (sx_stored so) k)
    \<and> (gm_ok (sx_stored so) \<longrightarrow> gm_ok env)"
  by (rule settings_facts [OF assms])

section \<open>The watch\<close>

record 'w watcher =
  wt_now :: "'w \<Rightarrow> int"
  wt_check :: "'w \<Rightarrow> (string + string) \<times> 'w"
  wt_wait :: "int \<Rightarrow> 'w \<Rightarrow> bool \<times> 'w"

definition default_poll :: int where
  "default_poll = 250000000"

partial_function (option) watch_loop :: "'w watcher \<Rightarrow> int \<Rightarrow> int \<Rightarrow> 'w \<Rightarrow> ((string + string) \<times> 'w) option" where
  "watch_loop wt poll deadline w = (case wt_check wt w of
       (Inl e, w1) \<Rightarrow> Some (Inl e, w1)
     | (Inr state, w1) \<Rightarrow> if deadline \<le> wt_now wt w1 then Some (Inr (''service is '' @ state), w1)
         else (case wt_wait wt poll w1 of
             (waited, w2) \<Rightarrow> if \<not> waited then Some (Inl ''context canceled'', w2) else watch_loop wt poll deadline w2))"

definition watch :: "'w watcher \<Rightarrow> int \<Rightarrow> int \<Rightarrow> 'w \<Rightarrow> ((string + string) \<times> 'w) option" where
  "watch wt settle poll w = watch_loop wt (if poll \<le> 0 then default_poll else poll) (wt_now wt w + settle) w"

text \<open>A clock that no check sets back and that a wait moves on by at least its length.\<close>

definition steady :: "'w watcher \<Rightarrow> bool" where
  "steady wt \<longleftrightarrow> (\<forall>w. wt_now wt w \<le> wt_now wt (snd (wt_check wt w))) \<and> (\<forall>d w. fst (wt_wait wt d w) \<longrightarrow> wt_now wt w + d \<le> wt_now wt (snd (wt_wait wt d w)))"

lemma watch_loop_returns:
  assumes "steady wt" "0 < poll"
  shows "\<exists>r w'. watch_loop wt poll deadline w = Some (r, w')
    \<and> (\<forall>s. r = Inr s \<longrightarrow> deadline \<le> wt_now wt w' \<and> (\<exists>w0 state. wt_check wt w0 = (Inr state, w') \<and> s = ''service is '' @ state))"
proof (induction "nat (deadline - wt_now wt w)" arbitrary: w rule: less_induct)
  case less
  obtain c w1 where c: "wt_check wt w = (c, w1)" by (metis surj_pair)
  have w1: "wt_now wt w \<le> wt_now wt w1" using assms(1) c by (metis snd_conv steady_def)
  show ?case
  proof (cases "c = Inr (projr c) \<and> wt_now wt w1 < deadline \<and> fst (wt_wait wt poll w1)")
    case True
    obtain w2 where w2: "wt_wait wt poll w1 = (True, w2)" using True by (metis prod.collapse)
    have "wt_now wt w1 + poll \<le> wt_now wt w2" using assms(1) w2 by (metis fst_conv snd_conv steady_def)
    then have "nat (deadline - wt_now wt w2) < nat (deadline - wt_now wt w)" using w1 assms(2) True by simp
    from less.hyps [OF this] show ?thesis
      using True c w2 by (subst watch_loop.simps) (cases c; simp)
  next
    case False
    then show ?thesis using c by (subst watch_loop.simps) (cases "wt_wait wt poll w1"; cases c; auto)
  qed
qed

text \<open>
  The watch after the start ends. On a steady clock it returns, whatever the state of the service: with the
  error of a failed check, with the cancellation, or, no earlier than the settling time after it began,
  with the state that the last check saw.\<close>

lemma watch_ends:
  assumes "steady wt"
  shows "\<exists>r w'. watch wt settle poll w = Some (r, w')
    \<and> (\<forall>s. r = Inr s \<longrightarrow> wt_now wt w + settle \<le> wt_now wt w' \<and> (\<exists>w0 state. wt_check wt w0 = (Inr state, w') \<and> s = ''service is '' @ state))"
  unfolding watch_def by (rule watch_loop_returns [OF assms]) (simp add: default_poll_def)

section \<open>At a concrete input\<close>

definition example_watcher :: "int watcher" where
  "example_watcher = \<lparr>wt_now = (\<lambda>w. w), wt_check = (\<lambda>w. (Inr ''active'', w)), wt_wait = (\<lambda>d w. (True, w + d))\<rparr>"

lemma watch_ends_witness: "\<exists>r w'. watch example_watcher 5000000000 0 0 = Some (r, w')"
proof -
  have "steady example_watcher" by (simp add: steady_def example_watcher_def)
  from watch_ends [OF this] show ?thesis by blast
qed

definition example_prompter :: "unit prompter" where
  "example_prompter = \<lparr>pm_secret = (\<lambda>p w. (Inl NotInteractive, w)), pm_line = (\<lambda>p w. (Inl NotInteractive, w))\<rparr>"

definition example_settings_options :: settings_options where
  "example_settings_options = \<lparr>sx_stored = [(env_token, ''t'')], sx_getenv = (\<lambda>k. []), sx_names = captured, sx_replace = False, sx_config = []\<rparr>"

theorem settings_resolved_witness: "gm_getd [] [(env_token, ''t'')] env_token \<noteq> []"
proof -
  have "resolve_settings (\<lambda>p g. Inl (Unreadable p)) example_prompter example_settings_options () = (Inr [(env_token, ''t'')], ())"
    by (simp add: resolve_settings_def ask_project_def example_settings_options_def capture_env_def captured_def gm_getd_def gm_get_def names_differ)
  from settings_resolved [OF this] show ?thesis by (simp add: example_settings_options_def captured_def)
qed

end
