(* ===== verification/Recording.thy ===== *)
theory Recording
  imports Service "HOL-Library.Sublist"
begin

text \<open>
  What the platforms' plans share: the options of an installation and what an upgrade learns of one; deciding as
  a sequence of readings that the first error ends; and the calls of a host kept in the order they were
  made, so that lemmas can say that deciding only reads and which changes applying makes.
\<close>

section \<open>Options and installations\<close>

record 'w install_options =
  io_getenv :: "string \<Rightarrow> string"
  io_replace :: bool
  io_precheck :: "((string \<Rightarrow> string) \<Rightarrow> string \<Rightarrow> 'w \<Rightarrow> (string + checked) \<times> 'w) option"
  io_settle :: int
  io_poll :: int

record svc_installation =
  in_exists :: bool
  in_binary :: string
  in_settings :: "(string, string) gomap"

section \<open>Deciding\<close>

text \<open>A step of deciding: an error ends it.\<close>

definition andthen :: "('w \<Rightarrow> ('e + 'a) \<times> 'w) \<Rightarrow> ('a \<Rightarrow> 'w \<Rightarrow> ('e + 'b) \<times> 'w) \<Rightarrow> 'w \<Rightarrow> ('e + 'b) \<times> 'w" where
  "andthen f g w = (case f w of (Inl e, w1) \<Rightarrow> (Inl e, w1) | (Inr x, w1) \<Rightarrow> g x w1)"

definition give :: "'e + 'a \<Rightarrow> 'w \<Rightarrow> ('e + 'a) \<times> 'w" where
  "give r w = (r, w)"

definition failing :: "('x \<Rightarrow> 'e) \<Rightarrow> ('w \<Rightarrow> ('x + 'a) \<times> 'w) \<Rightarrow> 'w \<Rightarrow> ('e + 'a) \<times> 'w" where
  "failing c f w = (case f w of (Inl x, w1) \<Rightarrow> (Inl (c x), w1) | (Inr a, w1) \<Rightarrow> (Inr a, w1))"

definition asking :: "'e \<Rightarrow> ('w \<Rightarrow> bool \<times> 'w) \<Rightarrow> 'w \<Rightarrow> ('e + unit) \<times> 'w" where
  "asking e f w = (case f w of (b, w1) \<Rightarrow> (if b then Inr () else Inl e, w1))"

definition attempt :: "('w \<Rightarrow> 'a \<times> 'w) \<Rightarrow> 'w \<Rightarrow> ('e + 'a) \<times> 'w" where
  "attempt f w = (case f w of (r, w1) \<Rightarrow> (Inr r, w1))"

text \<open>The effect of an operation that answers with an error or nothing.\<close>

definition did :: "('w \<Rightarrow> string option \<times> 'w) \<Rightarrow> 'w \<Rightarrow> ((string + string) \<times> 'w) option" where
  "did f w = (case f w of (None, w1) \<Rightarrow> Some (Inr [], w1) | (Some e, w1) \<Rightarrow> Some (Inl e, w1))"

section \<open>Recorded calls\<close>

text \<open>A world together with the calls made so far; \<open>chg\<close> tells which of them change the host.\<close>

type_synonym ('w, 'c) noted = "'w \<times> 'c list"

definition noting :: "'c \<Rightarrow> ('w \<Rightarrow> 'r \<times> 'w) \<Rightarrow> ('w, 'c) noted \<Rightarrow> 'r \<times> ('w, 'c) noted" where
  "noting c f st = (case f (fst st) of (r, w) \<Rightarrow> (r, (w, snd st @ [c])))"

definition reads_by :: "('c \<Rightarrow> bool) \<Rightarrow> (('w, 'c) noted \<Rightarrow> 'r \<times> ('w, 'c) noted) \<Rightarrow> bool" where
  "reads_by chg f \<longleftrightarrow> (\<forall>st. \<exists>cs. snd (snd (f st)) = snd st @ cs \<and> filter chg cs = [])"

named_theorems reading "operations that change nothing on the host"

lemma reads_noting [reading]: "\<not> chg c \<Longrightarrow> reads_by chg (noting c f)"
  by (auto simp: reads_by_def noting_def split: prod.splits)

lemma reads_give [reading]: "reads_by chg (give r)"
  by (simp add: reads_by_def give_def)

lemma reads_run:
  assumes "reads_by chg f" "f st = (r, st')"
  shows "\<exists>cs. snd st' = snd st @ cs \<and> filter chg cs = []"
  using assms by (metis reads_by_def snd_conv)

lemma readsI: "(\<And>st r st'. f st = (r, st') \<Longrightarrow> \<exists>cs. snd st' = snd st @ cs \<and> filter chg cs = []) \<Longrightarrow> reads_by chg f"
  unfolding reads_by_def by (metis prod.collapse)

lemma reads_failing [reading]:
  assumes "reads_by chg f"
  shows "reads_by chg (failing c f)"
proof (rule readsI)
  fix st r st' assume "failing c f st = (r, st')"
  then obtain x where "f st = (x, st')" by (auto simp: failing_def split: prod.splits sum.splits)
  from reads_run [OF assms this] show "\<exists>cs. snd st' = snd st @ cs \<and> filter chg cs = []" .
qed

lemma reads_asking [reading]:
  assumes "reads_by chg f"
  shows "reads_by chg (asking e f)"
proof (rule readsI)
  fix st r st' assume "asking e f st = (r, st')"
  then obtain x where "f st = (x, st')" by (auto simp: asking_def split: prod.splits)
  from reads_run [OF assms this] show "\<exists>cs. snd st' = snd st @ cs \<and> filter chg cs = []" .
qed

lemma reads_attempt [reading]:
  assumes "reads_by chg f"
  shows "reads_by chg (attempt f)"
proof (rule readsI)
  fix st r st' assume "attempt f st = (r, st')"
  then obtain x where "f st = (x, st')" by (auto simp: attempt_def split: prod.splits)
  from reads_run [OF assms this] show "\<exists>cs. snd st' = snd st @ cs \<and> filter chg cs = []" .
qed

lemma reads_andthen [reading]:
  assumes "reads_by chg f" "\<And>x. reads_by chg (g x)"
  shows "reads_by chg (andthen f g)"
proof (rule readsI)
  fix st r st' assume run: "andthen f g st = (r, st')"
  obtain a st1 where f: "f st = (a, st1)" by (metis surj_pair)
  obtain cs where cs: "snd st1 = snd st @ cs" "filter chg cs = []" using reads_run [OF assms(1) f] by blast
  show "\<exists>cs. snd st' = snd st @ cs \<and> filter chg cs = []"
  proof (cases a)
    case (Inl e)
    then show ?thesis using run f cs by (auto simp: andthen_def)
  next
    case (Inr x)
    then have "g x st1 = (r, st')" using run f by (simp add: andthen_def)
    from reads_run [OF assms(2) this] cs show ?thesis by fastforce
  qed
qed

lemma reads_split [reading]: "(b \<Longrightarrow> reads_by chg f) \<Longrightarrow> (\<not> b \<Longrightarrow> reads_by chg g) \<Longrightarrow> reads_by chg (if b then f else g)"
  by simp

lemma reads_pair [reading]: "(\<And>a b. reads_by chg (f a b)) \<Longrightarrow> reads_by chg (case x of (a, b) \<Rightarrow> f a b)"
  by (cases x) simp

lemma reads_settings [reading]:
  assumes "\<And>s. reads_by chg (pm_line pm s)" "\<And>s. reads_by chg (pm_secret pm s)"
  shows "reads_by chg (resolve_settings cfg pm so)"
proof (rule readsI)
  fix st r st' assume run: "resolve_settings cfg pm so st = (r, st')"
  let ?env = "capture_env (sx_getenv so) (sx_stored so) (sx_names so)"
  obtain a st1 where ask: "ask_project cfg pm so ?env st = (a, st1)" by (metis surj_pair)
  have "st1 = st \<or> (\<exists>s v. pm_line pm s st = (v, st1))"
    using ask by (auto simp: ask_project_def split: if_splits sum.splits prod.splits prompt_error.splits)
  then obtain cs where cs: "snd st1 = snd st @ cs" "filter chg cs = []"
    using reads_run [OF assms(1)] by (metis append_Nil2 filter.simps(1))
  have "st' = st1 \<or> (\<exists>s v. pm_secret pm s st1 = (v, st'))"
    using run ask by (auto simp: resolve_settings_def split: if_splits sum.splits prod.splits prompt_error.splits)
  then obtain ds where "snd st' = snd st1 @ ds" "filter chg ds = []"
    using reads_run [OF assms(2)] by (metis append_Nil2 filter.simps(1))
  then show "\<exists>cs. snd st' = snd st @ cs \<and> filter chg cs = []" using cs by simp
qed

text \<open>Resolving the settings keeps what the prompts keep.\<close>

lemma settings_keep:
  assumes "\<And>s w. v (snd (pm_line pm s w)) = v w" "\<And>s w. v (snd (pm_secret pm s w)) = v w" "resolve_settings cfg pm so w = (r, w')"
  shows "v w' = v w"
proof -
  let ?env = "capture_env (sx_getenv so) (sx_stored so) (sx_names so)"
  obtain a w1 where ask: "ask_project cfg pm so ?env w = (a, w1)" by (metis surj_pair)
  have "w1 = w \<or> (\<exists>s x. pm_line pm s w = (x, w1))"
    using ask by (auto simp: ask_project_def split: if_splits sum.splits prod.splits prompt_error.splits)
  then have 1: "v w1 = v w" using assms(1) by (metis snd_conv)
  have "w' = w1 \<or> (\<exists>s x. pm_secret pm s w1 = (x, w'))"
    using assms(3) ask by (auto simp: resolve_settings_def split: if_splits sum.splits prod.splits prompt_error.splits)
  then show ?thesis using 1 assms(2) by (metis snd_conv)
qed

definition harmless_by :: "('c \<Rightarrow> bool) \<Rightarrow> ('w, 'c) noted install_options \<Rightarrow> bool" where
  "harmless_by chg io \<longleftrightarrow> pred_option (\<lambda>f. \<forall>g p. reads_by chg (f g p)) (io_precheck io)"

section \<open>What applying does\<close>

text \<open>
  An effect makes one of the sequences of changes in \<open>X\<close>: all of it when it succeeds, else a beginning.
\<close>

definition makes_by :: "('c \<Rightarrow> bool) \<Rightarrow> (('w, 'c) noted \<Rightarrow> ((string + string) \<times> ('w, 'c) noted) option) \<Rightarrow> 'c list set \<Rightarrow> bool" where
  "makes_by chg f X \<longleftrightarrow> (\<forall>st r st'. f st = Some (r, st') \<longrightarrow> (\<exists>cs. \<exists>xs \<in> X. snd st' = snd st @ cs
     \<and> prefix (filter chg cs) xs \<and> (isl r \<or> filter chg cs = xs)))"

lemma makesD:
  assumes "makes_by chg f X" "f st = Some (r, st')"
  obtains cs xs where "xs \<in> X" "snd st' = snd st @ cs" "prefix (filter chg cs) xs" "isl r \<or> filter chg cs = xs"
  using assms unfolding makes_by_def by meson

lemma makes_did: "chg c \<Longrightarrow> makes_by chg (did (noting c f)) {[c]}"
  by (auto simp: makes_by_def did_def noting_def split: prod.splits option.splits)

fun makes_all :: "('c \<Rightarrow> bool) \<Rightarrow> ('w, 'c) noted step list \<Rightarrow> 'c list set list \<Rightarrow> bool" where
  "makes_all chg [] [] = True"
| "makes_all chg (s # ss) (X # Xs) = (makes_by chg (sp_apply s) X \<and> makes_all chg ss Xs)"
| "makes_all chg _ _ = False"

fun runs_of :: "'c list set list \<Rightarrow> 'c list set" where
  "runs_of [] = {[]}"
| "runs_of (X # Xs) = {x @ y | x y. x \<in> X \<and> y \<in> runs_of Xs}"

lemma makes_all_snoc: "makes_all chg ss Xs \<Longrightarrow> makes_by chg (sp_apply s) X \<Longrightarrow> makes_all chg (ss @ [s]) (Xs @ [X])"
  by (induction chg ss Xs rule: makes_all.induct) auto

lemma runs_of_append: "runs_of (Xs @ Ys) = {x @ y | x y. x \<in> runs_of Xs \<and> y \<in> runs_of Ys}"
proof (induction Xs)
  case (Cons X Xs)
  have "{x @ y |x y. x \<in> X \<and> y \<in> {u @ v |u v. u \<in> runs_of Xs \<and> v \<in> runs_of Ys}}
      = {u @ v |u v. u \<in> {x @ y |x y. x \<in> X \<and> y \<in> runs_of Xs} \<and> v \<in> runs_of Ys}"
    by (auto) (metis append.assoc)+
  then show ?case using Cons by simp
qed simp

lemma runs_of_ne: "\<forall>X \<in> set Xs. X \<noteq> {} \<Longrightarrow> runs_of Xs \<noteq> {}"
  by (induction Xs) fastforce+

lemma makes_steps:
  assumes "makes_all chg ss Xs" "\<forall>X \<in> set Xs. X \<noteq> {}" "apply_steps ss st = Some (r, ls, st')"
  shows "\<exists>cs. \<exists>xs \<in> runs_of Xs. snd st' = snd st @ cs \<and> prefix (filter chg cs) xs \<and> (r \<noteq> None \<or> filter chg cs = xs)"
  using assms
proof (induction chg ss Xs arbitrary: st ls rule: makes_all.induct)
  case (2 chg s ss X Xs)
  from 2(4) obtain q st1 where s: "sp_apply s st = Some (q, st1)" by (auto split: option.splits)
  from 2(2) have m: "makes_by chg (sp_apply s) X" "makes_all chg ss Xs" by simp_all
  obtain cs xs where c: "xs \<in> X" "snd st1 = snd st @ cs" "prefix (filter chg cs) xs" "isl q \<or> filter chg cs = xs"
    by (rule makesD [OF m(1) s])
  show ?case
  proof (cases q)
    case (Inl e)
    obtain y where "y \<in> runs_of Xs" using runs_of_ne [of Xs] 2(3) by auto
    then have "xs @ y \<in> runs_of (X # Xs)" using c(1) by auto
    moreover have "r \<noteq> None" "st' = st1" using 2(4) s Inl by auto
    ultimately show ?thesis using c(2,3) by (metis prefix_prefix)
  next
    case (Inr nt)
    then obtain ls1 where rest: "apply_steps ss st1 = Some (r, ls1, st')" using 2(4) s by (auto split: option.splits)
    then obtain ds y where d: "y \<in> runs_of Xs" "snd st' = snd st1 @ ds" "prefix (filter chg ds) y" "r \<noteq> None \<or> filter chg ds = y"
      using 2(1) [OF m(2) _ rest] 2(3) by auto
    have "xs @ y \<in> runs_of (X # Xs)" using c(1) d(1) by auto
    moreover have "filter chg (cs @ ds) = xs @ filter chg ds" using c(4) Inr by simp
    ultimately show ?thesis using c(2) d(2-4) by (metis append.assoc same_prefix_prefix)
  qed
qed auto

lemma watch_loop_reads:
  assumes "watch_loop wt poll deadline st = Some y"
  shows "reads_by chg (wt_check wt) \<and> (\<forall>d. reads_by chg (wt_wait wt d)) \<longrightarrow> (\<exists>cs. snd (snd y) = snd st @ cs \<and> filter chg cs = [])"
proof (rule watch_loop.raw_induct [of "\<lambda>wt poll deadline st y.
    reads_by chg (wt_check wt) \<and> (\<forall>d. reads_by chg (wt_wait wt d)) \<longrightarrow> (\<exists>cs. snd (snd y) = snd st @ cs \<and> filter chg cs = [])", OF _ assms], intro impI)
  fix loop and wt :: "('a, 'b) noted watcher" and poll deadline st y
  assume IH: "\<And>wt poll deadline st y. loop wt poll deadline st = Some y \<Longrightarrow>
      reads_by chg (wt_check wt) \<and> (\<forall>d. reads_by chg (wt_wait wt d)) \<longrightarrow> (\<exists>cs. snd (snd y) = snd st @ cs \<and> filter chg cs = [])"
    and body: "(case wt_check wt st of (Inl e, w1) \<Rightarrow> Some (Inl e, w1)
      | (Inr state, w1) \<Rightarrow> if deadline \<le> wt_now wt w1 then Some (Inr (''service is '' @ state), w1)
         else (case wt_wait wt poll w1 of
             (waited, w2) \<Rightarrow> if \<not> waited then Some (Inl ''context canceled'', w2) else loop wt poll deadline w2)) = Some y"
    and quiet: "reads_by chg (wt_check wt) \<and> (\<forall>d. reads_by chg (wt_wait wt d))"
  obtain c st1 where c: "wt_check wt st = (c, st1)" by (metis surj_pair)
  obtain cs where cs: "snd st1 = snd st @ cs" "filter chg cs = []" using reads_run [OF conjunct1 [OF quiet] c] by blast
  obtain b st2 where b: "wt_wait wt poll st1 = (b, st2)" by (metis surj_pair)
  obtain ds where ds: "snd st2 = snd st1 @ ds" "filter chg ds = []" using reads_run [OF spec [OF conjunct2 [OF quiet]] b] by blast
  consider "snd y = st1" | "snd y = st2" | "loop wt poll deadline st2 = Some y"
    using body by (cases c) (auto simp: c b split: if_splits)
  then show "\<exists>cs. snd (snd y) = snd st @ cs \<and> filter chg cs = []"
  proof cases
    case 3
    obtain es where "snd (snd y) = snd st2 @ es" "filter chg es = []" using IH [OF 3] quiet by blast
    then show ?thesis using cs ds by (intro exI [of _ "cs @ ds @ es"]) simp
  qed (use cs ds in \<open>auto intro: exI [of _ "cs @ ds"]\<close>)
qed

text \<open>A call that is followed by a watch which only reads.\<close>

lemma makes_then_watch:
  assumes "chg c" "reads_by chg (wt_check wt)" "\<And>d. reads_by chg (wt_wait wt d)"
    and act: "\<And>st. act st = (case noting c f st of (Some e, st1) \<Rightarrow> Some (Inl (g e), st1) | (None, st1) \<Rightarrow> watch wt settle poll st1)"
  shows "makes_by chg act {[c]}"
proof -
  have "\<exists>cs. snd st' = snd st @ cs \<and> prefix (filter chg cs) [c] \<and> (isl r \<or> filter chg cs = [c])" if run: "act st = Some (r, st')" for st r st'
  proof -
    obtain e st1 where c: "noting c f st = (e, st1)" by (metis surj_pair)
    then have st1: "snd st1 = snd st @ [c]" by (auto simp: noting_def split: prod.splits)
    show ?thesis
    proof (cases e)
      case None
      then have "watch wt settle poll st1 = Some (r, st')" using run c by (simp add: act)
      then obtain cs where "snd st' = snd st1 @ cs" "filter chg cs = []"
        using watch_loop_reads [where y = "(r, st')" and wt = wt and chg = chg] assms(2,3) unfolding watch_def by fastforce
      then show ?thesis using st1 assms(1) by (intro exI [of _ "[c] @ cs"]) simp
    next
      case (Some x)
      then show ?thesis using run c st1 assms(1) by (intro exI [of _ "[c]"]) (simp add: act)
    qed
  qed
  then show ?thesis unfolding makes_by_def by simp
qed

lemma andthenE:
  assumes "andthen f g st = (Inr b, st')"
  obtains a st1 where "f st = (Inr a, st1)" "g a st1 = (Inr b, st')"
  using assms by (auto simp: andthen_def split: prod.splits sum.splits)

lemma failing_Inr: "failing c f st = (Inr b, st') \<longleftrightarrow> f st = (Inr b, st')"
  by (auto simp: failing_def split: prod.splits sum.splits)

lemma give_Inr: "give r st = (Inr b, st') \<longleftrightarrow> r = Inr b \<and> st' = st"
  by (auto simp: give_def)

lemma runs_of_singles: "runs_of (map (\<lambda>c. {[c]}) cs) = {cs}"
  by (induction cs) auto

lemma runs_of_within: "\<forall>X \<in> set Xs. X \<subseteq> {xs. list_all P xs} \<Longrightarrow> xs \<in> runs_of Xs \<Longrightarrow> list_all P xs"
  by (induction Xs arbitrary: xs) fastforce+

lemma apply_plan_steps: "apply_plan p st = Some (r, ls, st') \<Longrightarrow> \<exists>ls'. apply_steps (pn_steps p) st = Some (r, ls', st')"
  by (auto simp: apply_plan_def split: option.splits)

section \<open>Plans that run to an end\<close>

definition returns :: "('w \<Rightarrow> ((string + string) \<times> 'w) option) \<Rightarrow> bool" where
  "returns act \<longleftrightarrow> (\<forall>st. \<exists>r st'. act st = Some (r, st'))"

definition all_return :: "'w splan \<Rightarrow> bool" where
  "all_return p \<longleftrightarrow> list_all (\<lambda>s. returns (sp_apply s)) (pn_steps p)"

lemma all_return_add [simp]:
  "all_return (add_step d act p) \<longleftrightarrow> all_return p \<and> returns act"
  "all_return (add_detailed d t act p) \<longleftrightarrow> all_return p \<and> returns act"
  by (auto simp: all_return_def add_step_def add_detailed_def)

lemma all_return_update [simp]:
  "all_return (p\<lparr>pn_keep := ks\<rparr>) \<longleftrightarrow> all_return p" "all_return (p\<lparr>pn_config_present := b\<rparr>) \<longleftrightarrow> all_return p"
  by (simp_all add: all_return_def)

lemma returns_did [simp]: "returns (did f)"
  by (auto simp: returns_def did_def split: prod.splits option.splits)

text \<open>A plan whose steps all return runs to an end.\<close>

lemma apply_returns:
  assumes "all_return p"
  shows "\<exists>r ls st'. apply_plan p st = Some (r, ls, st')"
proof -
  have "\<exists>r ls st'. apply_steps ss st = Some (r, ls, st')" if "list_all (\<lambda>s. returns (sp_apply s)) ss" for ss st
    using that
  proof (induction ss arbitrary: st)
    case (Cons s ss)
    obtain q st1 where q: "sp_apply s st = Some (q, st1)" using Cons.prems unfolding list.pred_inject returns_def by blast
    show ?case
    proof (cases q)
      case (Inr nt)
      obtain r ls st2 where "apply_steps ss st1 = Some (r, ls, st2)" using Cons by fastforce
      then show ?thesis using q Inr by simp
    qed (use q in simp)
  qed simp
  from this [OF assms [unfolded all_return_def]] obtain r ls st' where "apply_steps (pn_steps p) st = Some (r, ls, st')" by blast
  then show ?thesis by (cases r) (simp_all add: apply_plan_def)
qed

end
