(* ===== verification/Envfile.thy ===== *)
theory Envfile
  imports Gostring
begin

text \<open>
  \<open>internal/systemd/envfile.go\<close>: the file that holds the settings of the installed service, written and
  read back as systemd reads it. The lemmas show that what is written is read back unchanged.
\<close>

abbreviation backslash :: char where
  "backslash \<equiv> CHR 0x5C"

abbreviation quote1 :: char where
  "quote1 \<equiv> CHR 0x27"

abbreviation quote2 :: char where
  "quote2 \<equiv> CHR 0x22"

section \<open>Writing\<close>

definition env_header :: "string list" where
  "env_header = [''# Settings of the omnistat service, written by `omnistat service install`.'',
     ''# Readable by root only: it holds the access token. systemd passes these to the'',
     ''# service as its environment. Install rewrites this file, keeping each setting'',
     ''# it is not given again. Restart the service after editing it by hand.'']"

definition name_start :: "char \<Rightarrow> bool" where
  "name_start c \<longleftrightarrow> is_lower c \<or> (65 \<le> byte c \<and> byte c \<le> 90) \<or> c = CHR ''_''"

definition env_name :: "string \<Rightarrow> bool" where
  "env_name k \<longleftrightarrow> k \<noteq> [] \<and> name_start (hd k) \<and> list_all (\<lambda>c. name_start c \<or> is_digit c) k"

definition escapable :: "char list" where
  "escapable = [backslash, quote2, CHR ''$'', CHR 0x60]"

definition escape :: "string \<Rightarrow> string" where
  "escape v = concat (map (\<lambda>c. if c \<in> set escapable then [backslash, c] else [c]) v)"

definition quote_value :: "string \<Rightarrow> string" where
  "quote_value v = (if quote1 \<notin> set v then [quote1] @ v @ [quote1] else [quote2] @ escape v @ [quote2])"

datatype format_error = BadSettingName string | BadSettingValue string

fun format_lines :: "(string, string) gomap \<Rightarrow> string list \<Rightarrow> format_error + string" where
  "format_lines env [] = Inr []"
| "format_lines env (k # ks) = (let v = gm_getd [] env k in
     if \<not> env_name k then Inl (BadSettingName k)
     else if list_ex (\<lambda>c. c = nl \<or> c = CHR 0x0D \<or> c = CHR 0x00) v then Inl (BadSettingValue k)
     else (case format_lines env ks of Inl e \<Rightarrow> Inl e | Inr b \<Rightarrow> Inr (k @ ''='' @ quote_value v @ [nl] @ b)))"

definition format_env :: "(string, string) gomap \<Rightarrow> format_error + string" where
  "format_env env = (case format_lines env (gm_keys env) of
       Inl e \<Rightarrow> Inl e | Inr b \<Rightarrow> Inr (concat (map (\<lambda>l. l @ [nl]) env_header) @ b))"

section \<open>Reading\<close>

datatype env_error = NotAssignment | BadVariableName | UnterminatedSingle | UnterminatedDouble | LineContinuation

abbreviation blank :: "char \<Rightarrow> bool" where
  "blank c \<equiv> c = CHR '' '' \<or> c = CHR 0x09"

text \<open>What a double quote opens: the part up to the next unescaped one, and the rest.\<close>

fun double_quoted :: "string \<Rightarrow> (string \<times> string) option" where
  "double_quoted [] = None"
| "double_quoted (c # cs) = (
     if c = quote2 then Some ([], cs)
     else if c = backslash then (case cs of [] \<Rightarrow> None
       | d # ds \<Rightarrow> map_option (\<lambda>(a, b). ((if d \<in> set escapable then [d] else [backslash, d]) @ a, b)) (double_quoted ds))
     else map_option (\<lambda>(a, b). (c # a, b)) (double_quoted cs))"

lemma double_quoted_shorter: "double_quoted s = Some (a, b) \<Longrightarrow> length b < length s"
  by (induction s arbitrary: a rule: double_quoted.induct) (fastforce split: if_splits list.splits)+

text \<open>\<open>out\<close> so far, the length \<open>keep\<close> that trailing blanks do not cut, and whether a quote opens a part.\<close>

function read_value :: "string \<Rightarrow> string \<Rightarrow> nat \<Rightarrow> bool \<Rightarrow> env_error + string" where
  "read_value [] out keep quotes = Inr (take keep out)"
| "read_value (c # cs) out keep quotes = (
     if quotes \<and> blank c then read_value cs out keep quotes
     else if quotes \<and> c = quote1 then (case cut_at quote1 cs of None \<Rightarrow> Inl UnterminatedSingle
       | Some (a, b) \<Rightarrow> read_value b (out @ a) (length (out @ a)) quotes)
     else if quotes \<and> c = quote2 then (case double_quoted cs of None \<Rightarrow> Inl UnterminatedDouble
       | Some (a, b) \<Rightarrow> read_value b (out @ a) (length (out @ a)) quotes)
     else if c = backslash then (case cs of [] \<Rightarrow> Inl LineContinuation
       | d # ds \<Rightarrow> read_value ds (out @ [d]) (length (out @ [d])) False)
     else read_value cs (out @ [c]) (if blank c then keep else length (out @ [c])) False)"
  by pat_completeness auto
termination
  by (relation "measure (\<lambda>(s, out, keep, quotes). length s)") (auto dest!: cut_at_Some double_quoted_shorter)

definition parse_value :: "string \<Rightarrow> env_error + string" where
  "parse_value s = read_value s [] 0 True"

definition parse_assignment :: "string \<Rightarrow> env_error + string \<times> string" where
  "parse_assignment line = (case cut_at (CHR ''='') line of
       None \<Rightarrow> Inl NotAssignment
     | Some (k, raw) \<Rightarrow> let k = trim_space k in
         if \<not> env_name k then Inl BadVariableName
         else (case parse_value (dropWhile blank raw) of Inl e \<Rightarrow> Inl e | Inr v \<Rightarrow> Inr (k, v)))"

definition skipped_line :: "string \<Rightarrow> bool" where
  "skipped_line l \<longleftrightarrow> l = [] \<or> hd l = CHR ''#'' \<or> hd l = CHR '';''"

fun parse_lines :: "nat \<Rightarrow> string list \<Rightarrow> (string, string) gomap \<Rightarrow> nat \<times> env_error + (string, string) gomap" where
  "parse_lines i [] env = Inr env"
| "parse_lines i (l # ls) env = (let line = dropWhile blank (drop_cr l) in
     if skipped_line line then parse_lines (Suc i) ls env
     else (case parse_assignment line of Inl e \<Rightarrow> Inl (Suc i, e) | Inr (k, v) \<Rightarrow> parse_lines (Suc i) ls (gm_put k v env)))"

definition parse_env :: "string \<Rightarrow> nat \<times> env_error + (string, string) gomap" where
  "parse_env s = parse_lines 0 (split_at nl s) []"

section \<open>The round trip\<close>

lemma double_quoted_escape: "double_quoted (escape v @ quote2 # r) = Some (v, r)"
  by (induction v) (auto simp: escape_def escapable_def)

lemma read_quoted: "read_value (quote_value v) [] 0 True = Inr v"
  using cut_at_append [of quote1 v "[]"] double_quoted_escape [of v "[]"] by (simp add: quote_value_def)

lemma quote_value_first: "dropWhile blank (quote_value v) = quote_value v"
  by (simp add: quote_value_def)

lemma name_char: "name_start c \<or> is_digit c \<Longrightarrow> c \<noteq> CHR ''='' \<and> \<not> blank c \<and> c \<noteq> CHR ''#'' \<and> c \<noteq> CHR '';'' \<and> c \<noteq> nl \<and> byte c < 128 \<and> \<not> is_space (byte c)"
  by (auto simp: name_start_def is_digit_def is_lower_def byte_def is_space_def)

definition env_line :: "string \<Rightarrow> string \<Rightarrow> string" where
  "env_line k v = k @ ''='' @ quote_value v"

lemma env_name_chars: "env_name k \<Longrightarrow> x \<in> set k \<Longrightarrow> name_start x \<or> is_digit x"
  by (auto simp: env_name_def list_all_iff)

lemma env_line_first:
  assumes "env_name k"
  shows "dropWhile blank (drop_cr (env_line k v)) = env_line k v" "\<not> skipped_line (env_line k v)"
proof -
  obtain c cs where k: "k = c # cs" using assms by (cases k) (auto simp: env_name_def)
  then have c: "\<not> blank c \<and> c \<noteq> CHR ''#'' \<and> c \<noteq> CHR '';''" using env_name_chars [OF assms, of c] name_char by simp
  have "last (env_line k v) \<noteq> CHR 0x0D" by (simp add: env_line_def quote_value_def)
  then have "drop_cr (env_line k v) = env_line k v" by (simp add: drop_cr_def)
  then show "dropWhile blank (drop_cr (env_line k v)) = env_line k v" using k c by (simp add: env_line_def)
  show "\<not> skipped_line (env_line k v)" using k c by (simp add: env_line_def skipped_line_def)
qed

lemma parse_env_line: "env_name k \<Longrightarrow> parse_assignment (env_line k v) = Inr (k, v)"
proof -
  assume k: "env_name k"
  have "CHR ''='' \<notin> set k" using env_name_chars [OF k] name_char by blast
  then have cut: "cut_at (CHR ''='') (env_line k v) = Some (k, quote_value v)" by (simp add: env_line_def cut_at_append)
  have ne: "k \<noteq> []" using k by (simp add: env_name_def)
  have "byte (hd k) < 128 \<and> \<not> is_space (byte (hd k))" "byte (last k) < 128 \<and> \<not> is_space (byte (last k))"
    using env_name_chars [OF k] name_char hd_in_set [OF ne] last_in_set [OF ne] by blast+
  then have "trim_space k = k" using ne by (intro trim_space_ascii) simp_all
  then show ?thesis using cut k by (simp add: parse_assignment_def parse_value_def quote_value_first read_quoted)
qed

definition storable :: "(string, string) gomap \<Rightarrow> string \<Rightarrow> bool" where
  "storable env k \<longleftrightarrow> env_name k \<and> \<not> list_ex (\<lambda>c. c = nl \<or> c = CHR 0x0D \<or> c = CHR 0x00) (gm_getd [] env k)"

lemma format_lines_iff:
  "(case format_lines env ks of Inl e \<Rightarrow> \<not> list_all (storable env) ks
    | Inr b \<Rightarrow> list_all (storable env) ks \<and> b = concat (map (\<lambda>k. env_line k (gm_getd [] env k) @ [nl]) ks))"
  by (induction ks) (auto simp: storable_def [abs_def] env_line_def Let_def split: sum.splits)

lemma nl_free_line:
  assumes "storable env k"
  shows "nl \<notin> set (env_line k (gm_getd [] env k))"
proof -
  let ?v = "gm_getd [] env k"
  have "set (escape ?v) \<subseteq> insert backslash (set ?v)" by (auto simp: escape_def split: if_splits)
  moreover have "nl \<notin> set ?v" using assms by (auto simp: storable_def list_ex_iff)
  moreover have "nl \<notin> set k" using assms env_name_chars [of k nl] name_char [of nl] by (auto simp: storable_def)
  ultimately show ?thesis by (auto simp: env_line_def quote_value_def)
qed

lemma split_lines: "list_all (\<lambda>l. nl \<notin> set l) ls \<Longrightarrow> split_at nl (concat (map (\<lambda>l. l @ [nl]) ls) @ r) = ls @ split_at nl r"
  by (induction ls) (simp_all add: split_at_first)

lemma parse_lines_written:
  assumes "list_all (storable env) ks" "distinct ks" "\<forall>k \<in> set ks. \<not> gm_has acc k"
  shows "parse_lines i (map (\<lambda>k. env_line k (gm_getd [] env k)) ks @ [[]]) acc = Inr (acc @ map (\<lambda>k. (k, gm_getd [] env k)) ks)"
  using assms
proof (induction ks arbitrary: i acc)
  case Nil
  then show ?case by (simp add: drop_cr_def skipped_line_def)
next
  case (Cons k ks)
  then have k: "env_name k" by (simp add: storable_def)
  have "parse_lines (Suc i) (map (\<lambda>k. env_line k (gm_getd [] env k)) ks @ [[]]) (gm_put k (gm_getd [] env k) acc)
      = Inr (gm_put k (gm_getd [] env k) acc @ map (\<lambda>k. (k, gm_getd [] env k)) ks)"
    using Cons.prems by (intro Cons.IH) auto
  then show ?case using Cons.prems env_line_first [OF k] parse_env_line [OF k] by (simp add: gm_put_new Let_def)
qed

lemma header_skipped: "parse_lines 0 (env_header @ ls) acc = parse_lines 4 ls acc"
  by (simp add: env_header_def drop_cr_def skipped_line_def eval_nat_numeral)

lemma header_lines: "list_all (\<lambda>l. nl \<notin> set l) env_header"
  by (simp add: env_header_def)

text \<open>
  C15: the settings of the service survive being stored. Writing succeeds exactly when every name is a
  variable name and no value has a line break or NUL; reading the file back as systemd does then gives
  exactly the settings, whatever quotes, blanks, backslashes or bytes their values hold.\<close>

theorem settings_roundtrip:
  assumes "gm_ok env"
  shows "((\<exists>data. format_env env = Inr data) \<longleftrightarrow> list_all (storable env) (gm_keys env))
    \<and> (\<forall>data. format_env env = Inr data \<longrightarrow> (\<exists>env'. parse_env data = Inr env' \<and> (\<forall>k. gm_get env' k = gm_get env k)))"
proof (intro conjI allI impI)
  note f = format_lines_iff [of env "gm_keys env"]
  show "(\<exists>data. format_env env = Inr data) \<longleftrightarrow> list_all (storable env) (gm_keys env)"
    using f by (auto simp: format_env_def split: sum.splits)
next
  fix data assume "format_env env = Inr data"
  then obtain b where b: "format_lines env (gm_keys env) = Inr b" "data = concat (map (\<lambda>l. l @ [nl]) env_header) @ b"
    by (auto simp: format_env_def split: sum.splits)
  let ?ls = "map (\<lambda>k. env_line k (gm_getd [] env k)) (gm_keys env)"
  from b(1) have ok: "list_all (storable env) (gm_keys env)" and b': "b = concat (map (\<lambda>l. l @ [nl]) ?ls) @ []"
    using format_lines_iff [of env "gm_keys env"] by (simp_all add: comp_def)
  have lines: "list_all (\<lambda>l. nl \<notin> set l) ?ls" using ok nl_free_line by (auto simp: list_all_iff)
  have "split_at nl data = env_header @ ?ls @ [[]]"
    unfolding b(2) b' split_lines [OF header_lines] split_lines [OF lines] by simp
  then have "parse_env data = Inr (map (\<lambda>k. (k, gm_getd [] env k)) (gm_keys env))"
    using parse_lines_written [OF ok distinct_gm_keys [OF assms], of "[]"] by (simp add: parse_env_def header_skipped)
  moreover have "gm_get (map (\<lambda>k. (k, gm_getd [] env k)) (gm_keys env)) k = gm_get env k" for k
    using map_of_eq_None_iff [of env k]
    by (cases "map_of env k") (auto simp: gm_get_def map_of_map_restrict gm_keys_def gm_getd_def restrict_map_def comp_def)
  ultimately show "\<exists>env'. parse_env data = Inr env' \<and> (\<forall>k. gm_get env' k = gm_get env k)" by blast
qed

section \<open>At a concrete input\<close>

theorem settings_roundtrip_witness:
  "\<exists>data env'. format_env [(''TOKEN'', ''it's $5'')] = Inr data \<and> parse_env data = Inr env' \<and> gm_get env' ''TOKEN'' = Some ''it's $5''"
proof -
  let ?env = "[(''TOKEN'', ''it's $5'')]"
  have ok: "gm_ok ?env" by (simp add: gm_ok_def)
  have "list_all (storable ?env) (gm_keys ?env)"
    by (simp add: gm_keys_def storable_def env_name_def name_start_def is_lower_def is_digit_def byte_def gm_getd_def gm_get_def)
  then show ?thesis using settings_roundtrip [OF ok] by (fastforce simp: gm_get_def)
qed

end
