(* ===== verification/Systemd.thy ===== *)
theory Systemd
  imports Recording Envfile Gonum
begin

text \<open>
  \<open>internal/systemd\<close>: installing and removing the systemd service. A plan is decided by reading the host,
  then applied step by step. The host interface is a record of operations over a world \<open>'w\<close>; the recorded
  host keeps the calls, so that the lemmas can say what planning and applying do to the host.
\<close>

unbundle bit_operations_syntax

section \<open>The unit\<close>

definition unit_name :: string where "unit_name = ''omnistat.service''"

definition unit_path :: string where "unit_path = ''/etc/systemd/system/'' @ unit_name"

definition binary_path :: string where "binary_path = ''/usr/local/bin/omnistat''"

definition config_dir :: string where "config_dir = ''/etc/omnistat''"

definition config_path :: string where "config_path = config_dir @ ''/omnistat.yaml''"

definition env_path :: string where "env_path = config_dir @ ''/omnistat.env''"

definition marker :: string where
  "marker = ''# Written by `omnistat service install`; every install rewrites this file.''"

definition log_hint :: string where
  "log_hint = ''journalctl -u omnistat (warnings and errors only: journalctl -u omnistat -p warning)''"

definition unit_template :: "string list" where
  "unit_template = [marker,
     ''# Local changes belong in a drop-in, which install keeps: systemctl edit omnistat'',
     ''# https://github.com/omnismith-apps/omnistat'',
     '''',
     ''[Unit]'',
     ''Description=omnistat (Omnismith exporter)'',
     ''Documentation=https://github.com/omnismith-apps/omnistat'',
     ''Wants=network-online.target'',
     ''After=network-online.target'',
     ''# Keep trying after failures, however many (spec 007 FR-009).'',
     ''StartLimitIntervalSec=0'',
     '''',
     ''[Service]'',
     ''# omnistat tells systemd when it is ready: config loaded, schema reconciled,'',
     ''# host identity resolved (FR-010). On stop it extends the stop timeout itself'',
     ''# to cover its final publish (FR-023).'',
     ''Type=notify'',
     ''ExecStart={BIN} --config {CONFIG} run --daemon'',
     ''# The access token and other settings; readable by root only (FR-013).'',
     ''EnvironmentFile={ENV}'',
     ''# Restart one minute after any failure; never after a deliberate stop (FR-009).'',
     ''Restart=on-failure'',
     ''RestartSec=60'',
     ''TimeoutStartSec=180'',
     '''',
     ''# Least privilege (FR-008): an unprivileged user allocated while the service'',
     ''# runs, no capabilities, a read-only system, and systemd's sandbox.'',
     ''DynamicUser=yes'',
     ''CapabilityBoundingSet='',
     ''AmbientCapabilities='',
     ''NoNewPrivileges=yes'',
     ''ProtectSystem=strict'',
     ''ProtectHome=yes'',
     ''PrivateTmp=yes'',
     ''PrivateDevices=yes'',
     ''PrivateUsers=yes'',
     ''ProtectKernelTunables=yes'',
     ''ProtectKernelModules=yes'',
     ''ProtectKernelLogs=yes'',
     ''ProtectControlGroups=yes'',
     ''ProtectClock=yes'',
     ''ProtectHostname=yes'',
     ''ProtectProc=invisible'',
     ''RestrictAddressFamilies=AF_INET AF_INET6 AF_UNIX'',
     ''RestrictNamespaces=yes'',
     ''RestrictRealtime=yes'',
     ''RestrictSUIDSGID=yes'',
     ''LockPersonality=yes'',
     ''MemoryDenyWriteExecute=yes'',
     ''SystemCallArchitectures=native'',
     ''SystemCallFilter=@system-service'',
     ''SystemCallFilter=~@privileged @resources'',
     ''SystemCallErrorNumber=EPERM'',
     ''UMask=0077'',
     ''RemoveIPC=yes'',
     ''DevicePolicy=closed'',
     '''',
     ''[Install]'',
     ''WantedBy=multi-user.target'']"

text \<open>\<open>strings.Replacer\<close>: at each position the first pair that matches.\<close>

fun match_pair :: "(string \<times> string) list \<Rightarrow> string \<Rightarrow> (string \<times> string) option" where
  "match_pair [] s = None"
| "match_pair ((old, new) # ps) s = (if cut_prefix old s \<noteq> None then Some (old, new) else match_pair ps s)"

function replace_all :: "(string \<times> string) list \<Rightarrow> string \<Rightarrow> string" where
  "replace_all ps [] = []"
| "replace_all ps (c # cs) = (case match_pair ps (c # cs) of
       None \<Rightarrow> c # replace_all ps cs
     | Some (old, new) \<Rightarrow> new @ replace_all ps (drop (length old - 1) cs))"
  by pat_completeness auto
termination
  by (relation "measure (\<lambda>(ps, s). length s)") auto

definition unit_text :: string where
  "unit_text = replace_all [(''{BIN}'', binary_path), (''{CONFIG}'', config_path), (''{ENV}'', env_path)]
     (concat (map (\<lambda>l. l @ [nl]) unit_template))"

definition own_unit :: "string \<Rightarrow> bool" where
  "own_unit data \<longleftrightarrow> cut_prefix (marker @ [nl]) data \<noteq> None"

section \<open>The host\<close>

record file_info =
  fi_exists :: bool
  fi_dir :: bool
  fi_mode :: nat
  fi_uid :: int

record unit_state =
  us_load :: string
  us_fragment :: string
  us_active :: string
  us_sub :: string
  us_dropins :: "string list"

definition unit_active :: "unit_state \<Rightarrow> bool" where
  "unit_active u \<longleftrightarrow> us_active u \<in> {''active'', ''activating'', ''reloading'', ''deactivating''}"

record 'w host =
  ho_root :: "'w \<Rightarrow> bool \<times> 'w"
  ho_booted :: "'w \<Rightarrow> bool \<times> 'w"
  ho_executable :: "'w \<Rightarrow> (string + string) \<times> 'w"
  ho_stat :: "string \<Rightarrow> 'w \<Rightarrow> (string + file_info) \<times> 'w"
  ho_read :: "string \<Rightarrow> 'w \<Rightarrow> (string + string) \<times> 'w"
  ho_write :: "string \<Rightarrow> string \<Rightarrow> nat \<Rightarrow> 'w \<Rightarrow> string option \<times> 'w"
  ho_create :: "string \<Rightarrow> string \<Rightarrow> nat \<Rightarrow> 'w \<Rightarrow> (string + bool) \<times> 'w"
  ho_mkdir :: "string \<Rightarrow> nat \<Rightarrow> 'w \<Rightarrow> string option \<times> 'w"
  ho_secure :: "string \<Rightarrow> nat \<Rightarrow> 'w \<Rightarrow> string option \<times> 'w"
  ho_remove :: "string \<Rightarrow> 'w \<Rightarrow> string option \<times> 'w"
  ho_unit :: "'w \<Rightarrow> (string + unit_state) \<times> 'w"
  ho_systemctl :: "string list \<Rightarrow> 'w \<Rightarrow> string option \<times> 'w"
  ho_prompt :: "'w prompter"
  ho_now :: "'w \<Rightarrow> int"
  ho_wait :: "int \<Rightarrow> 'w \<Rightarrow> bool \<times> 'w"

section \<open>Deciding\<close>

datatype systemd_error =
    NotRoot
  | NotBooted
  | NoExecutable string
  | UnitQuery string
  | MaskedUnit
  | ForeignUnit string
  | HostFailed string
  | StoredUnreadable nat env_error
  | SettingsFailed settings_error
  | NotStorable format_error
  | PrecheckFailed string
  | NotDirectory string

definition preconditions :: "'w host \<Rightarrow> 'w \<Rightarrow> (systemd_error + unit) \<times> 'w" where
  "preconditions h = andthen (asking NotRoot (ho_root h)) (\<lambda>_. asking NotBooted (ho_booted h))"

definition fragment_check :: "unit_state \<Rightarrow> bool \<Rightarrow> systemd_error + unit_state \<times> bool" where
  "fragment_check u installed = (if us_fragment u \<noteq> [] \<and> us_fragment u \<noteq> unit_path \<and> us_load u \<noteq> ''not-found''
     then Inl (ForeignUnit (us_fragment u)) else Inr (u, installed))"

definition inspect :: "'w host \<Rightarrow> 'w \<Rightarrow> (systemd_error + unit_state \<times> bool) \<times> 'w" where
  "inspect h = andthen (failing UnitQuery (ho_unit h)) (\<lambda>u.
     if us_load u = ''masked'' then give (Inl MaskedUnit)
     else andthen (failing HostFailed (ho_stat h unit_path)) (\<lambda>f.
       if \<not> fi_exists f then give (fragment_check u False)
       else andthen (failing HostFailed (ho_read h unit_path)) (\<lambda>data.
         if \<not> own_unit data then give (Inl (ForeignUnit unit_path)) else give (fragment_check u True))))"

definition read_stored :: "'w host \<Rightarrow> 'w \<Rightarrow> (systemd_error + (string, string) gomap) \<times> 'w" where
  "read_stored h = andthen (failing HostFailed (ho_stat h env_path)) (\<lambda>f.
     if \<not> fi_exists f then give (Inr [])
     else andthen (failing HostFailed (ho_read h env_path)) (\<lambda>data.
       give (case parse_env data of Inl (line, e) \<Rightarrow> Inl (StoredUnreadable line e) | Inr env \<Rightarrow> Inr env)))"

section \<open>Steps\<close>

definition mode_binary :: nat where "mode_binary = 493"

definition mode_dir :: nat where "mode_dir = 493"

definition mode_config :: nat where "mode_config = 420"

definition mode_env :: nat where "mode_env = 384"

definition mode_unit :: nat where "mode_unit = 420"

definition systemd_captured :: "string list" where
  "systemd_captured = captured @ [''https_proxy'', ''http_proxy'', ''no_proxy'']"

text \<open>\<open>%04o\<close>.\<close>

fun octal :: "nat \<Rightarrow> string" where
  "octal n = (if n < 8 then [digit n] else octal (n div 8) @ [digit (n mod 8)])"

declare octal.simps [simp del]

definition octal4 :: "nat \<Rightarrow> string" where
  "octal4 n = replicate (4 - length (octal n)) CHR ''0'' @ octal n"

definition arrow :: string where
  "arrow = [CHR 0xE2, CHR 0x86, CHR 0x92]"

text \<open>What the service must not trust or cannot read, by owner and mode.\<close>

definition loose :: "file_info \<Rightarrow> bool" where
  "loose f \<longleftrightarrow> (let need = (if fi_dir f then 5 else 4) in fi_uid f \<noteq> 0 \<or> fi_mode f AND 18 \<noteq> 0 \<or> fi_mode f AND need \<noteq> need)"

definition add_fix :: "'w host \<Rightarrow> string \<Rightarrow> file_info \<Rightarrow> nat \<Rightarrow> 'w splan \<Rightarrow> 'w splan" where
  "add_fix h path f mode p = add_step (''fix '' @ path @ '': owner uid '' @ itoa (fi_uid f) @ '', mode '' @ octal4 (fi_mode f) @ '' '' @ arrow
     @ '' root, '' @ octal4 mode @ '' (only root may change what the service reads, and the service must read it)'') (did (ho_secure h path mode)) p"

definition put_binary :: "'w host \<Rightarrow> string \<Rightarrow> 'w \<Rightarrow> ((string + string) \<times> 'w) option" where
  "put_binary h exe w = (case ho_read h exe w of
       (Inl e, w1) \<Rightarrow> Some (Inl e, w1)
     | (Inr data, w1) \<Rightarrow> (case ho_mkdir h ''/usr/local/bin'' mode_dir w1 of
         (Some e, w2) \<Rightarrow> Some (Inl e, w2)
       | (None, w2) \<Rightarrow> did (ho_write h binary_path data mode_binary) w2))"

definition plan_binary :: "'w host \<Rightarrow> string \<Rightarrow> 'w splan \<Rightarrow> 'w \<Rightarrow> (systemd_error + 'w splan) \<times> 'w" where
  "plan_binary h exe p = andthen (failing HostFailed (ho_stat h binary_path)) (\<lambda>f.
     give (Inr (add_step (if fi_exists f then ''replace '' @ binary_path @ '' with '' @ exe @ '' (root, '' @ octal4 mode_binary @ '')''
        else ''install '' @ exe @ '' as '' @ binary_path @ '' (root, '' @ octal4 mode_binary @ '')'') (put_binary h exe) p)))"

definition put_config :: "'w host \<Rightarrow> string \<Rightarrow> 'w \<Rightarrow> ((string + string) \<times> 'w) option" where
  "put_config h starter w = (case ho_create h config_path starter mode_config w of
       (Inl e, w1) \<Rightarrow> Some (Inl e, w1)
     | (Inr created, w1) \<Rightarrow> Some (Inr (note_if (\<not> created) ''it appeared meanwhile and was left as it is''), w1))"

definition plan_config_dir :: "'w host \<Rightarrow> file_info \<Rightarrow> 'w splan \<Rightarrow> systemd_error + 'w splan" where
  "plan_config_dir h f p = (
     if \<not> fi_exists f then Inr (add_step (''create '' @ config_dir @ '' (root, '' @ octal4 mode_dir @ '')'') (did (ho_mkdir h config_dir mode_dir)) p)
     else if \<not> fi_dir f then Inl (NotDirectory config_dir)
     else if loose f then Inr (add_fix h config_dir f mode_dir p)
     else Inr p)"

definition plan_config_file :: "'w host \<Rightarrow> string \<Rightarrow> file_info \<Rightarrow> 'w splan \<Rightarrow> 'w splan" where
  "plan_config_file h starter f p = (let p1 = p\<lparr>pn_config_present := fi_exists f\<rparr> in
     if \<not> fi_exists f then add_step (''create '' @ config_path @ '' (root, '' @ octal4 mode_config
        @ ''): a commented starter configuration; every default stays in force'') (put_config h starter) p1
     else if loose f then add_fix h config_path f mode_config p1
     else p1)"

definition plan_config :: "'w host \<Rightarrow> string \<Rightarrow> 'w splan \<Rightarrow> 'w \<Rightarrow> (systemd_error + 'w splan) \<times> 'w" where
  "plan_config h starter p = andthen (failing HostFailed (ho_stat h config_dir)) (\<lambda>d.
     andthen (give (plan_config_dir h d p)) (\<lambda>p1.
       andthen (failing HostFailed (ho_stat h config_path)) (\<lambda>f. give (Inr (plan_config_file h starter f p1)))))"

definition start_failed :: string where
  "start_failed = ''the service did not start, or stopped right after starting; see journalctl -u omnistat''"

definition check_unit :: "'w host \<Rightarrow> 'w \<Rightarrow> (string + string) \<times> 'w" where
  "check_unit h w = (case ho_unit h w of
       (Inl e, w1) \<Rightarrow> (Inl e, w1)
     | (Inr u, w1) \<Rightarrow> (if us_active u = ''failed'' \<or> us_active u = ''inactive'' \<or> us_sub u = ''auto-restart''
         then Inl (start_failed @ '' (it is '' @ us_active u @ ''/'' @ us_sub u @ '')'')
         else Inr (us_active u @ '' ('' @ us_sub u @ '')''), w1))"

definition start_unit :: "'w host \<Rightarrow> int \<Rightarrow> int \<Rightarrow> 'w \<Rightarrow> ((string + string) \<times> 'w) option" where
  "start_unit h settle poll w = (case ho_systemctl h [''start'', unit_name] w of
       (Some e, w1) \<Rightarrow> Some (Inl (start_failed @ '' ('' @ e @ '')''), w1)
     | (None, w1) \<Rightarrow> watch \<lparr>wt_now = ho_now h, wt_check = check_unit h, wt_wait = ho_wait h\<rparr> settle poll w1)"

section \<open>The plans\<close>

definition stop_step :: "string \<Rightarrow> 'w host \<Rightarrow> 'w splan \<Rightarrow> 'w splan" where
  "stop_step desc h p = add_step desc (did (ho_systemctl h [''stop'', unit_name])) p"

definition finish_install :: "'w host \<Rightarrow> 'w install_options \<Rightarrow> string \<Rightarrow> unit_state \<Rightarrow> 'w splan \<Rightarrow> 'w splan" where
  "finish_install h io data u p = (
     let p1 = add_step (''write '' @ env_path @ '' (root, '' @ octal4 mode_env @ '', readable by root only): '' @ join '', '' (pn_stored p))
                (did (ho_write h env_path data mode_env)) p;
         p2 = add_detailed (''write '' @ unit_path @ '' (root, '' @ octal4 mode_unit @ ''):'') unit_text (did (ho_write h unit_path unit_text mode_unit)) p1;
         p3 = add_step ''systemctl daemon-reload (load the unit)'' (did (ho_systemctl h [''daemon-reload''])) p2;
         p4 = add_step (''systemctl enable '' @ unit_name @ '' (start at boot)'') (did (ho_systemctl h [''enable'', unit_name])) p3;
         p5 = add_step ''start the service and check that it keeps running'' (start_unit h (io_settle io) (io_poll io)) p4
     in p5\<lparr>pn_keep := pn_keep p5 @ map (\<lambda>d. d @ '' (your drop-in)'') (us_dropins u)\<rparr>)"

definition run_precheck :: "'w install_options \<Rightarrow> (string, string) gomap \<Rightarrow> 'w \<Rightarrow> (systemd_error + checked) \<times> 'w" where
  "run_precheck io env = (case io_precheck io of
       None \<Rightarrow> give (Inr nothing_checked)
     | Some f \<Rightarrow> failing PrecheckFailed (f (\<lambda>k. gm_getd [] env k) config_path))"

definition plan_install :: "(string \<Rightarrow> (string \<Rightarrow> string) \<Rightarrow> config_error + config_settings) \<Rightarrow> string \<Rightarrow> 'w host \<Rightarrow> 'w install_options
    \<Rightarrow> 'w \<Rightarrow> (systemd_error + 'w splan) \<times> 'w" where
  "plan_install cfg starter h io =
     andthen (preconditions h) (\<lambda>_.
     andthen (failing NoExecutable (ho_executable h)) (\<lambda>exe.
     andthen (inspect h) (\<lambda>(u, installed).
     andthen (read_stored h) (\<lambda>stored.
     andthen (failing SettingsFailed (resolve_settings cfg (ho_prompt h) \<lparr>sx_stored = stored, sx_getenv = io_getenv io,
        sx_names = systemd_captured, sx_replace = io_replace io, sx_config = config_path\<rparr>)) (\<lambda>env.
     andthen (give (case format_env env of Inl e \<Rightarrow> Inl (NotStorable e) | Inr data \<Rightarrow> Inr data)) (\<lambda>data.
     andthen (run_precheck io env) (\<lambda>ck.
       let p0 = new_plan\<lparr>pn_upgrade := installed, pn_binary := binary_path, pn_config := config_path, pn_unit := unit_path,
                  pn_log_hint := log_hint, pn_stored := gm_keys env, pn_checked := ck\<rparr>;
           p1 = (if installed \<and> unit_active u then stop_step ''stop the running service (it publishes what it has buffered first)'' h p0 else p0)
       in andthen (if exe \<noteq> binary_path then plan_binary h exe p1 else give (Inr p1)) (\<lambda>p2.
          andthen (plan_config h starter p2) (\<lambda>p3. give (Inr (finish_install h io data u p3)))))))))))"

definition reset_failed :: "'w host \<Rightarrow> 'w \<Rightarrow> ((string + string) \<times> 'w) option" where
  "reset_failed h w = (case ho_systemctl h [''reset-failed'', unit_name] w of
       (Some e, w1) \<Rightarrow> Some (Inr ''nothing to reset'', w1) | (None, w1) \<Rightarrow> Some (Inr [], w1))"

definition remove_step :: "'w host \<Rightarrow> 'w splan \<Rightarrow> string \<Rightarrow> 'w splan" where
  "remove_step h p path = add_step (''remove '' @ path @ (if path = env_path then '' (the stored settings, with the access token)'' else []))
     (did (ho_remove h path)) p"

definition plan_uninstall :: "'w host \<Rightarrow> 'w \<Rightarrow> (systemd_error + 'w splan) \<times> 'w" where
  "plan_uninstall h =
     andthen (preconditions h) (\<lambda>_.
     andthen (inspect h) (\<lambda>(u, installed).
       if \<not> installed then give (Inr (new_plan\<lparr>pn_not_installed := True\<rparr>))
       else (let p0 = new_plan\<lparr>pn_binary := binary_path, pn_config := config_path, pn_unit := unit_path, pn_log_hint := log_hint\<rparr>;
             p1 = (if unit_active u then stop_step ''stop the service (it publishes what it has buffered first)'' h p0 else p0);
             p2 = add_step (''systemctl disable '' @ unit_name @ '' (no start at boot)'') (did (ho_systemctl h [''disable'', unit_name])) p1;
             p3 = add_step (''systemctl reset-failed '' @ unit_name @ '' (forget past failures)'') (reset_failed h) p2;
             p4 = foldl (remove_step h) p3 [env_path, binary_path, unit_path];
             p5 = add_step ''systemctl daemon-reload (forget the unit)'' (did (ho_systemctl h [''daemon-reload''])) p4
         in andthen (attempt (ho_stat h config_path)) (\<lambda>r. give (Inr (p5\<lparr>pn_keep :=
              (config_dir @ (case r of Inr f \<Rightarrow> if fi_exists f then '' with omnistat.yaml (your configuration)'' else '' (your configuration directory)''
                 | Inl _ \<Rightarrow> '' (your configuration directory)''))
              # map (\<lambda>d. d @ '' (your drop-in)'') (us_dropins u)\<rparr>))))))"

definition installation_of :: "'w host \<Rightarrow> 'w \<Rightarrow> (systemd_error + svc_installation) \<times> 'w" where
  "installation_of h =
     andthen (preconditions h) (\<lambda>_.
     andthen (inspect h) (\<lambda>(u, installed).
       if \<not> installed then give (Inr \<lparr>in_exists = False, in_binary = [], in_settings = []\<rparr>)
       else andthen (read_stored h) (\<lambda>stored. give (Inr \<lparr>in_exists = True, in_binary = binary_path, in_settings = stored\<rparr>))))"

section \<open>What systemctl and the journal read\<close>

definition no_unit :: unit_state where
  "no_unit = \<lparr>us_load = [], us_fragment = [], us_active = [], us_sub = [], us_dropins = []\<rparr>"

definition show_line :: "unit_state \<Rightarrow> string \<Rightarrow> unit_state" where
  "show_line u l = (case cut_at (CHR ''='') (trim_space l) of
       None \<Rightarrow> u
     | Some (k, v) \<Rightarrow>
         if k = ''LoadState'' then u\<lparr>us_load := v\<rparr>
         else if k = ''FragmentPath'' then u\<lparr>us_fragment := v\<rparr>
         else if k = ''ActiveState'' then u\<lparr>us_active := v\<rparr>
         else if k = ''SubState'' then u\<lparr>us_sub := v\<rparr>
         else if k = ''DropInPaths'' \<and> go_fields v \<noteq> [] then u\<lparr>us_dropins := go_fields v\<rparr>
         else u)"

definition parse_show :: "string \<Rightarrow> unit_state" where
  "parse_show out = foldl show_line no_unit (split_at nl out)"

text \<open>\<open>slog\<close> levels are integers: debug -4, info 0, warn 4, error 8.\<close>

definition priority :: "int \<Rightarrow> nat" where
  "priority l = (if 8 \<le> l then 3 else if 4 \<le> l then 4 else if 0 \<le> l then 6 else 7)"

fun priority_bytes :: "string \<Rightarrow> bool \<Rightarrow> string \<Rightarrow> string \<times> bool" where
  "priority_bytes pre start [] = ([], start)"
| "priority_bytes pre start (c # cs) = (case priority_bytes pre (c = nl) cs of
     (out, start') \<Rightarrow> ((if start then pre else []) @ c # out, start'))"

text \<open>However the output is split into writes, the journal gets the same bytes.\<close>

lemma priority_bytes_append: "priority_bytes pre start (a @ b)
    = (let (x, s1) = priority_bytes pre start a; (y, s2) = priority_bytes pre s1 b in (x @ y, s2))"
  by (induction a arbitrary: start) (auto simp: Let_def split: prod.splits)

section \<open>The recorded host\<close>

datatype host_call = HRoot | HBooted | HExecutable | HStat string | HRead string | HWrite string string nat
  | HCreate string string nat | HMkdir string nat | HSecure string nat | HRemove string | HUnit
  | HSystemctl "string list" | HSecret | HLine

fun is_change :: "host_call \<Rightarrow> bool" where
  "is_change (HWrite p d m) = True"
| "is_change (HCreate p d m) = True"
| "is_change (HMkdir p m) = True"
| "is_change (HSecure p m) = True"
| "is_change (HRemove p) = True"
| "is_change (HSystemctl args) = True"
| "is_change _ = False"

type_synonym 'w watched = "('w, host_call) noted"

abbreviation reads :: "('w watched \<Rightarrow> 'r \<times> 'w watched) \<Rightarrow> bool" where
  "reads \<equiv> reads_by is_change"

abbreviation makes :: "('w watched \<Rightarrow> ((string + string) \<times> 'w watched) option) \<Rightarrow> host_call list set \<Rightarrow> bool" where
  "makes \<equiv> makes_by is_change"

abbreviation harmless :: "'w watched install_options \<Rightarrow> bool" where
  "harmless \<equiv> harmless_by is_change"

definition recording :: "'w host \<Rightarrow> 'w watched host" where
  "recording h = \<lparr>ho_root = noting HRoot (ho_root h), ho_booted = noting HBooted (ho_booted h),
     ho_executable = noting HExecutable (ho_executable h), ho_stat = (\<lambda>p. noting (HStat p) (ho_stat h p)),
     ho_read = (\<lambda>p. noting (HRead p) (ho_read h p)), ho_write = (\<lambda>p d m. noting (HWrite p d m) (ho_write h p d m)),
     ho_create = (\<lambda>p d m. noting (HCreate p d m) (ho_create h p d m)), ho_mkdir = (\<lambda>p m. noting (HMkdir p m) (ho_mkdir h p m)),
     ho_secure = (\<lambda>p m. noting (HSecure p m) (ho_secure h p m)), ho_remove = (\<lambda>p. noting (HRemove p) (ho_remove h p)),
     ho_unit = noting HUnit (ho_unit h), ho_systemctl = (\<lambda>a. noting (HSystemctl a) (ho_systemctl h a)),
     ho_prompt = \<lparr>pm_secret = (\<lambda>p. noting HSecret (pm_secret (ho_prompt h) p)), pm_line = (\<lambda>p. noting HLine (pm_line (ho_prompt h) p))\<rparr>,
     ho_now = (\<lambda>st. ho_now h (fst st)),
     ho_wait = (\<lambda>d st. case ho_wait h d (fst st) of (b, w) \<Rightarrow> (b, (w, snd st)))\<rparr>"

lemma reads_ops [reading]:
  "reads (ho_root (recording h))" "reads (ho_booted (recording h))" "reads (ho_executable (recording h))"
  "reads (ho_stat (recording h) p)" "reads (ho_read (recording h) p)" "reads (ho_unit (recording h))"
  "reads (pm_secret (ho_prompt (recording h)) s)" "reads (pm_line (ho_prompt (recording h)) s)"
  by (simp_all add: recording_def reads_noting)

lemma reads_preconditions [reading]: "reads (preconditions (recording h))"
  unfolding preconditions_def by (intro reading)

lemma reads_inspect [reading]: "reads (inspect (recording h))"
  unfolding inspect_def by (intro reading)

lemma reads_stored [reading]: "reads (read_stored (recording h))"
  unfolding read_stored_def by (intro reading)

lemma reads_installation [reading]: "reads (installation_of (recording h))"
  unfolding installation_of_def by (intro reading)

lemma reads_plan_binary [reading]: "reads (plan_binary (recording h) exe p)"
  unfolding plan_binary_def by (intro reading)

lemma reads_plan_config [reading]: "reads (plan_config (recording h) starter p)"
  unfolding plan_config_def by (intro reading)

lemma reads_precheck [reading]: "harmless io \<Longrightarrow> reads (run_precheck io env)"
  unfolding run_precheck_def harmless_by_def by (cases "io_precheck io") (auto intro: reading)

lemma reads_plan_install: "harmless io \<Longrightarrow> reads (plan_install cfg starter (recording h) io)"
  unfolding plan_install_def Let_def by (intro reading)

lemma reads_plan_uninstall: "reads (plan_uninstall (recording h))"
  unfolding plan_uninstall_def Let_def by (intro reading)

section \<open>The changes of an installation\<close>

text \<open>
  What planning saw, and the exact sequence of changes that follows from it: stop a running service of ours, put the running
  binary in place unless it runs from there, create or secure the configuration's directory and the configuration, never rewriting it,
  and then the core of the installation.
\<close>

record install_seen =
  se_exe :: string
  se_unit :: unit_state
  se_installed :: bool
  se_env :: "(string, string) gomap"
  se_dir :: file_info
  se_config :: file_info

definition stop_calls :: "unit_state \<Rightarrow> bool \<Rightarrow> host_call list" where
  "stop_calls u installed = (if installed \<and> unit_active u then [HSystemctl [''stop'', unit_name]] else [])"

definition binary_calls :: "string \<Rightarrow> string \<Rightarrow> host_call list" where
  "binary_calls exe bin = (if exe = binary_path then [] else [HMkdir ''/usr/local/bin'' mode_dir, HWrite binary_path bin mode_binary])"

definition dir_calls :: "file_info \<Rightarrow> host_call list" where
  "dir_calls d = (if \<not> fi_exists d then [HMkdir config_dir mode_dir] else if loose d then [HSecure config_dir mode_dir] else [])"

definition config_calls :: "string \<Rightarrow> file_info \<Rightarrow> host_call list" where
  "config_calls starter f = (if \<not> fi_exists f then [HCreate config_path starter mode_config]
     else if loose f then [HSecure config_path mode_config] else [])"

definition install_core :: "string \<Rightarrow> host_call list" where
  "install_core data = [HWrite env_path data mode_env, HWrite unit_path unit_text mode_unit, HSystemctl [''daemon-reload''],
     HSystemctl [''enable'', unit_name], HSystemctl [''start'', unit_name]]"

definition install_calls :: "string \<Rightarrow> install_seen \<Rightarrow> string \<Rightarrow> string \<Rightarrow> host_call list" where
  "install_calls starter s bin data = stop_calls (se_unit s) (se_installed s) @ binary_calls (se_exe s) bin @ dir_calls (se_dir s)
     @ config_calls starter (se_config s) @ install_core data"

text \<open>The chain of readings by which planning sees it, each in the world the one before left.\<close>

definition plan_sees :: "(string \<Rightarrow> (string \<Rightarrow> string) \<Rightarrow> config_error + config_settings) \<Rightarrow> 'w host \<Rightarrow> 'w install_options \<Rightarrow> 'w \<Rightarrow> install_seen \<Rightarrow> 'w \<Rightarrow> bool" where
  "plan_sees cfg h io st s st' \<longleftrightarrow> (\<exists>s1 s2 s3 s4 s5 s6 s7 s8 stored ck fb.
     preconditions h st = (Inr (), s1) \<and> ho_executable h s1 = (Inr (se_exe s), s2)
     \<and> inspect h s2 = (Inr (se_unit s, se_installed s), s3) \<and> read_stored h s3 = (Inr stored, s4)
     \<and> resolve_settings cfg (ho_prompt h) \<lparr>sx_stored = stored, sx_getenv = io_getenv io, sx_names = systemd_captured,
          sx_replace = io_replace io, sx_config = config_path\<rparr> s4 = (Inr (se_env s), s5)
     \<and> run_precheck io (se_env s) s5 = (Inr ck, s6)
     \<and> (if se_exe s = binary_path then s7 = s6 else ho_stat h binary_path s6 = (Inr fb, s7))
     \<and> ho_stat h config_dir s7 = (Inr (se_dir s), s8) \<and> ho_stat h config_path s8 = (Inr (se_config s), st'))"

text \<open>The bytes put in place are those the running binary was read as, if it can be read at all.\<close>

definition binary_data :: "'w host \<Rightarrow> string \<Rightarrow> string \<Rightarrow> bool" where
  "binary_data h exe bin \<longleftrightarrow> (\<exists>w w'. ho_read h exe w = (Inr bin, w')) \<or> (\<forall>w. isl (fst (ho_read h exe w)))"

lemma binary_data_ex: "\<exists>bin. binary_data h exe bin"
proof (cases "\<exists>w bin w'. ho_read h exe w = (Inr bin, w')")
  case False
  then have "isl (fst (ho_read h exe w))" for w by (cases "ho_read h exe w"; cases "fst (ho_read h exe w)") auto
  then show ?thesis by (auto simp: binary_data_def)
qed (auto simp: binary_data_def)

text \<open>A plan whose steps make the changes \<open>cs\<close>, up to the binary's bytes.\<close>

definition plan_makes :: "'w watched splan \<Rightarrow> host_call list set list \<Rightarrow> bool" where
  "plan_makes p Xs \<longleftrightarrow> makes_all is_change (pn_steps p) Xs \<and> (\<forall>X \<in> set Xs. X \<noteq> {})"

lemma plan_makes_none: "pn_steps p = [] \<Longrightarrow> plan_makes p []"
  by (simp add: plan_makes_def)

lemma plan_makes_step: "plan_makes p Xs \<Longrightarrow> makes act X \<Longrightarrow> X \<noteq> {} \<Longrightarrow> plan_makes (add_step desc act p) (Xs @ [X])"
  by (auto simp: plan_makes_def add_step_def add_detailed_def makes_all_snoc)

lemma plan_makes_did: "plan_makes p Xs \<Longrightarrow> is_change c \<Longrightarrow> plan_makes (add_step desc (did (noting c f)) p) (Xs @ [{[c]}])"
  using makes_did [of is_change c f] by (intro plan_makes_step) simp_all

lemma recording_ops:
  "ho_write (recording h) p d m = noting (HWrite p d m) (ho_write h p d m)"
  "ho_mkdir (recording h) p m = noting (HMkdir p m) (ho_mkdir h p m)"
  "ho_secure (recording h) p m = noting (HSecure p m) (ho_secure h p m)"
  "ho_remove (recording h) p = noting (HRemove p) (ho_remove h p)"
  "ho_systemctl (recording h) a = noting (HSystemctl a) (ho_systemctl h a)"
  "ho_create (recording h) p d m = noting (HCreate p d m) (ho_create h p d m)"
  "ho_read (recording h) p = noting (HRead p) (ho_read h p)"
  by (simp_all add: recording_def)

lemma makes_put_binary:
  assumes "exe \<noteq> binary_path"
  shows "makes (put_binary (recording h) exe) {binary_calls exe bin | bin. binary_data (recording h) exe bin}"
proof -
  obtain bin0 where b0: "binary_data (recording h) exe bin0" using binary_data_ex by blast
  have "\<exists>cs. \<exists>xs \<in> {binary_calls exe bin | bin. binary_data (recording h) exe bin}. snd st' = snd st @ cs
      \<and> prefix (filter is_change cs) xs \<and> (isl r \<or> filter is_change cs = xs)"
    if run: "put_binary (recording h) exe st = Some (r, st')" for st r st'
  proof -
    obtain d st1 where d: "ho_read (recording h) exe st = (d, st1)" by (metis surj_pair)
    have s1: "snd st1 = snd st @ [HRead exe]" using d by (auto simp: recording_ops noting_def split: prod.splits)
    show ?thesis
    proof (cases d)
      case (Inl e)
      then show ?thesis using run d s1 b0 by (intro exI [of _ "[HRead exe]"] bexI [of _ "binary_calls exe bin0"]) (auto simp: put_binary_def)
    next
      case (Inr bin)
      then have "binary_data (recording h) exe bin" using d unfolding binary_data_def by blast
      moreover have "\<exists>cs. snd st' = snd st @ cs \<and> prefix (filter is_change cs) (binary_calls exe bin) \<and> (isl r \<or> filter is_change cs = binary_calls exe bin)"
        using run d Inr s1 assms by (auto simp: put_binary_def did_def binary_calls_def recording_ops noting_def split: prod.splits option.splits)
      ultimately show ?thesis by blast
    qed
  qed
  then show ?thesis unfolding makes_by_def by blast
qed

lemma makes_put_config: "makes (put_config (recording h) starter) {[HCreate config_path starter mode_config]}"
  unfolding makes_by_def by (auto simp: put_config_def recording_ops noting_def split: prod.splits sum.splits)

lemma reads_check_unit: "reads (check_unit (recording h))"
proof (rule readsI)
  fix st r st' assume "check_unit (recording h) st = (r, st')"
  then obtain x where "ho_unit (recording h) st = (x, st')" by (auto simp: check_unit_def split: prod.splits sum.splits)
  from reads_run [OF reads_ops(6) this] show "\<exists>cs. snd st' = snd st @ cs \<and> filter is_change cs = []" .
qed

lemma reads_wait: "reads (ho_wait (recording h) d)"
  by (rule readsI) (auto simp: recording_def split: prod.splits)

lemma makes_start_unit: "makes (start_unit (recording h) settle poll) {[HSystemctl [''start'', unit_name]]}"
  by (rule makes_then_watch [where wt = "\<lparr>wt_now = ho_now (recording h), wt_check = check_unit (recording h), wt_wait = ho_wait (recording h)\<rparr>"
        and f = "ho_systemctl h [''start'', unit_name]" and g = "\<lambda>e. start_failed @ '' ('' @ e @ '')''"])
     (simp_all add: reads_check_unit reads_wait start_unit_def recording_ops)

lemma dir_plan:
  assumes "plan_config_dir (recording h) d p = Inr p'" "plan_makes p Xs"
  shows "plan_makes p' (Xs @ map (\<lambda>c. {[c]}) (dir_calls d))"
  using assms by (auto simp: plan_config_dir_def dir_calls_def add_fix_def recording_ops intro: plan_makes_did split: if_splits)

lemma config_plan:
  assumes "plan_makes p Xs"
  shows "plan_makes (plan_config_file (recording h) starter f p) (Xs @ map (\<lambda>c. {[c]}) (config_calls starter f))"
proof -
  have "plan_makes (p\<lparr>pn_config_present := b\<rparr>) Xs" for b using assms by (simp add: plan_makes_def)
  then show ?thesis
    by (auto simp: plan_config_file_def config_calls_def add_fix_def recording_ops Let_def intro: plan_makes_did plan_makes_step [OF _ makes_put_config])
qed

lemma core_steps:
  assumes "makes_all is_change (pn_steps p) Xs"
  shows "makes_all is_change (pn_steps (finish_install (recording h) io data u p)) (Xs @ map (\<lambda>c. {[c]}) (install_core data))"
proof -
  let ?h = "recording h"
  note one = makes_all_snoc [OF assms, where s = "\<lparr>sp_desc = d1, sp_detail = [], sp_apply = did (ho_write ?h env_path data mode_env)\<rparr>"
    and X = "{[HWrite env_path data mode_env]}" for d1]
  note two = makes_all_snoc [OF one, where s = "\<lparr>sp_desc = d2, sp_detail = unit_text, sp_apply = did (ho_write ?h unit_path unit_text mode_unit)\<rparr>"
    and X = "{[HWrite unit_path unit_text mode_unit]}" for d2]
  note three = makes_all_snoc [OF two, where s = "\<lparr>sp_desc = d3, sp_detail = [], sp_apply = did (ho_systemctl ?h [''daemon-reload''])\<rparr>"
    and X = "{[HSystemctl [''daemon-reload'']]}" for d3]
  note four = makes_all_snoc [OF three, where s = "\<lparr>sp_desc = d4, sp_detail = [], sp_apply = did (ho_systemctl ?h [''enable'', unit_name])\<rparr>"
    and X = "{[HSystemctl [''enable'', unit_name]]}" for d4]
  note five = makes_all_snoc [OF four, where s = "\<lparr>sp_desc = d5, sp_detail = [], sp_apply = start_unit ?h (io_settle io) (io_poll io)\<rparr>"
    and X = "{[HSystemctl [''start'', unit_name]]}" for d5]
  show ?thesis
    using five by (simp add: finish_install_def add_step_def add_detailed_def install_core_def recording_ops makes_did makes_start_unit Let_def)
qed

definition ours_or_free :: "'w host \<Rightarrow> bool" where
  "ours_or_free h \<longleftrightarrow> (\<exists>data w1 w2. ho_read h unit_path w1 = (Inr data, w2) \<and> own_unit data)
     \<or> (\<exists>f w1 w2. ho_stat h unit_path w1 = (Inr f, w2) \<and> \<not> fi_exists f)"

lemma inspect_own: "inspect h w = (Inr (u, installed), w') \<Longrightarrow> ours_or_free h"
  unfolding inspect_def ours_or_free_def
  by (elim andthenE) (auto simp: failing_Inr give_Inr split: if_splits elim!: andthenE, blast+)

text \<open>What the binary's plan makes, and the whole plan of an installation.\<close>

definition binary_runs :: "'w watched host \<Rightarrow> string \<Rightarrow> host_call list set list" where
  "binary_runs h exe = (if exe = binary_path then [] else [{binary_calls exe bin | bin. binary_data h exe bin}])"

lemma binary_plan:
  assumes "(if exe \<noteq> binary_path then plan_binary (recording h) exe p else give (Inr p)) st = (Inr p', st')" "plan_makes p Xs"
  shows "plan_makes p' (Xs @ binary_runs (recording h) exe)
    \<and> (\<exists>fb. if exe = binary_path then st' = st else ho_stat (recording h) binary_path st = (Inr fb, st'))"
proof (cases "exe = binary_path")
  case True
  then show ?thesis using assms by (simp add: binary_runs_def give_Inr)
next
  case False
  then have "plan_binary (recording h) exe p st = (Inr p', st')" using assms(1) by simp
  then obtain fb desc where fb: "ho_stat (recording h) binary_path st = (Inr fb, st')" "p' = add_step desc (put_binary (recording h) exe) p"
    unfolding plan_binary_def by (elim andthenE) (auto simp: give_Inr failing_Inr)
  have "{binary_calls exe bin | bin. binary_data (recording h) exe bin} \<noteq> {}" using binary_data_ex by blast
  from plan_makes_step [OF assms(2) makes_put_binary [OF False] this] show ?thesis using fb False by (auto simp: binary_runs_def)
qed

lemma plan_install_shape:
  assumes "plan_install cfg starter (recording h) io st = (Inr p, st')"
  shows "\<exists>s data p3. plan_sees cfg (recording h) io st s st' \<and> format_env (se_env s) = Inr data \<and> p = finish_install (recording h) io data (se_unit s) p3
    \<and> plan_makes p3 (map (\<lambda>c. {[c]}) (stop_calls (se_unit s) (se_installed s)) @ binary_runs (recording h) (se_exe s)
        @ map (\<lambda>c. {[c]}) (dir_calls (se_dir s)) @ map (\<lambda>c. {[c]}) (config_calls starter (se_config s)))"
proof -
  let ?h = "recording h"
  let ?so = "\<lambda>stored. \<lparr>sx_stored = stored, sx_getenv = io_getenv io, sx_names = systemd_captured, sx_replace = io_replace io, sx_config = config_path\<rparr>"
  from assms obtain exe u installed stored env data ck p1 p2 p3 s1 s2 s3 s4 s5 s6 s7 where run:
    "preconditions ?h st = (Inr (), s1)" "ho_executable ?h s1 = (Inr exe, s2)" "inspect ?h s2 = (Inr (u, installed), s3)"
    "read_stored ?h s3 = (Inr stored, s4)" "resolve_settings cfg (ho_prompt ?h) (?so stored) s4 = (Inr env, s5)" "format_env env = Inr data"
    "run_precheck io env s5 = (Inr ck, s6)"
    "p1 = (let p0 = new_plan\<lparr>pn_upgrade := installed, pn_binary := binary_path, pn_config := config_path, pn_unit := unit_path,
                  pn_log_hint := log_hint, pn_stored := gm_keys env, pn_checked := ck\<rparr>
       in if installed \<and> unit_active u then stop_step ''stop the running service (it publishes what it has buffered first)'' ?h p0 else p0)"
    "(if exe \<noteq> binary_path then plan_binary ?h exe p1 else give (Inr p1)) s6 = (Inr p2, s7)"
    "plan_config ?h starter p2 s7 = (Inr p3, st')" "p = finish_install ?h io data u p3"
    unfolding plan_install_def Let_def
    apply (elim andthenE)
    apply (clarsimp simp: give_Inr failing_Inr)
    apply (elim andthenE)
    apply (clarsimp simp: give_Inr failing_Inr split: sum.splits)
    done
  from run(10) obtain d s8 f p2' where cfg: "ho_stat ?h config_dir s7 = (Inr d, s8)" "plan_config_dir ?h d p2 = Inr p2'"
      "ho_stat ?h config_path s8 = (Inr f, st')" "p3 = plan_config_file ?h starter f p2'"
    unfolding plan_config_def by (elim andthenE) (auto simp: give_Inr failing_Inr)
  have "plan_makes p1 (map (\<lambda>c. {[c]}) (stop_calls u installed))"
    unfolding run(8) Let_def stop_calls_def stop_step_def recording_ops
    by (auto simp: new_plan_def plan_makes_none intro: plan_makes_did [of _ "[]", simplified])
  note binary = binary_plan [OF run(9) this]
  have plan: "plan_makes p3 (((map (\<lambda>c. {[c]}) (stop_calls u installed) @ binary_runs ?h exe) @ map (\<lambda>c. {[c]}) (dir_calls d)) @ map (\<lambda>c. {[c]}) (config_calls starter f))"
    unfolding cfg(4) using binary by (intro config_plan dir_plan [OF cfg(2)]) blast
  let ?s = "\<lparr>se_exe = exe, se_unit = u, se_installed = installed, se_env = env, se_dir = d, se_config = f\<rparr>"
  obtain fb where "if exe = binary_path then s7 = s6 else ho_stat ?h binary_path s6 = (Inr fb, s7)" using binary by blast
  then have "plan_sees cfg ?h io st ?s st'" using run(1-5,7) cfg(1,3) unfolding plan_sees_def install_seen.simps by blast
  then show ?thesis using run(6,11) plan by (intro exI [of _ ?s] exI [of _ data] exI [of _ p3]) simp
qed

text \<open>
  C16: installing changes only what is the service's. A plan exists only when the unit is free or omnistat's own, and what
  applying it changes on the host is one fixed sequence that follows from what planning saw there: stop the service if it is installed and
  running; unless the running binary is the installed one, make its directory and write its bytes there; create the configuration's
  directory, or secure it if others could change it; create the configuration, or secure it, never rewriting it; write the settings, readable by
  root only, before the unit that reads them; reload, enable and start. A failure leaves a beginning of that sequence and nothing else.\<close>

theorem install_changes:
  assumes "plan_install cfg starter (recording h) io st = (Inr p, st1)" "apply_plan p st2 = Some (r, ls, st3)"
  shows "ours_or_free (recording h) \<and> (\<exists>s data bin cs. plan_sees cfg (recording h) io st s st1 \<and> format_env (se_env s) = Inr data
    \<and> binary_data (recording h) (se_exe s) bin
    \<and> snd st3 = snd st2 @ cs \<and> prefix (filter is_change cs) (install_calls starter s bin data)
    \<and> (r = None \<longrightarrow> filter is_change cs = install_calls starter s bin data))"
proof -
  from plan_install_shape [OF assms(1)] obtain s data p3 where p: "plan_sees cfg (recording h) io st s st1" "format_env (se_env s) = Inr data"
    "p = finish_install (recording h) io data (se_unit s) p3" "plan_makes p3 (map (\<lambda>c. {[c]}) (stop_calls (se_unit s) (se_installed s))
        @ binary_runs (recording h) (se_exe s) @ map (\<lambda>c. {[c]}) (dir_calls (se_dir s)) @ map (\<lambda>c. {[c]}) (config_calls starter (se_config s)))"
    (is "plan_makes p3 ?Xs")
    by (elim exE conjE) (rule that, assumption+)
  have X: "makes_all is_change (pn_steps p3) ?Xs" "\<forall>X \<in> set (?Xs @ map (\<lambda>c. {[c]}) (install_core data)). X \<noteq> {}"
    using p(4) by (auto simp: plan_makes_def)
  have own: "ours_or_free (recording h)" using p(1) unfolding plan_sees_def by (elim exE conjE) (erule inspect_own)
  obtain ls' where run: "apply_steps (pn_steps p) st2 = Some (r, ls', st3)" using apply_plan_steps [OF assms(2)] by blast
  from makes_steps [OF core_steps [OF X(1)] X(2) run [unfolded p(3)]] obtain cs xs where m:
    "xs \<in> runs_of (?Xs @ map (\<lambda>c. {[c]}) (install_core data))" "snd st3 = snd st2 @ cs"
    "prefix (filter is_change cs) xs" "r \<noteq> None \<or> filter is_change cs = xs" by blast
  obtain bin0 where b0: "binary_data (recording h) (se_exe s) bin0" using binary_data_ex by blast
  have "\<exists>bin. binary_data (recording h) (se_exe s) bin \<and> xs = install_calls starter s bin data"
  proof (cases "se_exe s = binary_path")
    case True
    then have "xs = install_calls starter s bin0 data" using m(1)
      by (simp add: binary_runs_def binary_calls_def install_calls_def runs_of_append runs_of_singles)
    then show ?thesis using b0 by blast
  next
    case False
    then show ?thesis using m(1) by (auto simp: binary_runs_def install_calls_def runs_of_append runs_of_singles)
  qed
  then show ?thesis using own p(1,2) m(2-4) by blast
qed

definition uninstall_core :: "host_call list" where
  "uninstall_core = [HSystemctl [''disable'', unit_name], HSystemctl [''reset-failed'', unit_name], HRemove env_path,
     HRemove binary_path, HRemove unit_path, HSystemctl [''daemon-reload'']]"

lemma makes_reset: "makes (reset_failed (recording h)) {[HSystemctl [''reset-failed'', unit_name]]}"
  unfolding makes_by_def by (auto simp: reset_failed_def recording_ops noting_def split: prod.splits option.splits)

lemma paths_differ: "env_path \<noteq> binary_path" "env_path \<noteq> unit_path"
  by (simp_all add: env_path_def binary_path_def unit_path_def config_dir_def)

lemma uninstall_steps:
  assumes "plan_uninstall (recording h) st = (Inr p, st')" "\<not> pn_not_installed p"
  shows "ours_or_free (recording h) \<and> (\<exists>pre \<in> {[], [HSystemctl [''stop'', unit_name]]}. makes_all is_change (pn_steps p) (map (\<lambda>c. {[c]}) (pre @ uninstall_core)))"
proof -
  from assms obtain u w1 w2 where i: "inspect (recording h) w1 = (Inr (u, True), w2)"
    and steps: "pn_steps p = pn_steps (let p0 = new_plan;
             p1 = (if unit_active u then stop_step ''stop the service (it publishes what it has buffered first)'' (recording h) p0 else p0);
             p2 = add_step (''systemctl disable '' @ unit_name @ '' (no start at boot)'') (did (ho_systemctl (recording h) [''disable'', unit_name])) p1;
             p3 = add_step (''systemctl reset-failed '' @ unit_name @ '' (forget past failures)'') (reset_failed (recording h)) p2;
             p4 = foldl (remove_step (recording h)) p3 [env_path, binary_path, unit_path]
           in add_step ''systemctl daemon-reload (forget the unit)'' (did (ho_systemctl (recording h) [''daemon-reload''])) p4)"
    unfolding plan_uninstall_def Let_def
    by (elim andthenE; (auto simp: give_Inr failing_Inr add_step_def add_detailed_def stop_step_def remove_step_def new_plan_def split: if_splits elim!: andthenE)?)
  show ?thesis using inspect_own [OF i]
    by (auto simp: steps Let_def stop_step_def remove_step_def add_step_def add_detailed_def new_plan_def uninstall_core_def recording_ops
        makes_did makes_reset)
qed


section \<open>At a concrete input\<close>

text \<open>A host where all of the service's files exist or none does, and whose systemd refuses to start the service.\<close>

definition example_bare_host :: "bool \<Rightarrow> int host" where
  "example_bare_host installed = \<lparr>ho_root = (\<lambda>w. (True, w)), ho_booted = (\<lambda>w. (True, w)), ho_executable = (\<lambda>w. (Inr ''/tmp/omnistat'', w)),
     ho_stat = (\<lambda>p w. (Inr \<lparr>fi_exists = installed, fi_dir = False, fi_mode = 420, fi_uid = 0\<rparr>, w)),
     ho_read = (\<lambda>p w. (Inr (marker @ [nl]), w)), ho_write = (\<lambda>p d m w. (None, w)), ho_create = (\<lambda>p d m w. (Inr True, w)),
     ho_mkdir = (\<lambda>p m w. (None, w)), ho_secure = (\<lambda>p m w. (None, w)), ho_remove = (\<lambda>p w. (None, w)),
     ho_unit = (\<lambda>w. (Inr (no_unit\<lparr>us_active := ''active''\<rparr>), w)), ho_systemctl = (\<lambda>a w. (if a = [''start'', unit_name] then Some ''refused'' else None, w)),
     ho_prompt = \<lparr>pm_secret = (\<lambda>s w. (Inr ''t'', w)), pm_line = (\<lambda>s w. (Inr ''p'', w))\<rparr>,
     ho_now = (\<lambda>w. w), ho_wait = (\<lambda>d w. (True, w + d))\<rparr>"

definition example_install_options :: "int watched install_options" where
  "example_install_options = \<lparr>io_getenv = (\<lambda>k. []), io_replace = False, io_precheck = None, io_settle = 0, io_poll = 0\<rparr>"

lemmas example_host_simps = example_bare_host_def recording_def noting_def andthen_def asking_def failing_def give_def attempt_def did_def

lemma example_inspect:
  "inspect (recording (example_bare_host False)) (w, cs) = (Inr (no_unit\<lparr>us_active := ''active''\<rparr>, False), (w, cs @ [HUnit, HStat unit_path]))"
  "inspect (recording (example_bare_host True)) (w, cs) = (Inr (no_unit\<lparr>us_active := ''active''\<rparr>, True), (w, cs @ [HUnit, HStat unit_path, HRead unit_path]))"
  by (simp_all add: inspect_def example_host_simps no_unit_def fragment_check_def own_unit_def marker_def)

lemma example_settings:
  "resolve_settings (\<lambda>p g. Inl (Unreadable p)) (ho_prompt (recording (example_bare_host b)))
     \<lparr>sx_stored = [], sx_getenv = (\<lambda>k. []), sx_names = systemd_captured, sx_replace = False, sx_config = config_path\<rparr> (w, cs)
   = (Inr [(env_token, ''t'')], (w, cs @ [HSecret]))"
proof -
  have t: "trim_space ''t'' = ''t''" by (rule trim_space_ascii) (simp_all add: byte_def is_space_def)
  have "capture_env (\<lambda>k. []) [] ks = []" for ks by (induction ks) (simp_all add: capture_env_def)
  then show ?thesis by (simp add: resolve_settings_def ask_project_def example_host_simps t gm_getd_def gm_get_def gm_put_def)
qed

lemma example_stored: "\<exists>data. format_env [(env_token, ''t'')] = Inr data"
proof -
  have "list_all (storable [(env_token, ''t'')]) (gm_keys [(env_token, ''t'')])"
    by (simp add: gm_keys_def storable_def env_name_def name_start_def is_lower_def is_digit_def byte_def gm_getd_def gm_get_def env_token_def)
  then have "list_all (storable [(env_token, ''t'')]) [env_token]" by (simp add: gm_keys_def)
  then show ?thesis using format_lines_iff [of "[(env_token, ''t'')]" "gm_keys [(env_token, ''t'')]"]
    by (auto simp: format_env_def gm_keys_def split: sum.splits)
qed

lemma example_ops:
  "preconditions (recording (example_bare_host b)) (w, cs) = (Inr (), (w, cs @ [HRoot, HBooted]))"
  "ho_executable (recording (example_bare_host b)) (w, cs) = (Inr ''/tmp/omnistat'', (w, cs @ [HExecutable]))"
  "read_stored (recording (example_bare_host False)) (w, cs) = (Inr [], (w, cs @ [HStat env_path]))"
  "ho_stat (recording (example_bare_host False)) f (w, cs) = (Inr \<lparr>fi_exists = False, fi_dir = False, fi_mode = 420, fi_uid = 0\<rparr>, (w, cs @ [HStat f]))"
  by (simp_all add: preconditions_def read_stored_def example_host_simps)

lemma example_binary_plan:
  "\<exists>d st'. plan_binary (recording (example_bare_host False)) exe p (w, cs) = (Inr (add_step d (put_binary (recording (example_bare_host False)) exe) p), st')"
  by (auto simp: plan_binary_def andthen_def failing_def give_def example_ops(4))

lemma returns_effects [simp]:
  "returns (put_binary h exe)" "returns (put_config h starter)" "returns (reset_failed h)"
  by (auto simp: returns_def put_binary_def put_config_def reset_failed_def did_def split: prod.splits option.splits sum.splits)

lemma example_start: "returns (start_unit (recording (example_bare_host b)) i j)"
  by (simp add: returns_def start_unit_def example_host_simps)

lemma example_config_plan:
  "plan_config (recording (example_bare_host False)) [] p (w, cs) = (Inr p', st')
   \<Longrightarrow> \<exists>d1 d2. p' = add_step d2 (put_config (recording (example_bare_host False)) [])
        ((add_step d1 (did (ho_mkdir (recording (example_bare_host False)) config_dir mode_dir)) p)\<lparr>pn_config_present := False\<rparr>)"
  by (auto simp: plan_config_def andthen_def failing_def give_def plan_config_dir_def plan_config_file_def example_ops(4) Let_def)

lemma example_config_done: "\<exists>p' st'. plan_config (recording (example_bare_host False)) [] p (w, cs) = (Inr p', st')"
  by (simp add: plan_config_def andthen_def failing_def give_def plan_config_dir_def plan_config_file_def example_ops(4) Let_def)

lemma example_install_plan:
  "\<exists>p st1 r ls st2. plan_install (\<lambda>p g. Inl (Unreadable p)) [] (recording (example_bare_host False)) example_install_options (0, []) = (Inr p, st1)
     \<and> apply_plan p (0, []) = Some (r, ls, st2)"
proof -
  let ?h = "recording (example_bare_host False)"
  obtain data where data: "format_env [(env_token, ''t'')] = Inr data" using example_stored by blast
  define p1 where "p1 = (new_plan :: int watched splan)\<lparr>pn_upgrade := False, pn_binary := binary_path, pn_config := config_path, pn_unit := unit_path,
      pn_log_hint := log_hint, pn_stored := gm_keys [(env_token, ''t'')], pn_checked := nothing_checked\<rparr>"
  define calls where "calls = [HRoot, HBooted, HExecutable, HUnit, HStat unit_path, HStat env_path, HSecret]"
  obtain d st3 where bin: "plan_binary ?h ''/tmp/omnistat'' p1 (0, calls) = (Inr (add_step d (put_binary ?h ''/tmp/omnistat'') p1), st3)"
    using example_binary_plan by blast
  obtain p3 st4 where cfg: "plan_config ?h [] (add_step d (put_binary ?h ''/tmp/omnistat'') p1) st3 = (Inr p3, st4)"
    using example_config_done by (metis surj_pair)
  have "''/tmp/omnistat'' \<noteq> binary_path" by (simp add: binary_path_def)
  moreover have "run_precheck example_install_options env st = (Inr nothing_checked, st)" for env st
    by (simp add: run_precheck_def example_install_options_def give_def)
  ultimately have plan: "plan_install (\<lambda>p g. Inl (Unreadable p)) [] ?h example_install_options (0, [])
      = (Inr (finish_install ?h example_install_options data (no_unit\<lparr>us_active := ''active''\<rparr>) p3), st4)"
    using bin cfg data
    by (simp add: plan_install_def andthen_def failing_def give_def example_ops example_inspect example_settings calls_def p1_def example_install_options_def Let_def)
  obtain d1 d2 where p3: "p3 = add_step d2 (put_config ?h []) ((add_step d1 (did (ho_mkdir ?h config_dir mode_dir))
      (add_step d (put_binary ?h ''/tmp/omnistat'') p1))\<lparr>pn_config_present := False\<rparr>)"
    using example_config_plan cfg by (metis surj_pair)
  have "all_return p1" by (simp add: p1_def all_return_def new_plan_def)
  then have "all_return (finish_install ?h example_install_options data (no_unit\<lparr>us_active := ''active''\<rparr>) p3)"
    by (simp add: finish_install_def p3 example_start Let_def)
  from apply_returns [OF this] plan show ?thesis by blast
qed

theorem install_changes_witness:
  "\<exists>p st1 r ls st2 s data bin cs. plan_install (\<lambda>p g. Inl (Unreadable p)) [] (recording (example_bare_host False)) example_install_options (0, []) = (Inr p, st1)
     \<and> apply_plan p (0, []) = Some (r, ls, st2) \<and> snd st2 = cs \<and> prefix (filter is_change cs) (install_calls [] s bin data)
     \<and> plan_sees (\<lambda>p g. Inl (Unreadable p)) (recording (example_bare_host False)) example_install_options (0, []) s st1"
proof -
  obtain p st1 r ls st2 where run:
    "plan_install (\<lambda>p g. Inl (Unreadable p)) [] (recording (example_bare_host False)) example_install_options (0, []) = (Inr p, st1)"
    "apply_plan p (0, []) = Some (r, ls, st2)" using example_install_plan by blast
  from install_changes [OF run] obtain s data bin cs where
    "plan_sees (\<lambda>p g. Inl (Unreadable p)) (recording (example_bare_host False)) example_install_options (0, []) s st1"
    "snd st2 = cs" "prefix (filter is_change cs) (install_calls [] s bin data)" by auto
  with run show ?thesis by blast
qed

lemma example_uninstall_plan:
  "\<exists>p st1 r ls st2. plan_uninstall (recording (example_bare_host True)) (0, []) = (Inr p, st1) \<and> \<not> pn_not_installed p
     \<and> apply_plan p (0, []) = Some (r, ls, st2)"
proof -
  let ?h = "recording (example_bare_host True)"
  have stat: "ho_stat ?h config_path (w, cs) = (Inr \<lparr>fi_exists = True, fi_dir = False, fi_mode = 420, fi_uid = 0\<rparr>, (w, cs @ [HStat config_path]))" for w cs
    by (simp add: example_host_simps)
  obtain r st1 where plan: "plan_uninstall ?h (0, []) = (r, st1)" by (metis surj_pair)
  have "all_return (new_plan :: int watched splan)" by (simp add: all_return_def new_plan_def)
  moreover have "all_return (new_plan\<lparr>pn_binary := a, pn_config := b, pn_unit := c, pn_log_hint := d\<rparr> :: int watched splan)" for a b c d
    by (simp add: all_return_def new_plan_def)
  moreover have "\<not> pn_not_installed (add_step d act p)" if "\<not> pn_not_installed p" for d act and p :: "int watched splan"
    using that by (simp add: add_step_def add_detailed_def)
  moreover have "\<not> pn_not_installed (new_plan\<lparr>pn_binary := a, pn_config := b, pn_unit := c, pn_log_hint := d\<rparr> :: int watched splan)" for a b c d
    by (simp add: new_plan_def)
  ultimately obtain p where p: "r = Inr p" "\<not> pn_not_installed p" "all_return p"
    using plan by (auto simp: plan_uninstall_def andthen_def attempt_def give_def example_ops example_inspect stat Let_def stop_step_def remove_step_def)
  then show ?thesis using apply_returns [OF p(3)] plan by blast
qed


end
