(* ===== verification/Goflag.thy ===== *)
theory Goflag
  imports Gostring
begin

text \<open>
  Go's \<open>flag\<close> package, as far as the commands use it: boolean and string flags up to the first argument
  that is not one. A flag's value is the last one given.
\<close>

datatype flag_kind = BoolFlag | TextFlag

datatype flag_error = HelpAsked | BadFlag string

type_synonym flags = "(string, string) gomap"

definition parse_bool :: "string \<Rightarrow> bool option" where
  "parse_bool s = (if s \<in> {''1'', ''t'', ''T'', ''TRUE'', ''true'', ''True''} then Some True
     else if s \<in> {''0'', ''f'', ''F'', ''FALSE'', ''false'', ''False''} then Some False else None)"

definition show_bool :: "bool \<Rightarrow> string" where
  "show_bool b = (if b then ''true'' else ''false'')"

text \<open>The name and the value that is written with it.\<close>

definition flag_parts :: "string \<Rightarrow> (string \<times> string option) option" where
  "flag_parts s = (let name = (if cut_prefix ''--'' s \<noteq> None then drop 2 s else drop 1 s) in
     if name = [] \<or> hd name = CHR ''-'' \<or> hd name = CHR ''='' then None
     else (case cut_at (CHR ''='') name of None \<Rightarrow> Some (name, None) | Some (n, v) \<Rightarrow> Some (n, Some v)))"

fun parse_flags :: "(string \<times> flag_kind) list \<Rightarrow> flags \<Rightarrow> string list \<Rightarrow> flag_error + flags \<times> string list" where
  "parse_flags ks fl [] = Inr (fl, [])"
| "parse_flags ks fl (s # ss) = (
     if length s < 2 \<or> hd s \<noteq> CHR ''-'' then Inr (fl, s # ss)
     else if s = ''--'' then Inr (fl, ss)
     else (case flag_parts s of
         None \<Rightarrow> Inl (BadFlag s)
       | Some (n, v) \<Rightarrow> (case map_of ks n of
             None \<Rightarrow> Inl (if n \<in> {''help'', ''h''} then HelpAsked else BadFlag n)
           | Some BoolFlag \<Rightarrow> (case v of
                 None \<Rightarrow> parse_flags ks (gm_put n ''true'' fl) ss
               | Some t \<Rightarrow> (case parse_bool t of
                     None \<Rightarrow> Inl (BadFlag n)
                   | Some b \<Rightarrow> parse_flags ks (gm_put n (show_bool b) fl) ss))
           | Some TextFlag \<Rightarrow> (case v of
                 Some t \<Rightarrow> parse_flags ks (gm_put n t fl) ss
               | None \<Rightarrow> (case ss of [] \<Rightarrow> Inl (BadFlag n) | t # ss' \<Rightarrow> parse_flags ks (gm_put n t fl) ss')))))"

definition flag_on :: "flags \<Rightarrow> string \<Rightarrow> bool" where
  "flag_on fl n \<longleftrightarrow> gm_getd [] fl n = ''true''"

definition flag_text :: "flags \<Rightarrow> string \<Rightarrow> string" where
  "flag_text fl n = gm_getd [] fl n"

end
