(* ===== verification/Servicecmd.thy ===== *)
theory Servicecmd
  imports Systemd Prepare Goflag
begin

text \<open>
  \<open>internal/cli/service.go\<close>: the commands that install and remove the service, over the platform's
  backend, with the checks that run before anything is changed.
\<close>

section \<open>The backend\<close>

record ('e, 'w) backend =
  bk_install :: "'w install_options \<Rightarrow> 'w \<Rightarrow> ('e + 'w splan) \<times> 'w"
  bk_uninstall :: "'w \<Rightarrow> ('e + 'w splan) \<times> 'w"
  bk_installation :: "'w \<Rightarrow> ('e + svc_installation) \<times> 'w"

definition systemd_backend :: "(string \<Rightarrow> (string \<Rightarrow> string) \<Rightarrow> config_error + config_settings) \<Rightarrow> string \<Rightarrow> 'w host \<Rightarrow> (systemd_error, 'w) backend" where
  "systemd_backend cfg starter h = \<lparr>bk_install = plan_install cfg starter h, bk_uninstall = plan_uninstall h, bk_installation = installation_of h\<rparr>"

datatype new_host_error = HostUnsupported | HostFailed string

datatype installer_error = ServiceUnsupported | InstallerFailed string

text \<open>An injected host comes first, else the platform's own: \<open>win\<close> and \<open>lin\<close> are what \<open>NewHost\<close> gives.\<close>

definition own_host :: "new_host_error + 'b \<Rightarrow> installer_error + 'b" where
  "own_host r = (case r of Inl HostUnsupported \<Rightarrow> Inl ServiceUnsupported | Inl (HostFailed e) \<Rightarrow> Inl (InstallerFailed e) | Inr b \<Rightarrow> Inr b)"

definition pick_installer :: "'b option \<Rightarrow> 'b option \<Rightarrow> string \<Rightarrow> new_host_error + 'b \<Rightarrow> new_host_error + 'b \<Rightarrow> installer_error + 'b" where
  "pick_installer given_win given_lin goos win lin = (case given_win of
       Some b \<Rightarrow> Inr b
     | None \<Rightarrow> (case given_lin of
         Some b \<Rightarrow> Inr b
       | None \<Rightarrow> if goos = ''windows'' then own_host win
           else if goos = ''linux'' then own_host lin
           else Inl ServiceUnsupported))"

section \<open>The checks before an installation\<close>

datatype precheck_error = PreConfig config_error | PreAPI "api_missing list" | PreIdentity machineid_error | PreFailed identity_failure

text \<open>
  \<open>servicePrecheck\<close> with the settings and the config file the service will get. \<open>cfg\<close> is \<open>LoadWithDefault\<close>;
  \<open>say\<close> is the text of an error. A schema that is not there yet passes.
\<close>

definition source_name :: "identity_source \<Rightarrow> string" where
  "source_name s = (case s of SourceStatic \<Rightarrow> ''static'' | SourceLinux \<Rightarrow> ''linux-machine-id''
     | SourceDarwin \<Rightarrow> ''darwin-platform-uuid'' | SourceWindows \<Rightarrow> ''windows-machine-guid'')"

definition checked_of :: "identity_report \<Rightarrow> precheck_error + checked" where
  "checked_of rep = (let c = \<lparr>ck_identity = hi_value (ir_identity rep), ck_source = source_name (hi_source (ir_identity rep)),
       ck_entity = (case ir_host rep of None \<Rightarrow> [] | Some h \<Rightarrow> h_entity h),
       ck_would_create = (case ir_host rep of None \<Rightarrow> False | Some h \<Rightarrow> h_would_create h), ck_schema_pending = False\<rparr>
     in case ir_error rep of
          None \<Rightarrow> Inr c
        | Some (CheckFailed (NotReady t a)) \<Rightarrow> Inr (c\<lparr>ck_schema_pending := True\<rparr>)
        | Some e \<Rightarrow> Inl (PreFailed e))"

definition service_precheck :: "(string \<Rightarrow> (string \<Rightarrow> string) \<Rightarrow> config_error + config_settings) \<Rightarrow> app \<Rightarrow> 'w platform \<Rightarrow> (precheck_error \<Rightarrow> string)
    \<Rightarrow> (string \<Rightarrow> string) \<Rightarrow> string \<Rightarrow> 'w \<Rightarrow> (string + checked) \<times> 'w" where
  "service_precheck cfg a plat say getenv path w = (case cfg path getenv of
       Inl e \<Rightarrow> (Inl (say (PreConfig e)), w)
     | Inr s \<Rightarrow> if require_api s \<noteq> [] then (Inl (say (PreAPI (require_api s))), w)
         else (case identity_check a plat s (w, []) of
             (Inl e, (w1, cs)) \<Rightarrow> (Inl (say (PreIdentity e)), w1)
           | (Inr rep, (w1, cs)) \<Rightarrow> (case checked_of rep of Inl e \<Rightarrow> (Inl (say e), w1) | Inr c \<Rightarrow> (Inr c, w1))))"

section \<open>The commands\<close>

definition dash :: string where
  "dash = [CHR '' '', CHR 0xE2, CHR 0x80, CHR 0x94, CHR '' '']"

definition entity_line :: "checked \<Rightarrow> string" where
  "entity_line c = (if ck_schema_pending c
       then ''  entity:   the project has no omnistat schema yet'' @ dash @ ''the service applies it when it starts''
     else if ck_would_create c then ''  entity:   none yet'' @ dash @ ''the service creates it when it starts''
     else ''  entity:   '' @ ck_entity c)"

definition install_summary :: "'w splan \<Rightarrow> string list" where
  "install_summary p = (let c = pn_checked p in
     [''  identity: '' @ ck_identity c @ '' ('' @ ck_source c @ '')'', entity_line c]
     @ (if pn_unit p \<noteq> [] then [''  unit:     '' @ pn_unit p] else [])
     @ [''  binary:   '' @ pn_binary p,
        ''  config:   '' @ pn_config p @ '' ('' @ (if pn_config_present p then ''present, kept as it is''
          else ''not present'' @ dash @ ''install creates a commented starter; defaults apply'') @ '')'',
        ''  settings: '' @ join '', '' (pn_stored p) @ '' (stored for the service, values not shown)''])"

definition install_title :: "bool \<Rightarrow> bool \<Rightarrow> string" where
  "install_title update dry = ''omnistat service install'' @ (if update then '' (update of the installed service)'' else [])
     @ (if dry then dash @ ''dry run, nothing is changed'' else [])"

definition installed_lines :: "'w splan \<Rightarrow> string list" where
  "installed_lines p = [''omnistat is installed and running as service \"omnistat\".'', ''Logs: '' @ pn_log_hint p]"

definition fail_line :: "string \<Rightarrow> string list" where
  "fail_line e = [''omnistat: '' @ e]"

definition step_error :: "string \<times> string \<Rightarrow> string" where
  "step_error e = fst e @ '': '' @ snd e"

text \<open>
  Each command gives its exit code, the lines of the standard output and of the error output, and the world; None when
  a step never returns. \<open>show\<close> is the text of a backend's error; the settle time is zero for the default.
\<close>

type_synonym 'w ran = "(nat \<times> string list \<times> string list \<times> 'w) option"

record ('e, 'w) service_env =
  se_show :: "'e \<Rightarrow> string"
  se_getenv :: "string \<Rightarrow> string"
  se_precheck :: "(string \<Rightarrow> string) \<Rightarrow> string \<Rightarrow> 'w \<Rightarrow> (string + checked) \<times> 'w"
  se_settle :: int
  se_poll :: int

definition service_settle :: "int \<Rightarrow> int" where
  "service_settle given = (if 0 < given then given else 5 * 10 ^ 9)"

definition run_plan :: "'w splan \<Rightarrow> string list \<Rightarrow> (string list) \<Rightarrow> 'w \<Rightarrow> 'w ran" where
  "run_plan p before after w = (case apply_plan p w of
       None \<Rightarrow> None
     | Some (Some e, ls, w1) \<Rightarrow> Some (exit_error, before @ ls, fail_line (step_error e), w1)
     | Some (None, ls, w1) \<Rightarrow> Some (exit_ok, before @ ls @ after, [], w1))"

definition service_install :: "('e, 'w) backend \<Rightarrow> ('e, 'w) service_env \<Rightarrow> string list \<Rightarrow> 'w \<Rightarrow> 'w ran" where
  "service_install bk se args w = (case parse_flags [(''dry-run'', BoolFlag), (''replace-token'', BoolFlag)] [] args of
       Inl e \<Rightarrow> Some (exit_error, [], [], w)
     | Inr (fl, rest) \<Rightarrow> (let dry = flag_on fl ''dry-run'' in
         case bk_install bk \<lparr>io_getenv = se_getenv se, io_replace = flag_on fl ''replace-token'', io_precheck = Some (se_precheck se),
             io_settle = service_settle (se_settle se), io_poll = se_poll se\<rparr> w of
           (Inl e, w1) \<Rightarrow> Some (exit_error, [], fail_line (se_show se e), w1)
         | (Inr p, w1) \<Rightarrow> (let head = install_title (pn_upgrade p) dry # install_summary p in
             if dry then Some (exit_ok, head @ describe_plan p, [], w1)
             else run_plan p head (installed_lines p) w1)))"

definition service_uninstall :: "('e, 'w) backend \<Rightarrow> ('e, 'w) service_env \<Rightarrow> string list \<Rightarrow> 'w \<Rightarrow> 'w ran" where
  "service_uninstall bk se args w = (case parse_flags [(''dry-run'', BoolFlag)] [] args of
       Inl e \<Rightarrow> Some (exit_error, [], [], w)
     | Inr (fl, rest) \<Rightarrow> (case bk_uninstall bk w of
           (Inl e, w1) \<Rightarrow> Some (exit_error, [], fail_line (se_show se e), w1)
         | (Inr p, w1) \<Rightarrow>
             if pn_not_installed p then Some (exit_ok, [''omnistat service is not installed; nothing to do.''], [], w1)
             else if flag_on fl ''dry-run''
               then Some (exit_ok, (''omnistat service uninstall'' @ dash @ ''dry run, nothing is changed'') # describe_plan p, [], w1)
             else run_plan p [''omnistat service uninstall'']
               [''omnistat is uninstalled. Nothing was changed in the Omnismith project; the host entity remains.''] w1))"

definition service_usage :: string where
  "service_usage = ''usage: omnistat service install [--dry-run] [--replace-token] | uninstall [--dry-run]''"

definition unsupported_line :: "string \<Rightarrow> string" where
  "unsupported_line goos = ''omnistat: service: not supported on '' @ goos @ dash
     @ ''the service commands support Windows, and Linux with systemd; elsewhere run `omnistat run --daemon` under your init system or supervisor''"

definition service_command :: "string \<Rightarrow> installer_error + ('e, 'w) backend \<Rightarrow> ('e, 'w) service_env \<Rightarrow> string list \<Rightarrow> 'w \<Rightarrow> 'w ran" where
  "service_command goos inst se args w = (case inst of
       Inl ServiceUnsupported \<Rightarrow> Some (exit_error, [], [unsupported_line goos], w)
     | Inl (InstallerFailed e) \<Rightarrow> Some (exit_error, [], fail_line e, w)
     | Inr bk \<Rightarrow> (case args of
         [] \<Rightarrow> Some (exit_error, [], [service_usage], w)
       | sub # rest \<Rightarrow>
           if sub = ''install'' then service_install bk se rest w
           else if sub = ''uninstall'' then service_uninstall bk se rest w
           else Some (exit_error, [], [service_usage], w)))"

section \<open>A dry run changes nothing\<close>

lemma precheck_quiet:
  assumes "reads_keep v plat" "service_precheck cfg a plat say getenv path w = (r, w')"
  shows "v w' = v w"
proof -
  have dry: "resolve_dry_run a plat s i rep b = (y, c) \<Longrightarrow> quiet v b c" for s i rep b y c
    by (auto simp: resolve_dry_run_def Let_def split: sum.splits prod.splits if_splits
        dest!: quiet_prepare [OF assms(1)] quiet_resolve_host [OF assms(1)] intro: quiet_trans)
  have "identity_check a plat s (w, []) = (x, (w1, cs)) \<Longrightarrow> v w1 = v w" for s x w1 cs
    by (auto simp: identity_check_def Let_def quiet_def split: sum.splits prod.splits if_splits dest!: dry)
  then show ?thesis using assms(2) by (auto simp: service_precheck_def split: sum.splits prod.splits if_splits)
qed

definition dry_args :: "string list \<Rightarrow> bool" where
  "dry_args args \<longleftrightarrow> (case args of
       [] \<Rightarrow> True
     | sub # rest \<Rightarrow>
         (if sub = ''install'' then (case parse_flags [(''dry-run'', BoolFlag), (''replace-token'', BoolFlag)] [] rest of
            Inl e \<Rightarrow> True | Inr (fl, xs) \<Rightarrow> flag_on fl ''dry-run'')
          else if sub = ''uninstall'' then (case parse_flags [(''dry-run'', BoolFlag)] [] rest of
            Inl e \<Rightarrow> True | Inr (fl, xs) \<Rightarrow> flag_on fl ''dry-run'')
          else True))"

definition only_read :: "'w watched \<Rightarrow> 'w watched \<Rightarrow> bool" where
  "only_read st st' \<longleftrightarrow> (\<exists>cs. snd st' = snd st @ cs \<and> filter is_change cs = [])"

lemma reads_only: "reads f \<Longrightarrow> f st = (r, st') \<Longrightarrow> only_read st st'"
  using reads_run by (fastforce simp: only_read_def)

lemma only_read_refl [simp]: "only_read st st"
  by (simp add: only_read_def)

text \<open>
  C23: the service commands change nothing in a dry run. With \<open>--dry-run\<close>, and likewise when the arguments do not parse,
  \<open>omnistat service install\<close> and \<open>uninstall\<close> on a systemd host end with exit code 0 or 1 and have made no call that
  changes the host, whatever is installed there, whenever the checks of the installation themselves only read
  (\<open>precheck_quiet\<close> shows it of the project's state).
\<close>

theorem service_dry_run:
  assumes "dry_args args" "\<forall>g p. reads (se_precheck se g p)"
  shows "\<exists>code out err st'. service_command goos (map_sum id (systemd_backend cfg starter) (map_sum id recording inst)) se args st = Some (code, out, err, st')
    \<and> (code = exit_ok \<or> code = exit_error) \<and> only_read st st'"
proof (cases "\<exists>h sub rest. inst = Inr h \<and> args = sub # rest \<and> (sub = ''install'' \<or> sub = ''uninstall'')")
  case False
  then show ?thesis
    by (cases st; cases inst) (auto simp: service_command_def split: installer_error.splits list.splits)
next
  case True
  then obtain h sub rest where h: "inst = Inr h" "args = sub # rest" "sub = ''install'' \<or> sub = ''uninstall''" by blast
  let ?bk = "systemd_backend cfg starter (recording h)"
  show ?thesis
  proof (cases "sub = ''install''")
    case True
    let ?io = "\<lambda>fl. \<lparr>io_getenv = se_getenv se, io_replace = flag_on fl ''replace-token'', io_precheck = Some (se_precheck se),
       io_settle = service_settle (se_settle se), io_poll = se_poll se\<rparr>"
    have r: "reads (bk_install ?bk (?io fl))" for fl
      using assms(2) by (auto simp: systemd_backend_def harmless_by_def intro!: reads_plan_install)
    show ?thesis using assms(1) h(1,2) True
      by (cases st) (auto simp: service_command_def service_install_def dry_args_def Let_def split: sum.splits prod.splits dest: reads_only [OF r])
  next
    case False
    then have sub: "sub = ''uninstall''" using h(3) by simp
    have r: "reads (bk_uninstall ?bk)" by (simp add: systemd_backend_def reads_plan_uninstall)
    show ?thesis using assms(1) h(1,2) sub
      by (cases st) (auto simp: service_command_def service_uninstall_def dry_args_def split: sum.splits prod.splits dest: reads_only [OF r])
  qed
qed

definition example_service_env :: "(systemd_error, int watched) service_env" where
  "example_service_env = \<lparr>se_show = (\<lambda>e. []), se_getenv = (\<lambda>k. []), se_precheck = (\<lambda>g p st. (Inr nothing_checked, st)), se_settle = 0, se_poll = 0\<rparr>"

theorem service_dry_run_witness:
  "\<exists>code out err st'. service_command ''linux'' (map_sum id (systemd_backend (\<lambda>p g. Inl (Unreadable [])) []) (map_sum id recording (Inr (example_bare_host True))))
      example_service_env [''uninstall'', ''--dry-run''] (0, []) = Some (code, out, err, st') \<and> only_read (0, []) st'"
proof -
  have f: "flag_parts ''--dry-run'' = Some (''dry-run'', None)" by code_simp
  have d: "dry_args [''uninstall'', ''--dry-run'']" by (simp add: dry_args_def f flag_on_def gm_getd_def)
  have p: "\<forall>g p. reads (se_precheck example_service_env g p)" by (simp add: example_service_env_def reads_by_def)
  show ?thesis using service_dry_run [OF d p, of "''linux''" "\<lambda>p g. Inl (Unreadable [])" "[]" "Inr (example_bare_host True)" "(0, [])"] by blast
qed

end
