(* ===== verification/Upgrade.thy ===== *)
theory Upgrade
  imports Release Servicecmd
begin

text \<open>
  \<open>internal/cli/upgrade.go\<close> with \<open>internal/upgrade\<close> (version.go, stage.go, stepaside.go): the upgrade command.
  It finds a release, verifies it and hands over to that version's own \<open>service install\<close>. What runs the
  binaries, the files and the network are parameters over a world \<open>'w\<close>.
\<close>

section \<open>Versions that binaries report\<close>

definition parse_version_output :: "string \<Rightarrow> version option" where
  "parse_version_output out = (case go_fields out of
       [name, v] \<Rightarrow> if name = ''omnistat'' then parse_version v else None
     | _ \<Rightarrow> None)"

section \<open>The machine\<close>

record 'w machine =
  mc_goos :: string
  mc_goarch :: string
  mc_getenv :: "string \<Rightarrow> string"
  mc_parse_url :: "string \<Rightarrow> url_parts option"
  mc_loopback :: "string \<Rightarrow> bool"
  mc_client :: "string list \<Rightarrow> 'w http"
  mc_staging :: "'w staging"
  mc_dir :: "string \<Rightarrow> string"
  mc_ext :: "string \<Rightarrow> string"
  mc_same_path :: "string \<Rightarrow> string \<Rightarrow> bool"
  mc_self :: "string option"
  mc_glob :: "string \<Rightarrow> 'w \<Rightarrow> string list \<times> 'w"
  mc_mkdtemp :: "string \<Rightarrow> string \<Rightarrow> 'w \<Rightarrow> (string + string) \<times> 'w"
  mc_remove_all :: "string \<Rightarrow> 'w \<Rightarrow> 'w"
  mc_rename :: "string \<Rightarrow> string \<Rightarrow> 'w \<Rightarrow> string option \<times> 'w"
  mc_missing :: "string \<Rightarrow> 'w \<Rightarrow> bool \<times> 'w"
  mc_at_restart :: "string list \<Rightarrow> 'w \<Rightarrow> string option \<times> 'w"
  mc_version :: "string \<Rightarrow> 'w \<Rightarrow> (string \<times> string option) \<times> 'w"
  mc_install :: "string \<Rightarrow> string list \<Rightarrow> 'w \<Rightarrow> (string + int) \<times> 'w"

section \<open>Staging and stepping aside\<close>

definition stage_prefix :: string where
  "stage_prefix = ''.omnistat-upgrade-''"

definition stage :: "'w machine \<Rightarrow> string \<Rightarrow> 'w \<Rightarrow> (string + string) \<times> 'w" where
  "stage mc dir w = (case mc_glob mc (sg_join (mc_staging mc) dir (stage_prefix @ ''*'')) w of
     (old, w1) \<Rightarrow> mc_mkdtemp mc dir stage_prefix (foldl (\<lambda>w p. mc_remove_all mc p w) w1 old))"

definition runs_from :: "'w machine \<Rightarrow> string \<Rightarrow> string \<Rightarrow> bool" where
  "runs_from mc self installed \<longleftrightarrow> mc_goos mc = ''windows'' \<and> mc_same_path mc self installed"

record aside =
  as_self :: string
  as_moved :: string
  as_stage :: string

definition step_aside :: "'w machine \<Rightarrow> string \<Rightarrow> string \<Rightarrow> 'w \<Rightarrow> (string + aside) \<times> 'w" where
  "step_aside mc self dir w = (let moved = sg_join (mc_staging mc) dir (''omnistat-previous'' @ mc_ext mc self) in
     case mc_rename mc self moved w of
       (Some e, w1) \<Rightarrow> (Inl e, w1)
     | (None, w1) \<Rightarrow> (Inr \<lparr>as_self = self, as_moved = moved, as_stage = dir\<rparr>, w1))"

definition finish_aside :: "'w machine \<Rightarrow> aside \<Rightarrow> 'w \<Rightarrow> (bool \<times> string option) \<times> 'w" where
  "finish_aside mc a w = (case mc_missing mc (as_self a) w of
       (True, w1) \<Rightarrow> (case mc_rename mc (as_moved a) (as_self a) w1 of (e, w2) \<Rightarrow> ((True, e), w2))
     | (False, w1) \<Rightarrow> (case mc_at_restart mc [as_moved a, as_stage a] w1 of (e, w2) \<Rightarrow> ((False, e), w2)))"

section \<open>The command\<close>

record upgrade_options =
  uo_check :: bool
  uo_dry :: bool
  uo_want :: string
  uo_rest :: "string list"

text \<open>What is printed, and on which occasion.\<close>

datatype upgrade_line =
    UpgradeUsage
  | UpgradeUnsupported string
  | NoInstaller string
  | NotReadable systemd_error
  | NotInstalled
  | BadLocation url_error
  | UpgradeTitle bool bool
  | InstalledVersion version string
  | UnreportedVersion string string
  | UnknownVersion string string
  | NoRelease release_error
  | Target version bool
  | UpToDate version
  | InstalledNewer version version
  | UpgradeAvailable string version
  | Downgrade version version
  | NoStage string string
  | Downloading string
  | NotFetched fetch_error
  | DoesNotRun string
  | WrongVersion string version
  | Verified string version
  | NotMoved string
  | MovedAside string string
  | HandingOver version "string list"
  | PreviousLost string string
  | PreviousBack string
  | PreviousLeft string
  | HandOverFailed string
  | Incomplete version "string list" int
  | DryRunDone
  | UpgradedFrom version version
  | UpgradedTo version

definition installed_line :: "string \<Rightarrow> string \<Rightarrow> string option \<Rightarrow> upgrade_line" where
  "installed_line bin out err = (case parse_version_output out of
       Some v \<Rightarrow> InstalledVersion v bin
     | None \<Rightarrow> (case err of Some e \<Rightarrow> UnreportedVersion bin e | None \<Rightarrow> UnknownVersion bin (trim_space out)))"

text \<open>Whether the command ends here, and otherwise what it said before the download.\<close>

definition upgrade_decision :: "upgrade_options \<Rightarrow> version option \<Rightarrow> version \<Rightarrow> (nat \<times> upgrade_line) + upgrade_line list" where
  "upgrade_decision uo reported target = (case reported of
       None \<Rightarrow> if uo_check uo then Inl (exit_changes, UpgradeAvailable (uo_want uo) target) else Inr []
     | Some v \<Rightarrow> (let c = compare_versions target v in
         if c = 0 then Inl (exit_ok, UpToDate v)
         else if c < 0 \<and> uo_want uo = [] then Inl (exit_ok, InstalledNewer v target)
         else if uo_check uo then Inl (exit_changes, UpgradeAvailable (uo_want uo) target)
         else Inr (if c < 0 then [Downgrade target v] else [])))"

definition install_args :: "bool \<Rightarrow> string list" where
  "install_args dry = [''service'', ''install''] @ (if dry then [''--dry-run''] else [])"

definition aside_lines :: "string \<Rightarrow> bool \<times> string option \<Rightarrow> upgrade_line list" where
  "aside_lines bin r = (case r of
       (True, Some e) \<Rightarrow> [PreviousLost bin e]
     | (True, None) \<Rightarrow> [PreviousBack bin]
     | (False, Some e) \<Rightarrow> [PreviousLeft e]
     | (False, None) \<Rightarrow> [])"

definition install_end :: "upgrade_options \<Rightarrow> version option \<Rightarrow> version \<Rightarrow> string + int \<Rightarrow> int \<times> upgrade_line" where
  "install_end uo reported target r = (case r of
       Inl e \<Rightarrow> (int exit_error, HandOverFailed e)
     | Inr code \<Rightarrow> if code \<noteq> 0 then (code, Incomplete target (install_args (uo_dry uo)) code)
         else (int exit_ok, if uo_dry uo then DryRunDone else (case reported of Some v \<Rightarrow> UpgradedFrom v target | None \<Rightarrow> UpgradedTo target)))"

text \<open>The binary at \<open>bin\<close> installs itself; a program that runs from the installed path makes way first.\<close>

definition make_way :: "'w machine \<Rightarrow> upgrade_options \<Rightarrow> string \<Rightarrow> string \<Rightarrow> 'w \<Rightarrow> (string + aside option) \<times> 'w" where
  "make_way mc uo installed dir w = (case mc_self mc of
       None \<Rightarrow> (Inr None, w)
     | Some self \<Rightarrow> if \<not> uo_dry uo \<and> runs_from mc self installed
         then (case step_aside mc self dir w of (Inl e, w1) \<Rightarrow> (Inl e, w1) | (Inr a, w1) \<Rightarrow> (Inr (Some a), w1))
         else (Inr None, w))"

definition hand_over :: "'w machine \<Rightarrow> upgrade_options \<Rightarrow> string \<Rightarrow> version option \<Rightarrow> version \<Rightarrow> string \<Rightarrow> string \<Rightarrow> 'w
    \<Rightarrow> int \<times> upgrade_line list \<times> 'w" where
  "hand_over mc uo installed reported target dir bin w = (case make_way mc uo installed dir w of
       (Inl e, w1) \<Rightarrow> (int exit_error, [NotMoved e], w1)
     | (Inr away, w1) \<Rightarrow> (case mc_install mc bin (install_args (uo_dry uo)) w1 of
         (r, w2) \<Rightarrow> (case (case away of
               None \<Rightarrow> ([], w2)
             | Some a \<Rightarrow> (case finish_aside mc a w2 of (f, w3) \<Rightarrow> (aside_lines installed f, w3))) of
           (ls, w3) \<Rightarrow> (case install_end uo reported target r of
             (code, l) \<Rightarrow> (code, (case away of Some a \<Rightarrow> [MovedAside installed (as_moved a)] | None \<Rightarrow> [])
               @ HandingOver target (install_args (uo_dry uo)) # ls @ [l], w3)))))"

text \<open>The binary must run and report the version that was chosen.\<close>

definition check_binary :: "'w machine \<Rightarrow> release \<Rightarrow> string \<Rightarrow> 'w \<Rightarrow> upgrade_line option \<times> 'w" where
  "check_binary mc rel bin w = (case mc_version mc bin w of
       ((out, Some e), w1) \<Rightarrow> (Some (DoesNotRun e), w1)
     | ((out, None), w1) \<Rightarrow> (case parse_version_output out of
         None \<Rightarrow> (Some (WrongVersion (trim_space out) (rl_version rel)), w1)
       | Some got \<Rightarrow> (if compare_versions got (rl_version rel) \<noteq> 0 then Some (WrongVersion (trim_space out) (rl_version rel)) else None, w1)))"

definition install_release :: "'w machine \<Rightarrow> upgrade_options \<Rightarrow> 'w http \<Rightarrow> string \<Rightarrow> version option \<Rightarrow> release \<Rightarrow> string \<Rightarrow> 'w
    \<Rightarrow> int \<times> upgrade_line list \<times> 'w" where
  "install_release mc uo http installed reported rel dir w = (case fetch http (mc_staging mc) rel dir (mc_goos mc) w of
       (Inl e, w1) \<Rightarrow> (int exit_error, [Downloading (rl_url rel), NotFetched e], w1)
     | (Inr bin, w1) \<Rightarrow> (case check_binary mc rel bin w1 of
         (Some l, w2) \<Rightarrow> (int exit_error, [Downloading (rl_url rel), l], w2)
       | (None, w2) \<Rightarrow> (case hand_over mc uo installed reported (rl_version rel) dir bin w2 of
           (code, ls, w3) \<Rightarrow> (code, [Downloading (rl_url rel), Verified (rl_sums_url rel) (rl_version rel)] @ ls, w3))))"

text \<open>\<open>stage_dir\<close> is where to stage when not beside the installed binary; the stage is removed at the end.\<close>

definition upgrade_from :: "'w machine \<Rightarrow> string \<Rightarrow> upgrade_options \<Rightarrow> 'w http \<Rightarrow> string \<Rightarrow> string \<Rightarrow> version option \<Rightarrow> 'w
    \<Rightarrow> int \<times> upgrade_line list \<times> 'w" where
  "upgrade_from mc stage_dir uo http base installed reported w = (case resolve_release http base (uo_want uo) (mc_goos mc) (mc_goarch mc) w of
       (Inl e, w1) \<Rightarrow> (int exit_error, [NoRelease e], w1)
     | (Inr rel, w1) \<Rightarrow> (let target = Target (rl_version rel) (uo_want uo \<noteq> []) in
         case upgrade_decision uo reported (rl_version rel) of
           Inl (code, l) \<Rightarrow> (int code, [target, l], w1)
         | Inr said \<Rightarrow> (let dir = (if stage_dir \<noteq> [] then stage_dir else mc_dir mc installed) in
             case stage mc dir w1 of
               (Inl e, w2) \<Rightarrow> (int exit_error, target # said @ [NoStage dir e], w2)
             | (Inr st, w2) \<Rightarrow> (case install_release mc uo http installed reported rel st w2 of
                 (code, ls, w3) \<Rightarrow> (code, target # said @ ls, mc_remove_all mc st w3)))))"

definition upgrade :: "'w machine \<Rightarrow> installer_error + ('w \<Rightarrow> (systemd_error + svc_installation) \<times> 'w) \<Rightarrow> string \<Rightarrow> upgrade_options \<Rightarrow> 'w
    \<Rightarrow> int \<times> upgrade_line list \<times> 'w" where
  "upgrade mc inst stage_dir uo w = (
     if uo_rest uo \<noteq> [] \<or> (uo_check uo \<and> uo_dry uo) then (int exit_error, [UpgradeUsage], w)
     else (case inst of
         Inl ServiceUnsupported \<Rightarrow> (int exit_error, [UpgradeUnsupported (mc_goos mc)], w)
       | Inl (InstallerFailed e) \<Rightarrow> (int exit_error, [NoInstaller e], w)
       | Inr describe \<Rightarrow> (case describe w of
           (Inl e, w1) \<Rightarrow> (int exit_error, [NotReadable e], w1)
         | (Inr i, w1) \<Rightarrow>
             if \<not> in_exists i then (int exit_error, [NotInstalled], w1)
             else (case releases_url (mc_parse_url mc) (mc_loopback mc) (mc_getenv mc) of
                 Inl e \<Rightarrow> (int exit_error, [BadLocation e], w1)
               | Inr base \<Rightarrow> (case mc_version mc (in_binary i) w1 of
                   ((out, err), w2) \<Rightarrow> (case upgrade_from mc stage_dir uo (mc_client mc (proxy_settings (mc_getenv mc) (in_settings i)))
                       base (in_binary i) (parse_version_output out) w2 of
                     (code, ls, w3) \<Rightarrow> (code, [UpgradeTitle (uo_check uo) (uo_dry uo), installed_line (in_binary i) out err] @ ls, w3)))))))"

definition upgrade_command :: "'w machine \<Rightarrow> installer_error + (systemd_error, 'w) backend \<Rightarrow> string \<Rightarrow> string list \<Rightarrow> 'w
    \<Rightarrow> int \<times> upgrade_line list \<times> 'w" where
  "upgrade_command mc inst stage_dir args w = (
     case parse_flags [(''check'', BoolFlag), (''dry-run'', BoolFlag), (''version'', TextFlag)] [] args of
       Inl e \<Rightarrow> (int exit_error, [], w)
     | Inr (fl, rest) \<Rightarrow> upgrade mc (map_sum id bk_installation inst) stage_dir
         \<lparr>uo_check = flag_on fl ''check'', uo_dry = flag_on fl ''dry-run'', uo_want = flag_text fl ''version'', uo_rest = rest\<rparr> w)"

section \<open>What the command does to the machine\<close>

text \<open>The recorded machine keeps the calls that change something or run an installation.\<close>

datatype machine_call = MFile string | MStage string | MRemove string | MRename string string | MRestart "string list"
  | MInstall string "string list"

fun is_install :: "machine_call \<Rightarrow> bool" where
  "is_install (MInstall bin args) = True"
| "is_install c = False"

definition unseen :: "('w \<Rightarrow> 'r \<times> 'w) \<Rightarrow> 'w \<times> 'c list \<Rightarrow> 'r \<times> 'w \<times> 'c list" where
  "unseen f st = (case f (fst st) of (r, w) \<Rightarrow> (r, w, snd st))"

definition seen :: "'c \<Rightarrow> ('w \<Rightarrow> 'r \<times> 'w) \<Rightarrow> 'w \<times> 'c list \<Rightarrow> 'r \<times> 'w \<times> 'c list" where
  "seen c f st = (case f (fst st) of (r, w) \<Rightarrow> (r, w, snd st @ [c]))"

definition recorded_staging :: "'w staging \<Rightarrow> ('w \<times> machine_call list) staging" where
  "recorded_staging sg = \<lparr>sg_join = sg_join sg, sg_create = (\<lambda>p. seen (MFile p) (sg_create sg p)), sg_write = (\<lambda>p d. seen (MFile p) (sg_write sg p d)),
     sg_remove = (\<lambda>p st. (sg_remove sg p (fst st), snd st @ [MRemove p])), sg_entries = sg_entries sg\<rparr>"

definition recorded_machine :: "'w machine \<Rightarrow> ('w \<times> machine_call list) machine" where
  "recorded_machine mc = \<lparr>mc_goos = mc_goos mc, mc_goarch = mc_goarch mc, mc_getenv = mc_getenv mc, mc_parse_url = mc_parse_url mc,
     mc_loopback = mc_loopback mc, mc_client = (\<lambda>ps url. unseen (mc_client mc ps url)), mc_staging = recorded_staging (mc_staging mc),
     mc_dir = mc_dir mc, mc_ext = mc_ext mc, mc_same_path = mc_same_path mc, mc_self = mc_self mc, mc_glob = (\<lambda>p. unseen (mc_glob mc p)),
     mc_mkdtemp = (\<lambda>d p. seen (MStage d) (mc_mkdtemp mc d p)), mc_remove_all = (\<lambda>p st. (mc_remove_all mc p (fst st), snd st @ [MRemove p])),
     mc_rename = (\<lambda>a b. seen (MRename a b) (mc_rename mc a b)), mc_missing = (\<lambda>p. unseen (mc_missing mc p)),
     mc_at_restart = (\<lambda>ps. seen (MRestart ps) (mc_at_restart mc ps)), mc_version = (\<lambda>b. unseen (mc_version mc b)),
     mc_install = (\<lambda>b as. seen (MInstall b as) (mc_install mc b as))\<rparr>"

definition grows :: "('c \<Rightarrow> bool) \<Rightarrow> 'w \<times> 'c list \<Rightarrow> 'w \<times> 'c list \<Rightarrow> bool" where
  "grows P st st' \<longleftrightarrow> (\<exists>cs. snd st' = snd st @ cs \<and> list_all P cs)"

named_theorems calls

lemma grows_refl [simp, calls]: "grows P st st"
  by (simp add: grows_def)

lemma grows_same [calls]: "snd st' = snd st \<Longrightarrow> grows P st st'"
  by (simp add: grows_def)

lemma grows_one [calls]: "snd st' = snd st @ [c] \<Longrightarrow> P c \<Longrightarrow> grows P st st'"
  by (simp add: grows_def)

lemma grows_trans: "grows P a b \<Longrightarrow> grows P b c \<Longrightarrow> grows P a c"
  by (fastforce simp: grows_def)

lemma unseen_calls: "unseen f st = (r, st') \<Longrightarrow> snd st' = snd st"
  by (auto simp: unseen_def split: prod.splits)

lemma seen_calls: "seen c f st = (r, st') \<Longrightarrow> snd st' = snd st @ [c]"
  by (auto simp: seen_def split: prod.splits)

lemmas recorded = recorded_machine_def recorded_staging_def

lemma get_body_calls: "get_body (\<lambda>url. unseen (http url)) url limit st = (r, st') \<Longrightarrow> snd st' = snd st"
  by (auto simp: get_body_def split: prod.splits sum.splits if_splits dest: unseen_calls)

lemma resolve_calls: "resolve_release (\<lambda>url. unseen (http url)) base want goos goarch st = (r, st') \<Longrightarrow> snd st' = snd st"
  by (auto simp: resolve_release_def resolve_pinned_def fetch_checksums_def Let_def split: prod.splits sum.splits if_splits option.splits list.splits
      dest!: get_body_calls)

lemma staging_calls:
  "sg_create (recorded_staging sg) p st = (r, st') \<Longrightarrow> snd st' = snd st @ [MFile p]"
  "sg_write (recorded_staging sg) p d st = (r, st') \<Longrightarrow> snd st' = snd st @ [MFile p]"
  "snd (sg_remove (recorded_staging sg) p st) = snd st @ [MRemove p]"
  by (auto simp: recorded_staging_def dest: seen_calls)

lemma grows_create: "P (MFile p) \<Longrightarrow> sg_create (recorded_staging sg) p st = (r, st') \<Longrightarrow> grows P st st'"
  and grows_write: "P (MFile p) \<Longrightarrow> sg_write (recorded_staging sg) p d st = (r, st') \<Longrightarrow> grows P st st'"
  and grows_remove: "P (MRemove p) \<Longrightarrow> grows P st (sg_remove (recorded_staging sg) p st)"
  and grows_body: "get_body (\<lambda>url. unseen (http url)) url limit st = (b, st') \<Longrightarrow> grows P st st'"
  by (auto simp: grows_def staging_calls dest!: staging_calls(1,2) get_body_calls)

lemma grows_download:
  assumes "P (MFile path)" "download (\<lambda>url. unseen (http url)) (recorded_staging sg) rel path st = (r, st')"
  shows "grows P st st'"
  using assms(2) by (auto simp: download_def split: prod.splits sum.splits option.splits if_splits
      dest!: grows_body [where P = P] grows_create [where P = P, OF assms(1)] grows_write [where P = P, OF assms(1)] intro: grows_trans)

lemma grows_unpack:
  assumes "P (MFile dst)" "unpack (recorded_staging sg) goos data dst st = (r, st')"
  shows "grows P st st'"
  using assms(2) by (auto simp: unpack_def write_binary_def split: prod.splits option.splits if_splits
      dest!: grows_create [where P = P, OF assms(1)] grows_write [where P = P, OF assms(1)] intro: grows_trans)

text \<open>The files of a stage: the archive and the binary in it, written and removed.\<close>

definition on_stage :: "'w staging \<Rightarrow> release \<Rightarrow> string \<Rightarrow> string \<Rightarrow> machine_call \<Rightarrow> bool" where
  "on_stage sg rel goos dir c \<longleftrightarrow> (\<exists>name \<in> {rl_asset rel, binary_name goos}. c = MFile (sg_join sg dir name) \<or> c = MRemove (sg_join sg dir name))"

lemma grows_fetch:
  assumes "fetch (\<lambda>url. unseen (http url)) (recorded_staging sg) rel dir goos st = (r, st')"
  shows "grows (on_stage sg rel goos dir) st st'"
proof -
  let ?P = "on_stage sg rel goos dir" and ?sg = "recorded_staging sg"
  let ?ar = "sg_join sg dir (rl_asset rel)" and ?bin = "sg_join sg dir (binary_name goos)"
  have j: "sg_join ?sg = sg_join sg" by (simp add: recorded_staging_def)
  have P: "?P (MFile ?ar)" "?P (MFile ?bin)" "?P (MRemove ?ar)" "?P (MRemove ?bin)" by (auto simp: on_stage_def)
  note down = grows_download [of ?P, OF P(1)] and unp = grows_unpack [of ?P, OF P(2)]
    and rem = grows_trans [OF _ grows_remove [of ?P, OF P(3)]] grows_trans [OF _ grows_remove [of ?P, OF P(4)]]
  show ?thesis using assms by (auto simp: fetch_def Let_def j split: prod.splits sum.splits option.splits
      dest!: down unp intro: rem grows_trans)
qed

text \<open>Staging: the leftovers of an earlier upgrade are removed, then the stage is made.\<close>

definition made_stage :: "'w machine \<Rightarrow> string \<Rightarrow> string + string \<Rightarrow> machine_call list \<Rightarrow> bool" where
  "made_stage mc dir r calls \<longleftrightarrow> (\<exists>old w1 w2 w3 w4. mc_glob mc (sg_join (mc_staging mc) dir (stage_prefix @ ''*'')) w1 = (old, w2)
     \<and> mc_mkdtemp mc dir stage_prefix w3 = (r, w4) \<and> calls = map MRemove old @ [MStage dir])"

lemma removals: "snd (foldl (\<lambda>st p. mc_remove_all (recorded_machine mc) p st) st ps) = snd st @ map MRemove ps"
  by (induction ps arbitrary: st) (simp_all add: recorded_machine_def)

lemma stage_made:
  assumes "stage (recorded_machine mc) dir st = (r, st')"
  shows "\<exists>calls. snd st' = snd st @ calls \<and> made_stage mc dir r calls"
proof -
  obtain old st1 where g: "mc_glob (recorded_machine mc) (sg_join (mc_staging (recorded_machine mc)) dir (stage_prefix @ ''*'')) st = (old, st1)"
    by (metis surj_pair)
  let ?st2 = "foldl (\<lambda>st p. mc_remove_all (recorded_machine mc) p st) st1 old"
  have mk: "mc_mkdtemp (recorded_machine mc) dir stage_prefix ?st2 = (r, st')" using assms by (simp add: stage_def g)
  have glob: "mc_glob mc (sg_join (mc_staging mc) dir (stage_prefix @ ''*'')) (fst st) = (old, fst st1)" "snd st1 = snd st"
    using g by (auto simp: recorded_machine_def recorded_staging_def unseen_def split: prod.splits)
  have "mc_mkdtemp mc dir stage_prefix (fst ?st2) = (r, fst st')" "snd st' = snd ?st2 @ [MStage dir]"
    using mk by (auto simp: recorded_machine_def seen_def split: prod.splits)
  then have "snd st' = snd st @ map MRemove old @ [MStage dir]" using glob(2) removals [of mc st1 old] by simp
  then show ?thesis using glob(1) \<open>mc_mkdtemp mc dir stage_prefix (fst ?st2) = (r, fst st')\<close> unfolding made_stage_def by blast
qed

text \<open>The installation is one call, after the running binary made way and before what follows it.\<close>

definition hand_over_calls :: "'w machine \<Rightarrow> upgrade_options \<Rightarrow> string \<Rightarrow> string \<Rightarrow> string \<Rightarrow> machine_call list \<Rightarrow> bool" where
  "hand_over_calls mc uo installed dir bin cs \<longleftrightarrow> (case mc_self mc of
       Some self \<Rightarrow>
         if \<not> uo_dry uo \<and> runs_from mc self installed
         then (let moved = sg_join (mc_staging mc) dir (''omnistat-previous'' @ mc_ext mc self) in
           cs = [MRename self moved]
           \<or> (\<exists>c \<in> {MRename moved self, MRestart [moved, dir]}. cs = [MRename self moved, MInstall bin (install_args False), c]))
         else cs = [MInstall bin (install_args (uo_dry uo))]
     | None \<Rightarrow> cs = [MInstall bin (install_args (uo_dry uo))])"

lemma hand_over_made:
  assumes "hand_over (recorded_machine mc) uo installed reported target dir bin st = (code, ls, st')"
  shows "\<exists>cs. snd st' = snd st @ cs \<and> hand_over_calls mc uo installed dir bin cs"
proof (cases "\<exists>self. mc_self mc = Some self \<and> \<not> uo_dry uo \<and> runs_from mc self installed")
  case True
  then obtain self where self: "mc_self mc = Some self" "\<not> uo_dry uo" "runs_from mc self installed" by blast
  then show ?thesis using assms
    by (auto simp: hand_over_def make_way_def step_aside_def finish_aside_def hand_over_calls_def Let_def recorded runs_from_def seen_def unseen_def
        split: prod.splits option.splits bool.splits)
next
  case False
  then show ?thesis using assms
    by (auto simp: hand_over_def make_way_def hand_over_calls_def recorded runs_from_def seen_def split: prod.splits option.splits if_splits)
qed

definition verified_binary :: "'w machine \<Rightarrow> upgrade_options \<Rightarrow> 'w http \<Rightarrow> string \<Rightarrow> release \<Rightarrow> string \<Rightarrow> string \<Rightarrow> bool" where
  "verified_binary mc uo http base rel dir bin \<longleftrightarrow> (\<exists>w0 w1 w2 w3 w4 out got.
     resolve_release http base (uo_want uo) (mc_goos mc) (mc_goarch mc) w0 = (Inr rel, w1)
     \<and> fetch http (mc_staging mc) rel dir (mc_goos mc) w2 = (Inr bin, w3)
     \<and> mc_version mc bin w3 = ((out, None), w4) \<and> parse_version_output out = Some got \<and> compare_versions got (rl_version rel) = 0)"

definition wanted :: "upgrade_options \<Rightarrow> version option \<Rightarrow> version \<Rightarrow> bool" where
  "wanted uo reported target \<longleftrightarrow> \<not> uo_check uo \<and> pred_option (\<lambda>v. compare_versions target v \<noteq> 0
     \<and> (uo_want uo = [] \<longrightarrow> 0 < compare_versions target v)) reported"

lemma decision_wanted: "upgrade_decision uo reported target = Inr said \<Longrightarrow> wanted uo reported target"
  by (auto simp: upgrade_decision_def wanted_def Let_def split: option.splits if_splits)

lemma check_binary_ok:
  assumes "check_binary mc rel bin w = (None, w')"
  shows "\<exists>out got. mc_version mc bin w = ((out, None), w') \<and> parse_version_output out = Some got \<and> compare_versions got (rl_version rel) = 0"
  using assms by (auto simp: check_binary_def split: prod.splits option.splits if_splits)

lemma check_binary_calls: "check_binary (recorded_machine mc) rel bin st = (l, st') \<Longrightarrow> snd st' = snd st"
  by (auto simp: check_binary_def recorded_machine_def split: prod.splits option.splits if_splits dest!: unseen_calls)

text \<open>
  The calls once a release was chosen: staging; and in a stage, if there is one, files of that stage alone, then at most one
  hand-over of a verified binary out of it, and at the end, always, the removal of the stage.
\<close>

definition release_calls :: "'w machine \<Rightarrow> upgrade_options \<Rightarrow> ('w \<times> machine_call list) http \<Rightarrow> string \<Rightarrow> string \<Rightarrow> release \<Rightarrow> string \<Rightarrow> machine_call list \<Rightarrow> bool" where
  "release_calls mc uo http base installed rel dir calls \<longleftrightarrow> (\<exists>files cs. calls = files @ cs
     \<and> list_all (on_stage (mc_staging mc) rel (mc_goos mc) dir) files
     \<and> (cs = [] \<or> (\<exists>bin. bin = sg_join (mc_staging mc) dir (binary_name (mc_goos mc))
         \<and> hand_over_calls mc uo installed dir bin cs \<and> verified_binary (recorded_machine mc) uo http base rel dir bin)))"

definition staged_calls :: "'w machine \<Rightarrow> upgrade_options \<Rightarrow> ('w \<times> machine_call list) http \<Rightarrow> string \<Rightarrow> string \<Rightarrow> string \<Rightarrow> release \<Rightarrow> machine_call list \<Rightarrow> bool" where
  "staged_calls mc uo http base parent installed rel calls \<longleftrightarrow>
     (\<exists>e. made_stage mc parent (Inl e) calls)
     \<or> (\<exists>dir pre cs. calls = pre @ cs @ [MRemove dir] \<and> made_stage mc parent (Inr dir) pre \<and> release_calls mc uo http base installed rel dir cs)"

lemma install_release_calls:
  fixes w0 :: "'w \<times> machine_call list"
  assumes res: "resolve_release (\<lambda>url. unseen (http url)) base (uo_want uo) (mc_goos mc) (mc_goarch mc) w0 = (Inr rel, w1)"
    and run: "install_release (recorded_machine mc) uo (\<lambda>url. unseen (http url)) installed reported rel dir st = (code, ls, st')"
  shows "\<exists>calls. snd st' = snd st @ calls \<and> release_calls mc uo (\<lambda>url. unseen (http url)) base installed rel dir calls"
proof -
  let ?http = "\<lambda>url. unseen (http url)" and ?mc = "recorded_machine mc"
  have same: "mc_staging ?mc = recorded_staging (mc_staging mc)" "mc_goos ?mc = mc_goos mc" "mc_goarch ?mc = mc_goarch mc"
    by (simp_all add: recorded_machine_def)
  obtain f st1 where f: "fetch ?http (mc_staging ?mc) rel dir (mc_goos ?mc) st = (f, st1)" by (metis surj_pair)
  then obtain pre where pre: "snd st1 = snd st @ pre" "list_all (on_stage (mc_staging mc) rel (mc_goos mc) dir) pre"
    using grows_fetch by (fastforce simp: same grows_def)
  have quiet: "\<exists>calls. snd st' = snd st @ calls \<and> release_calls mc uo ?http base installed rel dir calls" if "snd st' = snd st1"
    using pre that unfolding release_calls_def by (intro exI [of _ pre]) auto
  show ?thesis
  proof (cases f)
    case (Inl e)
    then show ?thesis using run f by (intro quiet) (auto simp: install_release_def)
  next
    case (Inr bin)
    obtain l st2 where c: "check_binary ?mc rel bin st1 = (l, st2)" by (metis surj_pair)
    note c' = check_binary_calls [OF c]
    show ?thesis
    proof (cases l)
      case (Some m)
      then show ?thesis using run f Inr c c' by (intro quiet) (auto simp: install_release_def)
    next
      case None
      obtain code' ls' st3 where h: "hand_over ?mc uo installed reported (rl_version rel) dir bin st2 = (code', ls', st3)" by (metis prod_cases3)
      then have "st3 = st'" using run by (simp add: install_release_def f Inr c None)
      note h = h [unfolded this]
      obtain cs where cs: "snd st' = snd st2 @ cs" "hand_over_calls mc uo installed dir bin cs" using hand_over_made [OF h] by blast
      obtain out got where g: "mc_version ?mc bin st1 = ((out, None), st2)" "parse_version_output out = Some got" "compare_versions got (rl_version rel) = 0"
        using check_binary_ok [OF c [unfolded None]] by blast
      have "verified_binary ?mc uo ?http base rel dir bin"
        unfolding verified_binary_def same(2,3) by (intro exI conjI) (rule res, rule f [unfolded Inr same(2)], rule g(1), rule g(2), rule g(3))
      moreover have "bin = sg_join (mc_staging mc) dir (binary_name (mc_goos mc))"
        using f [unfolded Inr same] by (auto simp: fetch_def recorded_staging_def Let_def split: prod.splits sum.splits option.splits)
      ultimately have "release_calls mc uo ?http base installed rel dir (pre @ cs)"
        using pre(2) cs(2) unfolding release_calls_def by blast
      then show ?thesis using cs(1) c' pre(1) by auto
    qed
  qed
qed

lemma upgrade_from_calls:
  assumes "upgrade_from (recorded_machine mc) stage_dir uo (\<lambda>url. unseen (http url)) base installed reported st = (code, ls, st')"
  shows "\<exists>calls. snd st' = snd st @ calls \<and> (calls = [] \<or> (\<exists>rel. wanted uo reported (rl_version rel)
    \<and> staged_calls mc uo (\<lambda>url. unseen (http url)) base (if stage_dir \<noteq> [] then stage_dir else mc_dir mc installed) installed rel calls))"
proof -
  let ?http = "\<lambda>url. unseen (http url)" and ?mc = "recorded_machine mc"
  have same: "mc_goos ?mc = mc_goos mc" "mc_goarch ?mc = mc_goarch mc" by (simp_all add: recorded_machine_def)
  obtain r st1 where r: "resolve_release ?http base (uo_want uo) (mc_goos mc) (mc_goarch mc) st = (r, st1)" by (metis surj_pair)
  note r' = resolve_calls [OF r]
  show ?thesis
  proof (cases "\<exists>rel said. r = Inr rel \<and> upgrade_decision uo reported (rl_version rel) = Inr said")
    case False
    then have "st' = st1" using assms r by (auto simp: upgrade_from_def same Let_def split: sum.splits prod.splits)
    then show ?thesis using r' by simp
  next
    case True
    then obtain rel said where rel: "r = Inr rel" "upgrade_decision uo reported (rl_version rel) = Inr said" by blast
    let ?dir = "if stage_dir \<noteq> [] then stage_dir else mc_dir mc installed"
    have parent: "mc_dir ?mc = mc_dir mc" by (simp add: recorded_machine_def)
    obtain s st2 where s: "stage ?mc (if stage_dir \<noteq> [] then stage_dir else mc_dir ?mc installed) st1 = (s, st2)" by (metis surj_pair)
    obtain pre where pre: "snd st2 = snd st1 @ pre" "made_stage mc ?dir s pre" using stage_made [OF s] unfolding parent by blast
    show ?thesis
    proof (cases s)
      case (Inl e)
      then have "snd st' = snd st @ pre" using assms r rel s pre(1) r' by (auto simp: upgrade_from_def same Let_def)
      moreover have "staged_calls mc uo ?http base ?dir installed rel pre" using pre(2) Inl unfolding staged_calls_def by blast
      ultimately show ?thesis using decision_wanted [OF rel(2)] by blast
    next
      case (Inr dir)
      obtain code' ls' st3 where i: "install_release ?mc uo ?http installed reported rel dir st2 = (code', ls', st3)" by (metis prod_cases3)
      obtain cs where cs: "snd st3 = snd st2 @ cs" "release_calls mc uo ?http base installed rel dir cs"
        using install_release_calls [OF r [unfolded rel(1)] i] by blast
      have "st' = mc_remove_all ?mc dir st3" using assms r rel s i by (simp add: upgrade_from_def same Let_def Inr)
      then have "snd st' = snd st @ (pre @ cs @ [MRemove dir])" using pre(1) cs(1) r' by (simp add: recorded_machine_def)
      moreover have "staged_calls mc uo ?http base ?dir installed rel (pre @ cs @ [MRemove dir])"
        using pre(2) cs(2) Inr unfolding staged_calls_def by blast
      ultimately show ?thesis using decision_wanted [OF rel(2)] by blast
    qed
  qed
qed

text \<open>
  C19: only a verified release of the wanted version is installed. Whatever the host, the network and the flags do, the calls
  of \<open>omnistat upgrade\<close> that change the machine are: none; or the removal of the stages an interrupted upgrade left and the making of a
  new one beside the installed binary (or in the directory it was told); then, if there is one, files of that stage and nothing else are written and
  removed, at most one hand-over follows, and the last call of all removes the stage. The hand-over runs, once,
  \<open>service install\<close> (with \<open>--dry-run\<close> if that was asked) of the binary in the stage, fetched for the release the checksums list, which itself
  reported that version; only on Windows, from the installed path and not in a dry run, is the running binary renamed
  before, and put back or left to the next restart after. There is none with \<open>--check\<close>, for a version that the
  installed binary already reports, or for an older one that was not named.
\<close>

theorem upgrade_verified:
  assumes "upgrade (recorded_machine mc) (map_sum id unseen inst) stage_dir uo st = (code, ls, st')"
  shows "\<exists>calls. snd st' = snd st @ calls \<and> (calls = [] \<or> (\<exists>describe i w w1 out err w2 w3 base rel.
      inst = Inr describe \<and> describe w = (Inr i, w1) \<and> in_exists i \<and> mc_version mc (in_binary i) w2 = ((out, err), w3)
      \<and> releases_url (mc_parse_url mc) (mc_loopback mc) (mc_getenv mc) = Inr base
      \<and> wanted uo (parse_version_output out) (rl_version rel)
      \<and> staged_calls mc uo (\<lambda>url. unseen (mc_client mc (proxy_settings (mc_getenv mc) (in_settings i)) url)) base
          (if stage_dir \<noteq> [] then stage_dir else mc_dir mc (in_binary i)) (in_binary i) rel calls))"
proof (cases "uo_rest uo \<noteq> [] \<or> (uo_check uo \<and> uo_dry uo) \<or> (\<exists>e. inst = Inl e)")
  case True
  then show ?thesis using assms by (auto simp: upgrade_def split: installer_error.splits if_splits)
next
  case False
  then obtain describe where inst: "inst = Inr describe" and flags: "uo_rest uo = []" "\<not> (uo_check uo \<and> uo_dry uo)"
    by (cases inst) auto
  let ?mc = "recorded_machine mc"
  obtain d w1 where d: "describe (fst st) = (d, w1)" by fastforce
  have same: "mc_parse_url ?mc = mc_parse_url mc" "mc_loopback ?mc = mc_loopback mc" "mc_getenv ?mc = mc_getenv mc"
    "mc_client ?mc = (\<lambda>ps url. unseen (mc_client mc ps url))" "mc_version ?mc = (\<lambda>b. unseen (mc_version mc b))"
    by (simp_all add: recorded_machine_def)
  show ?thesis
  proof (cases "\<exists>i base. d = Inr i \<and> in_exists i \<and> releases_url (mc_parse_url mc) (mc_loopback mc) (mc_getenv mc) = Inr base")
    case False
    then have "snd st' = snd st" using assms flags d
      by (auto simp: upgrade_def inst unseen_def same split: sum.splits if_splits)
    then show ?thesis by simp
  next
    case True
    then obtain i base where i: "d = Inr i" "in_exists i" "releases_url (mc_parse_url mc) (mc_loopback mc) (mc_getenv mc) = Inr base" by blast
    obtain out err w2 where v: "mc_version mc (in_binary i) w1 = ((out, err), w2)" by (metis prod_cases3 surj_pair)
    let ?http = "\<lambda>url. unseen (mc_client mc (proxy_settings (mc_getenv mc) (in_settings i)) url)"
    obtain code' ls' where "upgrade_from ?mc stage_dir uo ?http base (in_binary i) (parse_version_output out) (w2, snd st) = (code', ls', st')"
      using assms flags d i v by (auto simp: upgrade_def inst unseen_def same split: prod.splits)
    from upgrade_from_calls [OF this] show ?thesis using inst d i v by fastforce
  qed
qed

section \<open>An upgrade\<close>

definition example_machine :: "string machine" where
  "example_machine = \<lparr>mc_goos = ''linux'', mc_goarch = ''amd64'', mc_getenv = (\<lambda>k. if k = env_releases_url then ''https://h'' else []),
     mc_parse_url = (\<lambda>u. Some \<lparr>up_scheme = ''https'', up_host = ''h'', up_hostname = ''h'', up_user = False, up_query = [], up_fragment = [], up_text = u\<rparr>),
     mc_loopback = (\<lambda>h. False), mc_client = (\<lambda>ps. example_site), mc_staging = example_archive, mc_dir = (\<lambda>p. ''/b''), mc_ext = (\<lambda>p. []),
     mc_same_path = (=), mc_self = Some ''/b/omnistat'', mc_glob = (\<lambda>p w. ([], w)), mc_mkdtemp = (\<lambda>d p w. (Inr ''/b/s'', w)),
     mc_remove_all = (\<lambda>p w. w), mc_rename = (\<lambda>a b w. (None, w)), mc_missing = (\<lambda>p w. (False, w)), mc_at_restart = (\<lambda>ps w. (None, w)),
     mc_version = (\<lambda>b w. ((if b = ''/b/s/omnistat'' then ''omnistat v1.2.3'' else [], None), w)), mc_install = (\<lambda>b as w. (Inr 0, w))\<rparr>"

definition example_installed :: "string \<Rightarrow> (systemd_error + svc_installation) \<times> string" where
  "example_installed w = (Inr \<lparr>in_exists = True, in_binary = ''/b/omnistat'', in_settings = []\<rparr>, w)"

definition example_request :: upgrade_options where
  "example_request = \<lparr>uo_check = False, uo_dry = False, uo_want = [], uo_rest = []\<rparr>"

lemma unseen_site [simp]: "unseen (example_site url) = example_site url"
  by (rule ext) (simp add: unseen_def example_site_def)

lemma example_reported: "parse_version_output ''omnistat v1.2.3'' = Some example_version"
proof -
  have "byte (CHR '' '') < 128 \<and> is_space (byte (CHR '' ''))" by (simp add: byte_def is_space_def)
  moreover have "list_all word_char ''omnistat''" "list_all word_char ''v1.2.3''" by (simp_all add: word_char_def byte_def is_space_def)
  ultimately have f: "go_fields ''omnistat v1.2.3'' = [''omnistat'', ''v1.2.3'']"
    using go_fields_word [of "''omnistat''" "'' v1.2.3''" 0] go_fields_word [of "''v1.2.3''" "[]" 1] by simp
  have "version_ok example_version" "version_number example_version = ''1.2.3''" by code_simp+
  then have "parse_version ''v1.2.3'' = Some example_version" using parse_printed [of example_version "''v''"] by simp
  then show ?thesis by (simp add: parse_version_output_def f)
qed

lemma example_recorded_fetch:
  "fetch example_site (recorded_staging example_archive) example_release ''/b/s'' ''linux'' (w, cs) = (Inr ''/b/s/omnistat'', w @ ''xx'',
     cs @ map MFile [''/b/s/omnistat_1.2.3_linux_amd64.tar.gz'', ''/b/s/omnistat_1.2.3_linux_amd64.tar.gz'', ''/b/s/omnistat'', ''/b/s/omnistat'']
       @ [MRemove ''/b/s/omnistat_1.2.3_linux_amd64.tar.gz''])"
proof -
  have "rl_asset example_release = ''omnistat_1.2.3_linux_amd64.tar.gz''" by (simp add: example_release_def found_release_def)
  then show ?thesis
    by (simp add: example_download fetch_def download_def unpack_def write_binary_def recorded_staging_def seen_def example_archive_def binary_limit_def binary_name_def Let_def)
qed

lemma example_machine_simps:
  "mc_goos (recorded_machine example_machine) = ''linux''" "mc_goarch (recorded_machine example_machine) = ''amd64''"
  "mc_client (recorded_machine example_machine) ps = example_site"
  "mc_staging (recorded_machine example_machine) = recorded_staging example_archive"
  "mc_version (recorded_machine example_machine) b (w, cs) = ((if b = ''/b/s/omnistat'' then ''omnistat v1.2.3'' else [], None), (w, cs))"
  "mc_install (recorded_machine example_machine) b as (w, cs) = (Inr 0, w, cs @ [MInstall b as])"
  "mc_self (recorded_machine example_machine) = Some ''/b/omnistat''"
  "mc_remove_all (recorded_machine example_machine) p (w, cs) = (w, cs @ [MRemove p])"
  "\<not> uo_check example_request" "\<not> uo_dry example_request" "uo_want example_request = []" "uo_rest example_request = []"
  by (auto simp: recorded_machine_def example_machine_def example_request_def seen_def unseen_def)

lemma example_stage: "stage (recorded_machine example_machine) d (w, cs) = (Inr ''/b/s'', w, cs @ [MStage d])"
  by (simp add: stage_def recorded_machine_def example_machine_def seen_def unseen_def)

lemma example_base: "releases_url (mc_parse_url (recorded_machine example_machine)) (mc_loopback (recorded_machine example_machine))
    (mc_getenv (recorded_machine example_machine)) = Inr ''https://h''"
proof -
  have "trim_space ''https://h'' = ''https://h''" by (rule trim_space_ascii) (simp_all add: byte_def is_space_def)
  then show ?thesis by (simp add: releases_url_def recorded_machine_def example_machine_def trim_slashes_def Let_def)
qed

lemma example_upgrade:
  "\<exists>ls st'. upgrade (recorded_machine example_machine) (map_sum id unseen (Inr example_installed)) ''/b'' example_request ([], []) = (0, ls, st')
    \<and> MInstall ''/b/s/omnistat'' [''service'', ''install''] \<in> set (snd st')"
proof -
  have v: "rl_version example_release = example_version" by (simp add: example_release_def found_release_def)
  have none: "parse_version_output [] = None" by (simp add: parse_version_output_def)
  have same: "compare_versions example_version example_version = 0" by code_simp
  have run: "hand_over (recorded_machine example_machine) example_request ''/b/omnistat'' None example_version ''/b/s'' ''/b/s/omnistat'' (w, cs)
      = (0, [HandingOver example_version [''service'', ''install''], UpgradedTo example_version], w, cs @ [MInstall ''/b/s/omnistat'' [''service'', ''install'']])" for w cs
    by (simp add: hand_over_def make_way_def runs_from_def example_machine_simps install_end_def install_args_def exit_ok_def)
  show ?thesis
    by (simp add: upgrade_def upgrade_from_def install_release_def check_binary_def example_machine_simps example_stage example_base example_resolved
        example_recorded_fetch example_reported none same v run upgrade_decision_def example_installed_def unseen_def Let_def)
qed

theorem upgrade_verified_witness:
  "\<exists>calls out base rel. MInstall ''/b/s/omnistat'' [''service'', ''install''] \<in> set calls
    \<and> wanted example_request (parse_version_output out) (rl_version rel)
    \<and> staged_calls example_machine example_request example_site base ''/b'' ''/b/omnistat'' rel calls"
proof -
  obtain ls st' where u: "upgrade (recorded_machine example_machine) (map_sum id unseen (Inr example_installed)) ''/b'' example_request ([], []) = (0, ls, st')"
    and i: "MInstall ''/b/s/omnistat'' [''service'', ''install''] \<in> set (snd st')"
    using example_upgrade by blast
  have bin: "in_binary i = ''/b/omnistat''" if "example_installed w = (Inr i, w1)" for i w w1
    using that by (auto simp: example_installed_def)
  have "mc_client example_machine ps = example_site" for ps by (simp add: example_machine_def)
  with upgrade_verified [OF u] i obtain i base out rel w w1 where "example_installed w = (Inr i, w1)"
    "wanted example_request (parse_version_output out) (rl_version rel)"
    "staged_calls example_machine example_request example_site base ''/b'' (in_binary i) rel (snd st')"
    by auto
  then show ?thesis using i bin by (intro exI conjI) (assumption, assumption, simp)
qed

end
