(* ===== verification/Winsvc.thy ===== *)
theory Winsvc
  imports Recording Gostring
begin

text \<open>
  \<open>internal/winsvc\<close>: installing and removing the Windows service. The calls into Windows are a record of
  operations over a world \<open>'w\<close>; \<open>strings.EqualFold\<close> and \<open>strings.ToLower\<close>, whose Unicode tables are not written
  out, are two more of its fields. The recorded host keeps the calls that \<open>Recording\<close> reasons about.
\<close>

section \<open>The host\<close>

definition win_name :: string where "win_name = ''omnistat''"

definition win_display_name :: string where "win_display_name = ''omnistat (Omnismith exporter)''"

definition win_description :: string where
  "win_description = ''Publishes this host's identity and readings to an Omnismith project. https://github.com/omnismith-apps/omnistat''"

definition backslash_char :: char where "backslash_char = CHR 0x5C"

definition win_account :: string where "win_account = ''NT SERVICE'' @ [backslash_char] @ ''omnistat''"

definition win_binary_name :: string where "win_binary_name = ''omnistat.exe''"

definition win_config_file :: string where "win_config_file = ''omnistat.yaml''"

definition win_restart_delay :: int where "win_restart_delay = 60 * 10 ^ 9"

definition win_args :: "string list" where "win_args = [''run'', ''--daemon'']"

definition event_source :: string where "event_source = ''omnistat''"

definition right_arrow :: string where
  "right_arrow = [CHR '' '', CHR 0xE2, CHR 0x86, CHR 0x92, CHR '' '']"

definition win_log_hint :: string where
  "win_log_hint = ''Event Viewer'' @ right_arrow @ ''Windows Logs'' @ right_arrow @ ''Application, source \"'' @ event_source @ ''\"''"

datatype win_state = WinStopped | WinStartPending | WinRunning | WinStopPending | WinOther

definition state_text :: "win_state \<Rightarrow> string" where
  "state_text s = (case s of WinStopped \<Rightarrow> ''stopped'' | WinStartPending \<Rightarrow> ''starting'' | WinRunning \<Rightarrow> ''running''
     | WinStopPending \<Rightarrow> ''stopping'' | WinOther \<Rightarrow> ''other'')"

record win_installed =
  wi_exists :: bool
  wi_binary :: string
  wi_state :: win_state
  wi_env :: "(string, string) gomap"

record registration =
  rn_binary :: string
  rn_args :: "string list"
  rn_display :: string
  rn_description :: string
  rn_account :: string
  rn_delay :: int

record 'w win_host =
  wh_elevated :: "'w \<Rightarrow> bool \<times> 'w"
  wh_executable :: "'w \<Rightarrow> (string + string) \<times> 'w"
  wh_program_dir :: "'w \<Rightarrow> (string + string) \<times> 'w"
  wh_config_dir :: "'w \<Rightarrow> (string + string) \<times> 'w"
  wh_service :: "'w \<Rightarrow> (string + win_installed) \<times> 'w"
  wh_copy :: "string \<Rightarrow> string \<Rightarrow> 'w \<Rightarrow> string option \<times> 'w"
  wh_remove :: "string \<Rightarrow> 'w \<Rightarrow> (string + string) \<times> 'w"
  wh_ensure_dir :: "string \<Rightarrow> 'w \<Rightarrow> (string + bool) \<times> 'w"
  wh_file_exists :: "string \<Rightarrow> 'w \<Rightarrow> bool \<times> 'w"
  wh_create :: "string \<Rightarrow> string \<Rightarrow> 'w \<Rightarrow> (string + bool) \<times> 'w"
  wh_register :: "registration \<Rightarrow> 'w \<Rightarrow> string option \<times> 'w"
  wh_store_env :: "(string, string) gomap \<Rightarrow> 'w \<Rightarrow> string option \<times> 'w"
  wh_event_source :: "bool \<Rightarrow> 'w \<Rightarrow> string option \<times> 'w"
  wh_start :: "'w \<Rightarrow> string option \<times> 'w"
  wh_stop :: "'w \<Rightarrow> string option \<times> 'w"
  wh_state :: "'w \<Rightarrow> (string + win_state) \<times> 'w"
  wh_delete :: "'w \<Rightarrow> string option \<times> 'w"
  wh_prompt :: "'w prompter"
  wh_now :: "'w \<Rightarrow> int"
  wh_wait :: "int \<Rightarrow> 'w \<Rightarrow> bool \<times> 'w"
  wh_equal_fold :: "string \<Rightarrow> string \<Rightarrow> bool"
  wh_to_lower :: "string \<Rightarrow> string"

section \<open>Deciding\<close>

datatype win_error =
    NotElevated
  | NoBinary string
  | NoProgramDir string
  | NoConfigDir string
  | ServiceQuery string
  | ForeignService string
  | WinSettings settings_error
  | WinPrecheck string

definition trim_right_set :: "char set \<Rightarrow> string \<Rightarrow> string" where
  "trim_right_set cs s = rev (dropWhile (\<lambda>c. c \<in> cs) (rev s))"

definition win_join :: "string \<Rightarrow> string \<Rightarrow> string" where
  "win_join dir name = trim_right_set {backslash_char, CHR ''/''} dir @ [backslash_char] @ name"

definition unquoted :: "string \<Rightarrow> string" where
  "unquoted s = trim_right_set {CHR 0x22} (dropWhile (\<lambda>c. c = CHR 0x22) s)"

definition same_path :: "'w win_host \<Rightarrow> string \<Rightarrow> string \<Rightarrow> bool" where
  "same_path h a b = wh_equal_fold h (unquoted a) (unquoted b)"

definition win_ours :: "'w win_host \<Rightarrow> win_installed \<Rightarrow> string \<Rightarrow> win_error + unit" where
  "win_ours h inst target = (if wi_exists inst \<and> \<not> same_path h (wi_binary inst) target then Inl (ForeignService (wi_binary inst)) else Inr ())"

definition win_precheck :: "'w install_options \<Rightarrow> (string, string) gomap \<Rightarrow> string \<Rightarrow> 'w \<Rightarrow> (win_error + checked) \<times> 'w" where
  "win_precheck io env cfg_path = (case io_precheck io of
       None \<Rightarrow> give (Inr nothing_checked)
     | Some f \<Rightarrow> failing WinPrecheck (f (\<lambda>k. gm_getd [] env k) cfg_path))"

section \<open>Steps\<close>

definition ensure_config_dir :: "'w win_host \<Rightarrow> string \<Rightarrow> 'w \<Rightarrow> ((string + string) \<times> 'w) option" where
  "ensure_config_dir h dir w = (case wh_ensure_dir h dir w of
       (Inl e, w1) \<Rightarrow> Some (Inl e, w1)
     | (Inr tightened, w1) \<Rightarrow> Some (Inr (note_if tightened ''tightened its permissions: other users could write to it''), w1))"

definition create_config :: "'w win_host \<Rightarrow> string \<Rightarrow> string \<Rightarrow> 'w \<Rightarrow> ((string + string) \<times> 'w) option" where
  "create_config h path starter w = (case wh_create h path starter w of
       (Inl e, w1) \<Rightarrow> Some (Inl e, w1)
     | (Inr created, w1) \<Rightarrow> Some (Inr (note_if (\<not> created) ''it appeared meanwhile and was left as it is''), w1))"

definition win_start_failed :: string where
  "win_start_failed = ''the service stopped right after starting; see Event Viewer'' @ right_arrow @ ''Windows Logs'' @ right_arrow
     @ ''Application, source omnistat''"

definition check_state :: "'w win_host \<Rightarrow> 'w \<Rightarrow> (string + string) \<times> 'w" where
  "check_state h w = (case wh_state h w of
       (Inl e, w1) \<Rightarrow> (Inl e, w1)
     | (Inr st, w1) \<Rightarrow> (if st = WinStopped then Inl win_start_failed else Inr (state_text st), w1))"

definition start_service :: "'w win_host \<Rightarrow> int \<Rightarrow> int \<Rightarrow> 'w \<Rightarrow> ((string + string) \<times> 'w) option" where
  "start_service h settle poll w = (case wh_start h w of
       (Some e, w1) \<Rightarrow> Some (Inl e, w1)
     | (None, w1) \<Rightarrow> watch \<lparr>wt_now = wh_now h, wt_check = check_state h, wt_wait = wh_wait h\<rparr> settle poll w1)"

definition win_registration :: "string \<Rightarrow> registration" where
  "win_registration target = \<lparr>rn_binary = target, rn_args = win_args, rn_display = win_display_name, rn_description = win_description,
     rn_account = win_account, rn_delay = win_restart_delay\<rparr>"

section \<open>The plans\<close>

definition register_text :: "bool \<Rightarrow> string \<Rightarrow> string" where
  "register_text existing target = (if existing then ''update'' else ''register'') @ '' service '' @ win_name @ '': \"'' @ target @ ''\" ''
     @ join '' '' win_args @ '', automatic start (delayed), account '' @ win_account @ '', restart 1m0s after any failure''"

definition win_plan_binary :: "'w win_host \<Rightarrow> win_installed \<Rightarrow> string \<Rightarrow> string \<Rightarrow> 'w splan \<Rightarrow> 'w splan" where
  "win_plan_binary h inst exe target p = (
     let p1 = (if wi_exists inst \<and> wi_state inst \<noteq> WinStopped
          then add_step ''stop the running service (it publishes what it has buffered first)'' (did (wh_stop h)) p else p)
     in if \<not> same_path h exe target
        then add_step (if wi_exists inst then ''replace '' @ target @ '' with '' @ exe else ''install '' @ exe @ '' as '' @ target)
          (did (wh_copy h exe target)) p1
        else p1)"

definition win_plan_config :: "'w win_host \<Rightarrow> string \<Rightarrow> string \<Rightarrow> string \<Rightarrow> bool \<Rightarrow> 'w splan \<Rightarrow> 'w splan" where
  "win_plan_config h starter cfg_dir cfg_path there p = (
     let p1 = (add_step (''ensure '' @ cfg_dir @ '' exists, writable only by Administrators and SYSTEM'') (ensure_config_dir h cfg_dir) p)
          \<lparr>pn_config_present := there\<rparr>
     in if \<not> there then add_step (''create '' @ cfg_path @ '': a commented starter configuration (every default stays in force)'')
          (create_config h cfg_path starter) p1
        else p1)"

definition win_finish :: "'w win_host \<Rightarrow> 'w install_options \<Rightarrow> win_installed \<Rightarrow> string \<Rightarrow> (string, string) gomap \<Rightarrow> 'w splan \<Rightarrow> 'w splan" where
  "win_finish h io inst target env p = (
     let p1 = add_step (register_text (wi_exists inst) target) (did (wh_register h (win_registration target))) p;
         p2 = add_step (''store the service's settings, readable only by Administrators and SYSTEM: '' @ join '', '' (pn_stored p))
                (did (wh_store_env h env)) p1;
         p3 = add_step (''register event source '' @ event_source @ '' in the Application log'') (did (wh_event_source h True)) p2
     in add_step ''start the service and check that it keeps running'' (start_service h (io_settle io) (io_poll io)) p3)"

definition win_locate :: "'w win_host \<Rightarrow> 'w \<Rightarrow> (win_error + string) \<times> 'w" where
  "win_locate h = andthen (asking NotElevated (wh_elevated h)) (\<lambda>_. failing NoProgramDir (wh_program_dir h))"

definition win_plan_install :: "(string \<Rightarrow> (string \<Rightarrow> string) \<Rightarrow> config_error + config_settings) \<Rightarrow> string \<Rightarrow> 'w win_host \<Rightarrow> 'w install_options
    \<Rightarrow> 'w \<Rightarrow> (win_error + 'w splan) \<times> 'w" where
  "win_plan_install cfg starter h io =
     andthen (asking NotElevated (wh_elevated h)) (\<lambda>_.
     andthen (failing NoBinary (wh_executable h)) (\<lambda>exe.
     andthen (failing NoProgramDir (wh_program_dir h)) (\<lambda>prog_dir.
     andthen (failing NoConfigDir (wh_config_dir h)) (\<lambda>cfg_dir.
     let target = win_join prog_dir win_binary_name; cfg_path = win_join cfg_dir win_config_file in
     andthen (failing ServiceQuery (wh_service h)) (\<lambda>inst.
     andthen (give (win_ours h inst target)) (\<lambda>_.
     andthen (failing WinSettings (resolve_settings cfg (wh_prompt h) \<lparr>sx_stored = wi_env inst, sx_getenv = io_getenv io,
        sx_names = captured, sx_replace = io_replace io, sx_config = cfg_path\<rparr>)) (\<lambda>env.
     andthen (win_precheck io env cfg_path) (\<lambda>ck.
     andthen (attempt (wh_file_exists h cfg_path)) (\<lambda>there.
       give (Inr (win_finish h io inst target env (win_plan_config h starter cfg_dir cfg_path there
         (win_plan_binary h inst exe target (new_plan\<lparr>pn_upgrade := wi_exists inst, pn_binary := target, pn_config := cfg_path,
            pn_log_hint := win_log_hint, pn_stored := gm_keys env, pn_checked := ck\<rparr>))))))))))))))"

definition leftover_note :: "'w win_host \<Rightarrow> string \<Rightarrow> string \<Rightarrow> string \<Rightarrow> string" where
  "leftover_note h target prog_dir leftover = (
     if leftover = [] then []
     else if cut_prefix (wh_to_lower h prog_dir @ [backslash_char]) (wh_to_lower h leftover) \<noteq> None
       then target @ '' is the running program: it was renamed to '' @ leftover @ ''; Windows deletes it and '' @ prog_dir @ '' at the next restart''
     else target @ '' is the running program: it was moved to '' @ leftover @ '', which Windows deletes at the next restart; '' @ prog_dir @ '' is removed'')"

definition remove_binary :: "'w win_host \<Rightarrow> string \<Rightarrow> string \<Rightarrow> 'w \<Rightarrow> ((string + string) \<times> 'w) option" where
  "remove_binary h target prog_dir w = (case wh_remove h target w of
       (Inl e, w1) \<Rightarrow> Some (Inl e, w1)
     | (Inr leftover, w1) \<Rightarrow> Some (Inr (leftover_note h target prog_dir leftover), w1))"

definition win_removal :: "'w win_host \<Rightarrow> win_installed \<Rightarrow> string \<Rightarrow> string \<Rightarrow> string \<Rightarrow> 'w splan" where
  "win_removal h inst target prog_dir cfg_dir = (
     let p0 = new_plan\<lparr>pn_binary := target, pn_log_hint := win_log_hint, pn_keep := [cfg_dir @ '' (your configuration)'']\<rparr>;
         p1 = (if wi_state inst \<noteq> WinStopped then add_step ''stop the service (it publishes what it has buffered first)'' (did (wh_stop h)) p0 else p0);
         p2 = add_step (''remove service '' @ win_name @ '' and its stored settings'') (did (wh_delete h)) p1;
         p3 = add_step (''remove event source '' @ event_source @ '' from the Application log'') (did (wh_event_source h False)) p2
     in add_step (''remove '' @ target) (remove_binary h target prog_dir) p3)"

definition win_plan_uninstall :: "'w win_host \<Rightarrow> 'w \<Rightarrow> (win_error + 'w splan) \<times> 'w" where
  "win_plan_uninstall h =
     andthen (win_locate h) (\<lambda>prog_dir.
     andthen (failing NoConfigDir (wh_config_dir h)) (\<lambda>cfg_dir.
     andthen (failing ServiceQuery (wh_service h)) (\<lambda>inst.
       let target = win_join prog_dir win_binary_name in
       if \<not> wi_exists inst then give (Inr (new_plan\<lparr>pn_not_installed := True\<rparr>))
       else andthen (give (win_ours h inst target)) (\<lambda>_. give (Inr (win_removal h inst target prog_dir cfg_dir))))))"

definition win_installation :: "'w win_host \<Rightarrow> 'w \<Rightarrow> (win_error + svc_installation) \<times> 'w" where
  "win_installation h =
     andthen (win_locate h) (\<lambda>prog_dir.
     andthen (failing ServiceQuery (wh_service h)) (\<lambda>inst.
       if \<not> wi_exists inst then give (Inr \<lparr>in_exists = False, in_binary = [], in_settings = []\<rparr>)
       else andthen (give (win_ours h inst (win_join prog_dir win_binary_name)))
         (\<lambda>_. give (Inr \<lparr>in_exists = True, in_binary = wi_binary inst, in_settings = wi_env inst\<rparr>))))"

section \<open>The event log\<close>

definition max_event_len :: nat where "max_event_len = 31000"

definition truncated_marker :: string where
  "truncated_marker = [CHR '' '', CHR 0xE2, CHR 0x80, CHR 0xA6] @ ''[truncated]''"

fun cut_back :: "string \<Rightarrow> nat \<Rightarrow> nat" where
  "cut_back s n = (if n = 0 \<or> rune_start (s ! n) then n else cut_back s (n - 1))"

declare cut_back.simps [simp del]

definition truncate_event :: "string \<Rightarrow> string" where
  "truncate_event s = (if length s \<le> max_event_len then s
     else take (cut_back s (max_event_len - length truncated_marker)) s @ truncated_marker)"

datatype event_kind = EventError | EventWarning | EventInfo

definition event_severity :: "int \<Rightarrow> event_kind" where
  "event_severity l = (if 8 \<le> l then EventError else if 4 \<le> l then EventWarning else EventInfo)"

definition trim_newline :: "string \<Rightarrow> string" where
  "trim_newline s = (if s \<noteq> [] \<and> last s = nl then butlast s else s)"

text \<open>What \<open>Handle\<close> emits for a formatted record, and \<open>lineWriter\<close> for a write; an error of the sink ends the write.\<close>

definition handle_event :: "int \<Rightarrow> string \<Rightarrow> event_kind \<times> string" where
  "handle_event level text = (event_severity level, truncate_event (trim_newline text))"

fun write_lines :: "(string \<Rightarrow> 'w \<Rightarrow> string option \<times> 'w) \<Rightarrow> string list \<Rightarrow> 'w \<Rightarrow> string option \<times> 'w" where
  "write_lines emit [] w = (None, w)"
| "write_lines emit (l # ls) w = (let t = trim_right_set {CHR 0x0D} l in
     if trim_space t = [] then write_lines emit ls w
     else (case emit (truncate_event t) w of (Some e, w1) \<Rightarrow> (Some e, w1) | (None, w1) \<Rightarrow> write_lines emit ls w1))"

definition line_writer :: "(string \<Rightarrow> 'w \<Rightarrow> string option \<times> 'w) \<Rightarrow> string \<Rightarrow> 'w \<Rightarrow> (string + nat) \<times> 'w" where
  "line_writer emit p w = (case write_lines emit (split_at nl p) w of
       (Some e, w1) \<Rightarrow> (Inl e, w1) | (None, w1) \<Rightarrow> (Inr (length p), w1))"

section \<open>Under the service manager\<close>

text \<open>
  \<open>handler.Execute\<close>: what the service manager sees while the daemon runs. \<open>MainDone\<close> is the daemon's return with its
  exit code, \<open>Request\<close> a request of the manager with the status it carries, \<open>Tick\<close> the progress ticker.
\<close>

datatype win_cmd = Interrogate | StopCmd | ShutdownCmd | PreShutdownCmd | OtherCmd

datatype win_status = StatusStartPending | StatusRunning | StatusStopPending "32 word" | StatusOf nat

datatype win_event = MainDone int | Request win_cmd nat | Tick

record handler_state =
  hs_stopping :: bool
  hs_cancelled :: nat
  hs_checkpoint :: "32 word"
  hs_sent :: "win_status list"

definition send :: "win_status \<Rightarrow> handler_state \<Rightarrow> handler_state" where
  "send st hs = hs\<lparr>hs_sent := hs_sent hs @ [st]\<rparr>"

definition send_pending :: "handler_state \<Rightarrow> handler_state" where
  "send_pending hs = (let c = hs_checkpoint hs + 1 in send (StatusStopPending c) (hs\<lparr>hs_checkpoint := c\<rparr>))"

definition handler_start :: handler_state where
  "handler_start = send StatusRunning (send StatusStartPending \<lparr>hs_stopping = False, hs_cancelled = 0, hs_checkpoint = 0, hs_sent = []\<rparr>)"

definition handler_step :: "win_event \<Rightarrow> handler_state \<Rightarrow> handler_state" where
  "handler_step ev hs = (case ev of
       MainDone code \<Rightarrow> hs
     | Request cmd current \<Rightarrow>
         if cmd = Interrogate then send (StatusOf current) hs
         else if cmd = OtherCmd then hs
         else send_pending (if hs_stopping hs then hs else hs\<lparr>hs_stopping := True, hs_cancelled := Suc (hs_cancelled hs)\<rparr>)
     | Tick \<Rightarrow> if hs_stopping hs then send_pending hs else hs)"

text \<open>The loop ends with the daemon: its exit code, and whether it is reported as specific to the service.\<close>

fun win_execute :: "win_event list \<Rightarrow> handler_state \<Rightarrow> (int \<times> bool \<times> int) option \<times> handler_state" where
  "win_execute [] hs = (None, hs)"
| "win_execute (MainDone code # evs) hs = (Some (if code \<noteq> 0 then (code, True, code) else (code, False, 0)), hs)"
| "win_execute (ev # evs) hs = win_execute evs (handler_step ev hs)"

definition win_run :: "string option \<Rightarrow> string + string \<Rightarrow> (string \<Rightarrow> win_event list) \<Rightarrow> string option \<Rightarrow> nat \<times> string list" where
  "win_run no_log dir main svc = (case no_log of
       Some e \<Rightarrow> (1, [])
     | None \<Rightarrow> (case dir of
         Inl e \<Rightarrow> (1, [''omnistat: locating the configuration directory: '' @ e])
       | Inr d \<Rightarrow> (case svc of
           Some e \<Rightarrow> (1, [''omnistat: service: '' @ e])
         | None \<Rightarrow> (case fst (win_execute (main (win_join d win_config_file)) handler_start) of
             None \<Rightarrow> (0, []) | Some (code, _) \<Rightarrow> (nat code, [])))))"

section \<open>The recorded host\<close>

datatype win_call = WinAsk | WinCopy string string | WinRemove string | WinEnsure string | WinCreate string string
  | WinRegister registration | WinStore "(string, string) gomap" | WinEvents bool | WinStart | WinStop | WinDelete

definition is_win_change :: "win_call \<Rightarrow> bool" where
  "is_win_change c \<longleftrightarrow> c \<noteq> WinAsk"

type_synonym 'w win_watched = "('w, win_call) noted"

definition win_recording :: "'w win_host \<Rightarrow> 'w win_watched win_host" where
  "win_recording h = \<lparr>wh_elevated = noting WinAsk (wh_elevated h), wh_executable = noting WinAsk (wh_executable h),
     wh_program_dir = noting WinAsk (wh_program_dir h), wh_config_dir = noting WinAsk (wh_config_dir h), wh_service = noting WinAsk (wh_service h),
     wh_copy = (\<lambda>a b. noting (WinCopy a b) (wh_copy h a b)), wh_remove = (\<lambda>p. noting (WinRemove p) (wh_remove h p)),
     wh_ensure_dir = (\<lambda>p. noting (WinEnsure p) (wh_ensure_dir h p)), wh_file_exists = (\<lambda>p. noting WinAsk (wh_file_exists h p)),
     wh_create = (\<lambda>p d. noting (WinCreate p d) (wh_create h p d)), wh_register = (\<lambda>r. noting (WinRegister r) (wh_register h r)),
     wh_store_env = (\<lambda>e. noting (WinStore e) (wh_store_env h e)), wh_event_source = (\<lambda>b. noting (WinEvents b) (wh_event_source h b)),
     wh_start = noting WinStart (wh_start h), wh_stop = noting WinStop (wh_stop h), wh_state = noting WinAsk (wh_state h),
     wh_delete = noting WinDelete (wh_delete h),
     wh_prompt = \<lparr>pm_secret = (\<lambda>p. noting WinAsk (pm_secret (wh_prompt h) p)), pm_line = (\<lambda>p. noting WinAsk (pm_line (wh_prompt h) p))\<rparr>,
     wh_now = (\<lambda>st. wh_now h (fst st)), wh_wait = (\<lambda>d st. case wh_wait h d (fst st) of (b, w) \<Rightarrow> (b, (w, snd st))),
     wh_equal_fold = wh_equal_fold h, wh_to_lower = wh_to_lower h\<rparr>"

lemma win_reads_ops [reading]:
  "reads_by is_win_change (wh_elevated (win_recording h))" "reads_by is_win_change (wh_executable (win_recording h))"
  "reads_by is_win_change (wh_program_dir (win_recording h))" "reads_by is_win_change (wh_config_dir (win_recording h))"
  "reads_by is_win_change (wh_service (win_recording h))" "reads_by is_win_change (wh_file_exists (win_recording h) p)"
  "reads_by is_win_change (wh_state (win_recording h))"
  "reads_by is_win_change (pm_secret (wh_prompt (win_recording h)) s)" "reads_by is_win_change (pm_line (wh_prompt (win_recording h)) s)"
  by (simp_all add: win_recording_def reads_noting is_win_change_def)

lemma win_reads_locate [reading]: "reads_by is_win_change (win_locate (win_recording h))"
  unfolding win_locate_def by (intro reading)

lemma win_reads_installation [reading]: "reads_by is_win_change (win_installation (win_recording h))"
  unfolding win_installation_def by (intro reading)

lemma win_reads_precheck [reading]: "harmless_by is_win_change io \<Longrightarrow> reads_by is_win_change (win_precheck io env p)"
  unfolding win_precheck_def harmless_by_def by (cases "io_precheck io") (auto intro: reading)

lemma win_reads_install: "harmless_by is_win_change io \<Longrightarrow> reads_by is_win_change (win_plan_install cfg starter (win_recording h) io)"
  unfolding win_plan_install_def Let_def by (intro reading)

lemma win_reads_uninstall: "reads_by is_win_change (win_plan_uninstall (win_recording h))"
  unfolding win_plan_uninstall_def Let_def by (intro reading)

section \<open>What the plans do\<close>

lemma win_ops:
  "wh_copy (win_recording h) a b = noting (WinCopy a b) (wh_copy h a b)"
  "wh_remove (win_recording h) p = noting (WinRemove p) (wh_remove h p)"
  "wh_ensure_dir (win_recording h) p = noting (WinEnsure p) (wh_ensure_dir h p)"
  "wh_create (win_recording h) p d = noting (WinCreate p d) (wh_create h p d)"
  "wh_register (win_recording h) r = noting (WinRegister r) (wh_register h r)"
  "wh_store_env (win_recording h) e = noting (WinStore e) (wh_store_env h e)"
  "wh_event_source (win_recording h) on = noting (WinEvents on) (wh_event_source h on)"
  "wh_start (win_recording h) = noting WinStart (wh_start h)" "wh_stop (win_recording h) = noting WinStop (wh_stop h)"
  "wh_delete (win_recording h) = noting WinDelete (wh_delete h)" "same_path (win_recording h) a b = same_path h a b"
  by (simp_all add: win_recording_def same_path_def)

lemma makes_win_did: "c \<noteq> WinAsk \<Longrightarrow> makes_by is_win_change (did (noting c f)) {[c]}"
  by (rule makes_did) (simp add: is_win_change_def)

lemma makes_ensure: "makes_by is_win_change (ensure_config_dir (win_recording h) d) {[WinEnsure d]}"
  and makes_create: "makes_by is_win_change (create_config (win_recording h) p s) {[WinCreate p s]}"
  and makes_remove: "makes_by is_win_change (remove_binary (win_recording h) t d) {[WinRemove t]}"
  unfolding makes_by_def
  by (auto simp: ensure_config_dir_def create_config_def remove_binary_def win_ops noting_def is_win_change_def split: prod.splits sum.splits)

lemma win_reads_check: "reads_by is_win_change (check_state (win_recording h))"
proof (rule readsI)
  fix st r st' assume "check_state (win_recording h) st = (r, st')"
  then obtain x where "wh_state (win_recording h) st = (x, st')" by (auto simp: check_state_def split: prod.splits sum.splits)
  from reads_run [OF win_reads_ops(7) this] show "\<exists>cs. snd st' = snd st @ cs \<and> filter is_win_change cs = []" .
qed

lemma win_reads_wait: "reads_by is_win_change (wh_wait (win_recording h) d)"
  by (rule readsI) (auto simp: win_recording_def split: prod.splits)

lemma makes_win_start: "makes_by is_win_change (start_service (win_recording h) settle poll) {[WinStart]}"
  by (rule makes_then_watch [where wt = "\<lparr>wt_now = wh_now (win_recording h), wt_check = check_state (win_recording h), wt_wait = wh_wait (win_recording h)\<rparr>"
        and f = "wh_start h" and g = "\<lambda>e. e"])
     (simp_all add: win_reads_check win_reads_wait start_service_def win_ops is_win_change_def)

definition win_install_calls :: "'w win_host \<Rightarrow> win_installed \<Rightarrow> string \<Rightarrow> string \<Rightarrow> string \<Rightarrow> string \<Rightarrow> bool \<Rightarrow> (string, string) gomap \<Rightarrow> win_call list" where
  "win_install_calls h inst exe prog_dir cfg_dir starter there env = (
     let target = win_join prog_dir win_binary_name in
     (if wi_exists inst \<and> wi_state inst \<noteq> WinStopped then [WinStop] else []) @ (if \<not> same_path h exe target then [WinCopy exe target] else [])
     @ [WinEnsure cfg_dir] @ (if there then [] else [WinCreate (win_join cfg_dir win_config_file) starter])
     @ [WinRegister (win_registration target), WinStore env, WinEvents True, WinStart])"

text \<open>The steps of the plan make the calls of such a list, one each.\<close>

lemma singles_snoc:
  assumes "makes_all chg (pn_steps p) (map (\<lambda>c. {[c]}) cs)" "makes_by chg act {[c]}"
  shows "makes_all chg (pn_steps (add_step desc act p)) (map (\<lambda>c. {[c]}) (cs @ [c]))"
  using makes_all_snoc [OF assms(1), where s = "\<lparr>sp_desc = desc, sp_detail = [], sp_apply = act\<rparr>"] assms(2)
  by (simp add: add_step_def add_detailed_def)

lemma win_install_steps:
  "makes_all is_win_change (pn_steps (win_finish (win_recording h) io inst (win_join prog_dir win_binary_name) env
       (win_plan_config (win_recording h) starter cfg_dir (win_join cfg_dir win_config_file) there
         (win_plan_binary (win_recording h) inst exe (win_join prog_dir win_binary_name) (new_plan\<lparr>pn_upgrade := a, pn_binary := b, pn_config := c,
            pn_log_hint := d, pn_stored := e, pn_checked := f\<rparr>)))))
     (map (\<lambda>c. {[c]}) (win_install_calls h inst exe prog_dir cfg_dir starter there env))"
proof -
  let ?h = "win_recording h" and ?t = "win_join prog_dir win_binary_name" and ?f = "win_join cfg_dir win_config_file"
  let ?S = "\<lambda>p cs. makes_all is_win_change (pn_steps p) (map (\<lambda>c. {[c]}) cs)"
  define p0 where "p0 = (new_plan :: ('a, win_call) noted splan)\<lparr>pn_upgrade := a, pn_binary := b, pn_config := c, pn_log_hint := d, pn_stored := e, pn_checked := f\<rparr>"
  have "?S p0 []" by (simp add: p0_def new_plan_def)
  then have one: "?S (win_plan_binary ?h inst exe ?t p0) ((if wi_exists inst \<and> wi_state inst \<noteq> WinStopped then [WinStop] else [])
      @ (if \<not> same_path h exe ?t then [WinCopy exe ?t] else []))"
    by (simp add: win_plan_binary_def Let_def win_ops makes_win_did add_step_def add_detailed_def p0_def new_plan_def)
  have cfg: "?S (win_plan_config ?h starter cfg_dir ?f there p) (cs @ [WinEnsure cfg_dir] @ (if there then [] else [WinCreate ?f starter]))" if "?S p cs" for p cs
  proof -
    have "?S ((add_step desc (ensure_config_dir ?h cfg_dir) p)\<lparr>pn_config_present := x\<rparr>) (cs @ [WinEnsure cfg_dir])" for desc x
      using singles_snoc [OF that makes_ensure] by simp
    from this singles_snoc [OF this makes_create] show ?thesis by (simp add: win_plan_config_def Let_def)
  qed
  have fin: "?S (win_finish ?h io inst ?t env p) (cs @ [WinRegister (win_registration ?t), WinStore env, WinEvents True, WinStart])" if "?S p cs" for p cs
  proof -
    note 1 = singles_snoc [OF that, where act = "did (wh_register ?h (win_registration ?t))" and c = "WinRegister (win_registration ?t)"]
    have 2: "?S (add_step d1 (did (wh_register ?h (win_registration ?t))) p) (cs @ [WinRegister (win_registration ?t)])" for d1
      by (rule 1) (simp add: win_ops makes_win_did)
    have 3: "?S (add_step d2 (did (wh_store_env ?h env)) (add_step d1 (did (wh_register ?h (win_registration ?t))) p))
        ((cs @ [WinRegister (win_registration ?t)]) @ [WinStore env])" for d1 d2
      by (rule singles_snoc [OF 2]) (simp add: win_ops makes_win_did)
    have 4: "?S (add_step d3 (did (wh_event_source ?h True)) (add_step d2 (did (wh_store_env ?h env)) (add_step d1 (did (wh_register ?h (win_registration ?t))) p)))
        (((cs @ [WinRegister (win_registration ?t)]) @ [WinStore env]) @ [WinEvents True])" for d1 d2 d3
      by (rule singles_snoc [OF 3]) (simp add: win_ops makes_win_did)
    from singles_snoc [OF this makes_win_start] show ?thesis by (simp add: win_finish_def Let_def)
  qed
  from fin [OF cfg [OF one]] show ?thesis by (simp add: p0_def win_install_calls_def Let_def)
qed

text \<open>A plan whose steps make one call each, applied: a beginning of the calls, all of them without an error.\<close>

lemma singles_applied:
  assumes "makes_all chg (pn_steps p) (map (\<lambda>c. {[c]}) calls)" "apply_plan p st = Some (r, ls, st')"
  shows "\<exists>cs. snd st' = snd st @ cs \<and> prefix (filter chg cs) calls \<and> (r = None \<longrightarrow> filter chg cs = calls)"
proof -
  obtain ls' where run: "apply_steps (pn_steps p) st = Some (r, ls', st')" using apply_plan_steps [OF assms(2)] by blast
  have "\<forall>X \<in> set (map (\<lambda>c. {[c]}) calls). X \<noteq> {}" by auto
  from makes_steps [OF assms(1) this run] show ?thesis unfolding runs_of_singles by blast
qed

definition win_free :: "'w win_host \<Rightarrow> win_installed \<Rightarrow> string \<Rightarrow> bool" where
  "win_free h inst target \<longleftrightarrow> wi_exists inst \<longrightarrow> same_path h (wi_binary inst) target"

lemma win_ours_free: "win_ours (win_recording h) inst target = Inr x \<longleftrightarrow> win_free h inst target"
  by (simp add: win_ours_def win_free_def win_ops)

definition win_uninstall_calls :: "win_installed \<Rightarrow> string \<Rightarrow> win_call list" where
  "win_uninstall_calls inst target = (if wi_state inst \<noteq> WinStopped then [WinStop] else []) @ [WinDelete, WinEvents False, WinRemove target]"

lemma win_uninstall_changes:
  assumes "win_plan_uninstall (win_recording h) st = (Inr p, st1)" "\<not> pn_not_installed p" "apply_plan p st2 = Some (r, ls, st3)"
  shows "\<exists>inst prog_dir cs. wi_exists inst \<and> win_free h inst (win_join prog_dir win_binary_name) \<and> snd st3 = snd st2 @ cs
    \<and> prefix (filter is_win_change cs) (win_uninstall_calls inst (win_join prog_dir win_binary_name))
    \<and> (r = None \<longrightarrow> filter is_win_change cs = win_uninstall_calls inst (win_join prog_dir win_binary_name))"
proof -
  let ?h = "win_recording h"
  from assms(1,2) obtain prog_dir cfg_dir inst x where run: "wi_exists inst" "win_ours ?h inst (win_join prog_dir win_binary_name) = Inr x"
    "p = win_removal ?h inst (win_join prog_dir win_binary_name) prog_dir cfg_dir"
    unfolding win_plan_uninstall_def Let_def by (elim andthenE) (auto simp: give_Inr split: if_splits elim!: andthenE)
  have "makes_all is_win_change (pn_steps p) (map (\<lambda>c. {[c]}) (win_uninstall_calls inst (win_join prog_dir win_binary_name)))"
    by (simp add: run(3) win_removal_def Let_def win_uninstall_calls_def add_step_def add_detailed_def new_plan_def win_ops makes_win_did makes_remove)
  from singles_applied [OF this assms(3)] run(1) run(2) [unfolded win_ours_free] show ?thesis by blast
qed

text \<open>What an accepted plan is, for any host.\<close>

lemma win_install_shape:
  assumes "win_plan_install cfg starter h io st = (Inr p, st1)"
  shows "\<exists>exe prog_dir cfg_dir inst env ck there w1 w2 w3 w4 w5 w6 w7.
     wh_elevated h st = (True, w1) \<and> wh_executable h w1 = (Inr exe, w2) \<and> wh_program_dir h w2 = (Inr prog_dir, w3) \<and> wh_config_dir h w3 = (Inr cfg_dir, w4)
     \<and> wh_service h w4 = (Inr inst, w5) \<and> win_ours h inst (win_join prog_dir win_binary_name) = Inr ()
     \<and> resolve_settings cfg (wh_prompt h) \<lparr>sx_stored = wi_env inst, sx_getenv = io_getenv io, sx_names = captured, sx_replace = io_replace io,
          sx_config = win_join cfg_dir win_config_file\<rparr> w5 = (Inr env, w6)
     \<and> win_precheck io env (win_join cfg_dir win_config_file) w6 = (Inr ck, w7) \<and> wh_file_exists h (win_join cfg_dir win_config_file) w7 = (there, st1)
     \<and> p = win_finish h io inst (win_join prog_dir win_binary_name) env (win_plan_config h starter cfg_dir (win_join cfg_dir win_config_file) there
       (win_plan_binary h inst exe (win_join prog_dir win_binary_name) (new_plan\<lparr>pn_upgrade := wi_exists inst, pn_binary := win_join prog_dir win_binary_name,
          pn_config := win_join cfg_dir win_config_file, pn_log_hint := win_log_hint, pn_stored := gm_keys env, pn_checked := ck\<rparr>)))"
  using assms unfolding win_plan_install_def Let_def
  by (elim andthenE) (auto simp: give_Inr failing_Inr asking_def attempt_def split: prod.splits if_splits)

text \<open>
  What planning an installation saw of the host, by the chain of its readings, each in the world the one before left.
\<close>

record win_seen =
  ws_exe :: string
  ws_prog_dir :: string
  ws_cfg_dir :: string
  ws_inst :: win_installed
  ws_env :: "(string, string) gomap"
  ws_there :: bool

definition ws_target :: "win_seen \<Rightarrow> string" where
  "ws_target s = win_join (ws_prog_dir s) win_binary_name"

definition win_sees :: "(string \<Rightarrow> (string \<Rightarrow> string) \<Rightarrow> config_error + config_settings) \<Rightarrow> 'w win_host \<Rightarrow> 'w install_options \<Rightarrow> 'w \<Rightarrow> win_seen \<Rightarrow> 'w \<Rightarrow> bool" where
  "win_sees cfg h io st s st' \<longleftrightarrow> (let cfg_path = win_join (ws_cfg_dir s) win_config_file in \<exists>w1 w2 w3 w4 w5 w6 w7 ck.
     wh_elevated h st = (True, w1) \<and> wh_executable h w1 = (Inr (ws_exe s), w2) \<and> wh_program_dir h w2 = (Inr (ws_prog_dir s), w3)
     \<and> wh_config_dir h w3 = (Inr (ws_cfg_dir s), w4) \<and> wh_service h w4 = (Inr (ws_inst s), w5)
     \<and> resolve_settings cfg (wh_prompt h) \<lparr>sx_stored = wi_env (ws_inst s), sx_getenv = io_getenv io, sx_names = captured,
          sx_replace = io_replace io, sx_config = cfg_path\<rparr> w5 = (Inr (ws_env s), w6)
     \<and> win_precheck io (ws_env s) cfg_path w6 = (Inr ck, w7) \<and> wh_file_exists h cfg_path w7 = (ws_there s, st'))"

text \<open>Installing changes only what is the service's, in one order.\<close>

lemma win_install_made:
  assumes "win_plan_install cfg starter (win_recording h) io st = (Inr p, st1)" "apply_plan p st2 = Some (r, ls, st3)"
  shows "\<exists>s cs. win_sees cfg (win_recording h) io st s st1 \<and> win_free h (ws_inst s) (ws_target s) \<and> snd st3 = snd st2 @ cs
    \<and> prefix (filter is_win_change cs) (win_install_calls h (ws_inst s) (ws_exe s) (ws_prog_dir s) (ws_cfg_dir s) starter (ws_there s) (ws_env s))
    \<and> (r = None \<longrightarrow> filter is_win_change cs = win_install_calls h (ws_inst s) (ws_exe s) (ws_prog_dir s) (ws_cfg_dir s) starter (ws_there s) (ws_env s))"
proof -
  let ?h = "win_recording h"
  from win_install_shape [OF assms(1)] obtain exe prog_dir cfg_dir inst env ck there w1 w2 w3 w4 w5 w6 w7 where run:
     "wh_elevated ?h st = (True, w1)" "wh_executable ?h w1 = (Inr exe, w2)" "wh_program_dir ?h w2 = (Inr prog_dir, w3)"
     "wh_config_dir ?h w3 = (Inr cfg_dir, w4)" "wh_service ?h w4 = (Inr inst, w5)"
     "resolve_settings cfg (wh_prompt ?h) \<lparr>sx_stored = wi_env inst, sx_getenv = io_getenv io, sx_names = captured, sx_replace = io_replace io,
          sx_config = win_join cfg_dir win_config_file\<rparr> w5 = (Inr env, w6)"
     "win_precheck io env (win_join cfg_dir win_config_file) w6 = (Inr ck, w7)" "wh_file_exists ?h (win_join cfg_dir win_config_file) w7 = (there, st1)"
     and ours: "win_ours ?h inst (win_join prog_dir win_binary_name) = Inr ()"
     and p: "p = win_finish ?h io inst (win_join prog_dir win_binary_name) env (win_plan_config ?h starter cfg_dir (win_join cfg_dir win_config_file) there
       (win_plan_binary ?h inst exe (win_join prog_dir win_binary_name) (new_plan\<lparr>pn_upgrade := wi_exists inst, pn_binary := win_join prog_dir win_binary_name,
          pn_config := win_join cfg_dir win_config_file, pn_log_hint := win_log_hint, pn_stored := gm_keys env, pn_checked := ck\<rparr>)))"
    by (elim exE conjE) (rule that, assumption+)
  let ?s = "\<lparr>ws_exe = exe, ws_prog_dir = prog_dir, ws_cfg_dir = cfg_dir, ws_inst = inst, ws_env = env, ws_there = there\<rparr>"
  have "win_sees cfg ?h io st ?s st1" unfolding win_sees_def Let_def win_seen.simps using run by blast
  moreover have "win_free h inst (ws_target ?s)" using ours by (simp add: win_ours_free ws_target_def)
  moreover obtain cs where "snd st3 = snd st2 @ cs" "prefix (filter is_win_change cs) (win_install_calls h inst exe prog_dir cfg_dir starter there env)"
      "r = None \<longrightarrow> filter is_win_change cs = win_install_calls h inst exe prog_dir cfg_dir starter there env"
    using singles_applied [OF win_install_steps assms(2) [unfolded p]] by blast
  ultimately show ?thesis by (intro exI [of _ ?s] exI [of _ cs]) simp
qed

text \<open>A service of that name whose binary is another stops the planning, with nothing changed.\<close>

lemma foreign_refused:
  assumes "wh_elevated h st = (True, w1)" "wh_executable h w1 = (Inr exe, w2)" "wh_program_dir h w2 = (Inr dir, w3)" "wh_config_dir h w3 = (Inr cdir, w4)"
    "wh_service h w4 = (Inr inst, w5)" "wi_exists inst" "\<not> same_path h (wi_binary inst) (win_join dir win_binary_name)"
  shows "win_plan_install cfg starter h io st = (Inl (ForeignService (wi_binary inst)), w5)"
  using assms by (simp add: win_plan_install_def andthen_def asking_def failing_def give_def win_ours_def Let_def)

section \<open>Under the service manager\<close>

definition is_stop :: "win_event \<Rightarrow> bool" where
  "is_stop ev \<longleftrightarrow> (case ev of Request c s \<Rightarrow> c \<in> {StopCmd, ShutdownCmd, PreShutdownCmd} | _ \<Rightarrow> False)"

definition is_done :: "win_event \<Rightarrow> bool" where
  "is_done ev \<longleftrightarrow> (case ev of MainDone c \<Rightarrow> True | _ \<Rightarrow> False)"

definition pending_points :: "win_status list \<Rightarrow> 32 word list" where
  "pending_points ss = concat (map (\<lambda>s. case s of StatusStopPending c \<Rightarrow> [c] | _ \<Rightarrow> []) ss)"

text \<open>The progress reports count up from one, and the daemon is told to stop once, by the first request to stop.\<close>

definition handler_ok :: "win_event list \<Rightarrow> handler_state \<Rightarrow> bool" where
  "handler_ok seen hs \<longleftrightarrow> hs_stopping hs = list_ex is_stop seen \<and> hs_cancelled hs = (if list_ex is_stop seen then 1 else 0)
     \<and> pending_points (hs_sent hs) = map word_of_nat [1..<Suc (length (pending_points (hs_sent hs)))]
     \<and> hs_checkpoint hs = word_of_nat (length (pending_points (hs_sent hs)))"

lemma points_send [simp]: "pending_points (ss @ [StatusStopPending c]) = pending_points ss @ [c]"
  "pending_points (ss @ [StatusOf n]) = pending_points ss"
  by (simp_all add: pending_points_def)

lemma handler_ok_pending: "handler_ok seen hs \<Longrightarrow> handler_ok seen (send_pending hs)"
  by (auto simp: handler_ok_def send_pending_def send_def Let_def upt_Suc_append)

lemma handler_ok_step:
  assumes "handler_ok seen hs" "\<not> is_done ev"
  shows "handler_ok (seen @ [ev]) (handler_step ev hs)"
proof -
  have keep: "handler_ok (seen @ [ev]) hs'" if "handler_ok seen hs'" "\<not> is_stop ev" for hs'
    using that by (simp add: handler_ok_def)
  show ?thesis
  proof (cases ev)
    case (Request c s)
    show ?thesis
    proof (cases "is_stop ev")
      case True
      have "handler_ok (seen @ [ev]) (if hs_stopping hs then hs else hs\<lparr>hs_stopping := True, hs_cancelled := Suc (hs_cancelled hs)\<rparr>)"
        using assms(1) True by (simp add: handler_ok_def del: upt_Suc)
      from handler_ok_pending [OF this] show ?thesis using True Request by (cases c) (simp_all add: handler_step_def is_stop_def)
    next
      case False
      moreover have "handler_ok seen (send (StatusOf s) hs)" using assms(1) by (simp add: handler_ok_def send_def)
      ultimately show ?thesis using Request keep assms(1) by (cases c) (simp_all add: handler_step_def is_stop_def)
    qed
  next
    case Tick
    then show ?thesis using keep assms(1) handler_ok_pending [OF assms(1)] by (simp add: handler_step_def is_stop_def)
  qed (use assms(2) in \<open>simp add: is_done_def\<close>)
qed

lemma win_execute_ok: "handler_ok seen hs \<Longrightarrow> win_execute evs hs = (r, hs') \<Longrightarrow> handler_ok (seen @ takeWhile (\<lambda>e. \<not> is_done e) evs) hs'
    \<and> (case dropWhile (\<lambda>e. \<not> is_done e) evs of MainDone c # _ \<Rightarrow> r = Some (c, c \<noteq> 0, c) | _ \<Rightarrow> r = None)"
proof (induction evs arbitrary: seen hs)
  case (Cons ev evs)
  show ?case
  proof (cases "is_done ev")
    case True
    then show ?thesis using Cons.prems by (cases ev) (auto simp: is_done_def split: if_splits)
  next
    case False
    then have "win_execute evs (handler_step ev hs) = (r, hs')" using Cons.prems(2) by (cases ev) (simp_all add: is_done_def)
    from Cons.IH [OF handler_ok_step [OF Cons.prems(1) False] this] False show ?thesis by simp
  qed
qed simp

text \<open>
  The service manager sees the daemon's end and nothing else ends it. Whatever requests arrive, in whatever order, the daemon is told
  to stop exactly once, when the first request to stop arrives, the reports of progress count up by one, and the
  exit code is the daemon's own, reported as a failure exactly when it is not zero.
\<close>

lemma service_reports:
  assumes "win_execute evs handler_start = (r, hs)"
  shows "handler_ok (takeWhile (\<lambda>e. \<not> is_done e) evs) hs
    \<and> (case dropWhile (\<lambda>e. \<not> is_done e) evs of MainDone c # _ \<Rightarrow> r = Some (c, c \<noteq> 0, c) | _ \<Rightarrow> r = None)"
proof -
  have "handler_ok [] handler_start" by (simp add: handler_ok_def handler_start_def send_def pending_points_def)
  from win_execute_ok [OF this assms] show ?thesis by simp
qed

end
