(* ===== verification/Winfake.thy ===== *)
theory Winfake
  imports Winsvc Gonum
begin

text \<open>
  \<open>internal/winsvc/fakehost\<close>: the in-memory Windows that the tests of the service run on, as a host over its own state;
  and what a whole cycle of installing, asking for and removing the service comes to on it. \<open>wf_clock\<close> is the
  machine's clock, which the watch after the start reads.
\<close>

section \<open>The fake host\<close>

record win_fake =
  wf_elevated :: bool
  wf_exe :: string
  wf_prog_dir :: string
  wf_cfg_dir :: string
  wf_svc :: win_installed
  wf_after_start :: win_state
  wf_secret :: "prompt_error + string"
  wf_line :: "prompt_error + string"
  wf_in_use :: "(string, string) gomap"
  wf_loose :: bool
  wf_existing :: "(string, bool) gomap"
  wf_created :: "(string, string) gomap"
  wf_fail :: "(string, string) gomap"
  wf_calls :: "string list"
  wf_prompts :: nat
  wf_line_prompts :: nat
  wf_registered :: "registration option"
  wf_events :: bool
  wf_clock :: int

text \<open>A call is recorded by its text; its first word says whether it fails.\<close>

definition call_name :: "string \<Rightarrow> string" where
  "call_name what = (case cut_at (CHR '' '') what of None \<Rightarrow> what | Some (a, _) \<Rightarrow> a)"

definition wf_record :: "string \<Rightarrow> win_fake \<Rightarrow> string option \<times> win_fake" where
  "wf_record what w = (gm_get (wf_fail w) (call_name what), w\<lparr>wf_calls := wf_calls w @ [what]\<rparr>)"

definition wf_answer :: "win_fake \<Rightarrow> string \<Rightarrow> 'a \<Rightarrow> string + 'a" where
  "wf_answer w name x = (case gm_get (wf_fail w) name of Some e \<Rightarrow> Inl e | None \<Rightarrow> Inr x)"

text \<open>A recorded call and what it changes when it does not fail.\<close>

definition wf_do :: "string \<Rightarrow> (win_fake \<Rightarrow> win_fake) \<Rightarrow> win_fake \<Rightarrow> string option \<times> win_fake" where
  "wf_do what upd w = (case wf_record what w of (Some e, w1) \<Rightarrow> (Some e, w1) | (None, w1) \<Rightarrow> (None, upd w1))"

definition wf_create :: "string \<Rightarrow> string \<Rightarrow> win_fake \<Rightarrow> (string + bool) \<times> win_fake" where
  "wf_create path data w = (case wf_record (''CreateFile '' @ path) w of
       (Some e, w1) \<Rightarrow> (Inl e, w1)
     | (None, w1) \<Rightarrow> (if gm_getd False (wf_existing w1) path then (Inr False, w1)
         else (Inr True, w1\<lparr>wf_created := gm_put path data (wf_created w1)\<rparr>)))"

definition win_fake_host :: "(string \<Rightarrow> string \<Rightarrow> bool) \<Rightarrow> (string \<Rightarrow> string) \<Rightarrow> win_fake win_host" where
  "win_fake_host equal_fold to_lower = \<lparr>
     wh_elevated = (\<lambda>w. (wf_elevated w, w)), wh_executable = (\<lambda>w. (Inr (wf_exe w), w)),
     wh_program_dir = (\<lambda>w. (Inr (wf_prog_dir w), w)), wh_config_dir = (\<lambda>w. (Inr (wf_cfg_dir w), w)),
     wh_service = (\<lambda>w. (wf_answer w ''Service'' (wf_svc w), w)),
     wh_copy = (\<lambda>src dst. wf_do (''CopyBinary '' @ src @ '' -> '' @ dst) (\<lambda>w. w)),
     wh_remove = (\<lambda>path w. case wf_record (''RemoveBinary '' @ path) w of
         (Some e, w1) \<Rightarrow> (Inl e, w1) | (None, w1) \<Rightarrow> (Inr (gm_getd [] (wf_in_use w1) path), w1)),
     wh_ensure_dir = (\<lambda>path w. case wf_record (''EnsureConfigDir '' @ path) w of
         (Some e, w1) \<Rightarrow> (Inl e, w1) | (None, w1) \<Rightarrow> (Inr (wf_loose w1), w1)),
     wh_file_exists = (\<lambda>path w. (gm_getd False (wf_existing w) path \<or> gm_has (wf_created w) path, w)),
     wh_create = wf_create,
     wh_register = (\<lambda>r. wf_do (''Register '' @ rn_binary r) (\<lambda>w. w\<lparr>wf_registered := Some r,
         wf_svc := (wf_svc w)\<lparr>wi_exists := True, wi_binary := rn_binary r\<rparr>\<rparr>)),
     wh_store_env = (\<lambda>env. wf_do (''StoreEnv '' @ itoa (int (length env))) (\<lambda>w. w\<lparr>wf_svc := (wf_svc w)\<lparr>wi_env := env\<rparr>\<rparr>)),
     wh_event_source = (\<lambda>on. wf_do (''EventSource '' @ (if on then ''true'' else ''false'')) (\<lambda>w. w\<lparr>wf_events := on\<rparr>)),
     wh_start = wf_do ''Start'' (\<lambda>w. w\<lparr>wf_svc := (wf_svc w)\<lparr>wi_state := wf_after_start w\<rparr>\<rparr>),
     wh_stop = wf_do ''Stop'' (\<lambda>w. w\<lparr>wf_svc := (wf_svc w)\<lparr>wi_state := WinStopped\<rparr>\<rparr>),
     wh_state = (\<lambda>w. (wf_answer w ''State'' (wi_state (wf_svc w)), w)),
     wh_delete = wf_do ''Delete'' (\<lambda>w. w\<lparr>wf_svc := \<lparr>wi_exists = False, wi_binary = [], wi_state = WinStopped, wi_env = []\<rparr>\<rparr>),
     wh_prompt = \<lparr>pm_secret = (\<lambda>s w. (wf_secret w, w\<lparr>wf_prompts := Suc (wf_prompts w)\<rparr>)),
        pm_line = (\<lambda>s w. (wf_line w, w\<lparr>wf_line_prompts := Suc (wf_line_prompts w)\<rparr>))\<rparr>,
     wh_now = wf_clock, wh_wait = (\<lambda>d w. (True, w\<lparr>wf_clock := wf_clock w + d\<rparr>)),
     wh_equal_fold = equal_fold, wh_to_lower = to_lower\<rparr>"

section \<open>Steps that succeed\<close>

text \<open>The state without what only counts or records: the calls, the prompts and the clock.\<close>

definition win_view :: "win_fake \<Rightarrow> win_fake" where
  "win_view w = w\<lparr>wf_calls := [], wf_prompts := 0, wf_line_prompts := 0, wf_clock := 0\<rparr>"

text \<open>A fake on which nothing fails and whose service keeps running once it is started.\<close>

definition working :: "win_fake \<Rightarrow> bool" where
  "working w \<longleftrightarrow> wf_fail w = [] \<and> wf_after_start w \<noteq> WinStopped"

lemma view_fields [simp]:
  "wf_elevated (win_view w) = wf_elevated w" "wf_exe (win_view w) = wf_exe w" "wf_prog_dir (win_view w) = wf_prog_dir w"
  "wf_cfg_dir (win_view w) = wf_cfg_dir w" "wf_svc (win_view w) = wf_svc w" "wf_fail (win_view w) = wf_fail w"
  "wf_after_start (win_view w) = wf_after_start w" "wf_existing (win_view w) = wf_existing w" "wf_created (win_view w) = wf_created w"
  "wf_registered (win_view w) = wf_registered w" "wf_events (win_view w) = wf_events w" "working (win_view w) = working w"
  by (simp_all add: win_view_def working_def)

definition performs :: "(win_fake \<Rightarrow> ((string + string) \<times> win_fake) option) \<Rightarrow> (win_fake \<Rightarrow> win_fake) \<Rightarrow> bool" where
  "performs act upd \<longleftrightarrow> (\<forall>w. working w \<longrightarrow> (\<exists>nt w'. act w = Some (Inr nt, w') \<and> win_view w' = upd (win_view w) \<and> working w'))"

lemma apply_performs:
  "list_all2 (\<lambda>s u. performs (sp_apply s) u) ss us \<Longrightarrow> working w \<Longrightarrow> \<exists>ls w'. apply_steps ss w = Some (None, ls, w') \<and> win_view w' = foldl (\<lambda>v u. u v) (win_view w) us \<and> working w'"
proof (induction ss us arbitrary: w rule: list_all2_induct)
  case (Cons s ss u us)
  then obtain nt w1 where 1: "sp_apply s w = Some (Inr nt, w1)" "win_view w1 = u (win_view w)" "working w1"
    unfolding performs_def by blast
  from Cons.IH [OF 1(3)] obtain ls w' where "apply_steps ss w1 = Some (None, ls, w')" "win_view w' = foldl (\<lambda>v u. u v) (win_view w1) us" "working w'" by blast
  then show ?case using 1 by simp
qed simp

lemma performs_do:
  assumes "\<And>w cs. win_view (upd (w\<lparr>wf_calls := cs\<rparr>)) = upd (win_view w)" "\<And>w. working w \<Longrightarrow> working (upd w)"
  shows "performs (did (wf_do what upd)) upd"
proof -
  have "working (w\<lparr>wf_calls := cs\<rparr>) = working w" for w cs by (simp add: working_def)
  then show ?thesis using assms unfolding performs_def by (auto simp: did_def wf_do_def wf_record_def working_def)
qed

lemma fake_now: "wh_now (win_fake_host ef lo) w = wf_clock w"
  by (simp add: win_fake_host_def)

lemma fake_watch:
  assumes "working w" "wi_state (wf_svc w) \<noteq> WinStopped" "0 < poll"
  shows "\<exists>nt w'. watch_loop \<lparr>wt_now = wh_now (win_fake_host ef lo), wt_check = check_state (win_fake_host ef lo), wt_wait = wh_wait (win_fake_host ef lo)\<rparr> poll deadline w
     = Some (Inr nt, w') \<and> win_view w' = win_view w \<and> working w'"
  using assms(1,2)
proof (induction "nat (deadline - wf_clock w)" arbitrary: w rule: less_induct)
  case less
  have check: "check_state (win_fake_host ef lo) w = (Inr (state_text (wi_state (wf_svc w))), w)"
    using less.prems by (simp add: check_state_def win_fake_host_def wf_answer_def working_def)
  show ?case
  proof (cases "deadline \<le> wf_clock w")
    case True
    then show ?thesis using check less.prems by (subst watch_loop.simps) (simp add: win_fake_host_def)
  next
    case False
    let ?w = "w\<lparr>wf_clock := wf_clock w + poll\<rparr>"
    have "nat (deadline - wf_clock ?w) < nat (deadline - wf_clock w)" "working ?w" "wi_state (wf_svc ?w) \<noteq> WinStopped"
      using False assms(3) less.prems by (simp_all add: working_def)
    from less.hyps [OF this] False check show ?thesis by (subst watch_loop.simps) (simp add: win_fake_host_def win_view_def)
  qed
qed

lemma performs_start: "performs (start_service (win_fake_host ef lo) settle poll) (\<lambda>v. v\<lparr>wf_svc := (wf_svc v)\<lparr>wi_state := wf_after_start v\<rparr>\<rparr>)"
proof -
  let ?h = "win_fake_host ef lo"
  have "\<exists>nt w'. start_service ?h settle poll w = Some (Inr nt, w')
      \<and> win_view w' = (win_view w)\<lparr>wf_svc := (wf_svc w)\<lparr>wi_state := wf_after_start w\<rparr>\<rparr> \<and> working w'" if w: "working w" for w
  proof -
    let ?w = "w\<lparr>wf_calls := wf_calls w @ [''Start''], wf_svc := (wf_svc w)\<lparr>wi_state := wf_after_start w\<rparr>\<rparr>"
    have start: "wh_start ?h w = (None, ?w)" using w by (simp add: win_fake_host_def wf_do_def wf_record_def working_def)
    have wk: "working ?w" "wi_state (wf_svc ?w) \<noteq> WinStopped" using w by (simp_all add: working_def)
    have pos: "0 < (if poll \<le> 0 then default_poll else poll)" by (simp add: default_poll_def)
    from fake_watch [OF wk pos, of ef lo "wf_clock ?w + settle"]
    obtain nt w' where "watch \<lparr>wt_now = wh_now ?h, wt_check = check_state ?h, wt_wait = wh_wait ?h\<rparr> settle poll ?w = Some (Inr nt, w')"
        "win_view w' = win_view ?w" "working w'"
      by (auto simp: watch_def fake_now)
    then show ?thesis using start by (simp add: start_service_def win_view_def)
  qed
  then show ?thesis unfolding performs_def by simp
qed

lemma performs_ensure: "performs (ensure_config_dir (win_fake_host ef lo) d) id"
  unfolding performs_def by (auto simp: ensure_config_dir_def win_fake_host_def wf_record_def working_def win_view_def)

lemma performs_create: "performs (create_config (win_fake_host ef lo) path data)
    (\<lambda>v. if gm_getd False (wf_existing v) path then v else v\<lparr>wf_created := gm_put path data (wf_created v)\<rparr>)"
  unfolding performs_def by (auto simp: create_config_def win_fake_host_def wf_create_def wf_record_def working_def win_view_def)

lemma performs_remove: "performs (remove_binary (win_fake_host ef lo) t d) id"
  unfolding performs_def by (auto simp: remove_binary_def win_fake_host_def wf_record_def working_def win_view_def)

section \<open>A whole cycle\<close>

definition performs_all :: "win_fake splan \<Rightarrow> (win_fake \<Rightarrow> win_fake) list \<Rightarrow> bool" where
  "performs_all p us \<longleftrightarrow> list_all2 (\<lambda>s u. performs (sp_apply s) u) (pn_steps p) us"

lemma performs_add: "performs_all p us \<Longrightarrow> performs act u \<Longrightarrow> performs_all (add_step desc act p) (us @ [u])"
  by (simp add: performs_all_def add_step_def add_detailed_def list_all2_appendI)

lemma performs_applied:
  assumes "performs_all p us" "working w"
  shows "\<exists>ls w'. apply_plan p w = Some (None, ls, w') \<and> win_view w' = foldl (\<lambda>v u. u v) (win_view w) us \<and> working w'"
  using apply_performs [OF assms(1) [unfolded performs_all_def] assms(2)] by (auto simp: apply_plan_def)

lemma performs_calls:
  "performs (did (wh_stop (win_fake_host ef lo))) (\<lambda>v. v\<lparr>wf_svc := (wf_svc v)\<lparr>wi_state := WinStopped\<rparr>\<rparr>)"
  "performs (did (wh_copy (win_fake_host ef lo) src dst)) (\<lambda>v. v)"
  "performs (did (wh_register (win_fake_host ef lo) r)) (\<lambda>v. v\<lparr>wf_registered := Some r, wf_svc := (wf_svc v)\<lparr>wi_exists := True, wi_binary := rn_binary r\<rparr>\<rparr>)"
  "performs (did (wh_store_env (win_fake_host ef lo) env)) (\<lambda>v. v\<lparr>wf_svc := (wf_svc v)\<lparr>wi_env := env\<rparr>\<rparr>)"
  "performs (did (wh_event_source (win_fake_host ef lo) on)) (\<lambda>v. v\<lparr>wf_events := on\<rparr>)"
  "performs (did (wh_delete (win_fake_host ef lo)))
     (\<lambda>v. v\<lparr>wf_svc := \<lparr>wi_exists = False, wi_binary = [], wi_state = WinStopped, wi_env = []\<rparr>\<rparr>)"
  by (simp add: win_fake_host_def split del: if_split, rule performs_do; simp add: win_view_def working_def)+

text \<open>What an installation makes of the state.\<close>

definition win_install_updates :: "bool \<Rightarrow> bool \<Rightarrow> bool \<Rightarrow> string \<Rightarrow> string \<Rightarrow> string \<Rightarrow> (string, string) gomap \<Rightarrow> (win_fake \<Rightarrow> win_fake) list" where
  "win_install_updates stop copy there cfg_path starter target env =
     (if stop then [\<lambda>v. v\<lparr>wf_svc := (wf_svc v)\<lparr>wi_state := WinStopped\<rparr>\<rparr>] else []) @ (if copy then [\<lambda>v. v] else []) @ [id]
     @ (if there then [] else [\<lambda>v. if gm_getd False (wf_existing v) cfg_path then v else v\<lparr>wf_created := gm_put cfg_path starter (wf_created v)\<rparr>])
     @ [\<lambda>v. v\<lparr>wf_registered := Some (win_registration target), wf_svc := (wf_svc v)\<lparr>wi_exists := True, wi_binary := target\<rparr>\<rparr>]
     @ [\<lambda>v. v\<lparr>wf_svc := (wf_svc v)\<lparr>wi_env := env\<rparr>\<rparr>] @ [\<lambda>v. v\<lparr>wf_events := True\<rparr>]
     @ [\<lambda>v. v\<lparr>wf_svc := (wf_svc v)\<lparr>wi_state := wf_after_start v\<rparr>\<rparr>]"

lemma performs_present: "performs_all (p\<lparr>pn_config_present := b\<rparr>) us = performs_all p us"
  by (simp add: performs_all_def)

lemma performs_install:
  assumes "pn_steps p0 = []"
  shows "performs_all (win_finish (win_fake_host ef lo) io inst target env (win_plan_config (win_fake_host ef lo) starter cfg_dir cfg_path there
       (win_plan_binary (win_fake_host ef lo) inst exe target p0)))
     (win_install_updates (wi_exists inst \<and> wi_state inst \<noteq> WinStopped) (\<not> same_path (win_fake_host ef lo) exe target) there cfg_path starter target env)"
proof -
  let ?h = "win_fake_host ef lo"
  define A where "A = (if wi_exists inst \<and> wi_state inst \<noteq> WinStopped then [\<lambda>v :: win_fake. v\<lparr>wf_svc := (wf_svc v)\<lparr>wi_state := WinStopped\<rparr>\<rparr>] else [])"
  define B where "B = (if \<not> same_path ?h exe target then [\<lambda>v :: win_fake. v] else [])"
  define D where "D = (if there then [] else [\<lambda>v :: win_fake. if gm_getd False (wf_existing v) cfg_path then v else v\<lparr>wf_created := gm_put cfg_path starter (wf_created v)\<rparr>])"
  have "performs_all p0 []" using assms by (simp add: performs_all_def)
  from performs_add [OF this performs_calls(1)] this
  have "performs_all (if wi_exists inst \<and> wi_state inst \<noteq> WinStopped then add_step d (did (wh_stop ?h)) p0 else p0) A" for d
    by (simp add: A_def)
  from performs_add [OF this performs_calls(2)] this
  have "performs_all (win_plan_binary ?h inst exe target p0) (A @ B)" by (simp add: win_plan_binary_def Let_def B_def)
  from performs_add [OF this performs_ensure] have "performs_all ((add_step d (ensure_config_dir ?h cfg_dir) (win_plan_binary ?h inst exe target p0))
      \<lparr>pn_config_present := x\<rparr>) ((A @ B) @ [id])" for d x by (simp only: performs_present)
  from performs_add [OF this performs_create] this
  have "performs_all (win_plan_config ?h starter cfg_dir cfg_path there (win_plan_binary ?h inst exe target p0)) (((A @ B) @ [id]) @ D)"
    by (cases there) (simp_all add: win_plan_config_def Let_def D_def)
  then have "performs_all (win_finish ?h io inst target env (win_plan_config ?h starter cfg_dir cfg_path there (win_plan_binary ?h inst exe target p0)))
      ((((((((A @ B) @ [id]) @ D) @ [\<lambda>v. v\<lparr>wf_registered := Some (win_registration target), wf_svc := (wf_svc v)\<lparr>wi_exists := True, wi_binary := rn_binary (win_registration target)\<rparr>\<rparr>])
        @ [\<lambda>v. v\<lparr>wf_svc := (wf_svc v)\<lparr>wi_env := env\<rparr>\<rparr>]) @ [\<lambda>v. v\<lparr>wf_events := True\<rparr>]))
        @ [\<lambda>v. v\<lparr>wf_svc := (wf_svc v)\<lparr>wi_state := wf_after_start v\<rparr>\<rparr>])"
    unfolding win_finish_def Let_def by (intro performs_add performs_calls performs_start)
  then show ?thesis by (simp only: win_install_updates_def A_def [symmetric] B_def [symmetric] D_def [symmetric] append_assoc win_registration_def registration.simps)
qed

lemma fake_uninstalls:
  assumes "working w" "wf_elevated w" "wi_exists (wf_svc w)" "wi_binary (wf_svc w) = win_join (wf_prog_dir w) win_binary_name" "\<And>s. ef s s"
  shows "\<exists>p ls w2. win_plan_uninstall (win_fake_host ef lo) w = (Inr p, w) \<and> apply_plan p w = Some (None, ls, w2) \<and> working w2
    \<and> win_view w2 = (win_view w)\<lparr>wf_svc := \<lparr>wi_exists = False, wi_binary = [], wi_state = WinStopped, wi_env = []\<rparr>, wf_events := False\<rparr>"
proof -
  let ?h = "win_fake_host ef lo" and ?t = "win_join (wf_prog_dir w) win_binary_name"
  let ?p = "win_removal ?h (wf_svc w) ?t (wf_prog_dir w) (wf_cfg_dir w)"
  have plan: "win_plan_uninstall ?h w = (Inr ?p, w)"
    using assms by (simp add: win_plan_uninstall_def win_locate_def andthen_def asking_def failing_def give_def win_ours_def same_path_def
        win_fake_host_def wf_answer_def working_def)
  define A where "A = (if wi_state (wf_svc w) \<noteq> WinStopped then [\<lambda>v :: win_fake. v\<lparr>wf_svc := (wf_svc v)\<lparr>wi_state := WinStopped\<rparr>\<rparr>] else [])"
  have "performs_all (new_plan\<lparr>pn_binary := a, pn_log_hint := b, pn_keep := c\<rparr>) []" for a b c by (simp add: performs_all_def new_plan_def)
  from performs_add [OF this performs_calls(1)] this
  have "performs_all (if wi_state (wf_svc w) \<noteq> WinStopped then add_step d (did (wh_stop ?h)) (new_plan\<lparr>pn_binary := a, pn_log_hint := b, pn_keep := c\<rparr>)
      else new_plan\<lparr>pn_binary := a, pn_log_hint := b, pn_keep := c\<rparr>) A" for a b c d by (simp add: A_def)
  from performs_add [OF performs_add [OF performs_add [OF this performs_calls(6)] performs_calls(5)] performs_remove]
  have "performs_all ?p (((A @ [\<lambda>v :: win_fake. v\<lparr>wf_svc := \<lparr>wi_exists = False, wi_binary = [], wi_state = WinStopped, wi_env = []\<rparr>\<rparr>])
      @ [\<lambda>v :: win_fake. v\<lparr>wf_events := False\<rparr>]) @ [id])" by (simp add: win_removal_def Let_def)
  from performs_applied [OF this assms(1)] plan show ?thesis by (fastforce simp: A_def)
qed

text \<open>A check before the installation that changes nothing of the machine.\<close>

definition checks_only :: "win_fake install_options \<Rightarrow> bool" where
  "checks_only io \<longleftrightarrow> (\<forall>f. io_precheck io = Some f \<longrightarrow> (\<forall>g path w. win_view (snd (f g path w)) = win_view w))"

lemma fake_reads:
  "wh_elevated (win_fake_host ef lo) w = (wf_elevated w, w)" "wh_executable (win_fake_host ef lo) w = (Inr (wf_exe w), w)"
  "wh_program_dir (win_fake_host ef lo) w = (Inr (wf_prog_dir w), w)" "wh_config_dir (win_fake_host ef lo) w = (Inr (wf_cfg_dir w), w)"
  "wh_service (win_fake_host ef lo) w = (wf_answer w ''Service'' (wf_svc w), w)"
  "wh_file_exists (win_fake_host ef lo) path w = (gm_getd False (wf_existing w) path \<or> gm_has (wf_created w) path, w)"
  by (simp_all add: win_fake_host_def)

lemma fake_prompts:
  "win_view (snd (pm_line (wh_prompt (win_fake_host ef lo)) s w)) = win_view w"
  "win_view (snd (pm_secret (wh_prompt (win_fake_host ef lo)) s w)) = win_view w"
  by (simp_all add: win_fake_host_def win_view_def)

lemma precheck_keeps: "checks_only io \<Longrightarrow> win_precheck io env path w = (r, w') \<Longrightarrow> win_view w' = win_view w"
  by (auto simp: win_precheck_def checks_only_def give_def failing_def split: option.splits prod.splits sum.splits)
    (metis snd_conv)+

text \<open>What the updates of an installation come to.\<close>

lemma install_updates_facts:
  assumes "wf_after_start v \<noteq> WinStopped" "there \<longleftrightarrow> gm_getd False (wf_existing v) path \<or> gm_has (wf_created v) path"
  shows "let v' = foldl (\<lambda>v u. u v) v (win_install_updates stop copy there path starter target env) in
     wi_exists (wf_svc v') \<and> wi_binary (wf_svc v') = target \<and> wi_env (wf_svc v') = env \<and> wi_state (wf_svc v') \<noteq> WinStopped
     \<and> wf_events v' \<and> wf_registered v' = Some (win_registration target) \<and> wf_elevated v' = wf_elevated v
     \<and> wf_prog_dir v' = wf_prog_dir v \<and> wf_cfg_dir v' = wf_cfg_dir v
     \<and> wf_created v' = (if there then wf_created v else gm_put path starter (wf_created v))"
  using assms by (cases stop; cases copy; cases there) (auto simp: win_install_updates_def Let_def)

lemma fake_installs:
  assumes "working w" "checks_only io" "win_plan_install cfg starter (win_fake_host ef lo) io w = (Inr p, w1)"
  shows "\<exists>env ls w2 wa wb. apply_plan p w1 = Some (None, ls, w2) \<and> working w2 \<and> wf_elevated w2 \<and> wf_events w2
     \<and> wf_prog_dir w2 = wf_prog_dir w \<and> wf_cfg_dir w2 = wf_cfg_dir w
     \<and> wf_registered w2 = Some (win_registration (win_join (wf_prog_dir w) win_binary_name))
     \<and> wi_exists (wf_svc w2) \<and> wi_binary (wf_svc w2) = win_join (wf_prog_dir w) win_binary_name \<and> wi_env (wf_svc w2) = env
     \<and> wi_state (wf_svc w2) \<noteq> WinStopped
     \<and> resolve_settings cfg (wh_prompt (win_fake_host ef lo)) \<lparr>sx_stored = wi_env (wf_svc w), sx_getenv = io_getenv io,
          sx_names = captured, sx_replace = io_replace io, sx_config = win_join (wf_cfg_dir w) win_config_file\<rparr> wa = (Inr env, wb)
     \<and> (\<forall>path data. gm_get (wf_created w) path = Some data \<longrightarrow> gm_get (wf_created w2) path = Some data)"
proof -
  let ?h = "win_fake_host ef lo" and ?t = "win_join (wf_prog_dir w) win_binary_name" and ?c = "win_join (wf_cfg_dir w) win_config_file"
  from win_install_shape [OF assms(3)] assms(1) obtain env ck wb wc where run: "wf_elevated w"
    "resolve_settings cfg (wh_prompt ?h) \<lparr>sx_stored = wi_env (wf_svc w), sx_getenv = io_getenv io,
          sx_names = captured, sx_replace = io_replace io, sx_config = ?c\<rparr> w = (Inr env, wb)"
    "win_precheck io env ?c wb = (Inr ck, w1)"
    "p = win_finish ?h io (wf_svc w) ?t env (win_plan_config ?h starter (wf_cfg_dir w) ?c (gm_getd False (wf_existing w1) ?c \<or> gm_has (wf_created w1) ?c)
       (win_plan_binary ?h (wf_svc w) (wf_exe w) ?t (new_plan\<lparr>pn_upgrade := wi_exists (wf_svc w), pn_binary := ?t,
          pn_config := ?c, pn_log_hint := win_log_hint, pn_stored := gm_keys env, pn_checked := ck\<rparr>)))"
    by (auto simp: fake_reads wf_answer_def working_def)
  from settings_keep [of win_view, OF fake_prompts run(2)] precheck_keeps [OF assms(2) run(3)] have view: "win_view w1 = win_view w" by simp
  let ?us = "win_install_updates (wi_exists (wf_svc w) \<and> wi_state (wf_svc w) \<noteq> WinStopped) (\<not> same_path ?h (wf_exe w) ?t)
     (gm_getd False (wf_existing w1) ?c \<or> gm_has (wf_created w1) ?c) ?c starter ?t env"
  have steps: "performs_all p ?us" unfolding run(4) by (rule performs_install) (simp add: new_plan_def)
  from view assms(1) have wk: "working w1" by (metis view_fields(12))
  from performs_applied [OF steps wk] obtain ls w2 where ran: "apply_plan p w1 = Some (None, ls, w2)"
    "win_view w2 = foldl (\<lambda>v u. u v) (win_view w) ?us" "working w2" using view by auto
  have ex: "wf_existing w1 = wf_existing w" "wf_created w1 = wf_created w" using view by (metis view_fields)+
  have "wf_after_start (win_view w) \<noteq> WinStopped" using assms(1) by (simp add: working_def)
  from install_updates_facts [OF this, of "gm_getd False (wf_existing w1) ?c \<or> gm_has (wf_created w1) ?c" ?c
      "wi_exists (wf_svc w) \<and> wi_state (wf_svc w) \<noteq> WinStopped" "\<not> same_path ?h (wf_exe w) ?t" starter ?t env, folded ran(2)] ex
  have facts: "wi_exists (wf_svc w2) \<and> wi_binary (wf_svc w2) = ?t \<and> wi_env (wf_svc w2) = env \<and> wi_state (wf_svc w2) \<noteq> WinStopped
     \<and> wf_events w2 \<and> wf_registered w2 = Some (win_registration ?t) \<and> wf_elevated w2 = wf_elevated w
     \<and> wf_prog_dir w2 = wf_prog_dir w \<and> wf_cfg_dir w2 = wf_cfg_dir w
     \<and> wf_created w2 = (if gm_getd False (wf_existing w) ?c \<or> gm_has (wf_created w) ?c then wf_created w else gm_put ?c starter (wf_created w))"
    by (simp add: Let_def)
  then have "\<forall>path data. gm_get (wf_created w) path = Some data \<longrightarrow> gm_get (wf_created w2) path = Some data"
    by (auto simp: gm_has_def)
  with facts run(1,2) ran show ?thesis by blast
qed


text \<open>A first installation on an empty machine whose terminal has a token and a project.\<close>

definition example_win :: win_fake where
  "example_win = \<lparr>wf_elevated = True, wf_exe = ''C:omnistat.exe'', wf_prog_dir = ''C:Programs'', wf_cfg_dir = ''C:Data'',
     wf_svc = \<lparr>wi_exists = False, wi_binary = [], wi_state = WinStopped, wi_env = []\<rparr>, wf_after_start = WinRunning,
     wf_secret = Inr ''secret'', wf_line = Inr ''project'', wf_in_use = [], wf_loose = False, wf_existing = [], wf_created = [],
     wf_fail = [], wf_calls = [], wf_prompts = 0, wf_line_prompts = 0, wf_registered = None, wf_events = False, wf_clock = 0\<rparr>"

definition example_env :: "string \<Rightarrow> string" where
  "example_env k = (if k = env_token then ''t'' else if k = env_project_id then ''p'' else [])"

definition example_options :: "'w install_options" where
  "example_options = \<lparr>io_getenv = example_env, io_replace = False,
     io_precheck = None, io_settle = 3, io_poll = 1\<rparr>"

lemma example_win_settings:
  "resolve_settings cfg pm \<lparr>sx_stored = [], sx_getenv = example_env, sx_names = captured, sx_replace = False, sx_config = path\<rparr> w
     = (Inr (capture_env (example_env) [] captured), w)"
proof -
  have t: "trim_space ''t'' = ''t''" "trim_space ''p'' = ''p''" by (rule trim_space_ascii; simp add: byte_def is_space_def)+
  have "gm_getd [] (capture_env (example_env) [] captured) env_project_id \<noteq> []"
    by (simp add: gm_getd_def capture_env_get captured_def example_env_def t names_differ)
  moreover have "trim_space (example_env env_token) \<noteq> []" by (simp add: example_env_def t)
  ultimately show ?thesis by (simp add: resolve_settings_def ask_project_def)
qed

lemma example_plans: "\<exists>p w1. win_plan_install cfg starter (win_fake_host ef lo) example_options example_win = (Inr p, w1)"
proof -
  have parts: "wf_svc example_win = \<lparr>wi_exists = False, wi_binary = [], wi_state = WinStopped, wi_env = []\<rparr>" "wf_elevated example_win" "wf_fail example_win = []"
    "io_getenv example_options = example_env" "io_replace example_options = False" "io_precheck example_options = None"
    by (simp_all add: example_win_def example_options_def)
  show ?thesis by (simp add: win_plan_install_def andthen_def asking_def failing_def give_def attempt_def fake_reads wf_answer_def win_ours_def parts
        example_win_settings win_precheck_def Let_def)
qed


section \<open>The changes an installation makes\<close>

text \<open>
  C18: installing the Windows service changes only what is the service's. A plan exists only when planning found no service of that
  name registered, or one that runs omnistat's own binary. Applied, it makes exactly the calls of \<open>win_install_calls\<close> for what planning
  found on the host, in this order: it stops the service if it is registered and not stopped, puts the running binary in place unless it runs from there,
  secures the configuration directory, creates the configuration if there was none, registers the service, stores the settings, registers the
  event source and starts; a failure leaves a beginning of that sequence and nothing else.
\<close>

theorem win_install_changes:
  assumes "win_plan_install cfg starter (win_recording h) io st = (Inr p, st1)" "apply_plan p st2 = Some (r, ls, st3)"
  shows "\<exists>s cs. win_sees cfg (win_recording h) io st s st1
    \<and> (\<not> wi_exists (ws_inst s) \<or> same_path h (wi_binary (ws_inst s)) (ws_target s)) \<and> snd st3 = snd st2 @ cs
    \<and> prefix (filter is_win_change cs) (win_install_calls h (ws_inst s) (ws_exe s) (ws_prog_dir s) (ws_cfg_dir s) starter (ws_there s) (ws_env s))
    \<and> (r = None \<longrightarrow> filter is_win_change cs = win_install_calls h (ws_inst s) (ws_exe s) (ws_prog_dir s) (ws_cfg_dir s) starter (ws_there s) (ws_env s))"
  using win_install_made [OF assms] unfolding win_free_def imp_conv_disj [of "wi_exists _"] .

lemma fake_steady: "steady \<lparr>wt_now = wh_now (win_recording (win_fake_host ef lo)), wt_check = check_state (win_recording (win_fake_host ef lo)),
    wt_wait = wh_wait (win_recording (win_fake_host ef lo))\<rparr>"
  by (auto simp: steady_def check_state_def win_recording_def win_fake_host_def noting_def wf_answer_def split: option.splits sum.splits prod.splits)

lemma fake_start_returns: "returns (start_service (win_recording (win_fake_host ef lo)) settle poll)"
  unfolding returns_def
proof
  fix st
  obtain e st1 where start: "wh_start (win_recording (win_fake_host ef lo)) st = (e, st1)" by (metis surj_pair)
  show "\<exists>r st'. start_service (win_recording (win_fake_host ef lo)) settle poll st = Some (r, st')"
    using watch_ends [OF fake_steady, of ef lo settle poll st1] start by (cases e) (auto simp: start_service_def)
qed

lemma win_effects_return: "returns (ensure_config_dir h d)" "returns (create_config h path data)"
  by (auto simp: returns_def ensure_config_dir_def create_config_def split: prod.splits sum.splits)

lemma fake_install_returns:
  assumes "all_return p"
  shows "all_return (win_finish (win_recording (win_fake_host ef lo)) io inst target env
    (win_plan_config (win_recording (win_fake_host ef lo)) starter cfg_dir cfg_path there (win_plan_binary (win_recording (win_fake_host ef lo)) inst exe target p)))"
  using assms by (simp add: win_finish_def win_plan_config_def win_plan_binary_def Let_def fake_start_returns win_effects_return)

lemma fake_plan_returns:
  assumes "win_plan_install cfg starter (win_recording (win_fake_host ef lo)) io st = (Inr p, st1)"
  shows "all_return p"
  using win_install_shape [OF assms] by clarify (rule fake_install_returns, simp add: all_return_def new_plan_def)

theorem win_install_changes_witness:
  "\<exists>p ls st1 st3 s cs r. win_plan_install (\<lambda>_ _. Inr undefined) ''# settings'' (win_recording (win_fake_host (=) (\<lambda>s. s))) example_options (example_win, []) = (Inr p, st1)
     \<and> apply_plan p st1 = Some (r, ls, st3) \<and> snd st3 = snd st1 @ cs
     \<and> prefix (filter is_win_change cs) (win_install_calls (win_fake_host (=) (\<lambda>s. s)) (ws_inst s) (ws_exe s) (ws_prog_dir s) (ws_cfg_dir s) ''# settings'' (ws_there s) (ws_env s))
     \<and> win_sees (\<lambda>_ _. Inr undefined) (win_recording (win_fake_host (=) (\<lambda>s. s))) example_options (example_win, []) s st1"
proof -
  let ?h = "win_recording (win_fake_host (=) (\<lambda>s. s))" and ?cfg = "\<lambda>_ _. Inr undefined"
  have parts: "wf_svc example_win = \<lparr>wi_exists = False, wi_binary = [], wi_state = WinStopped, wi_env = []\<rparr>" "wf_elevated example_win" "wf_fail example_win = []"
    "io_getenv example_options = example_env" "io_replace example_options = False" "io_precheck example_options = None"
    by (simp_all add: example_win_def example_options_def)
  obtain p st1 where plan: "win_plan_install ?cfg ''# settings'' ?h example_options (example_win, []) = (Inr p, st1)"
    by (simp add: win_plan_install_def andthen_def asking_def failing_def give_def attempt_def win_recording_def noting_def fake_reads wf_answer_def
        win_ours_def parts example_win_settings win_precheck_def Let_def)
  have "all_return p" by (rule fake_plan_returns [OF plan])
  from apply_returns [OF this] obtain r ls st3 where run: "apply_plan p st1 = Some (r, ls, st3)" by blast
  from win_install_changes [OF plan run] plan run show ?thesis by blast
qed

end
