(* ===== verification/Converge.thy ===== *)
theory Converge
  imports Apply
begin

text \<open>
  What applying a plan makes of a project. The locale \<open>schema_platform\<close> is the contract of a platform that shows its
  writes at once: how each operation of the interface changes what a read returns. Under it, \<open>Apply\<close> brings
  the project to the desired schema and takes nothing from it.
\<close>

section \<open>What a project holds\<close>

type_synonym contents = "(string \<Rightarrow> cur_template option) \<times> (string \<Rightarrow> cur_attribute option)"

definition contents_of :: "current \<Rightarrow> contents" where
  "contents_of cur = (gm_get (cu_templates cur), gm_get (cu_attributes cur))"

datatype fact = HasTemplate string | HasType string string | RefersTo string string | HasOption string string | IsBound string string

fun holds_in :: "contents \<Rightarrow> fact \<Rightarrow> bool" where
  "holds_in (T, A) (HasTemplate s) \<longleftrightarrow> T s \<noteq> None"
| "holds_in (T, A) (HasType s ty) \<longleftrightarrow> (\<exists>x. A s = Some x \<and> ca_type x = ty)"
| "holds_in (T, A) (RefersTo s t) \<longleftrightarrow> (\<exists>x u. A s = Some x \<and> T t = Some u \<and> ca_ref x = ct_id u)"
| "holds_in (T, A) (HasOption s v) \<longleftrightarrow> (\<exists>x. A s = Some x \<and> v \<in> set (ca_options x))"
| "holds_in (T, A) (IsBound s t) \<longleftrightarrow> (\<exists>x u. A s = Some x \<and> T t = Some u \<and> ca_id x \<in> set (ct_attrs u))"

definition keeps_facts :: "contents \<Rightarrow> contents \<Rightarrow> bool" where
  "keeps_facts c c' \<longleftrightarrow> (\<forall>f. holds_in c f \<longrightarrow> holds_in c' f)"

lemma keeps_refl [simp]: "keeps_facts c c"
  by (simp add: keeps_facts_def)

lemma keeps_trans: "keeps_facts a b \<Longrightarrow> keeps_facts b c \<Longrightarrow> keeps_facts a c"
  by (simp add: keeps_facts_def)

lemma keepsD: "keeps_facts c c' \<Longrightarrow> holds_in c f \<Longrightarrow> holds_in c' f"
  by (simp add: keeps_facts_def)

text \<open>Ids are there and name one object each.\<close>

definition identified :: "contents \<Rightarrow> bool" where
  "identified c \<longleftrightarrow> (\<forall>s t. fst c s = Some t \<longrightarrow> ct_id t \<noteq> []) \<and> (\<forall>s x. snd c s = Some x \<longrightarrow> ca_id x \<noteq> [])
     \<and> (\<forall>s t s' t'. fst c s = Some t \<longrightarrow> fst c s' = Some t' \<longrightarrow> ct_id t = ct_id t' \<longrightarrow> s = s')
     \<and> (\<forall>s x s' x'. snd c s = Some x \<longrightarrow> snd c s' = Some x' \<longrightarrow> ca_id x = ca_id x' \<longrightarrow> s = s')"

section \<open>The effect of the operations\<close>

definition with_template :: "string \<Rightarrow> string \<Rightarrow> string \<Rightarrow> contents \<Rightarrow> contents" where
  "with_template s n tid c = ((fst c)(s \<mapsto> \<lparr>ct_id = tid, ct_name = n, ct_attrs = []\<rparr>), snd c)"

definition binds_in :: "string list \<Rightarrow> string \<Rightarrow> cur_template \<Rightarrow> cur_template" where
  "binds_in tids aid t = (if ct_id t \<in> set tids then t\<lparr>ct_attrs := (if aid \<in> set (ct_attrs t) then ct_attrs t else ct_attrs t @ [aid])\<rparr> else t)"

definition with_attribute :: "create_attribute_params \<Rightarrow> string \<Rightarrow> contents \<Rightarrow> contents" where
  "with_attribute ps aid c = (\<lambda>s. map_option (binds_in (cp_templates ps) aid) (fst c s),
     (snd c)(cp_slug ps \<mapsto> \<lparr>ca_id = aid, ca_name = cp_name ps, ca_type = type_of (cp_kind ps), ca_options = [], ca_option_ids = [],
        ca_ref = (if cp_kind ps = KindReference then cp_ref_template ps else [])\<rparr>))"

definition grown :: "string \<Rightarrow> string \<Rightarrow> cur_attribute \<Rightarrow> cur_attribute" where
  "grown v item x = x\<lparr>ca_options := ca_options x @ [v], ca_option_ids := gm_put v item (ca_option_ids x)\<rparr>"

definition with_option :: "string \<Rightarrow> string \<Rightarrow> string \<Rightarrow> contents \<Rightarrow> contents" where
  "with_option aid v item c = (fst c, \<lambda>s. map_option (\<lambda>x. if ca_id x = aid
     then grown v item x else x) (snd c s))"

definition with_binding :: "string \<Rightarrow> string list \<Rightarrow> contents \<Rightarrow> contents" where
  "with_binding aid tids c = (\<lambda>s. map_option (\<lambda>t. binds_in tids aid (t\<lparr>ct_attrs := removeAll aid (ct_attrs t)\<rparr>)) (fst c s), snd c)"

lemma binds_in_simps [simp]: "ct_id (binds_in tids aid t) = ct_id t" "ct_name (binds_in tids aid t) = ct_name t"
  "set (ct_attrs (binds_in tids aid t)) = set (ct_attrs t) \<union> (if ct_id t \<in> set tids then {aid} else {})"
  by (auto simp: binds_in_def)

lemma grown_simps [simp]: "ca_id (grown v item x) = ca_id x" "ca_type (grown v item x) = ca_type x" "ca_ref (grown v item x) = ca_ref x"
  "ca_options (grown v item x) = ca_options x @ [v]"
  by (simp_all add: grown_def)

definition has_id :: "contents \<Rightarrow> string \<Rightarrow> bool" where
  "has_id c tid \<longleftrightarrow> (\<exists>s t. fst c s = Some t \<and> ct_id t = tid)"

section \<open>The contract\<close>

definition creatable :: "kind \<Rightarrow> bool" where
  "creatable k \<longleftrightarrow> (case k of KindOther s \<Rightarrow> False | _ \<Rightarrow> True)"

definition params_ok :: "contents \<Rightarrow> create_attribute_params \<Rightarrow> bool" where
  "params_ok c ps \<longleftrightarrow> cp_slug ps \<noteq> [] \<and> cp_name ps \<noteq> [] \<and> creatable (cp_kind ps) \<and> snd c (cp_slug ps) = None
     \<and> list_all (has_id c) (cp_templates ps)
     \<and> (cp_kind ps = KindReference \<longrightarrow> has_id c (cp_ref_template ps) \<and> (\<exists>s x. snd c s = Some x \<and> ca_id x = cp_ref_display ps))"

locale schema_platform =
  fixes api :: "'w schema_api" and shown :: "'w \<Rightarrow> current" and sound :: "'w \<Rightarrow> bool"
  assumes ids: "sound w \<Longrightarrow> identified (contents_of (shown w))" and keyed: "sound w \<Longrightarrow> gm_ok (cu_templates (shown w))"
    and reads: "sound w \<Longrightarrow> \<exists>w'. sa_read api w = (Inr (shown w), w') \<and> shown w' = shown w \<and> sound w'"
    and creates_template: "sound w \<Longrightarrow> s \<noteq> [] \<Longrightarrow> n \<noteq> [] \<Longrightarrow> fst (contents_of (shown w)) s = None \<Longrightarrow>
      \<exists>tid w'. sa_create_template api s n d w = (Inr tid, w') \<and> sound w' \<and> contents_of (shown w') = with_template s n tid (contents_of (shown w))"
    and creates_attribute: "sound w \<Longrightarrow> params_ok (contents_of (shown w)) ps \<Longrightarrow>
      \<exists>aid w'. sa_create_attribute api ps w = (Inr aid, w') \<and> sound w' \<and> contents_of (shown w') = with_attribute ps aid (contents_of (shown w))"
    and adds_option: "sound w \<Longrightarrow> snd (contents_of (shown w)) s = Some x \<Longrightarrow> ca_type x = type_of KindList \<Longrightarrow> v \<noteq> [] \<Longrightarrow> v \<notin> set (ca_options x) \<Longrightarrow>
      \<exists>item w'. sa_add_option api (ca_id x) v w = (Inr item, w') \<and> sound w' \<and> contents_of (shown w') = with_option (ca_id x) v item (contents_of (shown w))"
    and binds: "sound w \<Longrightarrow> snd (contents_of (shown w)) s = Some x \<Longrightarrow> list_all (has_id (contents_of (shown w))) tids \<Longrightarrow>
      \<exists>w'. sa_bind api (ca_id x) tids w = (Inr (), w') \<and> sound w' \<and> contents_of (shown w') = with_binding (ca_id x) tids (contents_of (shown w))"

section \<open>One action\<close>

text \<open>What an action brings, and what it needs of the project.\<close>

definition brings :: "action \<Rightarrow> fact set" where
  "brings a = (case ac_type a of
       CreateTemplate \<Rightarrow> {HasTemplate (ac_template a)}
     | CreateAttribute \<Rightarrow> {HasType (ac_attribute a) (type_of (ac_kind a))} \<union> IsBound (ac_attribute a) ` set (ac_templates a)
         \<union> (if ac_kind a = KindReference then {RefersTo (ac_attribute a) (ac_target a)} else {})
     | AddListOption \<Rightarrow> {HasOption (ac_attribute a) (ac_option a)}
     | BindAttribute \<Rightarrow> {IsBound (ac_attribute a) (ac_template a)})"

definition fits_in :: "contents \<Rightarrow> action \<Rightarrow> bool" where
  "fits_in c a = (case ac_type a of
       CreateTemplate \<Rightarrow> ac_template a \<noteq> [] \<and> ac_name a \<noteq> [] \<and> fst c (ac_template a) = None
     | CreateAttribute \<Rightarrow> ac_attribute a \<noteq> [] \<and> ac_name a \<noteq> [] \<and> creatable (ac_kind a) \<and> snd c (ac_attribute a) = None
     | AddListOption \<Rightarrow> ac_option a \<noteq> [] \<and> (ac_attr_id a \<noteq> [] \<longrightarrow> snd c (ac_attribute a) \<noteq> None)
         \<and> (\<forall>x. snd c (ac_attribute a) = Some x \<longrightarrow> ca_type x = type_of KindList \<and> ac_option a \<notin> set (ca_options x)
              \<and> (ac_attr_id a \<noteq> [] \<longrightarrow> ca_id x = ac_attr_id a))
     | BindAttribute \<Rightarrow> (\<exists>x. snd c (ac_attribute a) = Some x \<and> ca_id x = ac_attr_id a
         \<and> (\<forall>s t. fst c s = Some t \<longrightarrow> ca_id x \<in> set (ct_attrs t) \<longrightarrow> ct_id t \<in> set (ac_tpl_ids a)))
         \<and> list_all (has_id c) (ac_tpl_ids a))"

text \<open>Two actions of one plan, the first before the second.\<close>

definition apart :: "action \<Rightarrow> action \<Rightarrow> bool" where
  "apart a b \<longleftrightarrow> (ac_type a = CreateTemplate \<and> ac_type b = CreateTemplate \<longrightarrow> ac_template a \<noteq> ac_template b)
     \<and> (ac_type a = CreateAttribute \<and> ac_type b = CreateAttribute \<longrightarrow> ac_attribute a \<noteq> ac_attribute b)
     \<and> (ac_type a = CreateAttribute \<and> ac_type b = AddListOption \<and> ac_attribute a = ac_attribute b \<longrightarrow> ac_kind a = KindList)
     \<and> (ac_type a = AddListOption \<and> ac_type b = AddListOption \<longrightarrow> ac_attribute a \<noteq> ac_attribute b \<or> ac_option a \<noteq> ac_option b)
     \<and> (ac_type a = BindAttribute \<and> ac_type b = BindAttribute \<longrightarrow> ac_attribute a \<noteq> ac_attribute b)"

text \<open>The ids learned are those of the project.\<close>

definition agrees :: "resolved \<Rightarrow> contents \<Rightarrow> bool" where
  "agrees r c \<longleftrightarrow> (\<forall>s. gm_get (rs_templates r) s = map_option ct_id (fst c s)) \<and> (\<forall>s. gm_get (rs_attributes r) s = map_option ca_id (snd c s))"

definition stepped :: "action \<Rightarrow> contents \<Rightarrow> contents \<Rightarrow> bool" where
  "stepped a c c' \<longleftrightarrow> keeps_facts c c' \<and> (\<forall>f \<in> brings a. holds_in c' f)
     \<and> dom (fst c') = dom (fst c) \<union> new_templates a \<and> dom (snd c') = dom (snd c) \<union> new_attributes a
     \<and> (\<forall>b. fits_in c b \<longrightarrow> apart a b \<longrightarrow> fits_in c' b)"

text \<open>What is there stays there, with its id.\<close>

definition extends :: "contents \<Rightarrow> contents \<Rightarrow> bool" where
  "extends c c' \<longleftrightarrow> (\<forall>s t. fst c s = Some t \<longrightarrow> (\<exists>t'. fst c' s = Some t' \<and> ct_id t' = ct_id t
        \<and> (\<forall>s' x. snd c s' = Some x \<longrightarrow> ca_id x \<in> set (ct_attrs t) \<longrightarrow> ca_id x \<in> set (ct_attrs t'))))
     \<and> (\<forall>s x. snd c s = Some x \<longrightarrow> (\<exists>x'. snd c' s = Some x' \<and> ca_id x' = ca_id x \<and> ca_type x' = ca_type x \<and> ca_ref x' = ca_ref x
        \<and> set (ca_options x) \<subseteq> set (ca_options x')))"

lemma extends_template: "extends c c' \<Longrightarrow> fst c s = Some t \<Longrightarrow> \<exists>t'. fst c' s = Some t' \<and> ct_id t' = ct_id t
    \<and> (\<forall>s' x. snd c s' = Some x \<longrightarrow> ca_id x \<in> set (ct_attrs t) \<longrightarrow> ca_id x \<in> set (ct_attrs t'))"
  unfolding extends_def by blast

lemma extends_attribute: "extends c c' \<Longrightarrow> snd c s = Some x \<Longrightarrow> \<exists>x'. snd c' s = Some x' \<and> ca_id x' = ca_id x \<and> ca_type x' = ca_type x
    \<and> ca_ref x' = ca_ref x \<and> set (ca_options x) \<subseteq> set (ca_options x')"
  unfolding extends_def by blast

lemma extends_keeps:
  assumes "extends c c'"
  shows "keeps_facts c c'"
proof -
  obtain T A T' A' where c: "c = (T, A)" "c' = (T', A')" by (cases c, cases c')
  note t = extends_template [OF assms, unfolded c fst_conv snd_conv] and x = extends_attribute [OF assms, unfolded c fst_conv snd_conv]
  have "holds_in (T', A') f" if f: "holds_in (T, A) f" for f
  proof (cases f)
    case (HasTemplate s) then show ?thesis using f t by fastforce
  next
    case (HasType s ty) then show ?thesis using f x by fastforce
  next
    case (RefersTo s r)
    then obtain y u where "A s = Some y" "T r = Some u" "ca_ref y = ct_id u" using f by auto
    with t [of r u] x [of s y] RefersTo show ?thesis by auto
  next
    case (HasOption s v) then show ?thesis using f x by fastforce
  next
    case (IsBound s r)
    then obtain y u where y: "A s = Some y" "T r = Some u" "ca_id y \<in> set (ct_attrs u)" using f by auto
    obtain u' where "T' r = Some u'" "ca_id y \<in> set (ct_attrs u')" using t [OF y(2)] y(1,3) by blast
    with x [OF y(1)] IsBound show ?thesis by auto
  qed
  then show ?thesis by (simp add: keeps_facts_def c)
qed

lemma extends_has_id: "extends c c' \<Longrightarrow> has_id c tid \<Longrightarrow> has_id c' tid"
  unfolding has_id_def by (metis extends_template)

text \<open>A bind still fits when its attribute has gained no binding.\<close>

lemma bind_fits:
  assumes "extends c c'" "fits_in c b" "ac_type b = BindAttribute" "snd c (ac_attribute b) = Some x"
    and prior: "\<And>s t. fst c' s = Some t \<Longrightarrow> ca_id x \<in> set (ct_attrs t) \<Longrightarrow> \<exists>s' t'. fst c s' = Some t' \<and> ct_id t' = ct_id t \<and> ca_id x \<in> set (ct_attrs t')"
  shows "fits_in c' b"
proof -
  have fit: "ca_id x = ac_attr_id b" "\<And>s t. fst c s = Some t \<Longrightarrow> ca_id x \<in> set (ct_attrs t) \<Longrightarrow> ct_id t \<in> set (ac_tpl_ids b)"
    "list_all (has_id c) (ac_tpl_ids b)"
    using assms(2-4) by (auto simp: fits_in_def)
  obtain x' where "snd c' (ac_attribute b) = Some x'" "ca_id x' = ca_id x" using extends_attribute [OF assms(1,4)] by blast
  moreover have "\<forall>s t. fst c' s = Some t \<longrightarrow> ca_id x \<in> set (ct_attrs t) \<longrightarrow> ct_id t \<in> set (ac_tpl_ids b)" using prior fit(2) by metis
  moreover have "list_all (has_id c') (ac_tpl_ids b)" using fit(3) extends_has_id [OF assms(1)] by (simp add: list_all_iff)
  ultimately show ?thesis using fit(1) assms(3) by (simp add: fits_in_def)
qed

lemma bind_names: "fits_in c b \<Longrightarrow> ac_type b = BindAttribute \<Longrightarrow> \<exists>x. snd c (ac_attribute b) = Some x"
  by (auto simp: fits_in_def)

lemma stepped_template:
  assumes "ac_type a = CreateTemplate" "fst c (ac_template a) = None" "c' = with_template (ac_template a) n tid c"
  shows "stepped a c c'"
proof -
  have ext: "extends c c'" using assms(2) by (auto simp: extends_def assms(3) with_template_def)
  have "fits_in c' b" if fit: "fits_in c b" "apart a b" for b
  proof (cases "ac_type b")
    case BindAttribute
    obtain x where "snd c (ac_attribute b) = Some x" using bind_names [OF fit(1) BindAttribute] by blast
    from bind_fits [OF ext fit(1) BindAttribute this] show ?thesis by (force simp: assms(3) with_template_def split: if_splits)
  qed (use fit assms(1,3) in \<open>auto simp: fits_in_def apart_def with_template_def\<close>)
  moreover have "dom (fst c') = dom (fst c) \<union> new_templates a" "dom (snd c') = dom (snd c) \<union> new_attributes a"
    using assms(1) by (auto simp: assms(3) with_template_def new_templates_def new_attributes_def)
  moreover have "\<forall>f \<in> brings a. holds_in c' f" using assms(1) by (simp add: brings_def assms(3) with_template_def)
  ultimately show ?thesis using extends_keeps [OF ext] by (simp add: stepped_def)
qed

lemma stepped_attribute:
  assumes "ac_type a = CreateAttribute" "snd c (ac_attribute a) = None" "identified c'" "c' = with_attribute ps aid c"
    and "cp_slug ps = ac_attribute a" "cp_kind ps = ac_kind a"
    and tpl: "\<forall>t \<in> set (ac_templates a). \<exists>u. fst c t = Some u \<and> ct_id u \<in> set (cp_templates ps)"
    and ref: "ac_kind a = KindReference \<longrightarrow> (\<exists>u. fst c (ac_target a) = Some u \<and> ct_id u = cp_ref_template ps)"
  shows "stepped a c c'"
proof -
  let ?new = "\<lparr>ca_id = aid, ca_name = cp_name ps, ca_type = type_of (ac_kind a), ca_options = [], ca_option_ids = [],
        ca_ref = (if ac_kind a = KindReference then cp_ref_template ps else [])\<rparr>"
  have c': "fst c' s = map_option (binds_in (cp_templates ps) aid) (fst c s)" "snd c' = (snd c)(ac_attribute a \<mapsto> ?new)" for s
    using assms(4,5,6) by (simp_all add: with_attribute_def)
  have other: "ca_id x \<noteq> aid" if "snd c s = Some x" for s x
  proof
    have ne: "s \<noteq> ac_attribute a" using that assms(2) by auto
    assume "ca_id x = aid"
    moreover have "snd c' s = Some x" "snd c' (ac_attribute a) = Some ?new" using that ne by (simp_all add: c')
    ultimately show False using assms(3) ne unfolding identified_def by (metis cur_attribute.select_convs(1))
  qed
  have ext: "extends c c'" using assms(2) by (auto simp: extends_def c')
  have "fits_in c' b" if fit: "fits_in c b" "apart a b" for b
  proof (cases "ac_type b")
    case BindAttribute
    obtain x where x: "snd c (ac_attribute b) = Some x" using bind_names [OF fit(1) BindAttribute] by blast
    show ?thesis by (rule bind_fits [OF ext fit(1) BindAttribute x]) (use other [OF x] in \<open>force simp: c' split: if_splits\<close>)
  next
    case AddListOption
    then show ?thesis using fit assms(1,2) by (auto simp: fits_in_def apart_def c' type_of_def kind_string_def)
  qed (use fit assms(1) in \<open>simp_all add: fits_in_def apart_def c'\<close>)
  moreover have "dom (fst c') = dom (fst c) \<union> new_templates a" "dom (snd c') = dom (snd c) \<union> new_attributes a"
    using assms(1) by (auto simp: c' new_templates_def new_attributes_def)
  moreover have "\<forall>f \<in> brings a. holds_in (fst c', snd c') f"
  proof -
    have "\<exists>u. fst c' t = Some u \<and> aid \<in> set (ct_attrs u)" if "t \<in> set (ac_templates a)" for t
      using tpl that by (fastforce simp: c')
    moreover have "\<exists>u. fst c' (ac_target a) = Some u \<and> ct_id u = cp_ref_template ps" if "ac_kind a = KindReference"
      using ref that by (auto simp: c')
    ultimately show ?thesis using assms(1) by (auto simp: brings_def c'(2))
  qed
  ultimately show ?thesis using extends_keeps [OF ext] by (simp add: stepped_def)
qed

lemma stepped_option:
  assumes "ac_type a = AddListOption" "snd c (ac_attribute a) = Some x" "identified c" "c' = with_option (ca_id x) (ac_option a) item c"
  shows "stepped a c c'"
proof -
  have c': "fst c' = fst c" "snd c' s = map_option (\<lambda>y. if ca_id y = ca_id x then grown (ac_option a) item y else y) (snd c s)" for s
    using assms(4) by (simp_all add: with_option_def)
  have one: "snd c s = Some y \<Longrightarrow> ca_id y = ca_id x \<Longrightarrow> s = ac_attribute a" for s y
    using assms(2,3) unfolding identified_def by blast
  have ext: "extends c c'" by (auto simp: extends_def c')
  have "fits_in c' b" if fit: "fits_in c b" "apart a b" for b
  proof (cases "ac_type b")
    case BindAttribute
    obtain y where y: "snd c (ac_attribute b) = Some y" using bind_names [OF fit(1) BindAttribute] by blast
    show ?thesis by (rule bind_fits [OF ext fit(1) BindAttribute y]) (auto simp: c')
  next
    case AddListOption
    show ?thesis
    proof (cases "snd c (ac_attribute b)")
      case None
      then show ?thesis using fit(1) AddListOption by (simp add: fits_in_def c')
    next
      case (Some y)
      have "ca_id y \<noteq> ca_id x \<or> ac_option b \<noteq> ac_option a"
        using one [OF Some] fit(2) assms(1) AddListOption by (auto simp: apart_def)
      then show ?thesis using fit(1) Some AddListOption by (auto simp: fits_in_def c')
    qed
  qed (use fit assms(1) in \<open>simp_all add: fits_in_def apart_def c'\<close>)
  moreover have "dom (fst c') = dom (fst c) \<union> new_templates a" "dom (snd c') = dom (snd c) \<union> new_attributes a"
    using assms(1) by (auto simp: c' new_templates_def new_attributes_def)
  moreover have "\<forall>f \<in> brings a. holds_in (fst c', snd c') f" using assms(1,2) by (simp add: brings_def c')
  ultimately show ?thesis using extends_keeps [OF ext] by (simp add: stepped_def)
qed

lemma stepped_binding:
  assumes "ac_type a = BindAttribute" "fits_in c a" "snd c (ac_attribute a) = Some x" "identified c" "c' = with_binding (ca_id x) tids c"
    and tids: "fst c (ac_template a) = Some u" "ct_id u \<in> set tids" "set (ac_tpl_ids a) \<subseteq> set tids"
  shows "stepped a c c'"
proof -
  have c': "fst c' s = map_option (\<lambda>t. binds_in tids (ca_id x) (t\<lparr>ct_attrs := removeAll (ca_id x) (ct_attrs t)\<rparr>)) (fst c s)" "snd c' = snd c" for s
    using assms(5) by (simp_all add: with_binding_def)
  have one: "snd c s = Some y \<Longrightarrow> ca_id y = ca_id x \<Longrightarrow> s = ac_attribute a" for s y
    using assms(3,4) unfolding identified_def by blast
  have all: "fst c s = Some t \<Longrightarrow> ca_id x \<in> set (ct_attrs t) \<Longrightarrow> ct_id t \<in> set tids" for s t
    using assms(1-3) tids(3) by (auto simp: fits_in_def)
  have ext: "extends c c'" using all by (auto simp: extends_def c')
  have "fits_in c' b" if fit: "fits_in c b" "apart a b" for b
  proof (cases "ac_type b")
    case BindAttribute
    obtain y where y: "snd c (ac_attribute b) = Some y" using bind_names [OF fit(1) BindAttribute] by blast
    have "ca_id y \<noteq> ca_id x" using one [OF y] fit(2) assms(1) BindAttribute by (auto simp: apart_def)
    then show ?thesis by (intro bind_fits [OF ext fit(1) BindAttribute y]) (force simp: c' split: if_splits)
  qed (use fit assms(1) in \<open>simp_all add: fits_in_def apart_def c'\<close>)
  moreover have "dom (fst c') = dom (fst c) \<union> new_templates a" "dom (snd c') = dom (snd c) \<union> new_attributes a"
    using assms(1) by (auto simp: c' new_templates_def new_attributes_def)
  moreover have "\<forall>f \<in> brings a. holds_in (fst c', snd c') f" using assms(1,3) tids(1,2) by (simp add: brings_def c')
  ultimately show ?thesis using extends_keeps [OF ext] by (simp add: stepped_def)
qed

section \<open>Executing\<close>

lemma agrees_ids:
  assumes "agrees r c" "set ss \<subseteq> dom (fst c)"
  shows "those (map (gm_get (rs_templates r)) ss) = Some (map (\<lambda>s. ct_id (the (fst c s))) ss)"
  using assms(2)
proof (induction ss)
  case (Cons s ss)
  then obtain t where "fst c s = Some t" by auto
  with Cons assms(1) show ?case by (simp add: agrees_def)
qed simp

lemma agrees_getd: "agrees r c \<Longrightarrow> fst c s = Some t \<Longrightarrow> gm_getd [] (rs_templates r) s = ct_id t"
  "agrees r c \<Longrightarrow> snd c s = Some x \<Longrightarrow> gm_getd [] (rs_attributes r) s = ca_id x"
  by (simp_all add: agrees_def gm_getd_def)

lemma agrees_from: "agrees (resolved_from cur) (contents_of cur)"
  by (simp add: agrees_def resolved_from_def contents_of_def gm_get_map_snd)

context schema_platform begin

definition reached :: "action \<Rightarrow> resolved \<Rightarrow> 'w \<Rightarrow> resolved \<Rightarrow> 'w \<Rightarrow> bool" where
  "reached a r w r' w' \<longleftrightarrow> execute api a r w = (Inr r', w') \<and> sound w' \<and> agrees r' (contents_of (shown w'))
     \<and> stepped a (contents_of (shown w)) (contents_of (shown w'))"

lemma execute_template:
  assumes "sound w" "agrees r (contents_of (shown w))" "fits_in (contents_of (shown w)) a" "ac_type a = CreateTemplate"
  shows "\<exists>r' w'. reached a r w r' w'"
proof -
  let ?c = "contents_of (shown w)"
  from assms(3,4) have new: "ac_template a \<noteq> []" "ac_name a \<noteq> []" "fst ?c (ac_template a) = None" by (simp_all add: fits_in_def)
  from creates_template [OF assms(1) this] obtain tid w' where call: "sa_create_template api (ac_template a) (ac_name a) (ac_desc a) w = (Inr tid, w')"
    "sound w'" "contents_of (shown w') = with_template (ac_template a) (ac_name a) tid ?c" by blast
  have "agrees (r\<lparr>rs_templates := gm_put (ac_template a) tid (rs_templates r)\<rparr>) (contents_of (shown w'))"
    using assms(2) by (simp add: agrees_def call(3) with_template_def)
  with call stepped_template [OF assms(4) new(3) call(3)] show ?thesis
    by (auto simp: reached_def execute_def assms(4) with_result_def)
qed

lemma execute_attribute:
  assumes "sound w" "agrees r (contents_of (shown w))" "fits_in (contents_of (shown w)) a" "ac_type a = CreateAttribute"
    and ready: "set (ac_templates a) \<subseteq> dom (fst (contents_of (shown w)))"
      "ac_kind a = KindReference \<longrightarrow> ac_target a \<in> dom (fst (contents_of (shown w))) \<and> ac_display a \<in> dom (snd (contents_of (shown w)))"
  shows "\<exists>r' w'. reached a r w r' w'"
proof -
  let ?c = "contents_of (shown w)" and ?tids = "map (\<lambda>s. ct_id (the (fst (contents_of (shown w)) s))) (ac_templates a)"
  let ?ref = "ac_kind a = KindReference"
  define tgt where "tgt = (if ?ref then gm_getd [] (rs_templates r) (ac_target a) else [])"
  define dsp where "dsp = (if ?ref then gm_getd [] (rs_attributes r) (ac_display a) else [])"
  define ps where "ps = \<lparr>cp_slug = ac_attribute a, cp_name = ac_name a, cp_desc = ac_desc a, cp_kind = ac_kind a, cp_templates = ?tids,
     cp_ref_template = tgt, cp_ref_display = dsp\<rparr>"
  note id = ids [OF assms(1), unfolded identified_def]
  have refs: "\<exists>t x. fst ?c (ac_target a) = Some t \<and> tgt = ct_id t \<and> snd ?c (ac_display a) = Some x \<and> dsp = ca_id x \<and> tgt \<noteq> [] \<and> dsp \<noteq> []" if ?ref
  proof -
    obtain t x where tx: "fst ?c (ac_target a) = Some t" "snd ?c (ac_display a) = Some x" using ready(2) \<open>?ref\<close> by blast
    moreover have "ct_id t \<noteq> []" "ca_id x \<noteq> []" using id tx by blast+
    ultimately show ?thesis using agrees_getd [OF assms(2)] \<open>?ref\<close> by (simp add: tgt_def dsp_def)
  qed
  have new: "snd ?c (ac_attribute a) = None" using assms(3,4) by (simp add: fits_in_def)
  have "list_all (has_id ?c) ?tids" using ready(1) by (fastforce simp: list_all_iff has_id_def)
  moreover have "?ref \<longrightarrow> has_id ?c tgt \<and> (\<exists>s x. snd ?c s = Some x \<and> ca_id x = dsp)" using refs by (fastforce simp: has_id_def)
  ultimately have "params_ok ?c ps" using assms(3,4) by (simp add: params_ok_def ps_def fits_in_def)
  from creates_attribute [OF assms(1) this] obtain aid w' where call: "sa_create_attribute api ps w = (Inr aid, w')" "sound w'"
    "contents_of (shown w') = with_attribute ps aid ?c" by blast
  have tpl: "\<forall>t \<in> set (ac_templates a). \<exists>u. fst ?c t = Some u \<and> ct_id u \<in> set (cp_templates ps)"
  proof
    fix t assume t: "t \<in> set (ac_templates a)"
    then obtain u where "fst ?c t = Some u" using ready(1) by blast
    with t show "\<exists>u. fst ?c t = Some u \<and> ct_id u \<in> set (cp_templates ps)" by (auto simp: ps_def intro!: image_eqI [of _ _ t])
  qed
  have ref: "?ref \<longrightarrow> (\<exists>u. fst ?c (ac_target a) = Some u \<and> ct_id u = cp_ref_template ps)" using refs by (auto simp: ps_def)
  have slug: "cp_slug ps = ac_attribute a" "cp_kind ps = ac_kind a" by (simp_all add: ps_def)
  note st = stepped_attribute [OF assms(4) new ids [OF call(2)] call(3) slug tpl ref]
  let ?r = "r\<lparr>rs_attributes := gm_put (ac_attribute a) aid (rs_attributes r)\<rparr>"
  have "map_option ct_id (map_option (binds_in tids aid) y) = map_option ct_id y" for tids y by (cases y) simp_all
  then have "agrees ?r (contents_of (shown w'))"
    using assms(2) by (simp add: agrees_def call(3) with_attribute_def slug del: option.map_comp)
  moreover have "execute api a r w = (Inr ?r, w')"
    using refs call(1) unfolding execute_def exec_create_attribute_def
    by (auto simp: assms(4) agrees_ids [OF assms(2) ready(1)] Let_def ps_def tgt_def dsp_def with_result_def)
  ultimately show ?thesis using call(2) st unfolding reached_def by blast
qed

lemma execute_option:
  assumes "sound w" "agrees r (contents_of (shown w))" "fits_in (contents_of (shown w)) a" "ac_type a = AddListOption"
    and ready: "ac_attr_id a \<noteq> [] \<or> ac_attribute a \<in> dom (snd (contents_of (shown w)))"
  shows "\<exists>r' w'. reached a r w r' w'"
proof -
  let ?c = "contents_of (shown w)"
  obtain x where x: "snd ?c (ac_attribute a) = Some x" using ready assms(3,4) by (auto simp: fits_in_def)
  then have fit: "ca_type x = type_of KindList" "ac_option a \<notin> set (ca_options x)" "ac_option a \<noteq> []" "ac_attr_id a \<noteq> [] \<longrightarrow> ca_id x = ac_attr_id a"
    using assms(3,4) by (auto simp: fits_in_def)
  have aid: "(if ac_attr_id a = [] then gm_getd [] (rs_attributes r) (ac_attribute a) else ac_attr_id a) = ca_id x" "ca_id x \<noteq> []"
    using agrees_getd(2) [OF assms(2) x] fit(4) ids [OF assms(1)] x by (auto simp: identified_def)
  from adds_option [OF assms(1) x fit(1,3,2)] obtain item w' where call: "sa_add_option api (ca_id x) (ac_option a) w = (Inr item, w')" "sound w'"
    "contents_of (shown w') = with_option (ca_id x) (ac_option a) item ?c" by blast
  let ?r = "r\<lparr>rs_items := gm_put (ac_attribute a) (gm_put (ac_option a) item (gm_getd [] (rs_items r) (ac_attribute a))) (rs_items r)\<rparr>"
  have "agrees ?r (contents_of (shown w'))"
    using assms(2) by (simp add: agrees_def call(3) with_option_def option.map_comp comp_def if_distrib cong: if_cong)
  moreover have "execute api a r w = (Inr ?r, w')"
    using aid call(1) by (simp add: execute_def exec_add_option_def assms(4) Let_def with_result_def)
  ultimately show ?thesis using call(2) stepped_option [OF assms(4) x ids [OF assms(1)] call(3)] unfolding reached_def by blast
qed

lemma execute_bind:
  assumes "sound w" "agrees r (contents_of (shown w))" "fits_in (contents_of (shown w)) a" "ac_type a = BindAttribute"
    and ready: "ac_template a \<in> dom (fst (contents_of (shown w)))"
  shows "\<exists>r' w'. reached a r w r' w'"
proof -
  let ?c = "contents_of (shown w)"
  obtain x u where x: "snd ?c (ac_attribute a) = Some x" "ca_id x = ac_attr_id a" "fst ?c (ac_template a) = Some u" "list_all (has_id ?c) (ac_tpl_ids a)"
    using ready assms(3,4) by (auto simp: fits_in_def)
  let ?tids = "sort (if ct_id u \<in> set (ac_tpl_ids a) then ac_tpl_ids a else ac_tpl_ids a @ [ct_id u])"
  have tid: "gm_get (rs_templates r) (ac_template a) = Some (ct_id u)" using assms(2) x(3) by (simp add: agrees_def)
  have set: "set ?tids = insert (ct_id u) (set (ac_tpl_ids a))" by auto
  have "list_all (has_id ?c) ?tids" using x(3,4) unfolding list_all_iff set by (auto simp: has_id_def)
  from binds [OF assms(1) x(1) this] obtain w' where call: "sa_bind api (ca_id x) ?tids w = (Inr (), w')" "sound w'"
    "contents_of (shown w') = with_binding (ca_id x) ?tids ?c" by blast
  have "agrees r (contents_of (shown w'))"
    using assms(2) by (simp add: agrees_def call(3) with_binding_def option.map_comp comp_def)
  moreover have "execute api a r w = (Inr r, w')"
    using call(1) tid x(2) by (simp add: execute_def exec_bind_def assms(4) with_result_def)
  moreover have "stepped a ?c (contents_of (shown w'))"
    by (rule stepped_binding [OF assms(4,3) x(1) ids [OF assms(1)] call(3) x(3)]) (simp_all only: set, auto)
  ultimately show ?thesis using call(2) unfolding reached_def by blast
qed

lemma execute_fits:
  assumes "sound w" "agrees r (contents_of (shown w))" "fits_in (contents_of (shown w)) a"
    and "ready (dom (fst (contents_of (shown w)))) (dom (snd (contents_of (shown w)))) a"
  shows "\<exists>r' w'. reached a r w r' w'"
  using assms execute_template execute_attribute execute_option execute_bind by (cases "ac_type a") (simp_all add: ready_def)

lemma run_plan:
  assumes "sound w" "agrees (ap_resolved res) (contents_of (shown w))"
    and "ordered (dom (fst (contents_of (shown w)))) (dom (snd (contents_of (shown w)))) as"
    and "list_all (fits_in (contents_of (shown w))) as" "sorted_wrt apart as"
  shows "\<exists>res' rr w'. apply_loop api slp ds d as res reread w = (None, res', rr, w') \<and> sound w'
    \<and> ap_done res' = ap_done res @ done_all as
    \<and> keeps_facts (contents_of (shown w)) (contents_of (shown w'))
    \<and> (\<forall>f \<in> \<Union> (brings ` set as). holds_in (contents_of (shown w')) f)"
  using assms
proof (induction as arbitrary: res reread w)
  case Nil
  then show ?case by (simp add: done_all_def)
next
  case (Cons a as)
  let ?c = "contents_of (shown w)"
  obtain r' w1 where one: "execute api a (ap_resolved res) w = (Inr r', w1)" "sound w1" "agrees r' (contents_of (shown w1))"
      "stepped a ?c (contents_of (shown w1))"
    using execute_fits [OF Cons.prems(1,2), of a] Cons.prems(3,4) by (auto simp: reached_def)
  let ?res = "res\<lparr>ap_done := ap_done res @ [\<lparr>re_action = a, re_skipped = False\<rparr>], ap_resolved := r'\<rparr>"
  have "list_all (fits_in (contents_of (shown w1))) as" using one(4) Cons.prems(4,5) by (auto simp: stepped_def list_all_iff)
  moreover have "ordered (dom (fst (contents_of (shown w1)))) (dom (snd (contents_of (shown w1)))) as"
    using one(4) Cons.prems(3) by (simp add: stepped_def)
  ultimately obtain res' rr w' where rest: "apply_loop api slp ds d as ?res (reread \<or> ac_type a = BindAttribute) w1 = (None, res', rr, w')" "sound w'"
      "ap_done res' = ap_done ?res @ done_all as" "keeps_facts (contents_of (shown w1)) (contents_of (shown w'))"
      "\<forall>f \<in> \<Union> (brings ` set as). holds_in (contents_of (shown w')) f"
    using Cons.IH [OF one(2), of ?res "reread \<or> ac_type a = BindAttribute"] one(3) Cons.prems(5) by auto
  have "\<forall>f \<in> brings a. holds_in (contents_of (shown w')) f" using one(4) rest(4) by (auto simp: stepped_def dest: keepsD)
  moreover have "keeps_facts ?c (contents_of (shown w'))" using keeps_trans [OF _ rest(4), of ?c] one(4) by (simp add: stepped_def)
  ultimately show ?case using one(1) rest by (auto simp: done_all_def)
qed

end

section \<open>The plan fits\<close>

definition plannable :: "desired \<Rightarrow> bool" where
  "plannable d \<longleftrightarrow> wf_desired d \<and> distinct (map dt_slug (d_templates d)) \<and> distinct (map da_slug (d_attributes d))
     \<and> (\<forall>t \<in> set (d_templates d). dt_slug t \<noteq> [] \<and> dt_name t \<noteq> [])
     \<and> (\<forall>a \<in> set (d_attributes d). da_slug a \<noteq> [] \<and> da_name a \<noteq> [] \<and> creatable (da_kind a) \<and> length (da_templates a) = 1
          \<and> distinct (da_options a) \<and> [] \<notin> set (da_options a) \<and> (da_options a \<noteq> [] \<longrightarrow> da_kind a = KindList))"

lemma apart_attributes: "ac_attribute a \<noteq> ac_attribute b \<Longrightarrow> ac_type a \<noteq> CreateTemplate \<or> ac_type b \<noteq> CreateTemplate \<Longrightarrow> apart a b"
  by (auto simp: apart_def)

lemma apart_types: "ac_type a \<noteq> ac_type b \<Longrightarrow> \<not> (ac_type a = CreateAttribute \<and> ac_type b = AddListOption) \<Longrightarrow> apart a b"
  by (auto simp: apart_def)

lemma apart_by_attribute: "distinct (map ac_attribute as) \<Longrightarrow> list_all (\<lambda>a. ac_type a \<noteq> CreateTemplate) as \<Longrightarrow> sorted_wrt apart as"
  by (induction as) (auto simp: list_all_iff intro!: apart_attributes)

lemma apart_templates: "distinct (map ac_template as) \<Longrightarrow> list_all (\<lambda>a. ac_type a = CreateTemplate) as \<Longrightarrow> sorted_wrt apart as"
  by (induction as) (auto simp: list_all_iff apart_def)

lemma apart_options: "distinct (map (\<lambda>a. (ac_attribute a, ac_option a)) as) \<Longrightarrow> list_all (\<lambda>a. ac_type a = AddListOption) as \<Longrightarrow> sorted_wrt apart as"
  by (induction as) (auto simp: list_all_iff apart_def)

text \<open>What each attribute contributes carries its slug, in an order that keeps distinct slugs distinct.\<close>

lemma distinct_parts:
  assumes "distinct (map da_slug as)" "\<forall>a \<in> set as. distinct (map g (f a)) \<and> (\<forall>x \<in> set (f a). h (g x) = da_slug a)"
  shows "distinct (map g (concat (map f as)))"
  using assms
proof (induction as)
  case (Cons a as)
  have "h y = da_slug a" if "y \<in> set (map g (f a))" for y using Cons.prems(2) that by auto
  moreover have "h y \<in> da_slug ` set as" if y: "y \<in> set (map g (concat (map f as)))" for y
  proof -
    obtain b x where "b \<in> set as" "x \<in> set (f b)" "y = g x" using y by auto
    with Cons.prems(2) show ?thesis by auto
  qed
  moreover have "da_slug a \<notin> da_slug ` set as" using Cons.prems(1) by simp
  ultimately have "set (map g (f a)) \<inter> set (map g (concat (map f as))) = {}" by (metis disjoint_iff)
  moreover have "distinct (map g (concat (map f as)))" using Cons by simp
  moreover have "distinct (map g (f a))" using Cons.prems(2) by simp
  ultimately show ?case by (simp only: list.map concat.simps map_append distinct_append)
qed simp

lemma parts_shape:
  shows "x \<in> set (pp_creates (attr_parts cur a)) \<Longrightarrow> x = create_action a \<and> gm_get (cu_attributes cur) (da_slug a) = None \<and> da_kind a \<noteq> KindReference"
    and "x \<in> set (pp_refs (attr_parts cur a)) \<Longrightarrow> x = create_action a \<and> gm_get (cu_attributes cur) (da_slug a) = None \<and> da_kind a = KindReference"
    and "length (pp_creates (attr_parts cur a)) \<le> 1" "length (pp_refs (attr_parts cur a)) \<le> 1"
  by (auto simp: attr_parts_def create_parts_def update_parts_def no_parts_def split: option.splits if_splits)

lemma action_fields:
  "ac_type (create_action a) = CreateAttribute" "ac_attribute (create_action a) = da_slug a" "ac_name (create_action a) = da_name a"
  "ac_kind (create_action a) = da_kind a" "ac_templates (create_action a) = sort (da_templates a)" "ac_target (create_action a) = da_target a"
  "ac_type (option_action a aid v) = AddListOption" "ac_attribute (option_action a aid v) = da_slug a" "ac_option (option_action a aid v) = v"
  "ac_attr_id (option_action a aid v) = aid"
  "ac_type (bind_action a aid t tids) = BindAttribute" "ac_attribute (bind_action a aid t tids) = da_slug a" "ac_attr_id (bind_action a aid t tids) = aid"
  "ac_template (bind_action a aid t tids) = t" "ac_tpl_ids (bind_action a aid t tids) = tids"
  by (simp_all add: create_action_def option_action_def bind_action_def blank_action_def)

lemma options_shape: "\<exists>aid vs. pp_options (attr_parts cur a) = map (option_action a aid) (filter vs (da_options a))
    \<and> (aid = [] \<and> vs = (\<lambda>v. True) \<and> gm_get (cu_attributes cur) (da_slug a) = None \<and> da_kind a \<noteq> KindReference
       \<or> (\<exists>x. gm_get (cu_attributes cur) (da_slug a) = Some x \<and> aid = ca_id x \<and> vs = (\<lambda>v. v \<notin> set (ca_options x)) \<and> ca_type x = type_of (da_kind a) \<and> da_kind a = KindList)
       \<or> vs = (\<lambda>v. False))"
proof (cases "gm_get (cu_attributes cur) (da_slug a)")
  case None
  then show ?thesis
    by (intro exI [of _ "[]"] exI [of _ "if da_kind a = KindReference then (\<lambda>v. False) else (\<lambda>v. True)"])
      (simp add: attr_parts_def create_parts_def no_parts_def)
next
  case (Some x)
  show ?thesis
  proof (cases "ca_type x = type_of (da_kind a) \<and> da_kind a = KindList")
    case True
    then show ?thesis using Some by (intro exI [of _ "ca_id x"] exI [of _ "\<lambda>v. v \<notin> set (ca_options x)"])
      (simp add: attr_parts_def update_parts_def no_parts_def ref_conflict_def)
  next
    case False
    then show ?thesis using Some by (intro exI [of _ "[]"] exI [of _ "\<lambda>v. False"]) (auto simp: attr_parts_def update_parts_def no_parts_def)
  qed
qed

lemma binds_shape: "x \<in> set (pp_binds (attr_parts cur a)) \<Longrightarrow> \<exists>y tpl. gm_get (cu_attributes cur) (da_slug a) = Some y \<and> tpl \<in> set (da_templates a)
    \<and> x \<in> set (bind_step cur a y tpl)"
  by (auto simp: attr_parts_def create_parts_def update_parts_def no_parts_def split: option.splits if_splits)

lemma binds_single: "length (da_templates a) = 1 \<Longrightarrow> length (pp_binds (attr_parts cur a)) \<le> 1"
  by (cases "da_templates a") (auto simp: attr_parts_def create_parts_def update_parts_def no_parts_def bind_step_def Let_def split: option.splits)

lemma diff_conflicts: "pl_conflicts (diff d cur) = [] \<Longrightarrow> a \<in> set (d_attributes d) \<Longrightarrow> pp_conflicts (attr_parts cur a) = []"
  using set_sort [of cf_slug "concat (map pp_conflicts (map (attr_parts cur) (sort_key da_slug (d_attributes d))))"]
  by (simp add: diff_def Let_def)

lemma gm_keyed: "gm_ok m \<Longrightarrow> (k, v) \<in> set m \<longleftrightarrow> gm_get m k = Some v"
  by (simp add: gm_ok_def gm_get_def)

lemma bound_ids: "gm_ok (cu_templates cur) \<Longrightarrow> tid \<in> set (bound_to cur aid) \<longleftrightarrow> (\<exists>s t. gm_get (cu_templates cur) s = Some t \<and> ct_id t = tid \<and> aid \<in> set (ct_attrs t))"
  by (auto simp: set_bound_to gm_keyed)

lemma bind_step_fits:
  assumes "x \<in> set (bind_step cur a y tpl)" "gm_get (cu_attributes cur) (da_slug a) = Some y" "gm_ok (cu_templates cur)"
  shows "fits_in (contents_of cur) x \<and> ac_type x = BindAttribute \<and> ac_attribute x = da_slug a \<and> ac_template x = tpl"
proof -
  have "list_all (has_id (contents_of cur)) (bound_to cur (ca_id y))" unfolding list_all_iff has_id_def contents_of_def fst_conv by (metis bound_ids [OF assms(3)])
  then have has: "has_id (contents_of cur) tid" if "tid \<in> set (bound_to cur (ca_id y))" for tid using that by (simp add: list_all_iff)
  have self: "gm_get (cu_templates cur) tpl = Some t \<Longrightarrow> has_id (contents_of cur) (ct_id t)" for t by (auto simp: has_id_def contents_of_def)
  have x: "x = bind_action a (ca_id y) tpl (sort (bound_to cur (ca_id y))) \<or>
      (\<exists>t. gm_get (cu_templates cur) tpl = Some t \<and> x = bind_action a (ca_id y) tpl (sort (sort (bound_to cur (ca_id y)) @ [ct_id t])))"
    using assms(1) by (auto simp: bind_step_def Let_def split: option.splits if_splits)
  then have "set (bound_to cur (ca_id y)) \<subseteq> set (ac_tpl_ids x)" "list_all (has_id (contents_of cur)) (ac_tpl_ids x)"
    using has self by (auto simp: action_fields list_all_iff)
  moreover have "ac_type x = BindAttribute" "ac_attribute x = da_slug a" "ac_template x = tpl" "ac_attr_id x = ca_id y" using x by (auto simp: action_fields)
  moreover have "ct_id t \<in> set (bound_to cur (ca_id y))" if "gm_get (cu_templates cur) s = Some t" "ca_id y \<in> set (ct_attrs t)" for s t
    using that bound_ids [OF assms(3)] by blast
  ultimately show ?thesis using assms(2) by (auto simp: fits_in_def contents_of_def)
qed

lemma diff_fits:
  assumes "plannable d" "gm_ok (cu_templates cur)"
  shows "list_all (fits_in (contents_of cur)) (pl_actions (diff d cur))"
proof -
  have tpl: "fits_in (contents_of cur) x" if "x \<in> set (template_actions d cur)" for x
    using that assms(1) by (auto simp: template_actions_def fits_in_def blank_action_def contents_of_def plannable_def gm_has_def)
  have attr: "fits_in (contents_of cur) x" if a_in: "a \<in> set (d_attributes d)"
      and x_in: "x \<in> set (pp_creates (attr_parts cur a)) \<union> set (pp_refs (attr_parts cur a)) \<union> set (pp_options (attr_parts cur a)) \<union> set (pp_binds (attr_parts cur a))" for a x
  proof -
    have a: "da_slug a \<noteq> []" "da_name a \<noteq> []" "creatable (da_kind a)" "[] \<notin> set (da_options a)" using assms(1) a_in by (auto simp: plannable_def)
    from x_in consider (create) "x \<in> set (pp_creates (attr_parts cur a))" | (ref) "x \<in> set (pp_refs (attr_parts cur a))"
      | (option) "x \<in> set (pp_options (attr_parts cur a))" | (bind) "x \<in> set (pp_binds (attr_parts cur a))" by blast
    then show ?thesis
    proof cases
      case create
      from parts_shape(1) [OF this] a show ?thesis by (simp add: fits_in_def action_fields contents_of_def)
    next
      case ref
      from parts_shape(2) [OF this] a show ?thesis by (simp add: fits_in_def action_fields contents_of_def)
    next
      case option
      obtain aid vs where o: "pp_options (attr_parts cur a) = map (option_action a aid) (filter vs (da_options a))"
        "aid = [] \<and> vs = (\<lambda>v. True) \<and> gm_get (cu_attributes cur) (da_slug a) = None \<and> da_kind a \<noteq> KindReference
         \<or> (\<exists>y. gm_get (cu_attributes cur) (da_slug a) = Some y \<and> aid = ca_id y \<and> vs = (\<lambda>v. v \<notin> set (ca_options y)) \<and> ca_type y = type_of (da_kind a) \<and> da_kind a = KindList)
         \<or> vs = (\<lambda>v. False)" using options_shape by blast
      then obtain v where v: "x = option_action a aid v" "vs v" "v \<in> set (da_options a)" using option by auto
      with o(2) a(4) show ?thesis by (auto simp: fits_in_def action_fields contents_of_def)
    next
      case bind
      then show ?thesis using binds_shape bind_step_fits [OF _ _ assms(2)] by blast
    qed
  qed
  show ?thesis using tpl attr by (auto simp: diff_def Let_def list_all_iff)
qed

lemma binds_attribute: "x \<in> set (pp_binds (attr_parts cur a)) \<Longrightarrow> ac_type x = BindAttribute \<and> ac_attribute x = da_slug a"
  using binds_shape [of x cur a] by (auto simp: bind_step_def Let_def action_fields split: option.splits if_splits)

lemma one_distinct: "length xs \<le> 1 \<Longrightarrow> distinct (map f xs)"
  by (cases xs) simp_all

lemma apart_phases:
  assumes "sorted_wrt apart ts" "sorted_wrt apart cs" "sorted_wrt apart rs" "sorted_wrt apart os" "sorted_wrt apart bs"
    and "\<forall>x \<in> set ts. ac_type x = CreateTemplate" "\<forall>x \<in> set cs \<union> set rs. ac_type x = CreateAttribute"
    and "\<forall>x \<in> set os. ac_type x = AddListOption" "\<forall>x \<in> set bs. ac_type x = BindAttribute"
    and "\<forall>x \<in> set cs. \<forall>y \<in> set rs. apart x y" "\<forall>x \<in> set cs \<union> set rs. \<forall>y \<in> set os. apart x y"
  shows "sorted_wrt apart (ts @ cs @ rs @ os @ bs)"
proof -
  have "apart x y" if "x \<in> set ts" "y \<in> set cs \<union> set rs \<union> set os \<union> set bs" for x y using assms(6-9) that by (intro apart_types) auto
  moreover have "apart x y" if "x \<in> set cs \<union> set rs \<union> set os" "y \<in> set bs" for x y using assms(6-9) that by (intro apart_types) auto
  ultimately show ?thesis using assms(1-5,10,11) unfolding sorted_wrt_append set_append by blast
qed

lemma diff_apart:
  assumes "plannable d"
  shows "sorted_wrt apart (pl_actions (diff d cur))"
proof -
  let ?as = "sort_key da_slug (d_attributes d)"
  let ?parts = "\<lambda>f. concat (map f (map (attr_parts cur) ?as))"
  have P: "distinct (map da_slug ?as)" "distinct (map dt_slug (d_templates d))"
    and A: "\<And>a. a \<in> set ?as \<Longrightarrow> length (da_templates a) = 1 \<and> distinct (da_options a) \<and> (da_options a \<noteq> [] \<longrightarrow> da_kind a = KindList)"
    using assms by (auto simp: plannable_def distinct_sort_map)
  have same: "da_slug a = da_slug b \<Longrightarrow> a = b" if "a \<in> set ?as" "b \<in> set ?as" for a b
    using P(1) that by (metis distinct_map inj_onD)
  have T: "list_all (\<lambda>x. ac_type x = CreateTemplate) (template_actions d cur)" "distinct (map ac_template (template_actions d cur))"
    using P(2) by (auto simp: template_actions_def blank_action_def list_all_iff comp_def distinct_map_filter distinct_sort_map)
  have C: "\<exists>a \<in> set ?as. x = create_action a \<and> da_kind a \<noteq> KindReference" if "x \<in> set (?parts pp_creates)" for x
    using that parts_shape(1) by fastforce
  have R: "\<exists>a \<in> set ?as. x = create_action a \<and> da_kind a = KindReference" if "x \<in> set (?parts pp_refs)" for x
    using that parts_shape(2) by fastforce
  have opt: "\<exists>aid vs. pp_options (attr_parts cur a) = map (option_action a aid) (filter vs (da_options a))" for a
    using options_shape by blast
  have O: "\<exists>a \<in> set ?as. ac_type x = AddListOption \<and> ac_attribute x = da_slug a \<and> da_kind a = KindList" if x: "x \<in> set (?parts pp_options)" for x
  proof -
    obtain a where a: "a \<in> set ?as" "x \<in> set (pp_options (attr_parts cur a))" using x by auto
    obtain aid vs where "pp_options (attr_parts cur a) = map (option_action a aid) (filter vs (da_options a))" using opt by blast
    then show ?thesis using a A [OF a(1)] by (auto simp: action_fields intro!: bexI [of _ a])
  qed
  have B: "ac_type x = BindAttribute" if "x \<in> set (?parts pp_binds)" for x using that binds_attribute by auto
  have "distinct (map ac_attribute (?parts pp_creates))" unfolding map_map
    by (rule distinct_parts [where h = "\<lambda>s. s", OF P(1)]) (auto simp: action_fields intro!: one_distinct parts_shape(3) dest!: parts_shape(1))
  moreover have "distinct (map ac_attribute (?parts pp_refs))" unfolding map_map
    by (rule distinct_parts [where h = "\<lambda>s. s", OF P(1)]) (auto simp: action_fields intro!: one_distinct parts_shape(4) dest!: parts_shape(2))
  moreover have "distinct (map ac_attribute (?parts pp_binds))" unfolding map_map
    by (rule distinct_parts [where h = "\<lambda>s. s", OF P(1)]) (use assms in \<open>auto simp: plannable_def intro!: one_distinct binds_single dest!: binds_attribute\<close>)
  moreover have "distinct (map (\<lambda>x. (ac_attribute x, ac_option x)) (?parts pp_options))" unfolding map_map
  proof (rule distinct_parts [where h = fst, OF P(1)], rule ballI)
    fix a assume a: "a \<in> set ?as"
    obtain aid vs where "pp_options (attr_parts cur a) = map (option_action a aid) (filter vs (da_options a))" using opt by blast
    then show "distinct (map (\<lambda>x. (ac_attribute x, ac_option x)) ((pp_options \<circ> attr_parts cur) a))
        \<and> (\<forall>x \<in> set ((pp_options \<circ> attr_parts cur) a). fst (ac_attribute x, ac_option x) = da_slug a)"
      using A [OF a] by (auto simp: action_fields comp_def distinct_map inj_on_def)
  qed
  moreover have "list_all (\<lambda>x. ac_type x \<noteq> CreateTemplate) (?parts pp_creates)" "list_all (\<lambda>x. ac_type x \<noteq> CreateTemplate) (?parts pp_refs)"
    unfolding list_all_iff using C R by (fastforce simp: action_fields)+
  moreover have "list_all (\<lambda>x. ac_type x = AddListOption) (?parts pp_options)" unfolding list_all_iff using O by blast
  moreover have "list_all (\<lambda>x. ac_type x \<noteq> CreateTemplate) (sort_key (\<lambda>a. (ac_attribute a, ac_template a)) (?parts pp_binds))"
    unfolding list_all_iff set_sort using B by fastforce
  ultimately have parts: "sorted_wrt apart (?parts pp_creates)" "sorted_wrt apart (?parts pp_refs)" "sorted_wrt apart (?parts pp_options)"
      "sorted_wrt apart (sort_key (\<lambda>a. (ac_attribute a, ac_template a)) (?parts pp_binds))" "sorted_wrt apart (template_actions d cur)"
    using apart_by_attribute apart_options apart_templates [OF T(2,1)] by (simp_all only: distinct_sort_map)
  have "apart x y" if in_creates: "x \<in> set (?parts pp_creates)" and in_refs: "y \<in> set (?parts pp_refs)" for x y
  proof -
    obtain a b where ab: "a \<in> set ?as" "x = create_action a" "da_kind a \<noteq> KindReference" "b \<in> set ?as" "y = create_action b" "da_kind b = KindReference"
      using C [OF in_creates] R [OF in_refs] by blast
    then have "da_slug a \<noteq> da_slug b" using same [OF ab(1,4)] by auto
    with ab show ?thesis by (intro apart_attributes) (simp_all add: action_fields)
  qed
  moreover have "apart x y" if in_new: "x \<in> set (?parts pp_creates) \<union> set (?parts pp_refs)" and in_options: "y \<in> set (?parts pp_options)" for x y
  proof -
    obtain a where a: "a \<in> set ?as" "x = create_action a" using C R in_new by blast
    obtain b where b: "b \<in> set ?as" "ac_type y = AddListOption" "ac_attribute y = da_slug b" "da_kind b = KindList" using O [OF in_options] by blast
    have "da_slug a = da_slug b \<Longrightarrow> da_kind a = KindList" using same [OF a(1) b(1)] b(4) by simp
    with a b show ?thesis by (auto simp: apart_def action_fields)
  qed
  moreover have "ac_type x = CreateAttribute" if "x \<in> set (?parts pp_creates) \<union> set (?parts pp_refs)" for x using that C R by (fastforce simp: action_fields)
  moreover have "ac_type x = AddListOption" if "x \<in> set (?parts pp_options)" for x using O [OF that] by blast
  moreover have "ac_type x = CreateTemplate" if "x \<in> set (template_actions d cur)" for x using T(1) that by (simp add: list_all_iff)
  moreover have "ac_type x = BindAttribute" if "x \<in> set (sort_key (\<lambda>a. (ac_attribute a, ac_template a)) (?parts pp_binds))" for x
    using that B unfolding set_sort by blast
  ultimately show ?thesis unfolding diff_def Let_def plan.select_convs by (intro apart_phases parts ballI)
qed

section \<open>What the facts amount to\<close>

definition wanted_of :: "desired_attr \<Rightarrow> fact set" where
  "wanted_of a = {HasType (da_slug a) (type_of (da_kind a))} \<union> IsBound (da_slug a) ` set (da_templates a)
     \<union> (if da_kind a = KindReference then {RefersTo (da_slug a) (da_target a)} else {})
     \<union> (if da_kind a = KindList then HasOption (da_slug a) ` set (da_options a) else {})"

definition wanted_facts :: "desired \<Rightarrow> fact set" where
  "wanted_facts d = HasTemplate ` dt_slug ` set (d_templates d) \<union> \<Union> (wanted_of ` set (d_attributes d))"

lemma satisfied_by_facts:
  assumes "\<forall>f \<in> wanted_facts d. holds_in (contents_of cur) f"
  shows "satisfied d cur"
proof -
  let ?T = "cu_templates cur" and ?A = "cu_attributes cur"
  have h: "holds_in (gm_get ?T, gm_get ?A) f" if "f \<in> wanted_facts d" for f using assms that by (simp add: contents_of_def)
  have "attr_satisfied cur a" if a: "a \<in> set (d_attributes d)" for a
  proof -
    have "wanted_of a \<subseteq> wanted_facts d" using a by (auto simp: wanted_facts_def)
    moreover have "HasType (da_slug a) (type_of (da_kind a)) \<in> wanted_of a" "t \<in> set (da_templates a) \<Longrightarrow> IsBound (da_slug a) t \<in> wanted_of a"
      "da_kind a = KindReference \<Longrightarrow> RefersTo (da_slug a) (da_target a) \<in> wanted_of a"
      "da_kind a = KindList \<Longrightarrow> v \<in> set (da_options a) \<Longrightarrow> HasOption (da_slug a) v \<in> wanted_of a" for t v
      by (simp_all add: wanted_of_def)
    ultimately have w: "HasType (da_slug a) (type_of (da_kind a)) \<in> wanted_facts d" "t \<in> set (da_templates a) \<Longrightarrow> IsBound (da_slug a) t \<in> wanted_facts d"
      "da_kind a = KindReference \<Longrightarrow> RefersTo (da_slug a) (da_target a) \<in> wanted_facts d"
      "da_kind a = KindList \<Longrightarrow> v \<in> set (da_options a) \<Longrightarrow> HasOption (da_slug a) v \<in> wanted_facts d" for t v
      by blast+
    obtain x where x: "gm_get ?A (da_slug a) = Some x" "ca_type x = type_of (da_kind a)" using h [OF w(1)] by auto
    have "\<exists>u. gm_get ?T t = Some u \<and> (\<exists>s v. (s, v) \<in> set ?T \<and> ct_id v = ct_id u \<and> ca_id x \<in> set (ct_attrs v))" if t_in: "t \<in> set (da_templates a)" for t
    proof -
      obtain u where "gm_get ?T t = Some u" "ca_id x \<in> set (ct_attrs u)" using h [OF w(2) [OF t_in]] x(1) by auto
      moreover have "(t, u) \<in> set ?T" using calculation(1) by (simp add: gm_get_def map_of_SomeD)
      ultimately show ?thesis by blast
    qed
    moreover have "\<exists>t. gm_get ?T (da_target a) = Some t \<and> ca_ref x = ct_id t" if "da_kind a = KindReference" using h [OF w(3) [OF that]] x(1) by auto
    moreover have "set (da_options a) \<subseteq> set (ca_options x)" if "da_kind a = KindList" using h [OF w(4) [OF that]] x(1) by auto
    ultimately show ?thesis using x by (simp add: attr_satisfied_def)
  qed
  moreover have "gm_has ?T (dt_slug t)" if "t \<in> set (d_templates d)" for t
    using h [of "HasTemplate (dt_slug t)"] that by (auto simp: wanted_facts_def gm_has_def)
  ultimately show ?thesis by (simp add: satisfied_def)
qed

text \<open>Every wanted fact holds already or is brought by an action of the plan.\<close>

lemma wanted_covered:
  assumes "identified (contents_of cur)" "gm_ok (cu_templates cur)" "pl_conflicts (diff d cur) = []" "f \<in> wanted_facts d"
  shows "holds_in (contents_of cur) f \<or> f \<in> \<Union> (brings ` set (pl_actions (diff d cur)))"
proof -
  let ?T = "cu_templates cur" and ?A = "cu_attributes cur"
  have from_part: "x \<in> set (pl_actions (diff d cur))" if "a \<in> set (d_attributes d)"
      "x \<in> set (pp_creates (attr_parts cur a)) \<union> set (pp_refs (attr_parts cur a)) \<union> set (pp_options (attr_parts cur a)) \<union> set (pp_binds (attr_parts cur a))" for a x
    using that by (auto simp: diff_def Let_def)
  from assms(4) consider (template) t where "t \<in> set (d_templates d)" "f = HasTemplate (dt_slug t)"
    | (attribute) a where "a \<in> set (d_attributes d)" "f \<in> wanted_of a"
    unfolding wanted_facts_def by blast
  then show ?thesis
  proof cases
    case template
    show ?thesis
    proof (cases "gm_has ?T (dt_slug t)")
      case False
      define x where "x = (blank_action CreateTemplate)\<lparr>ac_template := dt_slug t, ac_name := dt_name t, ac_desc := dt_desc t\<rparr>"
      have "x \<in> set (pl_actions (diff d cur))" using False template(1) by (auto simp: x_def diff_def Let_def template_actions_def)
      moreover have "f \<in> brings x" by (simp add: x_def template(2) brings_def blank_action_def)
      ultimately show ?thesis by blast
    qed (simp add: template(2) contents_of_def gm_has_def)
  next
    case attribute
    show ?thesis
    proof (cases "gm_get ?A (da_slug a)")
      case None
      note part = from_part [OF attribute(1)]
      have "create_action a \<in> set (pl_actions (diff d cur))"
        by (rule part) (simp add: attr_parts_def None create_parts_def no_parts_def)
      moreover have "option_action a [] v \<in> set (pl_actions (diff d cur))" if "da_kind a = KindList" "v \<in> set (da_options a)" for v
        by (rule part) (simp add: attr_parts_def None create_parts_def no_parts_def that)
      moreover have "f \<in> brings (create_action a) \<or> (\<exists>v \<in> set (da_options a). da_kind a = KindList \<and> f \<in> brings (option_action a [] v))"
        using attribute(2) by (auto simp: brings_def action_fields wanted_of_def split: if_splits)
      ultimately show ?thesis by blast
    next
      case (Some x)
      have ok: "ca_type x = type_of (da_kind a)" "\<not> ref_conflict cur a x"
        using diff_conflicts [OF assms(3) attribute(1)] by (auto simp: attr_parts_def Some update_parts_def no_parts_def split: if_splits)
      note part = from_part [OF attribute(1), unfolded attr_parts_def Some option.case update_parts_def]
      from attribute(2) consider "f = HasType (da_slug a) (type_of (da_kind a))" | (ref) "da_kind a = KindReference" "f = RefersTo (da_slug a) (da_target a)"
        | (option) v where "da_kind a = KindList" "v \<in> set (da_options a)" "f = HasOption (da_slug a) v"
        | (bind) t where "t \<in> set (da_templates a)" "f = IsBound (da_slug a) t" by (auto simp: wanted_of_def split: if_splits)
      then show ?thesis
      proof cases
        case 1
        then show ?thesis using Some ok(1) by (simp add: contents_of_def)
      next
        case ref
        then show ?thesis using Some ok(2) by (auto simp: contents_of_def ref_conflict_def split: option.splits)
      next
        case option
        show ?thesis
        proof (cases "v \<in> set (ca_options x)")
          case True
          then show ?thesis using Some option by (simp add: contents_of_def)
        next
          case False
          then have "option_action a (ca_id x) v \<in> set (pl_actions (diff d cur))" using ok option by (intro part) (simp add: no_parts_def)
          moreover have "f \<in> brings (option_action a (ca_id x) v)" by (simp add: option(3) brings_def action_fields)
          ultimately show ?thesis by blast
        qed
      next
        case bind
        show ?thesis
        proof (cases "bind_step cur a x t")
          case Nil
          then obtain u s v where u: "gm_get ?T t = Some u" "gm_get ?T s = Some v" "ct_id v = ct_id u" "ca_id x \<in> set (ct_attrs v)"
            unfolding bind_step_Nil bound_ids [OF assms(2)] by blast
          then have "s = t" using assms(1) unfolding identified_def contents_of_def fst_conv by metis
          then show ?thesis using u Some bind(2) by (simp add: contents_of_def)
        next
          case (Cons y ys)
          then have y: "y \<in> set (bind_step cur a x t)" by simp
          have "y \<in> set (pl_actions (diff d cur))" by (rule part) (use ok y bind(1) in \<open>auto simp: no_parts_def\<close>)
          moreover have "f \<in> brings y" using bind_step_fits [OF y Some assms(2)] by (simp add: bind(2) brings_def)
          ultimately show ?thesis by blast
        qed
      qed
    qed
  qed
qed

section \<open>Applying\<close>

context schema_platform begin

lemma apply_converges:
  assumes "sound w" "plannable d" "pl_conflicts (diff d (shown w)) = []"
  shows "\<exists>res w'. apply_with api slp ds d (shown w) w = (None, res, w') \<and> sound w' \<and> satisfied d (shown w')
    \<and> ap_done res = done_all (pl_actions (diff d (shown w)))
    \<and> keeps_facts (contents_of (shown w)) (contents_of (shown w'))"
proof -
  let ?p = "pl_actions (diff d (shown w))" and ?c = "contents_of (shown w)"
  note id = ids [OF assms(1)]
  have "wf_current (shown w)" using id by (auto simp: wf_current_def identified_def contents_of_def)
  moreover have "wf_desired d" using assms(2) by (simp add: plannable_def)
  moreover have "{k. gm_has (cu_templates (shown w)) k} = dom (fst ?c)" "{k. gm_has (cu_attributes (shown w)) k} = dom (snd ?c)"
    by (auto simp: gm_has_def contents_of_def)
  ultimately have ord: "ordered (dom (fst ?c)) (dom (snd ?c)) ?p" using diff_ordered [of d "shown w"] by simp
  have "agrees (ap_resolved (start_result (resolved_from (shown w)))) ?c" using agrees_from by (simp add: start_result_def)
  from run_plan [OF assms(1) this ord diff_fits [OF assms(2) keyed [OF assms(1)]] diff_apart [OF assms(2)], of slp ds d False]
  obtain res rr w1 where run: "apply_loop api slp ds d ?p (start_result (resolved_from (shown w))) False w = (None, res, rr, w1)" "sound w1"
    "ap_done res = done_all ?p" "keeps_facts ?c (contents_of (shown w1))" "\<forall>f \<in> \<Union> (brings ` set ?p). holds_in (contents_of (shown w1)) f"
    by (auto simp: start_result_def)
  have "\<forall>f \<in> wanted_facts d. holds_in (contents_of (shown w1)) f"
    using wanted_covered [OF id keyed [OF assms(1)] assms(3)] run(4,5) keepsD by blast
  then have sat: "satisfied d (shown w1)" by (rule satisfied_by_facts)
  obtain w2 where rd: "sa_read api w1 = (Inr (shown w1), w2)" "shown w2 = shown w1" "sound w2" using reads [OF run(2)] by blast
  have "\<exists>res'. verify api d res w1 = (None, res', w2) \<and> ap_done res' = ap_done res"
    using sat by (simp add: verify_def rd(1) Let_def plan_empty_iff [symmetric] plan_empty_def)
  then show ?thesis using run rd sat assms(3) by (cases rr) (auto simp: apply_with_def Let_def)
qed

end

end
