(* ===== verification/Planned.thy ===== *)
theory Planned
  imports Converge Resolved
begin

text \<open>A schema resolved from valid manifests is one that \<open>Apply\<close> can bring about: \<open>plannable\<close>.\<close>

section \<open>Where templates come from\<close>

lemma template_origin:
  assumes "p \<in> set (r_templates (resolve_state ms ov))"
  shows "snd p = plain_template (host_of ov) host_template_name ''A machine reporting through omnistat''
    \<or> (\<exists>m \<in> set ms. \<exists>u \<in> set (m_templates m). snd p = desired_of_template (ents_of ms ov) (m_module m) u)
    \<or> (\<exists>ma \<in> set (all_attrs ms). let tpl = hd (da_templates (attr_of ms ov ma)) in snd p = plain_template tpl (title_from_slug tpl) [])"
proof -
  let ?h = "plain_template (host_of ov) host_template_name ''A machine reporting through omnistat''"
  let ?dts = "concat (map (\<lambda>m. map (desired_of_template (ents_of ms ov) (m_module m)) (m_templates m)) ms)
    @ map (\<lambda>ma. let tpl = hd (da_templates (attr_of ms ov ma)) in plain_template tpl (title_from_slug tpl) []) (all_attrs ms)"
  have ts: "r_templates (resolve_state ms ov) = foldl (\<lambda>ts dt. declare_template dt ts) [(host_of ov, ?h)] ?dts"
    by (simp add: resolve_state_eq attrs_templates declared_templates_def declare_template_eq plain_template_def Let_def)
  have k: "slug_keyed [(host_of ov, ?h)]" by (simp add: slug_keyed_def gm_ok_def plain_template_def)
  have "p \<in> set [(host_of ov, ?h)] \<or> snd p \<in> set ?dts" using declares [OF k, of ?dts] assms unfolding ts by blast
  then show ?thesis by (auto simp: Let_def)
qed

section \<open>Nothing is empty\<close>

lemma join_cons: "x \<noteq> [] \<or> xs \<noteq> [] \<Longrightarrow> join '' '' (x # xs) \<noteq> []"
  by (cases xs) auto

lemma title_nonempty: "s \<noteq> [] \<Longrightarrow> title_from_slug s \<noteq> []"
proof -
  have "upper_first (c # cs) \<noteq> []" for c cs by (simp add: upper_first_def)
  moreover have "split_at c xs \<noteq> []" for c xs by (cases xs) (auto split: list.splits)
  ultimately show "s \<noteq> [] \<Longrightarrow> title_from_slug s \<noteq> []"
    by (cases s) (auto simp: title_from_slug_def split: list.splits dest: join_cons [THEN notE, rotated])
qed

lemma host_nonempty: "host_of ov \<noteq> []"
  by (auto simp: resolve_host_def host_template_def)

text \<open>The slugs of entity templates.\<close>

definition slugs_given :: "estate \<Rightarrow> bool" where
  "slugs_given es \<longleftrightarrow> (\<forall>m t s. ent_slug es m t = Some s \<longrightarrow> s \<noteq> [])"

lemma given_steps: "slugs_given es \<Longrightarrow> [] \<notin> set ents \<Longrightarrow> slugs_given (foldl (entity_step host m rn) es ents)"
proof (induction ents arbitrary: es)
  case (Cons e ents)
  have "slugs_given (entity_step host m rn es e)"
    using Cons.prems by (auto simp: slugs_given_def entity_step_eqs(2) renamed_def)
  then show ?case using Cons by simp
qed simp

lemma given_module: "slugs_given es \<Longrightarrow> [] \<notin> set (entity_slugs m) \<Longrightarrow> slugs_given (entity_module ov host es m)"
  by (auto simp: entity_module_def Let_def intro!: given_steps) (auto simp: slugs_given_def ent_slug_def gm_getd_def split: option.splits if_splits)

lemma given_all: "slugs_given es \<Longrightarrow> \<forall>m \<in> set ms. [] \<notin> set (entity_slugs m) \<Longrightarrow> slugs_given (foldl (entity_module ov host) es ms)"
  by (induction ms arbitrary: es) (auto intro: given_module)

lemma entity_slugs_valid: "wf_manifests ms \<Longrightarrow> m \<in> set ms \<Longrightarrow> [] \<notin> set (entity_slugs m)"
  by (fastforce simp: wf_manifests_def wf_manifest_def entity_slugs_def)

lemma given_slugs: "wf_manifests ms \<Longrightarrow> ent_slug (ents_of ms ov) m t = Some s \<Longrightarrow> s \<noteq> []"
  using given_all [of "\<lparr>e_slugs = [], e_owner = [], e_problems = []\<rparr>" ms ov "host_of ov"] entity_slugs_valid
  by (auto simp: entity_state_def slugs_given_def ent_slug_def)

lemma attr_in: "(m, a) \<in> set (all_attrs ms) \<Longrightarrow> \<exists>mf \<in> set ms. m = m_module mf \<and> a \<in> set (m_attributes mf)"
  by (auto simp: all_attrs_def)

lemma wf_attr_in: "wf_manifests ms \<Longrightarrow> mf \<in> set ms \<Longrightarrow> a \<in> set (m_attributes mf) \<Longrightarrow> wf_attr (entity_slugs mf) a"
  by (simp add: wf_manifests_def wf_manifest_def)

lemma placed_nonempty: "wf_manifests ms \<Longrightarrow> hd (da_templates (attr_of ms ov ma)) \<noteq> []"
  using host_nonempty [of ov] given_slugs [of ms ov "fst ma" "a_template (snd ma)"]
  by (auto simp: desired_attr_of_def desired_of_attr_def place_attr_def Let_def split: option.splits)


section \<open>Every template and attribute is given\<close>

lemma templates_given:
  assumes "wf_manifests ms" "resolve ms ov = Inr d" "t \<in> set (d_templates d)"
  shows "dt_slug t \<noteq> [] \<and> dt_name t \<noteq> []"
proof -
  note sh = resolve_shape [OF assms(2)]
  from assms(3) obtain p where p: "p \<in> set (r_templates (resolve_state ms ov))" "snd p = t" by (auto simp: sh(8))
  from template_origin [OF p(1)] consider (host) "t = plain_template (host_of ov) host_template_name ''A machine reporting through omnistat''"
    | (declared) m u where "m \<in> set ms" "u \<in> set (m_templates m)" "t = desired_of_template (ents_of ms ov) (m_module m) u"
    | (placed) ma where "ma \<in> set (all_attrs ms)" "t = (let tpl = hd (da_templates (attr_of ms ov ma)) in plain_template tpl (title_from_slug tpl) [])"
    unfolding p(2) Let_def by blast
  then show ?thesis
  proof cases
    case host
    then show ?thesis using host_nonempty by (simp add: plain_template_def host_template_name_def)
  next
    case placed
    then show ?thesis using placed_nonempty [OF assms(1), of ov ma] title_nonempty by (simp add: plain_template_def Let_def)
  next
    case declared
    then have u: "valid_slug (t_slug u)" "trim_space (t_name u) \<noteq> []" using assms(1) by (auto simp: wf_manifests_def wf_manifest_def)
    then have names: "t_slug u \<noteq> []" "t_name u \<noteq> []" by auto
    have "entity_inv (host_of ov) \<lparr>e_slugs = [], e_owner = [], e_problems = []\<rparr>" by (simp add: entity_inv_def ent_slug_def)
    from entity_modules [OF this sh(2) [unfolded entity_state_def], folded entity_state_def]
    have "t_entity u \<Longrightarrow> \<exists>s. ent_slug (ents_of ms ov) (m_module m) (t_slug u) = Some s"
      using assms(1) declared(1,2) by (auto simp: wf_manifests_def entity_slugs_def)
    then show ?thesis using names given_slugs [OF assms(1)] by (auto simp: declared(3) desired_of_template_def plain_template_def)
  qed
qed

lemma attributes_given:
  assumes "wf_manifests ms" "resolve ms ov = Inr d" "a \<in> set (d_attributes d)"
  shows "da_slug a \<noteq> [] \<and> da_name a \<noteq> [] \<and> creatable (da_kind a) \<and> length (da_templates a) = 1
    \<and> distinct (da_options a) \<and> [] \<notin> set (da_options a) \<and> (da_options a \<noteq> [] \<longrightarrow> da_kind a = KindList)"
proof -
  from assms(3) obtain ma where ma: "ma \<in> set (all_attrs ms)" "a = set_display (display_of ms ov) (attr_of ms ov ma)"
    by (auto simp: resolve_shape(7) [OF assms(2)])
  obtain m b where b: "ma = (m, b)" by fastforce
  from attr_in [of m b ms] ma(1) obtain mf where mf: "mf \<in> set ms" "b \<in> set (m_attributes mf)" unfolding b by blast
  have wf: "wf_attr (entity_slugs mf) b" by (rule wf_attr_in [OF assms(1) mf])
  then have "a_name b \<noteq> []" "[] \<notin> set (a_options b)" "a_slug b \<noteq> []" "creatable (a_kind b)" "distinct (a_options b)" "a_options b \<noteq> [] \<longrightarrow> a_kind b = KindList"
    by (auto simp: wf_attr_def creatable_def kind_valid_def split: kind.splits)
  then show ?thesis by (simp add: ma(2) b desired_attr_of_def desired_of_attr_def Let_def)
qed

section \<open>References\<close>

lemma reference_entity:
  assumes "wf_manifests ms" "resolve ms ov = Inr d" "ma \<in> set (all_attrs ms)" "a_kind (snd ma) = KindReference"
  shows "hd (da_templates (attr_of ms ov ma)) \<noteq> host_of ov"
proof -
  obtain m b where b: "ma = (m, b)" by fastforce
  from attr_in [of m b ms] assms(3) obtain mf where mf: "mf \<in> set ms" "m = m_module mf" "b \<in> set (m_attributes mf)" unfolding b by blast
  have "a_template b \<in> set (entity_slugs mf)" using wf_attr_in [OF assms(1) mf(1,3)] assms(4) by (simp add: wf_attr_def b)
  moreover have "entity_inv (host_of ov) \<lparr>e_slugs = [], e_owner = [], e_problems = []\<rparr>" by (simp add: entity_inv_def ent_slug_def)
  from entity_modules [OF this resolve_shape(2) [OF assms(2), unfolded entity_state_def], folded entity_state_def]
  have "entity_inv (host_of ov) (ents_of ms ov) \<and> (\<forall>m \<in> set ms. \<forall>t \<in> set (entity_slugs m). ent_slug (ents_of ms ov) (m_module m) t \<noteq> None)"
    using assms(1) by (auto simp: wf_manifests_def)
  ultimately obtain r where "ent_slug (ents_of ms ov) m (a_template b) = Some r" "r \<noteq> host_of ov"
    using mf by (fastforce simp: entity_inv_def)
  then show ?thesis by (simp add: b desired_attr_of_def desired_of_attr_def Let_def)
qed

lemma display_given:
  assumes "wf_manifests ms" "resolve ms ov = Inr d" "a \<in> set (d_attributes d)" "da_kind a = KindReference"
  shows "\<exists>b \<in> set (d_attributes d). da_kind b \<noteq> KindReference \<and> da_slug b = da_display a"
proof -
  from resolve_host_links [OF assms] obtain rank where "(da_display a, rank) \<in> set (label_candidates ms ov)" by blast
  then obtain ma where ma: "ma \<in> set (all_attrs ms)" "da_display a = da_slug (attr_of ms ov ma)" "hd (da_templates (attr_of ms ov ma)) = host_of ov"
    by (auto simp: label_candidates_def)
  let ?b = "set_display (display_of ms ov) (attr_of ms ov ma)"
  have "?b \<in> set (d_attributes d)" using ma(1) by (simp add: resolve_shape(7) [OF assms(2)])
  moreover have "a_kind (snd ma) \<noteq> KindReference" using reference_entity [OF assms(1,2) ma(1)] ma(3) by blast
  then have "da_kind ?b \<noteq> KindReference" by (simp add: desired_attr_of_def desired_of_attr_def Let_def)
  ultimately show ?thesis using ma(2) by (intro bexI [of _ ?b]) simp_all
qed

lemma resolved_plannable:
  assumes "wf_manifests ms" "resolve ms ov = Inr d"
  shows "plannable d"
proof -
  note w = resolved_well_formed [OF assms(2)]
  have "wf_desired d"
    unfolding wf_desired_def
  proof (intro ballI conjI impI)
    fix a assume a: "a \<in> set (d_attributes d)"
    show "set (da_templates a) \<subseteq> dt_slug ` set (d_templates d)" using w a by fastforce
    assume ref: "da_kind a = KindReference"
    show "da_target a \<in> dt_slug ` set (d_templates d)" using resolve_host_links [OF assms a ref] w by (metis imageI)
    show "\<exists>b \<in> set (d_attributes d). da_kind b \<noteq> KindReference \<and> da_slug b = da_display a" by (rule display_given [OF assms a ref])
  qed
  then show ?thesis unfolding plannable_def using w templates_given [OF assms] attributes_given [OF assms] by blast
qed

end
