(* ===== verification/Client.thy ===== *)
theory Client
  imports Apierrors Apply Publish
begin

text \<open>
  \<open>internal/omni\<close>, the client (client.go, entities.go, publish.go; \<open>New\<close> is with \<open>Prepare\<close>): the interfaces that \<open>schema\<close>, \<open>identity\<close> and \<open>publish\<close>
  ask for, on top of the official SDK. The SDK is not code of this repository: it is a record of operations over its
  own state \<open>'w\<close>, each answering with a result or with the status and the error that \<open>map_err\<close> reads.
\<close>

section \<open>Single precision\<close>

definition ulp_exp32 :: "rat \<Rightarrow> int" where
  "ulp_exp32 x = max (flog2 x - 23) (- 149)"

definition rnd_pos32 :: "rat \<Rightarrow> rat" where
  "rnd_pos32 x = (let e = ulp_exp32 x in of_int (rhe (x / 2 powi e)) * 2 powi e)"

definition rnd32 :: "rat \<Rightarrow> f64" where
  "rnd32 x = (if x = 0 then Fin 0
     else if 0 < x then (let y = rnd_pos32 x in if 2 ^ 128 \<le> y then PInf else Fin y)
     else (let y = rnd_pos32 (- x) in if 2 ^ 128 \<le> y then NInf else Fin (- y)))"

definition to_f32 :: "f64 \<Rightarrow> f64" where
  "to_f32 x = (case x of Fin q \<Rightarrow> rnd32 q | y \<Rightarrow> y)"

section \<open>The SDK\<close>

type_synonym 'a sdk_reply = "(int option \<times> sdk_error) + 'a"

record sdk_template =
  tp_id :: string
  tp_slug :: string
  tp_name :: string
  tp_attributes :: "string list"

record sdk_attribute =
  xa_id :: string
  xa_slug :: string
  xa_name :: string
  xa_type :: string
  xa_reference :: "string option"
  xa_options :: "(string \<times> string) list"

record project_schema =
  sc_templates :: "sdk_template list"
  sc_attributes :: "sdk_attribute list"

record template_request =
  tq_name :: string
  tq_slug :: "string option"
  tq_desc :: "string option"
  tq_attr_ids :: "string list"
  tq_attr_slugs :: "string list"

record attribute_request =
  aq_name :: string
  aq_type :: int
  aq_data :: int
  aq_slug :: "string option"
  aq_desc :: "string option"
  aq_templates :: "string list option"
  aq_ref :: "(string \<times> string) option"

record search_request =
  sq_filters :: "(string \<times> string \<times> string) list list"
  sq_wanted :: "string list"
  sq_sort :: "string \<times> string"
  sq_limit :: nat

datatype plain_scalar = PlString string | PlBool bool | PlFloat f64

record entity_update =
  eu_attributes :: "(string, backfill) gomap option"
  eu_key :: "string option"

record entity_values =
  ev_map :: "(string, string) gomap option"
  ev_array :: "(string \<times> string) list option"

record chart_request =
  cq_attributes :: string
  cq_start :: int
  cq_end :: int
  cq_width :: "string option"
  cq_aggregate :: "string option"

record 'w sdk =
  sdk_schema :: "'w \<Rightarrow> project_schema sdk_reply \<times> 'w"
  sdk_permissions :: "'w \<Rightarrow> string list sdk_reply \<times> 'w"
  sdk_create_template :: "template_request \<Rightarrow> 'w \<Rightarrow> string sdk_reply \<times> 'w"
  sdk_create_attribute :: "attribute_request \<Rightarrow> 'w \<Rightarrow> string sdk_reply \<times> 'w"
  sdk_create_item :: "string \<Rightarrow> string \<Rightarrow> 'w \<Rightarrow> string sdk_reply \<times> 'w"
  sdk_patch_attribute :: "string \<Rightarrow> string list \<Rightarrow> 'w \<Rightarrow> unit sdk_reply \<times> 'w"
  sdk_search :: "string \<Rightarrow> search_request \<Rightarrow> 'w \<Rightarrow> entity_summary list sdk_reply \<times> 'w"
  sdk_by_key :: "string \<Rightarrow> string \<Rightarrow> 'w \<Rightarrow> string sdk_reply \<times> 'w"
  sdk_upsert :: "string \<Rightarrow> string \<Rightarrow> (string, plain_scalar) gomap \<Rightarrow> 'w \<Rightarrow> (string \<times> bool) sdk_reply \<times> 'w"
  sdk_update_entity :: "string \<Rightarrow> entity_update \<Rightarrow> 'w \<Rightarrow> unit sdk_reply \<times> 'w"
  sdk_create_entity :: "string \<Rightarrow> (string, plain_scalar) gomap \<Rightarrow> 'w \<Rightarrow> string sdk_reply \<times> 'w"
  sdk_ingest :: "string \<Rightarrow> metric_obs list \<Rightarrow> 'w \<Rightarrow> unit sdk_reply \<times> 'w"
  sdk_chart :: "string \<Rightarrow> chart_request \<Rightarrow> 'w \<Rightarrow> (string \<times> (gtime \<times> f64) list) list sdk_reply \<times> 'w"
  sdk_entity :: "string \<Rightarrow> string list option \<Rightarrow> 'w \<Rightarrow> entity_values sdk_reply \<times> 'w"

text \<open>What else lies outside: the decoding of error bodies and of an entity's id, and \<open>%q\<close>.\<close>

record client_env =
  ce_decode :: "string \<Rightarrow> error_body option"
  ce_body_id :: "string \<Rightarrow> string option"
  ce_quote :: "string \<Rightarrow> string"

section \<open>Errors\<close>

definition call_error_text :: "call_error \<Rightarrow> string" where
  "call_error_text e = (case e of ApiError op ae \<Rightarrow> op @ '': '' @ error_text ae | CallFailed op m \<Rightarrow> op @ '': '' @ m)"

definition error_is :: "sentinel \<Rightarrow> call_error \<Rightarrow> bool" where
  "error_is t e = (case e of ApiError op ae \<Rightarrow> is_error t ae | CallFailed op m \<Rightarrow> False)"

definition schema_error_of :: "call_error \<Rightarrow> schema_error" where
  "schema_error_of e = (if error_is SchemaAlreadyExists e then AlreadyExists (call_error_text e) else OtherSchemaError (call_error_text e))"

definition identity_error_of :: "call_error \<Rightarrow> api_error" where
  "identity_error_of e = (if error_is IdentityKeyTaken e then KeyTaken (call_error_text e) else OtherApiError (call_error_text e))"

definition publish_error_of :: "call_error \<Rightarrow> publish_error" where
  "publish_error_of e = (if error_is PublishNotFound e then PubNotFound
     else if error_is PublishRejected e then PubRejected (case e of ApiError op ae \<Rightarrow> Some (map fst (rejected_fields ae)) | _ \<Rightarrow> None)
     else PubOther (call_error_text e))"

definition replied :: "client_env \<Rightarrow> string \<Rightarrow> 'a sdk_reply \<times> 'w \<Rightarrow> (call_error + 'a) \<times> 'w" where
  "replied ce op rw = (case rw of
       (Inl (status, err), w) \<Rightarrow> (Inl (the (map_err (ce_decode ce) op status (Some err))), w)
     | (Inr x, w) \<Rightarrow> (Inr x, w))"

lemma replied_simps [simp]: "replied ce op (Inr x, w) = (Inr x, w)"
  by (simp add: replied_def)

definition with_error :: "('e \<Rightarrow> 'f) \<Rightarrow> ('e + 'a) \<times> 'w \<Rightarrow> ('f + 'a) \<times> 'w" where
  "with_error f rw = (case rw of (Inl e, w) \<Rightarrow> (Inl (f e), w) | (Inr x, w) \<Rightarrow> (Inr x, w))"

lemma with_error_simps [simp]: "with_error f (Inl e, w) = (Inl (f e), w)" "with_error f (Inr x, w) = (Inr x, w)"
  by (simp_all add: with_error_def)

section \<open>The schema\<close>

definition add_cur_template :: "(string, cur_template) gomap \<Rightarrow> sdk_template \<Rightarrow> (string, cur_template) gomap" where
  "add_cur_template m t = (if tp_slug t = [] then m
     else gm_put (tp_slug t) \<lparr>ct_id = tp_id t, ct_name = tp_name t, ct_attrs = tp_attributes t\<rparr> m)"

definition cur_attribute_of :: "sdk_attribute \<Rightarrow> cur_attribute" where
  "cur_attribute_of a = \<lparr>ca_id = xa_id a, ca_name = xa_name a, ca_type = xa_type a, ca_options = map snd (xa_options a),
     ca_option_ids = foldl (\<lambda>m p. gm_put (snd p) (fst p) m) [] (xa_options a),
     ca_ref = (case xa_reference a of None \<Rightarrow> [] | Some t \<Rightarrow> t)\<rparr>"

definition add_cur_attribute :: "(string, cur_attribute) gomap \<Rightarrow> sdk_attribute \<Rightarrow> (string, cur_attribute) gomap" where
  "add_cur_attribute m a = (if xa_slug a = [] then m else gm_put (xa_slug a) (cur_attribute_of a) m)"

definition current_of :: "project_schema \<Rightarrow> current" where
  "current_of ps = \<lparr>cu_templates = foldl add_cur_template [] (sc_templates ps), cu_attributes = foldl add_cur_attribute [] (sc_attributes ps)\<rparr>"

definition read_schema :: "client_env \<Rightarrow> 'w sdk \<Rightarrow> 'w \<Rightarrow> (call_error + current) \<times> 'w" where
  "read_schema ce sdk w = (case replied ce ''read schema'' (sdk_schema sdk w) of
       (Inl e, w1) \<Rightarrow> (Inl e, w1) | (Inr ps, w1) \<Rightarrow> (Inr (current_of ps), w1))"

definition my_permissions :: "client_env \<Rightarrow> 'w sdk \<Rightarrow> 'w \<Rightarrow> (call_error + string list) \<times> 'w" where
  "my_permissions ce sdk w = replied ce ''read permissions'' (sdk_permissions sdk w)"

definition opt_text :: "string \<Rightarrow> string option" where
  "opt_text s = (if s = [] then None else Some s)"

definition create_template :: "client_env \<Rightarrow> 'w sdk \<Rightarrow> string \<Rightarrow> string \<Rightarrow> string \<Rightarrow> 'w \<Rightarrow> (call_error + string) \<times> 'w" where
  "create_template ce sdk slug name desc w = replied ce (''create template '' @ slug)
     (sdk_create_template sdk \<lparr>tq_name = name, tq_slug = Some slug, tq_desc = opt_text desc, tq_attr_ids = [], tq_attr_slugs = []\<rparr> w)"

definition enums :: "client_env \<Rightarrow> kind \<Rightarrow> string + (int \<times> int)" where
  "enums ce k = (case k of KindText \<Rightarrow> Inr (0, 0) | KindNumber \<Rightarrow> Inr (0, 1) | KindBoolean \<Rightarrow> Inr (0, 2) | KindDatetime \<Rightarrow> Inr (0, 3)
     | KindDate \<Rightarrow> Inr (0, 4) | KindMetric \<Rightarrow> Inr (1, 1) | KindList \<Rightarrow> Inr (2, 0) | KindReference \<Rightarrow> Inr (3, 0)
     | KindOther s \<Rightarrow> Inl (''omnismith: kind '' @ ce_quote ce (kind_string k) @ '' cannot be created''))"

definition attribute_request_of :: "create_attribute_params \<Rightarrow> int \<times> int \<Rightarrow> attribute_request" where
  "attribute_request_of ps td = \<lparr>aq_name = cp_name ps, aq_type = fst td, aq_data = snd td, aq_slug = Some (cp_slug ps), aq_desc = opt_text (cp_desc ps),
     aq_templates = (if cp_templates ps \<noteq> [] then Some (cp_templates ps) else None),
     aq_ref = (if cp_kind ps = KindReference then Some (cp_ref_template ps, cp_ref_display ps) else None)\<rparr>"

definition create_attribute :: "client_env \<Rightarrow> 'w sdk \<Rightarrow> create_attribute_params \<Rightarrow> 'w \<Rightarrow> (schema_error + string) \<times> 'w" where
  "create_attribute ce sdk ps w = (case enums ce (cp_kind ps) of
       Inl e \<Rightarrow> (Inl (OtherSchemaError e), w)
     | Inr td \<Rightarrow> with_error schema_error_of (replied ce (''create attribute '' @ cp_slug ps) (sdk_create_attribute sdk (attribute_request_of ps td) w)))"

definition add_list_option :: "client_env \<Rightarrow> 'w sdk \<Rightarrow> string \<Rightarrow> string \<Rightarrow> 'w \<Rightarrow> (call_error + string) \<times> 'w" where
  "add_list_option ce sdk aid value w = replied ce (''add option '' @ ce_quote ce value) (sdk_create_item sdk aid value w)"

definition bind_attribute :: "client_env \<Rightarrow> 'w sdk \<Rightarrow> string \<Rightarrow> string list \<Rightarrow> 'w \<Rightarrow> (call_error + unit) \<times> 'w" where
  "bind_attribute ce sdk aid tids w = replied ce ''bind attribute'' (sdk_patch_attribute sdk aid tids w)"

definition schema_client :: "client_env \<Rightarrow> 'w sdk \<Rightarrow> 'w schema_api" where
  "schema_client ce sdk = \<lparr>sa_read = (\<lambda>w. with_error schema_error_of (read_schema ce sdk w)),
     sa_create_template = (\<lambda>slug name desc w. with_error schema_error_of (create_template ce sdk slug name desc w)),
     sa_create_attribute = create_attribute ce sdk,
     sa_add_option = (\<lambda>aid opt w. with_error schema_error_of (add_list_option ce sdk aid opt w)),
     sa_bind = (\<lambda>aid tids w. with_error schema_error_of (bind_attribute ce sdk aid tids w))\<rparr>"

section \<open>Entities\<close>

definition search_of :: "string \<Rightarrow> string \<Rightarrow> search_request" where
  "search_of slug v = \<lparr>sq_filters = [[(slug, ''eq'', v)]], sq_wanted = [slug], sq_sort = (''created_at'', ''asc''), sq_limit = 50\<rparr>"

definition client_find :: "client_env \<Rightarrow> 'w sdk \<Rightarrow> string \<Rightarrow> string \<Rightarrow> string \<Rightarrow> 'w \<Rightarrow> (call_error + entity_summary list) \<times> 'w" where
  "client_find ce sdk tid slug v w = replied ce ''search entities'' (sdk_search sdk tid (search_of slug v) w)"

text \<open>The id in the body of an answer that the SDK could not decode although it is a success.\<close>

definition id_despite :: "client_env \<Rightarrow> int option \<times> sdk_error \<Rightarrow> string option" where
  "id_despite ce e = (case e of
       (Some status, Generic text body) \<Rightarrow> (if status div 100 = 2
          then (case ce_body_id ce body of Some eid \<Rightarrow> if eid = [] then None else Some eid | None \<Rightarrow> None) else None)
     | _ \<Rightarrow> None)"

definition client_by_key :: "client_env \<Rightarrow> 'w sdk \<Rightarrow> string \<Rightarrow> string \<Rightarrow> 'w \<Rightarrow> (call_error + string option) \<times> 'w" where
  "client_by_key ce sdk tpl key w = (case sdk_by_key sdk tpl key w of
       (Inr eid, w1) \<Rightarrow> (Inr (Some eid), w1)
     | (Inl e, w1) \<Rightarrow> (case id_despite ce e of
           Some eid \<Rightarrow> (Inr (Some eid), w1)
         | None \<Rightarrow> (case replied ce ''get entity by key'' (Inl e :: string sdk_reply, w1) of
               (Inl err, w2) \<Rightarrow> if error_is ErrNotFound err then (Inr None, w2) else (Inl err, w2)
             | (Inr eid, w2) \<Rightarrow> (Inr (Some eid), w2))))"

definition plain_scalar_of :: "gvalue \<Rightarrow> plain_scalar option" where
  "plain_scalar_of v = (case v of
       VString s \<Rightarrow> Some (PlString s) | VBool b \<Rightarrow> Some (PlBool b) | VF64 x \<Rightarrow> Some (PlFloat (to_f32 x)) | VF32 x \<Rightarrow> Some (PlFloat x)
     | VInt GoInt i \<Rightarrow> Some (PlFloat (rnd32 (of_int i))) | _ \<Rightarrow> None)"

fun plain_values :: "(string, gvalue) gomap \<Rightarrow> (string \<times> gvalue) + (string, plain_scalar) gomap" where
  "plain_values [] = Inr []"
| "plain_values ((slug, v) # m) = (case plain_scalar_of v of
       None \<Rightarrow> Inl (slug, v)
     | Some p \<Rightarrow> (case plain_values m of Inl e \<Rightarrow> Inl e | Inr ps \<Rightarrow> Inr ((slug, p) # ps)))"

text \<open>\<open>%T\<close>.\<close>

definition go_type :: "gvalue \<Rightarrow> string" where
  "go_type v = (case v of VNil \<Rightarrow> ''<nil>'' | VString x \<Rightarrow> ''string'' | VF64 x \<Rightarrow> ''float64'' | VF32 x \<Rightarrow> ''float32'' | VBool b \<Rightarrow> ''bool''
     | VTime t \<Rightarrow> ''time.Time'' | VOther x \<Rightarrow> x
     | VInt k i \<Rightarrow> (case k of GoInt \<Rightarrow> ''int'' | GoInt8 \<Rightarrow> ''int8'' | GoInt16 \<Rightarrow> ''int16'' | GoInt32 \<Rightarrow> ''int32'' | GoInt64 \<Rightarrow> ''int64''
         | GoUint \<Rightarrow> ''uint'' | GoUint8 \<Rightarrow> ''uint8'' | GoUint16 \<Rightarrow> ''uint16'' | GoUint32 \<Rightarrow> ''uint32'' | GoUint64 \<Rightarrow> ''uint64''))"

definition unsupported_text :: "string \<Rightarrow> string \<times> gvalue \<Rightarrow> call_error" where
  "unsupported_text op p = CallFailed op (''unsupported value type '' @ go_type (snd p) @ '' for '' @ fst p)"

definition client_upsert :: "client_env \<Rightarrow> 'w sdk \<Rightarrow> string \<Rightarrow> string \<Rightarrow> (string, gvalue) gomap \<Rightarrow> 'w \<Rightarrow> (call_error + string \<times> bool) \<times> 'w" where
  "client_upsert ce sdk tpl key attrs w = (case plain_values attrs of
       Inl p \<Rightarrow> (Inl (unsupported_text ''upsert entity'' p), w)
     | Inr vs \<Rightarrow> replied ce ''upsert entity by key'' (sdk_upsert sdk tpl key vs w))"

definition client_set_key :: "client_env \<Rightarrow> 'w sdk \<Rightarrow> string \<Rightarrow> string \<Rightarrow> 'w \<Rightarrow> (call_error + unit) \<times> 'w" where
  "client_set_key ce sdk eid key w = replied ce ''set entity key'' (sdk_update_entity sdk eid \<lparr>eu_attributes = None, eu_key = Some key\<rparr> w)"

definition client_create_entity :: "client_env \<Rightarrow> 'w sdk \<Rightarrow> string \<Rightarrow> (string, gvalue) gomap \<Rightarrow> 'w \<Rightarrow> (call_error + string) \<times> 'w" where
  "client_create_entity ce sdk tpl attrs w = (case plain_values attrs of
       Inl p \<Rightarrow> (Inl (unsupported_text ''create entity'' p), w)
     | Inr vs \<Rightarrow> replied ce ''create entity'' (sdk_create_entity sdk tpl vs w))"

definition identity_client :: "client_env \<Rightarrow> 'w sdk \<Rightarrow> 'w api" where
  "identity_client ce sdk = \<lparr>api_find = (\<lambda>tid slug v w. with_error identity_error_of (client_find ce sdk tid slug v w)),
     api_by_key = (\<lambda>tpl key w. with_error identity_error_of (client_by_key ce sdk tpl key w)),
     api_upsert = (\<lambda>tpl key attrs w. with_error identity_error_of (client_upsert ce sdk tpl key (map (\<lambda>p. (fst p, VString (snd p))) attrs) w)),
     api_set_key = (\<lambda>eid key w. with_error identity_error_of (client_set_key ce sdk eid key w))\<rparr>"

text \<open>The two reads of the acceptance tests.\<close>

definition epoch_seconds :: "gtime \<Rightarrow> int" where
  "epoch_seconds t = t div nano"

definition entity_chart :: "client_env \<Rightarrow> 'w sdk \<Rightarrow> string \<Rightarrow> string list \<Rightarrow> gtime \<Rightarrow> gtime \<Rightarrow> string \<Rightarrow> string \<Rightarrow> 'w
    \<Rightarrow> (call_error + (string, (gtime \<times> f64) list) gomap) \<times> 'w" where
  "entity_chart ce sdk eid aids start stop bucket aggregate w = (case replied ce ''entity chart'' (sdk_chart sdk eid
       \<lparr>cq_attributes = join '','' aids, cq_start = epoch_seconds start, cq_end = epoch_seconds stop,
        cq_width = opt_text bucket, cq_aggregate = opt_text aggregate\<rparr> w) of
       (Inl e, w1) \<Rightarrow> (Inl e, w1)
     | (Inr series, w1) \<Rightarrow> (Inr (foldl (\<lambda>m s. foldl (\<lambda>m p. gm_put (fst s) (gm_getd [] m (fst s) @ [p]) m) m (snd s)) [] series), w1))"

definition values_of :: "entity_values \<Rightarrow> (string, string) gomap" where
  "values_of ev = foldl (\<lambda>m p. if fst p = [] then m else gm_put (fst p) (snd p) m)
     (foldl (\<lambda>m p. gm_put (fst p) (snd p) m) [] (case ev_map ev of None \<Rightarrow> [] | Some m \<Rightarrow> m))
     (case ev_array ev of None \<Rightarrow> [] | Some vs \<Rightarrow> vs)"

definition read_values :: "client_env \<Rightarrow> 'w sdk \<Rightarrow> string \<Rightarrow> string list \<Rightarrow> 'w \<Rightarrow> (call_error + (string, string) gomap) \<times> 'w" where
  "read_values ce sdk eid slugs w = (case replied ce ''get entity'' (sdk_entity sdk eid (if slugs \<noteq> [] then Some slugs else None) w) of
       (Inl e, w1) \<Rightarrow> (Inl e, w1) | (Inr ev, w1) \<Rightarrow> (Inr (values_of ev), w1))"

section \<open>Publishing\<close>

text \<open>Times go out in UTC with microseconds.\<close>

definition stamp :: "gtime \<Rightarrow> gtime" where
  "stamp t = t - t mod 1000"

definition client_update :: "client_env \<Rightarrow> 'w sdk \<Rightarrow> string \<Rightarrow> (string, backfill) gomap \<Rightarrow> 'w \<Rightarrow> (call_error + unit) \<times> 'w" where
  "client_update ce sdk eid attrs w = replied ce ''update entity'' (sdk_update_entity sdk eid
     \<lparr>eu_attributes = Some (map (\<lambda>p. (fst p, (snd p)\<lparr>bk_at := stamp (bk_at (snd p))\<rparr>)) attrs), eu_key = None\<rparr> w)"

definition client_ingest :: "client_env \<Rightarrow> 'w sdk \<Rightarrow> string \<Rightarrow> metric_obs list \<Rightarrow> 'w \<Rightarrow> (call_error + unit) \<times> 'w" where
  "client_ingest ce sdk eid obs w = replied ce ''ingest metrics'' (sdk_ingest sdk eid (map (\<lambda>x. x\<lparr>mo_at := stamp (mo_at x)\<rparr>) obs) w)"

definition refused :: "(call_error + unit) \<times> 'w \<Rightarrow> publish_error option \<times> 'w" where
  "refused rw = (case rw of (Inl e, w) \<Rightarrow> (Some (publish_error_of e), w) | (Inr _, w) \<Rightarrow> (None, w))"

definition publish_client :: "client_env \<Rightarrow> 'w sdk \<Rightarrow> 'w publish_api" where
  "publish_client ce sdk = \<lparr>pa_update = (\<lambda>eid attrs w. refused (client_update ce sdk eid attrs w)),
     pa_ingest = (\<lambda>eid obs w. refused (client_ingest ce sdk eid obs w))\<rparr>"

end
