(* ===== verification/Omnitest.thy ===== *)
theory Omnitest
  imports Client
begin

text \<open>
  \<open>internal/omni/omnitest\<close>: the in-memory platform the tests run against (server.go, entities.go), as an SDK over its
  own state. A request is a method and a path with the values the SDK sends; its JSON, the clock's layout and \<open>%v\<close>
  of a number are fields of \<open>fake_env\<close>. \<open>Before\<close>, the other actor of a test, is a function of the state.
\<close>

section \<open>The state\<close>

record fk_template =
  ft_id :: string
  ft_slug :: string
  ft_name :: string
  ft_desc :: string
  ft_attrs :: "string list"

record fk_attribute =
  fa_id :: string
  fa_slug :: string
  fa_name :: string
  fa_desc :: string
  fa_type :: int
  fa_data :: int
  fa_options :: "(string \<times> string) list"
  fa_ref_template :: string
  fa_ref_display :: string

record dim_write =
  dw_slug :: string
  dw_value :: plain_scalar
  dw_at :: "gtime option"

record fk_entity =
  fe_id :: string
  fe_template :: string
  fe_values :: "(string, plain_scalar) gomap"
  fe_created :: string
  fe_history :: "dim_write list"
  fe_metrics :: "(string, (string \<times> gtime) list) gomap"
  fe_hidden :: nat
  fe_key :: string

record fault =
  fl_method :: string
  fl_prefix :: string
  fl_status :: int
  fl_body :: string
  fl_times :: int

record server =
  sv_token :: string
  sv_project :: string
  sv_permissions :: "string list"
  sv_next :: nat
  sv_templates :: "fk_template list"
  sv_attributes :: "fk_attribute list"
  sv_entities :: "fk_entity list"
  sv_requests :: "(string \<times> string) list"
  sv_faults :: "fault list"
  sv_deny :: bool
  sv_verbose :: bool
  sv_search_lag :: nat
  sv_schema_lag :: nat
  sv_race :: nat
  sv_searches :: nat
  sv_reads :: nat
  sv_pending :: "(nat \<times> project_schema) list"
  sv_clock :: gtime

record fake_env =
  fv_body :: "error_body \<Rightarrow> string"
  fv_status :: "int \<Rightarrow> string"
  fv_layout :: "gtime \<Rightarrow> string"
  fv_time :: "string \<Rightarrow> gtime"
  fv_float :: "f64 \<Rightarrow> string"

definition fake_token :: string where "fake_token = ''omni_test_token''"

definition fake_project :: string where "fake_project = ''01a0c47a-0000-7000-8000-000000000001''"

definition new_server :: "gtime \<Rightarrow> server" where
  "new_server now = \<lparr>sv_token = fake_token, sv_project = fake_project, sv_permissions = [''schema.write'', ''entity.write''], sv_next = 0,
     sv_templates = [], sv_attributes = [], sv_entities = [], sv_requests = [], sv_faults = [], sv_deny = False, sv_verbose = False,
     sv_search_lag = 0, sv_schema_lag = 0, sv_race = 0, sv_searches = 0, sv_reads = 0, sv_pending = [], sv_clock = now\<rparr>"

section \<open>Looking up\<close>

definition id_of_number :: "nat \<Rightarrow> string" where
  "id_of_number n = ''01900000-0000-7000-8000-'' @ pad 12 (int n)"

definition take_id :: "server \<Rightarrow> string \<times> server" where
  "take_id s = (id_of_number (Suc (sv_next s)), s\<lparr>sv_next := Suc (sv_next s)\<rparr>)"

definition tpl_by_slug :: "server \<Rightarrow> string \<Rightarrow> fk_template option" where
  "tpl_by_slug s slug = find (\<lambda>t. ft_slug t = slug) (sv_templates s)"

definition tpl_by_id :: "server \<Rightarrow> string \<Rightarrow> fk_template option" where
  "tpl_by_id s tid = find (\<lambda>t. ft_id t = tid) (sv_templates s)"

definition attr_by_slug :: "server \<Rightarrow> string \<Rightarrow> fk_attribute option" where
  "attr_by_slug s slug = find (\<lambda>a. fa_slug a = slug) (sv_attributes s)"

definition attr_by_id :: "server \<Rightarrow> string \<Rightarrow> fk_attribute option" where
  "attr_by_id s aid = find (\<lambda>a. fa_id a = aid) (sv_attributes s)"

definition entity_by_id :: "server \<Rightarrow> string \<Rightarrow> fk_entity option" where
  "entity_by_id s eid = find (\<lambda>e. fe_id e = eid) (sv_entities s)"

definition tpl_by_ref :: "server \<Rightarrow> string \<Rightarrow> fk_template option" where
  "tpl_by_ref s ref = (case tpl_by_slug s ref of Some t \<Rightarrow> Some t | None \<Rightarrow> tpl_by_id s ref)"

definition live_by_key :: "server \<Rightarrow> string \<Rightarrow> string \<Rightarrow> fk_entity option" where
  "live_by_key s tid key = find (\<lambda>e. fe_template e = tid \<and> fe_key e = key \<and> key \<noteq> []) (sv_entities s)"

text \<open>Objects are changed in place; their ids are unique.\<close>

definition on_template :: "string \<Rightarrow> (fk_template \<Rightarrow> fk_template) \<Rightarrow> fk_template list \<Rightarrow> fk_template list" where
  "on_template tid f ts = map (\<lambda>t. if ft_id t = tid then f t else t) ts"

definition on_entity :: "string \<Rightarrow> (fk_entity \<Rightarrow> fk_entity) \<Rightarrow> server \<Rightarrow> server" where
  "on_entity eid f s = s\<lparr>sv_entities := map (\<lambda>e. if fe_id e = eid then f e else e) (sv_entities s)\<rparr>"

definition append_unique :: "string list \<Rightarrow> string \<Rightarrow> string list" where
  "append_unique xs x = (if x \<in> set xs then xs else xs @ [x])"

definition bind_to :: "string \<Rightarrow> fk_template \<Rightarrow> fk_template" where
  "bind_to aid t = t\<lparr>ft_attrs := append_unique (ft_attrs t) aid\<rparr>"

definition bind_all :: "string list \<Rightarrow> string \<Rightarrow> fk_template list \<Rightarrow> fk_template list" where
  "bind_all tids aid ts = foldl (\<lambda>ts tid. on_template tid (bind_to aid) ts) ts tids"

section \<open>Types and slugs\<close>

definition type_to_enums :: "string \<Rightarrow> int \<times> int" where
  "type_to_enums ty = (if ty = ''metric'' then (1, 1) else if ty = ''list'' then (2, 0) else if ty = ''reference'' then (3, 0)
     else (0, gm_getd 0 [(''string'', 0), (''number'', 1), (''boolean'', 2), (''datetime'', 3), (''date'', 4), (''file'', 5), (''image'', 6), (''markdown'', 7)] ty))"

text \<open>An unknown data type is an index out of range there; no client sends one.\<close>

definition enums_to_type :: "int \<Rightarrow> int \<Rightarrow> string" where
  "enums_to_type ty data = (if ty = 1 then ''metric'' else if ty = 2 then ''list'' else if ty = 3 then ''reference''
     else if data = 0 then ''string'' else if data = 1 then ''number'' else if data = 2 then ''boolean'' else if data = 3 then ''datetime''
     else if data = 4 then ''date'' else if data = 5 then ''file'' else if data = 6 then ''image'' else ''markdown'')"

definition slug_rune :: "nat \<Rightarrow> char" where
  "slug_rune r = (if 97 \<le> r \<and> r \<le> 122 \<or> 48 \<le> r \<and> r \<le> 57 then char_of r else CHR ''_'')"

definition slugify :: "string \<Rightarrow> string" where
  "slugify name = (let t = map slug_rune (runes (to_lower name)); u = dropWhile (\<lambda>c. c = CHR ''_'') t
     in rev (dropWhile (\<lambda>c. c = CHR ''_'') (rev u)))"

section \<open>The schema\<close>

definition doc_template :: "server \<Rightarrow> fk_template \<Rightarrow> sdk_template" where
  "doc_template s t = \<lparr>tp_id = ft_id t, tp_slug = ft_slug t, tp_name = ft_name t, tp_attributes = filter (\<lambda>aid. attr_by_id s aid \<noteq> None) (ft_attrs t)\<rparr>"

definition doc_attribute :: "fk_attribute \<Rightarrow> sdk_attribute" where
  "doc_attribute a = \<lparr>xa_id = fa_id a, xa_slug = fa_slug a, xa_name = fa_name a, xa_type = enums_to_type (fa_type a) (fa_data a),
     xa_reference = (if fa_type a = 3 then Some (fa_ref_template a) else None), xa_options = (if fa_type a = 2 then fa_options a else [])\<rparr>"

definition schema_doc :: "server \<Rightarrow> project_schema" where
  "schema_doc s = \<lparr>sc_templates = map (doc_template s) (sv_templates s), sc_attributes = map doc_attribute (sv_attributes s)\<rparr>"

definition note_schema_write :: "server \<Rightarrow> server" where
  "note_schema_write s = (if 0 < sv_schema_lag s then s\<lparr>sv_pending := sv_pending s @ [(sv_reads s + sv_schema_lag s, schema_doc s)]\<rparr> else s)"

definition problem_body :: "int \<Rightarrow> string \<Rightarrow> string \<Rightarrow> string \<Rightarrow> error_body" where
  "problem_body status title detail code = \<lparr>eb_title = title, eb_status = status, eb_detail = detail, eb_code = code, eb_errors = []\<rparr>"

definition validation_body :: "(string, string list) gomap \<Rightarrow> error_body" where
  "validation_body errs = \<lparr>eb_title = ''Validation Failed'', eb_status = 422, eb_detail = ''The given data was invalid.'', eb_code = [], eb_errors = errs\<rparr>"

type_synonym 'a handler = "server \<Rightarrow> (error_body + 'a) \<times> server"

definition bad_request :: "string \<Rightarrow> 'a handler" where
  "bad_request detail s = (Inl (problem_body 400 ''Bad Request'' detail []), s)"

definition not_found :: "string \<Rightarrow> 'a handler" where
  "not_found detail s = (Inl (problem_body 404 ''Not Found'' detail []), s)"

definition conflict_answer :: "string \<Rightarrow> 'a handler" where
  "conflict_answer detail s = (Inl (problem_body 409 ''Conflict'' detail []), s)"

definition invalid :: "string \<Rightarrow> string \<Rightarrow> 'a handler" where
  "invalid field message s = (Inl (validation_body [(field, [message])]), s)"

definition discovery :: "project_schema handler" where
  "discovery s = (let n = Suc (sv_reads s); left = dropWhile (\<lambda>p. fst p < n) (sv_pending s); s1 = s\<lparr>sv_reads := n, sv_pending := left\<rparr>
     in (Inr (case left of p # _ \<Rightarrow> snd p | [] \<Rightarrow> schema_doc s1), s1))"

definition slug_or :: "string option \<Rightarrow> string \<Rightarrow> string" where
  "slug_or slug name = (case slug of Some x \<Rightarrow> x | None \<Rightarrow> slugify name)"

definition text_or_empty :: "string option \<Rightarrow> string" where
  "text_or_empty x = (case x of Some t \<Rightarrow> t | None \<Rightarrow> [])"

definition create_template_at :: "template_request \<Rightarrow> string handler" where
  "create_template_at rq s = (
     if tq_name rq = [] then bad_request ''invalid payload'' s
     else if tpl_by_slug s (slug_or (tq_slug rq) (tq_name rq)) \<noteq> None then invalid ''slug'' ''The slug has already been taken.'' s
     else (case take_id s of (tid, s1) \<Rightarrow>
       (Inr tid, s1\<lparr>sv_templates := sv_templates s1 @ [\<lparr>ft_id = tid, ft_slug = slug_or (tq_slug rq) (tq_name rq), ft_name = tq_name rq,
          ft_desc = text_or_empty (tq_desc rq),
          ft_attrs = foldl append_unique (tq_attr_ids rq) (concat (map (\<lambda>x. case attr_by_slug s x of Some a \<Rightarrow> [fa_id a] | None \<Rightarrow> []) (tq_attr_slugs rq)))\<rparr>]\<rparr>)))"

definition reference_known :: "server \<Rightarrow> (string \<times> string) option \<Rightarrow> bool" where
  "reference_known s ref = (case ref of None \<Rightarrow> False | Some (t, a) \<Rightarrow> tpl_by_id s t \<noteq> None \<and> attr_by_id s a \<noteq> None)"

definition create_attribute_at :: "attribute_request \<Rightarrow> string handler" where
  "create_attribute_at rq s = (let slug = slug_or (aq_slug rq) (aq_name rq); tids = (case aq_templates rq of Some ts \<Rightarrow> ts | None \<Rightarrow> []) in
     if aq_name rq = [] then bad_request ''invalid payload'' s
     else if attr_by_slug s slug \<noteq> None then invalid ''slug'' ''The slug has already been taken.'' s
     else (case find (\<lambda>tid. tpl_by_id s tid = None) tids of
       Some tid \<Rightarrow> invalid ''template_ids'' (''Unknown template '' @ tid) s
     | None \<Rightarrow>
         if aq_type rq = 3 \<and> \<not> reference_known s (aq_ref rq)
         then invalid ''reference_config'' ''A reference needs an existing target template and display attribute.'' s
         else (case take_id s of (aid, s1) \<Rightarrow>
           (Inr aid, s1\<lparr>sv_attributes := sv_attributes s1 @ [\<lparr>fa_id = aid, fa_slug = slug, fa_name = aq_name rq, fa_desc = text_or_empty (aq_desc rq),
                fa_type = aq_type rq, fa_data = aq_data rq, fa_options = [],
                fa_ref_template = (case aq_ref rq of Some (t, a) \<Rightarrow> t | None \<Rightarrow> []), fa_ref_display = (case aq_ref rq of Some (t, a) \<Rightarrow> a | None \<Rightarrow> [])\<rparr>],
              sv_templates := bind_all tids aid (sv_templates s1)\<rparr>))))"

definition create_item_at :: "string \<Rightarrow> string \<Rightarrow> string handler" where
  "create_item_at aid value s = (case attr_by_id s aid of
       None \<Rightarrow> not_found ''attribute not found'' s
     | Some a \<Rightarrow>
         if fa_type a \<noteq> 2 then invalid ''attribute'' ''Not a list attribute.'' s
         else if value = [] then bad_request ''invalid payload'' s
         else if value \<in> snd ` set (fa_options a) then invalid ''value'' ''The value has already been taken.'' s
         else (case take_id s of (item, s1) \<Rightarrow>
           (Inr item, s1\<lparr>sv_attributes := map (\<lambda>b. if fa_id b = aid then b\<lparr>fa_options := fa_options b @ [(item, value)]\<rparr> else b) (sv_attributes s1)\<rparr>)))"

definition patch_attribute_at :: "string \<Rightarrow> string list \<Rightarrow> unit handler" where
  "patch_attribute_at aid tids s = (case attr_by_id s aid of
       None \<Rightarrow> not_found ''attribute not found'' s
     | Some a \<Rightarrow> (case find (\<lambda>tid. tpl_by_id s tid = None) tids of
           Some tid \<Rightarrow> invalid ''template_ids'' (''Unknown template '' @ tid) s
         | None \<Rightarrow> (Inr (), s\<lparr>sv_templates := bind_all tids aid (map (\<lambda>t. t\<lparr>ft_attrs := filter (\<lambda>x. x \<noteq> aid) (ft_attrs t)\<rparr>) (sv_templates s))\<rparr>)))"

section \<open>Entities\<close>

text \<open>\<open>fmt.Sprint\<close> of a value, and of a missing one.\<close>

definition sprint :: "fake_env \<Rightarrow> plain_scalar option \<Rightarrow> string" where
  "sprint fv v = (case v of None \<Rightarrow> ''<nil>'' | Some (PlString x) \<Rightarrow> x | Some (PlBool b) \<Rightarrow> (if b then ''true'' else ''false'') | Some (PlFloat x) \<Rightarrow> fv_float fv x)"

definition add_entity :: "fake_env \<Rightarrow> string \<Rightarrow> (string, plain_scalar) gomap \<Rightarrow> string \<Rightarrow> server \<Rightarrow> string \<times> server" where
  "add_entity fv tid values created s = (
     let stamped = (if created = [] then fv_layout fv (sv_clock s + int (length (sv_entities s)) * 1000000) else created)
     in case take_id s of (eid, s1) \<Rightarrow>
       (eid, s1\<lparr>sv_entities := sv_entities s1 @ [\<lparr>fe_id = eid, fe_template = tid, fe_values = values, fe_created = stamped, fe_history = [],
          fe_metrics = [], fe_hidden = 0, fe_key = []\<rparr>]\<rparr>))"

definition passes :: "fake_env \<Rightarrow> fk_entity \<Rightarrow> string \<times> string \<times> string \<Rightarrow> bool" where
  "passes fv e f = (case f of (field, op, value) \<Rightarrow> op = ''eq'' \<and> sprint fv (gm_get (fe_values e) field) = value)"

definition matched :: "fake_env \<Rightarrow> (string \<times> string \<times> string) list list \<Rightarrow> fk_entity \<Rightarrow> bool" where
  "matched fv groups e \<longleftrightarrow> groups = [] \<or> list_ex (list_all (passes fv e)) groups"

definition search_at :: "fake_env \<Rightarrow> string \<Rightarrow> search_request \<Rightarrow> entity_summary list handler" where
  "search_at fv tid rq s = (case (case tpl_by_id s tid of Some t \<Rightarrow> Some t | None \<Rightarrow> tpl_by_slug s tid) of
       None \<Rightarrow> not_found ''template not found'' s
     | Some t \<Rightarrow> (let n = Suc (sv_searches s);
           es = filter (\<lambda>e. fe_template e = ft_id t \<and> fe_hidden e < n \<and> matched fv (sq_filters rq) e) (sv_entities s)
         in (Inr (map (\<lambda>e. \<lparr>es_id = fe_id e, es_created = fv_time fv (fe_created e), es_key = fe_key e\<rparr>) (sort_key fe_created es)),
             s\<lparr>sv_searches := n\<rparr>)))"

fun attributes_on_template :: "server \<Rightarrow> fk_template \<Rightarrow> string list \<Rightarrow> error_body option" where
  "attributes_on_template s t [] = None"
| "attributes_on_template s t (slug # slugs) = (case attr_by_slug s slug of
       None \<Rightarrow> Some (validation_body [(''attributes.'' @ slug, [''Unknown attribute.''])])
     | Some a \<Rightarrow> if fa_id a \<notin> set (ft_attrs t) then Some (validation_body [(''attributes.'' @ slug, [''Attribute does not belong to the template.''])])
         else attributes_on_template s t slugs)"

text \<open>A new entity goes to the template its slug finds.\<close>

definition home_of :: "server \<Rightarrow> fk_template \<Rightarrow> string" where
  "home_of s t = (case tpl_by_slug s (ft_slug t) of Some u \<Rightarrow> ft_id u | None \<Rightarrow> ft_id t)"

definition create_entity_at :: "fake_env \<Rightarrow> string \<Rightarrow> (string, plain_scalar) gomap \<Rightarrow> string option \<Rightarrow> string handler" where
  "create_entity_at fv ref attrs key s = (case tpl_by_ref s ref of
       None \<Rightarrow> not_found ''template not found'' s
     | Some t \<Rightarrow> (case attributes_on_template s t (map fst attrs) of
           Some e \<Rightarrow> (Inl e, s)
         | None \<Rightarrow>
             if (case key of Some k \<Rightarrow> live_by_key s (ft_id t) k \<noteq> None | None \<Rightarrow> False)
             then conflict_answer ''external_key is held by another live record'' s
             else (case add_entity fv (home_of s t) attrs [] s of (eid, s1) \<Rightarrow>
               (Inr eid, on_entity eid (\<lambda>e. e\<lparr>fe_hidden := sv_searches s + sv_search_lag s, fe_key := text_or_empty key\<rparr>) s1))))"

definition values_at :: "fake_env \<Rightarrow> string \<Rightarrow> string list \<Rightarrow> entity_values handler" where
  "values_at fv eid wanted s = (case entity_by_id s eid of
       None \<Rightarrow> not_found (''no entity '' @ eid) s
     | Some e \<Rightarrow> (let vs = map (\<lambda>slug. (slug, sprint fv (gm_get (fe_values e) slug))) (filter (\<lambda>slug. wanted = [] \<or> slug \<in> set wanted) (gm_keys (fe_values e)))
         in (Inr (if sv_verbose s then \<lparr>ev_map = None, ev_array = Some vs\<rparr> else \<lparr>ev_map = Some vs, ev_array = None\<rparr>), s)))"

definition by_key_at :: "string \<Rightarrow> string \<Rightarrow> string handler" where
  "by_key_at ref key s = (case tpl_by_ref s ref of
       None \<Rightarrow> not_found ''template not found'' s
     | Some t \<Rightarrow> (case live_by_key s (ft_id t) key of
           None \<Rightarrow> not_found ''no live record holds this key'' s
         | Some e \<Rightarrow> (Inr (fe_id e), s)))"

definition write_plain :: "(string, plain_scalar) gomap \<Rightarrow> fk_entity \<Rightarrow> fk_entity" where
  "write_plain attrs e = e\<lparr>fe_values := foldl (\<lambda>m p. gm_put (fst p) (snd p) m) (fe_values e) attrs,
     fe_history := fe_history e @ map (\<lambda>p. \<lparr>dw_slug = fst p, dw_value = snd p, dw_at = None\<rparr>) attrs\<rparr>"

definition max_fake_key :: nat where "max_fake_key = 255"

definition upsert_at :: "fake_env \<Rightarrow> string \<Rightarrow> string \<Rightarrow> (string, plain_scalar) gomap \<Rightarrow> (string \<times> bool) handler" where
  "upsert_at fv ref raw attrs s = (case tpl_by_ref s ref of
       None \<Rightarrow> not_found ''template not found'' s
     | Some t \<Rightarrow> (let key = trim_space raw in
         if key = [] \<or> max_fake_key < length key then invalid ''external_key'' ''1-255 characters after trimming.'' s
         else if 0 < sv_race s
         then conflict_answer ''the key was taken by a concurrent write; send the request again'' (s\<lparr>sv_race := sv_race s - 1\<rparr>)
         else (case attributes_on_template s t (map fst attrs) of
             Some e \<Rightarrow> (Inl e, s)
           | None \<Rightarrow> (case live_by_key s (ft_id t) key of
                 Some e \<Rightarrow> (Inr (fe_id e, False), on_entity (fe_id e) (write_plain attrs) s)
               | None \<Rightarrow> (case add_entity fv (home_of s t) attrs [] s of (eid, s1) \<Rightarrow>
                     (Inr (eid, True), on_entity eid (\<lambda>e. e\<lparr>fe_key := key, fe_hidden := sv_searches s + sv_search_lag s\<rparr>) s1))))))"

definition scalar_of :: "rvalue \<Rightarrow> plain_scalar" where
  "scalar_of v = (case v of RString x \<Rightarrow> PlString x | RBool b \<Rightarrow> PlBool b)"

definition write_backfills :: "(string, backfill) gomap \<Rightarrow> fk_entity \<Rightarrow> fk_entity" where
  "write_backfills attrs e = e\<lparr>fe_values := foldl (\<lambda>m p. gm_put (fst p) (scalar_of (bk_value (snd p))) m) (fe_values e) attrs,
     fe_history := fe_history e @ map (\<lambda>p. \<lparr>dw_slug = fst p, dw_value = scalar_of (bk_value (snd p)), dw_at = Some (bk_at (snd p))\<rparr>) attrs\<rparr>"

text \<open>The key is set before the attributes are looked at.\<close>

definition update_attributes :: "string \<Rightarrow> (string, backfill) gomap \<Rightarrow> unit handler" where
  "update_attributes eid attrs s = (let bad = filter (\<lambda>p. attr_by_slug s (fst p) = None) attrs in
     if bad \<noteq> [] then (Inl (validation_body (map (\<lambda>p. (''attributes.'' @ fst p, [''Unknown attribute.''])) bad)), s)
     else (Inr (), on_entity eid (write_backfills attrs) s))"

definition update_entity_at :: "string \<Rightarrow> entity_update \<Rightarrow> unit handler" where
  "update_entity_at eid eu s = (case entity_by_id s eid of
       None \<Rightarrow> not_found ''entity not found'' s
     | Some e \<Rightarrow> (let attrs = (case eu_attributes eu of Some m \<Rightarrow> m | None \<Rightarrow> []) in
         (case eu_key eu of
             None \<Rightarrow> if attrs = [] then bad_request ''send attributes, external_key, or both'' s else update_attributes eid attrs s
           | Some key \<Rightarrow> (
               if (case live_by_key s (fe_template e) key of Some x \<Rightarrow> fe_id x \<noteq> fe_id e | None \<Rightarrow> False)
               then conflict_answer ''external_key is held by another live record'' s
               else update_attributes eid attrs (on_entity eid (\<lambda>x. x\<lparr>fe_key := key\<rparr>) s)))))"

definition metric_problem :: "server \<Rightarrow> nat \<Rightarrow> metric_obs \<Rightarrow> (string, string list) gomap" where
  "metric_problem s i x = (case attr_by_slug s (mo_slug x) of
       None \<Rightarrow> [(''metric_values.'' @ itoa (int i), [''Unknown attribute.''])]
     | Some a \<Rightarrow> if fa_type a \<noteq> 1 then [(''metric_values.'' @ itoa (int i), [''Not a metric attribute.''])] else [])"

definition record_metrics :: "metric_obs list \<Rightarrow> fk_entity \<Rightarrow> fk_entity" where
  "record_metrics obs e = e\<lparr>fe_metrics := foldl (\<lambda>m x. gm_put (mo_slug x) (gm_getd [] m (mo_slug x) @ [(mo_value x, mo_at x)]) m) (fe_metrics e) obs\<rparr>"

definition ingest_at :: "string \<Rightarrow> metric_obs list \<Rightarrow> unit handler" where
  "ingest_at eid obs s = (case entity_by_id s eid of
       None \<Rightarrow> not_found ''entity not found'' s
     | Some e \<Rightarrow> (let errs = concat (map (\<lambda>(i, x). metric_problem s i x) (enumerate 0 obs)) in
         if errs \<noteq> [] then (Inl (validation_body errs), s) else (Inr (), on_entity eid (record_metrics obs) s)))"

section \<open>Requests\<close>

record auth_headers =
  ah_authorization :: string
  ah_project :: string

fun take_fault :: "string \<Rightarrow> string \<Rightarrow> fault list \<Rightarrow> (fault \<times> fault list) option" where
  "take_fault method path [] = None"
| "take_fault method path (f # fs) = (
     if (fl_method f = [] \<or> fl_method f = method) \<and> take (length (fl_prefix f)) path = fl_prefix f
     then Some (f, if fl_times f = 1 then fs else f\<lparr>fl_times := fl_times f - 1\<rparr> # fs)
     else (case take_fault method path fs of None \<Rightarrow> None | Some (g, gs) \<Rightarrow> Some (g, f # gs)))"

definition refused_with :: "fake_env \<Rightarrow> error_body \<Rightarrow> 'a sdk_reply" where
  "refused_with fv b = Inl (Some (eb_status b), Generic (fv_status fv (eb_status b)) (fv_body fv b))"

definition fault_reply :: "fake_env \<Rightarrow> fault \<Rightarrow> 'a sdk_reply" where
  "fault_reply fv f = Inl (Some (fl_status f), Generic (fv_status fv (fl_status f))
     (if fl_body f \<noteq> [] then fl_body f else fv_body fv (problem_body (fl_status f) ''Injected'' ''injected fault'' [])))"

definition permissions_path :: string where "permissions_path = ''/auth/me/permissions''"

definition refusal_of :: "auth_headers \<Rightarrow> string \<Rightarrow> server \<Rightarrow> error_body option" where
  "refusal_of ah path s = (
     if ah_authorization ah \<noteq> ''Bearer '' @ sv_token s then Some (problem_body 401 ''Unauthorized'' ''invalid or missing token'' [])
     else if path = permissions_path then None
     else if ah_project ah = [] then Some (problem_body 409 ''No project selected'' ''select a project'' ''no_project_selected'')
     else if ah_project ah \<noteq> sv_project s then Some (problem_body 403 ''Forbidden'' ''not a member of this project'' [])
     else None)"

definition handled :: "fake_env \<Rightarrow> (server \<Rightarrow> server) \<Rightarrow> auth_headers \<Rightarrow> string \<Rightarrow> string \<Rightarrow> 'a handler \<Rightarrow> server \<Rightarrow> 'a sdk_reply \<times> server" where
  "handled fv before ah method path h s = (let s1 = s\<lparr>sv_requests := sv_requests s @ [(method, path)]\<rparr> in
     case refusal_of ah path s1 of
       Some b \<Rightarrow> (refused_with fv b, s1)
     | None \<Rightarrow> (let s2 = before s1 in
         case take_fault method path (sv_faults s2) of
           Some (f, fs) \<Rightarrow> (fault_reply fv f, s2\<lparr>sv_faults := fs\<rparr>)
         | None \<Rightarrow>
             if sv_deny s2 \<and> method \<noteq> ''GET'' then (refused_with fv (problem_body 403 ''Forbidden'' ''missing permission'' []), s2)
             else (case h s2 of (Inl b, s3) \<Rightarrow> (refused_with fv b, s3) | (Inr x, s3) \<Rightarrow> (Inr x, s3))))"

text \<open>The routes of \<open>handle\<close>, as the SDK's requests reach them; it has no route for a chart.\<close>

definition fake_sdk :: "fake_env \<Rightarrow> (server \<Rightarrow> server) \<Rightarrow> auth_headers \<Rightarrow> server sdk" where
  "fake_sdk fv before ah = \<lparr>
     sdk_schema = handled fv before ah ''GET'' ''/discovery/project-schema'' discovery,
     sdk_permissions = handled fv before ah ''GET'' permissions_path (\<lambda>s. (Inr (sv_permissions s), s)),
     sdk_create_template = (\<lambda>rq. handled fv before ah ''POST'' ''/templates'' (\<lambda>s. create_template_at rq (note_schema_write s))),
     sdk_create_attribute = (\<lambda>rq. handled fv before ah ''POST'' ''/attributes'' (\<lambda>s. create_attribute_at rq (note_schema_write s))),
     sdk_create_item = (\<lambda>aid v. handled fv before ah ''POST'' (''/attributes/'' @ aid @ ''/items'') (\<lambda>s. create_item_at aid v (note_schema_write s))),
     sdk_patch_attribute = (\<lambda>aid tids. handled fv before ah ''PATCH'' (''/attributes/'' @ aid) (\<lambda>s. patch_attribute_at aid tids (note_schema_write s))),
     sdk_search = (\<lambda>tid rq. handled fv before ah ''POST'' (''/entities/search/'' @ tid) (search_at fv tid rq)),
     sdk_by_key = (\<lambda>ref key. handled fv before ah ''GET'' (''/entities/template/'' @ ref @ ''/by-key'') (by_key_at ref key)),
     sdk_upsert = (\<lambda>ref key vs. handled fv before ah ''PUT'' (''/entities/template/'' @ ref @ ''/by-key'') (upsert_at fv ref key vs)),
     sdk_update_entity = (\<lambda>eid eu. handled fv before ah ''PATCH'' (''/entities/'' @ eid) (update_entity_at eid eu)),
     sdk_create_entity = (\<lambda>ref vs. handled fv before ah ''POST'' (''/entities/template/'' @ ref) (create_entity_at fv ref vs None)),
     sdk_ingest = (\<lambda>eid obs. handled fv before ah ''POST'' (''/entities/'' @ eid @ ''/metrics'') (ingest_at eid obs)),
     sdk_chart = (\<lambda>eid rq. handled fv before ah ''GET'' (''/entities/'' @ eid @ ''/chart'') (not_found ''no such route in omnitest'')),
     sdk_entity = (\<lambda>eid slugs. handled fv before ah ''GET'' (''/entities/'' @ eid) (values_at fv eid (case slugs of Some xs \<Rightarrow> xs | None \<Rightarrow> [])))\<rparr>"

section \<open>What the tests prepare\<close>

definition seed_template :: "string \<Rightarrow> string \<Rightarrow> string list \<Rightarrow> server \<Rightarrow> string \<times> server" where
  "seed_template slug name attr_slugs s = (case take_id s of (tid, s1) \<Rightarrow>
     (tid, s1\<lparr>sv_templates := sv_templates s1 @ [\<lparr>ft_id = tid, ft_slug = slug, ft_name = name, ft_desc = [],
        ft_attrs = concat (map (\<lambda>x. case attr_by_slug s x of Some a \<Rightarrow> [fa_id a] | None \<Rightarrow> []) attr_slugs)\<rparr>]\<rparr>))"

fun seed_options :: "string list \<Rightarrow> server \<Rightarrow> (string \<times> string) list \<times> server" where
  "seed_options [] s = ([], s)"
| "seed_options (v # vs) s = (case take_id s of (item, s1) \<Rightarrow> (case seed_options vs s1 of (os, s2) \<Rightarrow> ((item, v) # os, s2)))"

definition seed_attribute :: "string \<Rightarrow> string \<Rightarrow> string list \<Rightarrow> server \<Rightarrow> string \<times> server" where
  "seed_attribute slug ty options s = (case take_id s of (aid, s1) \<Rightarrow> (case seed_options options s1 of (os, s2) \<Rightarrow>
     (aid, s2\<lparr>sv_attributes := sv_attributes s2 @ [\<lparr>fa_id = aid, fa_slug = slug, fa_name = upper_first slug, fa_desc = [],
        fa_type = fst (type_to_enums ty), fa_data = snd (type_to_enums ty), fa_options = os, fa_ref_template = [], fa_ref_display = []\<rparr>]\<rparr>)))"

definition seed_reference :: "string \<Rightarrow> string \<Rightarrow> string \<Rightarrow> server \<Rightarrow> string \<times> server" where
  "seed_reference slug target display s = (case seed_attribute slug ''reference'' [] s of (aid, s1) \<Rightarrow>
     (aid, s1\<lparr>sv_attributes := map (\<lambda>a. if fa_id a = aid then a\<lparr>
        fa_ref_template := (case tpl_by_slug s1 target of Some t \<Rightarrow> ft_id t | None \<Rightarrow> fa_ref_template a),
        fa_ref_display := (case attr_by_slug s1 display of Some d \<Rightarrow> fa_id d | None \<Rightarrow> fa_ref_display a)\<rparr> else a) (sv_attributes s1)\<rparr>))"

text \<open>\<open>Bind\<close> and \<open>AddOptionLocked\<close> panic on unknown slugs.\<close>

definition seed_binding :: "string \<Rightarrow> string \<Rightarrow> server \<Rightarrow> server option" where
  "seed_binding tpl slug s = (case (tpl_by_slug s tpl, attr_by_slug s slug) of
       (Some t, Some a) \<Rightarrow> Some (s\<lparr>sv_templates := on_template (ft_id t) (bind_to (fa_id a)) (sv_templates s)\<rparr>)
     | _ \<Rightarrow> None)"

definition seed_option :: "string \<Rightarrow> string \<Rightarrow> server \<Rightarrow> server option" where
  "seed_option slug value s = (case attr_by_slug s slug of
       None \<Rightarrow> None
     | Some a \<Rightarrow> (case take_id s of (item, s1) \<Rightarrow>
         Some (s1\<lparr>sv_attributes := map (\<lambda>b. if fa_id b = fa_id a then b\<lparr>fa_options := fa_options b @ [(item, value)]\<rparr> else b) (sv_attributes s1)\<rparr>)))"

definition seed_fault :: "fault \<Rightarrow> server \<Rightarrow> server" where
  "seed_fault f s = s\<lparr>sv_faults := sv_faults s @ [if fl_times f = 0 then f\<lparr>fl_times := 1\<rparr> else f]\<rparr>"

definition seed_entity :: "fake_env \<Rightarrow> string \<Rightarrow> (string, plain_scalar) gomap \<Rightarrow> string \<Rightarrow> server \<Rightarrow> (string \<times> server) option" where
  "seed_entity fv tpl values created s = map_option (\<lambda>t. add_entity fv (ft_id t) values created s) (tpl_by_slug s tpl)"

definition set_permissions :: "string list \<Rightarrow> server \<Rightarrow> server" where
  "set_permissions ps s = s\<lparr>sv_permissions := ps\<rparr>"

definition delete_entity :: "string \<Rightarrow> server \<Rightarrow> server" where
  "delete_entity eid s = s\<lparr>sv_entities := filter (\<lambda>e. fe_id e \<noteq> eid) (sv_entities s)\<rparr>"

definition seed_key :: "string \<Rightarrow> string \<Rightarrow> server \<Rightarrow> server" where
  "seed_key eid key s = on_entity eid (\<lambda>e. e\<lparr>fe_key := key\<rparr>) s"

section \<open>What the tests look at\<close>

definition template_id_of :: "server \<Rightarrow> string \<Rightarrow> string" where
  "template_id_of s slug = (case tpl_by_slug s slug of Some t \<Rightarrow> ft_id t | None \<Rightarrow> [])"

definition attribute_reference :: "server \<Rightarrow> string \<Rightarrow> string \<times> string" where
  "attribute_reference s slug = (case attr_by_slug s slug of None \<Rightarrow> ([], [])
     | Some a \<Rightarrow> (case tpl_by_id s (fa_ref_template a) of Some t \<Rightarrow> ft_slug t | None \<Rightarrow> [],
         case attr_by_id s (fa_ref_display a) of Some d \<Rightarrow> fa_slug d | None \<Rightarrow> []))"

text \<open>Id, slug and name of a template with the slugs bound to it; of an attribute with its type, options and their ids.\<close>

definition template_rows :: "server \<Rightarrow> (string \<times> string \<times> string \<times> string list) list" where
  "template_rows s = map (\<lambda>t. (ft_id t, ft_slug t, ft_name t,
     concat (map (\<lambda>aid. case attr_by_id s aid of Some a \<Rightarrow> [fa_slug a] | None \<Rightarrow> []) (ft_attrs t)))) (sv_templates s)"

definition attribute_rows :: "server \<Rightarrow> (string \<times> string \<times> string \<times> string \<times> string list \<times> (string, string) gomap) list" where
  "attribute_rows s = map (\<lambda>a. (fa_id a, fa_slug a, fa_name a, enums_to_type (fa_type a) (fa_data a), map snd (fa_options a),
     foldl (\<lambda>m p. gm_put (snd p) (fst p) m) [] (fa_options a))) (sv_attributes s)"

definition entity_rows :: "server \<Rightarrow> (string \<times> string \<times> (string, plain_scalar) gomap \<times> string \<times> string) list" where
  "entity_rows s = map (\<lambda>e. (fe_id e, case tpl_by_id s (fe_template e) of Some t \<Rightarrow> ft_slug t | None \<Rightarrow> [], fe_values e, fe_created e, fe_key e)) (sv_entities s)"

definition values_held :: "server \<Rightarrow> string \<Rightarrow> (string, plain_scalar) gomap option" where
  "values_held s eid = map_option fe_values (entity_by_id s eid)"

definition history_held :: "server \<Rightarrow> string \<Rightarrow> dim_write list" where
  "history_held s eid = (case entity_by_id s eid of Some e \<Rightarrow> fe_history e | None \<Rightarrow> [])"

definition metrics_held :: "server \<Rightarrow> string \<Rightarrow> (string, (string \<times> gtime) list) gomap option" where
  "metrics_held s eid = map_option fe_metrics (entity_by_id s eid)"

end
