(* ===== verification/Platform.thy ===== *)
theory Platform
  imports Omnitest Planned
begin

text \<open>
  The client over the fake platform keeps the contract of \<open>Converge\<close>: with no fault, no lag and valid headers, each
  call of \<open>schema_client\<close> has the effect on \<open>schema_doc\<close> that the contract names. So applying a plan through the real
  client brings the fake platform's project to the desired schema.
\<close>

section \<open>Lists\<close>

lemma find_append: "find P (xs @ ys) = (case find P xs of None \<Rightarrow> find P ys | Some x \<Rightarrow> Some x)"
  by (induction xs) auto

lemma find_map: "find P (map f xs) = map_option f (find (\<lambda>x. P (f x)) xs)"
  by (induction xs) auto

lemma find_distinct: "distinct (map k xs) \<Longrightarrow> find (\<lambda>x. k x = s) xs = Some x \<longleftrightarrow> x \<in> set xs \<and> k x = s"
  by (induction xs) auto

lemma find_None_key: "find (\<lambda>x. k x = s) xs = None \<longleftrightarrow> s \<notin> k ` set xs"
  by (auto simp: find_None_iff)

text \<open>A map filled from a list of distinct keys is a search through the list.\<close>

lemma get_filled:
  assumes "distinct (map k xs)" "[] \<notin> k ` set xs"
  shows "gm_get (foldl (\<lambda>m x. if k x = [] then m else gm_put (k x) (v x) m) m xs) s
    = (case find (\<lambda>x. k x = s) xs of None \<Rightarrow> gm_get m s | Some x \<Rightarrow> Some (v x))"
  using assms
proof (induction xs arbitrary: m)
  case (Cons x xs)
  have "find (\<lambda>y. k y = k x) xs = None" using Cons.prems(1) by (simp add: find_None_key)
  with Cons.IH [of "gm_put (k x) (v x) m"] Cons.prems show ?case by (auto split: option.splits)
qed simp

lemma ok_filled: "gm_ok m \<Longrightarrow> gm_ok (foldl (\<lambda>m x. if k x = [] then m else gm_put (k x) (v x) m) m xs)"
  by (induction xs arbitrary: m) auto

section \<open>Ids\<close>

lemma pad_inj: "pad w (int m) = pad w (int n) \<Longrightarrow> m = n"
proof -
  have "digits_value (pad w (int i)) = i" for i
  proof -
    have "i < 10 ^ max w (width i)" using width_enough [of i] power_increasing [of "width i" "max w (width i)" "10 :: nat"] by linarith
    then show ?thesis by (simp add: pad_def Let_def nat_digits_value)
  qed
  then show "pad w (int m) = pad w (int n) \<Longrightarrow> m = n" by metis
qed

lemma id_inj [simp]: "id_of_number m = id_of_number n \<longleftrightarrow> m = n"
  using pad_inj by (auto simp: id_of_number_def)

lemma id_nonempty [simp]: "id_of_number n \<noteq> []"
  by (simp add: id_of_number_def)

definition taken :: "server \<Rightarrow> string set" where
  "taken s = id_of_number ` {1..sv_next s}"

lemma fresh_id [simp]: "id_of_number (Suc (sv_next s)) \<notin> taken s"
  by (auto simp: taken_def)

section \<open>A platform in order\<close>

definition tidy :: "server \<Rightarrow> bool" where
  "tidy s \<longleftrightarrow> distinct (map ft_slug (sv_templates s)) \<and> distinct (map fa_slug (sv_attributes s))
     \<and> distinct (map ft_id (sv_templates s)) \<and> distinct (map fa_id (sv_attributes s))
     \<and> (\<forall>t \<in> set (sv_templates s). ft_slug t \<noteq> [] \<and> ft_id t \<in> taken s \<and> set (ft_attrs t) \<subseteq> fa_id ` set (sv_attributes s))
     \<and> (\<forall>a \<in> set (sv_attributes s). fa_slug a \<noteq> [] \<and> fa_id a \<in> taken s)"

text \<open>No fault waits, nothing is denied, and a read shows every write.\<close>

definition calm :: "server \<Rightarrow> bool" where
  "calm s \<longleftrightarrow> sv_faults s = [] \<and> \<not> sv_deny s \<and> sv_schema_lag s = 0 \<and> sv_pending s = []"

definition admits :: "server \<Rightarrow> auth_headers \<Rightarrow> bool" where
  "admits s ah \<longleftrightarrow> ah_authorization ah = ''Bearer '' @ sv_token s \<and> ah_project ah = sv_project s \<and> sv_project s \<noteq> []"

definition orderly :: "auth_headers \<Rightarrow> server \<Rightarrow> bool" where
  "orderly ah s \<longleftrightarrow> tidy s \<and> calm s \<and> admits s ah"

lemma handled_served:
  assumes "admits s ah" "sv_faults s = []" "\<not> sv_deny s"
  shows "handled fv (\<lambda>s. s) ah method path h s = (case h (s\<lparr>sv_requests := sv_requests s @ [(method, path)]\<rparr>) of
    (Inl b, s3) \<Rightarrow> (refused_with fv b, s3) | (Inr x, s3) \<Rightarrow> (Inr x, s3))"
  using assms by (auto simp: handled_def Let_def refusal_of_def admits_def)

lemma handled_orderly:
  assumes "orderly ah s"
  shows "handled fv (\<lambda>s. s) ah method path h s = (case h (s\<lparr>sv_requests := sv_requests s @ [(method, path)]\<rparr>) of
    (Inl b, s3) \<Rightarrow> (refused_with fv b, s3) | (Inr x, s3) \<Rightarrow> (Inr x, s3))"
  by (rule handled_served) (use assms in \<open>simp_all add: orderly_def calm_def\<close>)

lemma orderly_request [simp]: "orderly ah (s\<lparr>sv_requests := r\<rparr>) = orderly ah s"
  by (simp add: orderly_def tidy_def calm_def admits_def taken_def)

section \<open>What a read shows\<close>

definition view_template :: "fk_template \<Rightarrow> cur_template" where
  "view_template t = \<lparr>ct_id = ft_id t, ct_name = ft_name t, ct_attrs = ft_attrs t\<rparr>"

definition view_attribute :: "fk_attribute \<Rightarrow> cur_attribute" where
  "view_attribute a = cur_attribute_of (doc_attribute a)"

definition view_of :: "server \<Rightarrow> contents" where
  "view_of s = (\<lambda>g. map_option view_template (tpl_by_slug s g), \<lambda>g. map_option view_attribute (attr_by_slug s g))"

lemma view_template_simps [simp]: "ct_id (view_template t) = ft_id t" "ct_name (view_template t) = ft_name t" "ct_attrs (view_template t) = ft_attrs t"
  by (simp_all add: view_template_def)

lemma view_attribute_simps [simp]: "ca_id (view_attribute a) = fa_id a" "ca_type (view_attribute a) = enums_to_type (fa_type a) (fa_data a)"
  by (simp_all add: view_attribute_def doc_attribute_def cur_attribute_of_def)

lemma tidy_attrs:
  assumes "tidy s" "t \<in> set (sv_templates s)"
  shows "filter (\<lambda>aid. attr_by_id s aid \<noteq> None) (ft_attrs t) = ft_attrs t"
  using assms by (auto simp: tidy_def attr_by_id_def find_None_key intro!: filter_True)

lemma by_slug_in:
  assumes "tidy s"
  shows "tpl_by_slug s g = Some t \<longleftrightarrow> t \<in> set (sv_templates s) \<and> ft_slug t = g" and "attr_by_slug s g = Some a \<longleftrightarrow> a \<in> set (sv_attributes s) \<and> fa_slug a = g"
    and "tpl_by_id s i = Some t \<longleftrightarrow> t \<in> set (sv_templates s) \<and> ft_id t = i" and "attr_by_id s i = Some a \<longleftrightarrow> a \<in> set (sv_attributes s) \<and> fa_id a = i"
  using assms by (simp_all add: tidy_def tpl_by_slug_def attr_by_slug_def tpl_by_id_def attr_by_id_def find_distinct)

lemma shown_view:
  assumes "tidy s"
  shows "contents_of (current_of (schema_doc s)) = view_of s" and "gm_ok (cu_templates (current_of (schema_doc s)))"
proof -
  note t = tidy_attrs [OF assms]
  let ?ts = "map (doc_template s) (sv_templates s)" and ?as = "map doc_attribute (sv_attributes s)"
  let ?v = "\<lambda>t. \<lparr>ct_id = tp_id t, ct_name = tp_name t, ct_attrs = tp_attributes t\<rparr>"
  have folds: "foldl add_cur_template [] ?ts = foldl (\<lambda>m x. if tp_slug x = [] then m else gm_put (tp_slug x) (?v x) m) [] ?ts"
    "foldl add_cur_attribute [] ?as = foldl (\<lambda>m x. if xa_slug x = [] then m else gm_put (xa_slug x) (cur_attribute_of x) m) [] ?as"
    by (simp_all add: add_cur_template_def [abs_def] add_cur_attribute_def [abs_def])
  have D: "distinct (map tp_slug ?ts)" "[] \<notin> tp_slug ` set ?ts" "distinct (map xa_slug ?as)" "[] \<notin> xa_slug ` set ?as"
    using assms by (auto simp: tidy_def doc_template_def doc_attribute_def comp_def)
  have "gm_get (foldl add_cur_template [] ?ts) g = map_option view_template (tpl_by_slug s g)" for g
  proof (cases "tpl_by_slug s g")
    case None
    then show ?thesis unfolding folds get_filled [OF D(1,2), where v = ?v] find_map by (simp add: tpl_by_slug_def doc_template_def)
  next
    case (Some x)
    then have "x \<in> set (sv_templates s)" using by_slug_in(1) [OF assms] by blast
    with Some t [of x] show ?thesis unfolding folds get_filled [OF D(1,2), where v = ?v] find_map
      by (simp add: tpl_by_slug_def doc_template_def view_template_def)
  qed
  moreover have "gm_get (foldl add_cur_attribute [] ?as) g = map_option view_attribute (attr_by_slug s g)" for g
    unfolding folds get_filled [OF D(3,4), where v = cur_attribute_of] find_map attr_by_slug_def
    by (auto simp: doc_attribute_def view_attribute_def split: option.splits)
  ultimately show "contents_of (current_of (schema_doc s)) = view_of s"
    by (simp add: contents_of_def view_of_def current_of_def schema_doc_def fun_eq_iff)
  show "gm_ok (cu_templates (current_of (schema_doc s)))" by (simp add: current_of_def schema_doc_def folds ok_filled)
qed

lemma schema_doc_request [simp]: "schema_doc (s\<lparr>sv_requests := r, sv_reads := n\<rparr>) = schema_doc s" "schema_doc (s\<lparr>sv_requests := r\<rparr>) = schema_doc s"
  "schema_doc (s\<lparr>sv_requests := r, sv_reads := n, sv_pending := p\<rparr>) = schema_doc s"
  by (simp_all add: schema_doc_def doc_template_def attr_by_id_def)

lemma view_template_in: "tidy s \<Longrightarrow> fst (view_of s) g = Some u \<longleftrightarrow> (\<exists>t \<in> set (sv_templates s). ft_slug t = g \<and> u = view_template t)"
  by (auto simp: view_of_def by_slug_in)

lemma view_attribute_in: "tidy s \<Longrightarrow> snd (view_of s) g = Some x \<longleftrightarrow> (\<exists>a \<in> set (sv_attributes s). fa_slug a = g \<and> x = view_attribute a)"
  by (auto simp: view_of_def by_slug_in)

lemma tidy_ids:
  assumes "tidy s"
  shows "t \<in> set (sv_templates s) \<Longrightarrow> t' \<in> set (sv_templates s) \<Longrightarrow> ft_id t = ft_id t' \<longleftrightarrow> t = t'"
    and "a \<in> set (sv_attributes s) \<Longrightarrow> a' \<in> set (sv_attributes s) \<Longrightarrow> fa_id a = fa_id a' \<longleftrightarrow> a = a'"
    and "t \<in> set (sv_templates s) \<Longrightarrow> ft_id t \<noteq> []" and "a \<in> set (sv_attributes s) \<Longrightarrow> fa_id a \<noteq> []"
  using assms by (auto simp: tidy_def taken_def distinct_map inj_on_def)

lemma view_identified: "tidy s \<Longrightarrow> identified (view_of s)"
  unfolding identified_def by (simp add: view_template_in view_attribute_in) (auto simp: tidy_ids)

lemma view_has_id: "tidy s \<Longrightarrow> has_id (view_of s) i \<longleftrightarrow> tpl_by_id s i \<noteq> None"
  by (simp add: has_id_def view_template_in by_slug_in) (metis view_template_simps(1))

section \<open>The operations\<close>

lemma note_calm [simp]: "calm s \<Longrightarrow> note_schema_write s = s"
  by (simp add: calm_def note_schema_write_def)

lemma taken_next [simp]: "taken (s\<lparr>sv_next := Suc (sv_next s), sv_requests := r, sv_templates := ts, sv_attributes := as\<rparr>)
    = insert (id_of_number (Suc (sv_next s))) (taken s)"
  by (simp add: taken_def atLeastAtMostSuc_conv)

definition changed :: "server \<Rightarrow> nat \<Rightarrow> (string \<times> string) list \<Rightarrow> fk_template list \<Rightarrow> fk_attribute list \<Rightarrow> server" where
  "changed s n r ts as = s\<lparr>sv_next := n, sv_requests := r, sv_templates := ts, sv_attributes := as\<rparr>"

lemma changed_simps [simp]: "sv_templates (changed s n r ts as) = ts" "sv_attributes (changed s n r ts as) = as" "sv_next (changed s n r ts as) = n"
  "calm (changed s n r ts as) = calm s" "admits (changed s n r ts as) ah = admits s ah"
  "taken (changed s (Suc (sv_next s)) r ts as) = insert (id_of_number (Suc (sv_next s))) (taken s)" "taken (changed s (sv_next s) r ts as) = taken s"
  by (simp_all add: changed_def calm_def admits_def taken_def atLeastAtMostSuc_conv)

lemma orderly_changed: "orderly ah s \<Longrightarrow> tidy (changed s n r ts as) \<Longrightarrow> orderly ah (changed s n r ts as)"
  by (simp add: orderly_def)

lemma lookups_request [simp]: "tpl_by_slug (s\<lparr>sv_requests := r\<rparr>) g = tpl_by_slug s g" "tpl_by_id (s\<lparr>sv_requests := r\<rparr>) g = tpl_by_id s g"
  "attr_by_slug (s\<lparr>sv_requests := r\<rparr>) g = attr_by_slug s g" "attr_by_id (s\<lparr>sv_requests := r\<rparr>) g = attr_by_id s g"
  by (simp_all add: tpl_by_slug_def tpl_by_id_def attr_by_slug_def attr_by_id_def)

lemma reference_request [simp]: "reference_known (s\<lparr>sv_requests := r\<rparr>) ref = reference_known s ref"
  by (simp add: reference_known_def split: option.split)

lemma fresh_ids:
  assumes "tidy s"
  shows "id_of_number (Suc (sv_next s)) \<notin> ft_id ` set (sv_templates s)" and "id_of_number (Suc (sv_next s)) \<notin> fa_id ` set (sv_attributes s)"
  using assms fresh_id [of s] unfolding tidy_def by (metis imageE)+

text \<open>Rows changed in place.\<close>

lemma map_in_place: "(\<And>b. h (f b) = h b) \<Longrightarrow> map h (map (\<lambda>b. if P b then f b else b) xs) = map h xs"
  by simp

lemma tidy_in_place:
  assumes "tidy s" "map ft_slug ts = map ft_slug (sv_templates s)" "map ft_id ts = map ft_id (sv_templates s)"
    and "map fa_slug as = map fa_slug (sv_attributes s)" "map fa_id as = map fa_id (sv_attributes s)"
    and "\<forall>t \<in> set ts. set (ft_attrs t) \<subseteq> fa_id ` set (sv_attributes s)" "sv_next s \<le> n"
  shows "tidy (changed s n r ts as)"
proof -
  have eqs: "ft_slug ` set ts = ft_slug ` set (sv_templates s)" "ft_id ` set ts = ft_id ` set (sv_templates s)"
    "fa_slug ` set as = fa_slug ` set (sv_attributes s)" "fa_id ` set as = fa_id ` set (sv_attributes s)"
    using assms(2-5) by (metis set_map)+
  have less: "taken s \<subseteq> taken (changed s n r ts as)" using assms(7) by (auto simp: taken_def)
  have "[] \<notin> ft_slug ` set ts \<and> ft_id ` set ts \<subseteq> taken s \<and> [] \<notin> fa_slug ` set as \<and> fa_id ` set as \<subseteq> taken s"
    unfolding eqs using assms(1) by (auto simp: tidy_def)
  then have "\<forall>t \<in> set ts. ft_slug t \<noteq> [] \<and> ft_id t \<in> taken s" "\<forall>a \<in> set as. fa_slug a \<noteq> [] \<and> fa_id a \<in> taken s"
    by (metis imageI subset_iff)+
  moreover have "distinct (map ft_slug ts) \<and> distinct (map ft_id ts) \<and> distinct (map fa_slug as) \<and> distinct (map fa_id as)"
    using assms(1) unfolding tidy_def assms(2-5) by blast
  ultimately show ?thesis unfolding tidy_def changed_simps eqs using less assms(6) by (intro conjI ballI) blast+
qed

lemma template_added:
  assumes "orderly ah s" "g \<noteq> []" "n \<noteq> []" "fst (view_of s) g = None"
  shows "\<exists>tid s'. sa_create_template (schema_client ce (fake_sdk fv (\<lambda>s. s) ah)) g n d s = (Inr tid, s') \<and> orderly ah s'
    \<and> view_of s' = with_template g n tid (view_of s)"
proof -
  have t: "tidy s" "calm s" using assms(1) by (simp_all add: orderly_def)
  have free: "tpl_by_slug s g = None" using assms(4) by (simp add: view_of_def)
  let ?i = "id_of_number (Suc (sv_next s))"
  let ?t = "\<lparr>ft_id = ?i, ft_slug = g, ft_name = n, ft_desc = text_or_empty (opt_text d), ft_attrs = []\<rparr>"
  let ?s = "changed s (Suc (sv_next s)) (sv_requests s @ [(''POST'', ''/templates'')]) (sv_templates s @ [?t]) (sv_attributes s)"
  have "sa_create_template (schema_client ce (fake_sdk fv (\<lambda>s. s) ah)) g n d s = (Inr ?i, ?s)"
    using t free assms(3) by (simp add: schema_client_def create_template_def fake_sdk_def handled_orderly [OF assms(1)] create_template_at_def slug_or_def
      take_id_def changed_def calm_def note_schema_write_def)
  moreover have "orderly ah ?s"
  proof (rule orderly_changed [OF assms(1)])
    have "g \<notin> ft_slug ` set (sv_templates s)" using free by (simp add: tpl_by_slug_def find_None_key)
    then show "tidy ?s" using t(1) fresh_ids [OF t(1)] assms(2) by (auto simp: tidy_def)
  qed
  moreover have "view_of ?s = with_template g n ?i (view_of s)"
    using free by (auto simp: view_of_def with_template_def fun_eq_iff tpl_by_slug_def attr_by_slug_def find_append view_template_def split: option.splits)
  ultimately show ?thesis by blast
qed

text \<open>Binding is a map over the templates.\<close>

lemma bind_to_simps [simp]: "ft_id (bind_to aid t) = ft_id t" "ft_slug (bind_to aid t) = ft_slug t" "bind_to aid (bind_to aid t) = bind_to aid t"
  by (simp_all add: bind_to_def append_unique_def)

lemma bind_all_map: "bind_all tids aid ts = map (\<lambda>t. if ft_id t \<in> set tids then bind_to aid t else t) ts"
  by (induction tids arbitrary: ts) (auto simp: bind_all_def on_template_def)

lemma view_bound: "view_template (if ft_id t \<in> set tids then bind_to aid t else t) = binds_in tids aid (view_template t)"
  by (simp add: binds_in_def bind_to_def append_unique_def view_template_def)

lemma bind_to_attrs [simp]: "set (ft_attrs (bind_to aid t)) = insert aid (set (ft_attrs t))"
  by (auto simp: bind_to_def append_unique_def)

lemma bind_all_rows: "map ft_slug (bind_all tids aid ts) = map ft_slug ts" "map ft_id (bind_all tids aid ts) = map ft_id ts"
  unfolding bind_all_map by (simp_all add: map_in_place)

lemma bind_all_attrs:
  assumes "\<forall>t \<in> set ts. set (ft_attrs t) \<subseteq> B" "aid \<in> B"
  shows "\<forall>t \<in> set (bind_all tids aid ts). set (ft_attrs t) \<subseteq> B"
  using assms by (fastforce simp: bind_all_map)

lemma tidy_attribute:
  assumes "tidy (changed s n r ts as)" "fa_slug a \<notin> fa_slug ` set as" "fa_id a \<notin> fa_id ` set as" "fa_slug a \<noteq> []" "fa_id a \<in> taken (changed s n r ts as)"
  shows "tidy (changed s n r ts (as @ [a]))"
proof -
  have "taken (changed s n r ts (as @ [a])) = taken (changed s n r ts as)" by (simp add: taken_def)
  with assms show ?thesis by (auto simp: tidy_def)
qed

lemma tidy_bind_all:
  assumes "tidy (changed s n r ts as)" "aid \<in> fa_id ` set as"
  shows "tidy (changed s n r (bind_all tids aid ts) as)"
proof -
  have "changed s n r (bind_all tids aid ts) as = changed (changed s n r ts as) n r (bind_all tids aid ts) as" by (simp add: changed_def)
  moreover have "\<forall>t \<in> set ts. set (ft_attrs t) \<subseteq> fa_id ` set as" using assms(1) by (simp add: tidy_def)
  ultimately show ?thesis using tidy_in_place [OF assms(1), of "bind_all tids aid ts" as n r] bind_all_attrs [OF _ assms(2)]
    by (simp add: bind_all_rows)
qed

lemma enums_creatable:
  assumes "creatable k"
  shows "\<exists>ty da. enums ce k = Inr (ty, da) \<and> enums_to_type ty da = type_of k \<and> (ty = 3 \<longleftrightarrow> k = KindReference) \<and> (ty = 2 \<longleftrightarrow> k = KindList)"
  using assms by (cases k) (simp_all add: creatable_def enums_def enums_to_type_def type_of_def kind_string_def)

lemma attribute_added:
  assumes "orderly ah s" "params_ok (view_of s) ps"
  shows "\<exists>aid s'. sa_create_attribute (schema_client ce (fake_sdk fv (\<lambda>s. s) ah)) ps s = (Inr aid, s') \<and> orderly ah s'
    \<and> view_of s' = with_attribute ps aid (view_of s)"
proof -
  have t: "tidy s" "calm s" using assms(1) by (simp_all add: orderly_def)
  have p: "cp_slug ps \<noteq> []" "cp_name ps \<noteq> []" "creatable (cp_kind ps)" "attr_by_slug s (cp_slug ps) = None"
    "\<forall>i \<in> set (cp_templates ps). tpl_by_id s i \<noteq> None"
    using assms(2) unfolding params_ok_def list_all_iff view_has_id [OF t(1)] by (auto simp: view_of_def)
  obtain ty da where e: "enums ce (cp_kind ps) = Inr (ty, da)" "enums_to_type ty da = type_of (cp_kind ps)"
    "ty = 3 \<longleftrightarrow> cp_kind ps = KindReference" "ty = 2 \<longleftrightarrow> cp_kind ps = KindList" using enums_creatable [OF p(3)] by blast
  let ?rq = "attribute_request_of ps (ty, da)" and ?tids = "cp_templates ps" and ?i = "id_of_number (Suc (sv_next s))"
  have ref: "reference_known s (aq_ref ?rq)" if "ty = 3"
  proof -
    have "has_id (view_of s) (cp_ref_template ps)" "\<exists>g x. snd (view_of s) g = Some x \<and> ca_id x = cp_ref_display ps"
      using assms(2) that e(3) by (simp_all add: params_ok_def)
    moreover from this(2) have "attr_by_id s (cp_ref_display ps) \<noteq> None" by (auto simp: view_attribute_in [OF t(1)] by_slug_in [OF t(1)])
    ultimately show ?thesis using that e(3) by (simp add: view_has_id [OF t(1)] reference_known_def attribute_request_of_def)
  qed
  have none: "find (\<lambda>i. tpl_by_id s i = None) ?tids = None" using p(5) by (auto simp: find_None_iff)
  have tids: "(case aq_templates ?rq of Some ts \<Rightarrow> ts | None \<Rightarrow> []) = ?tids" by (simp add: attribute_request_of_def)
  define a where "a = \<lparr>fa_id = ?i, fa_slug = cp_slug ps, fa_name = cp_name ps, fa_desc = text_or_empty (opt_text (cp_desc ps)), fa_type = ty, fa_data = da,
    fa_options = [], fa_ref_template = (case aq_ref ?rq of Some (t, a) \<Rightarrow> t | None \<Rightarrow> []), fa_ref_display = (case aq_ref ?rq of Some (t, a) \<Rightarrow> a | None \<Rightarrow> [])\<rparr>"
  define s' where "s' = changed s (Suc (sv_next s)) (sv_requests s @ [(''POST'', ''/attributes'')]) (bind_all ?tids ?i (sv_templates s)) (sv_attributes s @ [a])"
  have run: "create_attribute_at ?rq (s\<lparr>sv_requests := r\<rparr>) = (Inr ?i, s'\<lparr>sv_requests := r\<rparr>)" for r
    unfolding create_attribute_at_def Let_def tids using p none ref
    by (cases "ty = 3") (simp_all add: attribute_request_of_def slug_or_def take_id_def s'_def changed_def a_def)
  have "sa_create_attribute (schema_client ce (fake_sdk fv (\<lambda>s. s) ah)) ps s = (Inr ?i, s')"
    using t e(1) by (simp add: schema_client_def create_attribute_def fake_sdk_def handled_orderly [OF assms(1)] run calm_def note_schema_write_def)
      (simp add: s'_def changed_def)
  moreover have "orderly ah s'"
    unfolding s'_def
  proof (rule orderly_changed [OF assms(1)])
    have "cp_slug ps \<notin> fa_slug ` set (sv_attributes s)" using p(4) by (simp add: attr_by_slug_def find_None_key)
    moreover have "tidy (changed s (Suc (sv_next s)) (sv_requests s @ [(''POST'', ''/attributes'')]) (sv_templates s) (sv_attributes s))"
      by (rule tidy_in_place [OF t(1)]) (use t(1) in \<open>simp_all add: tidy_def\<close>)
    ultimately show "tidy (changed s (Suc (sv_next s)) (sv_requests s @ [(''POST'', ''/attributes'')]) (bind_all ?tids ?i (sv_templates s)) (sv_attributes s @ [a]))"
      using fresh_ids [OF t(1)] p(1) by (intro tidy_bind_all tidy_attribute) (simp_all add: a_def)
  qed
  moreover have "view_of s' = with_attribute ps ?i (view_of s)"
  proof -
    have "view_attribute a = \<lparr>ca_id = ?i, ca_name = cp_name ps, ca_type = type_of (cp_kind ps), ca_options = [], ca_option_ids = [],
        ca_ref = (if cp_kind ps = KindReference then cp_ref_template ps else [])\<rparr>"
      using e(2,3) by (simp add: view_attribute_def cur_attribute_of_def doc_attribute_def a_def attribute_request_of_def)
    moreover have "tpl_by_slug s' g = map_option (\<lambda>t. if ft_id t \<in> set ?tids then bind_to ?i t else t) (tpl_by_slug s g)" for g
      by (simp add: s'_def tpl_by_slug_def bind_all_map find_map if_distrib [of ft_slug])
    moreover have "attr_by_slug s' g = (if g = cp_slug ps then Some a else attr_by_slug s g)" for g
      using p(4) by (auto simp: s'_def attr_by_slug_def find_append a_def split: option.splits)
    ultimately show ?thesis by (simp add: view_of_def with_attribute_def fun_eq_iff option.map_comp comp_def view_bound)
  qed
  ultimately show ?thesis by blast
qed

lemma option_added:
  assumes "orderly ah s" "snd (view_of s) g = Some x" "ca_type x = type_of KindList" "v \<noteq> []" "v \<notin> set (ca_options x)"
  shows "\<exists>item s'. sa_add_option (schema_client ce (fake_sdk fv (\<lambda>s. s) ah)) (ca_id x) v s = (Inr item, s') \<and> orderly ah s'
    \<and> view_of s' = with_option (ca_id x) v item (view_of s)"
proof -
  have t: "tidy s" "calm s" using assms(1) by (simp_all add: orderly_def)
  obtain a where a: "a \<in> set (sv_attributes s)" "x = view_attribute a" using assms(2) by (auto simp: view_attribute_in [OF t(1)])
  have ty: "fa_type a = 2" using assms(3) by (simp add: a(2) enums_to_type_def type_of_def kind_string_def split: if_splits)
  have new: "v \<notin> snd ` set (fa_options a)" using assms(5) by (simp add: a(2) view_attribute_def cur_attribute_of_def doc_attribute_def ty)
  have found: "attr_by_id s (fa_id a) = Some a" using a(1) by (simp add: by_slug_in [OF t(1)])
  let ?i = "id_of_number (Suc (sv_next s))" and ?f = "\<lambda>b. if fa_id b = fa_id a then b\<lparr>fa_options := fa_options b @ [(id_of_number (Suc (sv_next s)), v)]\<rparr> else b"
  let ?r = "sv_requests s @ [(''POST'', ''/attributes/'' @ fa_id a @ ''/items'')]"
  let ?s = "changed s (Suc (sv_next s)) ?r (sv_templates s) (map ?f (sv_attributes s))"
  have "sa_add_option (schema_client ce (fake_sdk fv (\<lambda>s. s) ah)) (ca_id x) v s = (Inr ?i, ?s)"
    using t ty new found assms(4) by (simp add: a(2) schema_client_def add_list_option_def fake_sdk_def handled_orderly [OF assms(1)] create_item_at_def
      take_id_def changed_def calm_def note_schema_write_def)
  moreover have "orderly ah ?s"
  proof (rule orderly_changed [OF assms(1)])
    show "tidy ?s" using t(1) by (intro tidy_in_place map_in_place refl) (auto simp: tidy_def)
  qed
  moreover have "view_of ?s = with_option (ca_id x) v ?i (view_of s)"
  proof -
    have by_h: "attr_by_slug ?s h = map_option ?f (attr_by_slug s h)" for h
      by (simp add: attr_by_slug_def find_map if_distrib [of fa_slug])
    have updated: "view_attribute (?f b) = (if ca_id (view_attribute b) = ca_id x then grown v ?i (view_attribute b) else view_attribute b)"
      if "b \<in> set (sv_attributes s)" for b
      using tidy_ids(2) [OF t(1) that a(1)] ty by (auto simp: a(2) view_attribute_def cur_attribute_of_def doc_attribute_def grown_def)
    have "snd (view_of ?s) h = snd (with_option (ca_id x) v ?i (view_of s)) h" for h
    proof (cases "attr_by_slug s h")
      case (Some b)
      then have "b \<in> set (sv_attributes s)" by (simp add: by_slug_in(2) [OF t(1)])
      note at_b = updated [OF this]
      show ?thesis unfolding view_of_def with_option_def snd_conv by_h Some option.map at_b ..
    qed (simp only: view_of_def with_option_def snd_conv by_h option.map)
    moreover have "fst (view_of ?s) = fst (view_of s)" by (simp add: view_of_def tpl_by_slug_def)
    ultimately show ?thesis by (simp add: with_option_def prod_eq_iff fun_eq_iff)
  qed
  ultimately show ?thesis by (intro exI conjI)
qed

lemma attribute_bound:
  assumes "orderly ah s" "snd (view_of s) g = Some x" "list_all (has_id (view_of s)) tids"
  shows "\<exists>s'. sa_bind (schema_client ce (fake_sdk fv (\<lambda>s. s) ah)) (ca_id x) tids s = (Inr (), s') \<and> orderly ah s'
    \<and> view_of s' = with_binding (ca_id x) tids (view_of s)"
proof -
  have t: "tidy s" "calm s" using assms(1) by (simp_all add: orderly_def)
  obtain a where a: "a \<in> set (sv_attributes s)" "x = view_attribute a" using assms(2) by (auto simp: view_attribute_in [OF t(1)])
  have found: "attr_by_id s (fa_id a) = Some a" using a(1) by (simp add: by_slug_in [OF t(1)])
  have none: "find (\<lambda>i. tpl_by_id s i = None) tids = None" using assms(3) by (auto simp: find_None_iff list_all_iff view_has_id [OF t(1)])
  let ?u = "\<lambda>t. t\<lparr>ft_attrs := filter (\<lambda>y. y \<noteq> fa_id a) (ft_attrs t)\<rparr>"
  let ?ts = "bind_all tids (fa_id a) (map ?u (sv_templates s))" and ?r = "sv_requests s @ [(''PATCH'', ''/attributes/'' @ fa_id a)]"
  let ?s = "changed s (sv_next s) ?r ?ts (sv_attributes s)"
  have "sa_bind (schema_client ce (fake_sdk fv (\<lambda>s. s) ah)) (ca_id x) tids s = (Inr (), ?s)"
    using t found none by (simp add: a(2) schema_client_def bind_attribute_def fake_sdk_def handled_orderly [OF assms(1)] patch_attribute_at_def
      changed_def calm_def note_schema_write_def)
  moreover have "orderly ah ?s"
  proof (rule orderly_changed [OF assms(1)])
    have "tidy (changed s (sv_next s) ?r (map ?u (sv_templates s)) (sv_attributes s))"
      by (rule tidy_in_place [OF t(1)]) (use t(1) in \<open>auto simp: tidy_def\<close>)
    then show "tidy ?s" using a(1) by (simp add: tidy_bind_all)
  qed
  moreover have "view_of ?s = with_binding (ca_id x) tids (view_of s)"
  proof -
    have "tpl_by_slug ?s h = map_option (\<lambda>t. if ft_id (?u t) \<in> set tids then bind_to (fa_id a) (?u t) else ?u t) (tpl_by_slug s h)" for h
      by (simp add: tpl_by_slug_def bind_all_map find_map if_distrib [of ft_slug] comp_def)
    moreover have "view_template (?u t) = view_template t\<lparr>ct_attrs := removeAll (fa_id a) (ct_attrs (view_template t))\<rparr>" for t
      by (simp add: view_template_def removeAll_filter_not_eq eq_commute [of "fa_id a"])
    ultimately show ?thesis
      by (simp only: view_of_def with_binding_def fun_eq_iff option.map_comp comp_def view_bound prod.inject fst_conv snd_conv a(2) view_attribute_simps
        changed_simps attr_by_slug_def simp_thms)
  qed
  ultimately show ?thesis by blast
qed

lemma schema_read:
  assumes "orderly ah s"
  shows "\<exists>s'. sa_read (schema_client ce (fake_sdk fv (\<lambda>s. s) ah)) s = (Inr (current_of (schema_doc s)), s') \<and> schema_doc s' = schema_doc s \<and> orderly ah s'"
proof -
  let ?s = "s\<lparr>sv_requests := sv_requests s @ [(''GET'', ''/discovery/project-schema'')], sv_reads := Suc (sv_reads s)\<rparr>"
  have "calm s" using assms by (simp add: orderly_def)
  then have "sa_read (schema_client ce (fake_sdk fv (\<lambda>s. s) ah)) s = (Inr (current_of (schema_doc s)), ?s)"
    by (simp add: schema_client_def read_schema_def fake_sdk_def handled_orderly [OF assms] discovery_def Let_def calm_def)
  moreover have "orderly ah ?s" using assms by (simp add: orderly_def tidy_def calm_def admits_def taken_def)
  ultimately show ?thesis by (metis schema_doc_request(1))
qed

section \<open>The contract holds\<close>

interpretation fake: schema_platform "schema_client ce (fake_sdk fv (\<lambda>s. s) ah)" "\<lambda>s. current_of (schema_doc s)" "orderly ah" for ce fv ah
proof unfold_locales
  fix w assume o: "orderly ah w"
  then have t: "tidy w" by (simp add: orderly_def)
  show "identified (contents_of (current_of (schema_doc w)))" "gm_ok (cu_templates (current_of (schema_doc w)))"
    by (simp_all add: shown_view [OF t] view_identified [OF t])
  show "\<exists>w'. sa_read (schema_client ce (fake_sdk fv (\<lambda>s. s) ah)) w = (Inr (current_of (schema_doc w)), w')
      \<and> current_of (schema_doc w') = current_of (schema_doc w) \<and> orderly ah w'" using schema_read [OF o] by metis
  have view: "contents_of (current_of (schema_doc w')) = view_of w'" if "orderly ah w'" for w' using that by (simp add: orderly_def shown_view)
  fix s n d ps x v tids
  show "s \<noteq> [] \<Longrightarrow> n \<noteq> [] \<Longrightarrow> fst (contents_of (current_of (schema_doc w))) s = None \<Longrightarrow>
      \<exists>tid w'. sa_create_template (schema_client ce (fake_sdk fv (\<lambda>s. s) ah)) s n d w = (Inr tid, w') \<and> orderly ah w'
        \<and> contents_of (current_of (schema_doc w')) = with_template s n tid (contents_of (current_of (schema_doc w)))"
    using template_added [OF o, of s n ce fv d] view [OF o] view by metis
  show "params_ok (contents_of (current_of (schema_doc w))) ps \<Longrightarrow>
      \<exists>aid w'. sa_create_attribute (schema_client ce (fake_sdk fv (\<lambda>s. s) ah)) ps w = (Inr aid, w') \<and> orderly ah w'
        \<and> contents_of (current_of (schema_doc w')) = with_attribute ps aid (contents_of (current_of (schema_doc w)))"
    using attribute_added [OF o, of ps ce fv] view [OF o] view by metis
  show "snd (contents_of (current_of (schema_doc w))) s = Some x \<Longrightarrow> ca_type x = type_of KindList \<Longrightarrow> v \<noteq> [] \<Longrightarrow> v \<notin> set (ca_options x) \<Longrightarrow>
      \<exists>item w'. sa_add_option (schema_client ce (fake_sdk fv (\<lambda>s. s) ah)) (ca_id x) v w = (Inr item, w') \<and> orderly ah w'
        \<and> contents_of (current_of (schema_doc w')) = with_option (ca_id x) v item (contents_of (current_of (schema_doc w)))"
    using option_added [OF o, of s x v ce fv] view [OF o] view by metis
  show "snd (contents_of (current_of (schema_doc w))) s = Some x \<Longrightarrow> list_all (has_id (contents_of (current_of (schema_doc w)))) tids \<Longrightarrow>
      \<exists>w'. sa_bind (schema_client ce (fake_sdk fv (\<lambda>s. s) ah)) (ca_id x) tids w = (Inr (), w') \<and> orderly ah w'
        \<and> contents_of (current_of (schema_doc w')) = with_binding (ca_id x) tids (contents_of (current_of (schema_doc w)))"
    using attribute_bound [OF o, of s x tids ce fv] view [OF o] view by metis
qed

section \<open>Converging\<close>

lemma validated: "validate ms = [] \<longleftrightarrow> wf_manifests ms"
  by (auto simp: validate_def validate_from_Nil wf_manifests_def)

text \<open>
  C39: \<open>omnistat schema apply\<close> converges, from the manifests to the rows of the platform. A schema resolved from
  valid manifests is read, compared and applied through the client against the tests' platform, which accepts its token and project,
  injects no fault, denies no write, shows every write at once and is written by nobody else, with whatever templates and
  attributes a project may hold under unique ids and slugs: when the plan has no conflict, applying it succeeds, every
  action of the plan is reported done, the next read leaves an empty plan, and no template, type, option, reference
  or binding that was there before is gone.
\<close>

theorem schema_converges:
  assumes "validate ms = []" "resolve ms ov = Inr d" "orderly ah s"
    and "sa_read (schema_client ce (fake_sdk fv (\<lambda>s. s) ah)) s = (Inr cur, s1)" "pl_conflicts (diff d cur) = []"
  shows "\<exists>res s2 cur' s3. apply_with (schema_client ce (fake_sdk fv (\<lambda>s. s) ah)) slp ds d cur s1 = (None, res, s2)
    \<and> ap_done res = done_all (pl_actions (diff d cur))
    \<and> sa_read (schema_client ce (fake_sdk fv (\<lambda>s. s) ah)) s2 = (Inr cur', s3)
    \<and> plan_empty (diff d cur') \<and> keeps_facts (contents_of cur) (contents_of cur')"
proof -
  let ?api = "schema_client ce (fake_sdk fv (\<lambda>s. s) ah)" and ?shown = "\<lambda>s. current_of (schema_doc s)"
  have "plannable d" using assms(1,2) by (simp add: validated resolved_plannable)
  obtain s1' where "sa_read ?api s = (Inr (?shown s), s1')" "schema_doc s1' = schema_doc s" "orderly ah s1'" using schema_read [OF assms(3)] by metis
  with assms(4) have s1: "cur = ?shown s1" "orderly ah s1" by simp_all
  obtain res s2 where run: "apply_with ?api slp ds d cur s1 = (None, res, s2)" "orderly ah s2" "satisfied d (?shown s2)"
      "ap_done res = done_all (pl_actions (diff d cur))" "keeps_facts (contents_of cur) (contents_of (?shown s2))"
    using fake.apply_converges [OF s1(2) \<open>plannable d\<close>] assms(5) unfolding s1(1) by blast
  obtain s3 where "sa_read ?api s2 = (Inr (?shown s2), s3)" using schema_read [OF run(2)] by metis
  with run show ?thesis by (auto simp: plan_empty_iff)
qed

definition example_client_env :: client_env where
  "example_client_env = \<lparr>ce_decode = (\<lambda>b. None), ce_body_id = (\<lambda>b. None), ce_quote = (\<lambda>t. t)\<rparr>"

definition example_fake_env :: fake_env where
  "example_fake_env = \<lparr>fv_body = eb_detail, fv_status = itoa, fv_layout = itoa, fv_time = (\<lambda>t. 0), fv_float = (\<lambda>x. [])\<rparr>"

definition example_headers :: auth_headers where
  "example_headers = \<lparr>ah_authorization = ''Bearer '' @ fake_token, ah_project = fake_project\<rparr>"

lemma new_orderly: "orderly example_headers (new_server now)"
  by (simp add: orderly_def tidy_def calm_def admits_def new_server_def example_headers_def fake_project_def)

definition example_fake :: "server schema_api" where
  "example_fake = schema_client example_client_env (fake_sdk example_fake_env (\<lambda>s. s) example_headers)"

lemma new_read: "\<exists>s1. sa_read example_fake (new_server 0) = (Inr \<lparr>cu_templates = [], cu_attributes = []\<rparr>, s1)"
  using schema_read [OF new_orderly [of 0], of example_client_env example_fake_env]
  by (auto simp: example_fake_def current_of_def schema_doc_def new_server_def)

lemma new_conflicts: "pl_conflicts (diff example_desired \<lparr>cu_templates = [], cu_attributes = []\<rparr>) = []"
  by code_simp

theorem schema_converges_witness:
  "\<exists>s1 res s2 cur' s3. apply_with example_fake (\<lambda>d w. (True, w)) [] example_desired \<lparr>cu_templates = [], cu_attributes = []\<rparr> s1 = (None, res, s2)
    \<and> sa_read example_fake s2 = (Inr cur', s3) \<and> plan_empty (diff example_desired cur')"
proof -
  obtain s1 where "sa_read example_fake (new_server 0) = (Inr \<lparr>cu_templates = [], cu_attributes = []\<rparr>, s1)" using new_read by blast
  moreover have "validate example_manifests = []" by (simp add: validated example_wf)
  ultimately show ?thesis
    using schema_converges [OF _ example_resolves new_orderly [of 0], of example_client_env example_fake_env, folded example_fake_def] new_conflicts
    by blast
qed

end
