(* ===== verification/Adoption.thy ===== *)
theory Adoption
  imports Platform Identity
begin

text \<open>
  The host's identity against the tests' platform: the calls of \<open>identity_client\<close> on the rows, and what
  \<open>resolve_host_entity\<close> makes of them.
\<close>

section \<open>A platform with records\<close>

definition one_each :: "server \<Rightarrow> bool" where
  "one_each s \<longleftrightarrow> distinct (map fe_id (sv_entities s)) \<and> (\<forall>e \<in> set (sv_entities s). fe_id e \<in> taken s)
     \<and> (\<forall>e \<in> set (sv_entities s). \<forall>e' \<in> set (sv_entities s). fe_template e = fe_template e' \<and> fe_key e = fe_key e' \<and> fe_key e \<noteq> [] \<longrightarrow> e = e')"

text \<open>The template and its identity attribute are the ones the target names.\<close>

definition aimed :: "id_target \<Rightarrow> server \<Rightarrow> bool" where
  "aimed t s \<longleftrightarrow> (\<exists>u a. tpl_by_slug s (it_slug t) = Some u \<and> ft_id u = it_id t \<and> attr_by_slug s (it_attr t) = Some a \<and> fa_id a \<in> set (ft_attrs u))"

definition populated :: "auth_headers \<Rightarrow> id_target \<Rightarrow> server \<Rightarrow> bool" where
  "populated ah t s \<longleftrightarrow> tidy s \<and> one_each s \<and> aimed t s \<and> admits s ah \<and> sv_faults s = [] \<and> \<not> sv_deny s"

text \<open>What only counts and records.\<close>

definition ticked :: "server \<Rightarrow> (string \<times> string) list \<Rightarrow> nat \<Rightarrow> nat \<Rightarrow> server" where
  "ticked s r n k = s\<lparr>sv_requests := r, sv_searches := n, sv_race := k\<rparr>"

lemma ticked_simps [simp]: "sv_templates (ticked s r n k) = sv_templates s" "sv_attributes (ticked s r n k) = sv_attributes s"
  "sv_entities (ticked s r n k) = sv_entities s" "sv_searches (ticked s r n k) = n" "sv_race (ticked s r n k) = k"
  "taken (ticked s r n k) = taken s" "admits (ticked s r n k) ah = admits s ah" "sv_faults (ticked s r n k) = sv_faults s"
  "sv_deny (ticked s r n k) = sv_deny s" "ticked (ticked s r n k) r' n' k' = ticked s r' n' k'" "sv_search_lag (ticked s r n k) = sv_search_lag s"
  "sv_next (ticked s r n k) = sv_next s" "sv_requests (ticked s r n k) = r"
  "sv_clock (ticked s r n k) = sv_clock s"
  by (simp_all add: ticked_def taken_def admits_def)

lemma ticked_lookups [simp]: "tpl_by_slug (ticked s r n k) g = tpl_by_slug s g" "tpl_by_id (ticked s r n k) g = tpl_by_id s g" "tpl_by_ref (ticked s r n k) g = tpl_by_ref s g"
  "attr_by_slug (ticked s r n k) g = attr_by_slug s g" "live_by_key (ticked s r n k) i key = live_by_key s i key" "entity_by_id (ticked s r n k) g = entity_by_id s g"
  by (simp_all add: tpl_by_slug_def tpl_by_id_def attr_by_slug_def live_by_key_def entity_by_id_def tpl_by_ref_def split: option.split)

lemma ticked_one_each [simp]: "one_each (ticked s r n k) = one_each s"
  by (simp add: one_each_def)

lemma populated_one_each: "populated ah t s \<Longrightarrow> one_each s"
  by (simp add: populated_def)

lemma ticked_populated [simp]: "populated ah t (ticked s r n k) = populated ah t s"
  by (simp add: populated_def tidy_def one_each_def aimed_def)

lemma requested: "s\<lparr>sv_requests := r\<rparr> = ticked s r (sv_searches s) (sv_race s)"
  by (simp add: ticked_def)

lemma served:
  assumes "populated ah t s"
  shows "handled fv (\<lambda>s. s) ah method path h s = (case h (ticked s (sv_requests s @ [(method, path)]) (sv_searches s) (sv_race s)) of
    (Inl b, s3) \<Rightarrow> (refused_with fv b, s3) | (Inr x, s3) \<Rightarrow> (Inr x, s3))"
  unfolding requested [symmetric] by (rule handled_served) (use assms in \<open>simp_all add: populated_def\<close>)

lemma aimed_ids:
  assumes "populated ah t s"
  shows "\<exists>u a. tpl_by_slug s (it_slug t) = Some u \<and> tpl_by_id s (it_id t) = Some u \<and> tpl_by_ref s (it_slug t) = Some u \<and> ft_id u = it_id t
    \<and> ft_slug u = it_slug t \<and> attr_by_slug s (it_attr t) = Some a \<and> fa_id a \<in> set (ft_attrs u)"
    and "it_id t \<noteq> [] \<and> it_slug t \<noteq> [] \<and> it_attr t \<noteq> []"
proof -
  have t: "tidy s" using assms by (simp add: populated_def)
  obtain u a where ua: "tpl_by_slug s (it_slug t) = Some u" "ft_id u = it_id t" "attr_by_slug s (it_attr t) = Some a" "fa_id a \<in> set (ft_attrs u)"
    using assms by (auto simp: populated_def aimed_def)
  then have "u \<in> set (sv_templates s)" "ft_slug u = it_slug t" "a \<in> set (sv_attributes s)" "fa_slug a = it_attr t" by (simp_all add: by_slug_in [OF t])
  moreover from this have "tpl_by_id s (it_id t) = Some u" by (simp add: by_slug_in [OF t] ua(2))
  ultimately show "\<exists>u a. tpl_by_slug s (it_slug t) = Some u \<and> tpl_by_id s (it_id t) = Some u \<and> tpl_by_ref s (it_slug t) = Some u \<and> ft_id u = it_id t
      \<and> ft_slug u = it_slug t \<and> attr_by_slug s (it_attr t) = Some a \<and> fa_id a \<in> set (ft_attrs u)"
    and "it_id t \<noteq> [] \<and> it_slug t \<noteq> [] \<and> it_attr t \<noteq> []"
    using ua tidy_ids(3) [OF t, of u] t by (auto simp: tpl_by_ref_def tidy_def)
qed

section \<open>The calls\<close>

abbreviation fake_identity :: "client_env \<Rightarrow> fake_env \<Rightarrow> auth_headers \<Rightarrow> server api" where
  "fake_identity ce fv ah \<equiv> identity_client ce (fake_sdk fv (\<lambda>s. s) ah)"

lemma missing_reply: "error_is ErrNotFound (the (map_err d op (Some 404) (Some (Generic x y))))"
  by (simp add: error_is_def map_err_def is_error_def Let_def split: option.splits)

lemma found_by_key:
  assumes "populated ah t s"
  shows "\<exists>r. api_by_key (fake_identity ce fv ah) (it_slug t) key s
    = (Inr (map_option fe_id (live_by_key s (it_id t) key)), ticked s r (sv_searches s) (sv_race s))"
proof -
  obtain u where "tpl_by_ref s (it_slug t) = Some u" "ft_id u = it_id t" using aimed_ids(1) [OF assms] by blast
  then show ?thesis
    by (cases "live_by_key s (it_id t) key")
      (auto simp: identity_client_def client_by_key_def fake_sdk_def served [OF assms] by_key_at_def not_found_def refused_with_def problem_body_def
        id_despite_def replied_def missing_reply)
qed

definition summary_of :: "fake_env \<Rightarrow> fk_entity \<Rightarrow> entity_summary" where
  "summary_of fv e = \<lparr>es_id = fe_id e, es_created = fv_time fv (fe_created e), es_key = fe_key e\<rparr>"

lemma found_by_value:
  assumes "populated ah t s"
  shows "\<exists>r es. api_find (fake_identity ce fv ah) (it_id t) (it_attr t) key s = (Inr es, ticked s r (Suc (sv_searches s)) (sv_race s))
    \<and> set es \<subseteq> summary_of fv ` {e \<in> set (sv_entities s). fe_template e = it_id t}"
proof -
  obtain u where u: "tpl_by_id s (it_id t) = Some u" "ft_id u = it_id t" using aimed_ids(1) [OF assms] by blast
  let ?es = "\<lambda>s. map (summary_of fv) (sort_key fe_created (filter (\<lambda>e. fe_template e = it_id t \<and> fe_hidden e < Suc (sv_searches s)
    \<and> matched fv [[(it_attr t, ''eq'', key)]] e) (sv_entities s)))"
  have "api_find (fake_identity ce fv ah) (it_id t) (it_attr t) key s
      = (Inr (?es s), ticked s (sv_requests s @ [(''POST'', ''/entities/search/'' @ it_id t)]) (Suc (sv_searches s)) (sv_race s))"
    by (simp add: identity_client_def client_find_def fake_sdk_def served [OF assms] search_at_def search_of_def u Let_def summary_of_def [abs_def])
      (simp add: ticked_def)
  moreover have "set (?es s) \<subseteq> summary_of fv ` {e \<in> set (sv_entities s). fe_template e = it_id t}" by auto
  ultimately show ?thesis by blast
qed

text \<open>One record more, or one record's key.\<close>

definition rewritten :: "server \<Rightarrow> nat \<Rightarrow> fk_entity list \<Rightarrow> server" where
  "rewritten s n es = s\<lparr>sv_next := n, sv_entities := es\<rparr>"

definition id_of_next :: "server \<Rightarrow> string" where
  "id_of_next s = id_of_number (Suc (sv_next s))"

lemma allowed_attribute:
  assumes "populated ah t s" "tpl_by_slug s (it_slug t) = Some u"
  shows "attributes_on_template s u [it_attr t] = None"
  using aimed_ids(1) [OF assms(1)] assms(2) by auto

lemma attributes_ticked [simp]: "attributes_on_template (ticked s r n k) u gs = attributes_on_template s u gs"
  by (induction gs) (auto split: option.split)

lemma upsert_creates:
  assumes "populated ah t s" "live_by_key s (it_id t) key = None" "key \<noteq> []" "length key \<le> 255" "trim_space key = key" "sv_race s = 0"
  shows "\<exists>r e. api_upsert (fake_identity ce fv ah) (it_slug t) key [(it_attr t, key)] s
      = (Inr (id_of_next s, True), rewritten (ticked s r (sv_searches s) 0) (Suc (sv_next s)) (sv_entities s @ [e]))
    \<and> fe_id e = id_of_next s \<and> fe_template e = it_id t \<and> fe_key e = key"
proof -
  obtain u where u: "tpl_by_slug s (it_slug t) = Some u" "tpl_by_ref s (it_slug t) = Some u" "ft_id u = it_id t" "ft_slug u = it_slug t"
    using aimed_ids(1) [OF assms(1)] by metis
  have fresh: "e \<in> set (sv_entities s) \<Longrightarrow> fe_id e \<noteq> id_of_next s" for e
    using assms(1) fresh_id [of s] by (auto simp: populated_def one_each_def id_of_next_def)
  have same: "map (\<lambda>e. if fe_id e = id_of_next s then f e else e) (sv_entities s) = sv_entities s" for f
    by (rule map_idI) (use fresh in auto)
  let ?r = "sv_requests s @ [(''PUT'', ''/entities/template/'' @ it_slug t @ ''/by-key'')]"
  let ?e = "\<lparr>fe_id = id_of_next s, fe_template = it_id t, fe_values = [(it_attr t, PlString key)],
    fe_created = fv_layout fv (sv_clock s + int (length (sv_entities s)) * 1000000), fe_history = [], fe_metrics = [],
    fe_hidden = sv_searches s + sv_search_lag s, fe_key = key\<rparr>"
  have "upsert_at fv (it_slug t) key [(it_attr t, PlString key)] (ticked s ?r (sv_searches s) 0)
      = (Inr (id_of_next s, True), rewritten (ticked s ?r (sv_searches s) 0) (Suc (sv_next s)) (sv_entities s @ [?e]))"
    using assms(2-5) allowed_attribute [OF assms(1) u(1)] same
    by (simp add: upsert_at_def u Let_def max_fake_key_def home_of_def add_entity_def take_id_def on_entity_def rewritten_def id_of_next_def
      del: attributes_on_template.simps)
  then have "api_upsert (fake_identity ce fv ah) (it_slug t) key [(it_attr t, key)] s
      = (Inr (id_of_next s, True), rewritten (ticked s ?r (sv_searches s) 0) (Suc (sv_next s)) (sv_entities s @ [?e]))"
    by (simp add: identity_client_def client_upsert_def fake_sdk_def served [OF assms(1)] assms(6) plain_scalar_of_def)
  then show ?thesis by (intro exI [of _ ?r] exI [of _ ?e]) simp
qed

text \<open>Encoding and decoding a body keeps its code.\<close>

definition keeps_codes :: "client_env \<Rightarrow> fake_env \<Rightarrow> bool" where
  "keeps_codes ce fv \<longleftrightarrow> (\<forall>b. map_option eb_code (ce_decode ce (fv_body fv b)) = Some (eb_code b))"

lemma upsert_races:
  assumes "populated ah t s" "keeps_codes ce fv" "key \<noteq> []" "length key \<le> 255" "trim_space key = key" "0 < sv_race s"
  shows "\<exists>m r. api_upsert (fake_identity ce fv ah) (it_slug t) key [(it_attr t, key)] s
      = (Inl (KeyTaken m), ticked s r (sv_searches s) (sv_race s - 1))"
proof -
  obtain u where u: "tpl_by_ref s (it_slug t) = Some u" using aimed_ids(1) [OF assms(1)] by blast
  let ?r = "sv_requests s @ [(''PUT'', ''/entities/template/'' @ it_slug t @ ''/by-key'')]"
  obtain b where b: "upsert_at fv (it_slug t) key [(it_attr t, PlString key)] (ticked s ?r (sv_searches s) (sv_race s))
      = (Inl b, ticked s ?r (sv_searches s) (sv_race s - 1))" "eb_status b = 409" "eb_code b = []"
    using assms(3-6) by (simp add: upsert_at_def u Let_def max_fake_key_def conflict_answer_def problem_body_def) (simp add: ticked_def)
  have "error_is IdentityKeyTaken (the (map_err (ce_decode ce) op (Some 409) (Some (Generic (fv_status fv 409) (fv_body fv b)))))" for op
  proof -
    have "map_option eb_code (ce_decode ce (fv_body fv b)) = Some []" using assms(2) b(3) unfolding keeps_codes_def by metis
    then show ?thesis by (auto simp: error_is_def map_err_def is_error_def taken_conflict_def Let_def)
  qed
  then show ?thesis
    using b by (auto simp: identity_client_def client_upsert_def fake_sdk_def served [OF assms(1)] plain_scalar_of_def refused_with_def replied_def identity_error_of_def)
qed

lemma upsert_settles:
  assumes "populated ah t s" "keeps_codes ce fv" "live_by_key s (it_id t) key = None" "key \<noteq> []" "length key \<le> 255" "trim_space key = key" "sv_race s < n"
  shows "\<exists>r e tr'. upsert_loop n (fake_identity ce fv ah) (it_slug t) key [(it_attr t, key)] prev (s, tr)
      = (Inr (id_of_next s, True), rewritten (ticked s r (sv_searches s) 0) (Suc (sv_next s)) (sv_entities s @ [e]), tr')
    \<and> fe_id e = id_of_next s \<and> fe_template e = it_id t \<and> fe_key e = key"
  using assms
proof (induction n arbitrary: s prev tr)
  case (Suc n)
  show ?case
  proof (cases "sv_race s")
    case 0
    from upsert_creates [OF Suc.prems(1,3-6) 0, of ce fv] obtain r e where
      up: "api_upsert (fake_identity ce fv ah) (it_slug t) key [(it_attr t, key)] s
        = (Inr (id_of_next s, True), rewritten (ticked s r (sv_searches s) 0) (Suc (sv_next s)) (sv_entities s @ [e]))"
      and e: "fe_id e = id_of_next s" "fe_template e = it_id t" "fe_key e = key" by metis
    show ?thesis by (intro exI [of _ r] exI [of _ e]) (simp add: upsert_by_key_def call_def up e)
  next
    case (Suc j)
    from upsert_races [OF Suc.prems(1,2,4-6)] Suc obtain m r where
      up: "api_upsert (fake_identity ce fv ah) (it_slug t) key [(it_attr t, key)] s = (Inl (KeyTaken m), ticked s r (sv_searches s) j)" by auto
    from Suc.IH [of "ticked s r (sv_searches s) j" m "tr @ [CallUpsert (it_slug t) key [(it_attr t, key)]]"] Suc.prems Suc
    show ?thesis by (simp add: upsert_by_key_def call_def up id_of_next_def)
  qed
qed simp

definition keyed_as :: "string \<Rightarrow> string \<Rightarrow> fk_entity \<Rightarrow> fk_entity" where
  "keyed_as eid key x = (if fe_id x = eid then x\<lparr>fe_key := key\<rparr> else x)"

lemma keyed_as_simps [simp]: "fe_id (keyed_as eid key x) = fe_id x" "fe_template (keyed_as eid key x) = fe_template x"
  "fe_key (keyed_as eid key x) = (if fe_id x = eid then key else fe_key x)"
  by (simp_all add: keyed_as_def)

lemma key_set:
  assumes "populated ah t s" "live_by_key s (it_id t) key = None" "e \<in> set (sv_entities s)" "fe_template e = it_id t"
  shows "\<exists>r. api_set_key (fake_identity ce fv ah) (fe_id e) key s
    = (Inr (), rewritten (ticked s r (sv_searches s) (sv_race s)) (sv_next s) (map (keyed_as (fe_id e) key) (sv_entities s)))"
proof -
  have "distinct (map fe_id (sv_entities s))" using assms(1) by (simp add: populated_def one_each_def)
  then have e: "entity_by_id s (fe_id e) = Some e" using assms(3) by (simp add: entity_by_id_def find_distinct)
  have same: "write_backfills [] x = x" for x by (simp add: write_backfills_def)
  let ?r = "sv_requests s @ [(''PATCH'', ''/entities/'' @ fe_id e)]"
  have "on_entity (fe_id e) (write_backfills []) (on_entity (fe_id e) (\<lambda>x. x\<lparr>fe_key := key\<rparr>) (ticked s ?r (sv_searches s) (sv_race s)))
      = rewritten (ticked s ?r (sv_searches s) (sv_race s)) (sv_next s) (map (keyed_as (fe_id e) key) (sv_entities s))"
    by (simp add: on_entity_def rewritten_def keyed_as_def [abs_def] comp_def same)
  then show ?thesis
    using assms(2) by (intro exI [of _ ?r]) (simp add: identity_client_def client_set_key_def fake_sdk_def served [OF assms(1)] update_entity_at_def e assms(4)
      update_attributes_def)
qed

section \<open>The records afterwards\<close>

lemma live_found: "live_by_key s i key = Some e \<Longrightarrow> e \<in> set (sv_entities s) \<and> fe_template e = i \<and> fe_key e = key"
  by (auto simp: live_by_key_def find_Some_iff)

lemma live_none: "live_by_key s i key = None \<Longrightarrow> key \<noteq> [] \<Longrightarrow> e \<in> set (sv_entities s) \<Longrightarrow> fe_template e = i \<Longrightarrow> fe_key e \<noteq> key"
  by (auto simp: live_by_key_def find_None_iff)

lemma live_there: "e \<in> set (sv_entities s) \<Longrightarrow> fe_template e = i \<Longrightarrow> fe_key e = key \<Longrightarrow> key \<noteq> [] \<Longrightarrow> \<exists>e'. live_by_key s i key = Some e'"
  by (metis live_none not_Some_eq)

lemma live_is:
  assumes "one_each s" "e \<in> set (sv_entities s)" "fe_key e \<noteq> []"
  shows "live_by_key s (fe_template e) (fe_key e) = Some e"
proof -
  obtain e' where e': "live_by_key s (fe_template e) (fe_key e) = Some e'" using live_there [OF assms(2) refl refl assms(3)] by blast
  then have "e' \<in> set (sv_entities s)" "fe_template e' = fe_template e" "fe_key e' = fe_key e" using live_found by blast+
  then have "e' = e" using assms unfolding one_each_def by metis
  with e' show ?thesis by simp
qed

lemma rewritten_simps [simp]: "sv_entities (rewritten s n es) = es" "sv_next (rewritten s n es) = n" "sv_templates (rewritten s n es) = sv_templates s"
  "sv_attributes (rewritten s n es) = sv_attributes s" "admits (rewritten s n es) ah = admits s ah" "sv_faults (rewritten s n es) = sv_faults s"
  "sv_deny (rewritten s n es) = sv_deny s" "sv_race (rewritten s n es) = sv_race s"
  by (simp_all add: rewritten_def admits_def)

lemma recorded_populated:
  assumes "populated ah t s" "sv_next s \<le> n" "one_each (rewritten s n es)"
  shows "populated ah t (rewritten s n es)"
proof -
  have "taken s \<subseteq> taken (rewritten s n es)" using assms(2) by (auto simp: taken_def)
  then have "tidy (rewritten s n es)" using assms(1) by (auto simp: populated_def tidy_def)
  moreover have "aimed t (rewritten s n es)" using assms(1) by (simp add: populated_def aimed_def tpl_by_slug_def attr_by_slug_def)
  ultimately show ?thesis using assms(1,3) by (simp add: populated_def)
qed

lemma one_each_added:
  assumes "one_each s" "fe_id e = id_of_next s" "live_by_key s (fe_template e) (fe_key e) = None"
  shows "one_each (rewritten s (Suc (sv_next s)) (sv_entities s @ [e]))"
proof -
  have "taken (rewritten s (Suc (sv_next s)) (sv_entities s @ [e])) = insert (id_of_next s) (taken s)"
    by (simp add: taken_def atLeastAtMostSuc_conv id_of_next_def)
  moreover have "id_of_next s \<notin> fe_id ` set (sv_entities s)" using assms(1) fresh_id [of s] unfolding one_each_def id_of_next_def by (metis imageE)
  moreover have "fe_key x \<noteq> fe_key e" if "x \<in> set (sv_entities s)" "fe_template x = fe_template e" "fe_key e \<noteq> []" for x
    using live_none [OF assms(3)] that by blast
  ultimately show ?thesis using assms(1,2) by (auto simp: one_each_def) metis+
qed

lemma one_each_keyed:
  assumes "one_each s" "live_by_key s (fe_template e) key = None" "e \<in> set (sv_entities s)" "key \<noteq> []"
  shows "one_each (rewritten s (sv_next s) (map (keyed_as (fe_id e) key) (sv_entities s)))"
proof -
  have taken: "taken (rewritten s (sv_next s) (map (keyed_as (fe_id e) key) (sv_entities s))) = taken s" by (simp add: taken_def)
  have ids: "fe_id x = fe_id y \<longleftrightarrow> x = y" if "x \<in> set (sv_entities s)" "y \<in> set (sv_entities s)" for x y
    using assms(1) that by (auto simp: one_each_def distinct_map inj_on_def)
  have other: "fe_key x \<noteq> key" if "x \<in> set (sv_entities s)" "fe_template x = fe_template e" for x using live_none [OF assms(2,4)] that by blast
  have "keyed_as (fe_id e) key x = keyed_as (fe_id e) key y"
    if xy: "x \<in> set (sv_entities s)" "y \<in> set (sv_entities s)" "fe_template x = fe_template y"
      "fe_key (keyed_as (fe_id e) key x) = fe_key (keyed_as (fe_id e) key y)" "fe_key (keyed_as (fe_id e) key x) \<noteq> []" for x y
  proof (cases "x = e \<or> y = e")
    case True
    then have "x = y" using xy other ids [OF xy(1) assms(3)] ids [OF xy(2) assms(3)] by (auto split: if_splits)
    then show ?thesis by simp
  next
    case False
    then have "fe_key x = fe_key y" "fe_key x \<noteq> []" using xy ids [OF xy(1) assms(3)] ids [OF xy(2) assms(3)] by auto
    then show ?thesis using xy assms(1) unfolding one_each_def by blast
  qed
  moreover have "distinct (map fe_id (map (keyed_as (fe_id e) key) (sv_entities s)))" using assms(1) by (simp add: one_each_def comp_def)
  moreover have "\<forall>x \<in> set (map (keyed_as (fe_id e) key) (sv_entities s)). fe_id x \<in> taken s" using assms(1) by (simp add: one_each_def)
  ultimately show ?thesis unfolding one_each_def taken rewritten_simps set_map by (intro conjI ballI impI) (auto simp del: keyed_as_simps(3))
qed

section \<open>Settling on one host\<close>

lemma again:
  assumes "populated ah t s" "valid_key key = None" "live_by_key s (it_id t) key = Some e"
  shows "\<exists>r tr'. resolve_host_entity (fake_identity ce fv ah) t key dry (s, tr) = (Inr (host_with key (fe_id e) Found), ticked s r (sv_searches s) (sv_race s), tr')"
proof -
  from found_by_key [OF assms(1), of ce fv key] obtain r where "api_by_key (fake_identity ce fv ah) (it_slug t) key s
    = (Inr (Some (fe_id e)), ticked s r (sv_searches s) (sv_race s))" using assms(3) by auto
  then show ?thesis
    using assms(2) aimed_ids(2) [OF assms(1)] by (intro exI [of _ r]) (simp add: resolve_host_entity_def by_key_def call_def)
qed

text \<open>A resolution that finds nobody under the key, from the second call on.\<close>

lemma unheld:
  assumes "populated ah t s" "valid_key key = None" "live_by_key s (it_id t) key = None"
  shows "\<exists>r es tr1. resolve_host_entity (fake_identity ce fv ah) t key dry (s, tr) =
      (if es \<noteq> [] then adopt_host (fake_identity ce fv ah) t key dry (sort_key es_created es) (ticked s r (Suc (sv_searches s)) (sv_race s), tr1)
       else create_host (fake_identity ce fv ah) t key dry (ticked s r (Suc (sv_searches s)) (sv_race s), tr1))
    \<and> set es \<subseteq> summary_of fv ` {e \<in> set (sv_entities s). fe_template e = it_id t}"
proof -
  from found_by_key [OF assms(1), of ce fv key] obtain r where r: "api_by_key (fake_identity ce fv ah) (it_slug t) key s
    = (Inr None, ticked s r (sv_searches s) (sv_race s))" using assms(3) by auto
  have "populated ah t (ticked s r (sv_searches s) (sv_race s))" using assms(1) by simp
  from found_by_value [OF this, of ce fv key] obtain r' es where
    "api_find (fake_identity ce fv ah) (it_id t) (it_attr t) key (ticked s r (sv_searches s) (sv_race s)) = (Inr es, ticked s r' (Suc (sv_searches s)) (sv_race s))"
    "set es \<subseteq> summary_of fv ` {e \<in> set (sv_entities s). fe_template e = it_id t}" by auto
  with r assms(2) aimed_ids(2) [OF assms(1)] show ?thesis
    by (intro exI [of _ r'] exI [of _ es] exI) (simp add: resolve_host_entity_def by_key_def find_entities_def call_def)
qed

lemma settles:
  assumes "valid_key key = None" "length key \<le> 255" "populated ah t s" "keeps_codes ce fv" "sv_race s < upsert_attempts"
  shows "\<exists>h s1 tr1. resolve_host_entity (fake_identity ce fv ah) t key False (s, tr) = (Inr h, s1, tr1) \<and> populated ah t s1
    \<and> fe_id ` set (sv_entities s1) = insert (h_entity h) (fe_id ` set (sv_entities s))
    \<and> (h_outcome h = Created \<longleftrightarrow> h_entity h \<notin> fe_id ` set (sv_entities s))
    \<and> (h_outcome h = AdoptedOtherKey \<or> (\<exists>e. live_by_key s1 (it_id t) key = Some e \<and> fe_id e = h_entity h))"
proof (cases "live_by_key s (it_id t) key")
  case (Some e)
  from again [OF assms(3,1) Some, of ce fv False tr] obtain r tr' where
    "resolve_host_entity (fake_identity ce fv ah) t key False (s, tr) = (Inr (host_with key (fe_id e) Found), ticked s r (sv_searches s) (sv_race s), tr')" by blast
  then show ?thesis using assms(3) live_found [OF Some] Some by (auto simp: host_with_def)
next
  case None
  have key: "key \<noteq> []" "trim_space key = key" using assms(1) by (auto simp: valid_key_def split: if_splits)
  from unheld [OF assms(3,1) None, of ce fv False tr] obtain r es tr1 where
    run: "resolve_host_entity (fake_identity ce fv ah) t key False (s, tr) =
      (if es \<noteq> [] then adopt_host (fake_identity ce fv ah) t key False (sort_key es_created es) (ticked s r (Suc (sv_searches s)) (sv_race s), tr1)
       else create_host (fake_identity ce fv ah) t key False (ticked s r (Suc (sv_searches s)) (sv_race s), tr1))"
    and es: "set es \<subseteq> summary_of fv ` {e \<in> set (sv_entities s). fe_template e = it_id t}" by blast
  let ?s = "ticked s r (Suc (sv_searches s)) (sv_race s)"
  have p: "populated ah t ?s" "one_each ?s" "live_by_key ?s (it_id t) key = None" using assms(3) None by (simp_all add: populated_one_each [OF assms(3)])
  show ?thesis
  proof (cases "es = []")
    case True
    from upsert_settles [OF p(1) assms(4) p(3) key(1) assms(2) key(2), of upsert_attempts "[]" tr1] assms(5) obtain r' e tr' where
      up: "upsert_loop upsert_attempts (fake_identity ce fv ah) (it_slug t) key [(it_attr t, key)] [] (?s, tr1)
        = (Inr (id_of_next ?s, True), rewritten (ticked ?s r' (sv_searches ?s) 0) (Suc (sv_next ?s)) (sv_entities ?s @ [e]), tr')"
      and e: "fe_id e = id_of_next ?s" "fe_template e = it_id t" "fe_key e = key" by auto
    let ?u = "ticked ?s r' (sv_searches ?s) 0"
    let ?s1 = "rewritten ?u (Suc (sv_next ?u)) (sv_entities ?u @ [e])"
    have "populated ah t ?u" "one_each ?u" using assms(3) by (simp_all add: populated_one_each [OF assms(3)])
    then have "populated ah t ?s1" using e None by (intro recorded_populated one_each_added) (simp_all add: id_of_next_def)
    moreover have "live_by_key ?s1 (it_id t) key = Some e" using None e key(1) by (simp add: live_by_key_def find_append)
    moreover have "id_of_next s \<notin> fe_id ` set (sv_entities s)"
      using assms(3) fresh_id [of s] unfolding populated_def one_each_def id_of_next_def by (metis imageE)
    ultimately show ?thesis
      using run up e True by (auto simp: create_host_def upsert_def host_with_def id_of_next_def)
  next
    case False
    let ?pick = "hd (sort_key es_created es)"
    have "?pick \<in> set es" using False hd_in_set [of "sort_key es_created es"] by simp
    then obtain e where e: "?pick = summary_of fv e" "e \<in> set (sv_entities s)" "fe_template e = it_id t" using es by blast
    have other: "fe_key e \<noteq> key" using live_none [OF None key(1) e(2,3)] .
    show ?thesis
    proof (cases "fe_key e = []")
      case False
      then show ?thesis
        using run \<open>es \<noteq> []\<close> e other p(1) by (auto simp: adopt_host_def Let_def summary_of_def host_with_def)
    next
      case True
      from key_set [OF p(1,3) _ e(3), of ce fv] e(2) obtain r' where
        set: "api_set_key (fake_identity ce fv ah) (fe_id e) key ?s
          = (Inr (), rewritten (ticked ?s r' (sv_searches ?s) (sv_race ?s)) (sv_next ?s) (map (keyed_as (fe_id e) key) (sv_entities ?s)))" by auto
      let ?u = "ticked ?s r' (sv_searches ?s) (sv_race ?s)"
      let ?s1 = "rewritten ?u (sv_next ?u) (map (keyed_as (fe_id e) key) (sv_entities ?u))"
      have u: "populated ah t ?u" "one_each ?u" using assms(3) by (simp_all add: populated_one_each [OF assms(3)])
      then have s1: "populated ah t ?s1" using e None key(1) by (intro recorded_populated one_each_keyed) simp_all
      have "keyed_as (fe_id e) key e \<in> set (sv_entities ?s1)" using e(2) by simp
      from live_is [OF populated_one_each [OF s1] this] have e': "live_by_key ?s1 (it_id t) key = Some (keyed_as (fe_id e) key e)" using e(3) key(1) by simp
      have ids: "fe_id ` set (sv_entities ?s1) = insert (fe_id e) (fe_id ` set (sv_entities s))" using e(2) by (auto simp: image_image)
      have "es_id ?pick = fe_id e" "es_key ?pick = []" using True by (simp_all add: e(1) summary_of_def)
      then have "\<exists>d tr'. resolve_host_entity (fake_identity ce fv ah) t key False (s, tr) = (Inr ((host_with key (fe_id e) Adopted)\<lparr>h_duplicates := d\<rparr>), ?s1, tr')"
        unfolding run using \<open>es \<noteq> []\<close> key(1) set by (auto simp: adopt_host_def Let_def set_entity_key_def call_def)
      then obtain d tr' where run1: "resolve_host_entity (fake_identity ce fv ah) t key False (s, tr) = (Inr ((host_with key (fe_id e) Adopted)\<lparr>h_duplicates := d\<rparr>), ?s1, tr')"
        by blast
      let ?h = "(host_with key (fe_id e) Adopted)\<lparr>h_duplicates := d\<rparr>"
      have h: "h_entity ?h = fe_id e" "h_outcome ?h = Adopted" by (simp_all add: host_with_def)
      show ?thesis
      proof (intro exI conjI)
        show "resolve_host_entity (fake_identity ce fv ah) t key False (s, tr) = (Inr ?h, ?s1, tr')" by (rule run1)
        show "populated ah t ?s1" by (rule s1)
        show "fe_id ` set (sv_entities ?s1) = insert (h_entity ?h) (fe_id ` set (sv_entities s))" unfolding h by (rule ids)
        show "h_outcome ?h = Created \<longleftrightarrow> h_entity ?h \<notin> fe_id ` set (sv_entities s)" using e(2) by (simp add: h)
        show "h_outcome ?h = AdoptedOtherKey \<or> (\<exists>x. live_by_key ?s1 (it_id t) key = Some x \<and> fe_id x = h_entity ?h)"
          using e' by (intro disjI2 exI [of _ "keyed_as (fe_id e) key e"]) (simp add: h)
      qed
    qed
  qed
qed


section \<open>An example\<close>

text \<open>Two records from before keys, and a project whose search lags by two reads.\<close>

definition example_records :: server where
  "example_records = (new_server 0)\<lparr>sv_next := 4, sv_search_lag := 2, sv_race := 1,
     sv_attributes := [\<lparr>fa_id = id_of_number 1, fa_slug = ''machine_id'', fa_name = ''Machine id'', fa_desc = [], fa_type = 0, fa_data = 0,
       fa_options = [], fa_ref_template = [], fa_ref_display = []\<rparr>],
     sv_templates := [\<lparr>ft_id = id_of_number 2, ft_slug = ''host'', ft_name = ''Host'', ft_desc = [], ft_attrs = [id_of_number 1]\<rparr>],
     sv_entities := [\<lparr>fe_id = id_of_number 3, fe_template = id_of_number 2, fe_values = [(''machine_id'', PlString ''m1'')], fe_created = ''2025'',
         fe_history = [], fe_metrics = [], fe_hidden = 0, fe_key = []\<rparr>,
       \<lparr>fe_id = id_of_number 4, fe_template = id_of_number 2, fe_values = [(''machine_id'', PlString ''m2'')], fe_created = ''2026'',
         fe_history = [], fe_metrics = [], fe_hidden = 0, fe_key = ''m2''\<rparr>]\<rparr>"

definition example_aim :: id_target where
  "example_aim = \<lparr>it_slug = ''host'', it_id = id_of_number 2, it_attr = ''machine_id''\<rparr>"

lemma example_populated: "populated example_headers example_aim example_records"
  by (simp add: populated_def tidy_def one_each_def aimed_def admits_def example_records_def example_aim_def new_server_def example_headers_def
      fake_project_def tpl_by_slug_def attr_by_slug_def taken_def image_iff)

definition example_codes :: "client_env \<times> fake_env" where
  "example_codes = (example_client_env\<lparr>ce_decode := \<lambda>c. Some (problem_body 0 [] [] c)\<rparr>, example_fake_env\<lparr>fv_body := eb_code\<rparr>)"

lemma example_keeps: "keeps_codes (fst example_codes) (snd example_codes)"
  by (simp add: keeps_codes_def example_codes_def problem_body_def)


end
