(* ===== verification/Spec2Isabelle.thy ===== *)
theory Spec2Isabelle
  imports Daemon Registry Transport Apierrors Bundled Upgrade Ups Winfake Planned Adoption
begin

text \<open>
  Omnistat is an agent in Go that collects facts and measurements of a host and publishes them to an
  Omnismith project. This library models its core as HOL functions over explicit state and proves what
  makes it correct. Paths are under \<open>src/internal\<close>.

  \<^bold>\<open>How the program works.\<close> Modules (\<open>module/*\<close>) declare attributes in a manifest and return
  observations. \<open>manifest\<close> validates the manifests and resolves the operator's overrides into the desired
  schema; \<open>schema\<close> compares it with the project's, plans the difference and applies it. \<open>identity\<close> finds,
  adopts or creates the entity of the host and those that modules own. \<open>collect\<close> runs the modules on their
  intervals, validates each observation and buffers it; \<open>publish\<close> sends a snapshot of the buffers in
  chunks and acknowledges what the platform settled, through \<open>omni\<close>, which retries and classifies errors.
  \<open>cli\<close> wires these into \<open>run\<close>, \<open>run --daemon\<close>, \<open>schema\<close> and \<open>identity\<close>; \<open>config\<close> reads the settings. \<open>service\<close>
  with \<open>systemd\<close> and \<open>winsvc\<close> installs and removes the agent as a service, and \<open>upgrade\<close> replaces it with a
  published release.

  \<^bold>\<open>The standard library.\<close> \<open>Prelude\<close> has Go's maps as association lists with distinct keys and the shared
  hints; \<open>Gostring\<close> byte strings, UTF-8 decoding, trimming and splitting; \<open>Gofloat\<close> binary64 arithmetic as
  rationals rounded half to even, with NaN and infinities; \<open>Goword\<close> unsigned 64-bit counters and their
  conversion; \<open>Gonum\<close> Atoi and Itoa; \<open>Gotime\<close> the two date layouts; \<open>Goduration\<close> ParseDuration; \<open>Gosha\<close>
  SHA-256, HMAC and hex; \<open>Goparse\<close> ParseFloat and the integer and time parsers of the UPS module; \<open>Goflag\<close> the
  flags of a command line.

  \<^bold>\<open>The theories and the code.\<close>
  \<^item> \<open>Manifest\<close> (manifest.go, validate.go): \<open>validate\<close> reports nothing exactly for well-formed manifests.
  \<^item> \<open>Resolve\<close>, \<open>Resolved\<close> (resolve.go): the state of each pass of \<open>Resolve\<close>, then its promises: every
    attribute once, overrides before defaults, a schema the later stages may rely on.
  \<^item> \<open>Registry\<close>, \<open>Provider\<close> (module): registration, switches and configuration; the locale \<open>provider\<close> is the
    contract between a module and the core, interpreted by every module.
  \<^item> \<open>Cpu\<close>, \<open>Memorymod\<close>, \<open>Disk\<close>, \<open>Hostname\<close>, \<open>Machineid\<close> (module/*, hostread): one collection each, as a
    function of a reader record; the values are shown finite and in range in the arithmetic of the code. A
    derived identity is the hash of the first text that holds one.
  \<^item> \<open>Netread\<close>, \<open>Network\<close> (hostread/net*.go, module/network): the kernel's files and the Windows tables, and the
    rates, each equal to the growth of its counters between the two readings over the time between them.
  \<^item> \<open>Nis\<close>, \<open>Ups\<close> (module/ups): an exchange with apcupsd, read back exactly within its limits, and the entity
    reported for a UPS.
  \<^item> \<open>Bundled\<close> (cmd/omnistat): the registry of all modules. The core drops nothing that the processor,
    memory, disk, network and hostname modules report, as long as the counters are in the range the theorem names
    and the disk's two readings are not less than a millisecond apart.
  \<^item> \<open>Samples\<close>, \<open>Buffer\<close>, \<open>Buffers\<close>, \<open>Scheduler\<close> (collect): validation of values; the buffers against an
    abstract one, by the locale \<open>sink\<close>; what a collection can put into them.
  \<^item> \<open>Settle\<close> (settle), \<open>Schema\<close>, \<open>Apply\<close> (schema): reads after writes, the plan, its execution with
    re-reads; the plan is empty exactly when nothing is missing, and executing it needs nothing that does
    not exist yet.
  \<^item> \<open>Converge\<close>, \<open>Planned\<close>: for any platform within the contract \<open>schema_platform\<close>, applying a plan without
    conflicts to a schema resolved from valid manifests succeeds and leaves nothing to do.
  \<^item> \<open>Identity\<close> (identity): resolution with the trace of its calls, what it may write and what then holds.
  \<^item> \<open>Publish\<close>, \<open>Entities\<close>, \<open>Drain\<close> (publish): every sample is sent, given up with a count, or kept; against a
    platform that accepts everything, what was pending is in the requests.
  \<^item> \<open>Transport\<close>, \<open>Apierrors\<close>, \<open>Client\<close> (omni): retries, backoff in 64-bit arithmetic, error classes, and the
    operations of \<open>schema\<close>, \<open>identity\<close> and \<open>publish\<close> over the generated SDK, a record of its calls.
  \<^item> \<open>Omnitest\<close> (omni/omnitest): the tests' platform, route by route, as such a record. \<open>Platform\<close> shows that the
    client over it keeps \<open>schema_platform\<close>, so \<open>schema apply\<close> converges on its rows; \<open>Adoption\<close> that a
    machine settles on one host record.
  \<^item> \<open>Config\<close> (config): \<open>Load\<close> reports every problem of the file, and every accepted setting it checks is within
    its bounds.
  \<^item> \<open>Prepare\<close>, \<open>Run\<close>, \<open>Daemon\<close> (cli): the commands from settings to exit code; the daemon is the step
    relation \<open>dstep\<close> over collections, ticks, publishes and cancellation, with invariants over all
    reachable states.
  \<^item> \<open>Service\<close>, \<open>Recording\<close> (service): a plan, its dry run, the settings to store and the watch on the started
    service; the calls of a host kept in order, to say what deciding reads and applying changes.
  \<^item> \<open>Envfile\<close>, \<open>Systemd\<close> (systemd): the settings file and its round trip; the exact sequence of changes of an
    installation and a removal.
  \<^item> \<open>Winsvc\<close>, \<open>Winfake\<close> (winsvc, winsvc/fakehost): the same for Windows, and an installation, upgrade and
    removal run on the in-memory host. \<open>Servicecmd\<close> (cli/service.go): the commands over either backend.
  \<^item> \<open>Version\<close>, \<open>Release\<close>, \<open>Upgrade\<close> (upgrade, cli/upgrade.go): release tags, their round trip and their order;
    which archive is chosen, its verified download; the upgrade, which runs nothing unverified and removes its
    stage.

  \<^bold>\<open>Conventions.\<close> What lies outside the repository is a parameter: the platform's answers, gopsutil, the
  clock, YAML, the generated SDK, URL parsing, archives, child processes, \<open>%v\<close> of a float. A world \<open>'w\<close> is threaded through those calls. Errors are constructors or
  the texts the code builds. A loop over a Go map walks the association list, in whatever order it is.
  Mutexes make each buffer operation one step; goroutines are the order of their steps.

  \<^bold>\<open>Bounds.\<close> Retries end by the configured count, upserts after 3 attempts, re-reads of the schema after 5,
  the waits of a settled read by its list of delays; all these recursions terminate without fuel. The roots
  of \<open>Gosha\<close> are taken over 40 bits, enough for 32 fractional ones. Removed samples are counted in nat: the
  code's counter would need centuries to wrap. In \<open>Daemon\<close> a publish is one step that takes any time.

  \<^bold>\<open>Not modelled.\<close> Text for the terminal and the log (printer, render, logging) and help; system calls
  (hostread for other platforms, the systemd and Windows hosts, the notify socket); the JSON of requests and
  their bodies in the log of the tests' platform; the fakes of systemd and of the release server.
\<close>

end
